(* ===== verification/Barry_Prelude.thy ===== *)
theory Barry_Prelude imports Main "HOL-Library.Word" begin

text \<open>
  Shared vocabulary of the development: machine types, C strings as byte lists,
  error values for every exception class the library throws, reads and writes of
  little-endian integers in byte buffers, and the generic list lemmas the component
  theories rely on. The host is little endian (the branch of src/src/endian.h taken
  when WORDS_BIGENDIAN is not defined).
\<close>

unbundle bit_operations_syntax

type_synonym byte = "8 word"
type_synonym u16 = "16 word"
type_synonym u32 = "32 word"
type_synonym u64 = "64 word"
type_synonym bytes = "byte list"

text \<open>C++ string literals as bytes.\<close>

definition lit :: "string \<Rightarrow> bytes" where
  "lit s = map of_char s"

named_theorems layout_simps \<open>evaluation of struct sizes, offsets and integer encodings\<close>
named_theorems res_simps \<open>results of operations in the error type\<close>

section \<open>Errors as values\<close>

text \<open>
  One constructor per exception class of src/src/error.h, of the USB layer and of the
  standard library that the modelled code throws. \<open>UB\<close> marks a step whose behaviour
  C++ leaves undefined (a read outside a buffer, an overlapping \<open>memcpy\<close>).
\<close>

datatype exn =
    BarryError string
  | BadSize nat nat nat
  | BadPassword string nat bool
  | SocketCloseOnOpen
  | BadPacket byte string
  | ReturnCodeError byte byte
  | BadData string
  | ValidationError string
  | LogicError string
  | BadPackedFormat byte
  | UsbTimeout
  | UsbError
  | UB string

type_synonym 'a res = "exn + 'a"

definition rbind :: "'a res \<Rightarrow> ('a \<Rightarrow> 'b res) \<Rightarrow> 'b res" where
  "rbind m f = (case m of Inl e \<Rightarrow> Inl e | Inr x \<Rightarrow> f x)"

lemma rbind_simps [simp]:
  "rbind (Inl e) f = Inl e"
  "rbind (Inr x) f = f x"
  by (simp_all add: rbind_def)

lemma rbind_assoc [simp]: "rbind (rbind m f) g = rbind m (\<lambda>x. rbind (f x) g)"
  by (cases m) simp_all

lemma rbind_eq_Inr: "rbind m f = Inr y \<longleftrightarrow> (\<exists>x. m = Inr x \<and> f x = Inr y)"
  by (cases m) simp_all

lemma rbind_eq_Inl: "rbind m f = Inl e \<longleftrightarrow> m = Inl e \<or> (\<exists>x. m = Inr x \<and> f x = Inl e)"
  by (cases m) auto

text \<open>Running a fallible step over a list, stopping at the first error.\<close>

primrec rfold :: "('s \<Rightarrow> 'a \<Rightarrow> 's res) \<Rightarrow> 's \<Rightarrow> 'a list \<Rightarrow> 's res" where
  "rfold f s [] = Inr s"
| "rfold f s (x # xs) = rbind (f s x) (\<lambda>s'. rfold f s' xs)"

lemma rfold_append: "rfold f s (xs @ ys) = rbind (rfold f s xs) (\<lambda>s'. rfold f s' ys)"
  by (induction xs arbitrary: s) simp_all

section \<open>Integers in byte buffers\<close>

definition byte_at :: "bytes \<Rightarrow> nat \<Rightarrow> byte" where
  "byte_at bs i = (if i < length bs then bs ! i else 0)"

definition le16 :: "u16 \<Rightarrow> bytes" where
  "le16 w = [ucast w, ucast (drop_bit 8 w)]"

definition le32 :: "u32 \<Rightarrow> bytes" where
  "le32 w = [ucast w, ucast (drop_bit 8 w), ucast (drop_bit 16 w), ucast (drop_bit 24 w)]"

definition le64 :: "u64 \<Rightarrow> bytes" where
  "le64 w = [ucast w, ucast (drop_bit 8 w), ucast (drop_bit 16 w), ucast (drop_bit 24 w),
             ucast (drop_bit 32 w), ucast (drop_bit 40 w), ucast (drop_bit 48 w), ucast (drop_bit 56 w)]"

definition get16 :: "bytes \<Rightarrow> nat \<Rightarrow> u16" where
  "get16 bs i = ucast (byte_at bs i) OR push_bit 8 (ucast (byte_at bs (i + 1)))"

definition get32 :: "bytes \<Rightarrow> nat \<Rightarrow> u32" where
  "get32 bs i = ucast (byte_at bs i) OR push_bit 8 (ucast (byte_at bs (i + 1)))
     OR push_bit 16 (ucast (byte_at bs (i + 2))) OR push_bit 24 (ucast (byte_at bs (i + 3)))"

definition get64 :: "bytes \<Rightarrow> nat \<Rightarrow> u64" where
  "get64 bs i = ucast (get32 bs i) OR push_bit 32 (ucast (get32 bs (i + 4)))"

lemma length_le [simp]: "length (le16 v) = 2" "length (le32 w) = 4" "length (le64 x) = 8"
  by (simp_all add: le16_def le32_def le64_def)

lemma byte_at_append [simp]:
  "byte_at (xs @ ys) i = (if i < length xs then byte_at xs i else byte_at ys (i - length xs))"
  by (auto simp: byte_at_def nth_append)

lemma byte_at_Nil [simp]: "byte_at [] i = 0"
  by (simp add: byte_at_def)

lemma byte_at_Cons [simp]:
  "byte_at (x # xs) 0 = x" "byte_at (x # xs) (Suc i) = byte_at xs i"
  by (simp_all add: byte_at_def)

lemma byte_at_Cons_numeral [simp]:
  "byte_at (x # xs) (numeral n) = byte_at xs (pred_numeral n)"
  by (simp add: numeral_eq_Suc)

lemma byte_at_le16 [simp]:
  "byte_at (le16 w) 0 = ucast w" "byte_at (le16 w) (Suc 0) = ucast (drop_bit 8 w)"
  by (simp_all add: le16_def)

lemma byte_at_drop [simp]: "byte_at (drop n xs) i = byte_at xs (n + i)"
  by (auto simp: byte_at_def add.commute)

lemma byte_at_take: "i < n \<Longrightarrow> byte_at (take n xs) i = byte_at xs i"
  by (auto simp: byte_at_def)

lemma get16_drop [simp]: "get16 (drop n xs) i = get16 xs (n + i)"
  by (simp add: get16_def add.assoc)

lemma get32_drop [simp]: "get32 (drop n xs) i = get32 xs (n + i)"
  by (simp add: get32_def add.assoc)

lemma word16_split: "ucast (ucast (w :: u16) :: byte) OR push_bit 8 (ucast (ucast (drop_bit 8 w) :: byte)) = w"
  by (rule bit_word_eqI) (auto simp: bit_simps)

lemma get16_le16 [simp]: "get16 (le16 w @ xs) 0 = w" "get16 (le16 w) 0 = w"
  by (simp_all add: get16_def word16_split)

lemma word32_split:
  "ucast (ucast (w :: u32) :: byte) OR push_bit 8 (ucast (ucast (drop_bit 8 w) :: byte))
     OR push_bit 16 (ucast (ucast (drop_bit 16 w) :: byte))
     OR push_bit 24 (ucast (ucast (drop_bit 24 w) :: byte)) = w"
proof (rule bit_word_eqI)
  fix n assume "n < LENGTH(32)"
  then show "bit (ucast (ucast w :: byte) OR push_bit 8 (ucast (ucast (drop_bit 8 w) :: byte))
     OR push_bit 16 (ucast (ucast (drop_bit 16 w) :: byte))
     OR push_bit 24 (ucast (ucast (drop_bit 24 w) :: byte)) :: u32) n = bit w n"
    by (cases "n < 8"; cases "n < 16"; cases "n < 24") (auto simp: bit_simps not_less)
qed

lemma get32_le32 [simp]: "get32 (le32 w @ xs) 0 = w" "get32 (le32 w) 0 = w"
  by (simp_all add: get32_def le32_def word32_split)

lemma byte_at_append_skip: "byte_at (xs @ ys) (length xs + k) = byte_at ys k"
  by simp

lemma get16_append_skip [simp]: "length xs \<le> i \<Longrightarrow> get16 (xs @ ys) i = get16 ys (i - length xs)"
  by (drule le_Suc_ex) (clarsimp simp only: get16_def add.assoc byte_at_append_skip diff_add_inverse)

lemma get32_append_skip [simp]: "length xs \<le> i \<Longrightarrow> get32 (xs @ ys) i = get32 ys (i - length xs)"
  by (drule le_Suc_ex) (clarsimp simp only: get32_def add.assoc byte_at_append_skip diff_add_inverse)

lemma get_Cons_Suc [simp]: "get16 (x # xs) (Suc i) = get16 xs i" "get32 (x # xs) (Suc i) = get32 xs i"
  using get16_append_skip[of "[x]" "Suc i" xs] get32_append_skip[of "[x]" "Suc i" xs] by simp_all

lemma get_Cons_numeral [simp]:
  "get16 (x # xs) (numeral n) = get16 xs (pred_numeral n)"
  "get32 (x # xs) (numeral n) = get32 xs (pred_numeral n)"
  by (simp_all add: numeral_eq_Suc)

lemma get16_append_left: "i + 2 \<le> length xs \<Longrightarrow> get16 (xs @ ys) i = get16 xs i"
  by (simp add: get16_def)

lemma get32_append_left: "i + 4 \<le> length xs \<Longrightarrow> get32 (xs @ ys) i = get32 xs i"
  by (simp add: get32_def)

lemma word64_split:
  "ucast (ucast (w :: u64) :: u32) OR push_bit 32 (ucast (ucast (drop_bit 32 w) :: u32)) = w"
  by (rule bit_word_eqI) (auto simp: bit_simps)

lemma le64_split: "le64 w = le32 (ucast w) @ le32 (ucast (drop_bit 32 w))"
proof -
  have "ucast (drop_bit n (ucast w :: u32)) = (ucast (drop_bit n w) :: byte)" if "n \<le> 24" for n
    using that by (intro bit_word_eqI) (auto simp: bit_simps)
  moreover have "ucast (drop_bit n (ucast (drop_bit 32 w) :: u32)) = (ucast (drop_bit (32 + n) w) :: byte)"
    if "n \<le> 24" for n
    using that by (intro bit_word_eqI) (auto simp: bit_simps ac_simps)
  moreover have "ucast (ucast w :: u32) = (ucast w :: byte)"
    by (intro bit_word_eqI) (auto simp: bit_simps)
  moreover have "ucast (ucast (drop_bit 32 w) :: u32) = (ucast (drop_bit 32 w) :: byte)"
    by (intro bit_word_eqI) (auto simp: bit_simps)
  ultimately show ?thesis
    by (simp add: le64_def le32_def)
qed

lemma get64_le64 [simp]: "get64 (le64 w @ xs) 0 = w" "get64 (le64 w) 0 = w"
  by (simp_all add: get64_def le64_split word64_split get32_append_left)

text \<open>Reads that the code does not guard: past the end of the buffer they are undefined.\<close>

definition rd8 :: "bytes \<Rightarrow> nat \<Rightarrow> byte res" where
  "rd8 bs i = (if i < length bs then Inr (byte_at bs i) else Inl (UB ''read past the end of the data''))"

definition rd16 :: "bytes \<Rightarrow> nat \<Rightarrow> u16 res" where
  "rd16 bs i = (if i + 2 \<le> length bs then Inr (get16 bs i) else Inl (UB ''read past the end of the data''))"

definition rd32 :: "bytes \<Rightarrow> nat \<Rightarrow> u32 res" where
  "rd32 bs i = (if i + 4 \<le> length bs then Inr (get32 bs i) else Inl (UB ''read past the end of the data''))"

text \<open>Overwriting part of a buffer in place.\<close>

definition poke :: "nat \<Rightarrow> bytes \<Rightarrow> bytes \<Rightarrow> bytes" where
  "poke i ws bs = take i bs @ ws @ drop (i + length ws) bs"

lemma length_poke [simp]: "i + length ws \<le> length bs \<Longrightarrow> length (poke i ws bs) = length bs"
  by (simp add: poke_def)

lemma take_poke_before [simp]: "n \<le> i \<Longrightarrow> i \<le> length bs \<Longrightarrow> take n (poke i ws bs) = take n bs"
  by (simp add: poke_def min_def)

lemma drop_poke_after:
  "i + length ws \<le> n \<Longrightarrow> i + length ws \<le> length bs \<Longrightarrow> drop n (poke i ws bs) = drop n bs"
  by (simp add: poke_def)

lemma drop_poke_at: "i \<le> length bs \<Longrightarrow> drop i (poke i ws bs) = ws @ drop (i + length ws) bs"
  by (simp add: poke_def)

lemma byte_at_poke:
  "i + length ws \<le> length bs \<Longrightarrow>
   byte_at (poke i ws bs) k = (if i \<le> k \<and> k < i + length ws then byte_at ws (k - i) else byte_at bs k)"
  by (auto simp: poke_def byte_at_def nth_append min_def)

section \<open>Lists\<close>

text \<open>The bytes before the first NUL: what \<open>c_str()\<close> shows to a C function.\<close>

definition c_str :: "bytes \<Rightarrow> bytes" where
  "c_str s = takeWhile (\<lambda>c. c \<noteq> 0) s"

lemma c_str_id [simp]:
  assumes "0 \<notin> set s" shows "c_str s = s"
proof -
  have "\<forall>x \<in> set s. x \<noteq> 0" using assms by blast
  then show ?thesis unfolding c_str_def by (subst takeWhile_eq_all_conv)
qed

lemma c_str_append_nul [simp]: "0 \<notin> set s \<Longrightarrow> c_str (s @ 0 # t) = s"
proof (induction s)
  case Nil
  show ?case by (simp add: c_str_def)
next
  case (Cons x s)
  then have "x \<noteq> 0" and "0 \<notin> set s" by auto
  with Cons.IH show ?case by (simp add: c_str_def)
qed

lemma unat_ucast_u16 [simp]: "n < 65536 \<Longrightarrow> unat (word_of_nat n :: u16) = n"
  by (simp add: unat_of_nat take_bit_nat_eq_self)

lemma unat_Suc_u16 [simp]: "Suc n < 65536 \<Longrightarrow> unat (1 + word_of_nat n :: u16) = Suc n"
  using unat_ucast_u16[of "Suc n"] by simp

lemma unat_add_u16 [simp]:
  "numeral k + n < 65536 \<Longrightarrow> unat (numeral k + word_of_nat n :: u16) = numeral k + n"
  using unat_ucast_u16[of "numeral k + n"] by simp

end
