(* ===== verification/Endian.thy ===== *)
theory Endian imports Barry_Prelude begin

text \<open>
  Byte order conversion (src/src/endian.h). On the modelled little-endian host the
  device order macros btohs, btohl and btohll and their inverses are the identity and
  vanish from the model; the big-endian ones used by the JavaLoader and JVM debug
  protocols are the swaps below.
\<close>

definition bbswap_16 :: "u16 \<Rightarrow> u16" where
  "bbswap_16 x = drop_bit 8 x OR push_bit 8 x"

definition bbswap_32 :: "u32 \<Rightarrow> u32" where
  "bbswap_32 x = push_bit 16 (ucast (bbswap_16 (ucast (x AND 0xffff))))
     OR ucast (bbswap_16 (ucast (drop_bit 16 x)))"

definition bbswap_64 :: "u64 \<Rightarrow> u64" where
  "bbswap_64 x = push_bit 32 (ucast (bbswap_32 (ucast (x AND 0xffffffff))))
     OR ucast (bbswap_32 (ucast (drop_bit 32 x)))"

lemma bit_bbswap_16:
  "bit (bbswap_16 x) n \<longleftrightarrow> n < 16 \<and> bit x (if n < 8 then n + 8 else n - 8)"
  by (auto simp: bbswap_16_def bit_simps add.commute dest: bit_imp_le_length)

lemma bbswap_16_invol [simp]: "bbswap_16 (bbswap_16 x) = x"
  by (rule bit_word_eqI) (auto simp: bit_bbswap_16)

lemma and_low16: "x AND 0xffff = take_bit 16 (x :: u32)"
  by (simp add: take_bit_eq_mask mask_eq_exp_minus_1)

lemma and_low32: "x AND 0xffffffff = take_bit 32 (x :: u64)"
  by (simp add: take_bit_eq_mask mask_eq_exp_minus_1)

lemma bit_bbswap_32:
  "bit (bbswap_32 x) n \<longleftrightarrow> n < 32 \<and> bit x (if n < 8 then n + 24 else if n < 16 then n + 8
     else if n < 24 then n - 8 else n - 24)"
  by (cases "n < 8"; cases "n < 16"; cases "n < 24")
     (auto simp: bbswap_32_def and_low16 bit_simps bit_bbswap_16 not_less add.commute
           dest: bit_imp_le_length)

lemma bbswap_32_invol [simp]: "bbswap_32 (bbswap_32 x) = x"
proof (rule bit_word_eqI)
  fix n assume "n < LENGTH(32)"
  then show "bit (bbswap_32 (bbswap_32 x)) n = bit x n"
    by (cases "n < 8"; cases "n < 16"; cases "n < 24") (auto simp: bit_bbswap_32 not_less)
qed

lemma bit_bbswap_64:
  "bit (bbswap_64 x) n \<longleftrightarrow> n < 64 \<and>
     (if n < 32 then bit (bbswap_32 (ucast (drop_bit 32 x))) n
      else bit (bbswap_32 (ucast x)) (n - 32))"
proof -
  have "(ucast (take_bit 32 x) :: u32) = ucast x"
    by (rule bit_word_eqI) (auto simp: bit_simps)
  then show ?thesis
    by (auto simp: bbswap_64_def and_low32 bit_simps dest: bit_imp_le_length)
qed

lemma bbswap_64_halves:
  "ucast (bbswap_64 x) = bbswap_32 (ucast (drop_bit 32 x))"
  "ucast (drop_bit 32 (bbswap_64 x)) = bbswap_32 (ucast x)"
  by (rule bit_word_eqI, auto simp: bit_simps bit_bbswap_64)+

lemma bbswap_64_invol [simp]: "bbswap_64 (bbswap_64 x) = x"
  by (rule bit_word_eqI) (auto simp: bit_bbswap_64 bbswap_64_halves bit_simps)

text \<open>A swapped integer is stored with its bytes in reverse order.\<close>

lemma le16_bbswap: "le16 (bbswap_16 x) = rev (le16 x)"
proof -
  have "(ucast (bbswap_16 x) :: byte) = ucast (drop_bit 8 x)"
       "(ucast (drop_bit 8 (bbswap_16 x)) :: byte) = ucast x"
    by (rule bit_word_eqI, auto simp: bit_simps bit_bbswap_16 add.commute)+
  then show ?thesis by (simp add: le16_def)
qed

lemma le32_bbswap: "le32 (bbswap_32 x) = rev (le32 x)"
proof -
  have "(ucast (bbswap_32 x) :: byte) = ucast (drop_bit 24 x)"
       "(ucast (drop_bit 8 (bbswap_32 x)) :: byte) = ucast (drop_bit 16 x)"
       "(ucast (drop_bit 16 (bbswap_32 x)) :: byte) = ucast (drop_bit 8 x)"
       "(ucast (drop_bit 24 (bbswap_32 x)) :: byte) = ucast x"
    by (rule bit_word_eqI, auto simp: bit_simps bit_bbswap_32 add.commute)+
  then show ?thesis by (simp add: le32_def)
qed

end
