(* ===== verification/Protocol.thy ===== *)
theory Protocol imports Endian begin

text \<open>
  The wire protocol: command codes (src/src/protocol.h), the packed struct layouts and
  header sizes (src/src/protostructs.h) and the packet checks every response passes
  through (src/src/protocol.cc). A packet is the byte list a Data object holds; a struct
  member is named by its offset.
\<close>

section \<open>Command codes\<close>

definition SB_COMMAND_ECHO :: byte where [layout_simps]: "SB_COMMAND_ECHO = 0x01"
definition SB_COMMAND_ECHO_REPLY :: byte where [layout_simps]: "SB_COMMAND_ECHO_REPLY = 0x02"
definition SB_COMMAND_RESET :: byte where [layout_simps]: "SB_COMMAND_RESET = 0x03"
definition SB_COMMAND_RESET_REPLY :: byte where [layout_simps]: "SB_COMMAND_RESET_REPLY = 0x04"
definition SB_COMMAND_FETCH_ATTRIBUTE :: byte where [layout_simps]: "SB_COMMAND_FETCH_ATTRIBUTE = 0x05"
definition SB_COMMAND_FETCHED_ATTRIBUTE :: byte where [layout_simps]: "SB_COMMAND_FETCHED_ATTRIBUTE = 0x06"
definition SB_COMMAND_SELECT_MODE :: byte where [layout_simps]: "SB_COMMAND_SELECT_MODE = 0x07"
definition SB_COMMAND_MODE_SELECTED :: byte where [layout_simps]: "SB_COMMAND_MODE_SELECTED = 0x08"
definition SB_COMMAND_MODE_NOT_SELECTED :: byte where [layout_simps]: "SB_COMMAND_MODE_NOT_SELECTED = 0x09"
definition SB_COMMAND_OPEN_SOCKET :: byte where [layout_simps]: "SB_COMMAND_OPEN_SOCKET = 0x0a"
definition SB_COMMAND_CLOSE_SOCKET :: byte where [layout_simps]: "SB_COMMAND_CLOSE_SOCKET = 0x0b"
definition SB_COMMAND_CLOSED_SOCKET :: byte where [layout_simps]: "SB_COMMAND_CLOSED_SOCKET = 0x0c"
definition SB_COMMAND_REMOTE_CLOSE_SOCKET :: byte where [layout_simps]: "SB_COMMAND_REMOTE_CLOSE_SOCKET = 0x0d"
definition SB_COMMAND_PASSWORD_CHALLENGE :: byte where [layout_simps]: "SB_COMMAND_PASSWORD_CHALLENGE = 0x0e"
definition SB_COMMAND_PASSWORD :: byte where [layout_simps]: "SB_COMMAND_PASSWORD = 0x0f"
definition SB_COMMAND_OPENED_SOCKET :: byte where [layout_simps]: "SB_COMMAND_OPENED_SOCKET = 0x10"
definition SB_COMMAND_PASSWORD_FAILED :: byte where [layout_simps]: "SB_COMMAND_PASSWORD_FAILED = 0x11"
definition SB_COMMAND_SEQUENCE_HANDSHAKE :: byte where [layout_simps]: "SB_COMMAND_SEQUENCE_HANDSHAKE = 0x13"
definition SB_COMMAND_DB_DATA :: byte where [layout_simps]: "SB_COMMAND_DB_DATA = 0x40"
definition SB_COMMAND_DB_FRAGMENTED :: byte where [layout_simps]: "SB_COMMAND_DB_FRAGMENTED = 0x60"
definition SB_COMMAND_DB_DONE :: byte where [layout_simps]: "SB_COMMAND_DB_DONE = 0x41"
definition SB_COMMAND_JL_HELLO :: byte where [layout_simps]: "SB_COMMAND_JL_HELLO = 0x64"
definition SB_COMMAND_JL_HELLO_ACK :: byte where [layout_simps]: "SB_COMMAND_JL_HELLO_ACK = 0x65"
definition SB_COMMAND_JL_GOODBYE :: byte where [layout_simps]: "SB_COMMAND_JL_GOODBYE = 0x8d"
definition SB_COMMAND_JL_SET_UNKNOWN1 :: byte where [layout_simps]: "SB_COMMAND_JL_SET_UNKNOWN1 = 0x70"
definition SB_COMMAND_JL_SET_COD_FILENAME :: byte where [layout_simps]: "SB_COMMAND_JL_SET_COD_FILENAME = 0x80"
definition SB_COMMAND_JL_SET_COD_SIZE :: byte where [layout_simps]: "SB_COMMAND_JL_SET_COD_SIZE = 0x67"
definition SB_COMMAND_JL_SEND_DATA :: byte where [layout_simps]: "SB_COMMAND_JL_SEND_DATA = 0x68"
definition SB_COMMAND_JL_SET_TIME :: byte where [layout_simps]: "SB_COMMAND_JL_SET_TIME = 0x7c"
definition SB_COMMAND_JL_GET_SCREENSHOT :: byte where [layout_simps]: "SB_COMMAND_JL_GET_SCREENSHOT = 0x87"
definition SB_COMMAND_JL_DEVICE_INFO :: byte where [layout_simps]: "SB_COMMAND_JL_DEVICE_INFO = 0x71"
definition SB_COMMAND_JL_OS_METRICS :: byte where [layout_simps]: "SB_COMMAND_JL_OS_METRICS = 0x78"
definition SB_COMMAND_JL_BOOTROM_METRICS :: byte where [layout_simps]: "SB_COMMAND_JL_BOOTROM_METRICS = 0x79"
definition SB_COMMAND_JL_GET_DIRECTORY :: byte where [layout_simps]: "SB_COMMAND_JL_GET_DIRECTORY = 0x6d"
definition SB_COMMAND_JL_GET_DATA_ENTRY :: byte where [layout_simps]: "SB_COMMAND_JL_GET_DATA_ENTRY = 0x6e"
definition SB_COMMAND_JL_GET_SUBDIR :: byte where [layout_simps]: "SB_COMMAND_JL_GET_SUBDIR = 0x7f"
definition SB_COMMAND_JL_GET_LOG :: byte where [layout_simps]: "SB_COMMAND_JL_GET_LOG = 0x73"
definition SB_COMMAND_JL_GET_LOG_ENTRY :: byte where [layout_simps]: "SB_COMMAND_JL_GET_LOG_ENTRY = 0x74"
definition SB_COMMAND_JL_CLEAR_LOG :: byte where [layout_simps]: "SB_COMMAND_JL_CLEAR_LOG = 0x88"
definition SB_COMMAND_JL_SAVE_MODULE :: byte where [layout_simps]: "SB_COMMAND_JL_SAVE_MODULE = 0x7e"
definition SB_COMMAND_JL_WIPE_APPS :: byte where [layout_simps]: "SB_COMMAND_JL_WIPE_APPS = 0x6a"
definition SB_COMMAND_JL_WIPE_FS :: byte where [layout_simps]: "SB_COMMAND_JL_WIPE_FS = 0x6b"
definition SB_COMMAND_JL_LOG_STRACES :: byte where [layout_simps]: "SB_COMMAND_JL_LOG_STRACES = 0x8e"
definition SB_COMMAND_JL_RESET_FACTORY :: byte where [layout_simps]: "SB_COMMAND_JL_RESET_FACTORY = 0x91"
definition SB_COMMAND_JL_ACK :: byte where [layout_simps]: "SB_COMMAND_JL_ACK = 0x64"
definition SB_COMMAND_JL_READY :: byte where [layout_simps]: "SB_COMMAND_JL_READY = 0x01"
definition SB_COMMAND_JL_RESET_REQUIRED :: byte where [layout_simps]: "SB_COMMAND_JL_RESET_REQUIRED = 0x78"
definition SB_COMMAND_JL_NOT_SUPPORTED :: byte where [layout_simps]: "SB_COMMAND_JL_NOT_SUPPORTED = 0x71"
definition SB_COMMAND_JVM_UNKNOWN01 :: byte where [layout_simps]: "SB_COMMAND_JVM_UNKNOWN01 = 0x53"
definition SB_COMMAND_JVM_UNKNOWN02 :: byte where [layout_simps]: "SB_COMMAND_JVM_UNKNOWN02 = 0x01"
definition SB_COMMAND_JVM_UNKNOWN03 :: byte where [layout_simps]: "SB_COMMAND_JVM_UNKNOWN03 = 0x6f"
definition SB_COMMAND_JVM_UNKNOWN04 :: byte where [layout_simps]: "SB_COMMAND_JVM_UNKNOWN04 = 0x8a"
definition SB_COMMAND_JVM_UNKNOWN05 :: byte where [layout_simps]: "SB_COMMAND_JVM_UNKNOWN05 = 0x90"
definition SB_COMMAND_JVM_UNKNOWN06 :: byte where [layout_simps]: "SB_COMMAND_JVM_UNKNOWN06 = 0x44"
definition SB_COMMAND_JVM_UNKNOWN07 :: byte where [layout_simps]: "SB_COMMAND_JVM_UNKNOWN07 = 0x45"
definition SB_COMMAND_JVM_UNKNOWN08 :: byte where [layout_simps]: "SB_COMMAND_JVM_UNKNOWN08 = 0x54"
definition SB_COMMAND_JVM_UNKNOWN09 :: byte where [layout_simps]: "SB_COMMAND_JVM_UNKNOWN09 = 0x33"
definition SB_COMMAND_JVM_UNKNOWN10 :: byte where [layout_simps]: "SB_COMMAND_JVM_UNKNOWN10 = 0x46"
definition SB_COMMAND_JVM_UNKNOWN11 :: byte where [layout_simps]: "SB_COMMAND_JVM_UNKNOWN11 = 0x0e"
definition SB_COMMAND_JVM_UNKNOWN12 :: byte where [layout_simps]: "SB_COMMAND_JVM_UNKNOWN12 = 0x50"
definition SB_COMMAND_JVM_UNKNOWN13 :: byte where [layout_simps]: "SB_COMMAND_JVM_UNKNOWN13 = 0x0d"
definition SB_COMMAND_JVM_UNKNOWN14 :: byte where [layout_simps]: "SB_COMMAND_JVM_UNKNOWN14 = 0x85"
definition SB_COMMAND_JVM_UNKNOWN15 :: byte where [layout_simps]: "SB_COMMAND_JVM_UNKNOWN15 = 0x84"
definition SB_COMMAND_JVM_GET_MODULES_LIST :: byte where [layout_simps]: "SB_COMMAND_JVM_GET_MODULES_LIST = 0x8d"
definition SB_COMMAND_JVM_GET_THREADS_LIST :: byte where [layout_simps]: "SB_COMMAND_JVM_GET_THREADS_LIST = 0x08"
definition SB_COMMAND_JVM_GET_CONSOLE_MSG :: byte where [layout_simps]: "SB_COMMAND_JVM_GET_CONSOLE_MSG = 0x40"
definition SB_COMMAND_JVM_GO :: byte where [layout_simps]: "SB_COMMAND_JVM_GO = 0x02"
definition SB_COMMAND_JVM_GET_STATUS :: byte where [layout_simps]: "SB_COMMAND_JVM_GET_STATUS = 0x06"
definition SB_COMMAND_JVM_STOP :: u16 where [layout_simps]: "SB_COMMAND_JVM_STOP = 0xa502"
definition SB_DATA_JL_INVALID :: byte where [layout_simps]: "SB_DATA_JL_INVALID = 0x68"
definition SB_DBOP_ADD_RECORD :: byte where [layout_simps]: "SB_DBOP_ADD_RECORD = 0x41"
definition SB_DBOP_CLEAR_DATABASE :: byte where [layout_simps]: "SB_DBOP_CLEAR_DATABASE = 0x43"
definition SB_DBOP_GET_DBDB :: byte where [layout_simps]: "SB_DBOP_GET_DBDB = 0x4a"
definition SB_DBOP_OLD_GET_DBDB :: byte where [layout_simps]: "SB_DBOP_OLD_GET_DBDB = 0x4c"
definition SB_DBOP_OLD_GET_RECORDS :: byte where [layout_simps]: "SB_DBOP_OLD_GET_RECORDS = 0x42"
definition SB_DBOP_GET_RECORD_STATE_TABLE :: byte where [layout_simps]: "SB_DBOP_GET_RECORD_STATE_TABLE = 0x53"
definition SB_DBOP_SET_RECORD_FLAGS :: byte where [layout_simps]: "SB_DBOP_SET_RECORD_FLAGS = 0x54"
definition SB_DBOP_GET_RECORD_BY_INDEX :: byte where [layout_simps]: "SB_DBOP_GET_RECORD_BY_INDEX = 0x46"
definition SB_DBOP_SET_RECORD_BY_INDEX :: byte where [layout_simps]: "SB_DBOP_SET_RECORD_BY_INDEX = 0x55"
definition SB_DBOP_DELETE_RECORD_BY_INDEX :: byte where [layout_simps]: "SB_DBOP_DELETE_RECORD_BY_INDEX = 0x52"

section \<open>Struct sizes\<close>

definition sizeof_GroupLink :: nat where [layout_simps]: "sizeof_GroupLink = 4 + 2"
definition COMMON_FIELD_HEADER_SIZE :: nat where [layout_simps]: "COMMON_FIELD_HEADER_SIZE = 2 + 1"
definition COMMON_FIELD_MIN1900_SIZE :: nat where [layout_simps]: "COMMON_FIELD_MIN1900_SIZE = 4"
definition sizeof_CommandTableField :: nat where [layout_simps]: "sizeof_CommandTableField = 1 + 1 + 1"
definition COMMAND_FIELD_HEADER_SIZE :: nat where [layout_simps]: "COMMAND_FIELD_HEADER_SIZE = sizeof_CommandTableField - 1"
definition sizeof_OldDBDBField :: nat where [layout_simps]: "sizeof_OldDBDBField = 2 + 1 + 4 + 2 + 2 + 2 + 1"
definition sizeof_DBDBField :: nat where [layout_simps]: "sizeof_DBDBField = 2 + 1 + 4 + 4 + 2 + 2 + 1 + 1 + 2"
definition sizeof_RecordStateTableField :: nat where [layout_simps]: "sizeof_RecordStateTableField = 1 + 2 + 4 + 1 + 4"
definition CALENDAR_RECURRENCE_DATA_FIELD_SIZE :: nat where [layout_simps]: "CALENDAR_RECURRENCE_DATA_FIELD_SIZE = 1 + 1 + 2 + 4 + 4 + 6"
definition DBC_RECORD_HEADER_SIZE :: nat where [layout_simps]: "DBC_RECORD_HEADER_SIZE = 2"
definition DBC_RECORD_FLAGS_SIZE :: nat where [layout_simps]: "DBC_RECORD_FLAGS_SIZE = 1 + 2 + 5"
definition DBC_TAGGED_UPLOAD_HEADER_SIZE :: nat where [layout_simps]: "DBC_TAGGED_UPLOAD_HEADER_SIZE = 1 + 4 + 1"
definition DBC_INDEXED_UPLOAD_HEADER_SIZE :: nat where [layout_simps]: "DBC_INDEXED_UPLOAD_HEADER_SIZE = 1 + 2"
definition PASSWORD_CHALLENGE_HEADER_SIZE :: nat where [layout_simps]: "PASSWORD_CHALLENGE_HEADER_SIZE = 1 + 1 + 2"
definition PASSWORD_CHALLENGE_SEED_SIZE :: nat where [layout_simps]: "PASSWORD_CHALLENGE_SEED_SIZE = PASSWORD_CHALLENGE_HEADER_SIZE + 4"
definition PASSWORD_CHALLENGE_SIZE :: nat where [layout_simps]: "PASSWORD_CHALLENGE_SIZE = PASSWORD_CHALLENGE_HEADER_SIZE + 20"
definition ATTRIBUTE_FETCH_COMMAND_SIZE :: nat where [layout_simps]: "ATTRIBUTE_FETCH_COMMAND_SIZE = 2 + 2"
definition ECHO_COMMAND_SIZE :: nat where [layout_simps]: "ECHO_COMMAND_SIZE = 8"
definition SOCKET_COMMAND_HEADER_SIZE :: nat where [layout_simps]: "SOCKET_COMMAND_HEADER_SIZE = 2 + 1"
definition sizeof_SequenceCommand :: nat where [layout_simps]: "sizeof_SequenceCommand = 1 + 1 + 1 + 4"
definition DB_COMMAND_HEADER_SIZE :: nat where [layout_simps]: "DB_COMMAND_HEADER_SIZE = 1 + 2"
definition OLD_DBDB_RECORD_HEADER_SIZE :: nat where [layout_simps]: "OLD_DBDB_RECORD_HEADER_SIZE = 2"
definition DBDB_RECORD_HEADER_SIZE :: nat where [layout_simps]: "DBDB_RECORD_HEADER_SIZE = 2 + 3"
definition DBR_OLD_TAGGED_RECORD_HEADER_SIZE :: nat where [layout_simps]: "DBR_OLD_TAGGED_RECORD_HEADER_SIZE = 1 + 2 + 4 + 1"
definition DB_RESPONSE_HEADER_SIZE :: nat where [layout_simps]: "DB_RESPONSE_HEADER_SIZE = 1"
definition SB_DBACCESS_HEADER_SIZE :: nat where [layout_simps]: "SB_DBACCESS_HEADER_SIZE = 1"
definition SB_DBACCESS_RETURN_CODE_SIZE :: nat where [layout_simps]: "SB_DBACCESS_RETURN_CODE_SIZE = 1"
definition SB_JLPACKET_HEADER_SIZE :: nat where [layout_simps]: "SB_JLPACKET_HEADER_SIZE = 2 + 2"
definition SB_JLRESPONSE_HEADER_SIZE :: nat where [layout_simps]: "SB_JLRESPONSE_HEADER_SIZE = 1 + 1 + 2"
definition SB_JVMPACKET_HEADER_SIZE :: nat where [layout_simps]: "SB_JVMPACKET_HEADER_SIZE = 2 + 2"
definition SB_PACKET_SOCKET_SIZE :: nat where [layout_simps]: "SB_PACKET_SOCKET_SIZE = 2"
definition SB_PACKET_HEADER_SIZE :: nat where [layout_simps]: "SB_PACKET_HEADER_SIZE = 2 + 2 + 1"
definition MIN_PACKET_SIZE :: nat where [layout_simps]: "MIN_PACKET_SIZE = 5"
definition MIN_PACKET_DATA_SIZE :: nat where [layout_simps]: "MIN_PACKET_DATA_SIZE = 4"
definition MAX_PACKET_SIZE :: nat where [layout_simps]: "MAX_PACKET_SIZE = 0x400"
definition MAX_PACKET_DATA_SIZE :: nat where [layout_simps]: "MAX_PACKET_DATA_SIZE = 0x7FC"
definition SB_PACKET_DBACCESS_HEADER_SIZE :: nat where [layout_simps]: "SB_PACKET_DBACCESS_HEADER_SIZE = SB_PACKET_HEADER_SIZE + SB_DBACCESS_HEADER_SIZE"
definition SB_FRAG_HEADER_SIZE :: nat where [layout_simps]: "SB_FRAG_HEADER_SIZE = SB_PACKET_DBACCESS_HEADER_SIZE"
definition SB_PACKET_COMMAND_HEADER_SIZE :: nat where [layout_simps]: "SB_PACKET_COMMAND_HEADER_SIZE = SB_PACKET_DBACCESS_HEADER_SIZE + DB_COMMAND_HEADER_SIZE"
definition SB_PACKET_RESPONSE_HEADER_SIZE :: nat where [layout_simps]: "SB_PACKET_RESPONSE_HEADER_SIZE = SB_PACKET_DBACCESS_HEADER_SIZE + DB_RESPONSE_HEADER_SIZE"
definition SB_PACKET_DBDB_HEADER_SIZE :: nat where [layout_simps]: "SB_PACKET_DBDB_HEADER_SIZE = SB_PACKET_RESPONSE_HEADER_SIZE + DBDB_RECORD_HEADER_SIZE"
definition SB_PACKET_OLD_DBDB_HEADER_SIZE :: nat where [layout_simps]: "SB_PACKET_OLD_DBDB_HEADER_SIZE = SB_PACKET_RESPONSE_HEADER_SIZE + OLD_DBDB_RECORD_HEADER_SIZE"
definition SB_SEQUENCE_PACKET_SIZE :: nat where [layout_simps]: "SB_SEQUENCE_PACKET_SIZE = SB_PACKET_HEADER_SIZE + sizeof_SequenceCommand"
definition SB_SOCKET_PACKET_HEADER_SIZE :: nat where [layout_simps]: "SB_SOCKET_PACKET_HEADER_SIZE = SB_PACKET_HEADER_SIZE + SOCKET_COMMAND_HEADER_SIZE"

section \<open>Member offsets in a packet\<close>

text \<open>
  Packet: socket, size, command, then a union. Its members: SocketCommand (socket,
  sequence, union), SequenceCommand (socket, two unknown bytes, sequenceId), DBAccess
  (tableCmd, union of DBCommand and DBResponse).
\<close>

definition off_size :: nat where [layout_simps]: "off_size = 2"
definition off_command :: nat where [layout_simps]: "off_command = 4"
definition off_u_socket_socket :: nat where [layout_simps]: "off_u_socket_socket = SB_PACKET_HEADER_SIZE"
definition off_u_socket_sequence :: nat where [layout_simps]: "off_u_socket_sequence = SB_PACKET_HEADER_SIZE + 2"
definition SB_MODE_REQUEST_SOCKET :: u16 where [layout_simps]: "SB_MODE_REQUEST_SOCKET = 0x00ff"
definition sizeof_mode_name :: nat where [layout_simps]: "sizeof_mode_name = 16"
definition SB_MODE_PACKET_COMMAND_SIZE :: nat where [layout_simps]: "SB_MODE_PACKET_COMMAND_SIZE = SB_SOCKET_PACKET_HEADER_SIZE + sizeof_mode_name"
definition off_u_socket_u :: nat where [layout_simps]: "off_u_socket_u = SB_SOCKET_PACKET_HEADER_SIZE"
definition off_u_sequence_socket :: nat where [layout_simps]: "off_u_sequence_socket = SB_PACKET_HEADER_SIZE"
definition off_u_sequence_sequenceId :: nat where [layout_simps]: "off_u_sequence_sequenceId = SB_PACKET_HEADER_SIZE + 3"
definition off_db_tableCmd :: nat where [layout_simps]: "off_db_tableCmd = SB_PACKET_HEADER_SIZE"
definition off_db_u :: nat where [layout_simps]: "off_db_u = SB_PACKET_DBACCESS_HEADER_SIZE"
definition off_db_command_u :: nat where [layout_simps]: "off_db_command_u = SB_PACKET_COMMAND_HEADER_SIZE"
definition off_db_response_u :: nat where [layout_simps]: "off_db_response_u = SB_PACKET_RESPONSE_HEADER_SIZE"

section \<open>Packet checks\<close>

definition packet_size_field :: "bytes \<Rightarrow> nat" where
  "packet_size_field packet = unat (get16 packet off_size)"

definition CheckSize :: "bytes \<Rightarrow> nat \<Rightarrow> unit res" where
  "CheckSize packet requiredsize =
     (if (4 \<le> length packet \<and> packet_size_field packet \<noteq> length packet \<and> length packet \<le> 0xFFFF)
         \<or> length packet < requiredsize
      then Inl (BadSize (if 4 \<le> length packet then packet_size_field packet else 0)
                 (length packet) requiredsize)
      else Inr ())"

definition GetSize :: "bytes \<Rightarrow> nat res" where
  "GetSize packet = rbind (CheckSize packet 4) (\<lambda>_.
     if 0xFFFF < length packet then Inr (length packet) else Inr (packet_size_field packet))"

definition IsSequencePacket :: "bytes \<Rightarrow> bool" where
  "IsSequencePacket d \<longleftrightarrow> length d = SB_SEQUENCE_PACKET_SIZE \<and> get16 d 0 = 0
     \<and> byte_at d off_command = SB_COMMAND_SEQUENCE_HANDSHAKE"

lemma CheckSize_ok_iff:
  "CheckSize p n = Inr () \<longleftrightarrow>
     n \<le> length p \<and> (4 \<le> length p \<and> length p \<le> 0xFFFF \<longrightarrow> packet_size_field p = length p)"
  by (auto simp: CheckSize_def)

lemma CheckSize_cases:
  "CheckSize p n = Inr () \<or> (\<exists>k. CheckSize p n = Inl (BadSize k (length p) n))"
  by (auto simp: CheckSize_def)

lemma CheckSize_Inr_length: "CheckSize p n = Inr u \<Longrightarrow> n \<le> length p"
  by (auto simp: CheckSize_def split: if_splits)

lemma CheckSize_mono: "CheckSize p n = Inr () \<Longrightarrow> m \<le> n \<Longrightarrow> CheckSize p m = Inr ()"
  by (auto simp: CheckSize_ok_iff)

text \<open>
  Whatever GetSize returns is the number of bytes the packet really has; it fails
  exactly when the packet is shorter than its header or its size field disagrees with
  the data (fields are only trusted up to 0xFFFF bytes).
\<close>
theorem GetSize_exact:
  "GetSize p = (if 4 \<le> length p \<and> (length p \<le> 0xFFFF \<longrightarrow> packet_size_field p = length p)
                then Inr (length p)
                else Inl (BadSize (if 4 \<le> length p then packet_size_field p else 0) (length p) 4))"
  by (auto simp: GetSize_def CheckSize_def)

lemma IsSequencePacket_length: "IsSequencePacket d \<Longrightarrow> length d = 12"
  by (simp add: IsSequencePacket_def layout_simps)

lemma IsSequencePacket_Nil [simp]: "\<not> IsSequencePacket []"
  by (auto dest: IsSequencePacket_length)

end
