(* ===== verification/Data_Buffer.thy ===== *)
theory Data_Buffer imports Barry_Prelude begin

text \<open>
  The Data class (src/src/data.cc, src/src/data.h): a growable byte buffer with spare
  room in front of the data and a copy-on-write mode in which it only points at foreign
  memory. The model keeps the memory block itself, so that growth, moves inside the block
  and stale bytes behind the data are visible; \<open>contents\<close> is the byte string a client
  sees. Sizes are natural numbers: no buffer comes near the size of the address space.
\<close>

section \<open>State\<close>

text \<open>
  \<open>mem\<close> is the block m_memBlock (m_blockSize is its length), \<open>dstart\<close> the distance of
  m_dataStart from its start, \<open>extdata\<close> the bytes m_externalData points at.
\<close>

record data =
  mem :: bytes
  dstart :: nat
  dsize :: nat
  extdata :: bytes
  external :: bool
  endpoint :: int

definition BARRY_DATA_DEFAULT_SIZE :: nat where "BARRY_DATA_DEFAULT_SIZE = 0x4000"
definition BARRY_DATA_DEFAULT_PREPEND_SIZE :: nat where "BARRY_DATA_DEFAULT_PREPEND_SIZE = 0x100"

definition Data_new :: "int \<Rightarrow> nat \<Rightarrow> nat \<Rightarrow> data" where
  "Data_new ep startsize prependsize =
     \<lparr>mem = replicate (startsize + prependsize) 0, dstart = prependsize, dsize = 0,
      extdata = [], external = False, endpoint = ep\<rparr>"

definition Data_default :: data where
  "Data_default = Data_new (-1) BARRY_DATA_DEFAULT_SIZE BARRY_DATA_DEFAULT_PREPEND_SIZE"

definition Data_external :: "bytes \<Rightarrow> nat \<Rightarrow> data" where
  "Data_external valid n = \<lparr>mem = [], dstart = 0, dsize = n,
      extdata = valid, external = True, endpoint = -1\<rparr>"

definition AvailablePrependSpace :: "data \<Rightarrow> nat" where
  "AvailablePrependSpace d = (if external d then 0 else dstart d)"

definition GetBufSize :: "data \<Rightarrow> nat" where
  "GetBufSize d = (if external d then 0 else length (mem d) - dstart d)"

definition contents :: "data \<Rightarrow> bytes" where
  "contents d = (if external d then take (dsize d) (extdata d)
                 else take (dsize d) (drop (dstart d) (mem d)))"

text \<open>The copy constructor; \<open>junk\<close> is the uninitialised memory of the new block.\<close>

definition Data_copy :: "bytes \<Rightarrow> data \<Rightarrow> data" where
  "Data_copy junk other =
     \<lparr>mem = (if external other then take (length (mem other)) junk else mem other),
      dstart = AvailablePrependSpace other, dsize = dsize other, extdata = extdata other,
      external = external other, endpoint = endpoint other\<rparr>"

text \<open>Class invariant: the data lies inside the memory it is read from.\<close>

definition data_ok :: "data \<Rightarrow> bool" where
  "data_ok d \<longleftrightarrow> (if external d then dsize d \<le> length (extdata d)
                 else dstart d + dsize d \<le> length (mem d))"

section \<open>Growing the buffer\<close>

text \<open>
  memcpy between overlapping parts of one block is undefined; copying a region onto
  itself moves nothing and is let through.
\<close>

definition memcpy_overlaps :: "nat \<Rightarrow> nat \<Rightarrow> nat \<Rightarrow> bool" where
  "memcpy_overlaps dst src n \<longleftrightarrow> dst \<noteq> src \<and> dst < src + n \<and> src < dst + n"

definition MakeSpace :: "data \<Rightarrow> nat \<Rightarrow> nat \<Rightarrow> data res" where
  "MakeSpace d desiredsize desiredprepend =
    (let prepend0 = max (AvailablePrependSpace d) desiredprepend;
         prepend = (if prepend0 = 0 then 0x100 else prepend0)
     in if GetBufSize d < desiredsize + prepend
           \<or> (desiredprepend \<noteq> 0 \<and> AvailablePrependSpace d < desiredprepend)
        then let size1 = desiredsize + (1024 + prepend);
                 size2 = (if size1 < dsize d + prepend then dsize d + prepend else size1);
                 reuse = (mem d \<noteq> [] \<and> size2 \<le> length (mem d));
                 newbuf = (if reuse then mem d else replicate size2 0)
             in if external d
                then Inr (d\<lparr>mem := poke prepend (contents d) newbuf, dstart := prepend,
                            external := False\<rparr>)
                else if reuse \<and> memcpy_overlaps prepend (dstart d) (dsize d)
                then Inl (UB ''overlapping memcpy in Data::MakeSpace'')
                else Inr (d\<lparr>mem := poke prepend (contents d) newbuf, dstart := prepend\<rparr>)
        else Inr d)"

definition GetBuffer :: "data \<Rightarrow> nat \<Rightarrow> data res" where
  "GetBuffer d requiredsize =
     MakeSpace d (if requiredsize = 0 then dsize d else requiredsize) 0"

text \<open>
  ReleaseBuffer fixes the data size after a client wrote through the pointer GetBuffer
  returned; -1 asks it to find the end of the data itself.
\<close>

fun last_nonzero :: "bytes \<Rightarrow> nat \<Rightarrow> nat" where
  "last_nonzero buf 0 = 0"
| "last_nonzero buf (Suc n) = (if byte_at buf (Suc n) = 0 then last_nonzero buf n else Suc n)"

definition ReleaseBuffer :: "data \<Rightarrow> int \<Rightarrow> data res" where
  "ReleaseBuffer d datasize =
    (if datasize < 0 \<and> datasize \<noteq> -1
     then Inl (LogicError ''Data::ReleaseBuffer() argument must be -1 or >= 0'')
     else if external d
     then Inl (LogicError ''Data::ReleaseBuffer() must be called after GetBuffer()'')
     else if \<not> (datasize = -1 \<or> datasize \<le> int (GetBufSize d))
     then Inl (LogicError ''Data::ReleaseBuffer() must be called with a size smaller than the original buffer requested'')
     else if 0 \<le> datasize then Inr (d\<lparr>dsize := nat datasize\<rparr>)
     else if GetBufSize d = 0 then Inl (UB ''scan from before the start of an empty buffer'')
     else Inr (d\<lparr>dsize := last_nonzero (drop (dstart d) (mem d)) (GetBufSize d - 1)\<rparr>))"

section \<open>Operations\<close>

definition QuickZap :: "data \<Rightarrow> data" where
  "QuickZap d = d\<lparr>dsize := 0\<rparr>"

definition Zap :: "data \<Rightarrow> data" where
  "Zap d = (if external d then d\<lparr>dsize := 0\<rparr>
            else d\<lparr>mem := replicate (length (mem d)) 0, dsize := 0\<rparr>)"

text \<open>operator=, for two distinct objects; assigning an object to itself does nothing.\<close>

definition assign :: "data \<Rightarrow> data \<Rightarrow> data res" where
  "assign d other =
     (if external other
      then Inr (d\<lparr>extdata := extdata other, external := True, dsize := dsize other,
                  endpoint := endpoint other\<rparr>)
      else rbind (MakeSpace d (dsize other) 0) (\<lambda>d1.
             Inr (d1\<lparr>mem := poke (dstart d1) (contents other) (mem d1),
                     dsize := dsize other, endpoint := endpoint other\<rparr>)))"

text \<open>MemCpy writes at an offset, advances it and grows the data if it passed the end.\<close>

definition MemCpy :: "data \<Rightarrow> nat \<Rightarrow> bytes \<Rightarrow> (data \<times> nat) res" where
  "MemCpy d offset src =
     rbind (GetBuffer d (offset + length src)) (\<lambda>d1.
       let d2 = d1\<lparr>mem := poke (dstart d1 + offset) src (mem d1)\<rparr>;
           offset' = offset + length src
       in Inr (if dsize d2 < offset' then d2\<lparr>dsize := offset'\<rparr> else d2, offset'))"

text \<open>
  Append calls MemCpy with m_dataSize itself as the offset, so advancing the offset is
  what grows the data.
\<close>

definition Append :: "data \<Rightarrow> bytes \<Rightarrow> data res" where
  "Append d src =
     rbind (GetBuffer d (dsize d + length src)) (\<lambda>d1.
       Inr (d1\<lparr>mem := poke (dstart d1 + dsize d1) src (mem d1),
               dsize := dsize d1 + length src\<rparr>))"

definition Prepend :: "data \<Rightarrow> bytes \<Rightarrow> data res" where
  "Prepend d src =
     rbind (MakeSpace d 0 (length src)) (\<lambda>d1.
       let start = dstart d1 - length src
       in Inr (d1\<lparr>dstart := start, dsize := dsize d1 + length src,
                  mem := poke start src (mem d1)\<rparr>))"

definition Prechop :: "data \<Rightarrow> nat \<Rightarrow> data" where
  "Prechop d n =
     (if dsize d \<le> n then QuickZap d
      else if external d then d\<lparr>extdata := drop n (extdata d), dsize := dsize d - n\<rparr>
      else d\<lparr>dstart := dstart d + n, dsize := dsize d - n\<rparr>)"

section \<open>What growing preserves\<close>

lemma length_contents [simp]: "data_ok d \<Longrightarrow> length (contents d) = dsize d"
  by (auto simp: contents_def data_ok_def split: if_splits)

lemma data_new_ok [simp]: "data_ok (Data_new ep s p)"
  by (simp add: data_ok_def Data_new_def)

lemma data_default_ok [simp]: "data_ok Data_default"
  by (simp add: Data_default_def)

lemma contents_new [simp]: "contents (Data_new ep s p) = []"
  by (simp add: contents_def Data_new_def)

lemma data_external_ok: "n \<le> length xs \<Longrightarrow> data_ok (Data_external xs n)"
  by (simp add: data_ok_def Data_external_def)

lemma contents_external: "contents (Data_external xs n) = take n xs"
  by (simp add: contents_def Data_external_def)

lemma contents_internal:
  "\<not> external d \<Longrightarrow> contents d = take (dsize d) (drop (dstart d) (mem d))"
  by (simp add: contents_def)

lemma take_drop_poke:
  "i + length ws \<le> length bs \<Longrightarrow> n = length ws \<Longrightarrow> take n (drop i (poke i ws bs)) = ws"
  by (simp add: poke_def)

lemma drop_poke_shift: "s \<le> length m \<Longrightarrow> drop s (poke (s + i) ws m) = poke i ws (drop s m)"
  by (simp add: poke_def drop_take ac_simps)

lemma take_poke_grow:
  assumes "off \<le> n" "n \<le> length b" "off + length ws \<le> length b"
  shows "take (max n (off + length ws)) (poke off ws b)
         = take off (take n b) @ ws @ drop (off + length ws) (take n b)"
proof (cases "n \<le> off + length ws")
  case True
  then show ?thesis using assms by (cases ws) (auto simp: poke_def min_def max_def)
next
  case False
  then show ?thesis using assms by (simp add: poke_def min_def max_def drop_take ac_simps)
qed

text \<open>
  After MakeSpace the object owns its memory, the data is unchanged and there is room
  for the requested bytes behind m_dataStart and in front of it.
\<close>

lemma MakeSpace_spec:
  assumes "MakeSpace d n p = Inr d'" and ok: "data_ok d"
  shows "data_ok d' \<and> contents d' = contents d \<and> \<not> external d'
    \<and> dstart d' + n \<le> length (mem d') \<and> p \<le> dstart d'
    \<and> dsize d' = dsize d \<and> endpoint d' = endpoint d"
proof -
  define a where "a = AvailablePrependSpace d"
  define q where "q = (if max a p = 0 then 0x100 else max a p)"
  define s where "s = (if n + (1024 + q) < dsize d + q then dsize d + q else n + (1024 + q))"
  define nb where "nb = (if mem d \<noteq> [] \<and> s \<le> length (mem d) then mem d else replicate s 0)"
  have q: "p \<le> q" "a \<le> q" "0 < q" by (auto simp: q_def)
  have nb: "s \<le> length nb" by (simp add: nb_def)
  have s: "dsize d + q \<le> s" "n + q \<le> s" by (auto simp: s_def)
  have eq: "MakeSpace d n p =
     (if GetBufSize d < n + q \<or> (p \<noteq> 0 \<and> a < p)
      then if external d then Inr (d\<lparr>mem := poke q (contents d) nb, dstart := q, external := False\<rparr>)
           else if (mem d \<noteq> [] \<and> s \<le> length (mem d)) \<and> memcpy_overlaps q (dstart d) (dsize d)
           then Inl (UB ''overlapping memcpy in Data::MakeSpace'')
           else Inr (d\<lparr>mem := poke q (contents d) nb, dstart := q\<rparr>)
      else Inr d)"
    unfolding MakeSpace_def Let_def nb_def s_def q_def a_def by (rule refl)
  have internal: "d\<lparr>mem := m, dstart := k, external := False\<rparr> = d\<lparr>mem := m, dstart := k\<rparr>"
    if "\<not> external d" for m k using that by simp
  have "d' = d\<lparr>mem := poke q (contents d) nb, dstart := q, external := False\<rparr>
        \<or> d' = d \<and> \<not> external d \<and> n + q \<le> GetBufSize d \<and> p \<le> a"
  proof (cases "GetBufSize d < n + q \<or> (p \<noteq> 0 \<and> a < p)")
    case True
    then have "d' = d\<lparr>mem := poke q (contents d) nb, dstart := q, external := False\<rparr>"
      using assms(1) unfolding eq by (cases "external d") (simp_all add: internal split: if_splits)
    then show ?thesis ..
  next
    case False
    moreover have "\<not> external d" using False q by (auto simp: GetBufSize_def)
    ultimately show ?thesis using assms(1) unfolding eq by auto
  qed
  then show ?thesis
  proof
    assume d': "d' = d\<lparr>mem := poke q (contents d) nb, dstart := q, external := False\<rparr>"
    have len: "q + length (contents d) \<le> length nb" using ok nb s by simp
    then have "contents d' = contents d" using ok by (simp add: d' contents_internal take_drop_poke)
    then show ?thesis using ok q nb s len by (simp add: d' data_ok_def)
  next
    assume "d' = d \<and> \<not> external d \<and> n + q \<le> GetBufSize d \<and> p \<le> a"
    then show ?thesis using ok q
      by (auto simp: data_ok_def GetBufSize_def a_def AvailablePrependSpace_def)
  qed
qed

lemma MakeSpace_eqs:
  assumes "MakeSpace d n p = Inr d'" and "data_ok d"
  shows MakeSpace_ok: "data_ok d'" and MakeSpace_contents: "contents d' = contents d"
    and MakeSpace_internal: "\<not> external d'" and MakeSpace_room: "dstart d' + n \<le> length (mem d')"
    and MakeSpace_front: "p \<le> dstart d'" and MakeSpace_dsize: "dsize d' = dsize d"
    and MakeSpace_endpoint: "endpoint d' = endpoint d"
  using MakeSpace_spec[OF assms] by auto

text \<open>
  Growing never moves overlapping memory unless more prepend room is asked for than the
  buffer has.
\<close>

lemma MakeSpace_total:
  assumes "p \<le> AvailablePrependSpace d \<or> external d"
  shows "\<exists>d'. MakeSpace d n p = Inr d'"
proof (cases "external d")
  case True
  then show ?thesis by (simp add: MakeSpace_def Let_def)
next
  case False
  define q where "q = (if max (dstart d) p = 0 then 0x100 else max (dstart d) p)"
  have p: "p \<le> dstart d" using assms False by (simp add: AvailablePrependSpace_def)
  then have q: "q = (if dstart d = 0 then 0x100 else dstart d)" by (simp add: q_def)
  have no_overlap: "\<not> memcpy_overlaps q (dstart d) (dsize d)"
    if "length (mem d) - dstart d < n + q" "(if n + (1024 + q) < dsize d + q then dsize d + q
        else n + (1024 + q)) \<le> length (mem d)"
    using that by (auto simp: q memcpy_overlaps_def split: if_splits)
  show ?thesis
    using False p no_overlap unfolding MakeSpace_def Let_def q_def
    by (auto simp: AvailablePrependSpace_def GetBufSize_def)
qed

section \<open>The operations on contents\<close>

lemma GetBuffer_eqs:
  assumes "GetBuffer d n = Inr d'" and "data_ok d"
  shows "data_ok d'" "contents d' = contents d" "\<not> external d'"
    "dstart d' + (if n = 0 then dsize d else n) \<le> length (mem d')"
    "dsize d' = dsize d" "endpoint d' = endpoint d"
  using assms MakeSpace_eqs[of d _ 0 d'] unfolding GetBuffer_def by auto

lemma GetBuffer_total: "\<exists>d'. GetBuffer d n = Inr d'"
  unfolding GetBuffer_def by (rule MakeSpace_total) simp

lemma ReleaseBuffer_size:
  "\<not> external d \<Longrightarrow> n \<le> GetBufSize d \<Longrightarrow> ReleaseBuffer d (int n) = Inr (d\<lparr>dsize := n\<rparr>)"
  by (simp add: ReleaseBuffer_def)

lemma ReleaseBuffer_ok:
  assumes "ReleaseBuffer d n = Inr d'" "data_ok d" shows "data_ok d'"
proof -
  have *: "last_nonzero b k \<le> k" for b k by (induction k) auto
  have "dstart d + last_nonzero b (length (mem d) - Suc (dstart d)) \<le> length (mem d)"
    if "dstart d + dsize d \<le> length (mem d)" for b
    using that *[of b "length (mem d) - Suc (dstart d)"] by linarith
  then show ?thesis
    using assms by (auto simp: ReleaseBuffer_def data_ok_def GetBufSize_def le_nat_iff nat_le_iff split: if_splits)
qed

lemma Append_spec:
  assumes "Append d xs = Inr d'" and ok: "data_ok d"
  shows "data_ok d'" "contents d' = contents d @ xs"
proof -
  obtain d1 where g: "GetBuffer d (dsize d + length xs) = Inr d1"
    and d': "d' = d1\<lparr>mem := poke (dstart d1 + dsize d1) xs (mem d1), dsize := dsize d1 + length xs\<rparr>"
    using assms(1) by (auto simp: Append_def rbind_eq_Inr)
  note e = GetBuffer_eqs[OF g ok]
  have len: "dstart d1 + (dsize d1 + length xs) \<le> length (mem d1)"
    using e(4,5) by (auto split: if_splits)
  then show "data_ok d'" using e by (simp add: d' data_ok_def)
  show "contents d' = contents d @ xs"
    using e(3) len take_poke_grow[of "dsize d1" "dsize d1" "drop (dstart d1) (mem d1)" xs]
    by (simp add: d' contents_internal drop_poke_shift flip: e(2))
qed

lemma Append_total: "\<exists>d'. Append d xs = Inr d'"
  using GetBuffer_total[of d "dsize d + length xs"] by (auto simp: Append_def)

lemma MemCpy_spec:
  assumes "MemCpy d off xs = Inr (d', off')" and ok: "data_ok d" and "off \<le> dsize d"
  shows "data_ok d'" "off' = off + length xs"
    "contents d' = take off (contents d) @ xs @ drop (off + length xs) (contents d)"
proof -
  obtain d1 where g: "GetBuffer d (off + length xs) = Inr d1"
    and m: "off' = off + length xs"
    and d': "d' = d1\<lparr>mem := poke (dstart d1 + off) xs (mem d1), dsize := max (dsize d1) (off + length xs)\<rparr>"
    using assms(1) by (auto simp: MemCpy_def Let_def rbind_eq_Inr max_def split: if_splits)
  note e = GetBuffer_eqs[OF g ok]
  have len: "dstart d1 + max (dsize d1) (off + length xs) \<le> length (mem d1)"
    using e(1,3,4) assms(3) by (auto simp: data_ok_def split: if_splits)
  show "off' = off + length xs" by (rule m)
  show "data_ok d'" using e len by (simp add: d' data_ok_def max_def split: if_splits)
  have "contents d' = take (max (dsize d1) (off + length xs)) (drop (dstart d1) (poke (dstart d1 + off) xs (mem d1)))"
    using e(3) by (simp add: d' contents_internal)
  also have "\<dots> = take off (contents d1) @ xs @ drop (off + length xs) (contents d1)"
    using e(3,5) len assms(3) take_poke_grow[of off "dsize d1" "drop (dstart d1) (mem d1)" xs]
    by (simp add: contents_internal drop_poke_shift)
  finally show "contents d' = take off (contents d) @ xs @ drop (off + length xs) (contents d)"
    by (simp add: e(2))
qed


lemma MemCpy_total: "\<exists>r. MemCpy d off xs = Inr r"
  using GetBuffer_total[of d "off + length xs"] by (auto simp: MemCpy_def Let_def)

lemma take_drop_poke_front:
  assumes "n \<le> i" "i + k \<le> length m" "length ws = n"
  shows "take (k + n) (drop (i - n) (poke (i - n) ws m)) = ws @ take k (drop i m)"
  using assms by (simp add: poke_def)

lemma Prepend_spec:
  assumes "Prepend d xs = Inr d'" and ok: "data_ok d"
  shows Prepend_ok: "data_ok d'" and Prepend_contents: "contents d' = xs @ contents d"
proof -
  obtain d1 where m: "MakeSpace d 0 (length xs) = Inr d1"
    and d': "d' = d1\<lparr>dstart := dstart d1 - length xs, dsize := dsize d1 + length xs,
                  mem := poke (dstart d1 - length xs) xs (mem d1)\<rparr>"
    using assms(1) by (auto simp: Prepend_def Let_def rbind_eq_Inr)
  note e = MakeSpace_eqs[OF m ok]
  have len: "dstart d1 + dsize d1 \<le> length (mem d1)" using e(1,3) by (simp add: data_ok_def)
  then show "data_ok d'" using e(3,5) by (simp add: d' data_ok_def)
  show "contents d' = xs @ contents d"
    using e(3,5) len take_drop_poke_front[of "length xs" "dstart d1" "dsize d1" "mem d1" xs]
    by (simp add: d' contents_internal flip: e(2))
qed

lemma Prepend_total:
  "length xs \<le> AvailablePrependSpace d \<or> external d \<Longrightarrow> \<exists>d'. Prepend d xs = Inr d'"
  using MakeSpace_total[of "length xs" d 0] by (auto simp: Prepend_def Let_def)

lemma Prechop_spec:
  assumes "data_ok d"
  shows Prechop_ok: "data_ok (Prechop d n)" and Prechop_contents: "contents (Prechop d n) = drop n (contents d)"
  using assms by (auto simp: Prechop_def QuickZap_def data_ok_def contents_def drop_take min_def ac_simps)

lemma QuickZap_spec [simp]: "contents (QuickZap d) = []" "data_ok d \<Longrightarrow> data_ok (QuickZap d)"
  by (auto simp: QuickZap_def contents_def data_ok_def)

lemma Zap_spec [simp]: "contents (Zap d) = []" "data_ok d \<Longrightarrow> data_ok (Zap d)"
  by (auto simp: Zap_def contents_def data_ok_def)

lemma assign_spec:
  assumes "assign d other = Inr d'" and ok: "data_ok d" "data_ok other"
  shows assign_ok: "data_ok d'" and assign_contents: "contents d' = contents other"
    and assign_endpoint: "endpoint d' = endpoint other"
proof -
  have "data_ok d' \<and> contents d' = contents other \<and> endpoint d' = endpoint other"
  proof (cases "external other")
    case True
    then show ?thesis using assms by (auto simp: assign_def data_ok_def contents_def)
  next
    case False
    then obtain d1 where m: "MakeSpace d (dsize other) 0 = Inr d1"
      and d': "d' = d1\<lparr>mem := poke (dstart d1) (contents other) (mem d1),
                     dsize := dsize other, endpoint := endpoint other\<rparr>"
      using assms(1) by (auto simp: assign_def rbind_eq_Inr)
    note e = MakeSpace_eqs[OF m ok(1)]
    show ?thesis using e ok by (simp add: d' data_ok_def contents_internal take_drop_poke)
  qed
  then show "data_ok d'" "contents d' = contents other" "endpoint d' = endpoint other" by auto
qed

lemma assign_total: "\<exists>d'. assign d other = Inr d'"
  using MakeSpace_total[of 0 d "dsize other"] by (auto simp: assign_def)

lemma Data_copy_spec:
  assumes "data_ok d"
  shows Data_copy_ok: "data_ok (Data_copy junk d)" and Data_copy_contents: "contents (Data_copy junk d) = contents d"
  using assms by (auto simp: Data_copy_def data_ok_def contents_def AvailablePrependSpace_def)

section \<open>The interface of a byte buffer\<close>

text \<open>
  What the rest of the library relies on: a buffer that shows a byte string, to which
  bytes can be appended and from whose front bytes can be dropped.
\<close>

locale byte_buffer =
  fixes good :: "'d \<Rightarrow> bool"
    and bytes_of :: "'d \<Rightarrow> bytes"
    and append :: "'d \<Rightarrow> bytes \<Rightarrow> 'd res"
    and chop :: "'d \<Rightarrow> nat \<Rightarrow> 'd"
  assumes append_ex: "good d \<Longrightarrow> \<exists>d'. append d xs = Inr d'"
    and append_good: "good d \<Longrightarrow> append d xs = Inr d' \<Longrightarrow> good d'"
    and append_bytes: "good d \<Longrightarrow> append d xs = Inr d' \<Longrightarrow> bytes_of d' = bytes_of d @ xs"
    and chop_good: "good d \<Longrightarrow> good (chop d n)"
    and chop_bytes: "good d \<Longrightarrow> bytes_of (chop d n) = drop n (bytes_of d)"
begin

text \<open>Appending a sequence of chunks accumulates their concatenation.\<close>

lemma append_all:
  "good d \<Longrightarrow> \<exists>d'. rfold append d cs = Inr d' \<and> good d' \<and> bytes_of d' = bytes_of d @ concat cs"
proof (induction cs arbitrary: d)
  case (Cons c cs)
  obtain d1 where d1: "append d c = Inr d1" using append_ex Cons.prems by blast
  note g = append_good[OF Cons.prems d1] and b = append_bytes[OF Cons.prems d1]
  show ?case using Cons.IH[OF g] d1 b by simp
qed simp

lemma chop_append: "good d \<Longrightarrow> append d xs = Inr d' \<Longrightarrow> bytes_of (chop d' (length (bytes_of d))) = xs"
  by (simp add: chop_bytes append_good append_bytes)

end

interpretation data_buffer: byte_buffer data_ok contents Append Prechop
  by unfold_locales (auto simp: Append_total Append_spec Prechop_spec)

section \<open>Writing struct members through GetBuffer\<close>

text \<open>Stores through the pointer GetBuffer returned, at an offset from m_dataStart.\<close>

definition write_at :: "data \<Rightarrow> nat \<times> bytes \<Rightarrow> data res" where
  "write_at d w = (if dstart d + fst w + length (snd w) \<le> length (mem d)
     then Inr (d\<lparr>mem := poke (dstart d + fst w) (snd w) (mem d)\<rparr>)
     else Inl (UB ''write past the end of the buffer''))"

definition fill :: "data \<Rightarrow> nat \<Rightarrow> (nat \<times> bytes) list \<Rightarrow> data res" where
  "fill d n ws = rbind (GetBuffer d n) (\<lambda>d1. rbind (rfold write_at d1 ws) (\<lambda>d2. ReleaseBuffer d2 (int n)))"

definition poke_all :: "(nat \<times> bytes) list \<Rightarrow> bytes \<Rightarrow> bytes" where
  "poke_all ws b = fold (\<lambda>w. poke (fst w) (snd w)) ws b"

lemma take_poke: "i + length ws \<le> n \<Longrightarrow> n \<le> length b \<Longrightarrow> take n (poke i ws b) = poke i ws (take n b)"
  by (simp add: poke_def drop_take)

lemma length_poke_all:
  "\<forall>w \<in> set ws. fst w + length (snd w) \<le> length b \<Longrightarrow> length (poke_all ws b) = length b"
  by (induction ws arbitrary: b) (simp_all add: poke_all_def)

lemma write_all:
  assumes "\<forall>w \<in> set ws. fst w + length (snd w) \<le> n" "\<not> external d" "dstart d + n \<le> length (mem d)"
  shows "\<exists>d'. rfold write_at d ws = Inr d' \<and> \<not> external d' \<and> dstart d' = dstart d
    \<and> length (mem d') = length (mem d) \<and> dsize d' = dsize d \<and> endpoint d' = endpoint d
    \<and> take n (drop (dstart d') (mem d')) = poke_all ws (take n (drop (dstart d) (mem d)))"
  using assms
proof (induction ws arbitrary: d)
  case Nil
  then show ?case by (simp add: poke_all_def)
next
  case (Cons w ws)
  define d1 where "d1 = d\<lparr>mem := poke (dstart d + fst w) (snd w) (mem d)\<rparr>"
  have w: "fst w + length (snd w) \<le> n" using Cons.prems(1) by simp
  have "write_at d w = Inr d1" using w Cons.prems(3) by (simp add: write_at_def d1_def)
  moreover have "take n (drop (dstart d1) (mem d1)) = poke (fst w) (snd w) (take n (drop (dstart d) (mem d)))"
    using w Cons.prems(3) by (simp add: d1_def drop_poke_shift take_poke)
  moreover have "length (mem d1) = length (mem d)" using w Cons.prems(3) by (simp add: d1_def)
  ultimately show ?case
    using Cons.IH[of d1] Cons.prems by (auto simp: d1_def poke_all_def)
qed

lemma fill_spec:
  assumes "data_ok d" "0 < n" "\<forall>w \<in> set ws. fst w + length (snd w) \<le> n"
  shows "\<exists>d' old. fill d n ws = Inr d' \<and> data_ok d' \<and> \<not> external d' \<and> length old = n
    \<and> contents d' = poke_all ws old \<and> take (min n (dsize d)) old = take n (contents d)
    \<and> dsize d' = n"
proof -
  obtain d1 where g: "GetBuffer d n = Inr d1" using GetBuffer_total by blast
  note e = GetBuffer_eqs[OF g assms(1)]
  have room: "dstart d1 + n \<le> length (mem d1)" using e(4) assms(2) by simp
  obtain d2 where w: "rfold write_at d1 ws = Inr d2" and d2: "\<not> external d2" "dstart d2 = dstart d1"
      "length (mem d2) = length (mem d1)"
      "take n (drop (dstart d2) (mem d2)) = poke_all ws (take n (drop (dstart d1) (mem d1)))"
    using write_all[OF assms(3) e(3) room] by blast
  have "n \<le> GetBufSize d2" using d2 room by (simp add: GetBufSize_def)
  then have "fill d n ws = Inr (d2\<lparr>dsize := n\<rparr>)"
    using g w d2(1) by (simp add: fill_def ReleaseBuffer_size)
  moreover have "take (min n (dsize d)) (take n (drop (dstart d1) (mem d1))) = take n (contents d)"
    using e(2,3,5) room by (simp add: contents_internal flip: e(2))
  ultimately show ?thesis
    using d2 room by (intro exI[of _ "d2\<lparr>dsize := n\<rparr>"] exI[of _ "take n (drop (dstart d1) (mem d1))"])
      (simp add: data_ok_def contents_internal)
qed

lemma write_behind_offset:
  assumes "data_ok dest" "off + length ws \<le> n"
  shows "\<exists>d1 d2 buf. GetBuffer dest n = Inr d1 \<and> write_at d1 (off, ws) = Inr d2
     \<and> ReleaseBuffer d2 (int (length ws + off)) = Inr buf \<and> data_ok buf
     \<and> length (contents buf) = off + length ws \<and> drop off (contents buf) = ws"
proof -
  obtain d1 where g: "GetBuffer dest n = Inr d1" using GetBuffer_total by blast
  note e = GetBuffer_eqs[OF g assms(1)]
  have room: "dstart d1 + (off + length ws) \<le> length (mem d1)"
    using e(1,3,4) assms(2) by (cases "n = 0") (simp_all add: data_ok_def)
  define d2 where "d2 = d1\<lparr>mem := poke (dstart d1 + off) ws (mem d1)\<rparr>"
  define buf where "buf = d2\<lparr>dsize := length ws + off\<rparr>"
  have "write_at d1 (off, ws) = Inr d2" using room by (simp add: write_at_def d2_def add.assoc)
  moreover have "ReleaseBuffer d2 (int (length ws + off)) = Inr buf"
    using e(3) room unfolding buf_def by (intro ReleaseBuffer_size) (auto simp: d2_def GetBufSize_def)
  moreover have "data_ok buf" using e(3) room by (simp add: buf_def d2_def data_ok_def)
  moreover have "drop off (contents buf) = ws"
    using room e(3) by (simp add: contents_internal buf_def d2_def drop_poke_shift drop_take drop_poke_at)
  ultimately show ?thesis using g by (auto simp: buf_def)
qed

text \<open>Adjacent members written in order leave their concatenation.\<close>

primrec place :: "nat \<Rightarrow> bytes list \<Rightarrow> (nat \<times> bytes) list" where
  "place k [] = []"
| "place k (c # cs) = (k, c) # place (k + length c) cs"

lemma poke_all_place:
  "k + length (concat cs) \<le> length b \<Longrightarrow>
   poke_all (place k cs) b = take k b @ concat cs @ drop (k + length (concat cs)) b"
proof (induction cs arbitrary: k b)
  case Nil
  then show ?case by (simp add: poke_all_def)
next
  case (Cons c cs)
  have "poke_all (place k (c # cs)) b = poke_all (place (k + length c) cs) (poke k c b)"
    by (simp add: poke_all_def)
  also have "\<dots> = take (k + length c) (poke k c b) @ concat cs
      @ drop (k + length c + length (concat cs)) (poke k c b)"
    using Cons by simp
  also have "\<dots> = take k b @ concat (c # cs) @ drop (k + length (concat (c # cs))) b"
    using Cons.prems by (simp add: poke_def ac_simps)
  finally show ?case .
qed

lemma place_bounds: "w \<in> set (place k cs) \<Longrightarrow> fst w + length (snd w) \<le> k + length (concat cs)"
  by (induction cs arbitrary: k) fastforce+

text \<open>The case of every builder: two bytes left alone, then members up to the end.\<close>

lemma fill_packet:
  assumes "data_ok d" "ws = place 2 cs" "n = 2 + length (concat cs)"
  shows "\<exists>d' s0 s1. fill d n ws = Inr d' \<and> data_ok d' \<and> contents d' = [s0, s1] @ concat cs"
proof -
  obtain d' old where f: "fill d n ws = Inr d'" "data_ok d'" "length old = n" "contents d' = poke_all ws old"
    using fill_spec[OF assms(1), of n ws] place_bounds[of _ 2 cs] assms(2,3) by auto
  obtain s0 s1 where "take 2 old = [s0, s1]"
    using f(3) assms(3) by (cases old; cases "tl old") auto
  then have "contents d' = [s0, s1] @ concat cs"
    using f assms(2,3) by (simp add: poke_all_place)
  then show ?thesis using f by blast
qed

section \<open>Properties\<close>

text \<open>Appending any sequence of chunks to any well-formed Data object (owning its
  memory, pointing at external memory, or chopped) succeeds, keeps the object well formed,
  and leaves in it the old data followed by the chunks in order.\<close>

theorem Append_chunks:
  assumes "data_ok d"
  shows "\<exists>d'. rfold Append d cs = Inr d' \<and> data_ok d' \<and> contents d' = contents d @ concat cs"
  using assms by (rule data_buffer.append_all)

lemma Append_chunks_witness:
  "\<exists>d'. rfold Append (Data_external [1, 2, 3] 2) [[7], [8, 9]] = Inr d' \<and> data_ok d'
     \<and> contents d' = [1, 2, 7, 8, 9]"
  using Append_chunks[of "Data_external [1, 2, 3] 2" "[[7], [8, 9]]"]
  by (simp add: data_external_ok contents_external)

text \<open>Prepend runs into an overlapping memcpy, which is undefined, exactly when it
  needs more room in front than the object has, the existing block is big enough to be
  reused, and the old data reaches past its new start.\<close>

theorem Prepend_overlap_iff:
  "Prepend d xs = Inl (UB ''overlapping memcpy in Data::MakeSpace'')
   \<longleftrightarrow> \<not> external d \<and> dstart d < length xs \<and> length xs < dstart d + dsize d
       \<and> mem d \<noteq> [] \<and> max 1024 (dsize d) + length xs \<le> length (mem d)"
proof (cases "external d \<or> length xs \<le> dstart d")
  case True
  then have "length xs \<le> AvailablePrependSpace d \<or> external d" by (auto simp: AvailablePrependSpace_def)
  then obtain d' where "Prepend d xs = Inr d'" using Prepend_total by blast
  then show ?thesis using True by auto
next
  case False
  then have "max (AvailablePrependSpace d) (length xs) = length xs" "length xs \<noteq> 0"
      "AvailablePrependSpace d < length xs"
    by (auto simp: AvailablePrependSpace_def)
  then show ?thesis
    using False by (auto simp: Prepend_def MakeSpace_def Let_def memcpy_overlaps_def)
qed

lemma last_nonzero_zeros:
  "\<lbrakk>byte_at buf n \<noteq> 0; \<And>i. n < i \<Longrightarrow> i \<le> n + k \<Longrightarrow> byte_at buf i = 0\<rbrakk> \<Longrightarrow> last_nonzero buf (n + k) = n"
proof (induction k)
  case 0
  then show ?case by (cases n) simp_all
qed simp

text \<open>ReleaseBuffer(-1), which is to find the end of what the client wrote, stores the
  index of the last nonzero byte as the size, and so cuts that byte off.\<close>

theorem ReleaseBuffer_search_drops_last:
  assumes "\<not> external d" and "drop (dstart d) (mem d) = xs @ b # replicate k 0" and "b \<noteq> 0"
  shows "rbind (ReleaseBuffer d (-1)) (\<lambda>d'. Inr (contents d')) = Inr xs"
proof -
  have len: "length (mem d) - dstart d = Suc (length xs + k)"
    using arg_cong[OF assms(2), of length] by simp
  have "last_nonzero (xs @ b # replicate k 0) (length xs + k) = length xs"
    by (rule last_nonzero_zeros) (use assms(3) in \<open>auto simp: byte_at_def nth_append nth_Cons split: nat.splits\<close>)
  then show ?thesis
    using assms(1,2) len by (simp add: ReleaseBuffer_def GetBufSize_def contents_internal)
qed

lemma ReleaseBuffer_search_drops_last_witness:
  "rbind (ReleaseBuffer \<lparr>mem = [0, 65, 66, 0, 0], dstart = 1, dsize = 0, extdata = [],
     external = False, endpoint = 1\<rparr> (-1)) (\<lambda>d'. Inr (contents d')) = Inr [65]"
  by (rule ReleaseBuffer_search_drops_last[of _ "[65]" 66 "Suc (Suc 0)"]) simp_all

section \<open>DBData\<close>

text \<open>
  A record's raw data with its meta data (class DBData). m_data refers either to a local
  Data object or to one of the caller; the model holds its value, and a caller whose
  object is referred to takes the value back.
\<close>

datatype RecordFormatVersion = REC_VERSION_1 | REC_VERSION_2

record dbdata =
  m_version :: RecordFormatVersion
  m_dbName :: bytes
  m_recType :: byte
  m_uniqueId :: u32
  m_offset :: nat
  m_data :: data

definition DBData_empty :: dbdata where
  "DBData_empty = \<lparr>m_version = REC_VERSION_1, m_dbName = [], m_recType = 0, m_uniqueId = 0,
     m_offset = 0, m_data = Data_default\<rparr>"

text \<open>The constructor from a pointer and a size: neither reaches the object.\<close>

definition DBData_memory :: "bytes \<Rightarrow> nat \<Rightarrow> dbdata" where
  "DBData_memory ValidData n = \<lparr>m_version = REC_VERSION_1, m_dbName = [], m_recType = 0,
     m_uniqueId = 0, m_offset = 0, m_data = Data_default\<rparr>"

definition DBData_memory_meta ::
  "RecordFormatVersion \<Rightarrow> bytes \<Rightarrow> byte \<Rightarrow> u32 \<Rightarrow> nat \<Rightarrow> bytes \<Rightarrow> nat \<Rightarrow> dbdata" where
  "DBData_memory_meta ver dbName recType uniqueId offset ValidData n =
     \<lparr>m_version = ver, m_dbName = dbName, m_recType = recType, m_uniqueId = uniqueId,
      m_offset = offset, m_data = Data_external ValidData n\<rparr>"

definition DBData_data :: "bytes \<Rightarrow> data \<Rightarrow> bool \<Rightarrow> dbdata" where
  "DBData_data junk externalData copy = \<lparr>m_version = REC_VERSION_1, m_dbName = [], m_recType = 0,
     m_uniqueId = 0, m_offset = 0,
     m_data = (if copy then Data_copy junk externalData else externalData)\<rparr>"

definition DBData_data_meta ::
  "bytes \<Rightarrow> RecordFormatVersion \<Rightarrow> bytes \<Rightarrow> byte \<Rightarrow> u32 \<Rightarrow> nat \<Rightarrow> data \<Rightarrow> bool \<Rightarrow> dbdata" where
  "DBData_data_meta junk ver dbName recType uniqueId offset externalData copy =
     \<lparr>m_version = ver, m_dbName = dbName, m_recType = recType, m_uniqueId = uniqueId,
      m_offset = offset, m_data = (if copy then Data_copy junk externalData else externalData)\<rparr>"

definition DBData_copy :: "bytes \<Rightarrow> dbdata \<Rightarrow> dbdata" where
  "DBData_copy junk other = other\<lparr>m_data := Data_copy junk (m_data other)\<rparr>"

definition UseData :: "dbdata \<Rightarrow> dbdata res" where
  "UseData d = rbind (GetBuffer (m_data d) 0) (\<lambda>d1. Inr (d\<lparr>m_data := d1\<rparr>))"

definition SetVersion :: "RecordFormatVersion \<Rightarrow> dbdata \<Rightarrow> dbdata" where
  "SetVersion ver d = d\<lparr>m_version := ver\<rparr>"

definition SetDBName :: "bytes \<Rightarrow> dbdata \<Rightarrow> dbdata" where
  "SetDBName name d = d\<lparr>m_dbName := name\<rparr>"

definition SetIds :: "byte \<Rightarrow> u32 \<Rightarrow> dbdata \<Rightarrow> dbdata" where
  "SetIds recType uniqueId d = d\<lparr>m_recType := recType, m_uniqueId := uniqueId\<rparr>"

definition SetOffset :: "nat \<Rightarrow> dbdata \<Rightarrow> dbdata" where
  "SetOffset offset d = d\<lparr>m_offset := offset\<rparr>"

definition CopyMeta :: "dbdata \<Rightarrow> dbdata \<Rightarrow> dbdata" where
  "CopyMeta src d = d\<lparr>m_version := m_version src, m_dbName := m_dbName src,
     m_recType := m_recType src, m_uniqueId := m_uniqueId src, m_offset := m_offset src\<rparr>"

definition DBData_assign :: "dbdata \<Rightarrow> dbdata \<Rightarrow> dbdata res" where
  "DBData_assign d other =
     rbind (assign (m_data d) (m_data other)) (\<lambda>d1. Inr (CopyMeta other (d\<lparr>m_data := d1\<rparr>)))"

text \<open>Assigning one DBData object to another copies the bytes and all meta data,
  whether either of them owns its memory, and leaves both objects with the same record.\<close>

theorem DBData_assign_copies:
  assumes "data_ok (m_data d)" "data_ok (m_data other)"
  shows "\<exists>d'. DBData_assign d other = Inr d' \<and> data_ok (m_data d')
     \<and> contents (m_data d') = contents (m_data other) \<and> m_version d' = m_version other
     \<and> m_dbName d' = m_dbName other \<and> m_recType d' = m_recType other
     \<and> m_uniqueId d' = m_uniqueId other \<and> m_offset d' = m_offset other"
proof -
  obtain d1 where "assign (m_data d) (m_data other) = Inr d1" using assign_total by blast
  then show ?thesis
    using assign_spec[OF _ assms] by (auto simp: DBData_assign_def CopyMeta_def)
qed

lemma DBData_assign_copies_witness:
  "\<exists>d'. DBData_assign DBData_empty (DBData_memory_meta REC_VERSION_2 (lit ''Memos'') 1 2 0 [9, 8, 7] 2) = Inr d'
     \<and> contents (m_data d') = [9, 8] \<and> m_uniqueId d' = 2"
  using DBData_assign_copies[of DBData_empty "DBData_memory_meta REC_VERSION_2 (lit ''Memos'') 1 2 0 [9, 8, 7] 2"]
  by (auto simp: DBData_empty_def DBData_memory_meta_def data_external_ok contents_external)

end
