(* ===== verification/Device_Tables.thy ===== *)
theory Device_Tables imports Protocol begin

text \<open>
  The tables a device sends as packed arrays of fields: the command table
  (src/src/r_command.cc), the database database (src/src/r_dbdb.cc) and the record state
  table (src/src/r_recordstate.cc). The data is a byte list; the pointers begin and end of
  the code are offsets into it. A parser that walks over the fields is a recursion on the
  offset, which every ParseField moves forward.
\<close>

section \<open>std::map\<close>

text \<open>
  std::map as a list of pairs in key order; iterating over the map is walking the list.
\<close>

fun map_put :: "'k::linorder \<Rightarrow> 'v \<Rightarrow> ('k \<times> 'v) list \<Rightarrow> ('k \<times> 'v) list" where
  "map_put k v [] = [(k, v)]"
| "map_put k v ((k', v') # m) =
     (if k < k' then (k, v) # (k', v') # m
      else if k = k' then (k, v) # m
      else (k', v') # map_put k v m)"

definition map_erase :: "'k \<Rightarrow> ('k \<times> 'v) list \<Rightarrow> ('k \<times> 'v) list" where
  "map_erase k m = filter (\<lambda>p. fst p \<noteq> k) m"

definition map_wf :: "('k::linorder \<times> 'v) list \<Rightarrow> bool" where
  "map_wf m \<longleftrightarrow> sorted_wrt (<) (map fst m)"

lemma map_wf_Nil [simp]: "map_wf []" by (simp add: map_wf_def)

lemma map_wf_single [simp]: "map_wf [(k, v)]" by (simp add: map_wf_def)

lemma keys_map_put: "fst ` set (map_put k v m) = insert k (fst ` set m)"
  by (induction k v m rule: map_put.induct) auto

lemma map_wf_put [simp]: "map_wf m \<Longrightarrow> map_wf (map_put k v m)"
proof (induction k v m rule: map_put.induct)
  case (2 k v k' v' m)
  then show ?case
    using keys_map_put[of k v m] by (auto simp: map_wf_def)
qed (simp add: map_wf_def)

lemma map_wf_erase [simp]: "map_wf m \<Longrightarrow> map_wf (map_erase k m)"
  by (simp add: map_wf_def map_erase_def sorted_wrt_map sorted_wrt_filter)

lemma map_of_put [simp]: "map_wf m \<Longrightarrow> map_of (map_put k v m) = (map_of m)(k \<mapsto> v)"
proof (induction k v m rule: map_put.induct)
  case (2 k v k' v' m)
  have "k' \<notin> fst ` set m" using "2.prems" by (auto simp: map_wf_def)
  then show ?case using 2 by (auto simp: map_wf_def fun_eq_iff)
qed simp

lemma map_of_erase [simp]: "map_of (map_erase k m) = (map_of m)(k := None)"
  by (induction m) (auto simp: map_erase_def)

text \<open>What the components expect of an associative container.\<close>

locale dictionary =
  fixes wf :: "'m \<Rightarrow> bool" and find :: "'m \<Rightarrow> 'k \<Rightarrow> 'v option"
    and put :: "'k \<Rightarrow> 'v \<Rightarrow> 'm \<Rightarrow> 'm" and erase :: "'k \<Rightarrow> 'm \<Rightarrow> 'm" and empty :: 'm
  assumes wf_empty: "wf empty" and wf_put: "wf m \<Longrightarrow> wf (put k v m)" and wf_erase: "wf m \<Longrightarrow> wf (erase k m)"
    and find_empty: "find empty = Map.empty"
    and find_put: "wf m \<Longrightarrow> find (put k v m) = (find m)(k \<mapsto> v)"
    and find_erase: "wf m \<Longrightarrow> find (erase k m) = (find m)(k := None)"
begin

text \<open>Filling a dictionary from a list: the last entry for a key wins.\<close>

lemma find_fold_put:
  "wf m \<Longrightarrow> wf (fold (\<lambda>x. put (key x) x) xs m)
     \<and> find (fold (\<lambda>x. put (key x) x) xs m) k
       = (case filter (\<lambda>x. key x = k) (rev xs) of [] \<Rightarrow> find m k | x # _ \<Rightarrow> Some x)"
proof (induction xs rule: rev_induct)
  case (snoc x xs)
  then show ?case by (simp add: wf_put find_put)
qed simp

lemma put_erase: "wf m \<Longrightarrow> find m k = None \<Longrightarrow> find (erase k (put k v m)) = find m"
  by (simp add: find_put find_erase wf_put fun_upd_idem)

end

interpretation std_map: dictionary map_wf map_of map_put map_erase "[]"
  by unfold_locales simp_all

section \<open>Command table\<close>

record command =
  Code :: u32
  Name :: bytes

definition CommandTable_ParseField :: "bytes \<Rightarrow> nat \<Rightarrow> command list \<Rightarrow> nat \<times> command list" where
  "CommandTable_ParseField bs b cmds =
    (let headend = b + sizeof_CommandTableField
     in if length bs < headend then (headend, cmds)
        else let size = unat (byte_at bs b);
                 b1 = b + (COMMAND_FIELD_HEADER_SIZE + size)
             in if length bs < b1 then (b1, cmds)
                else if size = 0 then (b1, cmds)
                else (b1, cmds @ [\<lparr>Code = ucast (byte_at bs (b + 1)),
                        Name = take size (drop (b + 2) bs)\<rparr>]))"

lemma CommandTable_ParseField_progress:
  "b < fst (CommandTable_ParseField bs b cmds)"
  by (simp add: CommandTable_ParseField_def Let_def layout_simps)

function CommandTable_loop :: "bytes \<Rightarrow> nat \<Rightarrow> command list \<Rightarrow> command list" where
  "CommandTable_loop bs b cmds =
     (if b < length bs
      then let r = CommandTable_ParseField bs b cmds in CommandTable_loop bs (fst r) (snd r)
      else cmds)"
  by pat_completeness auto
termination
  by (relation "measure (\<lambda>(bs, b, cmds). length bs - b)")
     (simp_all add: case_prod_unfold CommandTable_ParseField_progress diff_less_mono2)

declare CommandTable_loop.simps [simp del]

definition CommandTable_Parse :: "command list \<Rightarrow> bytes \<Rightarrow> nat \<Rightarrow> command list" where
  "CommandTable_Parse cmds data offset =
     (if length data \<le> offset then cmds else CommandTable_loop data offset cmds)"

fun GetCommand :: "command list \<Rightarrow> bytes \<Rightarrow> u32" where
  "GetCommand [] name = 0"
| "GetCommand (c # cs) name = (if Name c = name then Code c else GetCommand cs name)"

text \<open>Desktop::GetDBCommand looks the command byte of database access up by its name.\<close>

datatype command_type = Unknown | DatabaseAccess

definition GetDBCommand :: "command list \<Rightarrow> command_type \<Rightarrow> u32 res" where
  "GetDBCommand tbl ct = (case ct of
     DatabaseAccess \<Rightarrow>
       (let cmd = GetCommand tbl (lit ''Database Access'')
        in if cmd = 0 then Inl (BarryError ''Desktop: unable to get command code: Database Access'')
           else Inr cmd)
   | Unknown \<Rightarrow> Inl (LogicError ''Desktop: unknown command type''))"

text \<open>The layout the device uses for one table entry.\<close>

definition command_field :: "command \<Rightarrow> bytes" where
  "command_field c = [word_of_nat (length (Name c)), ucast (Code c)] @ Name c"

definition command_encodable :: "command \<Rightarrow> bool" where
  "command_encodable c \<longleftrightarrow> 0 < length (Name c) \<and> length (Name c) < 256 \<and> Code c < 256"

lemma unat_ucast_byte [simp]: "n < 256 \<Longrightarrow> unat (word_of_nat n :: byte) = n"
  by (simp add: unat_of_nat take_bit_nat_eq_self)

lemma ucast_down_up: "(c :: u32) < 256 \<Longrightarrow> ucast (ucast c :: byte) = c"
  by (rule word_unat_eq_iff[THEN iffD2]) (simp add: unsigned_ucast_eq unsigned_take_bit_eq word_less_nat_alt take_bit_nat_eq_self)

lemma CommandTable_ParseField_field:
  assumes "command_encodable c" "length pre = n"
  shows "CommandTable_ParseField (pre @ command_field c @ rest) n cmds
         = (n + length (command_field c), cmds @ [c])"
proof -
  have "\<lparr>Code = ucast (ucast (Code c) :: byte), Name = Name c\<rparr> = c"
    using assms(1) by (simp add: command_encodable_def ucast_down_up)
  then show ?thesis
    using assms by (auto simp: CommandTable_ParseField_def Let_def layout_simps command_field_def
      command_encodable_def)
qed

lemma CommandTable_loop_fields:
  assumes "\<forall>c \<in> set cs. command_encodable c"
  shows "CommandTable_loop (pre @ concat (map command_field cs)) (length pre) cmds = cmds @ cs"
  using assms
proof (induction cs arbitrary: pre cmds)
  case Nil
  show ?case by (simp add: CommandTable_loop.simps)
next
  case (Cons c cs)
  have "CommandTable_loop (pre @ concat (map command_field (c # cs))) (length pre) cmds
        = CommandTable_loop ((pre @ command_field c) @ concat (map command_field cs))
            (length (pre @ command_field c)) (cmds @ [c])"
    using Cons.prems by (subst CommandTable_loop.simps)
      (auto simp: CommandTable_ParseField_field, simp add: command_field_def)
  also have "\<dots> = cmds @ c # cs"
    using Cons.IH[of "pre @ command_field c" "cmds @ [c]"] Cons.prems by (simp del: length_append)
  finally show ?case .
qed


text \<open>Parsing a command table the device sent, with any header of the given length in
  front, yields exactly its entries in order, appended to the table; and every parse of
  any bytes at all ends and only appends entries whose name lies inside the data.\<close>

theorem CommandTable_Parse_roundtrip:
  assumes "\<forall>c \<in> set cs. command_encodable c" and "length pre = offset"
  shows "CommandTable_Parse old (pre @ concat (map command_field cs)) offset = old @ cs"
proof (cases "concat (map command_field cs) = []")
  case True
  then have "cs = []" by (cases cs) (auto simp: command_field_def)
  then show ?thesis using assms by (simp add: CommandTable_Parse_def)
next
  case False
  then show ?thesis using assms CommandTable_loop_fields[OF assms(1), of pre old]
    by (auto simp: CommandTable_Parse_def)
qed

definition sample_commands :: "command list" where
  "sample_commands = [\<lparr>Code = 0x62, Name = lit ''Database Access''\<rparr>, \<lparr>Code = 7, Name = lit ''X''\<rparr>]"

lemma CommandTable_Parse_roundtrip_witness:
  "CommandTable_Parse [] ([9, 9] @ concat (map command_field sample_commands)) 2 = sample_commands"
proof -
  have "\<forall>c \<in> set sample_commands. command_encodable c"
    by (simp add: sample_commands_def command_encodable_def lit_def)
  from CommandTable_Parse_roundtrip[OF this, of "[9, 9]" 2 "[]"] show ?thesis by simp
qed

lemma GetCommand_find:
  "GetCommand cs name = (case List.find (\<lambda>c. Name c = name) cs of None \<Rightarrow> 0 | Some c \<Rightarrow> Code c)"
  by (induction cs) auto

text \<open>GetDBCommand yields the code of the first table entry named "Database Access",
  and throws exactly when the table has no such entry or its code is 0.\<close>

theorem GetDBCommand_spec:
  "GetDBCommand tbl DatabaseAccess =
     (case List.find (\<lambda>c. Name c = lit ''Database Access'') tbl of
        Some c \<Rightarrow> (if Code c = 0 then Inl (BarryError ''Desktop: unable to get command code: Database Access'')
                   else Inr (Code c))
      | None \<Rightarrow> Inl (BarryError ''Desktop: unable to get command code: Database Access''))"
  by (simp add: GetDBCommand_def GetCommand_find Let_def split: option.splits)

section \<open>Database database\<close>

record database =
  db_Number :: u32
  db_RecordCount :: u32
  db_Name :: bytes

text \<open>
  ParseField is a template over the two field structs; what differs is the size of the
  struct, the bytes that follow the name in it, and where its members are.
\<close>

datatype dbdb_field = OldDBDBField | DBDBField

primrec fmt_sizeof :: "dbdb_field \<Rightarrow> nat" where
  "fmt_sizeof OldDBDBField = sizeof_OldDBDBField"
| "fmt_sizeof DBDBField = sizeof_DBDBField"

primrec fmt_count :: "dbdb_field \<Rightarrow> bytes \<Rightarrow> nat \<Rightarrow> u32" where
  "fmt_count OldDBDBField bs b = ucast (get16 bs (b + 7))"
| "fmt_count DBDBField bs b = get32 bs (b + 7)"

primrec fmt_nameSize :: "dbdb_field \<Rightarrow> nat" where
  "fmt_nameSize OldDBDBField = 11"
| "fmt_nameSize DBDBField = 13"

primrec fmt_name :: "dbdb_field \<Rightarrow> nat" where
  "fmt_name OldDBDBField = 13"
| "fmt_name DBDBField = 16"

definition DatabaseDatabase_ParseField ::
  "dbdb_field \<Rightarrow> bytes \<Rightarrow> nat \<Rightarrow> database list \<Rightarrow> nat \<times> database list" where
  "DatabaseDatabase_ParseField f bs b dbs =
    (let headend = b + fmt_sizeof f
     in if length bs < headend then (headend, dbs)
        else let nameSize = unat (get16 bs (b + fmt_nameSize f));
                 b1 = b + (fmt_sizeof f - 1 + nameSize)
             in if length bs < b1 then (b1, dbs)
                else if nameSize = 0 then (b1, dbs)
                else (b1, dbs @ [\<lparr>db_Number = ucast (get16 bs b), db_RecordCount = fmt_count f bs b,
                        db_Name = take (nameSize - 1) (drop (b + fmt_name f) bs)\<rparr>]))"

lemma DatabaseDatabase_ParseField_progress:
  "b < fst (DatabaseDatabase_ParseField f bs b dbs)"
  by (cases f) (simp_all add: DatabaseDatabase_ParseField_def Let_def layout_simps)

function DatabaseDatabase_loop :: "dbdb_field \<Rightarrow> bytes \<Rightarrow> nat \<Rightarrow> database list \<Rightarrow> database list" where
  "DatabaseDatabase_loop f bs b dbs =
     (if b < length bs
      then let r = DatabaseDatabase_ParseField f bs b dbs in DatabaseDatabase_loop f bs (fst r) (snd r)
      else dbs)"
  by pat_completeness auto
termination
  by (relation "measure (\<lambda>(f, bs, b, dbs). length bs - b)")
     (simp_all add: case_prod_unfold DatabaseDatabase_ParseField_progress diff_less_mono2)

declare DatabaseDatabase_loop.simps [simp del]

definition DatabaseDatabase_Parse :: "database list \<Rightarrow> bytes \<Rightarrow> database list" where
  "DatabaseDatabase_Parse dbs data =
    (if length data < SB_PACKET_DBACCESS_HEADER_SIZE + 1 then dbs
     else let operation = byte_at data SB_PACKET_DBACCESS_HEADER_SIZE in
       if operation = SB_DBOP_GET_DBDB
       then if SB_PACKET_DBDB_HEADER_SIZE < length data
            then DatabaseDatabase_loop DBDBField  data SB_PACKET_DBDB_HEADER_SIZE dbs else dbs
       else if operation = SB_DBOP_OLD_GET_DBDB
       then if SB_PACKET_OLD_DBDB_HEADER_SIZE < length data
            then DatabaseDatabase_loop OldDBDBField  data SB_PACKET_OLD_DBDB_HEADER_SIZE dbs else dbs
       else dbs)"

definition GetTotalRecordCount :: "database list \<Rightarrow> u32" where
  "GetTotalRecordCount dbs = fold (\<lambda>db sum. sum + db_RecordCount db) dbs 0"

fun GetDBNumber :: "database list \<Rightarrow> bytes \<Rightarrow> u32 option" where
  "GetDBNumber [] name = None"
| "GetDBNumber (db # dbs) name = (if db_Name db = name then Some (db_Number db) else GetDBNumber dbs name)"

fun GetDBName :: "database list \<Rightarrow> u32 \<Rightarrow> bytes option" where
  "GetDBName [] num = None"
| "GetDBName (db # dbs) num = (if db_Number db = num then Some (db_Name db) else GetDBName dbs num)"


text \<open>The two layouts of one entry; the new one puts two zeros after the name's NUL.\<close>

definition dbdb_entry :: "dbdb_field \<Rightarrow> byte \<Rightarrow> u32 \<Rightarrow> u16 \<Rightarrow> byte \<Rightarrow> database \<Rightarrow> bytes" where
  "dbdb_entry f u1 dbsize u2 u3 db =
    (let name = db_Name db @ [0]
     in case f of
       OldDBDBField \<Rightarrow> le16 (ucast (db_Number db)) @ [u1] @ le32 dbsize @ le16 (ucast (db_RecordCount db))
          @ le16 u2 @ le16 (word_of_nat (length name)) @ name
     | DBDBField \<Rightarrow> le16 (ucast (db_Number db)) @ [u1] @ le32 dbsize @ le32 (db_RecordCount db)
          @ le16 u2 @ le16 (word_of_nat (length name)) @ [u3] @ name @ [0, 0])"

definition dbdb_encodable :: "dbdb_field \<Rightarrow> database \<Rightarrow> bool" where
  "dbdb_encodable f db \<longleftrightarrow> Suc (length (db_Name db)) < 65536 \<and> db_Number db < 65536
     \<and> (f = OldDBDBField \<longrightarrow> db_RecordCount db < 65536)"

lemma ucast16_down_up: "(c :: u32) < 65536 \<Longrightarrow> ucast (ucast c :: u16) = c"
  by (rule word_unat_eq_iff[THEN iffD2])
     (simp add: unsigned_ucast_eq unsigned_take_bit_eq word_less_nat_alt take_bit_nat_eq_self)

lemma DatabaseDatabase_ParseField_entry:
  assumes "dbdb_encodable f db"
  shows "DatabaseDatabase_ParseField f (pre @ dbdb_entry f u1 ds u2 u3 db @ rest) (length pre) dbs
         = (length pre + length (dbdb_entry f u1 ds u2 u3 db), dbs @ [db])"
proof (cases f)
  case OldDBDBField
  then show ?thesis using assms
    by (simp add: OldDBDBField DatabaseDatabase_ParseField_def Let_def layout_simps dbdb_entry_def
      dbdb_encodable_def ucast16_down_up)
next
  case DBDBField
  then show ?thesis using assms
    by (simp add: DatabaseDatabase_ParseField_def Let_def layout_simps dbdb_entry_def
      dbdb_encodable_def ucast16_down_up)
qed


lemma DatabaseDatabase_loop_entries:
  assumes "\<forall>(u1, ds, u2, u3, db) \<in> set es. dbdb_encodable f db"
  shows "DatabaseDatabase_loop f (pre @ concat (map (\<lambda>(u1, ds, u2, u3, db). dbdb_entry f u1 ds u2 u3 db) es))
           (length pre) dbs = dbs @ map (\<lambda>(u1, ds, u2, u3, db). db) es"
  using assms
proof (induction es arbitrary: pre dbs)
  case Nil
  show ?case by (simp add: DatabaseDatabase_loop.simps)
next
  case (Cons e es)
  obtain u1 ds u2 u3 db where e: "e = (u1, ds, u2, u3, db)" by (cases e)
  define p where "p = dbdb_entry f u1 ds u2 u3 db"
  have ne: "p \<noteq> []" by (cases f) (simp_all add: p_def dbdb_entry_def Let_def)
  define r where "r = concat (map (\<lambda>(u1, ds, u2, u3, db). dbdb_entry f u1 ds u2 u3 db) es)"
  have "DatabaseDatabase_loop f (pre @ p @ r) (length pre) dbs
        = DatabaseDatabase_loop f ((pre @ p) @ r) (length (pre @ p)) (dbs @ [db])"
    using Cons.prems ne by (subst DatabaseDatabase_loop.simps)
      (simp add: e p_def DatabaseDatabase_ParseField_entry Let_def)
  also have "\<dots> = dbs @ db # map (\<lambda>(u1, ds, u2, u3, db). db) es"
    using Cons.IH[of "pre @ p" "dbs @ [db]"] Cons.prems by (simp add: r_def del: length_append)
  finally show ?case by (simp add: e p_def r_def)
qed

text \<open>Parsing a database-database response in either protocol version yields exactly
  the databases whose entries it carries: numbers, record counts (16 or 32 bit) and names
  without their terminating NUL, whatever the unknown bytes hold.\<close>

theorem DatabaseDatabase_Parse_roundtrip:
  assumes "\<forall>(u1, ds, u2, u3, db) \<in> set es. dbdb_encodable f db"
    and "es \<noteq> []"
    and "length pre = (case f of OldDBDBField \<Rightarrow> SB_PACKET_OLD_DBDB_HEADER_SIZE | DBDBField \<Rightarrow> SB_PACKET_DBDB_HEADER_SIZE)"
    and "byte_at pre SB_PACKET_DBACCESS_HEADER_SIZE = (case f of OldDBDBField \<Rightarrow> SB_DBOP_OLD_GET_DBDB | DBDBField \<Rightarrow> SB_DBOP_GET_DBDB)"
  shows "DatabaseDatabase_Parse old (pre @ concat (map (\<lambda>(u1, ds, u2, u3, db). dbdb_entry f u1 ds u2 u3 db) es))
         = old @ map (\<lambda>(u1, ds, u2, u3, db). db) es"
proof -
  define r where "r = concat (map (\<lambda>(u1, ds, u2, u3, db). dbdb_entry f u1 ds u2 u3 db) es)"
  have "r \<noteq> []"
    using assms(2) by (cases es; cases f) (auto simp: r_def dbdb_entry_def Let_def)
  moreover have "DatabaseDatabase_loop f (pre @ r) (length pre) old = old @ map (\<lambda>(u1, ds, u2, u3, db). db) es"
    unfolding r_def by (rule DatabaseDatabase_loop_entries[OF assms(1)])
  ultimately show ?thesis
    using assms(3,4) unfolding r_def[symmetric]
    by (cases f) (simp_all add: DatabaseDatabase_Parse_def Let_def layout_simps)
qed

lemma DatabaseDatabase_Parse_roundtrip_witness:
  "DatabaseDatabase_Parse [] ([0, 0, 0, 0, 0, 0, 0x4c, 0, 0]
     @ concat (map (\<lambda>(u1, ds, u2, u3, db). dbdb_entry OldDBDBField u1 ds u2 u3 db)
         [(1, 2, 3, 4, \<lparr>db_Number = 5, db_RecordCount = 6, db_Name = lit ''Memos''\<rparr>)]))
   = [\<lparr>db_Number = 5, db_RecordCount = 6, db_Name = lit ''Memos''\<rparr>]"
  by (subst DatabaseDatabase_Parse_roundtrip[of _ OldDBDBField])
     (simp_all add: dbdb_encodable_def lit_def layout_simps)

section \<open>Record state table\<close>

record rst_state =
  Index :: u32
  RecordId :: u32
  Dirty :: bool
  RecType :: u32
  Unknown2 :: bytes

record rst =
  StateMap :: "(u32 \<times> rst_state) list"
  m_LastNewRecordId :: u32

definition RecordStateTable_new :: rst where
  "RecordStateTable_new = \<lparr>StateMap = [], m_LastNewRecordId = 1\<rparr>"

definition RecordStateTable_Clear :: "rst \<Rightarrow> rst" where
  "RecordStateTable_Clear t = \<lparr>StateMap = [], m_LastNewRecordId = 1\<rparr>"

definition RecordStateTable_ParseField :: "bytes \<Rightarrow> nat \<Rightarrow> rst \<Rightarrow> nat \<times> rst" where
  "RecordStateTable_ParseField bs b t =
    (let b1 = b + sizeof_RecordStateTableField
     in if length bs < b1 then (b1, t)
        else let state = \<lparr>Index = ucast (get16 bs (b + 1)), RecordId = get32 bs (b + 3),
                          Dirty = (byte_at bs (b + 7) AND 1 \<noteq> 0), RecType = ucast (byte_at bs b),
                          Unknown2 = take 4 (drop (b + 8) bs)\<rparr>
             in (b1, t\<lparr>StateMap := map_put (Index state) state (StateMap t)\<rparr>))"

function RecordStateTable_loop :: "bytes \<Rightarrow> nat \<Rightarrow> rst \<Rightarrow> rst" where
  "RecordStateTable_loop bs b t =
     (if b < length bs
      then let r = RecordStateTable_ParseField bs b t in RecordStateTable_loop bs (fst r) (snd r)
      else t)"
  by pat_completeness auto
termination
  by (relation "measure (\<lambda>(bs, b, t). length bs - b)")
     (simp_all add: case_prod_unfold RecordStateTable_ParseField_def Let_def layout_simps diff_less_mono2)

declare RecordStateTable_loop.simps [simp del]

definition RecordStateTable_Parse :: "rst \<Rightarrow> bytes \<Rightarrow> rst" where
  "RecordStateTable_Parse t data =
     (if length data \<le> 12 then t else RecordStateTable_loop data 12 t)"

fun GetIndex_scan :: "(u32 \<times> rst_state) list \<Rightarrow> u32 \<Rightarrow> u32 option" where
  "GetIndex_scan [] rid = None"
| "GetIndex_scan ((i, s) # m) rid = (if RecordId s = rid then Some i else GetIndex_scan m rid)"

definition GetIndex :: "rst \<Rightarrow> u32 \<Rightarrow> u32 option" where
  "GetIndex t rid = GetIndex_scan (StateMap t) rid"

text \<open>
  The search for an unused id walks the map from its start again whenever the candidate is
  taken. It need not end if all 2^32 ids are taken, so it is a partial function.
\<close>

partial_function (option) new_id_scan ::
  "(u32 \<times> rst_state) list \<Rightarrow> (u32 \<times> rst_state) list \<Rightarrow> u32 \<Rightarrow> u32 option" where
  "new_id_scan states i lastid =
     (case i of
        [] \<Rightarrow> Some lastid
      | (k, s) # i' \<Rightarrow>
          if lastid = RecordId s then new_id_scan states states (lastid + 1)
          else new_id_scan states i' lastid)"

definition MakeNewRecordId :: "rst \<Rightarrow> (u32 \<times> rst) option" where
  "MakeNewRecordId t =
     (case new_id_scan (StateMap t) (StateMap t) (m_LastNewRecordId t + 1) of
        None \<Rightarrow> None
      | Some n \<Rightarrow> Some (n, t\<lparr>m_LastNewRecordId := n\<rparr>))"


definition record_ids :: "(u32 \<times> rst_state) list \<Rightarrow> u32 set" where
  "record_ids m = (\<lambda>(k, s). RecordId s) ` set m"

lemma record_ids_simps [simp]:
  "record_ids [] = {}" "record_ids ((k, s) # m) = insert (RecordId s) (record_ids m)"
  by (simp_all add: record_ids_def)

lemma new_id_scan_free: "w \<notin> record_ids i \<Longrightarrow> new_id_scan states i w = Some w"
  by (induction i) (subst new_id_scan.simps, auto)+

lemma new_id_scan_taken:
  "w \<in> record_ids i \<Longrightarrow> new_id_scan states i w = new_id_scan states states (w + 1)"
  by (induction i) (subst new_id_scan.simps, auto)+

lemma new_id_scan_nth:
  "(\<forall>j < k. w + word_of_nat j \<in> record_ids states) \<Longrightarrow> w + word_of_nat k \<notin> record_ids states \<Longrightarrow>
   new_id_scan states states w = Some (w + word_of_nat k)"
proof (induction k arbitrary: w)
  case 0
  then show ?case by (simp add: new_id_scan_free)
next
  case (Suc k)
  have "\<forall>j < k. (w + 1) + word_of_nat j \<in> record_ids states"
    using Suc.prems(1) by (metis Suc_less_eq add.assoc of_nat_Suc)
  moreover have "(w + 1) + word_of_nat k \<notin> record_ids states"
    using Suc.prems(2) by (simp add: ac_simps)
  ultimately have "new_id_scan states states (w + 1) = Some (w + word_of_nat (Suc k))"
    using Suc.IH[of "w + 1"] by (simp add: ac_simps)
  moreover have "w \<in> record_ids states" using Suc.prems(1) by force
  ultimately show ?case by (simp add: new_id_scan_taken)
qed

lemma free_id_exists:
  assumes "length states < 2 ^ 32"
  shows "\<exists>k. w + word_of_nat k \<notin> record_ids states"
proof (rule ccontr)
  assume "\<not> ?thesis"
  then have "w + word_of_nat (unat (v - w)) \<in> record_ids states" for v by blast
  then have "v \<in> record_ids states" for v by simp
  then have "record_ids states = UNIV" by blast
  moreover have "card (record_ids states) \<le> length states"
    unfolding record_ids_def by (meson card_image_le card_length finite_set le_trans)
  ultimately show False using assms by (simp add: card_word)
qed

text \<open>The ids handed out: the first free one after the last, in wrap-around order.\<close>

lemma MakeNewRecordId_spec:
  assumes "length (StateMap t) < 2 ^ 32"
  shows "\<exists>k. MakeNewRecordId t = Some (m_LastNewRecordId t + 1 + word_of_nat k,
      t\<lparr>m_LastNewRecordId := m_LastNewRecordId t + 1 + word_of_nat k\<rparr>)
    \<and> m_LastNewRecordId t + 1 + word_of_nat k \<notin> record_ids (StateMap t)
    \<and> (\<forall>j < k. m_LastNewRecordId t + 1 + word_of_nat j \<in> record_ids (StateMap t))"
proof -
  let ?free = "\<lambda>k. m_LastNewRecordId t + 1 + word_of_nat k \<notin> record_ids (StateMap t)"
  define k where "k = (LEAST k. ?free k)"
  have free: "?free k" unfolding k_def using free_id_exists[OF assms] by (rule LeastI_ex)
  have taken: "\<forall>j < k. \<not> ?free j" unfolding k_def using not_less_Least by blast
  show ?thesis
    using new_id_scan_nth[OF _ free] taken free by (intro exI[of _ k]) (simp add: MakeNewRecordId_def)
qed

definition rst_ok :: "rst \<Rightarrow> bool" where
  "rst_ok t \<longleftrightarrow> map_wf (StateMap t) \<and> fst ` set (StateMap t) \<subseteq> {k. k < 65536}"

lemma rst_ok_new [simp]: "rst_ok RecordStateTable_new"
  by (simp add: rst_ok_def RecordStateTable_new_def)

lemma ucast_u16_less [simp]: "(ucast (w :: u16) :: u32) < 65536"
  using unsigned_less[of w, where 'a = nat] by (simp add: word_less_nat_alt unsigned_ucast_eq unsigned_take_bit_eq take_bit_nat_eq_self)

lemma RecordStateTable_ParseField_ok: "rst_ok t \<Longrightarrow> rst_ok (snd (RecordStateTable_ParseField bs b t))"
  by (auto simp: RecordStateTable_ParseField_def Let_def rst_ok_def keys_map_put)

lemma RecordStateTable_Parse_ok: "rst_ok t \<Longrightarrow> rst_ok (RecordStateTable_Parse t data)"
proof -
  have "rst_ok t \<Longrightarrow> rst_ok (RecordStateTable_loop bs b t)" for bs b
    by (induction bs b t rule: RecordStateTable_loop.induct)
       (subst RecordStateTable_loop.simps, simp add: RecordStateTable_ParseField_ok Let_def)
  then show "rst_ok t \<Longrightarrow> rst_ok (RecordStateTable_Parse t data)"
    by (simp add: RecordStateTable_Parse_def)
qed

lemma rst_ok_length:
  assumes "rst_ok t" shows "length (StateMap t) \<le> 65536"
proof -
  have "distinct (map fst (StateMap t))"
    using assms unfolding rst_ok_def map_wf_def by (simp add: strict_sorted_iff)
  then have "length (StateMap t) = card (fst ` set (StateMap t))"
    using distinct_card by fastforce
  also have "\<dots> \<le> card {k :: u32. k < 65536}"
    using assms by (intro card_mono) (auto simp: rst_ok_def)
  also have "\<dots> \<le> card {..<65536 :: nat}"
    by (rule card_inj_on_le[of unat]) (auto simp: inj_on_def word_less_nat_alt word_unat_eq_iff)
  finally show ?thesis by simp
qed

text \<open>After parsing any response into a fresh table, MakeNewRecordId returns: it yields
  an id no record of the table has, the first such id after the last one handed out, and
  remembers it. The loop cannot run forever because the table has at most 65536 entries.\<close>

theorem MakeNewRecordId_fresh:
  "\<exists>k. MakeNewRecordId (RecordStateTable_Parse RecordStateTable_new data)
       = Some (2 + word_of_nat k, (RecordStateTable_Parse RecordStateTable_new data)\<lparr>m_LastNewRecordId := 2 + word_of_nat k\<rparr>)
     \<and> 2 + word_of_nat k \<notin> record_ids (StateMap (RecordStateTable_Parse RecordStateTable_new data))
     \<and> (\<lambda>j. 2 + word_of_nat j) ` {..<k} \<subseteq> record_ids (StateMap (RecordStateTable_Parse RecordStateTable_new data))"
proof -
  let ?t = "RecordStateTable_Parse RecordStateTable_new data"
  have "length (StateMap ?t) \<le> 65536" by (intro rst_ok_length RecordStateTable_Parse_ok rst_ok_new)
  then have len: "length (StateMap ?t) < 2 ^ 32" by simp
  have "m_LastNewRecordId (RecordStateTable_loop bs b t) = m_LastNewRecordId t" for bs b t
    by (induction bs b t rule: RecordStateTable_loop.induct)
       (subst RecordStateTable_loop.simps, simp add: RecordStateTable_ParseField_def Let_def)
  then have "m_LastNewRecordId ?t = 1"
    by (simp add: RecordStateTable_Parse_def RecordStateTable_new_def)
  then show ?thesis using MakeNewRecordId_spec[OF len] by (auto simp: image_subset_iff)
qed


text \<open>The layout of one state; the flags other than the dirty bit are unknown.\<close>

definition rst_field :: "byte \<Rightarrow> rst_state \<Rightarrow> bytes" where
  "rst_field otherflags s = [ucast (RecType s)] @ le16 (ucast (Index s)) @ le32 (RecordId s)
     @ [(otherflags AND 0xfe) OR (if Dirty s then 1 else 0)] @ Unknown2 s"

definition rst_encodable :: "rst_state \<Rightarrow> bool" where
  "rst_encodable s \<longleftrightarrow> RecType s < 256 \<and> Index s < 65536 \<and> length (Unknown2 s) = 4"

lemma dirty_bit: "((b AND 0xfe) OR (if d then 1 else 0)) AND 1 \<noteq> (0 :: byte) \<longleftrightarrow> d"
proof -
  have "(b AND 0xfe) AND 1 = b AND (0xfe AND 1)" by (rule and.assoc)
  then have z: "(b AND 0xfe) AND 1 = 0" by simp
  show ?thesis by (simp add: bit.conj_disj_distrib2 z)
qed

lemma rst_ParseField_field:
  assumes "rst_encodable s"
  shows "RecordStateTable_ParseField (pre @ rst_field fl s @ rest) (length pre) t
         = (length pre + length (rst_field fl s), t\<lparr>StateMap := map_put (Index s) s (StateMap t)\<rparr>)"
proof -
  have len: "length (rst_field fl s) = 12" using assms by (simp add: rst_field_def rst_encodable_def)
  have eq: "\<lparr>Index = Index s, RecordId = RecordId s, Dirty = Dirty s, RecType = RecType s, Unknown2 = Unknown2 s\<rparr> = s"
    by simp
  have "RecordStateTable_ParseField (pre @ rst_field fl s @ rest) (length pre) t
     = (length pre + 12, t\<lparr>StateMap := map_put (Index s) \<lparr>Index = Index s, RecordId = RecordId s,
          Dirty = Dirty s, RecType = RecType s, Unknown2 = Unknown2 s\<rparr> (StateMap t)\<rparr>)"
    using assms len unfolding RecordStateTable_ParseField_def Let_def
    by (simp add: layout_simps rst_field_def rst_encodable_def ucast16_down_up ucast_down_up dirty_bit)
  then show ?thesis unfolding eq len .
qed

lemma RecordStateTable_loop_fields:
  assumes "\<forall>(fl, s) \<in> set es. rst_encodable s"
  shows "RecordStateTable_loop (pre @ concat (map (\<lambda>(fl, s). rst_field fl s) es)) (length pre) t
         = t\<lparr>StateMap := fold (\<lambda>s. map_put (Index s) s) (map snd es) (StateMap t)\<rparr>"
  using assms
proof (induction es arbitrary: pre t)
  case Nil
  show ?case by (simp add: RecordStateTable_loop.simps)
next
  case (Cons e es)
  obtain fl s where e: "e = (fl, s)" by (cases e)
  define p where "p = rst_field fl s"
  define r where "r = concat (map (\<lambda>(fl, s). rst_field fl s) es)"
  define t' where "t' = t\<lparr>StateMap := map_put (Index s) s (StateMap t)\<rparr>"
  have "p \<noteq> []" by (simp add: p_def rst_field_def)
  then have "RecordStateTable_loop (pre @ p @ r) (length pre) t
      = RecordStateTable_loop ((pre @ p) @ r) (length (pre @ p)) t'"
    using Cons.prems by (subst RecordStateTable_loop.simps)
      (simp add: e p_def t'_def rst_ParseField_field Let_def)
  also have "\<dots> = t'\<lparr>StateMap := fold (\<lambda>s. map_put (Index s) s) (map snd es) (StateMap t')\<rparr>"
    using Cons.IH[of "pre @ p" t'] Cons.prems by (simp add: r_def del: length_append)
  finally show ?case by (simp add: e p_def r_def t'_def)
qed

text \<open>A table parsed from a response maps every index to the last state the response
  gives for it, with all its fields (dirty flag, type, id) as sent, whatever the twelve
  header bytes and the unknown flag bits are.\<close>

theorem RecordStateTable_Parse_roundtrip:
  assumes "\<forall>(fl, s) \<in> set es. rst_encodable s" and "length pre = 12"
  shows "map_of (StateMap (RecordStateTable_Parse RecordStateTable_new
            (pre @ concat (map (\<lambda>(fl, s). rst_field fl s) es)))) k
         = (case filter (\<lambda>s. Index s = k) (rev (map snd es)) of [] \<Rightarrow> None | s # _ \<Rightarrow> Some s)"
proof -
  have "StateMap (RecordStateTable_Parse RecordStateTable_new (pre @ concat (map (\<lambda>(fl, s). rst_field fl s) es)))
      = fold (\<lambda>s. map_put (Index s) s) (map snd es) []"
  proof (cases es)
    case Nil
    then show ?thesis using assms(2) by (simp add: RecordStateTable_Parse_def RecordStateTable_new_def)
  next
    case (Cons e es')
    define r where "r = concat (map (\<lambda>(fl, s). rst_field fl s) es)"
    have "r \<noteq> []" by (simp add: Cons r_def rst_field_def split: prod.splits)
    then show ?thesis using RecordStateTable_loop_fields[OF assms(1), of pre RecordStateTable_new] assms(2)
      by (simp add: RecordStateTable_Parse_def RecordStateTable_new_def flip: r_def)
  qed
  then show ?thesis using std_map.find_fold_put[of "[]" Index "map snd es" k] by (simp split: list.splits)
qed

definition sample_states :: "(byte \<times> rst_state) list" where
  "sample_states =
    [(0x80, \<lparr>Index = 3, RecordId = 77, Dirty = True, RecType = 1, Unknown2 = [1, 2, 3, 4]\<rparr>),
     (0x00, \<lparr>Index = 3, RecordId = 78, Dirty = False, RecType = 1, Unknown2 = [0, 0, 0, 0]\<rparr>)]"

lemma RecordStateTable_Parse_roundtrip_witness:
  "map_of (StateMap (RecordStateTable_Parse RecordStateTable_new
      (replicate 12 0 @ concat (map (\<lambda>(fl, s). rst_field fl s) sample_states)))) 3
   = Some (snd (sample_states ! 1))"
  by (subst RecordStateTable_Parse_roundtrip) (simp_all add: sample_states_def rst_encodable_def)

lemma GetIndex_scan_spec:
  "GetIndex_scan m rid = Some i \<Longrightarrow> \<exists>s. (i, s) \<in> set m \<and> RecordId s = rid"
  "GetIndex_scan m rid = None \<longleftrightarrow> rid \<notin> record_ids m"
  by (induction m rid rule: GetIndex_scan.induct) (auto split: if_splits)

text \<open>GetIndex finds an id exactly when some state of the table has it, and then
  gives the index of such a state.\<close>

theorem GetIndex_spec:
  assumes "map_wf (StateMap t)"
  shows "(case GetIndex t rid of
            Some i \<Rightarrow> (\<exists>s. map_of (StateMap t) i = Some s \<and> RecordId s = rid)
          | None \<Rightarrow> rid \<notin> record_ids (StateMap t))"
proof (cases "GetIndex t rid")
  case None
  then show ?thesis using GetIndex_scan_spec(2)[of "StateMap t" rid] by (simp add: GetIndex_def split: option.splits)
next
  case (Some i)
  then obtain s where s: "(i, s) \<in> set (StateMap t)" "RecordId s = rid"
    using GetIndex_scan_spec(1)[of "StateMap t" rid i] by (auto simp: GetIndex_def)
  have "distinct (map fst (StateMap t))"
    using assms unfolding map_wf_def by (simp add: strict_sorted_iff)
  then show ?thesis using Some s by auto
qed

lemma GetIndex_spec_witness:
  "\<exists>s. map_of (StateMap \<lparr>StateMap = [(3, snd (sample_states ! 0))], m_LastNewRecordId = 1\<rparr>) 3 = Some s \<and> RecordId s = 77"
proof -
  let ?t = "\<lparr>StateMap = [(3, snd (sample_states ! 0))], m_LastNewRecordId = 1\<rparr>"
  have "GetIndex ?t 77 = Some 3" by (simp add: GetIndex_def sample_states_def)
  moreover have "map_wf (StateMap ?t)" by (simp add: map_wf_def)
  ultimately show ?thesis using GetIndex_spec[of ?t 77] by simp
qed

end
