(* ===== verification/Exn_State.thy ===== *)
theory Exn_State imports Barry_Prelude begin

text \<open>
  Stateful code that may throw: a function from the state to a result and the state left
  behind. A throw keeps the state it happened in, as C++ does for objects that outlive it.
\<close>

type_synonym ('s, 'a) st = "'s \<Rightarrow> 'a res \<times> 's"

definition ret :: "'a \<Rightarrow> ('s, 'a) st" where "ret x s = (Inr x, s)"
definition throw :: "exn \<Rightarrow> ('s, 'a) st" where "throw e s = (Inl e, s)"
definition lift :: "'a res \<Rightarrow> ('s, 'a) st" where "lift r s = (r, s)"
definition gets :: "('s \<Rightarrow> 'a) \<Rightarrow> ('s, 'a) st" where "gets f s = (Inr (f s), s)"
definition modify :: "('s \<Rightarrow> 's) \<Rightarrow> ('s, unit) st" where "modify f s = (Inr (), f s)"

definition bnd :: "('s, 'a) st \<Rightarrow> ('a \<Rightarrow> ('s, 'b) st) \<Rightarrow> ('s, 'b) st" where
  "bnd m f s = (case m s of (Inl e, s') \<Rightarrow> (Inl e, s') | (Inr x, s') \<Rightarrow> f x s')"

definition exec_if :: "bool \<Rightarrow> ('s, unit) st \<Rightarrow> ('s, unit) st" where
  "exec_if b m = (if b then m else ret ())"

text \<open>A catch clause, run in the state the exception left.\<close>

definition catch :: "('s, 'a) st \<Rightarrow> (exn \<Rightarrow> ('s, 'a) st) \<Rightarrow> ('s, 'a) st" where
  "catch m f s = (case m s of (Inl e, s') \<Rightarrow> f e s' | (Inr x, s') \<Rightarrow> (Inr x, s'))"

text \<open>Code that works on one component of the state.\<close>

definition zoom :: "('t \<Rightarrow> 's) \<Rightarrow> (('s \<Rightarrow> 's) \<Rightarrow> 't \<Rightarrow> 't) \<Rightarrow> ('s, 'a) st \<Rightarrow> ('t, 'a) st" where
  "zoom sel upd m t = (case m (sel t) of (r, s) \<Rightarrow> (r, upd (\<lambda>_. s) t))"

lemma st_simps [simp]:
  "ret x s = (Inr x, s)" "throw e s = (Inl e, s)" "lift r s = (r, s)" "gets f s = (Inr (f s), s)"
  "modify g s = (Inr (), g s)" "exec_if True m = m" "exec_if False m = ret ()"
  by (simp_all add: ret_def throw_def lift_def gets_def modify_def exec_if_def)

lemma bnd_simps [simp]:
  "m s = (Inl e, s') \<Longrightarrow> bnd m f s = (Inl e, s')"
  "m s = (Inr x, s') \<Longrightarrow> bnd m f s = f x s'"
  by (simp_all add: bnd_def)

lemma bnd_basic [simp]:
  "bnd (ret x) f s = f x s" "bnd (throw e) f s = (Inl e, s)" "bnd (gets g) f s = f (g s) s"
  "bnd (modify g) k s = k () (g s)" "bnd (lift (Inr x)) f s = f x s" "bnd (lift (Inl e)) f s = (Inl e, s)"
  by simp_all

lemma bnd_lift: "bnd (lift (Inr x)) f s = f x s"
  by simp

lemma bnd_assoc [simp]: "bnd (bnd m f) g = bnd m (\<lambda>x. bnd (f x) g)"
  by (rule ext) (simp add: bnd_def split: prod.splits sum.splits)

lemma bnd_ret [simp]: "bnd m ret = m"
  by (rule ext) (simp add: bnd_def split: prod.splits sum.splits)

lemma bnd_if [simp]: "bnd (if b then m else n) f s = (if b then bnd m f s else bnd n f s)"
  by simp

lemma bnd_eq_Inr: "bnd m f s = (Inr y, t) \<longleftrightarrow> (\<exists>x s'. m s = (Inr x, s') \<and> f x s' = (Inr y, t))"
  by (simp add: bnd_def split: prod.splits sum.splits)

lemma bnd_eq_Inl:
  "bnd m f s = (Inl e, t) \<longleftrightarrow> m s = (Inl e, t) \<or> (\<exists>x s'. m s = (Inr x, s') \<and> f x s' = (Inl e, t))"
  by (auto simp: bnd_def split: prod.splits sum.splits)

text \<open>An invariant every run keeps, thrown exceptions included.\<close>

definition keeps :: "('s \<Rightarrow> bool) \<Rightarrow> ('s, 'a) st \<Rightarrow> bool" where
  "keeps I m \<longleftrightarrow> (\<forall>s. I s \<longrightarrow> I (snd (m s)))"

lemma keeps_bnd [intro]: "keeps I m \<Longrightarrow> (\<And>x. keeps I (f x)) \<Longrightarrow> keeps I (bnd m f)"
  unfolding keeps_def bnd_def by (auto split: prod.splits sum.splits)

lemma keeps_basic [intro, simp]: "keeps I (ret x)" "keeps I (throw e)" "keeps I (lift r)" "keeps I (gets g)"
  by (simp_all add: keeps_def)

lemma keeps_modify [intro]: "(\<And>s. I s \<Longrightarrow> I (g s)) \<Longrightarrow> keeps I (modify g)"
  by (simp add: keeps_def)

lemma keeps_if [intro]: "(b \<Longrightarrow> keeps I m) \<Longrightarrow> (\<not> b \<Longrightarrow> keeps I n) \<Longrightarrow> keeps I (if b then m else n)"
  by simp

lemma keeps_exec_if [intro]: "keeps I m \<Longrightarrow> keeps I (exec_if b m)"
  by (cases b) auto

lemma keeps_catch [intro]: "keeps I m \<Longrightarrow> (\<And>e. keeps I (f e)) \<Longrightarrow> keeps I (catch m f)"
  unfolding keeps_def catch_def by (auto split: prod.splits sum.splits)

end
