(* ===== verification/Packets.thy ===== *)
theory Packets imports Device_Tables Data_Buffer Exn_State begin

text \<open>
  The packet classes (src/src/packet.cc, src/src/packet.h): ZeroPacket for the socket 0
  handshakes, DBPacket for database commands, JLPacket and JVMPacket for the Java loader
  and the Java debugger. A builder writes struct members into the buffer of a Data object
  and then sets its size; the two socket bytes in front are left as they are, because the
  socket layer overwrites them. The references of a packet object to its send and receive
  buffers are arguments and results here. An exception loses the state of the call.
\<close>

section \<open>Packet and ZeroPacket\<close>

definition Packet_Command :: "bytes \<Rightarrow> byte res" where
  "Packet_Command receive = rbind (CheckSize receive SB_PACKET_HEADER_SIZE) (\<lambda>_. rd8 receive off_command)"

definition GetAttribute :: "data \<Rightarrow> u32 \<Rightarrow> u32 \<Rightarrow> data res" where
  "GetAttribute send object attribute =
     (let n = SB_SOCKET_PACKET_HEADER_SIZE + ATTRIBUTE_FETCH_COMMAND_SIZE
      in fill send n
        [(off_size, le16 (word_of_nat n)), (off_command, [SB_COMMAND_FETCH_ATTRIBUTE]),
         (off_u_socket_socket, le16 0x00ff), (off_u_socket_sequence, [0]),
         (off_u_socket_u, le16 (ucast object)), (off_u_socket_u + 2, le16 (ucast attribute))])"

definition Echo :: "data \<Rightarrow> u64 \<Rightarrow> data res" where
  "Echo send us_ticks =
     (let n = SB_SOCKET_PACKET_HEADER_SIZE + ECHO_COMMAND_SIZE
      in fill send n
        [(off_size, le16 (word_of_nat n)), (off_command, [SB_COMMAND_ECHO]),
         (off_u_socket_socket, le16 0x00ff), (off_u_socket_sequence, [0]),
         (off_u_socket_u, le64 us_ticks)])"

definition Reset :: "data \<Rightarrow> data res" where
  "Reset send =
     (let n = SB_SOCKET_PACKET_HEADER_SIZE
      in fill send n
        [(off_size, le16 (word_of_nat n)), (off_command, [SB_COMMAND_RESET]),
         (off_u_socket_socket, le16 0x00ff), (off_u_socket_sequence, [0])])"

definition ObjectID :: "bytes \<Rightarrow> u16 res" where
  "ObjectID receive = rbind (CheckSize receive SB_SOCKET_PACKET_HEADER_SIZE) (\<lambda>_. rd16 receive off_u_socket_u)"

definition AttributeID :: "bytes \<Rightarrow> u16 res" where
  "AttributeID receive = rbind (CheckSize receive SB_SOCKET_PACKET_HEADER_SIZE)
     (\<lambda>_. rd16 receive (off_u_socket_u + 2))"

definition ChallengeSeed :: "bytes \<Rightarrow> u32 res" where
  "ChallengeSeed receive = rbind (CheckSize receive (SB_SOCKET_PACKET_HEADER_SIZE + PASSWORD_CHALLENGE_SEED_SIZE))
     (\<lambda>_. rd32 receive (off_u_socket_u + PASSWORD_CHALLENGE_HEADER_SIZE))"

definition RemainingTries :: "bytes \<Rightarrow> byte res" where
  "RemainingTries receive = rbind (CheckSize receive (SB_SOCKET_PACKET_HEADER_SIZE + PASSWORD_CHALLENGE_HEADER_SIZE))
     (\<lambda>_. rd8 receive off_u_socket_u)"

definition SocketResponse :: "bytes \<Rightarrow> u16 res" where
  "SocketResponse receive = rbind (CheckSize receive SB_SOCKET_PACKET_HEADER_SIZE) (\<lambda>_. rd16 receive off_u_socket_socket)"

definition SocketSequence :: "bytes \<Rightarrow> byte res" where
  "SocketSequence receive = rbind (CheckSize receive SB_SOCKET_PACKET_HEADER_SIZE) (\<lambda>_. rd8 receive off_u_socket_sequence)"

definition CommandResponse :: "bytes \<Rightarrow> byte res" where
  "CommandResponse receive = rbind (CheckSize receive SB_SOCKET_PACKET_HEADER_SIZE) (\<lambda>_. rd8 receive off_command)"


section \<open>DBPacket\<close>

record db_packet =
  m_send :: data
  m_last_dbop :: byte

definition DBPacket_new :: "data \<Rightarrow> db_packet" where
  "DBPacket_new send = \<lparr>m_send = send, m_last_dbop = 0\<rparr>"

text \<open>
  \<open>con\<close> is the command table of the desktop mode object. Its lookup comes between two
  stores into the buffer; as it only may throw, it is done first here.
\<close>

definition db_build :: "command list \<Rightarrow> db_packet \<Rightarrow> nat \<Rightarrow> byte \<Rightarrow> (byte \<Rightarrow> (nat \<times> bytes) list) \<Rightarrow> db_packet res" where
  "db_build con p n dbop ws =
     rbind (GetDBCommand con DatabaseAccess) (\<lambda>cmd.
     rbind (fill (m_send p) n (ws (ucast cmd))) (\<lambda>send.
       Inr (p\<lparr>m_send := send, m_last_dbop := dbop\<rparr>)))"

definition ClearDatabase :: "command list \<Rightarrow> db_packet \<Rightarrow> u32 \<Rightarrow> db_packet res" where
  "ClearDatabase con p dbId = db_build con p 9 SB_DBOP_CLEAR_DATABASE (\<lambda>tableCmd.
     [(off_size, le16 9), (off_command, [SB_COMMAND_DB_DATA]), (off_db_tableCmd, [tableCmd]),
      (off_db_u, [SB_DBOP_CLEAR_DATABASE]), (off_db_u + 1, le16 (ucast dbId))])"

definition GetDBDB :: "command list \<Rightarrow> db_packet \<Rightarrow> db_packet res" where
  "GetDBDB con p = db_build con p 7 SB_DBOP_OLD_GET_DBDB (\<lambda>tableCmd.
     [(off_size, le16 7), (off_command, [SB_COMMAND_DB_DATA]), (off_db_tableCmd, [tableCmd]),
      (off_db_u, [SB_DBOP_OLD_GET_DBDB])])"

definition GetRecordStateTable :: "command list \<Rightarrow> db_packet \<Rightarrow> u32 \<Rightarrow> db_packet res" where
  "GetRecordStateTable con p dbId = db_build con p 9 SB_DBOP_GET_RECORD_STATE_TABLE (\<lambda>tableCmd.
     [(off_size, le16 9), (off_command, [SB_COMMAND_DB_DATA]), (off_db_tableCmd, [tableCmd]),
      (off_db_u, [SB_DBOP_GET_RECORD_STATE_TABLE]), (off_db_u + 1, le16 (ucast dbId))])"

definition SetRecordFlags :: "command list \<Rightarrow> db_packet \<Rightarrow> u32 \<Rightarrow> u32 \<Rightarrow> byte \<Rightarrow> db_packet res" where
  "SetRecordFlags con p dbId stateTableIndex flag1 =
     (let n = SB_PACKET_COMMAND_HEADER_SIZE + DBC_RECORD_FLAGS_SIZE
      in db_build con p n SB_DBOP_SET_RECORD_FLAGS (\<lambda>tableCmd.
        [(off_size, le16 (word_of_nat n)), (off_command, [SB_COMMAND_DB_DATA]), (off_db_tableCmd, [tableCmd]),
         (off_db_u, [SB_DBOP_SET_RECORD_FLAGS]), (off_db_u + 1, le16 (ucast dbId)),
         (off_db_command_u, [flag1]), (off_db_command_u + 1, le16 (ucast stateTableIndex)),
         (off_db_command_u + 3, replicate 5 0)]))"

definition DeleteRecordByIndex :: "command list \<Rightarrow> db_packet \<Rightarrow> u32 \<Rightarrow> u32 \<Rightarrow> db_packet res" where
  "DeleteRecordByIndex con p dbId stateTableIndex =
     (let n = SB_PACKET_COMMAND_HEADER_SIZE + DBC_RECORD_HEADER_SIZE
      in db_build con p n SB_DBOP_DELETE_RECORD_BY_INDEX (\<lambda>tableCmd.
        [(off_size, le16 (word_of_nat n)), (off_command, [SB_COMMAND_DB_DATA]), (off_db_tableCmd, [tableCmd]),
         (off_db_u, [SB_DBOP_DELETE_RECORD_BY_INDEX]), (off_db_u + 1, le16 (ucast dbId)),
         (off_db_command_u, le16 (ucast stateTableIndex))]))"

definition GetRecordByIndex :: "command list \<Rightarrow> db_packet \<Rightarrow> u32 \<Rightarrow> u32 \<Rightarrow> db_packet res" where
  "GetRecordByIndex con p dbId stateTableIndex = db_build con p 11 SB_DBOP_GET_RECORD_BY_INDEX (\<lambda>tableCmd.
     [(off_size, le16 11), (off_command, [SB_COMMAND_DB_DATA]), (off_db_tableCmd, [tableCmd]),
      (off_db_u, [SB_DBOP_GET_RECORD_BY_INDEX]), (off_db_u + 1, le16 (ucast dbId)),
      (off_db_command_u, le16 (ucast stateTableIndex))])"

definition GetRecords :: "command list \<Rightarrow> db_packet \<Rightarrow> u32 \<Rightarrow> db_packet res" where
  "GetRecords con p dbId = db_build con p 9 SB_DBOP_OLD_GET_RECORDS (\<lambda>tableCmd.
     [(off_size, le16 9), (off_command, [SB_COMMAND_DB_DATA]), (off_db_tableCmd, [tableCmd]),
      (off_db_u, [SB_DBOP_OLD_GET_RECORDS]), (off_db_u + 1, le16 (ucast dbId))])"

text \<open>
  A Builder is any class with BuildRecord: given a DBData and an offset it fills the data
  and the ids, or reports that it has no more. The last component of the result is what
  the builder is after the call.
\<close>

type_synonym 'b builder = "dbdata \<Rightarrow> nat \<Rightarrow> (bool \<times> dbdata \<times> 'b) res"

definition SetRecordByIndex ::
  "command list \<Rightarrow> db_packet \<Rightarrow> u32 \<Rightarrow> u32 \<Rightarrow> 'b builder \<Rightarrow> (bool \<times> db_packet \<times> 'b) res" where
  "SetRecordByIndex con p dbId stateTableIndex build =
     rbind (build (DBData_data [] (m_send p) False) (SB_PACKET_COMMAND_HEADER_SIZE + DBC_INDEXED_UPLOAD_HEADER_SIZE))
       (\<lambda>(more, send, b).
         let p1 = p\<lparr>m_send := m_data send\<rparr>; total = dsize (m_data send)
         in if \<not> more then Inr (False, p1, b)
            else rbind (db_build con p1 total SB_DBOP_SET_RECORD_BY_INDEX (\<lambda>tableCmd.
              [(off_size, le16 (word_of_nat total)), (off_command, [SB_COMMAND_DB_DATA]), (off_db_tableCmd, [tableCmd]),
               (off_db_u, [SB_DBOP_SET_RECORD_BY_INDEX]), (off_db_u + 1, le16 (ucast dbId)),
               (off_db_command_u, [0]), (off_db_command_u + 1, le16 (ucast stateTableIndex))]))
              (\<lambda>p2. Inr (True, p2, b)))"

definition AddRecord :: "command list \<Rightarrow> db_packet \<Rightarrow> u32 \<Rightarrow> 'b builder \<Rightarrow> (bool \<times> db_packet \<times> 'b) res" where
  "AddRecord con p dbId build =
     rbind (build (DBData_data [] (m_send p) False) (SB_PACKET_COMMAND_HEADER_SIZE + DBC_TAGGED_UPLOAD_HEADER_SIZE))
       (\<lambda>(more, send, b).
         let p1 = p\<lparr>m_send := m_data send\<rparr>; total = dsize (m_data send)
         in if \<not> more then Inr (False, p1, b)
            else rbind (db_build con p1 total SB_DBOP_ADD_RECORD (\<lambda>tableCmd.
              [(off_size, le16 (word_of_nat total)), (off_command, [SB_COMMAND_DB_DATA]), (off_db_tableCmd, [tableCmd]),
               (off_db_u, [SB_DBOP_ADD_RECORD]), (off_db_u + 1, le16 (ucast dbId)),
               (off_db_command_u, [m_recType send]), (off_db_command_u + 1, le32 (m_uniqueId send)),
               (off_db_command_u + 5, [1])]))
              (\<lambda>p2. Inr (True, p2, b)))"

definition ReturnCode :: "bytes \<Rightarrow> byte res" where
  "ReturnCode receive =
     rbind (Packet_Command receive) (\<lambda>cmd.
       if cmd = SB_COMMAND_DB_DONE
       then rbind (CheckSize receive (SB_PACKET_DBACCESS_HEADER_SIZE + SB_DBACCESS_RETURN_CODE_SIZE))
              (\<lambda>_. rd8 receive off_db_u)
       else Inl (BarryError ''Attempting to extract a return code from the wrong response packet type''))"

definition DBOperation :: "bytes \<Rightarrow> byte res" where
  "DBOperation receive = rbind (CheckSize receive SB_PACKET_RESPONSE_HEADER_SIZE) (\<lambda>_. rd8 receive off_db_u)"

text \<open>
  DBR_OldTaggedRecord in a response: rectype, index, the unique id, one more
  unknown byte. A Parser is any class with ParseRecord, which works on its own state.
\<close>

definition off_tagged_rectype :: nat where [layout_simps]: "off_tagged_rectype = off_db_response_u"
definition off_tagged_uniqueId :: nat where [layout_simps]: "off_tagged_uniqueId = off_db_response_u + 3"

type_synonym 'p parser = "dbdata \<Rightarrow> ('p, unit) st"

definition DBPacket_Parse :: "db_packet \<Rightarrow> data \<Rightarrow> bytes \<Rightarrow> 'p parser \<Rightarrow> ('p, bool) st" where
  "DBPacket_Parse p receive dbname ParseRecord =
     (if m_last_dbop p = SB_DBOP_OLD_GET_RECORDS \<or> m_last_dbop p = SB_DBOP_GET_RECORD_BY_INDEX
      then let offset = SB_PACKET_RESPONSE_HEADER_SIZE + DBR_OLD_TAGGED_RECORD_HEADER_SIZE
           in bnd (lift (CheckSize (contents receive) offset)) (\<lambda>_.
              bnd (lift (rd8 (contents receive) off_tagged_rectype)) (\<lambda>rectype.
              bnd (lift (rd32 (contents receive) off_tagged_uniqueId)) (\<lambda>uniqueId.
              bnd (ParseRecord (DBData_data_meta [] REC_VERSION_1 dbname rectype uniqueId offset receive False))
                (\<lambda>_. ret True))))
      else ret False)"

definition ParseMeta :: "db_packet \<Rightarrow> dbdata \<Rightarrow> (bool \<times> dbdata) res" where
  "ParseMeta p d =
     (if m_last_dbop p = SB_DBOP_OLD_GET_RECORDS \<or> m_last_dbop p = SB_DBOP_GET_RECORD_BY_INDEX
      then let d1 = SetVersion REC_VERSION_1 d;
               offset = SB_PACKET_RESPONSE_HEADER_SIZE + DBR_OLD_TAGGED_RECORD_HEADER_SIZE
           in rbind (CheckSize (contents (m_data d1)) offset) (\<lambda>_.
              let d2 = SetOffset offset d1
              in rbind (rd8 (contents (m_data d2)) off_tagged_rectype) (\<lambda>rectype.
                 rbind (rd32 (contents (m_data d2)) off_tagged_uniqueId) (\<lambda>uniqueId.
                   Inr (True, SetIds rectype uniqueId d2))))
      else Inr (False, d))"

section \<open>JLPacket\<close>

record jl_packet =
  m_cmd :: data
  jl_data :: data
  m_last_set_size :: nat

definition HasData :: "jl_packet \<Rightarrow> bool" where
  "HasData p \<longleftrightarrow> m_last_set_size p = 2"

definition JLPacket_Size :: "bytes \<Rightarrow> u16 res" where
  "JLPacket_Size receive = rbind (CheckSize receive (SB_JLPACKET_HEADER_SIZE + SB_JLRESPONSE_HEADER_SIZE))
     (\<lambda>_. rd16 receive (SB_JLPACKET_HEADER_SIZE + 2))"

definition SimpleCmd :: "byte \<Rightarrow> byte \<Rightarrow> u16 \<Rightarrow> jl_packet \<Rightarrow> jl_packet res" where
  "SimpleCmd cmd unknown n p =
     rbind (fill (m_cmd p) 8
       [(off_size, le16 8), (SB_JLPACKET_HEADER_SIZE, [cmd]), (SB_JLPACKET_HEADER_SIZE + 1, [unknown]),
        (SB_JLPACKET_HEADER_SIZE + 2, le16 n)])
       (\<lambda>d. Inr (p\<lparr>m_cmd := d, m_last_set_size := 1\<rparr>))"

text \<open>
  The caller passes the data and its size as a uint16_t; the total is computed in a
  uint16_t as well, so it wraps for the last four sizes.
\<close>

definition SimpleData :: "bytes \<Rightarrow> jl_packet \<Rightarrow> jl_packet res" where
  "SimpleData src p =
     (let total = (word_of_nat (length src) + 4 :: u16)
      in rbind (fill (jl_data p) (unat total) [(off_size, le16 total), (SB_JLPACKET_HEADER_SIZE, src)])
           (\<lambda>d. Inr (p\<lparr>jl_data := d, m_last_set_size := 2\<rparr>)))"

definition BigEndianData16 :: "u16 \<Rightarrow> jl_packet \<Rightarrow> jl_packet res" where
  "BigEndianData16 v p = SimpleData (le16 (bbswap_16 v)) p"

definition BigEndianData32 :: "u32 \<Rightarrow> jl_packet \<Rightarrow> jl_packet res" where
  "BigEndianData32 v p = SimpleData (le32 (bbswap_32 v)) p"

definition SetUnknown1 :: "jl_packet \<Rightarrow> jl_packet res" where
  "SetUnknown1 p = rbind (SimpleCmd SB_COMMAND_JL_SET_UNKNOWN1 0 1 p) (SimpleData [0])"

definition SetCodFilename :: "bytes \<Rightarrow> jl_packet \<Rightarrow> jl_packet res" where
  "SetCodFilename filename p =
     rbind (SimpleCmd SB_COMMAND_JL_SET_COD_FILENAME 0 (word_of_nat (length filename)) p)
       (SimpleData (take (unat (word_of_nat (length filename) :: u16)) filename))"

definition SetCodSize :: "u64 \<Rightarrow> jl_packet \<Rightarrow> jl_packet res" where
  "SetCodSize n p = rbind (SimpleCmd SB_COMMAND_JL_SET_COD_SIZE 1 4 p) (BigEndianData32 (ucast n))"

definition SetTime :: "u64 \<Rightarrow> jl_packet \<Rightarrow> jl_packet res" where
  "SetTime when p = rbind (SimpleCmd SB_COMMAND_JL_SET_TIME 0 4 p) (BigEndianData32 (ucast when))"

definition GetSubDir :: "u16 \<Rightarrow> jl_packet \<Rightarrow> jl_packet res" where
  "GetSubDir ident p = rbind (SimpleCmd SB_COMMAND_JL_GET_SUBDIR 0 2 p) (BigEndianData16 ident)"

definition GetDirEntry :: "byte \<Rightarrow> u16 \<Rightarrow> jl_packet \<Rightarrow> jl_packet res" where
  "GetDirEntry entry_cmd ident p = rbind (SimpleCmd entry_cmd 0 2 p) (BigEndianData16 ident)"

definition GetScreenshot :: "jl_packet \<Rightarrow> jl_packet res" where
  "GetScreenshot p = rbind (SimpleCmd SB_COMMAND_JL_GET_SCREENSHOT 0 4 p) (BigEndianData32 0)"

definition JLPacket_Erase :: "u16 \<Rightarrow> u16 \<Rightarrow> jl_packet \<Rightarrow> jl_packet res" where
  "JLPacket_Erase cmd ident p = rbind (SimpleCmd (ucast cmd) 0 2 p) (BigEndianData16 ident)"

definition GetEventlogEntry :: "u16 \<Rightarrow> jl_packet \<Rightarrow> jl_packet res" where
  "GetEventlogEntry entry_num p = rbind (SimpleCmd SB_COMMAND_JL_GET_LOG_ENTRY 0 2 p) (BigEndianData16 entry_num)"

definition SaveModule :: "u16 \<Rightarrow> jl_packet \<Rightarrow> jl_packet res" where
  "SaveModule ident p = rbind (SimpleCmd SB_COMMAND_JL_SAVE_MODULE 0 2 p) (BigEndianData16 ident)"

definition PutData :: "bytes \<Rightarrow> jl_packet \<Rightarrow> jl_packet res" where
  "PutData src p = rbind (SimpleCmd SB_COMMAND_JL_SEND_DATA 0 (word_of_nat (length src)) p) (SimpleData src)"

section \<open>JVMPacket\<close>

definition JVMPacket_Size :: "bytes \<Rightarrow> u16 res" where
  "JVMPacket_Size receive = rbind (CheckSize receive (SB_JVMPACKET_HEADER_SIZE + 2))
     (\<lambda>_. rbind (rd16 receive SB_JVMPACKET_HEADER_SIZE) (\<lambda>w. Inr (bbswap_16 w)))"

definition JVM_SimpleCmd :: "byte \<Rightarrow> data \<Rightarrow> data res" where
  "JVM_SimpleCmd cmd d = fill d (4 + 2 + 1)
     [(off_size, le16 (4 + 2 + 1)), (SB_JVMPACKET_HEADER_SIZE, le16 (bbswap_16 1)),
      (SB_JVMPACKET_HEADER_SIZE + 2, [cmd])]"

definition ComplexCmd :: "byte \<Rightarrow> bytes \<Rightarrow> data \<Rightarrow> data res" where
  "ComplexCmd cmd param d =
     (let n = (word_of_nat (length param) :: u16); total = 4 + 2 + 1 + n
      in fill d (unat total)
        [(off_size, le16 total), (SB_JVMPACKET_HEADER_SIZE, le16 (bbswap_16 (1 + n))),
         (SB_JVMPACKET_HEADER_SIZE + 2, [cmd]), (SB_JVMPACKET_HEADER_SIZE + 3, param)])"

definition Unknown01 :: "data \<Rightarrow> data res" where "Unknown01 = JVM_SimpleCmd SB_COMMAND_JVM_UNKNOWN01"
definition Unknown02 :: "data \<Rightarrow> data res" where "Unknown02 = JVM_SimpleCmd SB_COMMAND_JVM_UNKNOWN02"
definition Unknown03 :: "data \<Rightarrow> data res" where "Unknown03 = JVM_SimpleCmd SB_COMMAND_JVM_UNKNOWN03"
definition Unknown04 :: "data \<Rightarrow> data res" where "Unknown04 = JVM_SimpleCmd SB_COMMAND_JVM_UNKNOWN04"
definition Unknown05 :: "data \<Rightarrow> data res" where "Unknown05 = JVM_SimpleCmd SB_COMMAND_JVM_UNKNOWN05"
definition Unknown06 :: "data \<Rightarrow> data res" where "Unknown06 = ComplexCmd SB_COMMAND_JVM_UNKNOWN06 (le32 0)"
definition Unknown07 :: "data \<Rightarrow> data res" where "Unknown07 = ComplexCmd SB_COMMAND_JVM_UNKNOWN07 (le32 0)"
definition Unknown08 :: "data \<Rightarrow> data res" where "Unknown08 = ComplexCmd SB_COMMAND_JVM_UNKNOWN08 (le32 0)"
definition Unknown09 :: "data \<Rightarrow> data res" where
  "Unknown09 = ComplexCmd SB_COMMAND_JVM_UNKNOWN09 (le32 (bbswap_32 0x09))"
definition Unknown10 :: "data \<Rightarrow> data res" where
  "Unknown10 = ComplexCmd SB_COMMAND_JVM_UNKNOWN10 (le32 (bbswap_32 0x01))"
definition Unknown11 :: "u32 \<Rightarrow> data \<Rightarrow> data res" where
  "Unknown11 ident = ComplexCmd SB_COMMAND_JVM_UNKNOWN11 (le32 (bbswap_32 ident))"
definition Unknown12 :: "u32 \<Rightarrow> data \<Rightarrow> data res" where
  "Unknown12 ident = ComplexCmd SB_COMMAND_JVM_UNKNOWN12 (le32 (bbswap_32 ident))"
definition Unknown13 :: "u32 \<Rightarrow> data \<Rightarrow> data res" where
  "Unknown13 ident = ComplexCmd SB_COMMAND_JVM_UNKNOWN13 (le32 (bbswap_32 ident))"
definition Unknown14 :: "u32 \<Rightarrow> data \<Rightarrow> data res" where
  "Unknown14 ident = ComplexCmd SB_COMMAND_JVM_UNKNOWN14 (le32 (bbswap_32 ident))"
definition Unknown15 :: "u32 \<Rightarrow> data \<Rightarrow> data res" where
  "Unknown15 ident = ComplexCmd SB_COMMAND_JVM_UNKNOWN15 (le32 (bbswap_32 ident))"
definition GetModulesList :: "u32 \<Rightarrow> data \<Rightarrow> data res" where
  "GetModulesList ident = ComplexCmd SB_COMMAND_JVM_GET_MODULES_LIST (le32 (bbswap_32 ident))"
definition GetThreadsList :: "data \<Rightarrow> data res" where "GetThreadsList = JVM_SimpleCmd SB_COMMAND_JVM_GET_THREADS_LIST"
definition GetConsoleMessage :: "data \<Rightarrow> data res" where "GetConsoleMessage = JVM_SimpleCmd SB_COMMAND_JVM_GET_CONSOLE_MSG"
definition Go :: "data \<Rightarrow> data res" where "Go = JVM_SimpleCmd SB_COMMAND_JVM_GO"
definition JVM_Stop :: "data \<Rightarrow> data res" where
  "JVM_Stop d = fill d (4 + 2)
     [(off_size, le16 (4 + 2)), (SB_JVMPACKET_HEADER_SIZE, le16 (bbswap_16 SB_COMMAND_JVM_STOP))]"
definition GetStatus :: "data \<Rightarrow> data res" where "GetStatus = JVM_SimpleCmd SB_COMMAND_JVM_GET_STATUS"

section \<open>Properties\<close>

text \<open>The socket 0 builders succeed on any well-formed send buffer and leave in it, after
  the two socket bytes, exactly the bytes of the request: size, command, socket 0xff,
  sequence 0 and the arguments.\<close>

theorem ZeroPacket_builders:
  assumes "data_ok d"
  shows "(\<exists>d' s0 s1. GetAttribute d ob at = Inr d' \<and> data_ok d'
            \<and> contents d' = [s0, s1] @ le16 12 @ [5] @ le16 0xff @ [0] @ le16 (ucast ob) @ le16 (ucast at))
    \<and> (\<exists>d' s0 s1. Echo d us = Inr d' \<and> data_ok d'
            \<and> contents d' = [s0, s1] @ le16 16 @ [1] @ le16 0xff @ [0] @ le64 us)
    \<and> (\<exists>d' s0 s1. Reset d = Inr d' \<and> data_ok d'
            \<and> contents d' = [s0, s1] @ le16 8 @ [3] @ le16 0xff @ [0])"
proof (intro conjI)
  show "\<exists>d' s0 s1. GetAttribute d ob at = Inr d' \<and> data_ok d'
          \<and> contents d' = [s0, s1] @ le16 12 @ [5] @ le16 0xff @ [0] @ le16 (ucast ob) @ le16 (ucast at)"
    using fill_packet[OF assms refl refl, of "[le16 12, [5], le16 0xff, [0], le16 (ucast ob), le16 (ucast at)]"]
    by (simp add: GetAttribute_def Let_def layout_simps)
  show "\<exists>d' s0 s1. Echo d us = Inr d' \<and> data_ok d'
          \<and> contents d' = [s0, s1] @ le16 16 @ [1] @ le16 0xff @ [0] @ le64 us"
    using fill_packet[OF assms refl refl, of "[le16 16, [1], le16 0xff, [0], le64 us]"]
    by (simp add: Echo_def Let_def layout_simps)
  show "\<exists>d' s0 s1. Reset d = Inr d' \<and> data_ok d'
          \<and> contents d' = [s0, s1] @ le16 8 @ [3] @ le16 0xff @ [0]"
    using fill_packet[OF assms refl refl, of "[le16 8, [3], le16 0xff, [0]]"]
    by (simp add: Reset_def Let_def layout_simps)
qed

lemma ZeroPacket_builders_witness:
  "\<exists>d' s0 s1. GetAttribute Data_default 8 4 = Inr d' \<and> data_ok d'
     \<and> contents d' = [s0, s1] @ le16 12 @ [5] @ le16 0xff @ [0] @ le16 8 @ le16 4"
  using ZeroPacket_builders[of Data_default 8 4 0] by simp


lemma db_build_packet:
  assumes "GetDBCommand con DatabaseAccess = Inr cmd" "data_ok (m_send p)"
    and "ws (ucast cmd) = place 2 cs" "n = 2 + length (concat cs)"
  shows "\<exists>p' s0 s1. db_build con p n dbop ws = Inr p' \<and> data_ok (m_send p') \<and> m_last_dbop p' = dbop
    \<and> contents (m_send p') = [s0, s1] @ concat cs"
  using fill_packet[OF assms(2,3,4)] assms(1) by (auto simp: db_build_def)

definition db_request :: "db_packet \<Rightarrow> byte \<Rightarrow> byte \<Rightarrow> bytes \<Rightarrow> bool" where
  "db_request p tableCmd dbop args \<longleftrightarrow> data_ok (m_send p) \<and> m_last_dbop p = dbop
     \<and> drop 2 (contents (m_send p)) = le16 (word_of_nat (7 + length args)) @ [0x40, tableCmd, dbop] @ args
     \<and> length (contents (m_send p)) = 7 + length args"

lemma db_build_request:
  assumes "GetDBCommand con DatabaseAccess = Inr cmd" "data_ok (m_send p)"
    and "ws (ucast cmd) = place 2 ([le16 (word_of_nat (7 + length args)), [0x40], [ucast cmd], [dbop]] @ as)"
    and "args = concat as" "n = 7 + length args"
  shows "\<exists>p'. db_build con p n dbop ws = Inr p' \<and> db_request p' (ucast cmd) dbop args"
  using db_build_packet[where ws = ws, OF assms(1,2,3), of n dbop] assms(4,5) by (auto simp: db_request_def)

lemma DBPacket_requests_facts:
  assumes "GetDBCommand con DatabaseAccess = Inr cmd" and "data_ok (m_send p)"
  shows "(\<exists>p'. ClearDatabase con p db = Inr p' \<and> db_request p' (ucast cmd) 0x43 (le16 (ucast db)))
    \<and> (\<exists>p'. GetDBDB con p = Inr p' \<and> db_request p' (ucast cmd) 0x4c [])
    \<and> (\<exists>p'. GetRecordStateTable con p db = Inr p' \<and> db_request p' (ucast cmd) 0x53 (le16 (ucast db)))
    \<and> (\<exists>p'. SetRecordFlags con p db idx fl = Inr p'
          \<and> db_request p' (ucast cmd) 0x54 (le16 (ucast db) @ [fl] @ le16 (ucast idx) @ [0, 0, 0, 0, 0]))
    \<and> (\<exists>p'. DeleteRecordByIndex con p db idx = Inr p' \<and> db_request p' (ucast cmd) 0x52 (le16 (ucast db) @ le16 (ucast idx)))
    \<and> (\<exists>p'. GetRecordByIndex con p db idx = Inr p' \<and> db_request p' (ucast cmd) 0x46 (le16 (ucast db) @ le16 (ucast idx)))
    \<and> (\<exists>p'. GetRecords con p db = Inr p' \<and> db_request p' (ucast cmd) 0x42 (le16 (ucast db)))"
proof (intro conjI)
  note req = db_build_request[OF assms]
  show "\<exists>p'. ClearDatabase con p db = Inr p' \<and> db_request p' (ucast cmd) 0x43 (le16 (ucast db))"
    unfolding ClearDatabase_def layout_simps by (rule req[of _ _ _ "[le16 (ucast db)]"]) simp_all
  show "\<exists>p'. GetDBDB con p = Inr p' \<and> db_request p' (ucast cmd) 0x4c []"
    unfolding GetDBDB_def layout_simps by (rule req[of _ _ _ "[]"]) simp_all
  show "\<exists>p'. GetRecordStateTable con p db = Inr p' \<and> db_request p' (ucast cmd) 0x53 (le16 (ucast db))"
    unfolding GetRecordStateTable_def layout_simps by (rule req[of _ _ _ "[le16 (ucast db)]"]) simp_all
  show "\<exists>p'. SetRecordFlags con p db idx fl = Inr p'
          \<and> db_request p' (ucast cmd) 0x54 (le16 (ucast db) @ [fl] @ le16 (ucast idx) @ [0, 0, 0, 0, 0])"
    unfolding SetRecordFlags_def layout_simps Let_def
    by (rule req[of _ _ _ "[le16 (ucast db), [fl], le16 (ucast idx), [0, 0, 0, 0, 0]]"]) (simp_all add: numeral_eq_Suc)
  show "\<exists>p'. DeleteRecordByIndex con p db idx = Inr p' \<and> db_request p' (ucast cmd) 0x52 (le16 (ucast db) @ le16 (ucast idx))"
    unfolding DeleteRecordByIndex_def layout_simps Let_def
    by (rule req[of _ _ _ "[le16 (ucast db), le16 (ucast idx)]"]) simp_all
  show "\<exists>p'. GetRecordByIndex con p db idx = Inr p' \<and> db_request p' (ucast cmd) 0x46 (le16 (ucast db) @ le16 (ucast idx))"
    unfolding GetRecordByIndex_def layout_simps
    by (rule req[of _ _ _ "[le16 (ucast db), le16 (ucast idx)]"]) simp_all
  show "\<exists>p'. GetRecords con p db = Inr p' \<and> db_request p' (ucast cmd) 0x42 (le16 (ucast db))"
    unfolding GetRecords_def layout_simps by (rule req[of _ _ _ "[le16 (ucast db)]"]) simp_all
qed

text \<open>Once the command table knows database access, every fixed-size database command is
  built into exactly its bytes (size, 0x40, table command, operation, database id and
  arguments, integers little endian and truncated to 16 bit), and the packet remembers the
  operation for parsing the response.\<close>

theorem DBPacket_requests:
  assumes "GetDBCommand con DatabaseAccess = Inr cmd" and "data_ok (m_send p)"
  shows "(\<exists>p'. ClearDatabase con p db = Inr p' \<and> db_request p' (ucast cmd) 0x43 (le16 (ucast db)))
    \<and> (\<exists>p'. GetDBDB con p = Inr p' \<and> db_request p' (ucast cmd) 0x4c [])
    \<and> (\<exists>p'. GetRecordStateTable con p db = Inr p' \<and> db_request p' (ucast cmd) 0x53 (le16 (ucast db)))
    \<and> (\<exists>p'. SetRecordFlags con p db idx fl = Inr p'
          \<and> db_request p' (ucast cmd) 0x54 (le16 (ucast db) @ [fl] @ le16 (ucast idx) @ [0, 0, 0, 0, 0]))
    \<and> (\<exists>p'. DeleteRecordByIndex con p db idx = Inr p' \<and> db_request p' (ucast cmd) 0x52 (le16 (ucast db) @ le16 (ucast idx)))
    \<and> (\<exists>p'. GetRecordByIndex con p db idx = Inr p' \<and> db_request p' (ucast cmd) 0x46 (le16 (ucast db) @ le16 (ucast idx)))
    \<and> (\<exists>p'. GetRecords con p db = Inr p' \<and> db_request p' (ucast cmd) 0x42 (le16 (ucast db)))"
  by (rule DBPacket_requests_facts[OF assms])

lemma DBPacket_requests_witness:
  "\<exists>p'. ClearDatabase sample_commands (DBPacket_new Data_default) 5 = Inr p' \<and> db_request p' 0x62 0x43 [5, 0]"
proof -
  have "GetDBCommand sample_commands DatabaseAccess = Inr 0x62"
    by (simp add: GetDBCommand_def sample_commands_def lit_def)
  then show ?thesis
    using DBPacket_requests[where con = sample_commands and cmd = "0x62" and p = "DBPacket_new Data_default" and db = "5"]
    by (simp add: DBPacket_new_def le16_def)
qed


lemma build_header:
  assumes "data_ok d" "GetDBCommand con DatabaseAccess = Inr cmd"
    and "ws (ucast cmd) = place 2 cs" "2 + length (concat cs) \<le> dsize d"
  shows "\<exists>p' s0 s1. db_build con (p\<lparr>m_send := d\<rparr>) (dsize d) dbop ws = Inr p' \<and> data_ok (m_send p')
    \<and> m_last_dbop p' = dbop
    \<and> contents (m_send p') = [s0, s1] @ concat cs @ drop (2 + length (concat cs)) (contents d)"
proof -
  let ?n = "dsize d"
  obtain d' old where f: "fill d ?n (place 2 cs) = Inr d'" "data_ok d'" "length old = ?n"
      "contents d' = poke_all (place 2 cs) old" "take ?n old = take ?n (contents d)"
    using fill_spec[OF assms(1), of ?n "place 2 cs"] place_bounds[of _ 2 cs] assms(4) le_trans by fastforce
  have old: "old = contents d" using f(3,5) assms(1) by simp
  obtain s0 s1 where "take 2 old = [s0, s1]"
    using f(3) assms(4) by (cases old; cases "tl old") auto
  then have "contents d' = [s0, s1] @ concat cs @ drop (2 + length (concat cs)) (contents d)"
    using f assms(4) by (simp add: poke_all_place old)
  then show ?thesis using f assms(2,3) by (auto simp: db_build_def)
qed

lemma AddRecord_payload:
  assumes "GetDBCommand con DatabaseAccess = Inr cmd"
    and "build (DBData_data [] (m_send p) False) 15 = Inr (True, s, b)" and "data_ok (m_data s)" and "15 \<le> dsize (m_data s)"
  shows "\<exists>p' s0 s1. AddRecord con p db build = Inr (True, p', b) \<and> data_ok (m_send p') \<and> m_last_dbop p' = 0x41
     \<and> contents (m_send p') = [s0, s1] @ (le16 (word_of_nat (dsize (m_data s))) @ [0x40, ucast cmd, 0x41]
         @ le16 (ucast db) @ [m_recType s] @ le32 (m_uniqueId s) @ [1]) @ drop 15 (contents (m_data s))"
  using assms(2,4) build_header[OF assms(3,1), where dbop = "0x41" and p = p
      and cs = "[le16 (word_of_nat (dsize (m_data s))), [0x40], [ucast cmd], [0x41], le16 (ucast db),
        [m_recType s], le32 (m_uniqueId s), [1]]"
      and ws = "\<lambda>tableCmd. [(2, le16 (word_of_nat (dsize (m_data s)))), (4, [0x40]), (5, [tableCmd]), (6, [0x41]),
        (7, le16 (ucast db)), (9, [m_recType s]), (10, le32 (m_uniqueId s)), (14, [1])]"]
  by (auto simp: AddRecord_def Let_def layout_simps)

lemma SetRecordByIndex_payload:
  assumes "GetDBCommand con DatabaseAccess = Inr cmd"
    and "build (DBData_data [] (m_send p) False) 12 = Inr (True, s, b)" and "data_ok (m_data s)" and "12 \<le> dsize (m_data s)"
  shows "\<exists>p' s0 s1. SetRecordByIndex con p db idx build = Inr (True, p', b) \<and> data_ok (m_send p') \<and> m_last_dbop p' = 0x55
     \<and> contents (m_send p') = [s0, s1] @ (le16 (word_of_nat (dsize (m_data s))) @ [0x40, ucast cmd, 0x55]
         @ le16 (ucast db) @ [0] @ le16 (ucast idx)) @ drop 12 (contents (m_data s))"
  using assms(2,4) build_header[OF assms(3,1), where dbop = "0x55" and p = p
      and cs = "[le16 (word_of_nat (dsize (m_data s))), [0x40], [ucast cmd], [0x55], le16 (ucast db), [0], le16 (ucast idx)]"
      and ws = "\<lambda>tableCmd. [(2, le16 (word_of_nat (dsize (m_data s)))), (4, [0x40]), (5, [tableCmd]), (6, [0x55]),
        (7, le16 (ucast db)), (9, [0]), (10, le16 (ucast idx))]"]
  by (auto simp: SetRecordByIndex_def Let_def layout_simps)

text \<open>AddRecord keeps the payload the builder produced and overwrites exactly the
  reserved header in front of it with size, command, table command, operation, database,
  record type, unique id and the constant 1; SetRecordByIndex does the same with its own
  header. Both need the builder to leave a packet at least as long as the header.\<close>

theorem record_uploads:
  assumes "GetDBCommand con DatabaseAccess = Inr cmd"
    and "build (DBData_data [] (m_send p) False) 15 = Inr (True, s, b)" and "data_ok (m_data s)" and "15 \<le> dsize (m_data s)"
    and "build (DBData_data [] (m_send p) False) 12 = Inr (True, s', b')" and "data_ok (m_data s')" and "12 \<le> dsize (m_data s')"
  shows "(\<exists>p' s0 s1. AddRecord con p db build = Inr (True, p', b) \<and> m_last_dbop p' = 0x41
           \<and> contents (m_send p') = [s0, s1] @ (le16 (word_of_nat (dsize (m_data s))) @ [0x40, ucast cmd, 0x41]
               @ le16 (ucast db) @ [m_recType s] @ le32 (m_uniqueId s) @ [1]) @ drop 15 (contents (m_data s)))
    \<and> (\<exists>p' s0 s1. SetRecordByIndex con p db idx build = Inr (True, p', b') \<and> m_last_dbop p' = 0x55
           \<and> contents (m_send p') = [s0, s1] @ (le16 (word_of_nat (dsize (m_data s'))) @ [0x40, ucast cmd, 0x55]
               @ le16 (ucast db) @ [0] @ le16 (ucast idx)) @ drop 12 (contents (m_data s')))"
  using AddRecord_payload[where con = con and cmd = cmd and build = build and p = p and s = s and db = db and b = b]
    SetRecordByIndex_payload[where con = con and cmd = cmd and build = build and p = p and s = s' and db = db and idx = idx and b = b']
    assms by blast

text \<open>A builder that appends three bytes of payload behind the reserved header.\<close>

definition sample_builder :: "unit builder" where
  "sample_builder d offset = Inr (True, d\<lparr>m_recType := 7, m_uniqueId := 9,
     m_data := Data_external (replicate offset 0 @ [1, 2, 3]) (offset + 3)\<rparr>, ())"

lemma record_uploads_witness:
  "\<exists>p' s0 s1. AddRecord sample_commands (DBPacket_new Data_default) 5 sample_builder = Inr (True, p', ())
     \<and> contents (m_send p') = [s0, s1] @ [18, 0, 0x40, 0x62, 0x41, 5, 0, 7, 9, 0, 0, 0, 1] @ [1, 2, 3]"
proof -
  let ?b = "DBData_data [] (m_send (DBPacket_new Data_default)) False"
  have "GetDBCommand sample_commands DatabaseAccess = Inr 0x62"
    by (simp add: GetDBCommand_def sample_commands_def lit_def)
  then show ?thesis
    using record_uploads[where con = sample_commands and cmd = "0x62" and p = "DBPacket_new Data_default"
        and build = sample_builder and db = "5"
        and s = "?b\<lparr>m_recType := 7, m_uniqueId := 9, m_data := Data_external (replicate 15 0 @ [1, 2, 3]) 18\<rparr>"
        and s' = "?b\<lparr>m_recType := 7, m_uniqueId := 9, m_data := Data_external (replicate 12 0 @ [1, 2, 3]) 15\<rparr>"]
    by (simp add: sample_builder_def data_external_ok contents_external)
       (simp add: le16_def le32_def Data_external_def, blast)
qed

text \<open>JLPacket::SimpleData computes the packet size in 16 bits. Up to 65531 bytes the
  data packet is exactly socket, size, data; for the last four sizes a uint16_t can hold,
  the size wraps to 0..3, only that much room is asked for, and if the buffer has no more
  than that the copy runs past its end.\<close>

theorem SimpleData_sizes:
  assumes "data_ok (jl_data p)" and "length src < 65536"
  shows "(length src < 65532 \<longrightarrow> (\<exists>p' s0 s1. SimpleData src p = Inr p' \<and> m_last_set_size p' = 2
            \<and> contents (jl_data p') = [s0, s1] @ le16 (word_of_nat (4 + length src)) @ src))
    \<and> (65532 \<le> length src \<longrightarrow> (\<forall>d1. GetBuffer (jl_data p) (length src - 65532) = Inr d1 \<longrightarrow>
          GetBufSize d1 < 4 + length src \<longrightarrow>
          SimpleData src p = Inl (UB ''write past the end of the buffer'')))"
proof (intro conjI impI allI)
  assume "length src < 65532"
  then have n: "unat (word_of_nat (length src) + 4 :: u16) = 4 + length src"
    using unat_ucast_u16[of "4 + length src"] by (simp add: add.commute)
  show "\<exists>p' s0 s1. SimpleData src p = Inr p' \<and> m_last_set_size p' = 2
            \<and> contents (jl_data p') = [s0, s1] @ le16 (word_of_nat (4 + length src)) @ src"
    using fill_packet[OF assms(1), of "[(2, le16 (word_of_nat (length src) + 4)), (4, src)]"
        "[le16 (word_of_nat (length src) + 4), src]" "4 + length src"]
    unfolding SimpleData_def Let_def n by (auto simp: layout_simps add.commute[of 4])
next
  fix d1
  assume len: "65532 \<le> length src" and g: "GetBuffer (jl_data p) (length src - 65532) = Inr d1"
    and small: "GetBufSize d1 < 4 + length src"
  obtain k where k: "length src = 65532 + k" using len le_Suc_ex by blast
  define t where "t = (word_of_nat (length src) + 4 :: u16)"
  have "t = word_of_nat k" by (simp add: k t_def)
  moreover have "unat (word_of_nat k :: u16) = k" using assms(2) k by simp
  ultimately have n: "unat t = k" by simp
  have "GetBufSize d1 = length (mem d1) - dstart d1"
    using GetBuffer_eqs(3)[OF g assms(1)] by (simp add: GetBufSize_def)
  then have nofit: "\<not> dstart d1 + 4 + length src \<le> length (mem d1)" using small by simp
  have g': "GetBuffer (jl_data p) k = Inr d1" using g k by simp
  show "SimpleData src p = Inl (UB ''write past the end of the buffer'')"
    unfolding SimpleData_def Let_def t_def[symmetric] n fill_def using nofit
    by (simp add: g' write_at_def layout_simps)
qed

definition sample_jl :: jl_packet where
  "sample_jl = \<lparr>m_cmd = Data_default, jl_data = Data_default, m_last_set_size = 0\<rparr>"

lemma SimpleData_sizes_witness:
  "(\<exists>p' s0 s1. SimpleData [1, 2, 3] sample_jl = Inr p' \<and> contents (jl_data p') = [s0, s1] @ [7, 0] @ [1, 2, 3])
   \<and> SimpleData (replicate 65535 0) sample_jl = Inl (UB ''write past the end of the buffer'')"
proof -
  have ok: "data_ok (jl_data sample_jl)" by (simp add: sample_jl_def)
  have g: "GetBuffer (jl_data sample_jl) (length (replicate 65535 (0 :: byte)) - 65532) = Inr Data_default"
    by (simp add: GetBuffer_def MakeSpace_def sample_jl_def Data_default_def Data_new_def Let_def
      AvailablePrependSpace_def GetBufSize_def BARRY_DATA_DEFAULT_SIZE_def BARRY_DATA_DEFAULT_PREPEND_SIZE_def)
  have "GetBufSize Data_default < 4 + length (replicate 65535 (0 :: byte))"
    by (simp add: Data_default_def Data_new_def GetBufSize_def BARRY_DATA_DEFAULT_SIZE_def
      BARRY_DATA_DEFAULT_PREPEND_SIZE_def)
  then have "SimpleData (replicate 65535 0) sample_jl = Inl (UB ''write past the end of the buffer'')"
    using SimpleData_sizes[OF ok, of "replicate 65535 0"] g by simp
  moreover have "\<exists>p' s0 s1. SimpleData [1, 2, 3] sample_jl = Inr p'
      \<and> contents (jl_data p') = [s0, s1] @ [7, 0] @ [1, 2, 3]"
    using SimpleData_sizes[OF ok, of "[1, 2, 3]"] by (auto simp: le16_def)
  ultimately show ?thesis by blast
qed

text \<open>ParseMeta and Parse understand exactly the responses to "get records" and "get
  record by index": for a response with a consistent size they take record type and unique
  id from its header and set the offset to where the fields start; a short or inconsistent
  response throws, and after any other command the data is not touched.\<close>

theorem ParseMeta_response:
  "ParseMeta p d =
    (if m_last_dbop p = 0x42 \<or> m_last_dbop p = 0x46
     then (case CheckSize (contents (m_data d)) 15 of
             Inl e \<Rightarrow> Inl e
           | Inr _ \<Rightarrow> Inr (True, d\<lparr>m_version := REC_VERSION_1, m_recType := byte_at (contents (m_data d)) 7,
                m_uniqueId := get32 (contents (m_data d)) 10, m_offset := 15\<rparr>))
     else Inr (False, d))"
proof (cases "CheckSize (contents (m_data d)) 15")
  case (Inl e)
  then show ?thesis by (simp add: ParseMeta_def Let_def layout_simps SetVersion_def)
next
  case (Inr u)
  then have "15 \<le> length (contents (m_data d))" by (rule CheckSize_Inr_length)
  then show ?thesis using Inr
    by (simp add: ParseMeta_def Let_def layout_simps SetVersion_def SetOffset_def SetIds_def rd8_def rd32_def)
qed

text \<open>ObjectID and AttributeID check only for the eight header bytes, so on a reply that
  consists of the header alone, which passes the check, they read behind the data; every
  other accessor of ZeroPacket and the response accessors of DBPacket never read outside
  the packet, whatever it holds.\<close>

theorem accessor_reads:
  "(ObjectID r = Inl (UB e) \<longleftrightarrow> CheckSize r 8 = Inr () \<and> length r < 10 \<and> e = ''read past the end of the data'')
   \<and> (AttributeID r = Inl (UB e) \<longleftrightarrow> CheckSize r 8 = Inr () \<and> length r < 12 \<and> e = ''read past the end of the data'')
   \<and> ChallengeSeed r \<noteq> Inl (UB e) \<and> RemainingTries r \<noteq> Inl (UB e) \<and> SocketResponse r \<noteq> Inl (UB e)
   \<and> SocketSequence r \<noteq> Inl (UB e) \<and> CommandResponse r \<noteq> Inl (UB e) \<and> ReturnCode r \<noteq> Inl (UB e)
   \<and> DBOperation r \<noteq> Inl (UB e)"
  by (auto simp: ObjectID_def AttributeID_def ChallengeSeed_def RemainingTries_def SocketResponse_def
      SocketSequence_def CommandResponse_def ReturnCode_def DBOperation_def Packet_Command_def rbind_eq_Inl
      rd8_def rd16_def rd32_def layout_simps CheckSize_def split: if_splits)

end
