(* ===== verification/Data_Queue.thy ===== *)
theory Data_Queue imports Barry_Prelude begin

text \<open>
  DataQueue (src/src/dataqueue.cc): a thread-aware FIFO of Data pointers. Every method but
  wait_pop runs under the access mutex from start to end and is a function on the list.
  wait_pop gives the mutex up between looking and waiting, so it is also modelled as a
  state machine in which other threads push, broadcast and pop between its steps.
\<close>

section \<open>The operations under the access mutex\<close>

definition raw_push :: "'a list \<Rightarrow> 'a \<Rightarrow> 'a list" where
  "raw_push q x = q @ [x]"

definition raw_pop :: "'a list \<Rightarrow> 'a option \<times> 'a list" where
  "raw_pop q = (if length q = 0 then (None, q) else (Some (hd q), tl q))"

definition dq_push :: "'a list \<Rightarrow> 'a \<Rightarrow> 'a list" where
  "dq_push q x = raw_push q x"

definition dq_pop :: "'a list \<Rightarrow> 'a option \<times> 'a list" where
  "dq_pop q = raw_pop q"

text \<open>append_from moves one element at a time and pops it from the other queue last.\<close>

function append_from :: "'a list \<Rightarrow> 'a list \<Rightarrow> 'a list \<times> 'a list" where
  "append_from us them =
     (if length them \<noteq> 0
      then append_from (raw_push us (hd them)) (snd (raw_pop them))
      else (us, them))"
  by pat_completeness auto
termination
  by (relation "measure (\<lambda>(us, them). length them)") (auto simp: raw_pop_def)

declare append_from.simps [simp del]

definition dq_empty :: "'a list \<Rightarrow> bool" where
  "dq_empty q \<longleftrightarrow> length q = 0"

definition dq_size :: "'a list \<Rightarrow> nat" where
  "dq_size q = length q"

lemma raw_pop_simps [simp]: "raw_pop [] = (None, [])" "raw_pop (x # q) = (Some x, q)"
  by (simp_all add: raw_pop_def)

lemma append_from_eq [simp]: "append_from us them = (us @ them, [])"
proof (induction them arbitrary: us)
  case Nil
  show ?case by (simp add: append_from.simps)
next
  case (Cons x them)
  then show ?case by (subst append_from.simps) (simp add: raw_push_def)
qed

section \<open>The interface of a FIFO\<close>

locale fifo =
  fixes items :: "'q \<Rightarrow> 'a list" and push :: "'q \<Rightarrow> 'a \<Rightarrow> 'q"
    and pop :: "'q \<Rightarrow> 'a option \<times> 'q" and append :: "'q \<Rightarrow> 'q \<Rightarrow> 'q \<times> 'q"
  assumes items_push: "items (push q x) = items q @ [x]"
    and pop_none: "items q = [] \<Longrightarrow> fst (pop q) = None \<and> items (snd (pop q)) = []"
    and pop_some: "items q = x # xs \<Longrightarrow> fst (pop q) = Some x \<and> items (snd (pop q)) = xs"
    and items_append: "items (fst (append p q)) = items p @ items q" "items (snd (append p q)) = []"
begin

lemma items_push_all: "items (fold (\<lambda>x q. push q x) xs q) = items q @ xs"
  by (induction xs arbitrary: q) (simp_all add: items_push)

primrec pops :: "nat \<Rightarrow> 'q \<Rightarrow> 'a option list \<times> 'q" where
  "pops 0 q = ([], q)"
| "pops (Suc n) q = (let (x, q1) = pop q; (xs, q2) = pops n q1 in (x # xs, q2))"

text \<open>What comes out is what went in, in order, and nothing is lost on the way.\<close>

lemma pops_items:
  "n \<le> length (items q) \<Longrightarrow> fst (pops n q) = map Some (take n (items q)) \<and> items (snd (pops n q)) = drop n (items q)"
proof (induction n arbitrary: q)
  case (Suc n)
  then obtain x xs where i: "items q = x # xs" by (cases "items q") auto
  note p = pop_some[OF i]
  show ?case using Suc.IH[of "snd (pop q)"] Suc.prems p i by (simp add: Let_def case_prod_unfold)
qed simp

lemma pop_push_empty: "items q = [] \<Longrightarrow> fst (pop (push q x)) = Some x"
  using pop_some[of "push q x" x "[]"] by (simp add: items_push)

end

interpretation data_queue: fifo "\<lambda>q. q" raw_push raw_pop append_from
  by unfold_locales (auto simp: raw_push_def)

primrec pop_n :: "nat \<Rightarrow> 'a list \<Rightarrow> 'a option list \<times> 'a list" where
  "pop_n 0 q = ([], q)"
| "pop_n (Suc n) q = (let (x, q1) = raw_pop q; (xs, q2) = pop_n n q1 in (x # xs, q2))"

lemma pop_n_eq: "pop_n n q = data_queue.pops n q"
  by (induction n arbitrary: q) (simp_all add: Let_def case_prod_unfold data_queue.pops.simps)

text \<open>Whatever is pushed and appended comes out of a queue in order: after appending
  another queue to one and pushing more elements, popping yields the elements of the one,
  then those of the other, then the pushed ones, and the other queue is empty.\<close>

theorem queue_fifo:
  "fst (pop_n (length p + length q + length xs) (fold (\<lambda>x q. dq_push q x) xs (fst (append_from p q))))
     = map Some (p @ q @ xs)
   \<and> snd (append_from p q) = []"
proof -
  have "fold (\<lambda>x q. dq_push q x) xs (fst (append_from p q)) = p @ q @ xs"
    using data_queue.items_push_all[of xs "fst (append_from p q)"] by (simp add: dq_push_def)
  then show ?thesis using data_queue.pops_items[of "length (p @ q @ xs)" "p @ q @ xs"]
    by (simp add: pop_n_eq add.assoc)
qed

section \<open>wait_pop among other threads\<close>

text \<open>
  Where a call of wait_pop stands: before the first look, about to take the wait mutex,
  waiting on the condition, woken up, and returned.
\<close>

datatype 'a popper = Look | ToWait | Waiting | Woken | Returned "'a option"

text \<open>
  A queue with any number of threads: \<open>pc i\<close> is where the \<open>i\<close>th call of wait_pop stands,
  \<open>pending\<close> counts the pushes that have added their element under the access mutex and not
  yet taken the wait mutex to broadcast. \<open>popped\<close> is history: the elements taken out, in
  order, each with the call of wait_pop that took it (None for pop and append_from).
\<close>

record 'a waitq =
  queue :: "'a list"
  pc :: "nat \<Rightarrow> 'a popper"
  pending :: nat
  popped :: "(nat option \<times> 'a) list"

definition waitq_init :: "'a list \<Rightarrow> 'a waitq" where
  "waitq_init q = \<lparr>queue = q, pc = \<lambda>_. Look, pending = 0, popped = []\<rparr>"

definition take_front :: "nat option \<Rightarrow> 'a waitq \<Rightarrow> 'a waitq" where
  "take_front who s = (case raw_pop (queue s) of
     (None, q) \<Rightarrow> s | (Some x, q) \<Rightarrow> s\<lparr>queue := q, popped := popped s @ [(who, x)]\<rparr>)"

definition go :: "nat \<Rightarrow> 'a popper \<Rightarrow> 'a waitq \<Rightarrow> 'a waitq" where
  "go i p s = s\<lparr>pc := (pc s)(i := p)\<rparr>"

text \<open>
  What can happen to the queue: the two halves of a push, a pop, append_from with the queue
  on either side, a step of the \<open>i\<close>th call of wait_pop, and its wait ending without a
  broadcast, by its timeout or by a spurious wake-up, which pthread_cond_wait allows.
\<close>

datatype 'a queue_event = QPush 'a | QBroadcast | QPop | QAppend "'a list" | QDrain | QRun nat | QWake nat

text \<open>\<open>forever i\<close> says that the \<open>i\<close>th call is wait_pop(-1).\<close>

inductive wait_step :: "(nat \<Rightarrow> bool) \<Rightarrow> 'a queue_event \<Rightarrow> 'a waitq \<Rightarrow> 'a waitq \<Rightarrow> bool" for forever where
  push_adds: "wait_step forever (QPush x) s (s\<lparr>queue := raw_push (queue s) x, pending := Suc (pending s)\<rparr>)"
| push_wakes: "pending s = Suc n \<Longrightarrow>
    wait_step forever QBroadcast s (s\<lparr>pending := n, pc := \<lambda>i. if pc s i = Waiting then Woken else pc s i\<rparr>)"
| pop_takes: "wait_step forever QPop s (take_front None s)"
| append_adds: "wait_step forever (QAppend xs) s (s\<lparr>queue := fst (append_from (queue s) xs)\<rparr>)"
| append_drains: "wait_step forever QDrain s
    (s\<lparr>queue := snd (append_from us (queue s)), popped := popped s @ map (Pair None) (queue s)\<rparr>)"
| look_found: "pc s i = Look \<Longrightarrow> queue s \<noteq> [] \<Longrightarrow>
    wait_step forever (QRun i) s (go i (Returned (fst (raw_pop (queue s)))) (take_front (Some i) s))"
| look_empty: "pc s i = Look \<Longrightarrow> queue s = [] \<Longrightarrow> wait_step forever (QRun i) s (go i ToWait s)"
| start_wait: "pc s i = ToWait \<Longrightarrow> wait_step forever (QRun i) s (go i Waiting s)"
| wake: "pc s i = Waiting \<Longrightarrow> wait_step forever (QWake i) s (go i Woken s)"
| woken_retry: "pc s i = Woken \<Longrightarrow> forever i \<Longrightarrow> queue s = [] \<Longrightarrow> wait_step forever (QRun i) s (go i ToWait s)"
| woken_return: "pc s i = Woken \<Longrightarrow> \<not> (forever i \<and> queue s = []) \<Longrightarrow>
    wait_step forever (QRun i) s (go i (Returned (fst (raw_pop (queue s)))) (take_front (Some i) s))"

inductive wait_run :: "(nat \<Rightarrow> bool) \<Rightarrow> 'a queue_event list \<Rightarrow> 'a waitq \<Rightarrow> 'a waitq \<Rightarrow> bool" for forever where
  run_nil: "wait_run forever [] s s"
| run_cons: "wait_step forever e s t \<Longrightarrow> wait_run forever es t u \<Longrightarrow> wait_run forever (e # es) s u"

inductive_simps wait_step_simps:
  "wait_step forever (QPush x) s t" "wait_step forever QBroadcast s t" "wait_step forever QPop s t"
  "wait_step forever (QAppend xs) s t" "wait_step forever QDrain s t" "wait_step forever (QRun i) s t"
  "wait_step forever (QWake i) s t"

inductive_simps wait_run_simps: "wait_run forever [] s u" "wait_run forever (e # es) s u"

lemma take_front_simps [simp]:
  "queue s = [] \<Longrightarrow> take_front who s = s"
  "queue s = x # q \<Longrightarrow> take_front who s = s\<lparr>queue := q, popped := popped s @ [(who, x)]\<rparr>"
  by (simp_all add: take_front_def)

lemma go_simps [simp]: "queue (go i p s) = queue s" "popped (go i p s) = popped s" "pending (go i p s) = pending s"
  "pc (go i p s) = (pc s)(i := p)"
  by (simp_all add: go_def)

lemma pc_take_front [simp]: "pc (take_front who s) = pc s" "pending (take_front who s) = pending s"
  by (cases "queue s"; simp)+

text \<open>The elements an event puts into the queue, those a call has taken out of it, and those
  it has returned.\<close>

fun put_in :: "'a queue_event \<Rightarrow> 'a list" where
  "put_in (QPush x) = [x]"
| "put_in (QAppend xs) = xs"
| "put_in _ = []"

definition taken_by :: "nat \<Rightarrow> 'a waitq \<Rightarrow> 'a list" where
  "taken_by i s = map snd (filter (\<lambda>(who, x). who = Some i) (popped s))"

definition returned_by :: "nat \<Rightarrow> 'a waitq \<Rightarrow> 'a list" where
  "returned_by i s = (case pc s i of Returned (Some x) \<Rightarrow> [x] | _ \<Rightarrow> [])"

definition waitq_inv :: "(nat \<Rightarrow> bool) \<Rightarrow> 'a waitq \<Rightarrow> bool" where
  "waitq_inv forever s \<longleftrightarrow> (\<forall>i. taken_by i s = returned_by i s \<and> (forever i \<longrightarrow> pc s i \<noteq> Returned None))"

lemma taken_by_take_front:
  "taken_by i (take_front who s) = taken_by i s @ (if who = Some i then take 1 (queue s) else [])"
  by (cases "queue s") (simp_all add: taken_by_def)

lemma taken_by_go [simp]: "taken_by i (go j p s) = taken_by i s"
  by (simp add: taken_by_def)

lemma returned_by_go: "returned_by i (go j p s) = (if i = j then (case p of Returned (Some x) \<Rightarrow> [x] | _ \<Rightarrow> []) else returned_by i s)"
  by (simp add: returned_by_def)

lemma returned_by_take_front [simp]: "returned_by i (take_front who s) = returned_by i s"
  by (simp add: returned_by_def)

lemmas waitq_simps = waitq_inv_def taken_by_take_front returned_by_go raw_pop_def

lemma go_keeps_inv:
  assumes "waitq_inv forever s" "returned_by i s = []" "\<And>x. p \<noteq> Returned x"
  shows "waitq_inv forever (go i p s)"
  using assms by (auto simp: waitq_simps split: popper.splits)

text \<open>A call that ends takes the front of the queue, and returns it.\<close>

lemma return_keeps_inv:
  assumes "waitq_inv forever s" "returned_by i s = []" "forever i \<longrightarrow> queue s \<noteq> []"
  shows "waitq_inv forever (go i (Returned (fst (raw_pop (queue s)))) (take_front (Some i) s))"
  using assms by (cases "queue s") (auto simp: waitq_simps simp del: take_front_simps)

lemma waitq_inv_step:
  assumes "wait_step forever e s t" "waitq_inv forever s" shows "waitq_inv forever t"
  using assms
proof (induction rule: wait_step.induct)
  case (push_wakes s n)
  then show ?case by (auto simp: waitq_inv_def taken_by_def returned_by_def)
next
  case (append_drains s us)
  then show ?case by (auto simp: waitq_inv_def taken_by_def returned_by_def)
next
  case (look_found s i)
  then show ?case by (intro return_keeps_inv) (auto simp: returned_by_def)
next
  case (woken_return s i)
  then show ?case by (intro return_keeps_inv) (auto simp: returned_by_def)
next
  case (pop_takes s)
  then show ?case by (simp add: waitq_simps)
qed (auto intro!: go_keeps_inv simp: returned_by_def waitq_inv_def taken_by_def)

lemma queue_step:
  assumes "wait_step forever e s t"
  shows "map snd (popped t) @ queue t = map snd (popped s) @ queue s @ put_in e"
  using assms
proof (induction rule: wait_step.induct)
  case (pop_takes s)
  show ?case by (cases "queue s") simp_all
next
  case (look_found s i)
  then show ?case by (cases "queue s") simp_all
next
  case (woken_return s i)
  then show ?case by (cases "queue s") simp_all
qed (simp_all add: raw_push_def comp_def)

lemma wait_run_facts:
  assumes "wait_run forever es s t"
  shows "map snd (popped t) @ queue t = map snd (popped s) @ queue s @ concat (map put_in es)"
    "waitq_inv forever s \<Longrightarrow> waitq_inv forever t"
  using assms by (induction rule: wait_run.induct) (simp_all add: queue_step waitq_inv_step)

text \<open>C39: Under every interleaving of any number of calls of wait_pop with pushes, pops and
  appends of other threads, and with spurious wake-ups and timeouts, nothing is lost,
  duplicated or reordered: what was taken out, followed by what is still queued, is what was
  put in. What a call of wait_pop has returned is exactly what it has taken out: one element
  when it returned one, and nothing otherwise, so no element goes to two readers. Without a
  timeout it never returns empty-handed.\<close>

theorem wait_pop_safe:
  assumes "wait_run forever es (waitq_init q) s"
  shows "q @ concat (map put_in es) = map snd (popped s) @ queue s
    \<and> (\<forall>i. taken_by i s = (case pc s i of Returned (Some x) \<Rightarrow> [x] | _ \<Rightarrow> []))
    \<and> (\<forall>i. forever i \<longrightarrow> pc s i \<noteq> Returned None)"
proof -
  have "waitq_inv forever (waitq_init q)"
    by (simp add: waitq_inv_def waitq_init_def taken_by_def returned_by_def)
  then show ?thesis using wait_run_facts[OF assms]
    by (simp add: waitq_inv_def returned_by_def waitq_init_def)
qed

text \<open>Two readers wait, one element is pushed and both wake up: one gets it, the other one
  goes back to wait.\<close>

definition two_readers :: "nat queue_event list" where
  "two_readers = [QRun 0, QRun 1, QRun 1, QRun 0, QPush 7, QBroadcast, QRun 1, QRun 0]"

lemma wait_pop_safe_witness:
  "\<exists>s. wait_run (\<lambda>_. True) two_readers (waitq_init []) s \<and> pc s 0 = ToWait \<and> pc s 1 = Returned (Some 7)
    \<and> taken_by 0 s = [] \<and> taken_by 1 s = [7] \<and> concat (map put_in two_readers) = map snd (popped s) @ queue s"
proof -
  have "\<exists>s. wait_run (\<lambda>_. True) two_readers (waitq_init []) s \<and> pc s 0 = ToWait \<and> pc s 1 = Returned (Some 7)"
    by (simp add: two_readers_def waitq_init_def wait_run_simps wait_step_simps raw_push_def)
  then obtain s where s: "wait_run (\<lambda>_. True) two_readers (waitq_init []) s" "pc s 0 = ToWait" "pc s 1 = Returned (Some 7)"
    by blast
  with wait_pop_safe[OF s(1)] show ?thesis by (intro exI[of _ s]) simp
qed

text \<open>An event that cannot end the wait of the call \<open>i\<close>.\<close>

fun lets_sleep :: "nat \<Rightarrow> 'a queue_event \<Rightarrow> bool" where
  "lets_sleep i (QPush x) \<longleftrightarrow> False"
| "lets_sleep i (QWake j) \<longleftrightarrow> i \<noteq> j"
| "lets_sleep i _ \<longleftrightarrow> True"

lemma sleeps_on:
  assumes "wait_run forever es s t" "list_all (lets_sleep i) es" "pc s i = Waiting" "pending s = 0"
  shows "pc t i = Waiting"
  using assms
proof (induction rule: wait_run.induct)
  case (run_cons e s t es u)
  have "pc t i = Waiting \<and> pending t = 0"
    using run_cons.hyps(1) run_cons.prems by (cases rule: wait_step.cases) auto
  then show ?case using run_cons by simp
qed

text \<open>C40: A wake-up can be lost. With wait_pop(-1), if another thread pushes and broadcasts
  after the look and before the wait, the call waits while the queue holds the element and
  no broadcast is outstanding. Whatever the other threads do then, appends to the queue
  included, it waits on, unless an element is pushed or the wait happens to end spuriously;
  it is the next push whose broadcast makes it return the element that was there all along.\<close>

theorem wait_pop_lost_wakeup:
  "\<exists>s. wait_run (\<lambda>_. True) [QRun 0, QPush x, QBroadcast, QRun 0] (waitq_init []) s
     \<and> queue s = [x] \<and> pending s = 0 \<and> pc s 0 = Waiting
     \<and> (\<forall>es t. wait_run (\<lambda>_. True) es s t \<and> list_all (lets_sleep 0) es \<longrightarrow> pc t 0 = Waiting)
     \<and> (\<exists>t. wait_run (\<lambda>_. True) [QPush y, QBroadcast, QRun 0] s t \<and> pc t 0 = Returned (Some x) \<and> queue t = [y])"
proof -
  define s where "s = \<lparr>queue = [x], pc = (\<lambda>_. Look)(0 := Waiting), pending = 0, popped = []\<rparr>"
  have "wait_run (\<lambda>_. True) [QRun 0, QPush x, QBroadcast, QRun 0] (waitq_init []) s"
    by (simp add: s_def waitq_init_def wait_run_simps wait_step_simps raw_push_def go_def fun_eq_iff)
  moreover have "\<exists>t. wait_run (\<lambda>_. True) [QPush y, QBroadcast, QRun 0] s t \<and> pc t 0 = Returned (Some x) \<and> queue t = [y]"
    by (simp add: s_def wait_run_simps wait_step_simps raw_push_def)
  moreover have "queue s = [x]" "pending s = 0" "pc s 0 = Waiting" by (simp_all add: s_def)
  ultimately show ?thesis using sleeps_on by blast
qed

text \<open>The call sleeps on while more elements arrive and a second call is served.\<close>

lemma wait_pop_lost_wakeup_witness:
  "\<exists>s t. wait_run (\<lambda>_. True) [QRun 0, QPush 7, QBroadcast, QRun 0] (waitq_init []) s
     \<and> wait_run (\<lambda>_. True) [QAppend [8, 9], QPop, QRun 1] s t \<and> pc t 0 = Waiting \<and> queue t = [9 :: nat]"
proof -
  obtain s :: "nat waitq" where s: "wait_run (\<lambda>_. True) [QRun 0, QPush 7, QBroadcast, QRun 0] (waitq_init []) s"
      and wait: "\<forall>es t. wait_run (\<lambda>_. True) es s t \<and> list_all (lets_sleep 0) es \<longrightarrow> pc t 0 = Waiting"
    using wait_pop_lost_wakeup[of 7 8] by blast
  have "s = \<lparr>queue = [7], pc = (\<lambda>_. Look)(0 := Waiting), pending = 0, popped = []\<rparr>"
    using s by (auto simp: waitq_init_def wait_run_simps wait_step_simps raw_push_def go_def fun_eq_iff)
  then have "\<exists>t. wait_run (\<lambda>_. True) [QAppend [8, 9], QPop, QRun 1] s t \<and> queue t = [9]"
    by (simp add: wait_run_simps wait_step_simps)
  then obtain t where t: "wait_run (\<lambda>_. True) [QAppend [8, 9], QPop, QRun 1] s t" "queue t = [9]" by blast
  have "pc t 0 = Waiting" by (rule wait[rule_format, OF conjI[OF t(1)]]) simp
  with s t show ?thesis by blast
qed

end
