(* ===== verification/Router.thy ===== *)
theory Router imports Data_Queue Device_Tables "HOL-Library.Multiset" begin

text \<open>
  SocketRoutingQueue (src/src/router.cc, src/src/router.h): it reads packets from the USB
  device into buffers taken from a free list and puts each on the queue of the socket it is
  for, gives it to that socket's handler, or puts it on the default queue. Every operation
  is one step (the mutexes make the parts that touch the shared state atomic; a read that
  waits is the pop at its end, see Data_Queue). A buffer is a pair of its address and the
  bytes it holds, so that ownership can be followed; a DataHandle is a buffer in the hands
  of a client. Handlers do not call back into the router.
\<close>

section \<open>State\<close>

type_synonym buffer = "nat \<times> bytes"
type_synonym handler = nat

text \<open>InterestType is a bit set; its members are DataPackets and SequencePackets.\<close>

definition DataPackets :: byte where "DataPackets = 0x1"
definition SequencePackets :: byte where "SequencePackets = 0x2"
definition SequenceAndDataPackets :: byte where "SequenceAndDataPackets = DataPackets OR SequencePackets"

record queue_entry =
  qe_handler :: "handler option"
  qe_queue :: "buffer list"
  qe_type :: byte

text \<open>
  \<open>allocated\<close> is the next address \<open>new Data\<close> returns, \<open>calls\<close> the log of handler calls:
  DataReceived with the bytes, or Error.
\<close>

datatype call = DataReceived handler bytes | Error handler

record router =
  m_dev :: "nat option"
  m_writeEp :: int
  m_readEp :: int
  m_interest :: bool
  m_seen_usb_error :: bool
  m_usb_error_dev_callback :: "handler option"
  m_free :: "buffer list"
  m_default :: "buffer list"
  m_socketQueues :: "(u16 \<times> queue_entry) list"
  m_timeout :: int
  m_continue_reading :: bool
  allocated :: nat
  calls :: "call list"

section \<open>Buffers\<close>

definition new_Data :: "router \<Rightarrow> buffer \<times> router" where
  "new_Data r = ((allocated r, []), r\<lparr>allocated := Suc (allocated r)\<rparr>)"

primrec allocate :: "nat \<Rightarrow> router \<Rightarrow> router" where
  "allocate 0 r = r"
| "allocate (Suc n) r = (let (b, r1) = new_Data r in allocate n (r1\<lparr>m_free := dq_push (m_free r1) b\<rparr>))"

definition AllocateBuffers :: "int \<Rightarrow> router \<Rightarrow> router" where
  "AllocateBuffers n r =
     (let todo = n - int (dq_size (m_free r)) in allocate (nat todo) r)"

definition SocketRoutingQueue_new :: "int \<Rightarrow> int \<Rightarrow> router" where
  "SocketRoutingQueue_new prealloc_buffer_count default_read_timeout =
     AllocateBuffers prealloc_buffer_count
      \<lparr>m_dev = None, m_writeEp = 0, m_readEp = 0, m_interest = False, m_seen_usb_error = False,
       m_usb_error_dev_callback = None, m_free = [], m_default = [], m_socketQueues = [],
       m_timeout = default_read_timeout, m_continue_reading = False, allocated = 0, calls = []\<rparr>"

definition ReturnBuffer :: "buffer \<Rightarrow> router \<Rightarrow> router" where
  "ReturnBuffer b r = r\<lparr>m_free := dq_push (m_free r) b\<rparr>"

section \<open>Routing\<close>

definition QueuePacket_socket :: "u16 \<Rightarrow> buffer \<Rightarrow> router \<Rightarrow> bool \<times> router" where
  "QueuePacket_socket socket buf r =
     (if m_interest r
      then let seq = IsSequencePacket (snd buf)
           in (case map_of (m_socketQueues r) socket of
                 None \<Rightarrow> (False, r)
               | Some qe \<Rightarrow>
                   if seq \<and> qe_type qe AND SequencePackets = 0 then (False, r)
                   else if \<not> seq \<and> qe_type qe AND DataPackets = 0 then (False, r)
                   else (True, r\<lparr>m_socketQueues :=
                          map_put socket (qe\<lparr>qe_queue := dq_push (qe_queue qe) buf\<rparr>) (m_socketQueues r)\<rparr>))
      else (False, r))"

definition QueuePacket_default :: "buffer \<Rightarrow> router \<Rightarrow> router" where
  "QueuePacket_default buf r = r\<lparr>m_default := dq_push (m_default r) buf\<rparr>"

text \<open>
  A handler is foreign code: \<open>h_data\<close> says what its DataReceived leaves in the buffer, or
  the exception it throws.
\<close>

type_synonym handlers = "handler \<Rightarrow> bytes \<Rightarrow> bytes res"

definition RouteOrQueuePacket :: "handlers \<Rightarrow> u16 \<Rightarrow> buffer \<Rightarrow> router \<Rightarrow> exn option \<times> bool \<times> router" where
  "RouteOrQueuePacket h_data socket buf r =
     (if m_interest r
      then (case map_of (m_socketQueues r) socket of
              None \<Rightarrow> (None, False, r)
            | Some qe \<Rightarrow>
                (case qe_handler qe of
                   Some sdh \<Rightarrow>
                     (let r1 = r\<lparr>calls := calls r @ [DataReceived sdh (snd buf)]\<rparr>
                      in (case h_data sdh (snd buf) of
                            Inl e \<Rightarrow> (Some e, False, r1)
                          | Inr bs \<Rightarrow> (None, True, ReturnBuffer (fst buf, bs) r1)))
                 | None \<Rightarrow>
                     (None, True, r\<lparr>m_socketQueues :=
                        map_put socket (qe\<lparr>qe_queue := dq_push (qe_queue qe) buf\<rparr>) (m_socketQueues r)\<rparr>)))
      else (None, False, r))"

section \<open>Public operations\<close>

definition SetUsbDevice :: "nat \<Rightarrow> int \<Rightarrow> int \<Rightarrow> handler option \<Rightarrow> router \<Rightarrow> router" where
  "SetUsbDevice dev writeEp readEp callback r =
     r\<lparr>m_dev := Some dev, m_usb_error_dev_callback := callback, m_writeEp := writeEp, m_readEp := readEp\<rparr>"

definition ClearUsbDevice :: "router \<Rightarrow> router" where
  "ClearUsbDevice r = r\<lparr>m_dev := None, m_usb_error_dev_callback := None\<rparr>"

definition UsbDeviceReady :: "router \<Rightarrow> bool" where
  "UsbDeviceReady r \<longleftrightarrow> m_dev r \<noteq> None \<and> \<not> m_seen_usb_error r"

text \<open>The timeout the read waits for; -1 is "forever" to the queue but "default" here.\<close>

definition read_timeout :: "router \<Rightarrow> int \<Rightarrow> int" where
  "read_timeout r timeout = (if timeout = -1 then m_timeout r else timeout)"

definition DefaultRead_timeout :: "router \<Rightarrow> int \<Rightarrow> int" where
  "DefaultRead_timeout r timeout =
     (let timeout' = (if m_seen_usb_error r \<and> timeout = -1 then 0 else timeout) in read_timeout r timeout')"

definition DefaultRead :: "router \<Rightarrow> buffer option \<times> router" where
  "DefaultRead r = (let (b, q) = raw_pop (m_default r) in (b, r\<lparr>m_default := q\<rparr>))"

definition RegisterInterestAndType :: "u16 \<Rightarrow> handler option \<Rightarrow> byte \<Rightarrow> router \<Rightarrow> router res" where
  "RegisterInterestAndType socket h type r =
     (case map_of (m_socketQueues r) socket of
        Some qe \<Rightarrow> Inl (LogicError ''RegisterInterest requesting a previously registered socket.'')
      | None \<Rightarrow> Inr (r\<lparr>m_socketQueues := map_put socket \<lparr>qe_handler = h, qe_queue = [], qe_type = type\<rparr> (m_socketQueues r),
                      m_interest := True\<rparr>))"

definition RegisterInterest :: "u16 \<Rightarrow> handler option \<Rightarrow> router \<Rightarrow> router res" where
  "RegisterInterest socket h r = RegisterInterestAndType socket h SequenceAndDataPackets r"

definition UnregisterInterest :: "u16 \<Rightarrow> router \<Rightarrow> router" where
  "UnregisterInterest socket r =
     (case map_of (m_socketQueues r) socket of
        None \<Rightarrow> r
      | Some qe \<Rightarrow>
          let (free, gone) = append_from (m_free r) (qe_queue qe);
              sq = map_erase socket (m_socketQueues r)
          in r\<lparr>m_free := free, m_socketQueues := sq, m_interest := (0 < length sq)\<rparr>)"

definition ChangeInterest :: "u16 \<Rightarrow> byte \<Rightarrow> router \<Rightarrow> router res" where
  "ChangeInterest socket type r =
     (case map_of (m_socketQueues r) socket of
        None \<Rightarrow> Inl (LogicError ''ChangeInterest requires a previously registered socket.'')
      | Some qe \<Rightarrow> Inr (r\<lparr>m_socketQueues := map_put socket (qe\<lparr>qe_type := type\<rparr>) (m_socketQueues r)\<rparr>))"

definition SocketRead :: "u16 \<Rightarrow> router \<Rightarrow> (buffer option \<times> router) res" where
  "SocketRead socket r =
     (case map_of (m_socketQueues r) socket of
        None \<Rightarrow> Inl (LogicError ''SocketRead requested data from unregistered socket.'')
      | Some qe \<Rightarrow>
          let (b, q) = raw_pop (qe_queue qe)
          in Inr (b, r\<lparr>m_socketQueues := map_put socket (qe\<lparr>qe_queue := q\<rparr>) (m_socketQueues r)\<rparr>))"

definition IsAvailable :: "u16 \<Rightarrow> router \<Rightarrow> bool" where
  "IsAvailable socket r = (case map_of (m_socketQueues r) socket of
      None \<Rightarrow> False | Some qe \<Rightarrow> 0 < dq_size (qe_queue qe))"

section \<open>DoRead\<close>

text \<open>What BulkRead may do: fill the buffer, return false, or throw.\<close>

datatype usb_result = UsbData bytes | UsbFalse bytes | UsbTimeoutThrown | UsbErrorThrown

text \<open>
  The result is an exception of a handler that leaves DoRead (its destructors give the
  buffer back), or none. A USB error, from the read or from a handler, sets the error flag
  and is reported to every socket's handler in socket order and then to the device callback.
\<close>

definition usb_error :: "router \<Rightarrow> router" where
  "usb_error r = r\<lparr>m_seen_usb_error := True,
     calls := calls r @ List.map_filter (\<lambda>(s, qe). map_option Error (qe_handler qe)) (m_socketQueues r)
       @ (case m_usb_error_dev_callback r of None \<Rightarrow> [] | Some h \<Rightarrow> [Error h])\<rparr>"

text \<open>
  The end of DoRead for a data packet: what RouteOrQueuePacket could not place goes to the
  default queue; exceptions of the USB layer are caught, all others leave.
\<close>

definition route_end :: "buffer \<Rightarrow> exn option \<times> bool \<times> router \<Rightarrow> exn option \<times> router" where
  "route_end buf x =
    (case x of (thrown, ok, r) \<Rightarrow>
      (case thrown of
         None \<Rightarrow> (None, if ok then r else QueuePacket_default buf r)
       | Some e \<Rightarrow>
           if e = UsbTimeout then (None, ReturnBuffer buf r)
           else if e = UsbError then (None, ReturnBuffer buf (usb_error r))
           else (Some e, ReturnBuffer buf r)))"

definition DoRead :: "handlers \<Rightarrow> usb_result \<Rightarrow> router \<Rightarrow> exn option \<times> router" where
  "DoRead h_data inp r =
    (if m_dev r = None \<or> m_seen_usb_error r then (None, r)
     else
       let (raw, q) = raw_pop (m_free r);
           (buf, r1) = (case raw of Some b \<Rightarrow> (b, r\<lparr>m_free := q\<rparr>) | None \<Rightarrow> new_Data r)
       in case inp of
            UsbTimeoutThrown \<Rightarrow> (None, ReturnBuffer (fst buf, []) r1)
          | UsbErrorThrown \<Rightarrow> (None, ReturnBuffer (fst buf, []) (usb_error r1))
          | UsbFalse bs \<Rightarrow> (None, ReturnBuffer (fst buf, bs) r1)
          | UsbData bs \<Rightarrow>
              let buf = (fst buf, bs)
              in if length bs < SB_PACKET_SOCKET_SIZE then (None, ReturnBuffer buf r1)
                 else if IsSequencePacket bs
                 then let socket = ucast (byte_at bs off_u_sequence_socket);
                          (ok, r2) = QueuePacket_socket socket buf r1
                      in (None, if ok then r2 else QueuePacket_default buf r2)
                 else route_end buf (RouteOrQueuePacket h_data (get16 bs 0) buf r1))"

text \<open>
  The read thread: it clears the error flag once when it starts and swallows whatever
  leaves DoRead. The input is what each round's BulkRead does; m_continue_reading is
  cleared from outside after the last.
\<close>

primrec SimpleReadThread_rounds :: "handlers \<Rightarrow> usb_result list \<Rightarrow> router \<Rightarrow> router" where
  "SimpleReadThread_rounds h_data [] r = r"
| "SimpleReadThread_rounds h_data (i # is) r = SimpleReadThread_rounds h_data is (snd (DoRead h_data i r))"

definition SimpleReadThread :: "handlers \<Rightarrow> usb_result list \<Rightarrow> router \<Rightarrow> router" where
  "SimpleReadThread h_data is r = SimpleReadThread_rounds h_data is (r\<lparr>m_seen_usb_error := False\<rparr>)"

text \<open>\<open>created\<close> is whether pthread_create succeeds.\<close>

definition SpinoffSimpleReadThread :: "bool \<Rightarrow> router \<Rightarrow> router res" where
  "SpinoffSimpleReadThread created r =
     (if m_continue_reading r then Inr r
      else if created then Inr (r\<lparr>m_continue_reading := True\<rparr>)
      else Inl (BarryError ''SocketRoutingQueue: Error creating USB read thread.''))"

section \<open>Ownership of buffers\<close>

definition addrs :: "buffer list \<Rightarrow> nat multiset" where
  "addrs bs = mset (map fst bs)"

definition queue_addrs :: "(u16 \<times> queue_entry) list \<Rightarrow> nat multiset" where
  "queue_addrs m = (\<Sum>p \<leftarrow> m. addrs (qe_queue (snd p)))"

definition own :: "router \<Rightarrow> nat multiset" where
  "own r = addrs (m_free r) + addrs (m_default r) + queue_addrs (m_socketQueues r)"

lemma addrs_simps [simp]: "addrs [] = {#}" "addrs (b # bs) = add_mset (fst b) (addrs bs)"
  "addrs (as @ bs) = addrs as + addrs bs"
  by (simp_all add: addrs_def)

lemma queue_addrs_simps [simp]: "queue_addrs [] = {#}"
  "queue_addrs (p # m) = addrs (qe_queue (snd p)) + queue_addrs m"
  by (simp_all add: queue_addrs_def)

lemma queue_addrs_put:
  "map_wf m \<Longrightarrow> queue_addrs (map_put k v m) + (case map_of m k of None \<Rightarrow> {#} | Some w \<Rightarrow> addrs (qe_queue w))
     = queue_addrs m + addrs (qe_queue v)"
proof (induction k v m rule: map_put.induct)
  case (2 k v k' v' m)
  have wf: "map_wf m" and less: "\<forall>x \<in> fst ` set m. k' < x" using "2.prems" by (auto simp: map_wf_def)
  have none: "k < k' \<Longrightarrow> map_of m k = None"
    using less by (metis map_of_eq_None_iff not_less_iff_gr_or_eq order_less_trans)
  show ?case using "2.IH" wf none by (auto simp: ac_simps)
qed simp

lemma queue_addrs_erase:
  "map_wf m \<Longrightarrow> queue_addrs (map_erase k m) + (case map_of m k of None \<Rightarrow> {#} | Some w \<Rightarrow> addrs (qe_queue w))
     = queue_addrs m"
proof (induction m)
  case (Cons p m)
  have wf: "map_wf m" and less: "\<forall>x \<in> fst ` set m. fst p < x" using Cons.prems by (auto simp: map_wf_def)
  have gone: "map_erase (fst p) m = m"
    using less by (auto simp: map_erase_def filter_id_conv)
  show ?case using Cons.IH[OF wf] gone by (auto simp: map_erase_def ac_simps)
qed (simp add: map_erase_def)

lemma queue_addrs_update:
  assumes "map_wf m" "map_of m k = Some w" "addrs (qe_queue v) = addrs (qe_queue w) + A"
  shows "queue_addrs (map_put k v m) = queue_addrs m + A"
  using queue_addrs_put[OF assms(1), of k v] assms(2,3) by (simp add: ac_simps)

text \<open>The part of the router's state that does not concern buffers is consistent.\<close>

definition shape_ok :: "router \<Rightarrow> bool" where
  "shape_ok r \<longleftrightarrow> map_wf (m_socketQueues r) \<and> (m_interest r \<longleftrightarrow> m_socketQueues r \<noteq> [])"

lemma map_put_not_Nil [simp]: "map_put k v m \<noteq> []"
  by (induction k v m rule: map_put.induct) auto

text \<open>An operation holding the buffers \<open>A\<close> gives them all back and keeps every other.\<close>

definition gives_back :: "nat multiset \<Rightarrow> router \<Rightarrow> router \<Rightarrow> bool" where
  "gives_back A r r' \<longleftrightarrow> shape_ok r' \<and> allocated r' = allocated r \<and> own r' = own r + A"

lemma ReturnBuffer_gives: "shape_ok r \<Longrightarrow> gives_back {#fst b#} r (ReturnBuffer b r)"
  by (simp add: gives_back_def ReturnBuffer_def own_def shape_ok_def dq_push_def raw_push_def)

lemma QueuePacket_default_gives: "shape_ok r \<Longrightarrow> gives_back {#fst b#} r (QueuePacket_default b r)"
  by (simp add: gives_back_def QueuePacket_default_def own_def shape_ok_def dq_push_def raw_push_def)

lemma queue_push_gives:
  assumes "shape_ok r" "map_of (m_socketQueues r) socket = Some qe"
  shows "gives_back {#fst b#} r (r\<lparr>m_socketQueues :=
      map_put socket (qe\<lparr>qe_queue := dq_push (qe_queue qe) b\<rparr>) (m_socketQueues r)\<rparr>)"
proof -
  have "m_socketQueues r \<noteq> []" using assms(2) by auto
  then show ?thesis
    using assms queue_addrs_update[OF _ assms(2), of "qe\<lparr>qe_queue := dq_push (qe_queue qe) b\<rparr>" "{#fst b#}"]
    by (simp add: gives_back_def own_def shape_ok_def dq_push_def raw_push_def)
qed

lemma QueuePacket_socket_gives:
  assumes "shape_ok r" "QueuePacket_socket socket b r = (ok, r')"
  shows "if ok then gives_back {#fst b#} r r' else r' = r"
  using assms queue_push_gives[OF assms(1), of socket _ b]
  by (auto simp: QueuePacket_socket_def Let_def split: if_splits option.splits)

lemma RouteOrQueuePacket_gives:
  assumes "shape_ok r" "RouteOrQueuePacket h socket b r = (e, ok, r')"
  shows "if e = None \<and> ok then gives_back {#fst b#} r r' else gives_back {#} r r'"
proof -
  have *: "gives_back A (r\<lparr>calls := c\<rparr>) t = gives_back A r t" for A c t
    by (simp add: gives_back_def own_def)
  have "shape_ok (r\<lparr>calls := c\<rparr>)" for c using assms(1) by (simp add: shape_ok_def)
  then have ret: "gives_back {#a#} r (ReturnBuffer (a, bs) (r\<lparr>calls := c\<rparr>))" for a bs c
    using ReturnBuffer_gives[of "r\<lparr>calls := c\<rparr>" "(a, bs)"] by (simp add: *)
  have none: "gives_back {#} r (r\<lparr>calls := c\<rparr>)" "gives_back {#} r r" for c
    using assms(1) by (simp_all add: gives_back_def own_def shape_ok_def)
  show ?thesis
    using assms(2) queue_push_gives[OF assms(1), of socket _ b] ret none
    by (auto simp: RouteOrQueuePacket_def Let_def split: if_splits option.splits sum.splits)
qed

lemma usb_error_gives: "shape_ok r \<Longrightarrow> gives_back {#} r (usb_error r)"
  by (simp add: gives_back_def usb_error_def own_def shape_ok_def)

lemma gives_back_trans: "gives_back A r s \<Longrightarrow> gives_back B s t \<Longrightarrow> gives_back (A + B) r t"
  by (simp add: gives_back_def ac_simps)

lemma gives_back_shape: "gives_back A r s \<Longrightarrow> shape_ok s"
  by (simp add: gives_back_def)


definition addresses :: "nat \<Rightarrow> nat \<Rightarrow> nat multiset" where
  "addresses a b = mset [a..<b]"

lemma addresses_simps [simp]: "addresses a a = {#}" "addresses a (Suc a) = {#a#}"
  by (simp_all add: addresses_def)

lemma addresses_split: "a \<le> b \<Longrightarrow> addresses 0 a + addresses a b = addresses 0 b"
  unfolding addresses_def using upt_add_eq_append[of 0 a "b - a"] by (simp del: mset_upt flip: mset_append)

lemma addresses_Suc: "a < b \<Longrightarrow> addresses a b = add_mset a (addresses (Suc a) b)"
  unfolding addresses_def by (subst upt_conv_Cons) (simp_all del: mset_upt)

definition conserves :: "router \<Rightarrow> router \<Rightarrow> bool" where
  "conserves r r' \<longleftrightarrow> shape_ok r' \<and> allocated r \<le> allocated r'
     \<and> own r' = own r + addresses (allocated r) (allocated r')"

lemma conserves_refl: "shape_ok r \<Longrightarrow> conserves r r"
  by (simp add: conserves_def)

lemma free_buffer:
  assumes "shape_ok r" "raw_pop (m_free r) = (raw, q)"
    "(case raw of Some b \<Rightarrow> (b, r\<lparr>m_free := q\<rparr>) | None \<Rightarrow> new_Data r) = (buf, r1)"
  shows "shape_ok r1" "gives_back {#fst buf#} r1 r' \<Longrightarrow> conserves r r'"
proof -
  have "shape_ok r1 \<and> (gives_back {#fst buf#} r1 r' \<longrightarrow> conserves r r')"
  proof (cases "m_free r")
    case Nil
    then show ?thesis using assms
      by (auto simp: shape_ok_def new_Data_def conserves_def gives_back_def own_def)
  next
    case (Cons b bs)
    then show ?thesis using assms
      by (auto simp: shape_ok_def conserves_def gives_back_def own_def)
  qed
  then show "shape_ok r1" "gives_back {#fst buf#} r1 r' \<Longrightarrow> conserves r r'" by auto
qed

lemma DoRead_conserves:
  assumes "shape_ok r" shows "conserves r (snd (DoRead h inp r))"
proof (cases "m_dev r = None \<or> m_seen_usb_error r")
  case True
  then show ?thesis using assms by (simp add: DoRead_def conserves_refl)
next
  case False
  obtain raw q where pop: "raw_pop (m_free r) = (raw, q)" by (cases "raw_pop (m_free r)")
  obtain buf r1 where buf: "(case raw of Some b \<Rightarrow> (b, r\<lparr>m_free := q\<rparr>) | None \<Rightarrow> new_Data r) = (buf, r1)"
    by (cases "case raw of Some b \<Rightarrow> (b, r\<lparr>m_free := q\<rparr>) | None \<Rightarrow> new_Data r")
  note ok = free_buffer(1)[OF assms pop buf] and fin = free_buffer(2)[OF assms pop buf]
  define a where "a = fst buf"
  have ret: "gives_back {#a#} r1 (ReturnBuffer (a, bs) r2)" if "gives_back {#} r1 r2" for bs r2
    using gives_back_trans[OF that ReturnBuffer_gives[OF gives_back_shape[OF that], of "(a, bs)"]] by simp
  have dflt: "gives_back {#a#} r1 (QueuePacket_default (a, bs) r2)" if "gives_back {#} r1 r2" for bs r2
    using gives_back_trans[OF that QueuePacket_default_gives[OF gives_back_shape[OF that], of "(a, bs)"]] by simp
  have self: "gives_back {#} r1 r1" using ok by (simp add: gives_back_def)
  have err: "gives_back {#} r1 (usb_error r2)" if "gives_back {#} r1 r2" for r2
    using gives_back_trans[OF that usb_error_gives[OF gives_back_shape[OF that]]] by simp
  have "gives_back {#a#} r1 (snd (DoRead h inp r))"
  proof (cases inp)
    case (UsbData bs)
    obtain ok' r2 where qp: "QueuePacket_socket (ucast (byte_at bs off_u_sequence_socket)) (a, bs) r1 = (ok', r2)"
      by (cases "QueuePacket_socket (ucast (byte_at bs off_u_sequence_socket)) (a, bs) r1")
    obtain e ok'' r3 where rp: "RouteOrQueuePacket h (get16 bs 0) (a, bs) r1 = (e, ok'', r3)"
      by (cases "RouteOrQueuePacket h (get16 bs 0) (a, bs) r1")
    note q = QueuePacket_socket_gives[OF ok qp] and rt = RouteOrQueuePacket_gives[OF ok rp]
    have seq: "gives_back {#a#} r1 (if ok' then r2 else QueuePacket_default (a, bs) r2)"
      using q dflt[OF self, of bs] by auto
    have rest: "gives_back {#a#} r1 (snd (route_end (a, bs) (e, ok'', r3)))"
      using rt ret dflt err by (auto simp: route_end_def split: option.splits)
    show ?thesis
      using False seq rest ret[OF self, of bs]
      by (auto simp add: DoRead_def Let_def pop buf UsbData qp rp simp flip: a_def)
  qed (use False ret[OF self] ret[OF err[OF self]] in \<open>auto simp add: DoRead_def Let_def pop buf simp flip: a_def\<close>)
  then show ?thesis using fin by (simp add: a_def)
qed


section \<open>The router among its clients\<close>

text \<open>
  Any sequence of operations, with the buffers clients hold through DataHandles. A handle
  is returned by its destructor.
\<close>

inductive router_step :: "handlers \<Rightarrow> router \<times> buffer list \<Rightarrow> router \<times> buffer list \<Rightarrow> bool" for h where
  do_read: "router_step h (r, held) (snd (DoRead h inp r), held)"
| set_device: "router_step h (r, held) (SetUsbDevice d w e cb r, held)"
| clear_device: "router_step h (r, held) (ClearUsbDevice r, held)"
| register: "RegisterInterestAndType s hdl t r = Inr r' \<Longrightarrow> router_step h (r, held) (r', held)"
| unregister: "router_step h (r, held) (UnregisterInterest s r, held)"
| change: "ChangeInterest s t r = Inr r' \<Longrightarrow> router_step h (r, held) (r', held)"
| socket_read: "SocketRead s r = Inr (Some b, r') \<Longrightarrow> router_step h (r, held) (r', b # held)"
| socket_read_none: "SocketRead s r = Inr (None, r') \<Longrightarrow> router_step h (r, held) (r', held)"
| default_read: "DefaultRead r = (Some b, r') \<Longrightarrow> router_step h (r, held) (r', b # held)"
| default_read_none: "DefaultRead r = (None, r') \<Longrightarrow> router_step h (r, held) (r', held)"
| release: "b \<in> set held \<Longrightarrow> router_step h (r, held) (ReturnBuffer b r, remove1 b held)"
| allocate: "router_step h (r, held) (AllocateBuffers n r, held)"
| spinoff: "SpinoffSimpleReadThread c r = Inr r' \<Longrightarrow> router_step h (r, held) (r', held)"
| thread_start: "router_step h (r, held) (r\<lparr>m_seen_usb_error := False\<rparr>, held)"

inductive_cases router_stepE: "router_step h s t"

definition router_inv :: "router \<times> buffer list \<Rightarrow> bool" where
  "router_inv s \<longleftrightarrow> shape_ok (fst s) \<and> own (fst s) + addrs (snd s) = addresses 0 (allocated (fst s))"

lemma conserves_inv: "router_inv (r, held) \<Longrightarrow> conserves r r' \<Longrightarrow> router_inv (r', held)"
  using addresses_split[of "allocated r" "allocated r'"]
  by (auto simp: router_inv_def conserves_def) (metis add.assoc add.commute)

lemma allocate_conserves: "shape_ok r \<Longrightarrow> conserves r (allocate n r)"
proof (induction n arbitrary: r)
  case (Suc n)
  define r1 where "r1 = r\<lparr>allocated := Suc (allocated r), m_free := dq_push (m_free r) (allocated r, [])\<rparr>"
  have "shape_ok r1" using Suc.prems by (simp add: r1_def shape_ok_def)
  from Suc.IH[OF this] have "conserves r1 (allocate n r1)" .
  then show ?case
    using addresses_Suc[of "allocated r"] by (auto simp: conserves_def r1_def new_Data_def own_def dq_push_def raw_push_def)
qed (simp add: conserves_refl)

lemma addrs_remove1: "b \<in> set held \<Longrightarrow> addrs held = add_mset (fst b) (addrs (remove1 b held))"
  by (induction held) (auto simp: add_mset_commute)

lemma router_inv_step:
  assumes "router_step h (r, held) (r', held')" "router_inv (r, held)"
  shows "router_inv (r', held')"
  using assms(1)
proof (cases rule: router_step.cases)
  case (do_read inp)
  then show ?thesis using conserves_inv[OF assms(2) DoRead_conserves, of h inp] assms(2) by (simp add: router_inv_def)
next
  case (register s hdl t)
  then show ?thesis using assms(2) queue_addrs_put[of "m_socketQueues r" s "\<lparr>qe_handler = hdl, qe_queue = [], qe_type = t\<rparr>"]
    by (auto simp: RegisterInterestAndType_def router_inv_def shape_ok_def own_def split: option.splits)
next
  case (unregister s)
  show ?thesis
  proof (cases "map_of (m_socketQueues r) s")
    case None
    then show ?thesis using unregister assms(2) by (simp add: UnregisterInterest_def)
  next
    case (Some qe)
    have "map_wf (m_socketQueues r)" using assms(2) by (simp add: router_inv_def shape_ok_def)
    from queue_addrs_erase[OF this, of s]
    have e: "queue_addrs (m_socketQueues r) = queue_addrs (map_erase s (m_socketQueues r)) + addrs (qe_queue qe)"
      using Some by simp
    show ?thesis using unregister assms(2) Some
      by (auto simp: UnregisterInterest_def router_inv_def shape_ok_def own_def Let_def e ac_simps)
  qed
next
  case (change s t)
  then obtain qe where qe: "map_of (m_socketQueues r) s = Some qe"
      "r' = r\<lparr>m_socketQueues := map_put s (qe\<lparr>qe_type := t\<rparr>) (m_socketQueues r)\<rparr>"
    by (auto simp: ChangeInterest_def split: option.splits)
  then show ?thesis using assms(2) change queue_addrs_update[OF _ qe(1), of "qe\<lparr>qe_type := t\<rparr>" "{#}"]
    by (auto simp: router_inv_def shape_ok_def own_def)
next
  case (socket_read s b)
  then obtain qe q where qe: "map_of (m_socketQueues r) s = Some qe" "qe_queue qe = b # q"
      "r' = r\<lparr>m_socketQueues := map_put s (qe\<lparr>qe_queue := q\<rparr>) (m_socketQueues r)\<rparr>"
    by (auto simp: SocketRead_def raw_pop_def neq_Nil_conv split: option.splits if_splits)
  have "map_wf (m_socketQueues r)" using assms(2) by (simp add: router_inv_def shape_ok_def)
  from queue_addrs_put[OF this, of s "qe\<lparr>qe_queue := q\<rparr>"]
  have e: "queue_addrs (m_socketQueues r)
      = add_mset (fst b) (queue_addrs (map_put s (qe\<lparr>qe_queue := q\<rparr>) (m_socketQueues r)))"
    using qe by simp
  show ?thesis using assms(2) socket_read qe
    by (auto simp: router_inv_def shape_ok_def own_def e)
next
  case (socket_read_none s)
  then obtain qe where qe: "map_of (m_socketQueues r) s = Some qe" "qe_queue qe = []"
      "r' = r\<lparr>m_socketQueues := map_put s (qe\<lparr>qe_queue := []\<rparr>) (m_socketQueues r)\<rparr>"
    by (auto simp: SocketRead_def raw_pop_def split: option.splits if_splits)
  then show ?thesis using assms(2) socket_read_none queue_addrs_update[OF _ qe(1), of "qe\<lparr>qe_queue := []\<rparr>" "{#}"]
    by (auto simp: router_inv_def shape_ok_def own_def)
next
  case (default_read b)
  then show ?thesis using assms(2)
    by (auto simp: DefaultRead_def raw_pop_def router_inv_def shape_ok_def own_def neq_Nil_conv ac_simps split: if_splits)
next
  case default_read_none
  then show ?thesis using assms(2)
    by (auto simp: DefaultRead_def raw_pop_def router_inv_def shape_ok_def own_def split: if_splits)
next
  case (release b)
  then show ?thesis using assms(2) addrs_remove1[of b held]
    by (auto simp: ReturnBuffer_def router_inv_def shape_ok_def own_def dq_push_def raw_push_def ac_simps)
next
  case (allocate n)
  then show ?thesis using conserves_inv[OF assms(2) allocate_conserves] assms(2)
    by (simp add: AllocateBuffers_def Let_def router_inv_def)
next
  case (spinoff c)
  then show ?thesis using assms(2)
    by (auto simp: SpinoffSimpleReadThread_def router_inv_def shape_ok_def own_def split: if_splits)
qed (use assms(2) in \<open>auto simp: SetUsbDevice_def ClearUsbDevice_def router_inv_def shape_ok_def own_def\<close>)

lemma router_inv_new: "router_inv (SocketRoutingQueue_new n t, [])"
proof -
  define r where "r = \<lparr>m_dev = None, m_writeEp = 0, m_readEp = 0, m_interest = False, m_seen_usb_error = False,
       m_usb_error_dev_callback = None, m_free = [], m_default = [], m_socketQueues = [],
       m_timeout = t, m_continue_reading = False, allocated = 0, calls = []\<rparr>"
  have i: "router_inv (r, [])" by (simp add: r_def router_inv_def shape_ok_def own_def)
  then have "shape_ok r" by (simp add: router_inv_def)
  then have "router_inv (AllocateBuffers n r, [])"
    using conserves_inv[OF i allocate_conserves] by (simp add: AllocateBuffers_def Let_def)
  then show ?thesis by (simp add: SocketRoutingQueue_new_def r_def)
qed

text \<open>C14: In every reachable state of the router and its clients, each buffer ever allocated
  is in exactly one place: the free list, the default queue, one socket's queue, or one
  handle. None is leaked, whatever is read, thrown, registered or unregistered, and none has
  two owners. The interest flag says whether any socket is registered.\<close>

theorem router_buffers:
  assumes "(router_step h)\<^sup>*\<^sup>* (SocketRoutingQueue_new n t, []) (r, held)"
  shows "addrs (m_free r) + addrs (m_default r) + queue_addrs (m_socketQueues r) + addrs held
           = addresses 0 (allocated r)
     \<and> (m_interest r \<longleftrightarrow> m_socketQueues r \<noteq> [])"
proof -
  have "router_inv s" if "(router_step h)\<^sup>*\<^sup>* (SocketRoutingQueue_new n t, []) s" for s
    using that by (induction rule: rtranclp_induct) (auto intro: router_inv_step router_inv_new)
  from this[OF assms] show ?thesis by (simp add: router_inv_def own_def shape_ok_def)
qed

lemma router_buffers_witness:
  "addrs (m_free (SocketRoutingQueue_new 4 5)) + addrs (m_default (SocketRoutingQueue_new 4 5))
     + queue_addrs (m_socketQueues (SocketRoutingQueue_new 4 5)) + addrs []
   = addresses 0 (allocated (SocketRoutingQueue_new 4 5))"
  using router_buffers[of "\<lambda>_ bs. Inr bs" 4 5 "SocketRoutingQueue_new 4 5" "[]"] by blast


section \<open>What the router promises\<close>

text \<open>
  The abstract router: what each registered socket will read (or its handler), the flag that
  makes the read thread look for sockets at all, what a default read will return, and what
  handlers have been told. Buffers, their addresses and the free list are gone.
\<close>

record abs_router =
  a_sock :: "u16 \<Rightarrow> (handler option \<times> bytes list \<times> byte) option"
  a_interest :: bool
  a_default :: "bytes list"
  a_calls :: "call list"

definition view :: "router \<Rightarrow> abs_router" where
  "view r = \<lparr>a_sock = (\<lambda>s. map_option (\<lambda>qe. (qe_handler qe, map snd (qe_queue qe), qe_type qe)) (map_of (m_socketQueues r) s)),
            a_interest = m_interest r, a_default = map snd (m_default r), a_calls = calls r\<rparr>"

text \<open>Where one packet goes.\<close>

definition deliver :: "bytes \<Rightarrow> abs_router \<Rightarrow> abs_router" where
  "deliver bs a =
    (let to_default = a\<lparr>a_default := a_default a @ [bs]\<rparr>;
         to_queue = (\<lambda>s hdl q t. a\<lparr>a_sock := (a_sock a)(s \<mapsto> (hdl, q @ [bs], t))\<rparr>)
     in if IsSequencePacket bs
        then let s = ucast (byte_at bs off_u_sequence_socket)
             in (case a_sock a s of
                   Some (hdl, q, t) \<Rightarrow> if t AND SequencePackets = 0 then to_default else to_queue s hdl q t
                 | None \<Rightarrow> to_default)
        else let s = get16 bs 0
             in (case a_sock a s of
                   Some (Some hdl, q, t) \<Rightarrow> a\<lparr>a_calls := a_calls a @ [DataReceived hdl bs]\<rparr>
                 | Some (None, q, t) \<Rightarrow> to_queue s None q t
                 | None \<Rightarrow> to_default))"

lemma shape_no_interest: "shape_ok r \<Longrightarrow> \<not> m_interest r \<Longrightarrow> m_socketQueues r = []"
  by (simp add: shape_ok_def)

lemma view_take: "view (r\<lparr>m_free := q\<rparr>) = view r" "view (snd (new_Data r)) = view r"
  "view (ReturnBuffer b r) = view r"
  by (simp_all add: view_def new_Data_def ReturnBuffer_def)

lemma abs_queue_push:
  "map_wf (m_socketQueues r) \<Longrightarrow>
   view (r\<lparr>m_socketQueues := map_put s (qe\<lparr>qe_queue := dq_push (qe_queue qe) b\<rparr>) (m_socketQueues r)\<rparr>)
   = (view r)\<lparr>a_sock := (a_sock (view r))(s \<mapsto> (qe_handler qe, map snd (qe_queue qe) @ [snd b], qe_type qe))\<rparr>"
  by (simp add: view_def dq_push_def raw_push_def fun_eq_iff)

lemma view_default_push: "view (QueuePacket_default b r) = (view r)\<lparr>a_default := a_default (view r) @ [snd b]\<rparr>"
  by (simp add: view_def QueuePacket_default_def dq_push_def raw_push_def)

lemma a_sock_abs: "a_sock (view r) s = map_option (\<lambda>qe. (qe_handler qe, map snd (qe_queue qe), qe_type qe)) (map_of (m_socketQueues r) s)"
  by (simp add: view_def)

lemma abs_sequence:
  assumes "shape_ok r" "IsSequencePacket bs"
  shows "view (let (ok, r2) = QueuePacket_socket (ucast (byte_at bs off_u_sequence_socket)) (a, bs) r
              in if ok then r2 else QueuePacket_default (a, bs) r2) = deliver bs (view r)"
proof -
  have "\<not> m_interest r \<Longrightarrow> m_socketQueues r = []" by (rule shape_no_interest[OF assms(1)])
  moreover have "map_wf (m_socketQueues r)" using assms(1) by (simp add: shape_ok_def)
  ultimately show ?thesis using assms(2)
    by (cases "map_of (m_socketQueues r) (ucast (byte_at bs off_u_sequence_socket))")
       (auto simp: QueuePacket_socket_def deliver_def a_sock_abs view_default_push abs_queue_push Let_def)
qed

lemma abs_data:
  assumes "shape_ok r" "\<not> IsSequencePacket bs" "\<And>hdl. h hdl bs \<noteq> Inl UsbError"
  shows "view (snd (route_end (a, bs) (RouteOrQueuePacket h (get16 bs 0) (a, bs) r))) = deliver bs (view r)"
proof -
  have ni: "\<not> m_interest r \<Longrightarrow> m_socketQueues r = []" by (rule shape_no_interest[OF assms(1)])
  have wf: "map_wf (m_socketQueues r)" using assms(1) by (simp add: shape_ok_def)
  have log: "view (r\<lparr>calls := calls r @ c\<rparr>) = (view r)\<lparr>a_calls := a_calls (view r) @ c\<rparr>" for c
    by (simp add: view_def)
  show ?thesis
  proof (cases "map_of (m_socketQueues r) (get16 bs 0)")
    case None
    then show ?thesis using assms(2)
      by (simp add: RouteOrQueuePacket_def route_end_def deliver_def a_sock_abs view_default_push Let_def)
  next
    case (Some qe)
    then have "m_socketQueues r \<noteq> []" by auto
    then have "m_interest r" using ni by blast
    then show ?thesis using Some assms(2,3) wf
      by (cases "qe_handler qe"; cases "h (the (qe_handler qe)) bs")
         (auto simp: RouteOrQueuePacket_def route_end_def deliver_def a_sock_abs abs_queue_push view_take log Let_def)
  qed
qed

text \<open>C1: One DoRead that gets a packet of at least two bytes does to the abstract router
  exactly what \<open>deliver\<close> says: a sequence packet goes to the queue of the socket its
  one-byte field names if that socket wants sequence packets, any other packet to the
  handler or else the end of the queue of the socket its first two bytes name, and to the
  default queue when there is none. Nothing else of the abstract router changes: neither
  another socket, nor the interest flag, the default queue or the log of handler calls.
  This holds for every handler that does not itself throw a USB error.\<close>

theorem DoRead_delivers:
  assumes "shape_ok r" and "m_dev r \<noteq> None" and "\<not> m_seen_usb_error r" and "2 \<le> length bs"
    and "\<And>hdl. h hdl bs \<noteq> Inl UsbError"
  shows "view (snd (DoRead h (UsbData bs) r)) = deliver bs (view r)"
proof -
  obtain raw q where pop: "raw_pop (m_free r) = (raw, q)" by (cases "raw_pop (m_free r)")
  obtain buf r1 where buf: "(case raw of Some b \<Rightarrow> (b, r\<lparr>m_free := q\<rparr>) | None \<Rightarrow> new_Data r) = (buf, r1)"
    by (cases "case raw of Some b \<Rightarrow> (b, r\<lparr>m_free := q\<rparr>) | None \<Rightarrow> new_Data r")
  have ok: "shape_ok r1" by (rule free_buffer(1)[OF assms(1) pop buf])
  have same: "view r1 = view r"
    using buf view_take(1)[where r = r and q = q] view_take(2)[of r] by (cases raw) (auto simp del: view_take)
  have len: "\<not> length bs < SB_PACKET_SOCKET_SIZE" using assms(4) by (simp add: layout_simps)
  show ?thesis
  proof (cases "IsSequencePacket bs")
    case True
    obtain ok' r2 where "QueuePacket_socket (ucast (byte_at bs off_u_sequence_socket)) (fst buf, bs) r1 = (ok', r2)"
      by (cases "QueuePacket_socket (ucast (byte_at bs off_u_sequence_socket)) (fst buf, bs) r1")
    then show ?thesis using abs_sequence[OF ok True, of "fst buf"] assms(2,3) len True
      by (simp add: DoRead_def Let_def pop buf same split: if_splits)
  next
    case False
    then show ?thesis using abs_data[where h = h, OF ok False assms(5), of "fst buf"] assms(2,3) len
      by (auto simp add: DoRead_def Let_def pop buf same)
  qed
qed

definition sample_router :: router where
  "sample_router = \<lparr>m_dev = Some 1, m_writeEp = 1, m_readEp = 2, m_interest = True, m_seen_usb_error = False,
       m_usb_error_dev_callback = None, m_free = [], m_default = [],
       m_socketQueues = [(6, \<lparr>qe_handler = None, qe_queue = [(0, [6, 0, 1])], qe_type = SequencePackets\<rparr>)],
       m_timeout = 30, m_continue_reading = False, allocated = 1, calls = []\<rparr>"

lemma DoRead_delivers_witness:
  "view (snd (DoRead (\<lambda>_ bs. Inr bs) (UsbData [6, 0, 9, 9]) sample_router)) = deliver [6, 0, 9, 9] (view sample_router)"
  by (rule DoRead_delivers) (simp_all add: sample_router_def shape_ok_def)


text \<open>The interest type a socket is registered with does not filter data packets: a
  packet for a socket registered for sequence packets only is still put on its queue, and
  not on the default queue.\<close>

theorem interest_type_ignored:
  assumes "shape_ok r" and "m_dev r \<noteq> None" and "\<not> m_seen_usb_error r" and "2 \<le> length bs" and "\<not> IsSequencePacket bs"
    and "map_of (m_socketQueues r) (get16 bs 0) = Some qe" and "qe_handler qe = None" and "qe_type qe = SequencePackets"
  shows "a_sock (view (snd (DoRead h (UsbData bs) r))) (get16 bs 0)
           = Some (None, map snd (qe_queue qe) @ [bs], SequencePackets)
     \<and> a_default (view (snd (DoRead h (UsbData bs) r))) = a_default (view r)"
proof -
  obtain raw q where pop: "raw_pop (m_free r) = (raw, q)" by (cases "raw_pop (m_free r)")
  obtain buf r1 where buf: "(case raw of Some b \<Rightarrow> (b, r\<lparr>m_free := q\<rparr>) | None \<Rightarrow> new_Data r) = (buf, r1)"
    by (cases "case raw of Some b \<Rightarrow> (b, r\<lparr>m_free := q\<rparr>) | None \<Rightarrow> new_Data r")
  have r1: "m_socketQueues r1 = m_socketQueues r" "m_default r1 = m_default r" "m_interest r1 = m_interest r"
    using buf by (cases raw; auto simp: new_Data_def)+
  have "m_socketQueues r \<noteq> []" using assms(6) by auto
  then have "m_interest r" "map_wf (m_socketQueues r)" using assms(1) by (simp_all add: shape_ok_def)
  then show ?thesis
    using assms(2-8) by (simp add: DoRead_def Let_def pop buf RouteOrQueuePacket_def route_end_def r1
      a_sock_abs dq_push_def raw_push_def layout_simps) (simp add: view_def r1)
qed

lemma interest_type_ignored_witness:
  "a_sock (view (snd (DoRead (\<lambda>_ bs. Inr bs) (UsbData [6, 0, 9, 9]) sample_router))) 6
     = Some (None, [[6, 0, 1], [6, 0, 9, 9]], SequencePackets)"
proof -
  have "get16 [6, 0, 9, 9] 0 = 6" by (simp add: get16_def)
  then show ?thesis
    using interest_type_ignored[of sample_router "[6, 0, 9, 9]"
        "\<lparr>qe_handler = None, qe_queue = [(0, [6, 0, 1])], qe_type = SequencePackets\<rparr>" "\<lambda>_ bs. Inr bs"]
    by (simp add: sample_router_def shape_ok_def IsSequencePacket_def layout_simps)
qed

text \<open>When BulkRead throws, every handler of a registered socket is told, in socket
  order, and the device callback last; from then on no DoRead of the running thread touches
  anything, so no packet is ever lost to a broken device. Only starting the thread anew
  clears the error: ClearUsbError is declared but has no definition.\<close>

theorem usb_error_stops_reading:
  assumes "m_dev r \<noteq> None" and "\<not> m_seen_usb_error r"
  shows "m_seen_usb_error (snd (DoRead h UsbErrorThrown r))
     \<and> calls (snd (DoRead h UsbErrorThrown r)) = calls r
         @ List.map_filter (\<lambda>(s, qe). map_option Error (qe_handler qe)) (m_socketQueues r)
         @ (case m_usb_error_dev_callback r of None \<Rightarrow> [] | Some hdl \<Rightarrow> [Error hdl])
     \<and> SimpleReadThread_rounds h inputs (snd (DoRead h UsbErrorThrown r)) = snd (DoRead h UsbErrorThrown r)"
proof -
  have stop: "SimpleReadThread_rounds h inputs t = t" if "m_seen_usb_error t" for t
    using that by (induction inputs) (simp_all add: DoRead_def)
  obtain raw q where pop: "raw_pop (m_free r) = (raw, q)" by (cases "raw_pop (m_free r)")
  have "m_seen_usb_error (snd (DoRead h UsbErrorThrown r))"
    using assms pop by (cases raw)
      (auto simp: DoRead_def Let_def pop new_Data_def ReturnBuffer_def usb_error_def)
  moreover have "calls (snd (DoRead h UsbErrorThrown r)) = calls r
         @ List.map_filter (\<lambda>(s, qe). map_option Error (qe_handler qe)) (m_socketQueues r)
         @ (case m_usb_error_dev_callback r of None \<Rightarrow> [] | Some hdl \<Rightarrow> [Error hdl])"
    using assms pop by (cases raw)
      (auto simp: DoRead_def Let_def pop new_Data_def ReturnBuffer_def usb_error_def split: option.splits)
  ultimately show ?thesis using stop by blast
qed

lemma usb_error_stops_reading_witness:
  "SimpleReadThread_rounds (\<lambda>_ bs. Inr bs) [UsbData [6, 0, 9]] (snd (DoRead (\<lambda>_ bs. Inr bs) UsbErrorThrown sample_router))
   = snd (DoRead (\<lambda>_ bs. Inr bs) UsbErrorThrown sample_router)"
  using usb_error_stops_reading[of sample_router "\<lambda>_ bs. Inr bs" "[UsbData [6, 0, 9]]"]
  by (simp add: sample_router_def)

lemma map_erase_empty: "map_erase s m = [] \<longleftrightarrow> (\<forall>s'. s' \<noteq> s \<longrightarrow> map_of m s' = None)"
  by (force simp: map_erase_def filter_empty_conv map_of_eq_None_iff)

text \<open>C22: Registering, changing and removing interest act on the abstract router as a map
  from sockets: registration adds an empty queue, sets the interest flag, and throws for a
  socket that has one; change needs one; removal forgets the socket, gives its buffers to
  the free list and leaves the interest flag set exactly when another socket is still
  registered; and a read takes the oldest packet of just that socket. Nothing touches
  another socket, and every operation keeps the router in the shape in which arriving
  packets are delivered (C1).\<close>

theorem registration_refines:
  assumes "shape_ok r"
  shows "(case RegisterInterestAndType s hdl t r of
            Inl e \<Rightarrow> a_sock (view r) s \<noteq> None
          | Inr r' \<Rightarrow> shape_ok r' \<and> a_sock (view r) s = None
              \<and> view r' = (view r)\<lparr>a_sock := (a_sock (view r))(s \<mapsto> (hdl, [], t)), a_interest := True\<rparr>)
    \<and> (case ChangeInterest s t r of
            Inl e \<Rightarrow> a_sock (view r) s = None
          | Inr r' \<Rightarrow> shape_ok r' \<and> (\<exists>h0 q t0. a_sock (view r) s = Some (h0, q, t0)
                        \<and> view r' = (view r)\<lparr>a_sock := (a_sock (view r))(s \<mapsto> (h0, q, t))\<rparr>))
    \<and> shape_ok (UnregisterInterest s r)
    \<and> view (UnregisterInterest s r) = (view r)\<lparr>a_sock := (a_sock (view r))(s := None),
           a_interest := (\<exists>s'. s' \<noteq> s \<and> a_sock (view r) s' \<noteq> None)\<rparr>
    \<and> (case map_of (m_socketQueues r) s of None \<Rightarrow> UnregisterInterest s r = r
        | Some qe \<Rightarrow> m_free (UnregisterInterest s r) = m_free r @ qe_queue qe)
    \<and> (case SocketRead s r of
            Inl e \<Rightarrow> a_sock (view r) s = None
          | Inr (got, r') \<Rightarrow> shape_ok r' \<and> (\<exists>h0 q t0. a_sock (view r) s = Some (h0, q, t0)
                        \<and> map_option snd got = (if q = [] then None else Some (hd q))
                        \<and> view r' = (view r)\<lparr>a_sock := (a_sock (view r))(s \<mapsto> (h0, tl q, t0))\<rparr>))"
proof -
  have wf: "map_wf (m_socketQueues r)" "m_interest r \<longleftrightarrow> m_socketQueues r \<noteq> []" using assms by (simp_all add: shape_ok_def)
  show ?thesis
  proof (cases "map_of (m_socketQueues r) s")
    case None
    have "map_erase s (m_socketQueues r) = m_socketQueues r"
      using None unfolding map_erase_def by (intro filter_True) (auto simp: map_of_eq_None_iff)
    then have "m_interest r \<longleftrightarrow> (\<exists>s'. s' \<noteq> s \<and> a_sock (view r) s' \<noteq> None)"
      using wf(2) map_erase_empty[of s "m_socketQueues r"] by (simp add: a_sock_abs)
    then have "view r = (view r)\<lparr>a_sock := (a_sock (view r))(s := None), a_interest := (\<exists>s'. s' \<noteq> s \<and> a_sock (view r) s' \<noteq> None)\<rparr>"
      using None by (auto simp: view_def fun_eq_iff)
    then show ?thesis using wf None assms
      by (auto simp: RegisterInterestAndType_def ChangeInterest_def UnregisterInterest_def SocketRead_def view_def fun_eq_iff shape_ok_def)
  next
    case (Some qe)
    then show ?thesis using wf map_erase_empty[of s "m_socketQueues r"]
      by (cases "qe_queue qe")
         (auto simp: RegisterInterestAndType_def ChangeInterest_def UnregisterInterest_def SocketRead_def Let_def view_def fun_eq_iff shape_ok_def)
  qed
qed

lemma registration_refines_witness:
  "view (UnregisterInterest 6 sample_router) = (view sample_router)\<lparr>a_sock := (a_sock (view sample_router))(6 := None), a_interest := False\<rparr>"
proof -
  have "shape_ok sample_router" by (simp add: sample_router_def shape_ok_def)
  moreover have "\<not> (\<exists>s'. s' \<noteq> 6 \<and> a_sock (view sample_router) s' \<noteq> None)" by (simp add: view_def sample_router_def)
  ultimately show ?thesis using registration_refines[of sample_router 6] by auto
qed

end
