(* ===== verification/Socket_Base.thy ===== *)
theory Socket_Base imports Exn_State Packets begin

text \<open>
  Fragmentation of database packets and the packet exchanges of SocketBase
  (src/src/socket.cc). SocketBase is an abstract class: its RawSend, SyncSend and Receive
  are virtual, and here they are arguments of the operations that call them. From this
  theory on a Data object is the byte list it holds (its contents); Data_Buffer shows that
  the buffer operations act on contents as the lists here do.
\<close>

section \<open>Fragments\<close>

text \<open>Stores into a buffer that may be shorter than the struct: bytes behind the data do not count.\<close>

primrec overwrite :: "nat \<Rightarrow> bytes \<Rightarrow> bytes \<Rightarrow> bytes" where
  "overwrite i [] bs = bs"
| "overwrite i (w # ws) bs = overwrite (Suc i) ws (bs[i := w])"

definition AppendFragment :: "bytes \<Rightarrow> bytes \<Rightarrow> bytes res" where
  "AppendFragment whole fragment =
     rbind (if length whole = 0 then Inr fragment
            else if length fragment < SB_FRAG_HEADER_SIZE
            then Inl (UB ''memcpy with a negative size'')
            else Inr (whole @ drop SB_FRAG_HEADER_SIZE fragment))
       (\<lambda>whole. Inr (overwrite off_command [SB_COMMAND_DB_DATA]
                     (overwrite off_size (le16 (word_of_nat (length whole))) whole)))"

text \<open>The sizes are computed in unsigned int.\<close>

definition MakeNextFragment :: "bytes \<Rightarrow> nat \<Rightarrow> (bytes \<times> nat) res" where
  "MakeNextFragment whole offset =
     (if length whole < SB_FRAG_HEADER_SIZE
      then Inl (BarryError ''Socket: Whole packet too short to fragment'')
      else let todo0 = unat (word_of_nat (length whole - SB_FRAG_HEADER_SIZE) - word_of_nat offset :: u32);
               more = (todo0 > MAX_PACKET_SIZE - SB_FRAG_HEADER_SIZE);
               todo = (if more then MAX_PACKET_SIZE - SB_FRAG_HEADER_SIZE else todo0);
               nextOffset = (if more then offset + todo else 0)
           in if length whole < SB_FRAG_HEADER_SIZE + offset + todo
              then Inl (UB ''read past the end of the whole packet'')
              else let buf = take SB_FRAG_HEADER_SIZE whole
                        @ take todo (drop (SB_FRAG_HEADER_SIZE + offset) whole);
                       buf = overwrite off_size (le16 (word_of_nat (todo + SB_FRAG_HEADER_SIZE))) buf;
                       buf = overwrite off_command
                          [if nextOffset \<noteq> 0 then SB_COMMAND_DB_FRAGMENTED else SB_COMMAND_DB_DATA] buf
                   in Inr (buf, nextOffset))"

section \<open>Sending\<close>

text \<open>
  The do-while loop of DBFragSend. The fuel bounds the rounds; the size of the packet is
  enough (frag_loop_sends).
\<close>

fun frag_loop :: "(bytes \<Rightarrow> ('s, unit) st) \<Rightarrow> nat \<Rightarrow> bytes \<Rightarrow> nat \<Rightarrow> ('s, unit) st" where
  "frag_loop SyncSend 0 whole offset = throw (UB ''out of fuel'')"
| "frag_loop SyncSend (Suc fuel) whole offset =
     bnd (lift (MakeNextFragment whole offset)) (\<lambda>(outFrag, nextOffset).
     bnd (SyncSend outFrag) (\<lambda>_.
       if 0 < nextOffset then frag_loop SyncSend fuel whole nextOffset else ret ()))"

definition DBFragSend :: "(bytes \<Rightarrow> ('s, unit) st) \<Rightarrow> bytes \<Rightarrow> ('s, unit) st" where
  "DBFragSend SyncSend whole =
     (if length whole < MIN_PACKET_SIZE
         \<or> (byte_at whole off_command \<noteq> SB_COMMAND_DB_DATA \<and> byte_at whole off_command \<noteq> SB_COMMAND_DB_DONE)
      then throw (LogicError ''Socket: unknown send data in DBFragSend()'')
      else if length whole \<le> MAX_PACKET_SIZE then SyncSend whole
      else frag_loop SyncSend (length whole) whole 0)"

definition SocketBase_Send :: "(bytes \<Rightarrow> ('s, unit) st) \<Rightarrow> ('s, bytes) st \<Rightarrow> bytes \<Rightarrow> ('s, bytes) st" where
  "SocketBase_Send SyncSend Receive whole = bnd (SyncSend whole) (\<lambda>_. Receive)"

section \<open>Packet\<close>

text \<open>
  One round of the loop in Packet, on the packet just read into inputBuf. \<open>receive\<close> and
  inputBuf are the same object until a fragment has been seen; \<open>frag\<close> says whether one has.
  The result is: done, frag, receive and the count of blanks.
\<close>

definition packet_round :: "bool \<Rightarrow> nat \<Rightarrow> bytes \<Rightarrow> bytes \<Rightarrow> (bool \<times> bool \<times> bytes \<times> nat) res" where
  "packet_round frag blankCount receive inputBuf =
     (if 0 < length inputBuf
      then rbind (CheckSize inputBuf SB_PACKET_HEADER_SIZE) (\<lambda>_.
        let command = byte_at inputBuf off_command
        in if command = SB_COMMAND_SEQUENCE_HANDSHAKE then Inr (False, frag, receive, 0)
           else if command = SB_COMMAND_DB_DATA
           then rbind (if frag then AppendFragment receive inputBuf else Inr receive)
                  (\<lambda>receive. Inr (True, frag, receive, 0))
           else if command = SB_COMMAND_DB_FRAGMENTED
           then rbind (if frag then AppendFragment receive inputBuf else Inr receive)
                  (\<lambda>receive. Inr (False, True, receive, 0))
           else if command = SB_COMMAND_DB_DONE then Inr (True, frag, receive, 0)
           else Inl (BarryError ''Socket: (read) unhandled packet in Packet()''))
      else if blankCount + 1 = 10 then Inl (BarryError ''Socket: 10 blank packets received'')
      else Inr (False, frag, receive, blankCount + 1))"

text \<open>
  The loop ends only when the device sends a final packet or an error; the fuel bounds
  the number of packets read, and running out of it is an error of its own.
\<close>

fun packet_loop :: "('s, bytes) st \<Rightarrow> nat \<Rightarrow> bool \<Rightarrow> nat \<Rightarrow> bytes \<Rightarrow> bytes \<Rightarrow> ('s, bytes) st" where
  "packet_loop Receive 0 frag blankCount receive inputBuf = throw (UB ''out of fuel'')"
| "packet_loop Receive (Suc fuel) frag blankCount receive inputBuf =
     bnd (lift (packet_round frag blankCount receive inputBuf)) (\<lambda>(fin, frag', receive', blankCount').
       if fin then ret receive'
       else bnd Receive (\<lambda>input. packet_loop Receive fuel frag' blankCount'
              (if frag' then receive' else input) input))"

definition SocketBase_Packet ::
  "(bytes \<Rightarrow> ('s, unit) st) \<Rightarrow> ('s, bytes) st \<Rightarrow> nat \<Rightarrow> bytes \<Rightarrow> ('s, bytes) st" where
  "SocketBase_Packet SyncSend Receive fuel whole =
     bnd (DBFragSend SyncSend whole) (\<lambda>_.
     bnd Receive (\<lambda>input. packet_loop Receive fuel False 0 input input))"

section \<open>PacketJVM and PacketData\<close>

definition jvm_round :: "nat \<Rightarrow> bytes \<Rightarrow> (bool \<times> nat) res" where
  "jvm_round blankCount inFrag =
     (if 6 < length inFrag
      then rbind (CheckSize inFrag SB_PACKET_HEADER_SIZE) (\<lambda>_.
        if byte_at inFrag off_command = SB_COMMAND_SEQUENCE_HANDSHAKE then Inr (False, 0)
        else Inl (BarryError ''Socket: (read) unhandled packet in Packet()''))
      else if length inFrag = 6 then Inr (True, blankCount)
      else if blankCount + 1 = 10 then Inl (BarryError ''Socket: 10 blank packets received'')
      else Inr (False, blankCount + 1))"

definition jl_round :: "bool \<Rightarrow> nat \<Rightarrow> bytes \<Rightarrow> (bool \<times> nat) res" where
  "jl_round done_on_sequence blankCount inFrag =
     (if 0 < length inFrag
      then rbind (CheckSize inFrag SB_PACKET_HEADER_SIZE) (\<lambda>_.
        let command = byte_at inFrag off_command
        in if command = SB_COMMAND_SEQUENCE_HANDSHAKE then Inr (done_on_sequence, 0)
           else if command = SB_COMMAND_JL_READY \<or> command = SB_COMMAND_JL_ACK
              \<or> command = SB_COMMAND_JL_HELLO_ACK \<or> command = SB_COMMAND_JL_RESET_REQUIRED
           then Inr (True, 0)
           else if command = SB_COMMAND_JL_GET_DATA_ENTRY then Inr (True, 0)
           else if command = SB_DATA_JL_INVALID
           then Inl (BadPacket command ''file is not a valid Java code file'')
           else if command = SB_COMMAND_JL_NOT_SUPPORTED
           then Inl (BadPacket command ''device does not support requested command'')
           else Inr (True, 0))
      else if blankCount + 1 = 10 then Inl (BarryError ''Socket: 10 blank packets received'')
      else Inr (False, blankCount + 1))"

fun round_loop :: "(nat \<Rightarrow> bytes \<Rightarrow> (bool \<times> nat) res) \<Rightarrow> ('s, bytes) st \<Rightarrow> nat \<Rightarrow> nat \<Rightarrow> bytes \<Rightarrow> ('s, bytes) st" where
  "round_loop rnd Receive 0 blankCount inFrag = throw (UB ''out of fuel'')"
| "round_loop rnd Receive (Suc fuel) blankCount inFrag =
     bnd (lift (rnd blankCount inFrag)) (\<lambda>(fin, blankCount').
       if fin then ret inFrag
       else bnd Receive (\<lambda>inFrag'. round_loop rnd Receive fuel blankCount' inFrag'))"

definition PacketJVM :: "(bytes \<Rightarrow> ('s, unit) st) \<Rightarrow> ('s, bytes) st \<Rightarrow> nat \<Rightarrow> bytes \<Rightarrow> ('s, bytes) st" where
  "PacketJVM RawSend Receive fuel whole =
     (if length whole < MIN_PACKET_DATA_SIZE \<or> MAX_PACKET_DATA_SIZE < length whole
      then throw (LogicError ''Socket: unknown send data in PacketJVM()'')
      else bnd (RawSend whole) (\<lambda>_. bnd Receive (\<lambda>inFrag. round_loop jvm_round Receive fuel 0 inFrag)))"

definition PacketData ::
  "(bytes \<Rightarrow> ('s, unit) st) \<Rightarrow> ('s, bytes) st \<Rightarrow> nat \<Rightarrow> bytes \<Rightarrow> bool \<Rightarrow> ('s, bytes) st" where
  "PacketData SyncSend Receive fuel whole done_on_sequence =
     (if length whole < MIN_PACKET_DATA_SIZE \<or> MAX_PACKET_DATA_SIZE < length whole
      then throw (LogicError ''Socket: unknown send data in PacketData()'')
      else bnd (SyncSend whole) (\<lambda>_. bnd Receive (\<lambda>inFrag.
             round_loop (jl_round done_on_sequence) Receive fuel 0 inFrag)))"

definition Packet_JL ::
  "(bytes \<Rightarrow> ('s, unit) st) \<Rightarrow> ('s, bytes) st \<Rightarrow> nat \<Rightarrow> jl_packet \<Rightarrow> ('s, bytes) st" where
  "Packet_JL SyncSend Receive fuel packet =
     (if HasData packet
      then bnd (SyncSend (contents (m_cmd packet))) (\<lambda>_.
             PacketData SyncSend Receive fuel (contents (jl_data packet)) False)
      else PacketData SyncSend Receive fuel (contents (m_cmd packet)) False)"

definition Packet_JVM :: "(bytes \<Rightarrow> ('s, unit) st) \<Rightarrow> ('s, bytes) st \<Rightarrow> nat \<Rightarrow> data \<Rightarrow> ('s, bytes) st" where
  "Packet_JVM RawSend Receive fuel cmd = PacketJVM RawSend Receive fuel (contents cmd)"

text \<open>NextRecord leaves the two socket bytes of its stack packet unset.\<close>

definition NextRecord :: "(bytes \<Rightarrow> ('s, unit) st) \<Rightarrow> ('s, bytes) st \<Rightarrow> nat \<Rightarrow> bytes \<Rightarrow> ('s, bytes) st" where
  "NextRecord SyncSend Receive fuel junk =
     SocketBase_Packet SyncSend Receive fuel (take 2 (junk @ [0, 0]) @ le16 7 @ [SB_COMMAND_DB_DONE, 0, 0])"


section \<open>What fragments look like\<close>

definition frag_packet :: "bytes \<Rightarrow> byte \<Rightarrow> bytes \<Rightarrow> bytes" where
  "frag_packet whole command payload =
     take 2 whole @ le16 (word_of_nat (6 + length payload)) @ [command, byte_at whole 5] @ payload"

function fragments :: "bytes \<Rightarrow> nat \<Rightarrow> bytes list" where
  "fragments whole offset =
     (if 1018 < length whole - 6 - offset
      then frag_packet whole 0x60 (take 1018 (drop (6 + offset) whole)) # fragments whole (offset + 1018)
      else [frag_packet whole 0x40 (drop (6 + offset) whole)])"
  by pat_completeness auto
termination by (relation "measure (\<lambda>(whole, offset). length whole - offset)") auto

declare fragments.simps [simp del]

definition set_header :: "bytes \<Rightarrow> bytes" where
  "set_header w = overwrite 4 [0x40] (overwrite 2 (le16 (word_of_nat (length w))) w)"

lemma split6:
  assumes "6 \<le> length w"
  obtains a b c d e f t where "w = a # b # c # d # e # f # t"
  using assms that by (auto simp: numeral_eq_Suc Suc_le_length_iff)

declare overwrite.simps [simp del]

lemma overwrite_header:
  "overwrite 4 [x] (overwrite 2 (le16 n) (a # b # c # d # e # f # t)) = [a, b] @ le16 n @ [x, f] @ t"
  by (simp add: le16_def numeral_eq_Suc overwrite.simps)

lemma overwrite_header_again:
  "overwrite 4 [x] (overwrite 2 (le16 n) (a # b # le16 m @ e # t)) = [a, b] @ le16 n @ [x] @ t"
  by (simp add: le16_def numeral_eq_Suc overwrite.simps)

lemma set_header_eq:
  assumes "6 \<le> length w"
  shows "set_header w = take 2 w @ le16 (word_of_nat (length w)) @ [0x40, byte_at w 5] @ drop 6 w"
  using assms by (elim split6) (simp add: set_header_def overwrite_header)

lemma length_set_header [simp]: "6 \<le> length w \<Longrightarrow> length (set_header w) = length w"
  by (simp add: set_header_eq)

lemma set_header_append: "6 \<le> length w \<Longrightarrow> set_header (set_header w @ x) = set_header (w @ x)"
  by (elim split6) (simp add: set_header_def overwrite_header overwrite_header_again)

lemma AppendFragment_nonempty:
  "whole \<noteq> [] \<Longrightarrow> 6 \<le> length f \<Longrightarrow> AppendFragment whole f = Inr (set_header (whole @ drop 6 f))"
  by (simp add: AppendFragment_def set_header_def layout_simps)

lemma MakeNextFragment_eq:
  assumes "6 \<le> length whole" "length whole < 2 ^ 32" "offset \<le> length whole - 6"
  shows "MakeNextFragment whole offset =
     (if 1018 < length whole - 6 - offset
      then Inr (frag_packet whole 0x60 (take 1018 (drop (6 + offset) whole)), offset + 1018)
      else Inr (frag_packet whole 0x40 (drop (6 + offset) whole), 0))"
proof -
  have "word_of_nat (length whole - 6) - word_of_nat offset = (word_of_nat (length whole - 6 - offset) :: u32)"
    using assms(3) by (simp only: of_nat_diff)
  then have todo: "unat (word_of_nat (length whole - 6) - word_of_nat offset :: u32) = length whole - 6 - offset"
    using assms(2) by (simp add: unat_of_nat take_bit_nat_eq_self)
  define n where "n = length whole - 6 - offset"
  have len: "length whole = 6 + offset + n" using assms by (simp add: n_def)
  have hdr: "overwrite 4 [x] (overwrite 2 (le16 (word_of_nat (k + 6))) (take 6 whole @ p))
      = take 2 whole @ le16 (word_of_nat (6 + k)) @ [x, byte_at whole 5] @ p" for x k p
    using assms(1) by (elim split6) (simp add: overwrite_header add.commute)
  have eq: "MakeNextFragment whole offset =
     (let more = (1018 < n); todo = (if more then 1018 else n);
          nextOffset = (if more then offset + todo else 0)
      in if length whole < 6 + offset + todo then Inl (UB ''read past the end of the whole packet'')
         else Inr (overwrite 4 [if nextOffset \<noteq> 0 then 0x60 else 0x40]
                 (overwrite 2 (le16 (word_of_nat (todo + 6))) (take 6 whole @ take todo (drop (6 + offset) whole))),
              nextOffset))"
    using assms(1) todo unfolding MakeNextFragment_def n_def layout_simps
    by (auto simp add: Let_def simp del: of_nat_diff of_nat_add)
  show ?thesis
    unfolding eq Let_def hdr n_def[symmetric] using len
    by (simp add: frag_packet_def hdr del: of_nat_add)
qed

primrec send_all :: "('a \<Rightarrow> ('s, unit) st) \<Rightarrow> 'a list \<Rightarrow> ('s, unit) st" where
  "send_all f [] = ret ()"
| "send_all f (x # xs) = bnd (f x) (\<lambda>_. send_all f xs)"

lemma frag_loop_sends:
  assumes "6 \<le> length whole" "length whole < 2 ^ 32" "offset \<le> length whole - 6" "length whole - offset \<le> fuel"
  shows "frag_loop SyncSend fuel whole offset = send_all SyncSend (fragments whole offset)"
  using assms
proof (induction fuel arbitrary: offset)
  case 0
  then show ?case by simp
next
  case (Suc fuel)
  show ?case
  proof (cases "1018 < length whole - 6 - offset")
    case True
    have "frag_loop SyncSend fuel whole (offset + 1018) = send_all SyncSend (fragments whole (offset + 1018))"
      using Suc True by (intro Suc.IH) simp_all
    then show ?thesis using Suc.prems True
      by (subst fragments.simps) (rule ext, simp add: MakeNextFragment_eq bnd_def)
  next
    case False
    then show ?thesis using Suc.prems
      by (subst fragments.simps) (rule ext, simp add: MakeNextFragment_eq bnd_def split: prod.splits sum.splits)
  qed
qed

lemma fragments_not_Nil [simp]: "fragments whole offset \<noteq> []" "[] \<noteq> fragments whole offset"
  by (subst fragments.simps, simp)+

lemma fragments_props:
  assumes "6 \<le> length whole"
  shows "(\<forall>f \<in> set (fragments whole offset). 6 \<le> length f \<and> length f \<le> 0x400 \<and> CheckSize f 5 = Inr ())
    \<and> (\<forall>f \<in> set (butlast (fragments whole offset)). byte_at f 4 = 0x60)
    \<and> byte_at (last (fragments whole offset)) 4 = 0x40
    \<and> concat (map (drop 6) (fragments whole offset)) = drop (6 + offset) whole"
  using assms
proof (induction whole offset rule: fragments.induct)
  case (1 whole offset)
  have f: "length (frag_packet whole c p) = 6 + length p" "byte_at (frag_packet whole c p) 4 = c"
      "drop 6 (frag_packet whole c p) = p" for c p
    using "1.prems" by (simp_all add: frag_packet_def)
  have ok: "CheckSize (frag_packet whole c p) 5 = Inr ()" if "length p \<le> 1018" for c p
    using "1.prems" that by (simp add: CheckSize_ok_iff packet_size_field_def layout_simps frag_packet_def)
  show ?case
  proof (cases "1018 < length whole - 6 - offset")
    case True
    define p where "p = take 1018 (drop (6 + offset) whole)"
    define r where "r = fragments whole (offset + 1018)"
    have eq: "fragments whole offset = frag_packet whole 0x60 p # r"
      using True by (subst fragments.simps) (simp add: p_def r_def)
    have ne: "r \<noteq> []" by (simp add: r_def)
    have len: "length p = 1018" using True by (simp add: p_def)
    note ih = "1.IH"[OF True "1.prems", folded r_def]
    have "p @ drop (6 + (offset + 1018)) whole = drop (6 + offset) whole"
      using append_take_drop_id[of 1018 "drop (6 + offset) whole"] by (simp add: p_def ac_simps)
    then have "concat (map (drop 6) (frag_packet whole 0x60 p # r)) = drop (6 + offset) whole"
      using ih by (simp only: list.map concat.simps f(3))
    moreover have "\<forall>x \<in> set (frag_packet whole 0x60 p # r). 6 \<le> length x \<and> length x \<le> 0x400 \<and> CheckSize x 5 = Inr ()"
    proof -
      have "\<forall>x \<in> set r. 6 \<le> length x \<and> length x \<le> 0x400 \<and> CheckSize x 5 = Inr ()" using ih by blast
      moreover have "CheckSize (frag_packet whole 0x60 p) 5 = Inr ()" by (rule ok) (simp add: len)
      ultimately show ?thesis by (simp add: f(1) len)
    qed
    moreover have "\<forall>x \<in> set (butlast (frag_packet whole 0x60 p # r)). byte_at x 4 = 0x60"
      using ih f(2)[of "0x60" p] ne by (metis butlast.simps(2) set_ConsD)
    moreover have "byte_at (last (frag_packet whole 0x60 p # r)) 4 = 0x40"
      using ih ne by (metis last_ConsR)
    ultimately show ?thesis unfolding eq by blast
  next
    case False
    then have "fragments whole offset = [frag_packet whole 0x40 (drop (6 + offset) whole)]"
      by (subst fragments.simps) simp
    then show ?thesis using f ok False by simp
  qed
qed


text \<open>
  A packet too long for one transfer is sent as fragments of at most 0x400 bytes that
  all pass the receiver's size check; all but the last are marked as fragments, and their
  payloads are the payload of the packet, cut in order. Shorter packets go out as they are,
  and anything that is no database packet is refused before anything is sent.
\<close>

theorem DBFragSend_spec:
  assumes "length whole < 2 ^ 32"
  shows "DBFragSend SyncSend whole =
     (if length whole < 5 \<or> byte_at whole 4 \<notin> {0x40, 0x41}
      then throw (LogicError ''Socket: unknown send data in DBFragSend()'')
      else if length whole \<le> 0x400 then SyncSend whole
      else send_all SyncSend (fragments whole 0))
   \<and> (0x400 < length whole \<longrightarrow>
      list_all (\<lambda>f. length f \<le> 0x400 \<and> CheckSize f 5 = Inr ()) (fragments whole 0)
      \<and> list_all (\<lambda>f. byte_at f 4 = 0x60) (butlast (fragments whole 0))
      \<and> byte_at (last (fragments whole 0)) 4 = 0x40
      \<and> concat (map (drop 6) (fragments whole 0)) = drop 6 whole)"
proof
  show "DBFragSend SyncSend whole =
     (if length whole < 5 \<or> byte_at whole 4 \<notin> {0x40, 0x41}
      then throw (LogicError ''Socket: unknown send data in DBFragSend()'')
      else if length whole \<le> 0x400 then SyncSend whole
      else send_all SyncSend (fragments whole 0))"
    using assms frag_loop_sends[of whole 0 "length whole" SyncSend]
    by (simp add: DBFragSend_def layout_simps)
  show "0x400 < length whole \<longrightarrow>
      list_all (\<lambda>f. length f \<le> 0x400 \<and> CheckSize f 5 = Inr ()) (fragments whole 0)
      \<and> list_all (\<lambda>f. byte_at f 4 = 0x60) (butlast (fragments whole 0))
      \<and> byte_at (last (fragments whole 0)) 4 = 0x40
      \<and> concat (map (drop 6) (fragments whole 0)) = drop 6 whole"
    using fragments_props[of whole 0] by (auto simp: list_all_iff)
qed

lemma DBFragSend_spec_witness:
  "DBFragSend (\<lambda>f. modify (\<lambda>sent. sent @ [length f])) ([0, 0, 0, 0, 0x40] @ replicate 2995 0)
   = send_all (\<lambda>f. modify (\<lambda>sent. sent @ [length f])) (fragments ([0, 0, 0, 0, 0x40] @ replicate 2995 0) 0)"
  using DBFragSend_spec[of "[0, 0, 0, 0, 0x40] @ replicate 2995 0" "\<lambda>f. modify (\<lambda>sent. sent @ [length f])"]
  by simp

section \<open>What a scripted device makes of the loops\<close>

text \<open>Packets that may come between the fragments: sequence packets and a few blanks.\<close>

definition gap_ok :: "bytes list \<Rightarrow> bool" where
  "gap_ok ns \<longleftrightarrow> list_all (\<lambda>n. n = [] \<or> CheckSize n 5 = Inr () \<and> byte_at n 4 = SB_COMMAND_SEQUENCE_HANDSHAKE) ns
     \<and> length (filter (\<lambda>n. n = []) ns) < 10"

definition loop_read :: "('s, bytes) st \<Rightarrow> nat \<Rightarrow> bool \<Rightarrow> nat \<Rightarrow> bytes \<Rightarrow> ('s, bytes) st" where
  "loop_read Receive fuel frag blankCount receive =
     bnd Receive (\<lambda>input. packet_loop Receive fuel frag blankCount (if frag then receive else input) input)"

definition transcript :: "(bytes list \<times> bytes) list \<Rightarrow> bytes list" where
  "transcript gfs = concat (map (\<lambda>(ns, f). ns @ [f]) gfs)"

text \<open>
  The interface the loops use: \<open>offers s xs\<close> says that in state \<open>s\<close> the next packets read
  are \<open>xs\<close>.
\<close>

locale packet_source =
  fixes Receive :: "('s, bytes) st" and offers :: "'s \<Rightarrow> bytes list \<Rightarrow> bool"
  assumes receive_offered: "offers s (x # xs) \<Longrightarrow> \<exists>s'. Receive s = (Inr x, s') \<and> offers s' xs"
begin

lemma loop_read_step:
  assumes "packet_round frag bc (if frag then acc else x) x = Inr (False, frag', acc', bc')" "offers s (x # rest)"
  shows "\<exists>s'. offers s' rest \<and> loop_read Receive (Suc fuel) frag bc acc s = loop_read Receive fuel frag' bc' acc' s'"
  using receive_offered[OF assms(2)] assms(1) by (auto simp: loop_read_def)

lemma loop_read_done:
  assumes "packet_round frag bc (if frag then acc else x) x = Inr (True, frag', acc', bc')" "offers s (x # rest)"
  shows "\<exists>s'. offers s' rest \<and> loop_read Receive (Suc fuel) frag bc acc s = (Inr acc', s')"
  using receive_offered[OF assms(2)] assms(1) by (auto simp: loop_read_def)

lemma loop_read_skip:
  assumes "packet_round frag bc (if frag then acc else x) x = Inr (False, frag, if frag then acc else x, bc')" "offers s (x # rest)"
  shows "\<exists>s'. offers s' rest \<and> loop_read Receive (Suc fuel) frag bc acc s = loop_read Receive fuel frag bc' acc s'"
  using loop_read_step[OF assms] by (cases frag) (simp_all add: loop_read_def)

lemma gap_skip:
  assumes "list_all (\<lambda>n. n = [] \<or> CheckSize n 5 = Inr () \<and> byte_at n 4 = SB_COMMAND_SEQUENCE_HANDSHAKE) ns"
    and "bc + length (filter (\<lambda>n. n = []) ns) < 10" and "offers s (ns @ rest)"
  shows "\<exists>bc' s'. offers s' rest
      \<and> loop_read Receive (length ns + fuel) frag bc acc s = loop_read Receive fuel frag bc' acc s'"
  using assms
proof (induction ns arbitrary: bc s)
  case (Cons n ns)
  have "\<exists>bc' s'. offers s' (ns @ rest) \<and> loop_read Receive (Suc (length ns + fuel)) frag bc acc s
      = loop_read Receive (length ns + fuel) frag bc' acc s' \<and> bc' + length (filter (\<lambda>n. n = []) ns) < 10"
  proof (cases "n = []")
    case True
    then have "packet_round frag bc (if frag then acc else n) n = Inr (False, frag, if frag then acc else n, Suc bc)"
      using Cons.prems(2) by (simp add: packet_round_def)
    from loop_read_skip[OF this] show ?thesis using Cons.prems True by fastforce
  next
    case False
    then have "packet_round frag bc (if frag then acc else n) n = Inr (False, frag, if frag then acc else n, 0)"
      using Cons.prems(1) by (simp add: packet_round_def layout_simps)
    from loop_read_skip[OF this] show ?thesis using Cons.prems False by fastforce
  qed
  then obtain bc' s' where "offers s' (ns @ rest)" "bc' + length (filter (\<lambda>n. n = []) ns) < 10"
    "loop_read Receive (Suc (length ns + fuel)) frag bc acc s = loop_read Receive (length ns + fuel) frag bc' acc s'"
    by blast
  then show ?case using Cons.IH[of bc' s'] Cons.prems(1) by simp
qed auto

lemma reassemble_more:
  assumes "gfs \<noteq> []" "\<forall>(ns, f) \<in> set gfs. gap_ok ns \<and> 6 \<le> length f \<and> CheckSize f 5 = Inr ()"
    and "\<forall>f \<in> set (butlast (map snd gfs)). byte_at f 4 = 0x60" "byte_at (last (map snd gfs)) 4 = 0x40"
    and "6 \<le> length acc" "offers s (transcript gfs @ rest)"
  shows "\<exists>s'. offers s' rest \<and> loop_read Receive (length (transcript gfs) + k) True 0 acc s
       = (Inr (set_header (acc @ concat (map (drop 6 \<circ> snd) gfs))), s')"
  using assms
proof (induction gfs arbitrary: acc s)
  case (Cons gf gfs)
  obtain ns f where gf: "gf = (ns, f)" by (cases gf)
  have ok: "gap_ok ns" "6 \<le> length f" "CheckSize f 5 = Inr ()" using Cons.prems(2) by (auto simp: gf)
  define t where "t = transcript gfs"
  have tr: "transcript (gf # gfs) = ns @ f # t" by (simp add: transcript_def t_def gf)
  obtain bc s1 where s1: "offers s1 (f # t @ rest)"
    and skip: "loop_read Receive (length ns + Suc (length t + k)) True 0 acc s
       = loop_read Receive (Suc (length t + k)) True bc acc s1"
    using gap_skip[of ns 0 s "f # t @ rest" "Suc (length t + k)" True acc] ok(1) Cons.prems(6)
    by (auto simp: gap_ok_def tr)
  have app: "AppendFragment acc f = Inr (set_header (acc @ drop 6 f))"
    using Cons.prems(5) ok(2) by (intro AppendFragment_nonempty) auto
  have cmd: "f \<noteq> []" "CheckSize f (5::nat) = Inr ()" using ok by auto
  have fuel: "length (transcript (gf # gfs)) + k = length ns + Suc (length t + k)" by (simp add: tr)
  show ?case
  proof (cases "gfs = []")
    case True
    then have "packet_round True bc acc f = Inr (True, True, set_header (acc @ drop 6 f), 0)"
      using Cons.prems(4) cmd app by (simp add: packet_round_def layout_simps gf)
    then show ?thesis using skip loop_read_done[of True bc acc f True _ 0 s1 "t @ rest"] s1 True
      unfolding fuel by (simp add: gf t_def transcript_def)
  next
    case False
    then have "packet_round True bc acc f = Inr (False, True, set_header (acc @ drop 6 f), 0)"
      using Cons.prems(3) cmd app by (simp add: packet_round_def layout_simps gf)
    then obtain s2 where s2: "offers s2 (t @ rest)"
        "loop_read Receive (Suc (length t + k)) True bc acc s1 = loop_read Receive (length t + k) True 0 (set_header (acc @ drop 6 f)) s2"
      using loop_read_step[of True bc acc f True "set_header (acc @ drop 6 f)" 0 s1 "t @ rest" "length t + k"] s1 by auto
    have "\<exists>s'. offers s' rest \<and> loop_read Receive (length t + k) True 0 (set_header (acc @ drop 6 f)) s2
        = (Inr (set_header (set_header (acc @ drop 6 f) @ concat (map (drop 6 \<circ> snd) gfs))), s')"
      unfolding t_def using Cons.prems False s2(1) by (intro Cons.IH) (auto simp: t_def)
    moreover have "set_header (set_header (acc @ drop 6 f) @ concat (map (drop 6 \<circ> snd) gfs))
        = set_header (acc @ concat (map (drop 6 \<circ> snd) (gf # gfs)))"
      using Cons.prems(5) by (simp add: set_header_append gf)
    ultimately show ?thesis unfolding fuel skip s2(2) by (simp add: comp_def)
  qed
qed simp

lemma reassemble:
  assumes "6 \<le> length whole" "map snd gfs = fragments whole 0" "list_all gap_ok (map fst gfs)"
    and "offers s (transcript gfs @ rest)"
  shows "\<exists>s'. offers s' rest \<and> loop_read Receive (length (transcript gfs) + k) False 0 acc s = (Inr (set_header whole), s')"
proof -
  obtain ns f gfs' where g: "gfs = (ns, f) # gfs'"
    using assms(2) fragments_not_Nil by (cases gfs) (metis list.map(1), metis prod.exhaust)
  note props = fragments_props[OF assms(1), of 0, folded assms(2)]
  have ok: "gap_ok ns" "6 \<le> length f" "CheckSize f 5 = Inr ()" using props assms(3) by (auto simp: g)
  define t where "t = transcript gfs'"
  have tr: "transcript gfs = ns @ f # t" by (simp add: transcript_def t_def g)
  have fuel: "length (transcript gfs) + k = length ns + Suc (length t + k)" by (simp add: tr)
  obtain bc s1 where s1: "offers s1 (f # t @ rest)"
    and skip: "loop_read Receive (length ns + Suc (length t + k)) False 0 acc s
       = loop_read Receive (Suc (length t + k)) False bc acc s1"
    using gap_skip[of ns 0 s "f # t @ rest" "Suc (length t + k)" False acc] ok(1) assms(4)
    by (auto simp: gap_ok_def tr)
  have first: "\<exists>c p. f = frag_packet whole c p \<and> c = (if gfs' = [] then 0x40 else 0x60)"
    using assms(2) by (subst (asm) fragments.simps) (auto simp: g split: if_splits)
  have hd6: "set_header (f @ concat (map (drop 6 \<circ> snd) gfs')) = set_header whole"
  proof -
    have "concat (map (drop 6) (map snd gfs)) = drop 6 whole" using props by simp
    then have "drop 6 f @ concat (map (drop 6 \<circ> snd) gfs') = drop 6 whole" by (simp add: g)
    moreover obtain c p where fc: "f = frag_packet whole c p" using first by blast
    moreover obtain a b cc d e ff tt where w: "whole = a # b # cc # d # e # ff # tt" using assms(1) by (rule split6)
    ultimately show ?thesis
      by (simp add: set_header_eq frag_packet_def w)
  qed
  show ?thesis
  proof (cases "gfs' = []")
    case True
    then obtain p where fp: "f = frag_packet whole 0x40 p" using first by auto
    have "set_header f = f" using assms(1) by (elim split6) (simp add: set_header_eq fp frag_packet_def)
    then have "f = set_header whole" using hd6 True by simp
    moreover have "packet_round False bc f f = Inr (True, False, f, 0)"
      using ok props True by (auto simp: packet_round_def layout_simps g)
    ultimately show ?thesis using skip loop_read_done[of False bc acc f False f 0 s1 "t @ rest"] s1 True
      unfolding fuel by (simp add: t_def transcript_def)
  next
    case False
    then have cmd: "byte_at f 4 = 0x60" using props by (simp add: g)
    have "packet_round False bc f f = Inr (False, True, f, 0)"
      using ok cmd by (auto simp: packet_round_def layout_simps)
    then obtain s2 where s2: "offers s2 (t @ rest)"
        "loop_read Receive (Suc (length t + k)) False bc acc s1 = loop_read Receive (length t + k) True 0 f s2"
      using loop_read_step[of False bc acc f True f 0 s1 "t @ rest" "length t + k"] s1 by auto
    have "\<exists>s'. offers s' rest \<and> loop_read Receive (length t + k) True 0 f s2
        = (Inr (set_header (f @ concat (map (drop 6 \<circ> snd) gfs'))), s')"
      unfolding t_def using props assms(3) False ok(2) s2(1)
      by (intro reassemble_more) (auto simp: g list_all_iff t_def)
    then show ?thesis unfolding fuel skip s2(2) hd6 .
  qed
qed

end

section \<open>The limits of the packet loop\<close>

text \<open>
  One round of Packet reaches undefined behaviour exactly when a fragment has been
  received and the device then sends a well-formed packet of exactly five bytes marked as
  data or fragment: it passes the size check for the five header bytes, but the fragment
  header has six, and the payload size becomes -1. No other input does.
\<close>

theorem packet_round_undefined:
  "packet_round frag blanks receive input = Inl (UB e) \<longleftrightarrow>
     frag \<and> receive \<noteq> [] \<and> length input = 5 \<and> packet_size_field input = 5
     \<and> (byte_at input 4 = 0x40 \<or> byte_at input 4 = 0x60) \<and> e = ''memcpy with a negative size''"
  by (auto simp: packet_round_def AppendFragment_def rbind_eq_Inl rbind_eq_Inr CheckSize_def Let_def layout_simps
      packet_size_field_def split: if_splits)

lemma packet_round_blank:
  "packet_round frag blanks receive [] =
     (if blanks = 9 then Inl (BarryError ''Socket: 10 blank packets received'') else Inr (False, frag, receive, Suc blanks))"
  by (simp add: packet_round_def)

lemma packet_round_done_after_fragment:
  "CheckSize input 5 = Inr () \<Longrightarrow> byte_at input 4 = 0x41 \<Longrightarrow> packet_round True blanks receive input = Inr (True, True, receive, 0)"
  using CheckSize_Inr_length[of input 5 "()"] by (cases input) (auto simp: packet_round_def layout_simps)

end
