(* ===== verification/Socket.thy ===== *)
theory Socket imports Socket_Base Router begin

text \<open>
  SocketZero and Socket (src/src/socket.cc, src/src/socket.h): the raw transfers, the
  sequence numbers, the open handshake with its password exchange, and close. The objects
  work on the router of theory Router; the USB traffic that arrives while a read waits is
  part of the state.
\<close>

section \<open>State\<close>

text \<open>
  The last three fields are the environment: what the USB side delivers during each read
  that waits (a round of the read thread per element), the faults of the coming writes
  (none if the list is used up), and everything written so far.
\<close>

record zero =
  z_dev :: bool
  z_queue :: "router option"
  m_zeroSocketSequence :: byte
  m_sequenceId :: u32
  m_halfOpen :: bool
  m_challengeSeed :: u32
  m_remainingTries :: nat
  m_modeSequencePacketSeen :: bool
  m_pushback_buffer :: bytes
  m_pushback :: bool
  arrivals :: "usb_result list list"
  write_faults :: "exn option list"
  sent :: "bytes list"

record sock =
  m_socket :: u16
  m_closeFlag :: byte
  m_registered :: bool
  m_sequence :: bytes
  m_resetOnClose :: bool

record conn =
  sk :: sock
  zr :: zero

abbreviation on_zero :: "(zero, 'a) st \<Rightarrow> (conn, 'a) st" where
  "on_zero m \<equiv> zoom zr zr_update m"

section \<open>Raw transfers\<close>

definition BulkWrite :: "bytes \<Rightarrow> (zero, unit) st" where
  "BulkWrite bs z =
     (case write_faults z of
        Some e # fs \<Rightarrow> (Inl e, z\<lparr>write_faults := fs\<rparr>)
      | fs \<Rightarrow> (Inr (), z\<lparr>write_faults := tl fs, sent := sent z @ [bs]\<rparr>))"

definition zero_has_device :: "zero \<Rightarrow> bool" where
  "zero_has_device z = (case z_queue z of Some r \<Rightarrow> m_dev r \<noteq> None | None \<Rightarrow> z_dev z)"

definition Zero_RawSend :: "bytes \<Rightarrow> (zero, unit) st" where
  "Zero_RawSend bs =
     bnd (gets zero_has_device) (\<lambda>dev.
       if \<not> dev then throw (BarryError ''SocketZero: No device available for RawSend'')
       else bnd (exec_if (length bs mod 0x40 = 0) (BulkWrite (le16 (word_of_nat (length bs)) @ [0])))
              (\<lambda>_. BulkWrite bs))"

text \<open>A wait on the queue: the read thread handles what arrives meanwhile.\<close>

definition wait_arrivals :: "handlers \<Rightarrow> zero \<Rightarrow> router \<Rightarrow> router \<times> zero" where
  "wait_arrivals h z r =
     (case arrivals z of
        [] \<Rightarrow> (r, z)
      | chunk # rest \<Rightarrow> (SimpleReadThread_rounds h chunk r, z\<lparr>arrivals := rest\<rparr>))"

text \<open>BulkRead without a queue: the first thing that arrives; its return value is ignored.\<close>

definition direct_read :: "(zero, bytes) st" where
  "direct_read z =
     (case arrivals z of
        [] \<Rightarrow> (Inl UsbTimeout, z)
      | chunk # rest \<Rightarrow>
          (case chunk of
             [] \<Rightarrow> (Inl UsbTimeout, z\<lparr>arrivals := rest\<rparr>)
           | UsbData bs # _ \<Rightarrow> (Inr bs, z\<lparr>arrivals := rest\<rparr>)
           | UsbFalse bs # _ \<Rightarrow> (Inr bs, z\<lparr>arrivals := rest\<rparr>)
           | UsbTimeoutThrown # _ \<Rightarrow> (Inl UsbTimeout, z\<lparr>arrivals := rest\<rparr>)
           | UsbErrorThrown # _ \<Rightarrow> (Inl UsbError, z\<lparr>arrivals := rest\<rparr>)))"

text \<open>The handle of the buffer that was read is destroyed after the copy.\<close>

definition RawReceive :: "handlers \<Rightarrow> (zero, bytes) st" where
  "RawReceive h z =
     (if m_pushback z then (Inr (m_pushback_buffer z), z\<lparr>m_pushback := False\<rparr>)
      else case z_queue z of
        Some r \<Rightarrow>
          let (r1, z1) = wait_arrivals h z r
          in (case DefaultRead r1 of
                (None, r2) \<Rightarrow> (Inl UsbTimeout, z1\<lparr>z_queue := Some r2\<rparr>)
              | (Some b, r2) \<Rightarrow> (Inr (snd b), z1\<lparr>z_queue := Some (ReturnBuffer b r2)\<rparr>))
      | None \<Rightarrow> direct_read z)"

definition Pushback :: "bytes \<Rightarrow> (zero, unit) st" where
  "Pushback buf =
     bnd (gets m_pushback) (\<lambda>p.
       if p then throw (BarryError ''Multiple pushbacks in SocketZero!'')
       else modify (\<lambda>z. z\<lparr>m_pushback := True, m_pushback_buffer := buf\<rparr>))"

definition Zero_CheckSequence :: "u16 \<Rightarrow> bytes \<Rightarrow> (zero, unit) st" where
  "Zero_CheckSequence socket seq =
     (if length seq < SB_SEQUENCE_PACKET_SIZE then throw (BarryError ''Socket: invalid sequence packet'')
      else
        let sequenceId = get32 seq off_u_sequence_sequenceId
        in bnd (if sequenceId = 0 then modify (\<lambda>z. z\<lparr>m_sequenceId := 0\<rparr>)
                else bnd (gets m_sequenceId) (\<lambda>expected.
                  if sequenceId \<noteq> expected \<and> socket \<noteq> 0
                  then throw (BarryError ''Socket: out of sequence.'') else ret ()))
             (\<lambda>_. modify (\<lambda>z. z\<lparr>m_sequenceId := m_sequenceId z + 1\<rparr>)))"

section \<open>Socket 0\<close>

definition Zero_Send :: "bytes \<Rightarrow> (zero, unit) st" where
  "Zero_Send bs =
     bnd (gets m_zeroSocketSequence) (\<lambda>q.
       if SB_SOCKET_PACKET_HEADER_SIZE \<le> length bs
       then bnd (modify (\<lambda>z. z\<lparr>m_zeroSocketSequence := q + 1\<rparr>)) (\<lambda>_.
              Zero_RawSend (overwrite off_u_socket_sequence [q] (overwrite 0 (le16 0) bs)))
       else Zero_RawSend bs)"

definition Zero_Send_receive :: "handlers \<Rightarrow> bytes \<Rightarrow> (zero, bytes) st" where
  "Zero_Send_receive h bs = bnd (Zero_Send bs) (\<lambda>_. RawReceive h)"

definition socket_command :: "byte \<Rightarrow> u16 \<Rightarrow> byte \<Rightarrow> bytes" where
  "socket_command command socket flag =
     le16 0 @ le16 (word_of_nat SB_SOCKET_PACKET_HEADER_SIZE) @ [command] @ le16 socket @ [flag]"

definition SendOpen :: "handlers \<Rightarrow> u16 \<Rightarrow> (zero, bytes) st" where
  "SendOpen h socket =
     bnd (gets m_zeroSocketSequence) (\<lambda>q.
     bnd (Zero_RawSend (socket_command SB_COMMAND_OPEN_SOCKET socket q)) (\<lambda>_.
     bnd (RawReceive h) (\<lambda>receive.
       if IsSequencePacket receive
       then bnd (modify (\<lambda>z. z\<lparr>m_modeSequencePacketSeen := True\<rparr>)) (\<lambda>_. RawReceive h)
       else ret receive)))"

text \<open>\<open>sha1\<close> is the SHA1 function of src/src/sha1.cc.\<close>

definition password_command :: "(bytes \<Rightarrow> bytes) \<Rightarrow> u16 \<Rightarrow> byte \<Rightarrow> u32 \<Rightarrow> bytes \<Rightarrow> bytes" where
  "password_command sha1 socket q seed password =
     le16 0 @ le16 (word_of_nat (SB_SOCKET_PACKET_HEADER_SIZE + PASSWORD_CHALLENGE_SIZE)) @ [SB_COMMAND_PASSWORD]
     @ le16 socket @ [q] @ [0, 0] @ le16 0x14 @ take 20 (sha1 (le32 seed @ sha1 password))"

definition SendPasswordHash :: "handlers \<Rightarrow> (bytes \<Rightarrow> bytes) \<Rightarrow> u16 \<Rightarrow> bytes \<Rightarrow> (zero, bytes) st" where
  "SendPasswordHash h sha1 socket password =
     bnd (gets m_challengeSeed) (\<lambda>seed.
     bnd (gets m_zeroSocketSequence) (\<lambda>q.
     bnd (Zero_RawSend (password_command sha1 socket q seed (c_str password))) (\<lambda>_.
     bnd (RawReceive h) (\<lambda>receive.
       if IsSequencePacket receive
       then bnd (modify (\<lambda>z. z\<lparr>m_modeSequencePacketSeen := True\<rparr>)) (\<lambda>_.
            bnd (Zero_CheckSequence 0 receive) (\<lambda>_. RawReceive h))
       else ret receive))))"

section \<open>Socket\<close>

definition Socket_Receive :: "handlers \<Rightarrow> (conn, bytes) st" where
  "Socket_Receive h c =
     (if m_registered (sk c)
      then case z_queue (zr c) of
        Some r \<Rightarrow>
          let (r1, z1) = wait_arrivals h (zr c) r
          in (case SocketRead (m_socket (sk c)) r1 of
                Inl e \<Rightarrow> (Inl e, c\<lparr>zr := z1\<lparr>z_queue := Some r1\<rparr>\<rparr>)
              | Inr (None, r2) \<Rightarrow> (Inl UsbTimeout, c\<lparr>zr := z1\<lparr>z_queue := Some r2\<rparr>\<rparr>)
              | Inr (Some b, r2) \<Rightarrow> (Inr (snd b), c\<lparr>zr := z1\<lparr>z_queue := Some (ReturnBuffer b r2)\<rparr>\<rparr>))
      | None \<Rightarrow> (Inl (LogicError ''NULL queue pointer in a registered socket read.''), c)
      else on_zero (RawReceive h) c)"

definition Socket_RawSend :: "bytes \<Rightarrow> (conn, unit) st" where
  "Socket_RawSend bs =
     bnd (gets (m_socket \<circ> sk)) (\<lambda>s.
       on_zero (Zero_RawSend (if SB_PACKET_HEADER_SIZE \<le> length bs then overwrite 0 (le16 s) bs else bs)))"

text \<open>SocketBase::CheckSequence, which SyncSend calls last, has an empty body.\<close>

definition Socket_SyncSend :: "handlers \<Rightarrow> bytes \<Rightarrow> (conn, unit) st" where
  "Socket_SyncSend h bs =
     bnd (Socket_RawSend bs) (\<lambda>_.
     bnd (Socket_Receive h) (\<lambda>receive.
     bnd (modify (\<lambda>c. c\<lparr>sk := (sk c)\<lparr>m_sequence := receive\<rparr>\<rparr>)) (\<lambda>_.
       if \<not> IsSequencePacket receive
       then throw (BarryError ''Non-sequence packet in Socket::SyncSend()'') else ret ())))"

text \<open>Code that works on the router, if there is one.\<close>

definition with_queue :: "(router \<Rightarrow> router res) \<Rightarrow> (conn, unit) st" where
  "with_queue f c =
     (case z_queue (zr c) of
        None \<Rightarrow> (Inr (), c)
      | Some r \<Rightarrow> (case f r of Inl e \<Rightarrow> (Inl e, c) | Inr r' \<Rightarrow> (Inr (), c\<lparr>zr := (zr c)\<lparr>z_queue := Some r'\<rparr>\<rparr>)))"

definition set_registered :: "bool \<Rightarrow> (conn, unit) st" where
  "set_registered b = modify (\<lambda>c. c\<lparr>sk := (sk c)\<lparr>m_registered := b\<rparr>\<rparr>)"

definition Socket_RegisterInterest :: "handler option \<Rightarrow> (conn, unit) st" where
  "Socket_RegisterInterest handler =
     bnd (gets id) (\<lambda>c.
       if z_queue (zr c) = None
       then throw (LogicError ''SocketRoutingQueue required in SocketZero in order to call Socket::RegisterInterest()'')
       else if m_registered (sk c)
       then throw (LogicError ''Socket already registered in Socket::RegisterInterest()!'')
       else bnd (with_queue (RegisterInterest (m_socket (sk c)) handler)) (\<lambda>_. set_registered True))"

definition LocalUnregisterInterest :: "(conn, unit) st" where
  "LocalUnregisterInterest =
     bnd (gets sk) (\<lambda>s.
       exec_if (m_registered s)
         (bnd (with_queue (\<lambda>r. Inr (UnregisterInterest (m_socket s) r))) (\<lambda>_. set_registered False)))"

definition Opening :: "handler option \<Rightarrow> (conn, unit) st" where
  "Opening handler =
     bnd (gets id) (\<lambda>c.
       exec_if (z_queue (zr c) \<noteq> None)
         (bnd (with_queue (RegisterInterestAndType (m_socket (sk c)) handler DataPackets)) (\<lambda>_. set_registered True)))"

definition Opened :: "(conn, unit) st" where
  "Opened =
     bnd (gets id) (\<lambda>c.
       exec_if (z_queue (zr c) \<noteq> None)
         (if \<not> m_registered (sk c)
          then throw (LogicError ''Socket not previously registered in Socket::Opened()!'')
          else with_queue (ChangeInterest (m_socket (sk c)) SequenceAndDataPackets)))"

definition ForceClosed :: "(conn, unit) st" where
  "ForceClosed = modify (\<lambda>c. c\<lparr>sk := (sk c)\<lparr>m_socket := 0, m_closeFlag := 0\<rparr>\<rparr>)"

section \<open>Close\<close>

definition Zero_Close :: "handlers \<Rightarrow> (conn, unit) st" where
  "Zero_Close h =
     bnd (gets sk) (\<lambda>s.
       if m_socket s = 0 then ret ()
       else
         bnd (catch (on_zero (Zero_Send_receive h (socket_command SB_COMMAND_CLOSE_SOCKET (m_socket s) (m_closeFlag s))))
                (\<lambda>e. if e = UsbError \<or> e = UsbTimeout then bnd ForceClosed (\<lambda>_. throw e) else throw e)) (\<lambda>response.
         bnd (if IsSequencePacket response
              then on_zero (bnd (Zero_CheckSequence 0 response) (\<lambda>_. RawReceive h))
              else ret response) (\<lambda>response.
         bnd (lift (CheckSize response SB_SOCKET_PACKET_HEADER_SIZE)) (\<lambda>_.
         let command = byte_at response off_command
         in if (command \<noteq> SB_COMMAND_CLOSED_SOCKET \<and> command \<noteq> SB_COMMAND_REMOTE_CLOSE_SOCKET)
              \<or> get16 response off_u_socket_socket \<noteq> m_socket s
              \<or> byte_at response off_u_socket_sequence \<noteq> m_closeFlag s
            then bnd ForceClosed (\<lambda>_. throw (BadPacket command ''Socket: Bad CLOSED packet in Close''))
            else
              bnd (exec_if (m_resetOnClose s)
                (bnd (lift (Reset Data_default)) (\<lambda>packet.
                 bnd (on_zero (Zero_Send_receive h (contents packet))) (\<lambda>receive.
                 bnd (lift (CommandResponse receive)) (\<lambda>reply.
                   if reply \<noteq> SB_COMMAND_RESET_REPLY
                   then throw (BadPacket reply ''Socket: Missing RESET_REPLY in Close'') else ret ())))))
                (\<lambda>_. ForceClosed)))))"

definition LocalClose :: "handlers \<Rightarrow> (conn, unit) st" where
  "LocalClose h = bnd LocalUnregisterInterest (\<lambda>_. Zero_Close h)"

section \<open>Open\<close>

definition BARRY_MIN_PASSWORD_TRIES :: nat where "BARRY_MIN_PASSWORD_TRIES = 3"

definition few_tries_text :: string where
  "few_tries_text = ''Fewer than 3 password tries remaining in device. Refusing to proceed, to avoid device ''
     @ ''zapping itself.  Use a Windows client, or re-cradle the device.''"

definition store_challenge :: "bytes \<Rightarrow> (zero, unit) st" where
  "store_challenge receive =
     bnd (modify (\<lambda>z. z\<lparr>m_halfOpen := True\<rparr>)) (\<lambda>_.
     bnd (lift (ChallengeSeed receive)) (\<lambda>seed.
     bnd (modify (\<lambda>z. z\<lparr>m_challengeSeed := seed\<rparr>)) (\<lambda>_.
     bnd (lift (RemainingTries receive)) (\<lambda>tries.
       modify (\<lambda>z. z\<lparr>m_remainingTries := unat tries\<rparr>)))))"

definition open_start :: "handlers \<Rightarrow> u16 \<Rightarrow> (zero, bytes) st" where
  "open_start h socket =
     bnd (modify (\<lambda>z. z\<lparr>m_remainingTries := 0, m_modeSequencePacketSeen := False\<rparr>)) (\<lambda>_.
     bnd (SendOpen h socket) (\<lambda>receive.
     bnd (lift (Packet_Command receive)) (\<lambda>command.
     bnd (exec_if (command = SB_COMMAND_PASSWORD_CHALLENGE) (store_challenge receive)) (\<lambda>_.
       ret receive))))"

definition open_password :: "handlers \<Rightarrow> (bytes \<Rightarrow> bytes) \<Rightarrow> u16 \<Rightarrow> bytes option \<Rightarrow> (zero, bytes \<times> byte) st" where
  "open_password h sha1 socket password =
     bnd (gets m_remainingTries) (\<lambda>tries.
       case password of
         None \<Rightarrow> throw (BadPassword ''No password specified.'' tries False)
       | Some pw \<Rightarrow>
           if tries < BARRY_MIN_PASSWORD_TRIES
           then throw (BadPassword few_tries_text tries True)
           else
             bnd (gets m_zeroSocketSequence) (\<lambda>closeFlag.
             bnd (SendPasswordHash h sha1 socket pw) (\<lambda>receive.
             bnd (lift (Packet_Command receive)) (\<lambda>command.
               if command = SB_COMMAND_PASSWORD_FAILED
               then bnd (store_challenge receive) (\<lambda>_.
                    bnd (gets m_remainingTries) (\<lambda>tries.
                      throw (BadPassword ''Password rejected by device.'' tries False)))
               else bnd (modify (\<lambda>z. z\<lparr>m_halfOpen := False\<rparr>)) (\<lambda>_. ret (receive, closeFlag))))))"

definition open_check :: "u16 \<Rightarrow> byte \<Rightarrow> bytes \<Rightarrow> unit res" where
  "open_check socket closeFlag receive =
     rbind (Packet_Command receive) (\<lambda>command.
       if command = SB_COMMAND_CLOSE_SOCKET then Inl SocketCloseOnOpen
       else if command \<noteq> SB_COMMAND_OPENED_SOCKET
       then Inl (BarryError ''Socket: Bad OPENED packet in Open'')
       else rbind (SocketResponse receive) (\<lambda>response.
         if response \<noteq> socket then Inl (BarryError ''Socket: Bad OPENED packet in Open'')
         else rbind (SocketSequence receive) (\<lambda>q.
           if q \<noteq> closeFlag then Inl (BarryError ''Socket: Bad OPENED packet in Open'') else Inr ())))"

definition open_await_sequence :: "handlers \<Rightarrow> (zero, unit) st" where
  "open_await_sequence h =
     bnd (gets m_modeSequencePacketSeen) (\<lambda>seen.
       exec_if (\<not> seen)
         (bnd (RawReceive h) (\<lambda>sequence.
            exec_if (\<not> IsSequencePacket sequence)
              (bnd (RawReceive h) (\<lambda>late_sequence.
                 if \<not> IsSequencePacket late_sequence
                 then throw (BarryError ''Could not find mode's starting sequence packet'')
                 else Pushback sequence)))))"

definition Open_body :: "handlers \<Rightarrow> (bytes \<Rightarrow> bytes) \<Rightarrow> handler option \<Rightarrow> u16 \<Rightarrow> bytes option \<Rightarrow> (conn, unit) st" where
  "Open_body h sha1 handler socket password =
     bnd (gets (m_zeroSocketSequence \<circ> zr)) (\<lambda>closeFlag.
     bnd (Opening handler) (\<lambda>_.
     bnd (gets (m_halfOpen \<circ> zr)) (\<lambda>half.
     bnd (if \<not> half then on_zero (open_start h socket) else ret []) (\<lambda>receive.
     bnd (gets (m_halfOpen \<circ> zr)) (\<lambda>half.
     bnd (if half then on_zero (open_password h sha1 socket password) else ret (receive, closeFlag)) (\<lambda>(receive, closeFlag).
     bnd (lift (open_check socket closeFlag receive)) (\<lambda>_.
     bnd (on_zero (open_await_sequence h)) (\<lambda>_. Opened))))))))"

text \<open>
  When Open throws, the socket handle is destroyed: the destructor closes the socket and
  drops any runtime_error of that; a logic_error would end the program.
\<close>

definition Socket_destroy :: "handlers \<Rightarrow> (conn, unit) st" where
  "Socket_destroy h =
     catch (LocalClose h) (\<lambda>e. case e of
         LogicError m \<Rightarrow> throw (UB ''exception leaves a destructor'')
       | UB m \<Rightarrow> throw (UB m)
       | _ \<Rightarrow> ret ())"

definition Socket_new :: "u16 \<Rightarrow> byte \<Rightarrow> sock" where
  "Socket_new socket closeFlag = \<lparr>m_socket = socket, m_closeFlag = closeFlag, m_registered = False,
     m_sequence = [], m_resetOnClose = False\<rparr>"

definition Open :: "handlers \<Rightarrow> (bytes \<Rightarrow> bytes) \<Rightarrow> handler option \<Rightarrow> u16 \<Rightarrow> bytes option \<Rightarrow> (zero, sock) st" where
  "Open h sha1 handler socket password z =
     (let c0 = \<lparr>sk = Socket_new socket (m_zeroSocketSequence z), zr = z\<rparr>
      in (case Open_body h sha1 handler socket password c0 of
            (Inr _, c1) \<Rightarrow> (Inr (sk c1), zr c1)
          | (Inl e, c1) \<Rightarrow>
              (case Socket_destroy h c1 of
                 (Inl e', c2) \<Rightarrow> (Inl e', zr c2)
               | (Inr _, c2) \<Rightarrow> (Inl e, zr c2))))"


section \<open>Sockets as packet sources\<close>

text \<open>
  What a registered socket will read: its queue in the router, when nothing else arrives.
  An unregistered one, and socket 0, read the default queue.
\<close>

definition sock_offers :: "conn \<Rightarrow> bytes list \<Rightarrow> bool" where
  "sock_offers c xs \<longleftrightarrow> m_registered (sk c) \<and> arrivals (zr c) = []
     \<and> (case z_queue (zr c) of None \<Rightarrow> False
        | Some r \<Rightarrow> shape_ok r \<and> (case map_of (m_socketQueues r) (m_socket (sk c)) of None \<Rightarrow> False
             | Some qe \<Rightarrow> map snd (qe_queue qe) = xs))"

definition zero_offers :: "zero \<Rightarrow> bytes list \<Rightarrow> bool" where
  "zero_offers z xs \<longleftrightarrow> \<not> m_pushback z \<and> arrivals z = []
     \<and> (case z_queue z of None \<Rightarrow> False | Some r \<Rightarrow> map snd (m_default r) = xs)"

lemma Socket_Receive_offered:
  assumes "sock_offers c (x # xs)" shows "\<exists>c'. Socket_Receive h c = (Inr x, c') \<and> sock_offers c' xs
    \<and> write_faults (zr c') = write_faults (zr c) \<and> sent (zr c') = sent (zr c) \<and> sk c' = sk c
    \<and> zero_has_device (zr c') = zero_has_device (zr c)"
proof -
  obtain r qe where r: "z_queue (zr c) = Some r" "shape_ok r" "m_registered (sk c)" "arrivals (zr c) = []"
      "map_of (m_socketQueues r) (m_socket (sk c)) = Some qe" "map snd (qe_queue qe) = x # xs"
    using assms by (auto simp: sock_offers_def split: option.splits)
  obtain a q where q: "qe_queue qe = (a, x) # q" "map snd q = xs" using r(6) by (cases "qe_queue qe") auto
  have "m_socketQueues r \<noteq> []" using r(5) by auto
  then show ?thesis
    using r q by (simp add: Socket_Receive_def wait_arrivals_def SocketRead_def sock_offers_def ReturnBuffer_def
        shape_ok_def zero_has_device_def)
qed

lemma RawReceive_offered:
  assumes "zero_offers z (x # xs)" shows "\<exists>z'. RawReceive h z = (Inr x, z') \<and> zero_offers z' xs"
proof -
  obtain r where r: "z_queue z = Some r" "\<not> m_pushback z" "arrivals z = []" "map snd (m_default r) = x # xs"
    using assms by (auto simp: zero_offers_def split: option.splits)
  obtain a q where "m_default r = (a, x) # q" "map snd q = xs" using r(4) by (cases "m_default r") auto
  then show ?thesis
    using r by (simp add: RawReceive_def wait_arrivals_def DefaultRead_def zero_offers_def ReturnBuffer_def)
qed

interpretation socket_source: packet_source "Socket_Receive h" sock_offers
  by unfold_locales (use Socket_Receive_offered in blast)

interpretation zero_source: packet_source "RawReceive h" zero_offers
  by unfold_locales (rule RawReceive_offered)

text \<open>Sending on a working connection only adds to what was written.\<close>

definition can_write :: "conn \<Rightarrow> bool" where
  "can_write c \<longleftrightarrow> zero_has_device (zr c) \<and> write_faults (zr c) = []"

definition on_wire :: "u16 \<Rightarrow> bytes \<Rightarrow> bytes list" where
  "on_wire s bs = (let p = (if 5 \<le> length bs then overwrite 0 (le16 s) bs else bs)
     in (if length bs mod 0x40 = 0 then [le16 (word_of_nat (length bs)) @ [0]] else []) @ [p])"

lemma length_overwrite [simp]: "length (overwrite i ws bs) = length bs"
  by (induction ws arbitrary: i bs) (simp_all add: overwrite.simps)

lemma Zero_RawSend_ok:
  assumes "zero_has_device z" "write_faults z = []"
  shows "Zero_RawSend bs z = (Inr (), z\<lparr>sent := sent z
     @ (if length bs mod 0x40 = 0 then [le16 (word_of_nat (length bs)) @ [0]] else []) @ [bs]\<rparr>)"
  using assms by (simp add: Zero_RawSend_def bnd_def BulkWrite_def)

lemma Socket_RawSend_ok:
  assumes "can_write c"
  shows "Socket_RawSend bs c = (Inr (), c\<lparr>zr := (zr c)\<lparr>sent := sent (zr c) @ on_wire (m_socket (sk c)) bs\<rparr>\<rparr>)"
  using assms Zero_RawSend_ok[of "zr c"]
  by (simp add: Socket_RawSend_def zoom_def can_write_def on_wire_def Let_def layout_simps)


lemma offers_sent: "sock_offers (c\<lparr>zr := (zr c)\<lparr>sent := w\<rparr>\<rparr>) xs = sock_offers c xs"
  "sock_offers (c\<lparr>sk := (sk c)\<lparr>m_sequence := w'\<rparr>\<rparr>) xs = sock_offers c xs"
  by (simp_all add: sock_offers_def cong: option.case_cong)

lemma Socket_SyncSend_ok:
  assumes "can_write c" "sock_offers c (q # rest)" "IsSequencePacket q"
  shows "\<exists>c'. Socket_SyncSend h bs c = (Inr (), c') \<and> can_write c' \<and> sock_offers c' rest
    \<and> m_socket (sk c') = m_socket (sk c) \<and> sent (zr c') = sent (zr c) @ on_wire (m_socket (sk c)) bs"
proof -
  define c1 where "c1 = c\<lparr>zr := (zr c)\<lparr>sent := sent (zr c) @ on_wire (m_socket (sk c)) bs\<rparr>\<rparr>"
  have "sock_offers c1 (q # rest)" using assms(2) by (simp add: c1_def offers_sent)
  then obtain c2 where c2: "Socket_Receive h c1 = (Inr q, c2)" "sock_offers c2 rest"
      "write_faults (zr c2) = write_faults (zr c1)" "sent (zr c2) = sent (zr c1)" "sk c2 = sk c1"
      "zero_has_device (zr c2) = zero_has_device (zr c1)"
    using Socket_Receive_offered by blast
  have "zero_has_device (zr c1) = zero_has_device (zr c)" by (simp add: c1_def zero_has_device_def cong: option.case_cong)
  moreover have "sock_offers (c2\<lparr>sk := (sk c2)\<lparr>m_sequence := q\<rparr>\<rparr>) rest" using c2(2) by (simp add: offers_sent)
  ultimately show ?thesis
    using c2 assms Socket_RawSend_ok[OF assms(1)]
    by (simp add: Socket_SyncSend_def c1_def[symmetric] can_write_def bnd_def)
       (simp add: c1_def)
qed

lemma send_all_ok:
  assumes "can_write c" "sock_offers c (qs @ rest)" "list_all IsSequencePacket qs" "length qs = length fs"
  shows "\<exists>c'. send_all (Socket_SyncSend h) fs c = (Inr (), c') \<and> can_write c' \<and> sock_offers c' rest
    \<and> m_socket (sk c') = m_socket (sk c) \<and> sent (zr c') = sent (zr c) @ concat (map (on_wire (m_socket (sk c))) fs)"
  using assms
proof (induction fs arbitrary: c qs)
  case Nil
  then show ?case by auto
next
  case (Cons f fs)
  then obtain q qs' where qs: "qs = q # qs'" "length qs' = length fs" by (cases qs) auto
  obtain c1 where c1: "Socket_SyncSend h f c = (Inr (), c1)" "can_write c1" "sock_offers c1 (qs' @ rest)"
      "m_socket (sk c1) = m_socket (sk c)" "sent (zr c1) = sent (zr c) @ on_wire (m_socket (sk c)) f"
    using Socket_SyncSend_ok[of c q "qs' @ rest"] Cons.prems qs by auto
  then show ?case using Cons.IH[OF c1(2,3)] Cons.prems(3) qs by auto
qed

definition transfers :: "bytes \<Rightarrow> bytes list" where
  "transfers request = (if length request \<le> 0x400 then [request] else fragments request 0)"

lemma transfers_shape:
  "list_all (\<lambda>f. length f \<le> 0x400) (transfers request) \<and> concat (map (drop 6) (transfers request)) = drop 6 request
   \<and> (0x400 < length request \<longrightarrow> list_all (\<lambda>f. CheckSize f 5 = Inr ()) (transfers request)
        \<and> list_all (\<lambda>f. byte_at f 4 = 0x60) (butlast (transfers request)) \<and> byte_at (last (transfers request)) 4 = 0x40)"
  using fragments_props[of request 0] by (auto simp: transfers_def list_all_iff)

lemma DBFragSend_transfers:
  assumes "5 \<le> length request" "byte_at request 4 \<in> {0x40, 0x41}" "length request < 2 ^ 32"
  shows "DBFragSend SyncSend request = send_all SyncSend (transfers request)"
  using assms frag_loop_sends[of request 0 "length request" SyncSend]
  by (auto simp: DBFragSend_def layout_simps transfers_def)

text \<open>With no acknowledgement in the queue a send ends in the timeout of its read.\<close>

lemma Socket_Receive_nothing:
  assumes "sock_offers c []" shows "\<exists>c'. Socket_Receive h c = (Inl UsbTimeout, c') \<and> sent (zr c') = sent (zr c)"
proof -
  obtain r qe where r: "z_queue (zr c) = Some r" "shape_ok r" "m_registered (sk c)" "arrivals (zr c) = []"
      "map_of (m_socketQueues r) (m_socket (sk c)) = Some qe" "qe_queue qe = []"
    using assms by (auto simp: sock_offers_def split: option.splits)
  have "m_socketQueues r \<noteq> []" using r(5) by auto
  then show ?thesis
    using r by (simp add: Socket_Receive_def wait_arrivals_def SocketRead_def shape_ok_def)
qed

lemma Socket_SyncSend_unanswered:
  assumes "can_write c" "sock_offers c []"
  shows "\<exists>c'. Socket_SyncSend h bs c = (Inl UsbTimeout, c') \<and> sent (zr c') = sent (zr c) @ on_wire (m_socket (sk c)) bs"
proof -
  define c1 where "c1 = c\<lparr>zr := (zr c)\<lparr>sent := sent (zr c) @ on_wire (m_socket (sk c)) bs\<rparr>\<rparr>"
  have "sock_offers c1 []" using assms(2) by (simp add: c1_def offers_sent)
  then obtain c2 where "Socket_Receive h c1 = (Inl UsbTimeout, c2)" "sent (zr c2) = sent (zr c1)"
    using Socket_Receive_nothing by blast
  then show ?thesis
    using Socket_RawSend_ok[OF assms(1)] by (simp add: Socket_SyncSend_def c1_def[symmetric] bnd_def) (simp add: c1_def)
qed

lemma send_all_unanswered:
  assumes "can_write c" "sock_offers c qs" "list_all IsSequencePacket qs" "length qs < length fs"
  shows "\<exists>c'. send_all (Socket_SyncSend h) fs c = (Inl UsbTimeout, c')
    \<and> sent (zr c') = sent (zr c) @ concat (map (on_wire (m_socket (sk c))) (take (Suc (length qs)) fs))"
  using assms
proof (induction fs arbitrary: c qs)
  case (Cons f fs)
  show ?case
  proof (cases qs)
    case Nil
    then show ?thesis using Socket_SyncSend_unanswered[of c h f] Cons.prems by auto
  next
    case (Cons q qs')
    note qs = this
    obtain c1 where c1: "Socket_SyncSend h f c = (Inr (), c1)" "can_write c1" "sock_offers c1 qs'"
        "m_socket (sk c1) = m_socket (sk c)" "sent (zr c1) = sent (zr c) @ on_wire (m_socket (sk c)) f"
      using Socket_SyncSend_ok[of c q qs'] Cons.prems qs by auto
    then show ?thesis using Cons.IH[OF c1(2,3)] Cons.prems(3,4) qs by auto
  qed
qed simp

lemma keeps_sent_Receive: "keeps (\<lambda>c. sent (zr c) = w) (Socket_Receive h)"
  by (auto simp: keeps_def Socket_Receive_def RawReceive_def direct_read_def wait_arrivals_def zoom_def Let_def
      split: option.splits prod.splits list.splits usb_result.splits sum.splits)

lemma keeps_packet_loop: "keeps I Receive \<Longrightarrow> keeps I (packet_loop Receive fuel frag bc receive input)"
  by (induction fuel arbitrary: frag bc receive input) (auto intro!: keeps_bnd keeps_if split: prod.split)

lemma loop_read_sent: "sent (zr (snd (loop_read (Socket_Receive h) fuel frag bc acc c))) = sent (zr c)"
proof -
  have "keeps (\<lambda>c'. sent (zr c') = sent (zr c)) (loop_read (Socket_Receive h) fuel frag bc acc)"
    unfolding loop_read_def by (intro keeps_bnd keeps_sent_Receive keeps_packet_loop)
  then show ?thesis by (simp add: keeps_def)
qed

text \<open>
  C15: A whole database exchange over a routed socket. What is written is the request as one
  packet, or as fragments of at most 0x400 bytes that pass the size check of a receiver, are
  marked as parts but for the last one and carry the bytes of the request in order; each
  goes out on the socket's number, preceded by a size packet if its length needs one, and
  each is acknowledged by a sequence packet before the next one is written: when the device
  stops acknowledging after \<open>k\<close> of them, exactly the first \<open>k + 1\<close> have been written and the
  exchange ends in a timeout. The response, cut into fragments by the device in the way the
  library itself cuts packets, and mixed with sequence packets and fewer than ten blanks in
  any gap, comes back as the device meant it, with the total size in its header, and what
  follows it stays queued.
\<close>

theorem Packet_exchange:
  assumes "can_write c" and "5 \<le> length request" and "byte_at request 4 \<in> {0x40, 0x41}" and "length request < 2 ^ 32"
    and "list_all IsSequencePacket acks" and "length acks = length (transfers request)"
    and "6 \<le> length response" and "map snd gfs = fragments response 0" and "list_all gap_ok (map fst gfs)"
    and "sock_offers c (acks @ transcript gfs @ rest)"
  shows "(\<exists>c'. SocketBase_Packet (Socket_SyncSend h) (Socket_Receive h) (length (transcript gfs)) request c
           = (Inr (set_header response), c')
     \<and> sock_offers c' rest
     \<and> sent (zr c') = sent (zr c) @ concat (map (on_wire (m_socket (sk c))) (transfers request)))
     \<and> set_header response = take 2 response @ le16 (word_of_nat (length response)) @ [0x40, byte_at response 5] @ drop 6 response
     \<and> (length request \<le> 0x400 \<longrightarrow> transfers request = [request])
     \<and> list_all (\<lambda>f. length f \<le> 0x400) (transfers request) \<and> concat (map (drop 6) (transfers request)) = drop 6 request
     \<and> (0x400 < length request \<longrightarrow> list_all (\<lambda>f. CheckSize f 5 = Inr ()) (transfers request)
          \<and> list_all (\<lambda>f. byte_at f 4 = 0x60) (butlast (transfers request)) \<and> byte_at (last (transfers request)) 4 = 0x40)
     \<and> (\<forall>k c2. k < length acks \<and> can_write c2 \<and> sock_offers c2 (take k acks) \<longrightarrow>
          (\<exists>c'. SocketBase_Packet (Socket_SyncSend h) (Socket_Receive h) (length (transcript gfs)) request c2 = (Inl UsbTimeout, c')
             \<and> sent (zr c') = sent (zr c2) @ concat (map (on_wire (m_socket (sk c2))) (take (Suc k) (transfers request)))))"
proof -
  note frag = DBFragSend_transfers[OF assms(2-4)]
  obtain c1 where c1: "DBFragSend (Socket_SyncSend h) request c = (Inr (), c1)"
      "sock_offers c1 (transcript gfs @ rest)" "sent (zr c1) = sent (zr c) @ concat (map (on_wire (m_socket (sk c))) (transfers request))"
    using send_all_ok[OF assms(1,10,5,6), of h] by (auto simp: frag)
  have packet: "SocketBase_Packet (Socket_SyncSend h) (Socket_Receive h) (length (transcript gfs)) request c
      = loop_read (Socket_Receive h) (length (transcript gfs) + 0) False 0 [] c1"
    using c1(1) by (simp add: SocketBase_Packet_def loop_read_def)
  obtain c' where c': "sock_offers c' rest" "loop_read (Socket_Receive h) (length (transcript gfs) + 0) False 0 [] c1 = (Inr (set_header response), c')"
    using socket_source.reassemble[OF assms(7,8,9) c1(2), of h 0 "[]"] by blast
  have "sent (zr c') = sent (zr c1)" using loop_read_sent[of h] c'(2) by (metis snd_conv)
  moreover have "\<exists>c'. SocketBase_Packet (Socket_SyncSend h) (Socket_Receive h) (length (transcript gfs)) request c2 = (Inl UsbTimeout, c')
      \<and> sent (zr c') = sent (zr c2) @ concat (map (on_wire (m_socket (sk c2))) (take (Suc k) (transfers request)))"
    if "k < length acks \<and> can_write c2 \<and> sock_offers c2 (take k acks)" for k c2
  proof -
    have "list_all IsSequencePacket (take k acks)" using assms(5) by (auto simp: list_all_iff dest: in_set_takeD)
    then show ?thesis
      using send_all_unanswered[of c2 "take k acks" "transfers request" h] that assms(6)
      by (auto simp: SocketBase_Packet_def bnd_def frag)
  qed
  moreover have "length request \<le> 0x400 \<longrightarrow> transfers request = [request]" by (simp add: transfers_def)
  ultimately show ?thesis
    using packet c' c1(3) set_header_eq[OF assms(7)] transfers_shape[of request] by simp
qed

text \<open>A connection on socket 6 whose queue holds two acknowledgements and a two-part response.\<close>

definition ack :: bytes where "ack = [0, 0, 12, 0, 0x13, 6, 0, 0, 1, 0, 0, 0]"

definition sample_response :: bytes where
  "sample_response = [6, 0, 0, 0, 0x40, 0] @ replicate 1500 7"

definition sample_conn :: "bytes list \<Rightarrow> conn" where
  "sample_conn xs =
     \<lparr>sk = \<lparr>m_socket = 6, m_closeFlag = 0, m_registered = True, m_sequence = [], m_resetOnClose = False\<rparr>,
      zr = \<lparr>z_dev = True, z_queue = Some \<lparr>m_dev = Some 1, m_writeEp = 1, m_readEp = 2, m_interest = True,
              m_seen_usb_error = False, m_usb_error_dev_callback = None, m_free = [], m_default = [],
              m_socketQueues = [(6, \<lparr>qe_handler = None, qe_queue = map (Pair 0) xs, qe_type = 3\<rparr>)],
              m_timeout = 30, m_continue_reading = True, allocated = 1, calls = []\<rparr>,
            m_zeroSocketSequence = 0, m_sequenceId = 0, m_halfOpen = False, m_challengeSeed = 0,
            m_remainingTries = 0, m_modeSequencePacketSeen = False, m_pushback_buffer = [],
            m_pushback = False, arrivals = [], write_faults = [], sent = []\<rparr>\<rparr>"

lemma sample_conn_offers: "sock_offers (sample_conn xs) xs" "can_write (sample_conn xs)"
  by (simp_all add: sock_offers_def sample_conn_def shape_ok_def can_write_def zero_has_device_def comp_def)

lemma on_wire_frag:
  assumes "2 \<le> length whole"
  shows "on_wire s (frag_packet whole command p)
    = (if (6 + length p) mod 64 = 0 then [le16 (word_of_nat (6 + length p)) @ [0]] else [])
      @ [le16 s @ le16 (word_of_nat (6 + length p)) @ [command, byte_at whole 5] @ p]"
proof -
  obtain a b where "take 2 whole = [a, b]" using assms by (cases whole; cases "tl whole") auto
  then show ?thesis by (simp add: on_wire_def frag_packet_def le16_def overwrite.simps)
qed

lemma sample_response_head: "length sample_response = 1506" "byte_at sample_response 4 = 0x40"
  by (simp_all add: sample_response_def)

lemma Packet_exchange_witness:
  "\<exists>c'. SocketBase_Packet (Socket_SyncSend (\<lambda>_ bs. Inr bs)) (Socket_Receive (\<lambda>_ bs. Inr bs))
     (length (transcript (map (\<lambda>f. ([[], ack], f)) (fragments sample_response 0)))) sample_response
     (sample_conn ([ack, ack] @ transcript (map (\<lambda>f. ([[], ack], f)) (fragments sample_response 0)) @ []))
   = (Inr (set_header sample_response), c')
   \<and> sent (zr c') = [[0, 4, 0], [6, 0, 0, 4, 0x60, 0] @ replicate 1018 7, [6, 0, 232, 1, 0x40, 0] @ replicate 482 7]"
proof -
  have "CheckSize ack 5 = Inr ()" by (simp add: ack_def CheckSize_ok_iff packet_size_field_def layout_simps get16_def)
  then have gap: "gap_ok [[], ack]" by (simp add: gap_ok_def ack_def layout_simps)
  have "IsSequencePacket ack" by (simp add: ack_def IsSequencePacket_def layout_simps get16_def)
  moreover have "sent (zr (sample_conn xs)) = []" "m_socket (sk (sample_conn xs)) = 6" for xs by (simp_all add: sample_conn_def)
  moreover have t: "transfers sample_response = [frag_packet sample_response 0x60 (replicate 1018 7),
      frag_packet sample_response 0x40 (replicate 482 7)]"
    by (simp add: transfers_def sample_response_def fragments.simps)
  moreover have wire: "on_wire 6 (frag_packet sample_response 0x60 (replicate 1018 7)) = [[0, 4, 0], [6, 0, 0, 4, 0x60, 0] @ replicate 1018 7]"
    using on_wire_frag[of sample_response 6 "0x60" "replicate 1018 7"] by (simp add: sample_response_def le16_def)
  moreover have wire': "on_wire 6 (frag_packet sample_response 0x40 (replicate 482 7)) = [[6, 0, 232, 1, 0x40, 0] @ replicate 482 7]"
    using on_wire_frag[of sample_response 6 "0x40" "replicate 482 7"] by (simp add: sample_response_def le16_def)
  moreover define gfs where "gfs = map (\<lambda>f. ([[], ack], f)) (fragments sample_response 0)"
  moreover have "map snd gfs = fragments sample_response 0" "list_all gap_ok (map fst gfs)"
    using gap by (simp_all add: gfs_def comp_def list_all_iff)
  ultimately obtain c' where "SocketBase_Packet (Socket_SyncSend (\<lambda>_ bs. Inr bs)) (Socket_Receive (\<lambda>_ bs. Inr bs))
       (length (transcript gfs)) sample_response (sample_conn ([ack, ack] @ transcript gfs @ [])) = (Inr (set_header sample_response), c')"
      "sent (zr c') = concat (map (on_wire 6) (transfers sample_response))"
    using Packet_exchange[OF sample_conn_offers(2) _ _ _ _ _ _ _ _ sample_conn_offers(1),
        of sample_response "[ack, ack]" sample_response gfs "\<lambda>_ bs. Inr bs" "[]"] by (auto simp: sample_response_head)
  with wire wire' t show ?thesis unfolding gfs_def[symmetric] by simp
qed


section \<open>Raw transfers\<close>

text \<open>
  RawSend puts a three-byte size packet in front of exactly those packets whose length
  is a multiple of 0x40 (the empty one included), and nothing else; a packet pushed back is
  what the next raw receive returns, once, whatever the device has sent meanwhile, and a
  second push-back before that throws.
\<close>

theorem RawSend_and_Pushback:
  assumes "zero_has_device z" and "write_faults z = []" and "\<not> m_pushback z"
  shows "snd (Zero_RawSend bs z) = z\<lparr>sent := sent z @ (if 64 dvd length bs then [le16 (word_of_nat (length bs)) @ [0], bs] else [bs])\<rparr>
    \<and> fst (Zero_RawSend bs z) = Inr ()
    \<and> bnd (Pushback x) (\<lambda>_. RawReceive h) z = (Inr x, z\<lparr>m_pushback_buffer := x\<rparr>)
    \<and> fst (bnd (Pushback x) (\<lambda>_. Pushback y) z) = Inl (BarryError ''Multiple pushbacks in SocketZero!'')"
  using assms Zero_RawSend_ok[OF assms(1,2), of bs]
  by (auto simp: Pushback_def RawReceive_def dvd_eq_mod_eq_0 bnd_def)

lemma RawSend_and_Pushback_witness:
  "sent (snd (Zero_RawSend (replicate 128 7) (zr (sample_conn [])))) = [[128, 0, 0], replicate 128 7]"
  using RawSend_and_Pushback[of "zr (sample_conn [])" "replicate 128 7"]
  by (simp add: sample_conn_def zero_has_device_def le16_def)

text \<open>
  CheckSequence accepts a sequence packet of full length exactly when its id is 0 (a
  silent restart), is the expected one, or comes on socket 0; every accepted packet
  advances the expected id by one, from 0 after a restart, and a rejected one leaves it.
\<close>

theorem CheckSequence_spec:
  "Zero_CheckSequence socket seq z =
    (if length seq < 12 then (Inl (BarryError ''Socket: invalid sequence packet''), z)
     else if get32 seq 8 = 0 then (Inr (), z\<lparr>m_sequenceId := 1\<rparr>)
     else if get32 seq 8 = m_sequenceId z \<or> socket = 0 then (Inr (), z\<lparr>m_sequenceId := m_sequenceId z + 1\<rparr>)
     else (Inl (BarryError ''Socket: out of sequence.''), z))"
  by (simp add: Zero_CheckSequence_def Let_def layout_simps bnd_def)

section \<open>What a failed Open does\<close>

definition no_password :: "zero \<Rightarrow> bool" where
  "no_password z \<longleftrightarrow> list_all (\<lambda>p. byte_at p off_command \<noteq> SB_COMMAND_PASSWORD) (sent z)"

lemma keeps_BulkWrite: "(\<And>z. I z \<Longrightarrow> I (z\<lparr>sent := sent z @ [bs]\<rparr>)) \<Longrightarrow>
   (\<And>z f. I z \<Longrightarrow> I (z\<lparr>write_faults := f\<rparr>)) \<Longrightarrow> keeps I (BulkWrite bs)"
proof -
  assume s: "\<And>z. I z \<Longrightarrow> I (z\<lparr>sent := sent z @ [bs]\<rparr>)" and f: "\<And>z f. I z \<Longrightarrow> I (z\<lparr>write_faults := f\<rparr>)"
  have "I (z\<lparr>write_faults := fs, sent := sent z @ [bs]\<rparr>)" if "I z" for z fs
    using s[OF f[OF that, of fs]] by simp
  then show ?thesis using f by (auto simp: keeps_def BulkWrite_def split: list.splits option.splits)
qed

lemma keeps_zoom: "keeps I m \<Longrightarrow> keeps (\<lambda>c. I (zr c)) (on_zero m)"
  by (auto simp: keeps_def zoom_def split: prod.splits)

lemma keeps_modify_sock: "(\<And>c. zr (f c) = zr c) \<Longrightarrow> keeps (\<lambda>c. I (zr c)) (modify f)"
  by (simp add: keeps_def)

text \<open>Invariants of the zero object that only look at what was sent and the open state.\<close>

definition stable :: "(zero \<Rightarrow> bool) \<Rightarrow> bool" where
  "stable I \<longleftrightarrow> (\<forall>z q a f p b s i. I z \<longrightarrow> I (z\<lparr>z_queue := q\<rparr>) \<and> I (z\<lparr>arrivals := a\<rparr>) \<and> I (z\<lparr>write_faults := f\<rparr>)
     \<and> I (z\<lparr>m_pushback := p\<rparr>) \<and> I (z\<lparr>m_pushback_buffer := b\<rparr>) \<and> I (z\<lparr>m_zeroSocketSequence := s\<rparr>)
     \<and> I (z\<lparr>m_sequenceId := i\<rparr>))"

lemma stable_RawReceive:
  assumes "stable I" shows "keeps I (RawReceive h)"
proof -
  have q: "I z \<Longrightarrow> I (z\<lparr>z_queue := q\<rparr>)" and a: "I z \<Longrightarrow> I (z\<lparr>arrivals := l\<rparr>)" and p: "I z \<Longrightarrow> I (z\<lparr>m_pushback := b\<rparr>)"
    for z q l b using assms by (auto simp: stable_def)
  have qa: "I z \<Longrightarrow> I (z\<lparr>arrivals := l, z_queue := q\<rparr>)" for z q l using q[OF a[of z l], of q] by simp
  show ?thesis
    unfolding keeps_def RawReceive_def direct_read_def wait_arrivals_def Let_def
    using q a p qa by (auto split: option.splits prod.splits list.splits usb_result.splits)
qed

lemma stable_CheckSequence: "stable I \<Longrightarrow> keeps I (Zero_CheckSequence socket seq)"
  by (simp add: keeps_def CheckSequence_spec stable_def)

lemma stable_RawSend:
  assumes "stable I" "\<And>z. I z \<Longrightarrow> I (z\<lparr>sent := sent z @ [bs]\<rparr>)"
    "\<And>z. length bs mod 0x40 = 0 \<Longrightarrow> I z \<Longrightarrow> I (z\<lparr>sent := sent z @ [le16 (word_of_nat (length bs)) @ [0]]\<rparr>)"
  shows "keeps I (Zero_RawSend bs)"
proof -
  have f: "\<And>z f. I z \<Longrightarrow> I (z\<lparr>write_faults := f\<rparr>)" using assms(1) by (auto simp: stable_def)
  have "keeps I (exec_if (length bs mod 0x40 = 0) (BulkWrite (le16 (word_of_nat (length bs)) @ [0])))"
    using keeps_BulkWrite[where I = I, OF _ f] assms(3) by (cases "length bs mod 0x40 = 0") auto
  then show ?thesis
    unfolding Zero_RawSend_def using keeps_BulkWrite[where I = I, OF assms(2) f] by (auto intro!: keeps_bnd keeps_if)
qed


lemma stable_no_password: "stable no_password"
  by (simp add: stable_def no_password_def)

lemma stable_sent: "stable (\<lambda>z. sent z = w \<and> m_halfOpen z = b)"
  by (simp add: stable_def)

lemma byte_at_overwrite: "i + length ws \<le> k \<or> k < i \<Longrightarrow> byte_at (overwrite i ws bs) k = byte_at bs k"
proof (induction ws arbitrary: i bs)
  case (Cons w ws)
  then have "byte_at (overwrite (Suc i) ws (bs[i := w])) k = byte_at (bs[i := w]) k" by auto
  then show ?case using Cons.prems by (auto simp: overwrite.simps byte_at_def)
qed (simp add: overwrite.simps)

lemma no_password_RawSend: "byte_at bs 4 \<noteq> 0x0f \<Longrightarrow> keeps no_password (Zero_RawSend bs)"
  by (rule stable_RawSend[OF stable_no_password]) (simp_all add: no_password_def layout_simps)

lemma no_password_Send: "byte_at bs 4 \<noteq> 0x0f \<Longrightarrow> keeps no_password (Zero_Send_receive h bs)"
  unfolding Zero_Send_receive_def Zero_Send_def
  by (intro keeps_bnd keeps_basic keeps_if keeps_modify stable_RawReceive[OF stable_no_password] no_password_RawSend)
     (simp_all add: byte_at_overwrite layout_simps, simp add: no_password_def)

lemma keeps_with_queue: "stable I \<Longrightarrow> keeps (\<lambda>c. I (zr c)) (with_queue f)"
  by (auto simp: keeps_def with_queue_def stable_def split: option.splits sum.splits)

lemma keeps_local:
  assumes "stable I"
  shows "keeps (\<lambda>c. I (zr c)) (set_registered b)" "keeps (\<lambda>c. I (zr c)) ForceClosed"
    "keeps (\<lambda>c. I (zr c)) LocalUnregisterInterest" "keeps (\<lambda>c. I (zr c)) (Opening hdl)"
proof -
  show sr: "keeps (\<lambda>c. I (zr c)) (set_registered b)" for b
    unfolding set_registered_def by (rule keeps_modify_sock) simp
  show "keeps (\<lambda>c. I (zr c)) ForceClosed"
    unfolding ForceClosed_def by (rule keeps_modify_sock) simp
  show "keeps (\<lambda>c. I (zr c)) LocalUnregisterInterest" "keeps (\<lambda>c. I (zr c)) (Opening hdl)"
    unfolding LocalUnregisterInterest_def Opening_def
    by (intro keeps_bnd keeps_basic keeps_exec_if keeps_with_queue[OF assms] sr)+
qed

lemma socket_command_byte: "byte_at (socket_command command socket flag) 4 = command"
  by (simp add: socket_command_def)

lemma reset_packet_byte: "Reset Data_default = Inr d \<Longrightarrow> byte_at (contents d) 4 = 3"
proof -
  assume r: "Reset Data_default = Inr d"
  obtain d' s0 s1 where "Reset Data_default = Inr d'" "contents d' = [s0, s1] @ concat [le16 8, [3], le16 0xff, [0]]"
    using fill_packet[OF data_default_ok refl refl, of "[le16 8, [3], le16 0xff, [0]]"]
    by (auto simp: Reset_def Let_def layout_simps)
  then show ?thesis using r by simp
qed

lemma no_password_Close: "keeps (\<lambda>c. no_password (zr c)) (LocalClose h)"
proof -
  note st = stable_no_password
  note local = keeps_local[OF st]
  have z: "keeps (\<lambda>c. no_password (zr c)) (on_zero (Zero_Send_receive h (socket_command SB_COMMAND_CLOSE_SOCKET s q)))" for s q
    by (rule keeps_zoom[OF no_password_Send]) (simp add: socket_command_byte layout_simps)
  have reset: "keeps (\<lambda>c. no_password (zr c)) (bnd (lift (Reset Data_default)) (\<lambda>packet. bnd (on_zero (Zero_Send_receive h (contents packet))) f))"
    if "\<And>x. keeps (\<lambda>c. no_password (zr c)) (f x)" for f :: "_ \<Rightarrow> (conn, unit) st"
  proof (cases "Reset Data_default")
    case (Inl e)
    then show ?thesis by (simp add: keeps_def)
  next
    case (Inr d)
    have "keeps (\<lambda>c. no_password (zr c)) (bnd (on_zero (Zero_Send_receive h (contents d))) f)"
      using reset_packet_byte[OF Inr] by (intro keeps_bnd keeps_zoom no_password_Send that) simp
    then show ?thesis by (simp add: keeps_def Inr)
  qed
  show ?thesis
    unfolding LocalClose_def Zero_Close_def Let_def
    by (intro keeps_bnd local keeps_basic keeps_if keeps_catch z keeps_exec_if reset keeps_zoom
        stable_CheckSequence[OF st] stable_RawReceive[OF st])
qed


text \<open>
  C16: With a device that is waiting for a password and has fewer than three tries left,
  Open fails, whatever the password, the device and the other sockets do, and no password
  packet is written: neither by the handshake nor by the clean-up after it. So the library
  never uses one of the last two tries.
\<close>

theorem Open_never_risks_password:
  assumes "m_halfOpen z" and "m_remainingTries z < 3" and "no_password z"
  shows "no_password (snd (Open h sha1 hdl socket password z)) \<and> isl (fst (Open h sha1 hdl socket password z))"
proof -
  define c0 where "c0 = \<lparr>sk = Socket_new socket (m_zeroSocketSequence z), zr = z\<rparr>"
  obtain r c1 where o: "Opening hdl c0 = (r, c1)" by (cases "Opening hdl c0")
  have same: "stable (\<lambda>z. m_halfOpen z \<and> m_remainingTries z < 3 \<and> no_password z)"
    by (simp add: stable_def no_password_def)
  have c1: "m_halfOpen (zr c1) \<and> m_remainingTries (zr c1) < 3 \<and> no_password (zr c1)"
    using keeps_local(4)[OF same, of hdl] o assms unfolding keeps_def by (metis c0_def conn.select_convs(2) snd_conv)
  obtain e where body: "Open_body h sha1 hdl socket password c0 = (Inl e, c1)"
  proof (cases r)
    case (Inl e)
    then show ?thesis using o that by (auto simp: Open_body_def)
  next
    case (Inr u)
    have pw: "open_password h sha1 socket password (zr c1) = (Inl (BadPassword (if password = None then ''No password specified.''
        else few_tries_text) (m_remainingTries (zr c1)) (password \<noteq> None)), zr c1)"
      using c1 by (cases password) (simp_all add: open_password_def BARRY_MIN_PASSWORD_TRIES_def)
    have "zr_update (\<lambda>_. zr c1) c1 = c1" by simp
    then show ?thesis using o Inr c1 pw that by (auto simp: Open_body_def zoom_def bnd_def)
  qed
  have "keeps (\<lambda>c. no_password (zr c)) (Socket_destroy h)"
    unfolding Socket_destroy_def by (intro keeps_catch no_password_Close) (auto split: exn.splits)
  then have "no_password (zr (snd (Socket_destroy h c1)))" using c1 by (simp add: keeps_def)
  then show ?thesis
    using body by (cases "Socket_destroy h c1") (auto simp: Open_def c0_def[symmetric] Let_def split: sum.splits)
qed

lemma Open_never_risks_password_witness:
  "no_password (snd (Open (\<lambda>_ bs. Inr bs) (\<lambda>_. replicate 20 0) None 7 (Some (lit ''secret''))
     ((zr (sample_conn []))\<lparr>m_halfOpen := True, m_remainingTries := 2\<rparr>)))"
  using Open_never_risks_password[of "(zr (sample_conn []))\<lparr>m_halfOpen := True, m_remainingTries := 2\<rparr>"]
  by (simp add: sample_conn_def no_password_def)

text \<open>Close writes its command and, without a reset, nothing else.\<close>

lemma Zero_Send_ok:
  assumes "zero_has_device z" "write_faults z = []"
  shows "Zero_Send (socket_command command socket flag) z = (Inr (),
     z\<lparr>m_zeroSocketSequence := m_zeroSocketSequence z + 1,
       sent := sent z @ [socket_command command socket (m_zeroSocketSequence z)]\<rparr>)"
proof -
  have "overwrite 7 [q] (overwrite 0 (le16 0) (socket_command command socket flag)) = socket_command command socket q" for q
    by (simp add: socket_command_def le16_def layout_simps overwrite.simps numeral_eq_Suc)
  moreover have "zero_has_device (z\<lparr>m_zeroSocketSequence := q\<rparr>)" for q
    using assms(1) by (simp add: zero_has_device_def cong: option.case_cong)
  ultimately show ?thesis
    using assms by (simp add: Zero_Send_def Zero_RawSend_ok layout_simps socket_command_def)
qed

lemma Zero_Close_sends:
  assumes "zero_has_device (zr c)" "write_faults (zr c) = []" "m_socket (sk c) \<noteq> 0" "\<not> m_resetOnClose (sk c)"
  shows "sent (zr (snd (Zero_Close h c))) = sent (zr c)
       @ [socket_command SB_COMMAND_CLOSE_SOCKET (m_socket (sk c)) (m_zeroSocketSequence (zr c))]
     \<and> m_halfOpen (zr (snd (Zero_Close h c))) = m_halfOpen (zr c)"
proof -
  define w where "w = sent (zr c) @ [socket_command SB_COMMAND_CLOSE_SOCKET (m_socket (sk c)) (m_zeroSocketSequence (zr c))]"
  define I :: "zero \<Rightarrow> bool" where "I = (\<lambda>z. sent z = w \<and> m_halfOpen z = m_halfOpen (zr c))"
  have st: "stable I" unfolding I_def by (rule stable_sent)
  define z1 where "z1 = (zr c)\<lparr>m_zeroSocketSequence := m_zeroSocketSequence (zr c) + 1, sent := w\<rparr>"
  have "I z1" by (simp add: I_def z1_def)
  obtain r z2 where rr: "RawReceive h z1 = (r, z2)" by (cases "RawReceive h z1")
  then have "I z2" using stable_RawReceive[OF st, of h] \<open>I z1\<close> by (auto simp: keeps_def)
  have send: "on_zero (Zero_Send_receive h (socket_command SB_COMMAND_CLOSE_SOCKET (m_socket (sk c)) (m_closeFlag (sk c)))) c
      = (r, c\<lparr>zr := z2\<rparr>)"
    using Zero_Send_ok[OF assms(1,2)] rr
    by (simp add: Zero_Send_receive_def zoom_def w_def z1_def)
  define k where "k = (\<lambda>response.
         bnd (if IsSequencePacket response
              then on_zero (bnd (Zero_CheckSequence 0 response) (\<lambda>_. RawReceive h))
              else ret response) (\<lambda>response.
         bnd (lift (CheckSize response SB_SOCKET_PACKET_HEADER_SIZE)) (\<lambda>_.
         let command = byte_at response off_command
         in if (command \<noteq> SB_COMMAND_CLOSED_SOCKET \<and> command \<noteq> SB_COMMAND_REMOTE_CLOSE_SOCKET)
              \<or> get16 response off_u_socket_socket \<noteq> m_socket (sk c)
              \<or> byte_at response off_u_socket_sequence \<noteq> m_closeFlag (sk c)
            then bnd ForceClosed (\<lambda>_. throw (BadPacket command ''Socket: Bad CLOSED packet in Close''))
            else ForceClosed)))"
  have keep: "keeps (\<lambda>c. I (zr c)) (k x)" for x
    unfolding k_def Let_def
    by (intro keeps_bnd keeps_if keeps_basic keeps_zoom stable_CheckSequence[OF st] stable_RawReceive[OF st] keeps_local(2)[OF st])
  have "Zero_Close h c = bnd (catch (\<lambda>c. (r, c\<lparr>zr := z2\<rparr>))
       (\<lambda>e. if e = UsbError \<or> e = UsbTimeout then bnd ForceClosed (\<lambda>_. throw e) else throw e)) k c"
    using assms(3,4) send
    by (cases r) (auto simp: Zero_Close_def k_def bnd_def catch_def exec_if_def Let_def ret_def throw_def ForceClosed_def
        split: prod.split sum.split)
  also have "I (zr (snd \<dots>))"
    using \<open>I z2\<close> keep by (cases r) (auto simp: bnd_def catch_def ForceClosed_def keeps_def)
  finally show ?thesis by (simp add: I_def w_def)
qed

text \<open>
  The clean-up of a refused Open is visible on the wire. Without a router, opening a
  socket other than 0 of a device that is waiting for a password, with no password given,
  writes nothing during the handshake, but the destructor of the socket object then sends
  CLOSE_SOCKET for it, with the sequence number of that moment, and the connection is still
  marked half open: the next Open skips SendOpen and sends a password hash over a challenge
  of a handshake that has been closed.
\<close>

theorem refused_Open_sends_close:
  assumes "m_halfOpen z" and "z_queue z = None" and "z_dev z" and "write_faults z = []" and "socket \<noteq> 0"
  shows "sent (snd (Open h sha1 hdl socket None z))
      = sent z @ [socket_command SB_COMMAND_CLOSE_SOCKET socket (m_zeroSocketSequence z)]
    \<and> m_halfOpen (snd (Open h sha1 hdl socket None z))"
proof -
  define c0 where "c0 = \<lparr>sk = Socket_new socket (m_zeroSocketSequence z), zr = z\<rparr>"
  have same: "zr_update (\<lambda>_. z) c0 = c0" by (simp add: c0_def)
  obtain e where body: "Open_body h sha1 hdl socket None c0 = (Inl e, c0)"
    using assms same by (simp add: Open_body_def Opening_def open_password_def zoom_def c0_def)
  have "sent (zr (snd (Zero_Close h c0))) = sent z
       @ [socket_command SB_COMMAND_CLOSE_SOCKET socket (m_zeroSocketSequence z)]
     \<and> m_halfOpen (zr (snd (Zero_Close h c0)))"
    using Zero_Close_sends[of c0 h] assms by (simp add: c0_def zero_has_device_def Socket_new_def)
  moreover have "LocalClose h c0 = Zero_Close h c0"
    by (simp add: LocalClose_def LocalUnregisterInterest_def c0_def Socket_new_def)
  moreover have "zr (snd (Socket_destroy h c0)) = zr (snd (LocalClose h c0))"
    by (cases "LocalClose h c0") (auto simp: Socket_destroy_def catch_def ret_def throw_def split: sum.split exn.split)
  ultimately show ?thesis
    using body by (cases "Socket_destroy h c0") (auto simp: Open_def c0_def[symmetric] Let_def split: sum.split)
qed

lemma refused_Open_sends_close_witness:
  "sent (snd (Open (\<lambda>_ bs. Inr bs) (\<lambda>_. replicate 20 0) None 7 None
     ((zr (sample_conn []))\<lparr>m_halfOpen := True, z_queue := None\<rparr>)))
   = [socket_command SB_COMMAND_CLOSE_SOCKET 7 0]"
  using refused_Open_sends_close[of "(zr (sample_conn []))\<lparr>m_halfOpen := True, z_queue := None\<rparr>" 7]
  by (simp add: sample_conn_def)

end
