(* ===== verification/Sha1.thy ===== *)
theory Sha1 imports Barry_Prelude begin

text \<open>
  SHA-1 as the library has it (src/src/sha1.cc): bytes are shifted into the word buffer one at
  a time, a block is hashed as soon as it is full, and the length is counted in two 32 bit
  halves. The theory shows that it is the function of FIPS 180, for every input. The
  socket layer hashes passwords with it.
\<close>

section \<open>The code\<close>

record sha_ctx =
  sha_H :: "u32 list"
  sha_W :: "u32 list"
  lenW :: nat
  sizeHi :: u32
  sizeLo :: u32

definition SHA1_Init :: sha_ctx where
  "SHA1_Init = \<lparr>sha_H = [0x67452301, 0xefcdab89, 0x98badcfe, 0x10325476, 0xc3d2e1f0],
     sha_W = replicate 80 0, lenW = 0, sizeHi = 0, sizeLo = 0\<rparr>"

definition SHA_ROT :: "u32 \<Rightarrow> nat \<Rightarrow> u32" where
  "SHA_ROT x n = push_bit n x OR drop_bit (32 - n) x"

text \<open>The first loop of shaHashBlock, and one turn of the other four.\<close>

definition expand_step :: "nat \<Rightarrow> u32 list \<Rightarrow> u32 list" where
  "expand_step t W = W[t := SHA_ROT (W ! (t - 3) XOR W ! (t - 8) XOR W ! (t - 14) XOR W ! (t - 16)) 1]"

type_synonym sha_state = "u32 \<times> u32 \<times> u32 \<times> u32 \<times> u32"

definition sha_step :: "(u32 \<Rightarrow> u32 \<Rightarrow> u32 \<Rightarrow> u32) \<Rightarrow> u32 \<Rightarrow> u32 \<Rightarrow> sha_state \<Rightarrow> sha_state" where
  "sha_step f k w = (\<lambda>(a, b, c, d, e). (SHA_ROT a 5 + f b c d + e + w + k, a, SHA_ROT b 30, c, d))"

definition shaHashBlock :: "sha_ctx \<Rightarrow> sha_ctx" where
  "shaHashBlock ctx =
     (let W = fold expand_step [16..<80] (sha_W ctx);
          H = sha_H ctx;
          s0 = (H ! 0, H ! 1, H ! 2, H ! 3, H ! 4);
          s1 = fold (\<lambda>t. sha_step (\<lambda>b c d. ((c XOR d) AND b) XOR d) 0x5a827999 (W ! t)) [0..<20] s0;
          s2 = fold (\<lambda>t. sha_step (\<lambda>b c d. b XOR c XOR d) 0x6ed9eba1 (W ! t)) [20..<40] s1;
          s3 = fold (\<lambda>t. sha_step (\<lambda>b c d. (b AND c) OR (d AND (b OR c))) 0x8f1bbcdc (W ! t)) [40..<60] s2;
          (A, B, C, D, E) = fold (\<lambda>t. sha_step (\<lambda>b c d. b XOR c XOR d) 0xca62c1d6 (W ! t)) [60..<80] s3
      in ctx\<lparr>sha_H := [H ! 0 + A, H ! 1 + B, H ! 2 + C, H ! 3 + D, H ! 4 + E], sha_W := W\<rparr>)"

text \<open>One turn of SHA1_Update.\<close>

definition SHA1_byte :: "byte \<Rightarrow> sha_ctx \<Rightarrow> sha_ctx" where
  "SHA1_byte b ctx =
     (let i = lenW ctx div 4;
          ctx1 = ctx\<lparr>sha_W := (sha_W ctx)[i := push_bit 8 (sha_W ctx ! i) OR ucast b], lenW := lenW ctx + 1\<rparr>;
          ctx2 = (if lenW ctx1 mod 64 = 0 then (shaHashBlock ctx1)\<lparr>lenW := 0\<rparr> else ctx1);
          lo = sizeLo ctx2 + 8
      in ctx2\<lparr>sizeLo := lo, sizeHi := sizeHi ctx2 + (if lo < 8 then 1 else 0)\<rparr>)"

definition SHA1_Update :: "bytes \<Rightarrow> sha_ctx \<Rightarrow> sha_ctx" where
  "SHA1_Update data ctx = fold SHA1_byte data ctx"

text \<open>The zeros of the padding: the loop ends whatever lenW is at its start.\<close>

lemma lenW_SHA1_byte: "lenW (SHA1_byte b ctx) = (if (lenW ctx + 1) mod 64 = 0 then 0 else lenW ctx + 1)"
  by (simp add: SHA1_byte_def Let_def)

function zero_pad :: "sha_ctx \<Rightarrow> sha_ctx" where
  "zero_pad ctx = (if lenW ctx = 56 then ctx else zero_pad (SHA1_byte 0 ctx))"
  by pat_completeness auto
termination
proof (relation "measure (\<lambda>ctx. if lenW ctx \<le> 56 then 56 - lenW ctx else 121 - lenW ctx mod 64)")
  fix ctx :: sha_ctx assume "lenW ctx \<noteq> 56"
  moreover have "lenW ctx mod 64 < 64" by simp
  moreover have "Suc (lenW ctx) mod 64 = (if lenW ctx mod 64 = 63 then 0 else Suc (lenW ctx mod 64))" by (simp add: mod_Suc)
  ultimately show "(SHA1_byte 0 ctx, ctx) \<in> measure (\<lambda>ctx. if lenW ctx \<le> 56 then 56 - lenW ctx else 121 - lenW ctx mod 64)"
    by (auto simp: lenW_SHA1_byte split: if_splits)
qed simp

declare zero_pad.simps [simp del]

text \<open>The output loop takes the words apart in place.\<close>

definition output_step :: "nat \<Rightarrow> bytes \<times> u32 list \<Rightarrow> bytes \<times> u32 list" where
  "output_step i = (\<lambda>(out, H). (out @ [ucast (drop_bit 24 (H ! (i div 4)))], H[i div 4 := push_bit 8 (H ! (i div 4))]))"

definition SHA1_Final :: "sha_ctx \<Rightarrow> bytes \<times> sha_ctx" where
  "SHA1_Final ctx =
     (let hi = sizeHi ctx; lo = sizeLo ctx;
          padlen = [ucast (drop_bit 24 hi AND 255), ucast (drop_bit 16 hi AND 255), ucast (drop_bit 8 hi AND 255), ucast (hi AND 255),
                    ucast (drop_bit 24 lo AND 255), ucast (drop_bit 16 lo AND 255), ucast (drop_bit 8 lo AND 255), ucast (lo AND 255)];
          ctx1 = SHA1_Update padlen (zero_pad (SHA1_Update [0x80] ctx));
          (hashout, H) = fold output_step [0..<20] ([], sha_H ctx1)
      in (hashout, SHA1_Init))"

definition SHA1 :: "bytes \<Rightarrow> bytes" where
  "SHA1 dataIn = fst (SHA1_Final (SHA1_Update dataIn SHA1_Init))"

section \<open>FIPS 180\<close>

text \<open>
  The standard, written without any definition of the code: rotation is the library's
  \<open>word_rotl\<close>, the schedule and the rounds are its equations (section 6.1.2).
\<close>

definition be32 :: "u32 \<Rightarrow> bytes" where "be32 w = rev (le32 w)"
definition be64 :: "u64 \<Rightarrow> bytes" where "be64 w = rev (le64 w)"

definition fips_rotl :: "nat \<Rightarrow> u32 \<Rightarrow> u32" where
  "fips_rotl n x = word_rotl n x"

definition shift_in :: "u32 \<Rightarrow> byte \<Rightarrow> u32" where
  "shift_in w b = push_bit 8 w OR ucast b"

definition be_word :: "bytes \<Rightarrow> nat \<Rightarrow> u32" where
  "be_word bs i = foldl shift_in 0 (take 4 (drop (4 * i) bs))"

fun schedule :: "bytes \<Rightarrow> nat \<Rightarrow> u32" where
  "schedule block t = (if t < 16 then be_word block t
     else fips_rotl 1 (schedule block (t - 3) XOR schedule block (t - 8) XOR schedule block (t - 14) XOR schedule block (t - 16)))"

declare schedule.simps [simp del]

definition fips_f :: "nat \<Rightarrow> u32 \<Rightarrow> u32 \<Rightarrow> u32 \<Rightarrow> u32" where
  "fips_f t x y z =
     (if t < 20 then (x AND y) XOR (NOT x AND z)
      else if 40 \<le> t \<and> t < 60 then (x AND y) XOR (x AND z) XOR (y AND z)
      else x XOR y XOR z)"

definition fips_K :: "nat \<Rightarrow> u32" where
  "fips_K t = (if t < 20 then 0x5a827999 else if t < 40 then 0x6ed9eba1 else if t < 60 then 0x8f1bbcdc else 0xca62c1d6)"

definition fips_round :: "bytes \<Rightarrow> nat \<Rightarrow> u32 \<times> u32 \<times> u32 \<times> u32 \<times> u32 \<Rightarrow> u32 \<times> u32 \<times> u32 \<times> u32 \<times> u32" where
  "fips_round block t = (\<lambda>(a, b, c, d, e).
     let T = fips_rotl 5 a + fips_f t b c d + e + fips_K t + schedule block t
     in (T, a, fips_rotl 30 b, c, d))"

definition fips_rounds :: "bytes \<Rightarrow> u32 \<times> u32 \<times> u32 \<times> u32 \<times> u32 \<Rightarrow> u32 \<times> u32 \<times> u32 \<times> u32 \<times> u32" where
  "fips_rounds block = fold (fips_round block) [0..<80]"

definition compress :: "bytes \<Rightarrow> u32 list \<Rightarrow> u32 list" where
  "compress block H = (case fips_rounds block (H ! 0, H ! 1, H ! 2, H ! 3, H ! 4) of
     (a, b, c, d, e) \<Rightarrow> [H ! 0 + a, H ! 1 + b, H ! 2 + c, H ! 3 + d, H ! 4 + e])"

fun blocks :: "bytes \<Rightarrow> bytes list" where
  "blocks bs = (if length bs < 64 then [] else take 64 bs # blocks (drop 64 bs))"

declare blocks.simps [simp del]

definition fips_pad :: "bytes \<Rightarrow> bytes" where
  "fips_pad msg = msg @ [0x80] @ replicate ((119 - length msg mod 64) mod 64) 0 @ be64 (word_of_nat (8 * length msg))"

definition fips_sha1 :: "bytes \<Rightarrow> bytes" where
  "fips_sha1 msg = concat (map be32 (fold compress (blocks (fips_pad msg))
     [0x67452301, 0xefcdab89, 0x98badcfe, 0x10325476, 0xc3d2e1f0]))"

section \<open>One block\<close>

lemma shift_in_four: "foldl shift_in w [a, b, c, d] = foldl shift_in 0 [a, b, c, d]"
  by (rule bit_word_eqI) (auto simp: shift_in_def bit_simps)

lemma SHA_ROT_rotl: assumes "0 < n" "n < 32" shows "SHA_ROT x n = fips_rotl n x"
proof (rule bit_word_eqI)
  fix i assume i: "i < LENGTH(32)"
  have "i + 32 - n = 32 + (i - n)" if "n \<le> i" using that assms by simp
  then have m: "(i + (32 - n)) mod 32 = (if n \<le> i then i - n else i + 32 - n)"
    using i assms by (auto simp: mod_if)
  have "bit (fips_rotl n x) i \<longleftrightarrow> bit x ((i + (32 - n)) mod 32)"
    using i assms by (simp add: fips_rotl_def bit_word_rotl_iff)
  then show "bit (SHA_ROT x n) i = bit (fips_rotl n x) i"
    unfolding m using i assms by (auto simp: SHA_ROT_def bit_simps algebra_simps dest: bit_imp_le_length)
qed

lemma sha_step_round: "sha_step (fips_f t) (fips_K t) (schedule block t) = fips_round block t"
  by (auto simp: sha_step_def fips_round_def Let_def SHA_ROT_rotl algebra_simps)

lemma expand_schedule:
  assumes "length W = 80" "\<forall>i < 16. W ! i = be_word block i" "16 \<le> n" "n \<le> 80"
  shows "length (fold expand_step [16..<n] W) = 80 \<and> (\<forall>t < n. fold expand_step [16..<n] W ! t = schedule block t)"
  using assms(3,4)
proof (induction n rule: dec_induct)
  case base
  then show ?case using assms(1,2) by (simp add: schedule.simps)
next
  case (step n)
  define V where "V = fold expand_step [16..<n] W"
  have V: "length V = 80" "\<forall>t < n. V ! t = schedule block t" using step by (simp_all add: V_def)
  have f: "fold expand_step [16..<Suc n] W = expand_step n V" using step.hyps(1) by (simp add: V_def)
  have "schedule block n = SHA_ROT (V ! (n - 3) XOR V ! (n - 8) XOR V ! (n - 14) XOR V ! (n - 16)) 1"
    using V(2) step.hyps(1) by (subst schedule.simps) (simp add: SHA_ROT_rotl)
  then have "expand_step n V ! t = schedule block t" if "t < Suc n" for t
    using V step.prems that by (auto simp: expand_step_def nth_list_update less_Suc_eq)
  moreover have "length (expand_step n V) = 80" using V by (simp add: expand_step_def)
  ultimately show ?case unfolding f by blast
qed

lemma choose_eq: "((y XOR z) AND x) XOR z = (x AND y) XOR (NOT x AND z)" for x y z :: u32
  by (rule bit_word_eqI) (auto simp: bit_simps)

lemma majority_eq: "(x AND y) OR (z AND (x OR y)) = (x AND y) XOR (x AND z) XOR (y AND z)" for x y z :: u32
  by (rule bit_word_eqI) (auto simp: bit_simps)

lemma upt_rounds: "[0..<80] = [0..<20] @ [20..<40] @ [40..<60] @ [60..<80]"
  by (simp add: upt_add_eq_append[of 0 20 60, simplified] upt_add_eq_append[of 20 20 40, simplified] upt_add_eq_append[of 40 20 20, simplified])

lemma shaHashBlock_compress:
  assumes "length (sha_W ctx) = 80" "\<forall>i < 16. sha_W ctx ! i = be_word block i"
  shows "sha_H (shaHashBlock ctx) = compress block (sha_H ctx)" "length (sha_W (shaHashBlock ctx)) = 80"
    "sizeHi (shaHashBlock ctx) = sizeHi ctx" "sizeLo (shaHashBlock ctx) = sizeLo ctx"
proof -
  define W where "W = fold expand_step [16..<80] (sha_W ctx)"
  have W: "length W = 80" "\<And>t. t < 80 \<Longrightarrow> W ! t = schedule block t"
    using expand_schedule[OF assms, of 80] by (simp_all add: W_def)
  have seg: "fold (\<lambda>t. sha_step f k (W ! t)) [i..<j] s = fold (fips_round block) [i..<j] s"
    if "j \<le> 80" "\<And>t. i \<le> t \<Longrightarrow> t < j \<Longrightarrow> fips_f t = f" "\<And>t. i \<le> t \<Longrightarrow> t < j \<Longrightarrow> fips_K t = k" for f k i j s
    using that W(2) by (intro fold_cong) (auto simp: sha_step_round[symmetric])
  have 1: "fold (\<lambda>t. sha_step (\<lambda>b c d. ((c XOR d) AND b) XOR d) 0x5a827999 (W ! t)) [0..<20] s
      = fold (fips_round block) [0..<20] s" for s
    by (rule seg) (auto simp: fips_f_def fips_K_def fun_eq_iff choose_eq)
  have 2: "fold (\<lambda>t. sha_step (\<lambda>b c d. b XOR c XOR d) 0x6ed9eba1 (W ! t)) [20..<40] s
      = fold (fips_round block) [20..<40] s" for s
    by (rule seg) (auto simp: fips_f_def fips_K_def fun_eq_iff)
  have 3: "fold (\<lambda>t. sha_step (\<lambda>b c d. (b AND c) OR (d AND (b OR c))) 0x8f1bbcdc (W ! t)) [40..<60] s
      = fold (fips_round block) [40..<60] s" for s
    by (rule seg) (auto simp: fips_f_def fips_K_def fun_eq_iff majority_eq)
  have 4: "fold (\<lambda>t. sha_step (\<lambda>b c d. b XOR c XOR d) 0xca62c1d6 (W ! t)) [60..<80] s
      = fold (fips_round block) [60..<80] s" for s
    by (rule seg) (auto simp: fips_f_def fips_K_def fun_eq_iff)
  define A where "A = fold (fips_round block) [0..<80]"
  obtain a b c d e where A: "A (sha_H ctx ! 0, sha_H ctx ! 1, sha_H ctx ! 2, sha_H ctx ! 3, sha_H ctx ! 4) = (a, b, c, d, e)"
    using prod_cases5 by metis
  have "shaHashBlock ctx = ctx\<lparr>sha_H := [sha_H ctx ! 0 + a, sha_H ctx ! 1 + b, sha_H ctx ! 2 + c, sha_H ctx ! 3 + d, sha_H ctx ! 4 + e],
      sha_W := W\<rparr>"
    using A unfolding shaHashBlock_def W_def[symmetric] Let_def 1 2 3 4 A_def upt_rounds
    by (simp only: fold_append o_apply prod.case)
  moreover have "compress block (sha_H ctx) = [sha_H ctx ! 0 + a, sha_H ctx ! 1 + b, sha_H ctx ! 2 + c, sha_H ctx ! 3 + d, sha_H ctx ! 4 + e]"
    using A unfolding compress_def fips_rounds_def A_def[symmetric] by (simp only: prod.case)
  ultimately show "sha_H (shaHashBlock ctx) = compress block (sha_H ctx)" "length (sha_W (shaHashBlock ctx)) = 80"
    "sizeHi (shaHashBlock ctx) = sizeHi ctx" "sizeLo (shaHashBlock ctx) = sizeLo ctx"
    using W(1) by simp_all
qed

section \<open>Streaming\<close>

text \<open>The 64 bit length held in two halves.\<close>

definition size64 :: "u32 \<Rightarrow> u32 \<Rightarrow> u64" where
  "size64 hi lo = word_of_nat (unat hi * 2 ^ 32 + unat lo)"

lemma size64_add_8: "size64 (hi + (if lo + 8 < 8 then 1 else 0)) (lo + 8) = size64 hi lo + 8"
proof (cases "unat lo + 8 < 2 ^ 32")
  case True
  then have "unat (lo + 8) = unat lo + 8" by (simp add: unat_word_ariths)
  moreover from this have "\<not> lo + 8 < 8" by (simp add: word_less_nat_alt)
  ultimately show ?thesis by (simp add: size64_def)
next
  case False
  have "unat lo < 2 ^ 32" using unsigned_less[of lo] by simp
  then have lo: "unat (lo + 8) = unat lo + 8 - 2 ^ 32" using False by (simp add: unat_word_ariths le_mod_geq)
  then have "lo + 8 < 8" using \<open>unat lo < 2 ^ 32\<close> by (simp add: word_less_nat_alt)
  moreover have "word_of_nat (unat (hi + 1) * 2 ^ 32) = (word_of_nat ((unat hi + 1) * 2 ^ 32) :: u64)"
  proof -
    have "unat (hi + 1) * 2 ^ 32 = ((unat hi + 1) * 2 ^ 32) mod 2 ^ 64"
      using mult_mod_right[of "2 ^ 32" "unat hi + 1" "2 ^ 32"] by (simp add: unat_word_ariths mult.commute)
    moreover have "word_of_nat (n mod 2 ^ 64) = (word_of_nat n :: u64)" for n
      unfolding word_of_nat_eq_iff take_bit_eq_mod by simp
    ultimately show ?thesis by (simp only:)
  qed
  ultimately show ?thesis using lo False
    by (simp add: size64_def of_nat_diff algebra_simps)
qed

lemma size64_bytes: "be32 hi @ be32 lo = be64 (size64 hi lo)"
proof -
  have s: "size64 hi lo = push_bit 32 (ucast hi) OR ucast lo"
  proof -
    have "push_bit 32 (ucast hi :: u64) OR ucast lo = push_bit 32 (ucast hi) + ucast lo"
      by (rule disjunctive_add[symmetric]) (auto simp: bit_simps dest: bit_imp_le_length)
    also have "\<dots> = word_of_nat (unat hi * 2 ^ 32) + word_of_nat (unat lo)"
      by (simp add: push_bit_eq_mult)
    finally show ?thesis by (simp add: size64_def)
  qed
  have "ucast (size64 hi lo) = lo" unfolding s by (rule bit_word_eqI) (auto simp: bit_simps dest: bit_imp_le_length)
  moreover have "ucast (drop_bit 32 (size64 hi lo)) = hi" unfolding s by (rule bit_word_eqI) (auto simp: bit_simps dest: bit_imp_le_length)
  ultimately show ?thesis by (simp add: be64_def be32_def le64_split)
qed

text \<open>The bytes of the block that is being filled, and what the word buffer knows of them.\<close>

definition rest64 :: "bytes \<Rightarrow> bytes" where "rest64 bs = drop (64 * (length bs div 64)) bs"

definition holds_block :: "u32 list \<Rightarrow> bytes \<Rightarrow> bool" where
  "holds_block W r \<longleftrightarrow> length W = 80 \<and> (\<forall>i < 16. \<exists>old. W ! i = foldl shift_in old (take 4 (drop (4 * i) r)))"

definition absorbed :: "sha_ctx \<Rightarrow> bytes \<Rightarrow> bool" where
  "absorbed ctx bs \<longleftrightarrow> lenW ctx = length bs mod 64 \<and> holds_block (sha_W ctx) (rest64 bs)
     \<and> sha_H ctx = fold compress (blocks bs) [0x67452301, 0xefcdab89, 0x98badcfe, 0x10325476, 0xc3d2e1f0]
     \<and> size64 (sizeHi ctx) (sizeLo ctx) = word_of_nat (8 * length bs)"

lemma length_rest64: "length (rest64 bs) = length bs mod 64"
  by (simp add: rest64_def minus_mult_div_eq_mod)

lemma blocks_append: "64 dvd length xs \<Longrightarrow> blocks (xs @ ys) = blocks xs @ blocks ys"
proof (induction xs rule: blocks.induct)
  case (1 xs)
  show ?case
  proof (cases "length xs < 64")
    case True
    then have "xs = []" using 1(2) by (auto dest: nat_dvd_not_less)
    then show ?thesis by (simp add: blocks.simps[of "[]"])
  next
    case False
    then have "64 dvd length (drop 64 xs)" using 1(2) by (simp add: dvd_diff_nat)
    then show ?thesis using 1(1) False by (simp add: blocks.simps[of xs] blocks.simps[of "xs @ ys"])
  qed
qed

lemma blocks_rest:
  assumes "length bs div 64 = q"
  shows "blocks (bs @ [b]) = blocks bs @ (if length (rest64 bs) = 63 then [rest64 bs @ [b]] else [])"
    "rest64 (bs @ [b]) = (if length (rest64 bs) = 63 then [] else rest64 bs @ [b])"
proof -
  have bs: "bs = take (64 * q) bs @ rest64 bs" by (simp add: rest64_def assms)
  have d: "64 dvd length (take (64 * q) bs)" 
    using div_times_less_eq_dividend[of "length bs" 64] assms by (simp add: mult.commute min_absorb2)
  have l: "length (rest64 bs) < 64" by (simp add: length_rest64)
  have "blocks (take (64 * q) bs @ rest64 bs @ [b]) = blocks (take (64 * q) bs) @ blocks (rest64 bs @ [b])"
    by (rule blocks_append[OF d])
  moreover have "blocks (take (64 * q) bs @ rest64 bs) = blocks (take (64 * q) bs) @ blocks (rest64 bs)"
    by (rule blocks_append[OF d])
  moreover have "blocks (rest64 bs) = []" using l by (simp add: blocks.simps)
  moreover have "blocks (rest64 bs @ [b]) = (if length (rest64 bs) = 63 then [rest64 bs @ [b]] else [])"
    using l by (auto simp: blocks.simps[of "rest64 bs @ [b]"] blocks.simps[of "[]"])
  ultimately show "blocks (bs @ [b]) = blocks bs @ (if length (rest64 bs) = 63 then [rest64 bs @ [b]] else [])"
    by (subst bs, subst (2) bs) simp
  have len: "length bs = 64 * q + length (rest64 bs)"
    using assms div_mult_mod_eq[of "length bs" 64] by (simp add: length_rest64)
  show "rest64 (bs @ [b]) = (if length (rest64 bs) = 63 then [] else rest64 bs @ [b])"
  proof (cases "length (rest64 bs) = 63")
    case True
    then have "length (bs @ [b]) = 64 * Suc q" using len by simp
    then have "rest64 (bs @ [b]) = drop (length (bs @ [b])) (bs @ [b])" by (simp only: rest64_def) simp
    then show ?thesis using True by simp
  next
    case False
    then have "length (bs @ [b]) div 64 = q" using len l by simp
    then have "rest64 (bs @ [b]) = drop (64 * q) (bs @ [b])" by (simp only: rest64_def)
    moreover have "drop (64 * q) (bs @ [b]) = drop (64 * q) bs @ [b]" using len by simp
    moreover have "drop (64 * q) bs = rest64 bs" using assms by (simp only: rest64_def)
    ultimately show ?thesis using False by simp
  qed
qed

lemma holds_block_snoc:
  assumes "holds_block W r" "length r < 64"
  shows "holds_block (W[length r div 4 := push_bit 8 (W ! (length r div 4)) OR ucast b]) (r @ [b])"
  unfolding holds_block_def
proof (intro conjI allI impI)
  show "length (W[length r div 4 := push_bit 8 (W ! (length r div 4)) OR ucast b]) = 80"
    using assms(1) by (simp add: holds_block_def)
  fix i :: nat assume i: "i < 16"
  obtain old where old: "W ! i = foldl shift_in old (take 4 (drop (4 * i) r))" using assms(1) i by (auto simp: holds_block_def)
  have len: "length W = 80" using assms(1) by (simp add: holds_block_def)
  show "\<exists>old. W[length r div 4 := push_bit 8 (W ! (length r div 4)) OR ucast b] ! i = foldl shift_in old (take 4 (drop (4 * i) (r @ [b])))"
  proof (cases "i = length r div 4")
    case True
    then have "take 4 (drop (4 * i) (r @ [b])) = take 4 (drop (4 * i) r) @ [b]"
      using div_mult_mod_eq[of "length r" 4] mod_less_divisor[of 4 "length r"] by simp
    then show ?thesis using old True len i by (intro exI[of _ old]) (simp add: shift_in_def)
  next
    case False
    have "take 4 (drop (4 * i) (r @ [b])) = take 4 (drop (4 * i) r)"
    proof (cases "i < length r div 4")
      case True
      then have "4 * i + 4 \<le> length r" by linarith
      then show ?thesis by simp
    next
      case False
      then have "length r < 4 * i" using \<open>i \<noteq> length r div 4\<close> by linarith
      then show ?thesis by simp
    qed
    then show ?thesis using old False by (intro exI[of _ old]) (simp del: take_append drop_append)
  qed
qed

lemma list4: assumes "length xs = 4" obtains a b c d where "xs = [a, b, c, d]"
  using assms by (auto simp: length_Suc_conv numeral_eq_Suc)

lemma holds_block_full:
  assumes "holds_block W r" "length r = 64" "i < 16"
  shows "W ! i = be_word r i"
proof -
  obtain old where old: "W ! i = foldl shift_in old (take 4 (drop (4 * i) r))" using assms by (auto simp: holds_block_def)
  have "length (take 4 (drop (4 * i) r)) = 4" using assms(2,3) by simp
  then obtain a b c d where "take 4 (drop (4 * i) r) = [a, b, c, d]" by (rule list4)
  then show ?thesis using old shift_in_four[of old] by (simp only: be_word_def)
qed

lemma absorbed_byte:
  assumes "absorbed ctx bs" shows "absorbed (SHA1_byte b ctx) (bs @ [b])"
proof -
  define i where "i = lenW ctx div 4"
  define W1 where "W1 = (sha_W ctx)[i := push_bit 8 (sha_W ctx ! i) OR ucast b]"
  define ctx1 where "ctx1 = ctx\<lparr>sha_W := W1, lenW := lenW ctx + 1\<rparr>"
  have r: "length (rest64 bs) = lenW ctx" "lenW ctx < 64" using assms by (simp_all add: absorbed_def length_rest64)
  have W1: "holds_block W1 (rest64 bs @ [b])"
    using holds_block_snoc[of "sha_W ctx" "rest64 bs" b] assms r by (simp add: absorbed_def W1_def i_def)
  have size: "size64 (sizeHi ctx + (if sizeLo ctx + 8 < 8 then 1 else 0)) (sizeLo ctx + 8) = word_of_nat (8 * length (bs @ [b]))"
    using assms unfolding size64_add_8 by (simp add: absorbed_def algebra_simps)
  note rest = blocks_rest[OF refl, of bs b]
  show ?thesis
  proof (cases "lenW ctx = 63")
    case True
    define ctx2 where "ctx2 = (shaHashBlock ctx1)\<lparr>lenW := 0\<rparr>"
    have "length (sha_W ctx1) = 80" "\<forall>i < 16. sha_W ctx1 ! i = be_word (rest64 bs @ [b]) i"
      using W1 holds_block_full[OF W1] r True by (simp_all add: ctx1_def holds_block_def)
    from shaHashBlock_compress[OF this]
    have c2: "sha_H ctx2 = compress (rest64 bs @ [b]) (sha_H ctx)" "length (sha_W ctx2) = 80" "sizeHi ctx2 = sizeHi ctx"
        "sizeLo ctx2 = sizeLo ctx" "lenW ctx2 = 0"
      by (simp_all add: ctx2_def ctx1_def)
    have "SHA1_byte b ctx = ctx2\<lparr>sizeLo := sizeLo ctx2 + 8, sizeHi := sizeHi ctx2 + (if sizeLo ctx2 + 8 < 8 then 1 else 0)\<rparr>"
      unfolding SHA1_byte_def Let_def i_def[symmetric] W1_def[symmetric] ctx1_def[symmetric] ctx2_def[symmetric]
      using True by (simp add: ctx1_def)
    moreover have "\<exists>old. sha_W ctx2 ! j = foldl shift_in old []" for j by simp
    moreover have "Suc (length bs) mod 64 = 0" using assms True by (simp add: absorbed_def mod_Suc)
    ultimately show ?thesis using c2 size rest r True assms by (simp add: absorbed_def holds_block_def)
  next
    case False
    have "SHA1_byte b ctx = ctx1\<lparr>sizeLo := sizeLo ctx + 8, sizeHi := sizeHi ctx + (if sizeLo ctx + 8 < 8 then 1 else 0)\<rparr>"
      unfolding SHA1_byte_def Let_def i_def[symmetric] W1_def[symmetric] ctx1_def[symmetric]
      using False r by (simp add: ctx1_def)
    moreover have "Suc (length bs) mod 64 = Suc (lenW ctx)" using assms False by (simp add: absorbed_def mod_Suc)
    ultimately show ?thesis using size rest r False assms W1 by (simp add: absorbed_def ctx1_def)
  qed
qed

lemma absorbed_Init: "absorbed SHA1_Init []"
  by (auto simp: absorbed_def SHA1_Init_def holds_block_def rest64_def blocks.simps size64_def)

lemma absorbed_Update: "absorbed ctx bs \<Longrightarrow> absorbed (SHA1_Update data ctx) (bs @ data)"
  unfolding SHA1_Update_def
proof (induction data arbitrary: ctx bs)
  case (Cons b data)
  then show ?case using absorbed_byte[of ctx bs b] Cons.IH[of "SHA1_byte b ctx" "bs @ [b]"] by simp
qed simp

lemma absorbed_zero_pad:
  "absorbed ctx bs \<Longrightarrow> absorbed (zero_pad ctx) (bs @ replicate ((120 - length bs mod 64) mod 64) 0)"
proof (induction ctx arbitrary: bs rule: zero_pad.induct)
  case (1 ctx)
  have len: "lenW ctx = length bs mod 64" using "1.prems" by (simp add: absorbed_def)
  show ?case
  proof (cases "lenW ctx = 56")
    case True
    then show ?thesis using "1.prems" len by (simp add: zero_pad.simps[of ctx])
  next
    case False
    have "absorbed (zero_pad (SHA1_byte 0 ctx)) ((bs @ [0]) @ replicate ((120 - length (bs @ [0]) mod 64) mod 64) 0)"
      using "1.IH"[OF False] absorbed_byte[OF "1.prems"] by blast
    moreover have "Suc ((120 - length (bs @ [0]) mod 64) mod 64) = (120 - length bs mod 64) mod 64"
    proof -
      define k where "k = length bs mod 64"
      have k: "k < 64" "k \<noteq> 56" using False len by (simp_all add: k_def)
      have "length (bs @ [0]) mod 64 = (if k = 63 then 0 else Suc k)" by (simp add: k_def mod_Suc)
      moreover have "(120 - Suc k) mod 64 = (if Suc k \<le> 56 then 56 - Suc k else 120 - Suc k)" "(120 - k) mod 64 = (if k \<le> 56 then 56 - k else 120 - k)"
        using k by (auto simp: le_mod_geq)
      ultimately show ?thesis using k unfolding k_def[symmetric] by auto
    qed
    ultimately show ?thesis using False
      by (simp add: zero_pad.simps[of ctx] replicate_append_same flip: replicate_Suc)
  qed
qed

lemma padlen_bytes:
  "[ucast (drop_bit 24 hi AND 255), ucast (drop_bit 16 hi AND 255), ucast (drop_bit 8 hi AND 255), ucast (hi AND 255),
    ucast (drop_bit 24 lo AND 255), ucast (drop_bit 16 lo AND 255), ucast (drop_bit 8 lo AND 255), ucast (lo AND 255)]
   = be64 (size64 hi lo)"
proof -
  have m: "(255 :: u32) = mask 8" by (simp add: mask_eq_exp_minus_1)
  have "ucast (w AND mask 8) = (ucast w :: byte)" for w :: u32
    by (rule bit_word_eqI) (auto simp: bit_simps)
  then have "ucast (w AND 255) = (ucast w :: byte)" for w :: u32 unfolding m .
  then show ?thesis by (simp add: be32_def le32_def flip: size64_bytes)
qed

lemma output_bytes:
  "length H = 5 \<Longrightarrow> fst (fold output_step [0..<20] ([], H)) = concat (map be32 H)"
proof -
  assume "length H = 5"
  then obtain a b c d e where H: "H = [a, b, c, d, e]" by (auto simp: length_Suc_conv numeral_eq_Suc)
  have 1: "ucast (drop_bit 24 (push_bit n w)) = (ucast (drop_bit (24 - n) w) :: byte)" if "n \<le> 24" for n and w :: u32
    using that by (intro bit_word_eqI) (auto simp: bit_simps)
  show ?thesis by (simp add: H output_step_def 1 be32_def le32_def upt_rec numeral_2_eq_2)
qed

lemma fips_pad_length: "64 dvd length (fips_pad msg)"
proof -
  define k where "k = length msg mod 64"
  have k: "k < 64" by (simp add: k_def)
  have "length (fips_pad msg) = length msg + 9 + (119 - k) mod 64" by (simp add: fips_pad_def be64_def k_def)
  moreover have "(119 - k) mod 64 = (if k \<le> 55 then 55 - k else 119 - k)" using k by (auto simp: le_mod_geq)
  moreover have "length msg = 64 * (length msg div 64) + k" by (simp add: k_def)
  ultimately have "length (fips_pad msg) = 64 * (length msg div 64 + (if k \<le> 55 then 1 else 2))" using k by auto
  then show ?thesis by simp
qed

lemma SHA1_fips: "SHA1 msg = fips_sha1 msg"
proof -
  define ctx where "ctx = SHA1_Update msg SHA1_Init"
  have ctx: "absorbed ctx msg" using absorbed_Update[OF absorbed_Init, of msg] by (simp add: ctx_def)
  have size: "size64 (sizeHi ctx) (sizeLo ctx) = word_of_nat (8 * length msg)" using ctx by (simp add: absorbed_def)
  define m1 where "m1 = msg @ [0x80]"
  define m2 where "m2 = m1 @ replicate ((120 - length m1 mod 64) mod 64) 0"
  have "absorbed (zero_pad (SHA1_Update [0x80] ctx)) m2"
    unfolding m2_def m1_def by (rule absorbed_zero_pad[OF absorbed_Update[OF ctx]])
  from absorbed_Update[OF this, of "be64 (word_of_nat (8 * length msg))"]
  have fin: "absorbed (SHA1_Update (be64 (word_of_nat (8 * length msg))) (zero_pad (SHA1_Update [0x80] ctx)))
     (m2 @ be64 (word_of_nat (8 * length msg)))" .
  have "(120 - length m1 mod 64) mod 64 = (119 - length msg mod 64) mod 64"
    by (simp add: m1_def mod_Suc)
  then have pad: "m2 @ be64 (word_of_nat (8 * length msg)) = fips_pad msg" by (simp add: m2_def m1_def fips_pad_def)
  define ctx1 where "ctx1 = SHA1_Update (be64 (word_of_nat (8 * length msg))) (zero_pad (SHA1_Update [0x80] ctx))"
  have H: "sha_H ctx1 = fold compress (blocks (fips_pad msg)) [0x67452301, 0xefcdab89, 0x98badcfe, 0x10325476, 0xc3d2e1f0]"
    using fin unfolding pad ctx1_def by (simp add: absorbed_def)
  have "length (fold compress bs H) = 5" if "length H = 5" for bs and H :: "u32 list"
    using that by (induction bs arbitrary: H) (simp_all add: compress_def split: prod.split)
  then have "length (sha_H ctx1) = 5" unfolding H by simp
  from output_bytes[OF this]
  have "SHA1 msg = concat (map be32 (sha_H ctx1))"
    unfolding SHA1_def SHA1_Final_def ctx_def[symmetric] Let_def padlen_bytes size ctx1_def[symmetric]
    by (simp only: case_prod_unfold fst_conv)
  then show ?thesis unfolding H fips_sha1_def .
qed

text \<open>
  C17: The SHA-1 of the library is the function of FIPS 180: it pads the message, hashes its blocks
  of 64 bytes in order with the schedule and the round functions of the standard, and
  returns the chaining value in big endian order, for messages of any length (the bit
  length is taken modulo 2^64, as its field has 64 bits).
\<close>

theorem SHA1_is_FIPS180: "SHA1 msg = fips_sha1 msg"
  by (rule SHA1_fips)

lemma length_SHA1 [simp]: "length (SHA1 msg) = 20"
proof -
  have "length (fold compress bs H) = 5" if "length H = 5" for bs and H :: "u32 list"
    using that by (induction bs arbitrary: H) (simp_all add: compress_def split: prod.split)
  then have "length (fold compress (blocks (fips_pad msg)) [0x67452301, 0xefcdab89, 0x98badcfe, 0x10325476, 0xc3d2e1f0]) = 5" by simp
  then have "length (concat (map be32 (fold compress (blocks (fips_pad msg)) [0x67452301, 0xefcdab89, 0x98badcfe, 0x10325476, 0xc3d2e1f0]))) = 20"
    by (simp add: length_concat comp_def be32_def sum_list_triv)
  then show ?thesis by (simp only: SHA1_fips fips_sha1_def)
qed

end
