(* ===== verification/Base64.thy ===== *)
theory Base64 imports Barry_Prelude begin

text \<open>
  The base64 codec (src/src/base64.cc). Both directions write through the same output
  object, which starts a new line after 72 characters; the decoding table is a static
  array whose last entry is never filled. The theory gives the exact result of decoding
  what the encoder produced, for every input.
\<close>

section \<open>Input, output and tables\<close>

definition LINELEN :: nat where "LINELEN = 72"

text \<open>The text written so far and the length of its last line.\<close>

type_synonym base64_out = "bytes \<times> nat"

definition base64_output :: "byte \<Rightarrow> base64_out \<Rightarrow> base64_out" where
  "base64_output c o1 =
     (case o1 of (written, linelength) \<Rightarrow>
        if LINELEN \<le> linelength then (written @ [10, 32, c], 1)
        else (written @ [c], linelength + 1))"

text \<open>The encoding table: what the fill loops of encode leave in dtable.\<close>

definition enc_table :: "byte \<Rightarrow> byte" where
  "enc_table i =
     (if i < 26 then 0x41 + i
      else if i < 52 then 0x61 + (i - 26)
      else if i < 62 then 0x30 + (i - 52)
      else if i = 62 then 0x2b
      else 0x2f)"

text \<open>
  The decoding table. The loop that marks every entry illegal stops at 254; entry 255 keeps
  the zero of the static array, which encode never writes either.
\<close>

definition dec_table :: "byte \<Rightarrow> byte" where
  "dec_table c =
     (if 0x41 \<le> c \<and> c \<le> 0x5a then c - 0x41
      else if 0x61 \<le> c \<and> c \<le> 0x7a then 26 + (c - 0x61)
      else if 0x30 \<le> c \<and> c \<le> 0x39 then 52 + (c - 0x30)
      else if c = 0x2b then 62
      else if c = 0x2f then 63
      else if c = 0x3d then 0
      else if c < 255 then 0x80
      else 0)"

section \<open>Encoding\<close>

definition emit :: "bytes \<Rightarrow> base64_out \<Rightarrow> base64_out" where
  "emit cs o1 = fold base64_output cs o1"

definition sext0 :: "byte \<Rightarrow> byte" where "sext0 i0 = drop_bit 2 i0"
definition sext1 :: "byte \<Rightarrow> byte \<Rightarrow> byte" where "sext1 i0 i1 = push_bit 4 (i0 AND 3) OR drop_bit 4 i1"
definition sext2 :: "byte \<Rightarrow> byte \<Rightarrow> byte" where "sext2 i1 i2 = push_bit 2 (i1 AND 0xf) OR drop_bit 6 i2"
definition sext3 :: "byte \<Rightarrow> byte" where "sext3 i2 = i2 AND 0x3f"

definition encode_group :: "byte \<Rightarrow> byte \<Rightarrow> byte \<Rightarrow> nat \<Rightarrow> bytes" where
  "encode_group i0 i1 i2 n =
     [enc_table (sext0 i0),
      enc_table (sext1 i0 i1),
      if n < 2 then 0x3d else enc_table (sext2 i1 i2),
      if n < 3 then 0x3d else enc_table (sext3 i2)]"

text \<open>One turn of the loop reads up to three characters; a turn that reads none writes nothing.\<close>

fun encode_loop :: "bytes \<Rightarrow> base64_out \<Rightarrow> base64_out" where
  "encode_loop (a # b # c # rest) o1 = encode_loop rest (emit (encode_group a b c 3) o1)"
| "encode_loop [a, b] o1 = emit (encode_group a b 0 2) o1"
| "encode_loop [a] o1 = emit (encode_group a 0 0 1) o1"
| "encode_loop [] o1 = o1"

definition base64_encode :: "bytes \<Rightarrow> bytes" where
  "base64_encode input = fst (encode_loop input ([], 0))"

section \<open>Decoding\<close>

text \<open>The next character above the space, and what is left after it.\<close>

fun insig :: "bytes \<Rightarrow> (byte \<times> bytes) option" where
  "insig [] = None"
| "insig (c # rest) = (if 0x20 < c then Some (c, rest) else insig rest)"

fun read_group :: "nat \<Rightarrow> bytes \<Rightarrow> (bytes \<times> bytes) option" where
  "read_group 0 input = Some ([], input)"
| "read_group (Suc n) input =
     (case insig input of
        None \<Rightarrow> None
      | Some (c, rest) \<Rightarrow>
          if dec_table c AND 0x80 \<noteq> 0 then None
          else (case read_group n rest of None \<Rightarrow> None | Some (cs, rest') \<Rightarrow> Some (c # cs, rest')))"

definition decode_group :: "bytes \<Rightarrow> bytes" where
  "decode_group a =
     (let b = map dec_table a;
          out = [push_bit 2 (b ! 0) OR drop_bit 4 (b ! 1),
                 push_bit 4 (b ! 1) OR drop_bit 2 (b ! 2),
                 push_bit 6 (b ! 2) OR (b ! 3)]
      in take (if a ! 2 = 0x3d then 1 else if a ! 3 = 0x3d then 2 else 3) out)"

lemma insig_shorter: "insig input = Some (c, rest) \<Longrightarrow> length rest < length input"
  by (induction input) (auto split: if_splits)

lemma read_group_shorter: "read_group n input = Some (cs, rest) \<Longrightarrow> length rest + n \<le> length input"
proof (induction n arbitrary: input cs)
  case (Suc n)
  then show ?case by (auto split: option.splits if_splits dest!: insig_shorter) force
qed simp

function decode_loop :: "bytes \<Rightarrow> base64_out \<Rightarrow> bool \<times> base64_out" where
  "decode_loop input o1 =
     (case read_group 4 input of
        None \<Rightarrow> (False, o1)
      | Some (a, rest) \<Rightarrow>
          let o2 = emit (decode_group a) o1
          in if length (decode_group a) < 3 then (True, o2) else decode_loop rest o2)"
  by auto
termination
  by (relation "measure (length \<circ> fst)") (auto dest!: read_group_shorter)

declare decode_loop.simps [simp del]

definition base64_decode :: "bytes \<Rightarrow> bool \<times> bytes" where
  "base64_decode input = (case decode_loop input ([], 0) of (ok, o1) \<Rightarrow> (ok, fst o1))"

section \<open>The tables are inverse\<close>

lemma table_inverse_nat: "\<forall>n \<in> set [0..<64]. dec_table (enc_table (word_of_nat n)) = word_of_nat n
    \<and> dec_table (enc_table (word_of_nat n)) AND 0x80 = 0
    \<and> 0x20 < enc_table (word_of_nat n) \<and> enc_table (word_of_nat n) \<noteq> 0x3d"
  by code_simp

lemma word_of_nat_unat_id: "word_of_nat (unat (i :: byte)) = i"
  by simp

lemma table_inverse:
  assumes "i < 64"
  shows "dec_table (enc_table i) = i" "i AND 0x80 = 0"
    "0x20 < enc_table i" "enc_table i \<noteq> 0x3d"
proof -
  have "unat i < 64" using assms by (simp add: word_less_nat_alt)
  then have "unat i \<in> set [0..<64]" by simp
  from table_inverse_nat[rule_format, OF this]
  have "dec_table (enc_table i) = i \<and> dec_table (enc_table i) AND 0x80 = 0
    \<and> 0x20 < enc_table i \<and> enc_table i \<noteq> 0x3d"
    unfolding word_of_nat_unat_id .
  then show "dec_table (enc_table i) = i" "i AND 0x80 = 0"
    "0x20 < enc_table i" "enc_table i \<noteq> 0x3d" by metis+
qed

lemma byte_bits: "(n :: nat) < 8 \<longleftrightarrow> n = 0 \<or> n = 1 \<or> n = 2 \<or> n = 3 \<or> n = 4 \<or> n = 5 \<or> n = 6 \<or> n = 7"
  by auto

lemma byte_eqI:
  fixes v w :: byte
  assumes "bit v 0 = bit w 0" "bit v 1 = bit w 1" "bit v 2 = bit w 2" "bit v 3 = bit w 3"
    "bit v 4 = bit w 4" "bit v 5 = bit w 5" "bit v 6 = bit w 6" "bit v 7 = bit w 7"
  shows "v = w"
proof (rule bit_word_eqI)
  fix n assume "n < LENGTH(8)"
  then have "n < 8" by simp
  then show "bit v n = bit w n" using assms by (auto simp only: byte_bits)
qed

lemma byte_no_bit [simp]: "8 \<le> n \<Longrightarrow> \<not> bit (w :: byte) n"
  by (auto dest: bit_imp_le_length)

lemma byte_lt_64I: "\<not> bit (i :: byte) 6 \<Longrightarrow> \<not> bit i 7 \<Longrightarrow> i < 64"
proof -
  assume *: "\<not> bit i 6" "\<not> bit i 7"
  have "i = take_bit 6 i" by (rule byte_eqI) (use * in \<open>simp_all add: bit_simps\<close>)
  then have "uint i = take_bit 6 (uint i)" by (metis unsigned_take_bit_eq)
  then have "uint i < 64" using take_bit_int_less_exp[of 6 "uint i"] by simp
  then show "i < 64" by (simp add: word_less_def)
qed

lemmas sext_defs = sext0_def sext1_def sext2_def sext3_def

lemma sextet_bounds: "sext0 a < 64" "sext1 a b < 64" "sext2 b c < 64" "sext3 c < 64"
  by (rule byte_lt_64I; simp add: sext_defs bit_simps)+

text \<open>Three octets are put together again from their four sextets.\<close>

lemma octets:
  "push_bit 2 (sext0 a) OR drop_bit 4 (sext1 a b) = a"
  "push_bit 4 (sext1 a b) OR drop_bit 2 (sext2 b c) = b"
  "push_bit 6 (sext2 b c) OR sext3 c = c"
  unfolding sext_defs by (rule byte_eqI; simp add: bit_simps)+

section \<open>Groups\<close>

lemmas group_simps = encode_group_def decode_group_def table_inverse sextet_bounds octets

lemma decode_encode_group:
  "decode_group (encode_group a b c 3) = [a, b, c]"
  "decode_group (encode_group a b 0 2) = [a, b]"
  "decode_group (encode_group a 0 0 1) = [a]"
  by (simp_all add: group_simps Let_def)

lemma length_encode_group [simp]: "length (encode_group a b c n) = 4"
  by (simp add: encode_group_def)

definition legal :: "byte \<Rightarrow> bool" where
  "legal x \<longleftrightarrow> 0x20 < x \<and> dec_table x AND 0x80 = 0"

lemma legal_table: "i < 64 \<Longrightarrow> legal (enc_table i)"
  using table_inverse[of i] by (simp add: legal_def)

lemma legal_group [simp]: "list_all legal (encode_group a b c n)"
proof -
  have "legal 0x3d" by (simp add: legal_def dec_table_def)
  then show ?thesis by (simp add: encode_group_def legal_table sextet_bounds)
qed

section \<open>What the decoder reads\<close>

definition significant :: "bytes \<Rightarrow> bytes" where
  "significant input = filter (\<lambda>c. 0x20 < c) input"

lemma insig_significant:
  "insig input = None \<longleftrightarrow> significant input = []"
  "insig input = Some (c, rest) \<Longrightarrow> significant input = c # significant rest"
  by (induction input) (auto simp: significant_def split: if_splits)

lemma read_group_significant:
  "significant input = cs @ more \<Longrightarrow> list_all legal cs \<Longrightarrow>
     \<exists>rest. read_group (length cs) input = Some (cs, rest) \<and> significant rest = more"
proof (induction cs arbitrary: input)
  case (Cons c cs)
  then obtain rest where rest: "insig input = Some (c, rest)"
    using insig_significant[of input] by (cases "insig input") auto
  then have "significant rest = cs @ more"
    using insig_significant(2)[OF rest] Cons.prems(1) by simp
  from Cons.IH[OF this] Cons.prems(2) rest show ?case by (auto simp: legal_def)
qed simp

lemma read_group_end: "significant input = [] \<Longrightarrow> read_group (Suc n) input = None"
  using insig_significant(1)[of input] by simp

section \<open>Writing in lines\<close>

lemma emit_simps [simp]:
  "emit [] o1 = o1"
  "emit (c # cs) o1 = emit cs (base64_output c o1)"
  "emit (xs @ ys) o1 = emit ys (emit xs o1)"
  by (simp_all add: emit_def)

lemma significant_emit:
  "list_all legal cs \<Longrightarrow> significant (fst (emit cs o1)) = significant (fst o1) @ cs"
  by (induction cs arbitrary: o1)
     (auto simp: base64_output_def significant_def legal_def split: prod.split)

lemma emit_line:
  "l + length cs \<le> 72 \<Longrightarrow> emit cs (written, l) = (written @ cs, l + length cs)"
  by (induction cs arbitrary: written l) (auto simp: base64_output_def LINELEN_def)

lemma emit_break:
  "cs \<noteq> [] \<Longrightarrow> emit cs (written, 72) = emit cs (written @ [10, 32], 0)"
  by (cases cs) (simp_all add: base64_output_def LINELEN_def)

text \<open>A text laid out in lines of 72 characters, each continued after a newline and a space.\<close>

function in_lines :: "bytes \<Rightarrow> bytes" where
  "in_lines cs = (if length cs \<le> 72 then cs else take 72 cs @ [10, 32] @ in_lines (drop 72 cs))"
  by auto
termination by (relation "measure length") auto

declare in_lines.simps [simp del]

lemma emit_in_lines: "fst (emit cs (written, 0)) = written @ in_lines cs"
proof (induction cs arbitrary: written rule: in_lines.induct)
  case (1 cs)
  show ?case
  proof (cases "length cs \<le> 72")
    case True
    then show ?thesis by (simp add: emit_line in_lines.simps[of cs])
  next
    case False
    have "emit cs (written, 0) = emit (take 72 cs @ drop 72 cs) (written, 0)" by simp
    also have "\<dots> = emit (drop 72 cs) (written @ take 72 cs, 72)"
      unfolding emit_simps(3) using False by (subst emit_line) auto
    also have "\<dots> = emit (drop 72 cs) (written @ take 72 cs @ [10, 32], 0)"
      using False by (subst emit_break) auto
    finally show ?thesis
      using 1[OF False, of "written @ take 72 cs @ [10, 32]"] False in_lines.simps[of cs] by simp
  qed
qed

section \<open>Encoding, then decoding\<close>

fun groups :: "bytes \<Rightarrow> bytes" where
  "groups (a # b # c # rest) = encode_group a b c 3 @ groups rest"
| "groups [a, b] = encode_group a b 0 2"
| "groups [a] = encode_group a 0 0 1"
| "groups [] = []"

lemma encode_loop_groups: "encode_loop bs o1 = emit (groups bs) o1"
  by (induction bs o1 rule: encode_loop.induct) simp_all

lemma legal_groups: "list_all legal (groups bs)"
  by (induction bs rule: groups.induct) simp_all

lemma decode_step:
  assumes "significant input = encode_group a b c n @ more"
  obtains rest where "significant rest = more"
    and "decode_loop input o1 =
      (let o2 = emit (decode_group (encode_group a b c n)) o1
       in if length (decode_group (encode_group a b c n)) < 3 then (True, o2) else decode_loop rest o2)"
proof -
  obtain rest where "read_group 4 input = Some (encode_group a b c n, rest)" and "significant rest = more"
    using read_group_significant[OF assms] by auto
  then show thesis using that by (simp add: decode_loop.simps[of input])
qed

lemma Suc3_eq_4: "Suc 3 = 4"
  by simp

lemma decode_groups:
  "significant input = groups bs \<Longrightarrow> decode_loop input o1 = (length bs mod 3 \<noteq> 0, emit bs o1)"
proof (induction bs arbitrary: input o1 rule: groups.induct)
  case (1 a b c rest)
  obtain rest' where rest': "significant rest' = groups rest"
    and step: "decode_loop input o1 = decode_loop rest' (emit [a, b, c] o1)"
    using decode_step[of input a b c 3 "groups rest" o1] 1(2) by (auto simp: decode_encode_group Let_def)
  have "length (a # b # c # rest) mod 3 = length rest mod 3"
    by (simp only: list.size) presburger
  moreover have "emit [a, b, c] o1 = base64_output c (base64_output b (base64_output a o1))"
    by simp
  ultimately show ?case using 1(1)[OF rest'] step by (simp only: emit_simps)
next
  case (2 a b)
  then have "significant input = encode_group a b 0 2 @ []" by simp
  from decode_step[OF this, of o1] show ?case by (simp add: decode_encode_group decode_encode_group[unfolded One_nat_def] Let_def del: emit_simps)
next
  case (3 a)
  then have "significant input = encode_group a 0 0 1 @ []" by simp
  from decode_step[OF this, of o1] show ?case by (simp add: decode_encode_group decode_encode_group[unfolded One_nat_def] Let_def del: emit_simps)
next
  case 4
  then have "read_group (Suc 3) input = None" by (intro read_group_end) simp
  then have "read_group 4 input = None" by (simp only: Suc3_eq_4)
  then show ?case by (simp add: decode_loop.simps[of input])
qed

text \<open>
  What decoding makes of encoded data, exactly and for every input: the decoder
  reports success if and only if the length of the data is not a multiple of three (the
  loop only returns true after a group with padding), and the data come back with a
  newline and a space after every 72 bytes, because the decoder writes through the line
  breaking output of the encoder. So the codec loses nothing exactly up to 72 bytes.
\<close>

theorem base64_decode_encode:
  "base64_decode (base64_encode bs) = (length bs mod 3 \<noteq> 0, in_lines bs)"
proof -
  have "significant (base64_encode bs) = groups bs"
    by (simp add: base64_encode_def encode_loop_groups significant_emit[OF legal_groups])
       (simp add: significant_def)
  from decode_groups[OF this, of "([], 0)"] show ?thesis
    using emit_in_lines[of bs "[]"] by (simp add: base64_decode_def)
qed

definition ff_to_A :: "byte \<Rightarrow> byte" where
  "ff_to_A c = (if c = 0xff then 0x41 else c)"

lemma ff_to_A_simps:
  "dec_table (ff_to_A c) = dec_table c" "0x20 < ff_to_A c \<longleftrightarrow> 0x20 < c" "ff_to_A c = 0x3d \<longleftrightarrow> c = 0x3d"
  by (auto simp: ff_to_A_def dec_table_def)

lemma insig_map: "insig (map ff_to_A input) = map_option (\<lambda>(c, rest). (ff_to_A c, map ff_to_A rest)) (insig input)"
  by (induction input) (auto simp: ff_to_A_simps)

lemma read_group_map:
  "read_group n (map ff_to_A input) = map_option (\<lambda>(cs, rest). (map ff_to_A cs, map ff_to_A rest)) (read_group n input)"
  by (induction n arbitrary: input) (auto simp: insig_map ff_to_A_simps split: option.split)

lemma read_group_length: "read_group n input = Some (cs, rest) \<Longrightarrow> length cs = n"
  by (induction n arbitrary: input cs) (auto split: option.splits if_splits)

lemma decode_group_map: "length cs = 4 \<Longrightarrow> decode_group (map ff_to_A cs) = decode_group cs"
  by (simp add: decode_group_def comp_def ff_to_A_simps)

lemma decode_loop_map: "decode_loop (map ff_to_A input) o1 = decode_loop input o1"
proof (induction input o1 rule: decode_loop.induct)
  case (1 input o1)
  show ?case
  proof (cases "read_group 4 input")
    case None
    then show ?thesis by (simp add: decode_loop.simps[of input] decode_loop.simps[of "map ff_to_A input"] read_group_map)
  next
    case (Some p)
    obtain a rest where p: "p = (a, rest)" by (cases p)
    with Some have "decode_group (map ff_to_A a) = decode_group a"
      using read_group_length decode_group_map by blast
    then show ?thesis
      using 1[OF Some p[symmetric]] Some p
      by (simp add: decode_loop.simps[of input] decode_loop.simps[of "map ff_to_A input"] read_group_map Let_def)
  qed
qed

text \<open>
  The one byte whose table entry is never set, 0xff, is not rejected: it decodes like
  the letter A, in every position of every input.
\<close>

theorem base64_decode_ff: "base64_decode (map ff_to_A input) = base64_decode input"
  by (simp add: base64_decode_def decode_loop_map)

end
