(* ===== verification/Ppp_Filter.thy ===== *)
theory Ppp_Filter imports Data_Buffer begin

text \<open>
  PppFilter (src/src/pppfilter.cc, src/src/pppfilter.h): the filter between pppd and the
  modem of the device, which must see every PPP frame with a flag byte 0x7e of its own at
  both ends. The theory shows that the buffer the filter reserves is always large enough,
  that the result does not depend on how the stream is cut into writes, and what the
  filtered stream looks like.
\<close>

section \<open>State and operations\<close>

record ppp_filter =
  m_writeBuf :: data
  m_ppp_mode :: bool
  m_last :: byte

definition PppFilter_new :: ppp_filter where
  "PppFilter_new = \<lparr>m_writeBuf = Data_default, m_ppp_mode = False, m_last = 0x7e\<rparr>"

text \<open>One turn of the loop of Filter: bytes stored, input left, and m_last.\<close>

definition open_frame :: "bytes \<Rightarrow> byte \<Rightarrow> bytes \<times> bytes \<times> byte" where
  "open_frame b prev =
     (if prev = 0x7e
      then (if byte_at b 0 \<noteq> 0x7e then ([0x7e], b, 0) else ([byte_at b 0], tl b, 0))
      else ([], b, prev))"

lemma open_frame_shorter: "open_frame b prev = (put, b', prev1) \<Longrightarrow> length b' \<le> length b"
  by (auto simp: open_frame_def split: if_splits)

lemma dropWhile_shorter: "dropWhile P b = flag # b' \<Longrightarrow> length b' < length b"
  by (metis length_Cons length_dropWhile_le less_eq_Suc_le)

function filter_loop :: "bytes \<Rightarrow> byte \<Rightarrow> bytes \<times> byte" where
  "filter_loop [] prev = ([], prev)"
| "filter_loop (x # xs) prev =
     (case open_frame (x # xs) prev of (put, b, prev1) \<Rightarrow>
        case dropWhile (\<lambda>c. c \<noteq> 0x7e) b of
          [] \<Rightarrow> (put @ takeWhile (\<lambda>c. c \<noteq> 0x7e) b, prev1)
        | flag # b' \<Rightarrow>
            (case filter_loop b' 0x7e of
               (out, prev2) \<Rightarrow> (put @ takeWhile (\<lambda>c. c \<noteq> 0x7e) b @ [flag] @ out, prev2)))"
  by pat_completeness auto

termination filter_loop
  by (relation "measure (length \<circ> fst)") (auto dest!: dropWhile_shorter open_frame_shorter[OF sym])

definition filter_needed :: "nat \<Rightarrow> nat \<Rightarrow> nat" where
  "filter_needed n destoffset = n div 2 * 3 + 4 + destoffset"

definition Filter :: "data \<Rightarrow> bytes \<Rightarrow> nat \<Rightarrow> byte \<Rightarrow> (data \<times> byte) res" where
  "Filter dest src destoffset prev =
     (case filter_loop src prev of (out, prev') \<Rightarrow>
        rbind (GetBuffer dest (filter_needed (length src) destoffset)) (\<lambda>d1.
        rbind (write_at d1 (destoffset, out)) (\<lambda>d2.
        rbind (ReleaseBuffer d2 (int (length out + destoffset))) (\<lambda>d3. Inr (d3, prev')))))"

text \<open>Write returns the caller's data or the internal buffer; the result is what the caller sees.\<close>

definition Write :: "ppp_filter \<Rightarrow> bytes \<Rightarrow> (bytes \<times> ppp_filter) res" where
  "Write f src =
     (if src = [] then Inr (src, f)
      else
        let f1 = (if \<not> m_ppp_mode f \<and> byte_at src 0 = 0x7e then f\<lparr>m_ppp_mode := True\<rparr> else f)
        in if \<not> m_ppp_mode f1 then Inr (src, f1)
           else rbind (Filter (m_writeBuf f1) src 0 (m_last f1)) (\<lambda>(buf, prev).
                  Inr (contents buf, f1\<lparr>m_writeBuf := buf, m_last := prev\<rparr>)))"

definition Write_prepend :: "ppp_filter \<Rightarrow> bytes \<Rightarrow> nat \<Rightarrow> ppp_filter res" where
  "Write_prepend f src prepend =
     (let f1 = (if \<not> m_ppp_mode f \<and> src \<noteq> [] \<and> byte_at src 0 = 0x7e then f\<lparr>m_ppp_mode := True\<rparr> else f)
      in if \<not> m_ppp_mode f1
         then rbind (GetBuffer (m_writeBuf f1) (length src + prepend)) (\<lambda>d1.
              rbind (write_at d1 (prepend, src)) (\<lambda>d2.
              rbind (ReleaseBuffer d2 (int (length src + prepend))) (\<lambda>d3.
                Inr (f1\<lparr>m_writeBuf := d3\<rparr>))))
         else rbind (Filter (m_writeBuf f1) src prepend (m_last f1)) (\<lambda>(buf, prev).
                Inr (f1\<lparr>m_writeBuf := buf, m_last := prev\<rparr>)))"

section \<open>The filter as a machine on single bytes\<close>

text \<open>The abstract filter keeps one bit: whether it is inside a frame.\<close>

primrec frame_filter :: "bool \<Rightarrow> bytes \<Rightarrow> bytes \<times> bool" where
  "frame_filter inside [] = ([], inside)"
| "frame_filter inside (x # xs) =
     (if x = 0x7e
      then (case frame_filter (\<not> inside) xs of (out, i) \<Rightarrow> (0x7e # out, i))
      else (case frame_filter True xs of (out, i) \<Rightarrow> ((if inside then [x] else [0x7e, x]) @ out, i)))"

lemma frame_filter_append:
  "frame_filter i (xs @ ys) =
     (case frame_filter i xs of (out, i1) \<Rightarrow> case frame_filter i1 ys of (out', i2) \<Rightarrow> (out @ out', i2))"
  by (induction xs arbitrary: i) (auto split: prod.splits)

lemma frame_filter_plain: "\<forall>x \<in> set xs. x \<noteq> 0x7e \<Longrightarrow> frame_filter True xs = (xs, True)"
  by (induction xs) auto

lemma open_frame_filter:
  "open_frame (x # xs) prev = (put, b, prev1) \<Longrightarrow>
     frame_filter (prev \<noteq> 0x7e) (x # xs) = (case frame_filter True b of (out, i) \<Rightarrow> (put @ out, i))
     \<and> prev1 \<noteq> 0x7e"
  by (auto simp: open_frame_def split: if_splits prod.splits)

lemma filter_loop_frame_filter:
  "fst (filter_loop src prev) = fst (frame_filter (prev \<noteq> 0x7e) src)
   \<and> (snd (filter_loop src prev) \<noteq> 0x7e) = snd (frame_filter (prev \<noteq> 0x7e) src)"
proof (induction src prev rule: filter_loop.induct)
  case (1 prev)
  show ?case by simp
next
  case (2 x xs prev)
  obtain put b prev1 where o: "open_frame (x # xs) prev = (put, b, prev1)" by (cases "open_frame (x # xs) prev")
  note f = open_frame_filter[OF o]
  define body where "body = takeWhile (\<lambda>c. c \<noteq> 0x7e) b"
  have body: "frame_filter True body = (body, True)"
    unfolding body_def by (rule frame_filter_plain) (auto dest: set_takeWhileD)
  have b: "b = body @ dropWhile (\<lambda>c. c \<noteq> 0x7e) b" by (simp add: body_def)
  show ?case
  proof (cases "dropWhile (\<lambda>c. c \<noteq> 0x7e) b")
    case Nil
    then have "body = b" using b by (metis append_Nil2)
    then have "frame_filter True b = (body, True)" using body by simp
    then show ?thesis using f o Nil by (simp add: body_def del: frame_filter.simps dropWhile_eq_Nil_conv)
  next
    case (Cons flag b')
    then have flag: "flag = 0x7e" using hd_dropWhile[of "\<lambda>c. c \<noteq> 0x7e" b] by simp
    have "frame_filter True b = (case frame_filter False b' of (out, i) \<Rightarrow> (body @ 0x7e # out, i))"
      by (subst b) (simp add: Cons flag frame_filter_append body split: prod.split)
    then show ?thesis
      using f o Cons flag 2[OF o[symmetric] refl Cons]
      by (auto simp: body_def[symmetric] split: prod.splits)
  qed
qed

section \<open>What the filtered stream looks like\<close>

text \<open>Outside a frame the next byte of a well framed stream is a flag.\<close>

primrec well_framed :: "bool \<Rightarrow> bytes \<Rightarrow> bool" where
  "well_framed inside [] = True"
| "well_framed inside (x # xs) = (if x = 0x7e then well_framed (\<not> inside) xs else inside \<and> well_framed True xs)"

lemma frame_filter_Cons:
  "fst (frame_filter i (x # xs)) =
     (if x = 0x7e then 0x7e # fst (frame_filter (\<not> i) xs)
      else (if i then [x] else [0x7e, x]) @ fst (frame_filter True xs))"
  by (simp add: case_prod_beta)

lemma frame_filter_framed: "well_framed i (fst (frame_filter i src))"
  by (induction src arbitrary: i) (simp_all add: frame_filter_Cons del: frame_filter.simps(2))

lemma frame_filter_payload: "filter (\<lambda>c. c \<noteq> 0x7e) (fst (frame_filter i src)) = filter (\<lambda>c. c \<noteq> 0x7e) src"
  by (induction src arbitrary: i) (simp_all add: frame_filter_Cons del: frame_filter.simps(2))

lemma frame_filter_id: "well_framed i src \<Longrightarrow> fst (frame_filter i src) = src"
  by (induction src arbitrary: i) (auto simp: frame_filter_Cons simp del: frame_filter.simps(2) split: if_splits)

lemma frame_filter_length: "2 * length (fst (frame_filter i src)) \<le> 3 * length src + (if i then 0 else 1)"
proof (induction src arbitrary: i)
  case (Cons x xs)
  show ?case using Cons.IH[of True] Cons.IH[of False] by (cases i) (auto simp: frame_filter_Cons simp del: frame_filter.simps(2))
qed simp

lemma filter_loop_length: "destoffset + length (fst (filter_loop src prev)) \<le> filter_needed (length src) destoffset"
proof -
  have "2 * length (fst (filter_loop src prev)) \<le> 3 * length src + 1"
    using frame_filter_length[of "prev \<noteq> 0x7e" src] filter_loop_frame_filter[of src prev] by (simp split: if_splits)
  then show ?thesis unfolding filter_needed_def by linarith
qed

section \<open>Filters on streams\<close>

text \<open>A filter whose result on a stream does not depend on the places the stream is cut at.\<close>

locale stream_filter =
  fixes step :: "'s \<Rightarrow> bytes \<Rightarrow> bytes \<times> 's"
  assumes step_Nil: "step s [] = ([], s)"
    and step_append: "step s (xs @ ys) = (fst (step s xs) @ fst (step (snd (step s xs)) ys), snd (step (snd (step s xs)) ys))"
begin

lemma fold_chunks:
  "fold (\<lambda>c (out, s). (out @ fst (step s c), snd (step s c))) cs (out, s)
   = (out @ fst (step s (concat cs)), snd (step s (concat cs)))"
  by (induction cs arbitrary: out s) (simp_all add: step_Nil step_append)

end

interpretation framing: stream_filter frame_filter
  by unfold_locales (auto simp: frame_filter_append split: prod.split)

section \<open>Filter, Write\<close>

lemma Filter_spec:
  assumes "data_ok dest"
  shows "\<exists>buf prev'. Filter dest src destoffset prev = Inr (buf, prev') \<and> data_ok buf
     \<and> length (contents buf) = destoffset + length (fst (frame_filter (prev \<noteq> 0x7e) src))
     \<and> drop destoffset (contents buf) = fst (frame_filter (prev \<noteq> 0x7e) src)
     \<and> (prev' \<noteq> 0x7e) = snd (frame_filter (prev \<noteq> 0x7e) src)"
proof -
  obtain out prev' where l: "filter_loop src prev = (out, prev')" by (cases "filter_loop src prev")
  note spec = filter_loop_frame_filter[of src prev] filter_loop_length[of destoffset src prev]
  show ?thesis
    using write_behind_offset[OF assms, of destoffset out "filter_needed (length src) destoffset"] spec l
    by (auto simp: Filter_def)
qed

definition ppp_ok :: "ppp_filter \<Rightarrow> bool" where
  "ppp_ok f \<longleftrightarrow> data_ok (m_writeBuf f)"

definition inside_frame :: "ppp_filter \<Rightarrow> bool" where
  "inside_frame f \<longleftrightarrow> m_last f \<noteq> 0x7e"

lemma Write_ppp:
  assumes "ppp_ok f" "m_ppp_mode f"
  shows "\<exists>f'. Write f src = Inr (fst (frame_filter (inside_frame f) src), f') \<and> ppp_ok f' \<and> m_ppp_mode f'
     \<and> inside_frame f' = snd (frame_filter (inside_frame f) src)"
proof (cases "src = []")
  case True
  then show ?thesis using assms by (simp add: Write_def)
next
  case False
  obtain buf prev' where "Filter (m_writeBuf f) src 0 (m_last f) = Inr (buf, prev')" "data_ok buf"
    "contents buf = fst (frame_filter (inside_frame f) src)" "(prev' \<noteq> 0x7e) = snd (frame_filter (inside_frame f) src)"
    using Filter_spec[of "m_writeBuf f" src 0 "m_last f"] assms by (auto simp: ppp_ok_def inside_frame_def)
  then show ?thesis using assms False by (auto simp: Write_def ppp_ok_def inside_frame_def)
qed

text \<open>A sequence of writes, with what the device gets to see.\<close>

primrec write_stream :: "ppp_filter \<Rightarrow> bytes list \<Rightarrow> (bytes \<times> ppp_filter) res" where
  "write_stream f [] = Inr ([], f)"
| "write_stream f (c # cs) =
     rbind (Write f c) (\<lambda>(out, f1). rbind (write_stream f1 cs) (\<lambda>(outs, f2). Inr (out @ outs, f2)))"

lemma write_stream_ppp:
  "ppp_ok f \<Longrightarrow> m_ppp_mode f \<Longrightarrow>
     \<exists>f'. write_stream f cs = Inr (fst (frame_filter (inside_frame f) (concat cs)), f')"
proof (induction cs arbitrary: f)
  case (Cons c cs)
  obtain f1 where f1: "Write f c = Inr (fst (frame_filter (inside_frame f) c), f1)" "ppp_ok f1" "m_ppp_mode f1"
      "inside_frame f1 = snd (frame_filter (inside_frame f) c)"
    using Write_ppp[OF Cons.prems, of c] by blast
  then show ?case
    using Cons.IH[of f1] framing.step_append[of "inside_frame f" c "concat cs"] by auto
qed simp

text \<open>
  From a fresh filter, a stream that starts with a flag is filtered without error and
  without ever writing past the reserved buffer, however it is cut into writes; the
  device sees a stream in which every frame has its own opening and closing flag, whose
  bytes other than flags are those of the input in their order, and which is the input
  itself if that was framed like this already.
\<close>

theorem ppp_stream:
  assumes "cs = (0x7e # c) # cs'"
  shows "\<exists>out f'. write_stream PppFilter_new cs = Inr (out, f')
     \<and> well_framed False out
     \<and> filter (\<lambda>c. c \<noteq> 0x7e) out = filter (\<lambda>c. c \<noteq> 0x7e) (concat cs)
     \<and> (well_framed False (concat cs) \<longrightarrow> out = concat cs)"
proof -
  define f where "f = PppFilter_new\<lparr>m_ppp_mode := True\<rparr>"
  have f: "ppp_ok f" "m_ppp_mode f" "\<not> inside_frame f"
    by (simp_all add: f_def PppFilter_new_def ppp_ok_def inside_frame_def)
  have "Write PppFilter_new (0x7e # c) = Write f (0x7e # c)"
    by (simp add: Write_def f_def PppFilter_new_def Let_def)
  then have "write_stream PppFilter_new cs = write_stream f cs" by (simp add: assms)
  then show ?thesis
    using write_stream_ppp[OF f(1,2), of cs] f(3)
    by (auto simp: frame_filter_framed frame_filter_payload frame_filter_id)
qed


lemma ppp_stream_witness:
  "\<exists>out f'. write_stream PppFilter_new [[0x7e, 1], [2, 0x7e], [3, 0x7e]] = Inr (out, f')
     \<and> well_framed False out \<and> filter (\<lambda>c. c \<noteq> 0x7e) out = [1, 2, 3]"
  using ppp_stream[of "[[0x7e, 1], [2, 0x7e], [3, 0x7e]]" "[1]" "[[2, 0x7e], [3, 0x7e]]"] by auto

text \<open>
  The two forms of Write agree: asked for space in front of the data, the filter
  returns exactly that many bytes followed by what the plain Write returns for the same
  data in the same state, and moves to the same mode and frame state.
\<close>

theorem Write_prepend_Write:
  assumes "ppp_ok f"
  shows "\<exists>f' out g. Write_prepend f src prepend = Inr f' \<and> Write f src = Inr (out, g)
     \<and> length (contents (m_writeBuf f')) = prepend + length out
     \<and> drop prepend (contents (m_writeBuf f')) = out
     \<and> m_ppp_mode f' = m_ppp_mode g \<and> inside_frame f' = inside_frame g \<and> ppp_ok f'"
proof -
  define f1 where "f1 = (if \<not> m_ppp_mode f \<and> src \<noteq> [] \<and> byte_at src 0 = 0x7e then f\<lparr>m_ppp_mode := True\<rparr> else f)"
  have f1: "data_ok (m_writeBuf f1)" "inside_frame f1 = inside_frame f"
    using assms by (simp_all add: f1_def ppp_ok_def inside_frame_def)
  show ?thesis
  proof (cases "m_ppp_mode f1")
    case True
    obtain buf prev' where F: "Filter (m_writeBuf f1) src prepend (m_last f1) = Inr (buf, prev')" "data_ok buf"
        "length (contents buf) = prepend + length (fst (frame_filter (inside_frame f1) src))"
        "drop prepend (contents buf) = fst (frame_filter (inside_frame f1) src)"
        "(prev' \<noteq> 0x7e) = snd (frame_filter (inside_frame f1) src)"
      using Filter_spec[OF f1(1), of src prepend "m_last f1"] by (auto simp: inside_frame_def)
    obtain g where "Write f1 src = Inr (fst (frame_filter (inside_frame f1) src), g)" "m_ppp_mode g"
        "inside_frame g = snd (frame_filter (inside_frame f1) src)"
      using Write_ppp[of f1 src] f1(1) True by (auto simp: ppp_ok_def)
    moreover have "Write f src = Write f1 src"
      using True by (auto simp: Write_def f1_def Let_def split: if_splits)
    moreover have "Write_prepend f src prepend = Inr (f1\<lparr>m_writeBuf := buf, m_last := prev'\<rparr>)"
      using F(1) True by (simp add: Write_prepend_def f1_def[symmetric])
    ultimately show ?thesis using F True by (auto simp: ppp_ok_def inside_frame_def)
  next
    case False
    then have same: "f1 = f" "\<not> m_ppp_mode f" and "src = [] \<or> byte_at src 0 \<noteq> 0x7e"
      by (auto simp: f1_def split: if_splits)
    then have "Write f src = Inr (src, f)" by (auto simp: Write_def Let_def)
    moreover note \<open>src = [] \<or> byte_at src 0 \<noteq> 0x7e\<close>
    moreover have "prepend + length src \<le> length src + prepend" by simp
    from write_behind_offset[OF f1(1) this]
    obtain d1 d2 buf where "GetBuffer (m_writeBuf f1) (length src + prepend) = Inr d1"
        "write_at d1 (prepend, src) = Inr d2" "ReleaseBuffer d2 (int (length src + prepend)) = Inr buf" "data_ok buf"
        "length (contents buf) = prepend + length src" "drop prepend (contents buf) = src"
      by blast
    ultimately show ?thesis
      using same by (auto simp: Write_prepend_def f1_def[symmetric] ppp_ok_def inside_frame_def Let_def)
  qed
qed

lemma Write_prepend_Write_witness:
  "\<exists>f' out g. Write_prepend PppFilter_new [0x7e, 5] 4 = Inr f' \<and> Write PppFilter_new [0x7e, 5] = Inr (out, g)
     \<and> drop 4 (contents (m_writeBuf f')) = out"
  using Write_prepend_Write[of PppFilter_new "[0x7e, 5]" 4] by (auto simp: ppp_ok_def PppFilter_new_def)

end
