(* ===== verification/Time_Conv.thy ===== *)
theory Time_Conv imports Barry_Prelude "HOL-Library.Signed_Division" begin

text \<open>
  Time conversions (src/src/time.cc, src/src/time.h): device time in minutes since 1900,
  the built-in time zone table, absolute timeouts for condition variables and the length
  of a month. Times and the long values of the code are integers; division rounds towards
  zero as in C.
\<close>

section \<open>Minutes since 1900\<close>

definition DAY_MINUTES :: int where "DAY_MINUTES = 24 * 60"
definition YEAR_MINUTES :: int where "YEAR_MINUTES = 365 * DAY_MINUTES"
definition LEAP_YEAR_COUNT :: int where "LEAP_YEAR_COUNT = (1970 - 1901) sdiv 4"
definition YEAR_COUNT :: int where "YEAR_COUNT = 1970 - 1900"
definition STDC_MIN1900_DIFF :: int where
  "STDC_MIN1900_DIFF = YEAR_COUNT * YEAR_MINUTES + LEAP_YEAR_COUNT * DAY_MINUTES"

lemma STDC_MIN1900_DIFF_value: "STDC_MIN1900_DIFF = 36816480"
  by (simp add: STDC_MIN1900_DIFF_def YEAR_COUNT_def YEAR_MINUTES_def DAY_MINUTES_def LEAP_YEAR_COUNT_def signed_divide_int_def)

definition time2min :: "int \<Rightarrow> int" where
  "time2min t = (if t = 0 then 0xffffffff else t sdiv 60 + STDC_MIN1900_DIFF)"

text \<open>The test casts to a 64 bit unsigned long.\<close>

definition min2time :: "int \<Rightarrow> int" where
  "min2time m = (if m mod 2 ^ 64 = 0xffffffff then 0 else (m - STDC_MIN1900_DIFF) * 60)"

text \<open>A record field is an int32_t: it keeps the low 32 bits and is read with its sign.\<close>

definition store_min1900 :: "int \<Rightarrow> u32" where
  "store_min1900 t = word_of_int (time2min t)"

definition load_min1900 :: "u32 \<Rightarrow> int" where
  "load_min1900 field = min2time (sint field)"

section \<open>The static time zone table\<close>

definition STATIC_TIME_ZONE_CODE_ERR :: u16 where "STATIC_TIME_ZONE_CODE_ERR = 0xffff"

datatype static_time_zone = StaticTimeZone (Code: u16) (HourOffset: int) (MinOffset: int) (Name: string)

text \<open>The table, without the all-zero entry that ends it.\<close>

definition Zones :: "static_time_zone list" where
  "Zones =
   [
    StaticTimeZone 0x0 (-12) 0 ''Eniwetok, Kwajalein'',
    StaticTimeZone 0x1 (-12) 0 ''Midway Island, Samoa'',
    StaticTimeZone 0x2 (-10) 0 ''Hawaii'',
    StaticTimeZone 0x3 (-9) 0 ''Alaska'',
    StaticTimeZone 0x4 (-8) 0 ''Pacific Time (US & Canada), Tijuana'',
    StaticTimeZone 0xa (-7) 0 ''Mountain Time (US & Canada)'',
    StaticTimeZone 0xf (-7) 0 ''Arizona'',
    StaticTimeZone 0xd (-7) 0 ''Chihuahua, La Paz, Mazatlan'',
    StaticTimeZone 0x14 (-6) 0 ''Central Time (US & Canada)'',
    StaticTimeZone 0x21 (-6) 0 ''Central America'',
    StaticTimeZone 0x19 (-6) 0 ''Saskatchewan'',
    StaticTimeZone 0x1e (-6) 0 ''Mexico City'',
    StaticTimeZone 0x23 (-5) 0 ''Eastern Time (US & Canada)'',
    StaticTimeZone 0x2d (-5) 0 ''Bogota, Lima, Quito'',
    StaticTimeZone 0x28 (-5) 0 ''Indiana (East)'',
    StaticTimeZone 0x32 (-4) 0 ''Atlantic Time (Canada)'',
    StaticTimeZone 0x37 (-4) 0 ''Caracas, La Paz'',
    StaticTimeZone 0x38 (-4) 0 ''Santiago'',
    StaticTimeZone 0x3c (-3) (-30) ''Newfoundland'',
    StaticTimeZone 0x46 (-3) 0 ''Buenos Aires, Georgetown'',
    StaticTimeZone 0x41 (-3) 0 ''Brasilia'',
    StaticTimeZone 0x49 (-3) 0 ''Greenland'',
    StaticTimeZone 0x4b (-2) 0 ''Mid-Atlantic'',
    StaticTimeZone 0x53 (-1) 0 ''Cape Verde Island'',
    StaticTimeZone 0x50 (-1) 0 ''Azores'',
    StaticTimeZone 0x55 0 0 ''Dublin, Edinburgh, Lisbon, London (GMT)'',
    StaticTimeZone 0x5a 0 0 ''Casablanca, Monrovia (GMT)'',
    StaticTimeZone 0x6e 1 0 ''Amsterdam, Berlin, Bern, Rome, Stockholm, Vienna'',
    StaticTimeZone 0x71 1 0 ''West Central Africa'',
    StaticTimeZone 0x5f 1 0 ''Belgrade, Bratislava, Budapest, Ljubljana, Prague'',
    StaticTimeZone 0x69 1 0 ''Brussels, Copenhagen, Madrid, Paris'',
    StaticTimeZone 0x64 1 0 ''Sarajevo, Skopje, Sofija, Vilnius, Warsaw, Zagreb'',
    StaticTimeZone 0x8c 2 0 ''Harare, Pretoria'',
    StaticTimeZone 0x87 2 0 ''Jerusalem'',
    StaticTimeZone 0x73 2 0 ''Bucharest'',
    StaticTimeZone 0x78 2 0 ''Cairo'',
    StaticTimeZone 0x82 2 0 ''Athens, Istanbul, Minsk'',
    StaticTimeZone 0x7d 2 0 ''Helsinki, Riga, Tallinn'',
    StaticTimeZone 0x96 3 0 ''Kuwait, Riyadh'',
    StaticTimeZone 0x9b 3 0 ''Nairobi'',
    StaticTimeZone 0x9e 3 0 ''Baghdad'',
    StaticTimeZone 0x91 3 0 ''Moscow, St. Petersburg, Volgograd'',
    StaticTimeZone 0xa0 3 30 ''Tehran'',
    StaticTimeZone 0xa5 4 0 ''Abu Dhabi, Muscat'',
    StaticTimeZone 0xaa 4 0 ''Baku, Tbilisi, Yerevan'',
    StaticTimeZone 0xaf 4 30 ''Kabul'',
    StaticTimeZone 0xb9 5 0 ''Islamabad, Karachi, Tashkent'',
    StaticTimeZone 0xb4 5 0 ''Ekaterinburg'',
    StaticTimeZone 0xbe 5 30 ''Calcutta, Chennai, Mumbai, New Delhi'',
    StaticTimeZone 0xc1 5 45 ''Kathmandu'',
    StaticTimeZone 0xc3 6 0 ''Astana, Dhaka'',
    StaticTimeZone 0xc8 6 0 ''Sri Lanka'',
    StaticTimeZone 0xc9 6 0 ''Almaty, Novosibirsk'',
    StaticTimeZone 0xcb 6 30 ''Rangoon'',
    StaticTimeZone 0xcd 7 0 ''Bangkok, Hanoi, Jakarta'',
    StaticTimeZone 0xcf 7 0 ''Krasnoyarsk'',
    StaticTimeZone 0xd2 8 0 ''Beijing, Chongqing, Hong Kong, Urumqi'',
    StaticTimeZone 0xd7 8 0 ''Kuala Lumpur, Singapore'',
    StaticTimeZone 0xe1 8 0 ''Perth'',
    StaticTimeZone 0xdc 8 0 ''Taipei'',
    StaticTimeZone 0xe3 8 0 ''Irkutsk, Ulaan Bataar'',
    StaticTimeZone 0xeb 9 0 ''Osaka, Sapporo, Tokyo'',
    StaticTimeZone 0xe6 9 0 ''Seoul'',
    StaticTimeZone 0xf0 9 0 ''Yakutsk'',
    StaticTimeZone 0xf5 9 30 ''Darwin'',
    StaticTimeZone 0xfa 9 30 ''Adelaide'',
    StaticTimeZone 0x104 10 0 ''Brisbane'',
    StaticTimeZone 0x113 10 0 ''Guam, Port Moresby'',
    StaticTimeZone 0xff 10 0 ''Canberra, Melbourne, Sydney'',
    StaticTimeZone 0x109 10 0 ''Hobart'',
    StaticTimeZone 0x10e 10 0 ''Vladivostok'',
    StaticTimeZone 0x118 11 0 ''Magadan, Solomon Islands, New Caledonia'',
    StaticTimeZone 0x11d 12 0 ''Fiji, Kamchatka, Marshall Islands'',
    StaticTimeZone 0x122 12 0 ''Auckland, Wellington'',
    StaticTimeZone 0x12c 13 0 ''Nuku'alofa'']"

definition UnknownZone :: static_time_zone where
  "UnknownZone = StaticTimeZone STATIC_TIME_ZONE_CODE_ERR 0 0 ''Unknown time zone''"

definition GetStaticTimeZone :: "u16 \<Rightarrow> static_time_zone" where
  "GetStaticTimeZone code =
     (case find (\<lambda>z. code = Code z) Zones of Some z \<Rightarrow> z | None \<Rightarrow> UnknownZone)"

definition GetStaticTimeZoneCode :: "int \<Rightarrow> int \<Rightarrow> u16" where
  "GetStaticTimeZoneCode hourOffset minOffset =
     (case find (\<lambda>z. hourOffset = HourOffset z \<and> minOffset = MinOffset z) Zones of
        Some z \<Rightarrow> Code z | None \<Rightarrow> STATIC_TIME_ZONE_CODE_ERR)"

section \<open>Timeouts and months\<close>

record timespec =
  tv_sec :: int
  tv_nsec :: int

text \<open>The time of day is an argument: seconds and microseconds.\<close>

definition ThreadTimeout :: "int \<Rightarrow> int \<Rightarrow> int \<Rightarrow> timespec" where
  "ThreadTimeout now_sec now_usec timeout_ms =
     \<lparr>tv_sec = now_sec + timeout_ms sdiv 1000,
      tv_nsec = (now_usec + timeout_ms smod 1000 * 1000) * 1000\<rparr>"

definition DaysInMonth :: "int \<Rightarrow> int \<Rightarrow> int" where
  "DaysInMonth tm_mon tm_year =
     (let year = tm_year + 1900
      in if tm_mon = 1
         then (if year smod 400 = 0 \<or> (year smod 100 \<noteq> 0 \<and> year smod 4 = 0) then 29 else 28)
         else if tm_mon = 4 \<or> tm_mon = 6 \<or> tm_mon = 9 \<or> tm_mon = 11 then 30
         else 31)"

section \<open>Properties\<close>

lemma distinct_codes: "distinct (map Code Zones)"
  by code_simp

lemma find_key: "distinct (map f xs) \<Longrightarrow> z \<in> set xs \<Longrightarrow> find (\<lambda>y. f z = f y) xs = Some z"
  by (induction xs) (auto simp: image_iff)

lemma lookup_code: "z \<in> set Zones \<Longrightarrow> GetStaticTimeZone (Code z) = z"
  by (simp add: GetStaticTimeZone_def find_key[OF distinct_codes])

definition same_offset :: "static_time_zone \<Rightarrow> static_time_zone \<Rightarrow> bool" where
  "same_offset y z \<longleftrightarrow> HourOffset y = HourOffset z \<and> MinOffset y = MinOffset z"

text \<open>The length of a month of the Gregorian calendar, months counted from 0 as in struct tm.\<close>

definition month_length :: "int \<Rightarrow> int \<Rightarrow> int" where
  "month_length mon year =
     (if mon = 1 then (if 4 dvd year \<and> (100 dvd year \<longrightarrow> 400 dvd year) then 29 else 28)
      else if mon \<in> {3, 5, 8, 10} then 30 else 31)"

lemma smod_dvd: "0 < n \<Longrightarrow> y smod n = 0 \<longleftrightarrow> n dvd y" for y n :: int
  by (simp add: signed_modulo_int_def signed_divide_int_def sgn_if dvd_eq_mod_eq_0[symmetric])

lemma store_load:
  assumes "- (2 ^ 31) \<le> m" "m < 2 ^ 31" shows "sint (word_of_int m :: u32) = m"
  using assms by (simp add: int_word_sint)

lemma load_small:
  assumes "- (2 ^ 31) \<le> m" "m < 2 ^ 31" shows "min2time m = (m - STDC_MIN1900_DIFF) * 60"
proof -
  have "m mod 2 ^ 64 = (if 0 \<le> m then m else m + 2 ^ 64)"
    using assms mod_add_self2[of m "2 ^ 64"] by (auto simp del: mod_add_self2)
  then have "m mod 2 ^ 64 \<noteq> 0xffffffff" using assms by simp
  then show ?thesis by (simp add: min2time_def)
qed

text \<open>
  A time other than 0 that is stored in a record field and read back is the same time
  rounded to the minute (towards 1970), as long as its minute number fits the signed 32
  bits of the field. The time 0, which stands for no time, is stored as the all-ones
  value, but the field is read with its sign, the test for that value fails where long has
  64 bits, and 0 comes back as a moment of 1899.
\<close>

theorem min1900_roundtrip:
  assumes "t \<noteq> 0" and "- (2 ^ 31) \<le> t sdiv 60 + STDC_MIN1900_DIFF" and "t sdiv 60 + STDC_MIN1900_DIFF < 2 ^ 31"
  shows "load_min1900 (store_min1900 t) = t sdiv 60 * 60
    \<and> load_min1900 (store_min1900 0) = - 2208988860"
proof -
  have "sint (store_min1900 t) = t sdiv 60 + STDC_MIN1900_DIFF"
    using assms store_load[of "t sdiv 60 + STDC_MIN1900_DIFF"] by (simp add: store_min1900_def time2min_def del: of_int_add)
  moreover have "sint (store_min1900 0) = -1"
    by (simp add: store_min1900_def time2min_def)
  ultimately show ?thesis using assms by (simp add: load_min1900_def load_small) (simp add: STDC_MIN1900_DIFF_value)
qed

lemma min1900_roundtrip_witness: "load_min1900 (store_min1900 1128434405) = 1128434400"
  using min1900_roundtrip[of 1128434405] by (simp add: STDC_MIN1900_DIFF_value signed_divide_int_def)

text \<open>
  Looking up the code of any entry of the time zone table finds that entry, so no code
  occurs twice, and looking up the code for its offsets finds a zone with the same offsets.
\<close>

theorem time_zone_lookup:
  "list_all (\<lambda>z. GetStaticTimeZone (Code z) = z
     \<and> same_offset (GetStaticTimeZone (GetStaticTimeZoneCode (HourOffset z) (MinOffset z))) z) Zones"
proof (unfold list_all_iff, intro ballI conjI)
  fix z assume z: "z \<in> set Zones"
  then show "GetStaticTimeZone (Code z) = z" by (rule lookup_code)
  have "find (\<lambda>y. HourOffset z = HourOffset y \<and> MinOffset z = MinOffset y) Zones \<noteq> None"
    using z by (auto simp: find_None_iff)
  then obtain y where y: "find (\<lambda>y. HourOffset z = HourOffset y \<and> MinOffset z = MinOffset y) Zones = Some y"
    by blast
  then have "y \<in> set Zones" "HourOffset z = HourOffset y" "MinOffset z = MinOffset y"
    by (auto simp: find_Some_iff)
  then show "same_offset (GetStaticTimeZone (GetStaticTimeZoneCode (HourOffset z) (MinOffset z))) z"
    using y by (simp add: same_offset_def GetStaticTimeZoneCode_def lookup_code)
qed

text \<open>
  A timeout is exact, but only a valid timespec if the current microseconds and the
  fraction of a second of the timeout do not add up to a second: the carry into the
  seconds is missing, and pthread_cond_timedwait rejects the result.
\<close>

theorem ThreadTimeout_valid_iff:
  assumes "0 \<le> now_usec" and "now_usec < 1000000" and "0 \<le> timeout_ms"
  shows "tv_sec (ThreadTimeout now_sec now_usec timeout_ms) * 1000000000
       + tv_nsec (ThreadTimeout now_sec now_usec timeout_ms)
       = now_sec * 1000000000 + now_usec * 1000 + timeout_ms * 1000000
     \<and> (0 \<le> tv_nsec (ThreadTimeout now_sec now_usec timeout_ms)
         \<and> tv_nsec (ThreadTimeout now_sec now_usec timeout_ms) < 1000000000
        \<longleftrightarrow> now_usec + timeout_ms mod 1000 * 1000 < 1000000)"
proof -
  have "timeout_ms sdiv 1000 = timeout_ms div 1000" "timeout_ms smod 1000 = timeout_ms mod 1000"
    using assms(3) by (simp_all add: signed_divide_int_def signed_modulo_int_def minus_div_mult_eq_mod sgn_if)
  then have "ThreadTimeout now_sec now_usec timeout_ms =
      \<lparr>tv_sec = now_sec + timeout_ms div 1000, tv_nsec = (now_usec + timeout_ms mod 1000 * 1000) * 1000\<rparr>"
    by (simp only: ThreadTimeout_def)
  moreover have "timeout_ms * 1000000 = timeout_ms div 1000 * 1000000000 + timeout_ms mod 1000 * 1000000"
    using div_mult_mod_eq[of timeout_ms 1000] by linarith
  moreover have "0 \<le> timeout_ms mod 1000" by simp
  ultimately show ?thesis using assms(1,2) by simp linarith
qed

lemma ThreadTimeout_valid_iff_witness:
  "\<not> tv_nsec (ThreadTimeout 100 600000 500) < 1000000000"
  using ThreadTimeout_valid_iff[of 600000 500 100] by (simp add: ThreadTimeout_def signed_divide_int_def signed_modulo_int_def)

text \<open>
  DaysInMonth is right for January, February, March and August only: the case labels
  of the months with 30 days count from 1, while tm_mon counts from 0.
\<close>

theorem DaysInMonth_correct_iff:
  assumes "0 \<le> tm_mon" and "tm_mon < 12"
  shows "DaysInMonth tm_mon tm_year = month_length tm_mon (tm_year + 1900) \<longleftrightarrow> tm_mon \<in> {0, 1, 2, 7}"
proof -
  have "400 dvd y \<Longrightarrow> 4 dvd y \<and> 100 dvd y" for y :: int by presburger
  then have "DaysInMonth 1 tm_year = month_length 1 (tm_year + 1900)"
    by (auto simp: DaysInMonth_def month_length_def smod_dvd Let_def)
  moreover have "tm_mon = 0 \<or> tm_mon = 1 \<or> tm_mon = 2 \<or> tm_mon = 3 \<or> tm_mon = 4 \<or> tm_mon = 5 \<or> tm_mon = 6
      \<or> tm_mon = 7 \<or> tm_mon = 8 \<or> tm_mon = 9 \<or> tm_mon = 10 \<or> tm_mon = 11"
    using assms by presburger
  ultimately show ?thesis
    by (elim disjE) (simp_all add: DaysInMonth_def month_length_def)
qed

lemma DaysInMonth_correct_iff_witness: "DaysInMonth 3 113 \<noteq> month_length 3 2013"
  using DaysInMonth_correct_iff[of 3 113] by simp

end
