(* ===== verification/Text_Lists.thy ===== *)
theory Text_Lists imports Barry_Prelude begin

text \<open>
  Lists kept as text in device records (src/src/record.cc): the category list of memos,
  tasks and appointments, and the comma separated e-mail address list with the parser of
  single addresses. Strings are byte lists; \<open>str[str.size()]\<close> reads the terminating NUL,
  an index beyond it is undefined.
\<close>

section \<open>Category lists\<close>

definition str_at :: "bytes \<Rightarrow> nat \<Rightarrow> byte" where "str_at s i = byte_at s i"

text \<open>std::string::find from a position; None is npos.\<close>

definition find_from :: "bytes \<Rightarrow> byte \<Rightarrow> nat \<Rightarrow> nat option" where
  "find_from s c i =
     (let n = i + length (takeWhile (\<lambda>x. x \<noteq> c) (drop i s)) in if n < length s then Some n else None)"

definition skip_spaces :: "bytes \<Rightarrow> nat \<Rightarrow> nat" where
  "skip_spaces s i = i + length (takeWhile (\<lambda>x. x = 0x20) (drop i s))"

fun back_spaces :: "bytes \<Rightarrow> nat \<Rightarrow> nat" where
  "back_spaces s 0 = 0"
| "back_spaces s (Suc n) = (if str_at s (Suc n) = 0x20 then back_spaces s n else Suc n)"

lemma find_from_bounds: "find_from s c i = Some d \<Longrightarrow> i \<le> d \<and> d < length s"
  by (auto simp: find_from_def Let_def split: if_splits)

text \<open>
  The loop over the tokens. With the delimiter at position 0 the end index wraps around to
  npos, and the loop that strips spaces reads \<open>str[npos]\<close>.
\<close>

definition category_token :: "bytes \<Rightarrow> nat \<Rightarrow> nat \<Rightarrow> bytes list" where
  "category_token s start end1 =
     (let start1 = skip_spaces s start; end2 = back_spaces s end1
      in if start1 \<le> end2 then [take (end2 - start1 + 1) (drop start1 s)] else [])"

function category_loop :: "bytes \<Rightarrow> nat \<Rightarrow> bytes list \<Rightarrow> bytes list res" where
  "category_loop s start acc =
     (case find_from s 0x2c start of
        None \<Rightarrow> Inr (acc @ category_token s start (length s - 1))
      | Some delim \<Rightarrow>
          if delim = 0 then Inl (UB ''read of str[npos]'')
          else category_loop s (delim + 1) (acc @ category_token s start (delim - 1)))"
  by auto
termination
  by (relation "measure (\<lambda>(s, start, acc). length s - start)") (auto dest!: find_from_bounds)

declare category_loop.simps [simp del]

definition CategoryStr2List :: "bytes \<Rightarrow> bytes list res" where
  "CategoryStr2List s = (if s = [] then Inr [] else category_loop s 0 [])"

definition CategoryList2Str :: "bytes list \<Rightarrow> bytes" where
  "CategoryList2Str cs = fold (\<lambda>c str. (if str \<noteq> [] then str @ [0x2c, 0x20] else str) @ c) cs []"

section \<open>E-mail addresses\<close>

text \<open>isspace of the C locale.\<close>

definition isspace :: "byte \<Rightarrow> bool" where
  "isspace c \<longleftrightarrow> c = 0x20 \<or> 9 \<le> c \<and> c \<le> 13"

definition rtrim :: "bytes \<Rightarrow> bytes" where "rtrim s = rev (dropWhile isspace (rev s))"
definition ltrim :: "bytes \<Rightarrow> bytes" where "ltrim s = dropWhile isspace s"
definition trim :: "bytes \<Rightarrow> bytes" where "trim s = ltrim (rtrim s)"

definition rfind :: "byte \<Rightarrow> bytes \<Rightarrow> nat option" where
  "rfind c s = (let n = length (takeWhile (\<lambda>x. x \<noteq> c) (rev s)) in if n < length s then Some (length s - 1 - n) else None)"

record email_address =
  ea_Name :: bytes
  ea_Email :: bytes

definition EmailAddress :: "bytes \<Rightarrow> email_address" where
  "EmailAddress complex_address =
     (case (rfind 0x3c complex_address, rfind 0x3e complex_address) of
        (Some start, Some end1) \<Rightarrow>
          if start > end1 then \<lparr>ea_Name = [], ea_Email = trim complex_address\<rparr>
          else \<lparr>ea_Name = trim (take start complex_address),
                ea_Email = trim (take (end1 - start - 1) (drop (start + 1) complex_address))\<rparr>
      | _ \<Rightarrow> \<lparr>ea_Name = [], ea_Email = trim complex_address\<rparr>)"

text \<open>operator<< of an address and of a list of them.\<close>

definition show_address :: "email_address \<Rightarrow> bytes" where
  "show_address ea =
     (if ea_Name ea \<noteq> [] then ea_Name ea @ lit '' <'' else []) @ ea_Email ea
     @ (if ea_Name ea \<noteq> [] then lit ''>'' else [])"

fun ToCommaSeparated :: "email_address list \<Rightarrow> bytes" where
  "ToCommaSeparated [] = []"
| "ToCommaSeparated [ea] = show_address ea"
| "ToCommaSeparated (ea # eas) = show_address ea @ [0x2c, 0x20] @ ToCommaSeparated eas"

text \<open>getline up to a comma, as long as there is input.\<close>

function getlines :: "bytes \<Rightarrow> bytes list" where
  "getlines [] = []"
| "getlines (x # xs) =
     takeWhile (\<lambda>c. c \<noteq> 0x2c) (x # xs) # getlines (drop 1 (dropWhile (\<lambda>c. c \<noteq> 0x2c) (x # xs)))"
  by pat_completeness auto
termination
proof (relation "measure length")
  fix x :: byte and xs
  have "length (dropWhile (\<lambda>c. c \<noteq> 0x2c) (x # xs)) \<le> length (x # xs)" by (rule length_dropWhile_le)
  then show "(drop 1 (dropWhile (\<lambda>c. c \<noteq> 0x2c) (x # xs)), x # xs) \<in> measure length" by auto
qed simp

text \<open>
  The trimming loop resizes the address but not its own counter: after one step it looks
  at the terminating NUL and stops, so at most one white space character is removed.
\<close>

definition drop_last_space :: "bytes \<Rightarrow> bytes" where
  "drop_last_space address =
     (if address \<noteq> [] \<and> isspace (last address) then butlast address else address)"

definition AddCommaSeparated :: "email_address list \<Rightarrow> bytes \<Rightarrow> email_address list" where
  "AddCommaSeparated eas input =
     eas @ map EmailAddress (filter (\<lambda>a. a \<noteq> []) (map drop_last_space (getlines (dropWhile isspace input))))"

section \<open>Splitting at commas\<close>

text \<open>What CategoryStr2List computes, as a function on lists.\<close>

definition trim_spaces :: "bytes \<Rightarrow> bytes" where
  "trim_spaces t = dropWhile (\<lambda>x. x = 0x20) (rev (dropWhile (\<lambda>x. x = 0x20) (rev t)))"

function split_commas :: "bytes \<Rightarrow> bytes list" where
  "split_commas s =
     (case dropWhile (\<lambda>x. x \<noteq> 0x2c) s of
        [] \<Rightarrow> [s]
      | _ # rest \<Rightarrow> takeWhile (\<lambda>x. x \<noteq> 0x2c) s # split_commas rest)"
  by auto
termination
proof (relation "measure length")
  fix s rest and c :: byte
  assume "dropWhile (\<lambda>x. x \<noteq> 0x2c) s = c # rest"
  then have "length (c # rest) \<le> length s" by (metis length_dropWhile_le)
  then show "(rest, s) \<in> measure length" by simp
qed simp

declare split_commas.simps [simp del]

definition categories_of :: "bytes \<Rightarrow> bytes list" where
  "categories_of s = filter (\<lambda>t. t \<noteq> []) (map trim_spaces (split_commas s))"


section \<open>The category loop splits at commas\<close>

lemma trim_spaces_core:
  assumes "core \<noteq> []" "hd core \<noteq> 0x20" "last core \<noteq> 0x20"
  shows "trim_spaces (replicate i 0x20 @ core @ replicate j 0x20) = core"
proof -
  have r: "dropWhile (\<lambda>x. x = 0x20) (replicate n 0x20 @ ys) = dropWhile (\<lambda>x. x = 0x20) ys" for n and ys :: bytes
    by (induction n) simp_all
  have k: "ys \<noteq> [] \<Longrightarrow> hd ys \<noteq> 0x20 \<Longrightarrow> dropWhile (\<lambda>x. x = 0x20) ys = ys" for ys :: bytes
    by (cases ys) simp_all
  have "dropWhile (\<lambda>x. x = 0x20) (rev (replicate i 0x20 @ core @ replicate j 0x20)) = rev core @ replicate i 0x20"
    using assms by (simp add: r k hd_append hd_rev)
  then show ?thesis unfolding trim_spaces_def using assms by (simp add: r k)
qed

lemma trim_spaces_blank: "trim_spaces (replicate i 0x20) = []"
  by (simp add: trim_spaces_def)

lemma spaces_replicate: "\<forall>x \<in> set t. x = 0x20 \<Longrightarrow> t = replicate (length t) (0x20 :: byte)"
  by (simp add: replicate_eqI)

lemma spaces_cases:
  fixes t :: bytes
  obtains i where "t = replicate i 0x20"
    | i j core where "t = replicate i 0x20 @ core @ replicate j 0x20" "core \<noteq> []" "hd core \<noteq> 0x20" "last core \<noteq> 0x20"
proof (cases "\<forall>x \<in> set t. x = 0x20")
  case True
  then show thesis using that(1) spaces_replicate by blast
next
  case False
  define a where "a = takeWhile (\<lambda>x. x = 0x20) t"
  define u where "u = dropWhile (\<lambda>x. x = 0x20) t"
  define b where "b = takeWhile (\<lambda>x. x = 0x20) (rev u)"
  define core where "core = rev (dropWhile (\<lambda>x. x = 0x20) (rev u))"
  have u: "u \<noteq> []" "hd u \<noteq> 0x20" using False hd_dropWhile[of "\<lambda>x. x = 0x20" t] by (auto simp: u_def)
  have nb: "\<not> (\<forall>x \<in> set (rev u). x = 0x20)" using u by (cases u) auto
  have c: "core \<noteq> []" "last core \<noteq> 0x20"
    using nb hd_dropWhile[of "\<lambda>x. x = 0x20" "rev u"] by (auto simp: core_def last_rev)
  have ue: "u = core @ rev b" unfolding core_def b_def by (metis rev_append rev_rev_ident takeWhile_dropWhile_id)
  have "hd core \<noteq> 0x20" using u ue c by (simp add: hd_append)
  moreover have "t = a @ core @ rev b" by (simp add: ue[symmetric] a_def u_def)
  moreover have "a = replicate (length a) 0x20" unfolding a_def by (rule spaces_replicate) (auto dest: set_takeWhileD)
  moreover have "rev b = replicate (length b) 0x20"
    using spaces_replicate[of "rev b"] by (auto simp: b_def dest: set_takeWhileD)
  ultimately show thesis using that(2) c by metis
qed

lemma back_spaces_le: "back_spaces s n \<le> n"
  by (induction n) auto

lemma back_spaces_run:
  assumes "\<And>k. n < k \<Longrightarrow> k \<le> n + j \<Longrightarrow> str_at s k = 0x20" and "n = 0 \<or> str_at s n \<noteq> 0x20"
  shows "back_spaces s (n + j) = n"
  using assms
proof (induction j)
  case 0
  then show ?case by (cases n) auto
qed simp

lemma takeWhile_spaces: "takeWhile (\<lambda>x. x = 0x20) (replicate i 0x20 @ ys) = replicate i 0x20 @ takeWhile (\<lambda>x. x = 0x20) ys"
  for ys :: bytes
  by (induction i) simp_all

lemma category_token_spec:
  assumes s: "s = pre @ t @ post" and post: "post = [] \<or> hd post \<noteq> 0x20" and pos: "0 < length pre + length t"
  shows "category_token s (length pre) (length pre + length t - 1) = (if trim_spaces t = [] then [] else [trim_spaces t])"
proof (cases t rule: spaces_cases)
  case (1 i)
  have "takeWhile (\<lambda>x. x = 0x20) (drop (length pre) s) = t"
    using post by (cases post) (simp_all add: s 1 takeWhile_spaces)
  then have "skip_spaces s (length pre) = length pre + length t" by (simp add: skip_spaces_def)
  moreover have "back_spaces s (length pre + length t - 1) < length pre + length t"
    using back_spaces_le[of s "length pre + length t - 1"] pos by linarith
  ultimately show ?thesis by (simp add: category_token_def Let_def 1 trim_spaces_blank)
next
  case (2 i j core)
  define n where "n = length pre + i + (length core - 1)"
  have core: "0 < length core" using 2(2) by simp
  have "length t = i + length core + j" by (simp add: 2(1))
  then have end1: "length pre + length t - 1 = n + j" using core unfolding n_def by linarith
  have sk: "skip_spaces s (length pre) = length pre + i"
  proof -
    have "takeWhile (\<lambda>x. x = 0x20) (replicate i 0x20 @ core @ ys) = replicate i 0x20" for ys
      using 2(2,3) by (cases core) (simp_all add: takeWhile_spaces)
    then show ?thesis by (simp add: skip_spaces_def s 2(1))
  qed
  have "str_at s n = last core"
    using core by (cases core rule: rev_cases) (simp_all add: str_at_def n_def s 2(1))
  moreover have "str_at s k = 0x20" if "n < k" "k \<le> n + j" for k
  proof -
    define m where "m = k - (length pre + i + length core)"
    have m: "k = length pre + i + length core + m" "m < j"
      using that core unfolding n_def m_def by linarith+
    then have "str_at s k = byte_at (replicate j 0x20) m" by (simp add: str_at_def s 2(1))
    then show ?thesis using m(2) by (simp add: byte_at_def)
  qed
  ultimately have "back_spaces s (length pre + length t - 1) = n"
    unfolding end1 using 2(4) by (intro back_spaces_run) auto
  moreover have "take (n - (length pre + i) + 1) (drop (length pre + i) s) = core"
    using core by (simp add: n_def s 2(1))
  moreover have "trim_spaces t = core" using trim_spaces_core[OF 2(2-4)] 2(1) by simp
  moreover have "length pre + i \<le> n" by (simp add: n_def)
  ultimately show ?thesis using sk 2(2) by (simp add: category_token_def Let_def)
qed

lemma category_loop_spec:
  assumes "start < length s \<or> 0 < start" "start \<le> length s" "start = 0 \<longrightarrow> hd s \<noteq> 0x2c"
  shows "category_loop s start acc = Inr (acc @ categories_of (drop start s))"
  using assms
proof (induction s start acc rule: category_loop.induct)
  case (1 s start acc)
  define t where "t = takeWhile (\<lambda>x. x \<noteq> 0x2c) (drop start s)"
  define post where "post = dropWhile (\<lambda>x. x \<noteq> 0x2c) (drop start s)"
  have s: "s = take start s @ t @ post" by (simp add: t_def post_def)
  have lp: "length (take start s) = start" using 1(3) by simp
  have total: "length s = start + length t + length post" using arg_cong[OF s, of length] lp by simp
  show ?case
  proof (cases post)
    case Nil
    have none: "find_from s 0x2c start = None" using total Nil by (simp add: find_from_def t_def[symmetric] Let_def)
    have "category_token s start (length s - 1) = (if trim_spaces t = [] then [] else [trim_spaces t])"
      using category_token_spec[OF s, unfolded lp] 1(2,3) total Nil by (cases t) auto
    moreover have "categories_of (drop start s) = (if trim_spaces t = [] then [] else [trim_spaces t])"
      using Nil s lp by (simp add: categories_of_def split_commas.simps[of "drop start s"] post_def[symmetric])
        (metis append_Nil2 t_def takeWhile_dropWhile_id post_def)
    ultimately show ?thesis by (simp add: category_loop.simps[of s start] none)
  next
    case (Cons c rest)
    have c: "c = 0x2c" using dropWhile_eq_Cons_conv[of "\<lambda>x. x \<noteq> 0x2c" "drop start s" c rest] Cons by (simp add: post_def)
    have some: "find_from s 0x2c start = Some (start + length t)"
      using total Cons by (simp add: find_from_def t_def[symmetric] Let_def)
    have d: "start + length t \<noteq> 0"
      using 1(4) s Cons c by (auto simp: hd_append)
    have tok: "category_token s start (start + length t - 1) = (if trim_spaces t = [] then [] else [trim_spaces t])"
      using category_token_spec[OF s, unfolded lp] d Cons c by simp
    have "drop (start + length t + 1) s = rest"
      using s lp Cons by (metis add.assoc append_assoc drop_append drop_0 append_eq_conv_conj length_append drop_Suc_Cons Suc_eq_plus1 drop_drop add.commute)
    then have "category_loop s (start + length t + 1) (acc @ category_token s start (start + length t - 1))
        = Inr ((acc @ category_token s start (start + length t - 1)) @ categories_of rest)"
      using 1(1)[OF some d] total Cons by simp
    moreover have "categories_of (drop start s) = (if trim_spaces t = [] then [] else [trim_spaces t]) @ categories_of rest"
      using Cons by (simp add: categories_of_def split_commas.simps[of "drop start s"] post_def[symmetric] t_def[symmetric])
    ultimately show ?thesis using tok d by (simp add: category_loop.simps[of s start] some)
  qed
qed

text \<open>
  Parsing a category string splits it at the commas, strips spaces from every part
  and drops the empty ones, for every string that does not start with a comma; one that
  does makes the code read far outside the string.
\<close>

theorem CategoryStr2List_spec:
  "CategoryStr2List s =
     (if s \<noteq> [] \<and> hd s = 0x2c then Inl (UB ''read of str[npos]'') else Inr (categories_of s))"
proof (cases "s = []")
  case True
  then show ?thesis
    by (simp add: CategoryStr2List_def categories_of_def split_commas.simps trim_spaces_def)
next
  case False
  have "hd s = 0x2c \<Longrightarrow> find_from s 0x2c 0 = Some 0" using False by (cases s) (auto simp: find_from_def)
  then show ?thesis
    using False category_loop_spec[of 0 s "[]"] by (auto simp: CategoryStr2List_def category_loop.simps[of s 0])
qed


section \<open>Category lists survive\<close>

definition category_ok :: "bytes \<Rightarrow> bool" where
  "category_ok c \<longleftrightarrow> c \<noteq> [] \<and> 0x2c \<notin> set c \<and> hd c \<noteq> 0x20 \<and> last c \<noteq> 0x20"

lemma CategoryList2Str_join:
  "str \<noteq> [] \<Longrightarrow> fold (\<lambda>c str. (if str \<noteq> [] then str @ [0x2c, 0x20] else str) @ c) cs str
     = str @ concat (map (\<lambda>c. 0x2c # 0x20 # c) cs)"
  by (induction cs arbitrary: str) simp_all

lemma split_commas_last: "0x2c \<notin> set c \<Longrightarrow> split_commas c = [c]"
proof -
  assume "0x2c \<notin> set c"
  then have "dropWhile (\<lambda>x. x \<noteq> 0x2c) c = []" by auto
  then show ?thesis by (simp add: split_commas.simps[of c] del: dropWhile_eq_Nil_conv)
qed

lemma split_commas_Cons:
  assumes "0x2c \<notin> set c" shows "split_commas (c @ 0x2c # rest) = c # split_commas rest"
proof -
  have "dropWhile (\<lambda>x. x \<noteq> 0x2c) (c @ 0x2c # rest) = 0x2c # rest"
    using assms by (subst dropWhile_append2) auto
  moreover have "takeWhile (\<lambda>x. x \<noteq> 0x2c) (c @ 0x2c # rest) = c"
    using assms by (subst takeWhile_append2) auto
  ultimately show ?thesis by (simp add: split_commas.simps[of "c @ 0x2c # rest"])
qed

lemma split_commas_join:
  "0x2c \<notin> set c \<Longrightarrow> list_all category_ok cs \<Longrightarrow>
     split_commas (c @ concat (map (\<lambda>c. 0x2c # 0x20 # c) cs)) = c # map ((#) 0x20) cs"
proof (induction cs arbitrary: c)
  case (Cons c' cs)
  have "0x2c \<notin> set (0x20 # c')" using Cons.prems by (simp add: category_ok_def)
  from Cons.IH[OF this] Cons.prems show ?case by (simp add: split_commas_Cons)
qed (simp add: split_commas_last)

lemma trim_spaces_ok: "category_ok c \<Longrightarrow> trim_spaces c = c \<and> trim_spaces (0x20 # c) = c"
  using trim_spaces_core[of c 0 0] trim_spaces_core[of c 1 0] by (simp add: category_ok_def)

lemma categories_survive:
  assumes "list_all category_ok cs"
  shows "CategoryStr2List (CategoryList2Str cs) = Inr cs"
proof (cases cs)
  case Nil
  then show ?thesis by (simp add: CategoryList2Str_def CategoryStr2List_def)
next
  case (Cons c cs')
  have c: "category_ok c" "list_all category_ok cs'" using assms Cons by auto
  define str where "str = CategoryList2Str cs"
  have str: "str = c @ concat (map (\<lambda>c. 0x2c # 0x20 # c) cs')"
    using c by (simp add: str_def CategoryList2Str_def Cons CategoryList2Str_join category_ok_def)
  have "filter (\<lambda>t. t \<noteq> []) (map (trim_spaces \<circ> (#) 0x20) cs') = cs'"
    using c(2) by (induction cs') (simp_all add: trim_spaces_ok category_ok_def)
  then have "categories_of str = cs"
    using c by (simp add: categories_of_def str split_commas_join trim_spaces_ok category_ok_def Cons)
  moreover have "hd str \<noteq> 0x2c" using c by (cases c) (auto simp: str category_ok_def)
  ultimately show ?thesis using CategoryStr2List_spec[of str] by (simp add: str_def)
qed


text \<open>
  A list of categories that are not empty, have no comma and neither start nor end
  with a space is the same list after it was written to a string and parsed again.
\<close>

theorem category_list_roundtrip:
  assumes "list_all category_ok cs"
  shows "CategoryStr2List (CategoryList2Str cs) = Inr cs"
  using assms by (rule categories_survive)

lemma category_list_roundtrip_witness:
  "CategoryStr2List (CategoryList2Str [lit ''Work'', lit ''a b'']) = Inr [lit ''Work'', lit ''a b'']"
  using category_list_roundtrip[of "[lit ''Work'', lit ''a b'']"]
  by (simp add: category_ok_def lit_def)

section \<open>Address lists survive\<close>

text \<open>Text without the characters that have a meaning in a list, and without white space around it.\<close>

definition clean :: "bytes \<Rightarrow> bool" where
  "clean s \<longleftrightarrow> 0x2c \<notin> set s \<and> 0x3c \<notin> set s \<and> 0x3e \<notin> set s \<and> trim s = s"

definition address_ok :: "email_address \<Rightarrow> bool" where
  "address_ok ea \<longleftrightarrow> clean (ea_Name ea) \<and> clean (ea_Email ea) \<and> ea_Email ea \<noteq> []"

lemma trim_ends:
  assumes "s \<noteq> []" "trim s = s" shows "\<not> isspace (hd s)" "\<not> isspace (last s)"
proof -
  have r: "rtrim s \<noteq> []" using assms by (auto simp: trim_def ltrim_def)
  have "\<not> isspace (hd (dropWhile isspace (rtrim s)))"
    using assms hd_dropWhile[of isspace "rtrim s"] by (auto simp: trim_def ltrim_def dropWhile_eq_Nil_conv simp del: dropWhile_eq_Nil_conv)
  then show "\<not> isspace (hd s)" using assms by (simp add: trim_def ltrim_def)
  have "length s \<le> length (rtrim s)"
    using assms(2) length_dropWhile_le[of isspace "rtrim s"] by (simp add: trim_def ltrim_def)
  moreover have "length (dropWhile isspace (rev s)) \<le> length s" using length_dropWhile_le[of isspace "rev s"] by simp
  ultimately have "length (takeWhile isspace (rev s)) = 0"
    using arg_cong[OF takeWhile_dropWhile_id[of isspace "rev s"], of length] by (simp add: rtrim_def del: takeWhile_dropWhile_id)
  then show "\<not> isspace (last s)" using assms(1) by (cases s rule: rev_cases) (auto split: if_splits)
qed

lemma trim_ok: "\<not> isspace (hd s) \<Longrightarrow> \<not> isspace (last s) \<Longrightarrow> s \<noteq> [] \<Longrightarrow> trim s = s"
proof -
  assume *: "\<not> isspace (hd s)" "\<not> isspace (last s)" "s \<noteq> []"
  have d: "xs \<noteq> [] \<Longrightarrow> \<not> isspace (hd xs) \<Longrightarrow> dropWhile isspace xs = xs" for xs by (cases xs) simp_all
  show "trim s = s" using * by (simp add: trim_def ltrim_def rtrim_def d hd_rev)
qed

lemma isspace_space: "isspace 0x20"
  by (simp add: isspace_def)

lemma trim_space: "trim (s @ [0x20]) = trim s"
  by (simp add: trim_def rtrim_def isspace_space)

lemma ltrim_rtrim_Cons: "trim (0x20 # s) = trim s"
proof (cases "rtrim s = []")
  case True
  then have "\<forall>x \<in> set s. isspace x" by (simp add: rtrim_def)
  then have "dropWhile isspace (rev s @ [0x20]) = []" by (simp add: isspace_space)
  then have "rtrim (0x20 # s) = []" by (simp only: rtrim_def rev.simps rev.simps(1))
  then show ?thesis using True by (simp only: trim_def ltrim_def)
next
  case False
  then have "dropWhile isspace (rev s @ [0x20]) = dropWhile isspace (rev s) @ [0x20]"
    by (auto simp: rtrim_def intro: dropWhile_append1)
  then show ?thesis by (simp add: trim_def rtrim_def ltrim_def isspace_space)
qed

lemma rfind_None: "c \<notin> set s \<Longrightarrow> rfind c s = None"
proof -
  assume "c \<notin> set s"
  then have "takeWhile (\<lambda>x. x \<noteq> c) (rev s) = rev s" by auto
  then show ?thesis by (simp add: rfind_def Let_def del: takeWhile_eq_all_conv)
qed

lemma rfind_Some: "c \<notin> set ys \<Longrightarrow> rfind c (xs @ c # ys) = Some (length xs)"
proof -
  assume "c \<notin> set ys"
  then have "takeWhile (\<lambda>x. x \<noteq> c) (rev ys @ c # rev xs) = rev ys" by (subst takeWhile_append2) auto
  then show ?thesis by (simp add: rfind_def)
qed

lemma EmailAddress_show:
  assumes "address_ok ea"
  shows "EmailAddress (show_address ea) = ea" "EmailAddress (0x20 # show_address ea) = ea"
proof -
  have "EmailAddress (sp @ show_address ea) = ea" if sp: "sp = [] \<or> sp = [0x20]" for sp
  proof (cases "ea_Name ea = []")
    case True
    then show ?thesis
      using assms sp by (cases ea) (auto simp: EmailAddress_def show_address_def rfind_None ltrim_rtrim_Cons address_ok_def clean_def)
  next
    case False
    have str: "sp @ show_address ea = (sp @ ea_Name ea @ [0x20]) @ 0x3c # (ea_Email ea @ [0x3e])"
      using False by (simp add: show_address_def lit_def)
    have "rfind 0x3c (sp @ show_address ea) = Some (length (sp @ ea_Name ea @ [0x20]))"
      unfolding str by (rule rfind_Some) (use assms in \<open>auto simp: address_ok_def clean_def\<close>)
    moreover have "rfind 0x3e (sp @ show_address ea) = Some (length (sp @ ea_Name ea @ [0x20]) + 1 + length (ea_Email ea))"
      using rfind_Some[where c = "0x3e" and ys = "[]" and xs = "(sp @ ea_Name ea @ [0x20]) @ 0x3c # ea_Email ea"] unfolding str by simp
    moreover have "trim (sp @ ea_Name ea @ [0x20]) = ea_Name ea"
      using assms sp trim_space[of "sp @ ea_Name ea"] by (auto simp: ltrim_rtrim_Cons address_ok_def clean_def)
    moreover have "trim (ea_Email ea) = ea_Email ea" using assms by (simp add: address_ok_def clean_def)
    ultimately show ?thesis unfolding EmailAddress_def str by simp
  qed
  from this[of "[]"] this[of "[0x20]"]
  show "EmailAddress (show_address ea) = ea" "EmailAddress (0x20 # show_address ea) = ea" by simp_all
qed


lemma getlines_last: "s \<noteq> [] \<Longrightarrow> 0x2c \<notin> set s \<Longrightarrow> getlines s = [s]"
proof (cases s)
  case (Cons x xs)
  moreover assume "0x2c \<notin> set s"
  then have "takeWhile (\<lambda>c. c \<noteq> 0x2c) s = s" "dropWhile (\<lambda>c. c \<noteq> 0x2c) s = []" by auto
  ultimately show ?thesis
    by (simp only: getlines.simps) simp
qed simp

lemma getlines_Cons:
  assumes "s \<noteq> []" "0x2c \<notin> set s" shows "getlines (s @ 0x2c # rest) = s # getlines rest"
proof -
  have "dropWhile (\<lambda>c. c \<noteq> 0x2c) (s @ 0x2c # rest) = 0x2c # rest" "takeWhile (\<lambda>c. c \<noteq> 0x2c) (s @ 0x2c # rest) = s"
    using assms by (subst dropWhile_append2, auto)+ (subst takeWhile_append2, auto)
  moreover obtain x xs where "s @ 0x2c # rest = x # xs" by (cases s) auto
  ultimately show ?thesis by (simp only: getlines.simps) simp
qed

lemma show_address_chars:
  assumes "address_ok ea"
  shows "show_address ea \<noteq> []" "0x2c \<notin> set (show_address ea)"
    "\<not> isspace (hd (show_address ea))" "\<not> isspace (last (show_address ea))"
proof -
  have e: "ea_Email ea \<noteq> []" "trim (ea_Email ea) = ea_Email ea" and n: "trim (ea_Name ea) = ea_Name ea"
    using assms by (simp_all add: address_ok_def clean_def)
  show "show_address ea \<noteq> []" "0x2c \<notin> set (show_address ea)"
    using assms by (auto simp: show_address_def lit_def address_ok_def clean_def)
  show "\<not> isspace (hd (show_address ea))"
    using trim_ends(1)[OF e] trim_ends(1)[OF _ n] by (auto simp: show_address_def)
  have "\<not> isspace 0x3e" by (simp add: isspace_def)
  then show "\<not> isspace (last (show_address ea))"
    using trim_ends(2)[OF e] e(1) by (auto simp: show_address_def lit_def)
qed

lemma drop_last_space_id: "\<not> isspace (last s) \<Longrightarrow> drop_last_space s = s"
  by (simp add: drop_last_space_def)

lemma ToCommaSeparated_Cons:
  "ToCommaSeparated (ea # eas) = show_address ea @ concat (map (\<lambda>e. 0x2c # 0x20 # show_address e) eas)"
  by (induction eas arbitrary: ea) simp_all

lemma getlines_join:
  "s \<noteq> [] \<Longrightarrow> 0x2c \<notin> set s \<Longrightarrow> list_all address_ok eas \<Longrightarrow>
     getlines (s @ concat (map (\<lambda>e. 0x2c # 0x20 # show_address e) eas)) = s # map (\<lambda>e. 0x20 # show_address e) eas"
proof (induction eas arbitrary: s)
  case (Cons ea eas)
  have "0x2c \<notin> set (0x20 # show_address ea)" using show_address_chars[of ea] Cons.prems by simp
  from Cons.IH[OF _ this] Cons.prems show ?case by (simp add: getlines_Cons)
qed (simp add: getlines_last)

text \<open>
  A list of addresses, with or without a display name, whose parts have no comma or
  angle bracket and no white space around them, is appended unchanged when its comma
  separated form is parsed.
\<close>

theorem address_list_roundtrip:
  assumes "list_all address_ok eas"
  shows "AddCommaSeparated old (ToCommaSeparated eas) = old @ eas"
proof (cases eas)
  case Nil
  then show ?thesis by (simp add: AddCommaSeparated_def)
next
  case (Cons ea eas')
  have ok: "address_ok ea" "list_all address_ok eas'" using assms Cons by auto
  note s = show_address_chars[OF ok(1)]
  define rest where "rest = concat (map (\<lambda>e. 0x2c # 0x20 # show_address e) eas')"
  have "ToCommaSeparated eas = show_address ea @ rest" by (simp only: Cons ToCommaSeparated_Cons rest_def)
  moreover have "dropWhile isspace (show_address ea @ rest) = show_address ea @ rest"
    using s(1,3) by (cases "show_address ea") simp_all
  moreover have "getlines (show_address ea @ rest) = show_address ea # map (\<lambda>e. 0x20 # show_address e) eas'"
    unfolding rest_def by (rule getlines_join[OF s(1,2) ok(2)])
  moreover have "map EmailAddress (filter (\<lambda>a. a \<noteq> []) (map drop_last_space (map (\<lambda>e. 0x20 # show_address e) eas'))) = eas'"
    using ok(2) by (induction eas') (simp_all add: show_address_chars drop_last_space_id EmailAddress_show)
  ultimately show ?thesis
    using s Cons EmailAddress_show[OF ok(1)] by (simp add: AddCommaSeparated_def drop_last_space_id)
qed

lemma address_list_roundtrip_witness:
  "AddCommaSeparated [] (ToCommaSeparated [\<lparr>ea_Name = lit ''A B'', ea_Email = lit ''a@b''\<rparr>, \<lparr>ea_Name = [], ea_Email = lit ''c@d''\<rparr>])
     = [\<lparr>ea_Name = lit ''A B'', ea_Email = lit ''a@b''\<rparr>, \<lparr>ea_Name = [], ea_Email = lit ''c@d''\<rparr>]"
  using address_list_roundtrip[of "[\<lparr>ea_Name = lit ''A B'', ea_Email = lit ''a@b''\<rparr>, \<lparr>ea_Name = [], ea_Email = lit ''c@d''\<rparr>]" "[]"]
  by (simp add: address_ok_def clean_def lit_def trim_def ltrim_def rtrim_def isspace_def)

text \<open>
  An entry that is nothing but two or more white space characters still becomes an
  address, with neither name nor e-mail, because the trimming loop stops after one
  character; a single one is dropped as meant.
\<close>

theorem AddCommaSeparated_blank:
  assumes "list_all isspace blank" and "0x2c \<notin> set blank"
  shows "AddCommaSeparated old (0x61 # 0x2c # blank) =
     old @ [\<lparr>ea_Name = [], ea_Email = [0x61]\<rparr>]
         @ (if 2 \<le> length blank then [\<lparr>ea_Name = [], ea_Email = []\<rparr>] else [])"
proof -
  have a: "getlines (0x61 # 0x2c # blank) = [0x61] # getlines blank"
    using getlines_Cons[of "[0x61]" blank] by simp
  have "EmailAddress [0x61] = \<lparr>ea_Name = [], ea_Email = [0x61]\<rparr>"
    by (simp add: EmailAddress_def rfind_def trim_def ltrim_def rtrim_def isspace_def)
  moreover have e: "EmailAddress b = \<lparr>ea_Name = [], ea_Email = []\<rparr>" if "list_all isspace b" for b
  proof -
    have "\<not> isspace 0x3c" "\<not> isspace 0x3e" by (simp_all add: isspace_def)
    then have "0x3c \<notin> set b" "0x3e \<notin> set b" using that by (auto simp: list_all_iff)
    moreover have "trim b = []" using that by (auto simp: trim_def ltrim_def rtrim_def list_all_iff dest: set_dropWhileD)
    ultimately show ?thesis by (simp add: EmailAddress_def rfind_None)
  qed
  moreover have "map EmailAddress (filter (\<lambda>a. a \<noteq> []) (map drop_last_space (getlines blank)))
      = (if 2 \<le> length blank then [\<lparr>ea_Name = [], ea_Email = []\<rparr>] else [])"
  proof (cases blank rule: rev_cases)
    case (snoc b x)
    have "drop_last_space blank = b" using assms(1) snoc by (simp add: drop_last_space_def)
    then show ?thesis using assms snoc getlines_last[of blank] e[of b] by (cases b) auto
  qed simp
  ultimately show ?thesis
    by (simp add: AddCommaSeparated_def a isspace_def drop_last_space_def)
qed

lemma AddCommaSeparated_blank_witness:
  "AddCommaSeparated [] (lit ''a,  '') = [\<lparr>ea_Name = [], ea_Email = lit ''a''\<rparr>, \<lparr>ea_Name = [], ea_Email = []\<rparr>]"
  using AddCommaSeparated_blank[of "[0x20, 0x20]" "[]"] by (simp add: lit_def isspace_def)

end
