(* ===== verification/Record_Fields.thy ===== *)
theory Record_Fields imports Protocol Data_Buffer Time_Conv Text_Lists begin

text \<open>
  The field layer that all record classes share (src/src/record.cc,
  src/src/record-internal.h): fields with a size, a type and a value are appended to a
  buffer by the BuildField functions and read back by ParseCommonFields; category lists
  and e-mail address lists are converted from and to their text form.
\<close>

section \<open>Building fields\<close>

text \<open>
  Every BuildField asks for a buffer that ends behind the new field, writes the field at
  offset \<open>n\<close> and advances the offset; the data size is set by the caller at the end.
\<close>

definition store_field :: "data \<Rightarrow> nat \<Rightarrow> bytes \<Rightarrow> (data \<times> nat) res" where
  "store_field d n field =
     rbind (GetBuffer d (n + length field)) (\<lambda>d1.
     rbind (write_at d1 (n, field)) (\<lambda>d2. Inr (d2, n + length field)))"

text \<open>The size member has 16 bits.\<close>

definition common_field :: "byte \<Rightarrow> bytes \<Rightarrow> bytes" where
  "common_field ty raw = le16 (word_of_nat (length raw)) @ [ty] @ raw"

definition BuildField_raw :: "data \<Rightarrow> nat \<Rightarrow> byte \<Rightarrow> bytes \<Rightarrow> (data \<times> nat) res" where
  "BuildField_raw d n ty buf = store_field d n (common_field ty buf)"

definition BuildField1900 :: "data \<Rightarrow> nat \<Rightarrow> byte \<Rightarrow> int \<Rightarrow> (data \<times> nat) res" where
  "BuildField1900 d n ty t =
     store_field d n (le16 (word_of_nat COMMON_FIELD_MIN1900_SIZE) @ [ty] @ le32 (store_min1900 t))"

definition BuildField_u8 :: "data \<Rightarrow> nat \<Rightarrow> byte \<Rightarrow> byte \<Rightarrow> (data \<times> nat) res" where
  "BuildField_u8 d n ty c = store_field d n (le16 1 @ [ty] @ [c])"

definition BuildField_u16 :: "data \<Rightarrow> nat \<Rightarrow> byte \<Rightarrow> u16 \<Rightarrow> (data \<times> nat) res" where
  "BuildField_u16 d n ty v = store_field d n (le16 2 @ [ty] @ le16 v)"

definition BuildField_u32 :: "data \<Rightarrow> nat \<Rightarrow> byte \<Rightarrow> u32 \<Rightarrow> (data \<times> nat) res" where
  "BuildField_u32 d n ty v = store_field d n (le16 4 @ [ty] @ le32 v)"

definition BuildField_u64 :: "data \<Rightarrow> nat \<Rightarrow> byte \<Rightarrow> u64 \<Rightarrow> (data \<times> nat) res" where
  "BuildField_u64 d n ty v = store_field d n (le16 8 @ [ty] @ le64 v)"

definition BuildField_string :: "data \<Rightarrow> nat \<Rightarrow> byte \<Rightarrow> bytes \<Rightarrow> (data \<times> nat) res" where
  "BuildField_string d n ty str = BuildField_raw d n ty (str @ [0])"

type_synonym unknown_field = "byte \<times> bytes"

definition BuildField_unknown :: "data \<Rightarrow> nat \<Rightarrow> unknown_field \<Rightarrow> (data \<times> nat) res" where
  "BuildField_unknown d n uf = BuildField_raw d n (fst uf) (snd uf)"

definition BuildField_link :: "data \<Rightarrow> nat \<Rightarrow> byte \<Rightarrow> u32 \<times> u16 \<Rightarrow> (data \<times> nat) res" where
  "BuildField_link d n ty link =
     store_field d n (le16 6 @ [ty] @ le32 (fst link) @ le16 (snd link))"

section \<open>Parsing fields\<close>

fun string_length :: "bytes \<Rightarrow> nat \<Rightarrow> nat" where
  "string_length str 0 = 0"
| "string_length str (Suc n) = (if byte_at str n = 0 then string_length str n else Suc n)"

definition ParseFieldString :: "bytes \<Rightarrow> nat \<Rightarrow> bytes" where
  "ParseFieldString buf maxlen = take (string_length buf maxlen) buf"

text \<open>Members of the field at position \<open>b\<close>.\<close>

definition field_size :: "bytes \<Rightarrow> nat \<Rightarrow> nat" where "field_size bs b = unat (get16 bs b)"
definition field_type :: "bytes \<Rightarrow> nat \<Rightarrow> byte" where "field_type bs b = byte_at bs (b + 2)"
definition field_raw :: "bytes \<Rightarrow> nat \<Rightarrow> bytes" where
  "field_raw bs b = take (field_size bs b) (drop (b + COMMON_FIELD_HEADER_SIZE) bs)"

text \<open>
  ParseCommonFields calls the record's own ParseField, which handles one field and returns
  where the next one begins. The template has no bound on its loop; \<open>fuel\<close> counts the
  turns, and None says that they were not enough.
\<close>

fun ParseCommonFields_loop ::
  "('r \<Rightarrow> bytes \<Rightarrow> nat \<Rightarrow> ('r \<times> nat) res) \<Rightarrow> nat \<Rightarrow> 'r \<Rightarrow> bytes \<Rightarrow> nat \<Rightarrow> ('r \<times> nat) res option" where
  "ParseCommonFields_loop ParseField fuel rec bs b =
     (if \<not> b + COMMON_FIELD_HEADER_SIZE < length bs then Some (Inr (rec, b))
      else case fuel of
        0 \<Rightarrow> None
      | Suc fuel' \<Rightarrow>
          (case ParseField rec bs b of
             Inl e \<Rightarrow> Some (Inl e)
           | Inr (rec', b') \<Rightarrow> ParseCommonFields_loop ParseField fuel' rec' bs b'))"

declare ParseCommonFields_loop.simps [simp del]

definition ParseCommonFields ::
  "('r \<Rightarrow> bytes \<Rightarrow> nat \<Rightarrow> ('r \<times> nat) res) \<Rightarrow> 'r \<Rightarrow> bytes \<Rightarrow> nat \<Rightarrow> ('r \<times> nat) res option" where
  "ParseCommonFields ParseField rec bs b = ParseCommonFields_loop ParseField (length bs) rec bs b"

text \<open>The converter between the character sets of the host and the device.\<close>

record converter =
  ToBB :: "bytes \<Rightarrow> bytes"
  FromBB :: "bytes \<Rightarrow> bytes"

definition to_bb :: "converter option \<Rightarrow> bytes \<Rightarrow> bytes" where
  "to_bb ic s = (case ic of None \<Rightarrow> s | Some c \<Rightarrow> ToBB c s)"

definition from_bb :: "converter option \<Rightarrow> bytes \<Rightarrow> bytes" where
  "from_bb ic s = (case ic of None \<Rightarrow> s | Some c \<Rightarrow> FromBB c s)"

text \<open>
  The field tables of the record classes: a type code, a member and whether to convert.
  An address member comes with the way in which the class's own loop splits the field into
  an address; a postal member is a string inside a postal address.
\<close>

datatype 'r member =
    StrMember "'r \<Rightarrow> bytes" "bytes \<Rightarrow> 'r \<Rightarrow> 'r"
  | TimeMember "'r \<Rightarrow> int" "int \<Rightarrow> 'r \<Rightarrow> 'r"
  | AddrMember "'r \<Rightarrow> email_address list" "email_address list \<Rightarrow> 'r \<Rightarrow> 'r" "bytes \<Rightarrow> email_address res"
  | PostMember "'r \<Rightarrow> bytes" "bytes \<Rightarrow> 'r \<Rightarrow> 'r"

datatype 'r field_link = FieldLink (link_type: byte) (link_member: "'r member") (iconvNeeded: bool)

text \<open>c_str() + i: one step beyond the terminating NUL is outside the string.\<close>

definition c_str_at :: "bytes \<Rightarrow> nat \<Rightarrow> bytes res" where
  "c_str_at s i = (if i \<le> length s then Inr (c_str (drop i s)) else Inl (UB ''read past the end of a string''))"

text \<open>Two strings behind each other, as address fields hold them.\<close>

definition dual_strings :: "bytes \<Rightarrow> (bytes \<times> bytes) res" where
  "dual_strings dual = rbind (c_str_at dual 0) (\<lambda>s1. rbind (c_str_at dual (length s1 + 1)) (\<lambda>s2. Inr (s1, s2)))"

definition address_first :: "bytes \<Rightarrow> email_address res" where
  "address_first raw = rbind (dual_strings raw) (\<lambda>(s1, s2). Inr \<lparr>ea_Name = s2, ea_Email = s1\<rparr>)"

definition address_empty :: "email_address \<Rightarrow> bool" where
  "address_empty a \<longleftrightarrow> ea_Name a = [] \<and> ea_Email a = []"

definition address_from_bb :: "converter option \<Rightarrow> email_address \<Rightarrow> email_address" where
  "address_from_bb ic a = \<lparr>ea_Name = from_bb ic (ea_Name a), ea_Email = from_bb ic (ea_Email a)\<rparr>"

text \<open>
  The common start of every ParseField: the end of the field at \<open>b\<close>, and whether the field
  is complete and has a value; what follows is the record's own code, \<open>handle\<close>.
\<close>

definition next_field :: "bytes \<Rightarrow> nat \<Rightarrow> nat" where
  "next_field bs b = b + COMMON_FIELD_HEADER_SIZE + field_size bs b"

definition ParseField_start :: "('r \<Rightarrow> byte \<Rightarrow> bytes \<Rightarrow> 'r res) \<Rightarrow> 'r \<Rightarrow> bytes \<Rightarrow> nat \<Rightarrow> ('r \<times> nat) res" where
  "ParseField_start handle rec bs b =
     (if length bs < next_field bs b then Inr (rec, next_field bs b)
      else if field_size bs b = 0 then Inr (rec, next_field bs b)
      else rbind (handle rec (field_type bs b) (field_raw bs b)) (\<lambda>rec'. Inr (rec', next_field bs b)))"

text \<open>The loop over the type table in ParseField; None if no entry handled the field.\<close>

fun parse_links :: "'r field_link list \<Rightarrow> converter option \<Rightarrow> 'r \<Rightarrow> byte \<Rightarrow> bytes \<Rightarrow> 'r res option" where
  "parse_links [] ic rec ty raw = None"
| "parse_links (l # ls) ic rec ty raw =
     (if link_type l = ty
      then (case link_member l of
              StrMember rd wr \<Rightarrow>
                let s = ParseFieldString raw (length raw)
                in Some (Inr (wr (if iconvNeeded l then from_bb ic s else s) rec))
            | TimeMember rd wr \<Rightarrow>
                if length raw = 4 then Some (Inr (wr (load_min1900 (get32 raw 0)) rec))
                else parse_links ls ic rec ty raw
            | AddrMember rd wr split \<Rightarrow>
                Some (rbind (split raw) (\<lambda>a.
                  Inr (if address_empty a then rec
                       else wr (rd rec @ [if iconvNeeded l then address_from_bb ic a else a]) rec)))
            | PostMember rd wr \<Rightarrow>
                let s = ParseFieldString raw (length raw)
                in Some (Inr (wr (if iconvNeeded l then from_bb ic s else s) rec)))
      else parse_links ls ic rec ty raw)"

section \<open>What the builders write\<close>

text \<open>The buffer holds \<open>n\<close> bytes behind m_dataStart without being moved.\<close>

definition has_room :: "data \<Rightarrow> nat \<Rightarrow> bool" where
  "has_room d n \<longleftrightarrow> \<not> external d \<and> dstart d + n + (if dstart d = 0 then 0x100 else dstart d) \<le> length (mem d)"

definition built :: "data \<Rightarrow> nat \<Rightarrow> bytes" where
  "built d n = take n (drop (dstart d) (mem d))"

definition encode_fields :: "(byte \<times> bytes) list \<Rightarrow> bytes" where
  "encode_fields fs = concat (map (\<lambda>f. common_field (fst f) (snd f)) fs)"

definition build_fields :: "data \<Rightarrow> nat \<Rightarrow> bytes list \<Rightarrow> (data \<times> nat) res" where
  "build_fields d n fs = rfold (\<lambda>(d, n) f. store_field d n f) (d, n) fs"

lemma GetBuffer_room: "has_room d n \<Longrightarrow> n \<noteq> 0 \<Longrightarrow> GetBuffer d n = Inr d"
  by (auto simp: has_room_def GetBuffer_def MakeSpace_def AvailablePrependSpace_def GetBufSize_def Let_def split: if_splits)

lemma store_field_room:
  assumes "has_room d (n + length f)" "f \<noteq> []"
  shows "\<exists>d'. store_field d n f = Inr (d', n + length f) \<and> dstart d' = dstart d \<and> external d' = external d
     \<and> length (mem d') = length (mem d) \<and> endpoint d' = endpoint d \<and> built d' (n + length f) = built d n @ f"
proof -
  have g: "GetBuffer d (n + length f) = Inr d" using assms by (intro GetBuffer_room) auto
  have room: "dstart d + n + length f \<le> length (mem d)" using assms(1) by (simp add: has_room_def)
  define d' where "d' = d\<lparr>mem := poke (dstart d + n) f (mem d)\<rparr>"
  have "store_field d n f = Inr (d', n + length f)"
    using g room by (simp add: store_field_def write_at_def d'_def add.assoc)
  moreover have "built d' (n + length f) = built d n @ f"
  proof -
    have "0 < length f" using assms(2) by simp
    then have "n < length (mem d) - dstart d" using room by linarith
    then show ?thesis using room by (simp add: built_def d'_def poke_def drop_take min_def)
  qed
  ultimately show ?thesis using room by (intro exI[of _ d']) (simp add: d'_def)
qed

lemma build_fields_room:
  "has_room d (n + length (concat fs)) \<Longrightarrow> [] \<notin> set fs \<Longrightarrow>
     \<exists>d'. build_fields d n fs = Inr (d', n + length (concat fs)) \<and> dstart d' = dstart d \<and> external d' = external d
       \<and> length (mem d') = length (mem d) \<and> endpoint d' = endpoint d
       \<and> built d' (n + length (concat fs)) = built d n @ concat fs"
proof (induction fs arbitrary: d n)
  case Nil
  then show ?case by (simp add: build_fields_def)
next
  case (Cons f fs)
  have r: "has_room d (n + length f)" "f \<noteq> []" using Cons.prems by (auto simp: has_room_def)
  obtain d1 where d1: "store_field d n f = Inr (d1, n + length f)" "dstart d1 = dstart d" "external d1 = external d"
      "length (mem d1) = length (mem d)" "endpoint d1 = endpoint d" "built d1 (n + length f) = built d n @ f"
    using store_field_room[OF r] by blast
  have "has_room d1 (n + length f + length (concat fs))" using Cons.prems d1 by (auto simp: has_room_def add.assoc split: if_splits)
  from Cons.IH[OF this] Cons.prems d1 show ?case by (auto simp: build_fields_def add.assoc)
qed

lemma GetBuffer_dsize: "GetBuffer d n = Inr d' \<Longrightarrow> dsize d' = dsize d"
  by (auto simp: GetBuffer_def MakeSpace_def Let_def split: if_splits)

lemma build_fields_dsize: "build_fields d n fs = Inr (d', n') \<Longrightarrow> dsize d' = dsize d"
proof (induction fs arbitrary: d n)
  case (Cons f fs)
  then show ?case
    by (auto simp: build_fields_def store_field_def write_at_def rbind_eq_Inr dest!: GetBuffer_dsize split: if_splits)
qed (simp add: build_fields_def)

section \<open>Reading fields back\<close>

text \<open>The members of a field in the middle of the data.\<close>

lemma field_members:
  assumes "length raw < 65536"
  shows "field_size (pre @ common_field ty raw @ post) (length pre) = length raw"
    and "field_type (pre @ common_field ty raw @ post) (length pre) = ty"
    and "next_field (pre @ common_field ty raw @ post) (length pre) = length pre + length (common_field ty raw)"
    and "field_raw (pre @ common_field ty raw @ post) (length pre) = raw"
proof -
  show fs: "field_size (pre @ common_field ty raw @ post) (length pre) = length raw"
    using assms by (simp add: field_size_def common_field_def)
  show "field_type (pre @ common_field ty raw @ post) (length pre) = ty"
    by (simp add: field_type_def common_field_def le16_def)
  show "next_field (pre @ common_field ty raw @ post) (length pre) = length pre + length (common_field ty raw)"
    unfolding next_field_def fs by (simp add: layout_simps common_field_def)
  show "field_raw (pre @ common_field ty raw @ post) (length pre) = raw"
    unfolding field_raw_def fs by (simp add: layout_simps common_field_def eval_nat_numeral)
qed

text \<open>A field that the code of the class reads without looking behind it.\<close>

definition self_contained :: "(bytes \<Rightarrow> 'r \<Rightarrow> byte \<Rightarrow> bytes \<Rightarrow> 'r res) \<Rightarrow> byte \<times> bytes \<Rightarrow> bool" where
  "self_contained handle f \<longleftrightarrow> length (snd f) < 65536 \<and> (\<forall>post rec. handle post rec (fst f) (snd f) = handle [] rec (fst f) (snd f))"

text \<open>A list of fields, one after the other; the code may look at what follows a field. Fields without a value are skipped.\<close>

fun parse_list :: "(bytes \<Rightarrow> 'r \<Rightarrow> byte \<Rightarrow> bytes \<Rightarrow> 'r res) \<Rightarrow> 'r \<Rightarrow> (byte \<times> bytes) list \<Rightarrow> 'r res" where
  "parse_list handle rec [] = Inr rec"
| "parse_list handle rec (f # fs) =
     rbind (if snd f = [] then Inr rec else handle (encode_fields fs) rec (fst f) (snd f)) (\<lambda>rec'. parse_list handle rec' fs)"

lemma parse_list_contained:
  "\<forall>f \<in> set fs. self_contained handle f \<Longrightarrow>
     parse_list handle rec fs = rfold (\<lambda>r f. handle [] r (fst f) (snd f)) rec (filter (\<lambda>f. snd f \<noteq> []) fs)"
proof (induction fs arbitrary: rec)
  case (Cons f fs)
  have "self_contained handle f" using Cons.prems by simp
  then have c: "handle (encode_fields fs) rec (fst f) (snd f) = handle [] rec (fst f) (snd f)"
    unfolding self_contained_def by blast
  have "parse_list handle r fs = rfold (\<lambda>r f. handle [] r (fst f) (snd f)) r (filter (\<lambda>f. snd f \<noteq> []) fs)" for r
    by (rule Cons.IH) (use Cons.prems in simp)
  then show ?case
    unfolding parse_list.simps c by (cases "snd f = []"; cases "handle [] rec (fst f) (snd f)") simp_all
qed simp

text \<open>
  The contract of the field loop: a ParseField that moves on. Then the fuel given is always
  enough.
\<close>

locale field_parser =
  fixes ParseField :: "'r \<Rightarrow> bytes \<Rightarrow> nat \<Rightarrow> ('r \<times> nat) res"
  assumes moves_on: "ParseField rec bs b = Inr (rec', b') \<Longrightarrow> b < b'"
begin

lemma enough_fuel:
  "length bs \<le> b + fuel \<Longrightarrow> fuel \<le> fuel' \<Longrightarrow>
     ParseCommonFields_loop ParseField fuel rec bs b \<noteq> None
     \<and> ParseCommonFields_loop ParseField fuel' rec bs b = ParseCommonFields_loop ParseField fuel rec bs b"
proof (induction fuel arbitrary: fuel' rec b)
  case 0
  then show ?case by (simp add: ParseCommonFields_loop.simps[of _ _ _ _ b])
next
  case (Suc fuel)
  then obtain f where f: "fuel' = Suc f" "fuel \<le> f" by (cases fuel') auto
  show ?case
  proof (cases "ParseField rec bs b")
    case (Inl e)
    then show ?thesis by (simp add: ParseCommonFields_loop.simps[of _ _ _ _ b] f)
  next
    case (Inr p)
    obtain rec1 b1 where p: "p = (rec1, b1)" by (cases p)
    have "length bs \<le> b1 + fuel" using moves_on[of rec bs b rec1 b1] Inr p Suc.prems(1) by simp
    from Suc.IH[OF this f(2)] show ?thesis
      by (simp add: ParseCommonFields_loop.simps[of _ _ _ _ b] f Inr p)
  qed
qed

lemma returns: "ParseCommonFields ParseField rec bs b \<noteq> None"
  using enough_fuel[of bs b "length bs" "length bs" rec] by (simp add: ParseCommonFields_def)

lemma unfold:
  "ParseCommonFields ParseField rec bs b =
     (if b + COMMON_FIELD_HEADER_SIZE < length bs
      then (case ParseField rec bs b of Inl e \<Rightarrow> Some (Inl e)
            | Inr (rec', b') \<Rightarrow> ParseCommonFields ParseField rec' bs b')
      else Some (Inr (rec, b)))"
proof (cases "b + COMMON_FIELD_HEADER_SIZE < length bs")
  case True
  then obtain fuel where fuel: "length bs = Suc fuel" by (cases bs) auto
  have "ParseCommonFields_loop ParseField fuel rec1 bs b1 = ParseCommonFields ParseField rec1 bs b1"
    if "ParseField rec bs b = Inr (rec1, b1)" for rec1 b1
    using enough_fuel[of bs b1 fuel "length bs" rec1] moves_on[OF that] fuel
    by (simp add: ParseCommonFields_def)
  then show ?thesis
    using True fuel
    by (simp add: ParseCommonFields_def ParseCommonFields_loop.simps[of _ _ _ _ b] split: sum.split prod.split)
next
  case False
  then show ?thesis by (simp add: ParseCommonFields_def ParseCommonFields_loop.simps[of _ _ _ _ b])
qed

end

text \<open>
  The contract of a record class: a ParseField that starts like all of them. The code of
  the class may read behind a field that is shorter than it expects; its first argument is
  the data behind the field.
\<close>

locale record_parser =
  fixes ParseField :: "'r \<Rightarrow> bytes \<Rightarrow> nat \<Rightarrow> ('r \<times> nat) res"
    and handle :: "bytes \<Rightarrow> 'r \<Rightarrow> byte \<Rightarrow> bytes \<Rightarrow> 'r res"
  assumes ParseField_start: "ParseField rec bs b = ParseField_start (handle (drop (next_field bs b) bs)) rec bs b"
begin

lemma advance: "ParseField rec bs b = Inr (rec', b') \<Longrightarrow> b' = next_field bs b"
  by (auto simp: ParseField_start ParseField_start_def rbind_eq_Inr split: if_splits)

end

sublocale record_parser \<subseteq> field_parser ParseField
  by unfold_locales (auto dest: advance simp: next_field_def layout_simps)

context record_parser begin

lemma parse_one:
  assumes "length raw < 65536"
  shows "ParseField rec (pre @ common_field ty raw @ post) (length pre)
     = rbind (if raw = [] then Inr rec else handle post rec ty raw)
         (\<lambda>rec'. Inr (rec', length pre + length (common_field ty raw)))"
proof -
  define bs where "bs = pre @ common_field ty raw @ post"
  note fs = field_members(1)[OF assms, of pre ty post, folded bs_def]
  note ft = field_members(2)[OF assms, of pre ty post, folded bs_def]
  note nf = field_members(3)[OF assms, of pre ty post, folded bs_def]
  note fr = field_members(4)[OF assms, of pre ty post, folded bs_def]
  have rest: "drop (next_field bs (length pre)) bs = post" unfolding nf by (simp add: bs_def)
  have len: "\<not> length bs < next_field bs (length pre)" unfolding nf by (simp add: bs_def)
  show ?thesis
    unfolding bs_def[symmetric] ParseField_start ParseField_start_def using len
    by (simp add: rest fs ft fr nf[symmetric])
qed

text \<open>Parsing a list of fields; a field without a value at the very end stays unread.\<close>

lemma parse_fields:
  assumes "list_all (\<lambda>f. length (snd f) < 65536) fs" and "fs \<noteq> [] \<longrightarrow> snd (last fs) \<noteq> []"
  shows "ParseCommonFields ParseField rec (pre @ encode_fields fs) (length pre)
     = Some (rbind (parse_list handle rec fs) (\<lambda>rec'. Inr (rec', length pre + length (encode_fields fs))))"
  using assms
proof (induction fs arbitrary: rec pre)
  case Nil
  then show ?case by (simp add: unfold encode_fields_def)
next
  case (Cons f fs)
  define rest where "rest = encode_fields fs"
  define step where "step r = (if snd f = [] then Inr r else handle rest r (fst f) (snd f))" for r
  have f: "length (snd f) < 65536" using Cons.prems(1) by simp
  have enc: "encode_fields (f # fs) = common_field (fst f) (snd f) @ rest" by (simp add: rest_def encode_fields_def)
  have IH: "ParseCommonFields ParseField r ((pre @ common_field (fst f) (snd f)) @ rest) (length (pre @ common_field (fst f) (snd f)))
     = Some (rbind (parse_list handle r fs) (\<lambda>rec'. Inr (rec', length (pre @ common_field (fst f) (snd f)) + length rest)))" for r
    unfolding rest_def by (rule Cons.IH) (use Cons.prems in \<open>auto split: if_splits\<close>)
  have "snd f \<noteq> [] \<or> rest \<noteq> []"
    using Cons.prems(2) by (cases fs) (auto simp: rest_def encode_fields_def common_field_def le16_def)
  then have "length pre + COMMON_FIELD_HEADER_SIZE < length (pre @ common_field (fst f) (snd f) @ rest)"
    by (auto simp: layout_simps common_field_def)
  moreover have "ParseField rec (pre @ common_field (fst f) (snd f) @ rest) (length pre)
     = rbind (step rec) (\<lambda>rec'. Inr (rec', length pre + length (common_field (fst f) (snd f))))"
    using parse_one[OF f, of rec pre "fst f" rest] by (simp add: step_def)
  ultimately have one: "ParseCommonFields ParseField rec (pre @ common_field (fst f) (snd f) @ rest) (length pre)
     = (case step rec of Inl e \<Rightarrow> Some (Inl e)
        | Inr r \<Rightarrow> ParseCommonFields ParseField r (pre @ common_field (fst f) (snd f) @ rest)
            (length pre + length (common_field (fst f) (snd f))))"
    by (subst unfold) (simp add: rbind_def split: sum.split)
  have all: "ParseCommonFields ParseField r (pre @ common_field (fst f) (snd f) @ rest) (length pre + length (common_field (fst f) (snd f)))
     = Some (rbind (parse_list handle r fs) (\<lambda>rec'. Inr (rec', length pre + length (encode_fields (f # fs)))))" for r
    using IH[of r] by (simp only: enc append_assoc length_append add.assoc)
  have fold: "parse_list handle rec (f # fs) = rbind (step rec) (\<lambda>r. parse_list handle r fs)"
    by (simp add: step_def rest_def)
  have "ParseCommonFields ParseField rec (pre @ encode_fields (f # fs)) (length pre)
     = (case step rec of Inl e \<Rightarrow> Some (Inl e)
        | Inr r \<Rightarrow> Some (rbind (parse_list handle r fs) (\<lambda>rec'. Inr (rec', length pre + length (encode_fields (f # fs))))))"
    by (simp only: enc one all[unfolded enc])
  then show ?case unfolding fold by (cases "step rec") simp_all
qed

end

end
