(* ===== verification/Record_Build.thy ===== *)
theory Record_Build imports Record_Fields begin

text \<open>
  What every record class does when it builds its fields: the buffer is zapped, one field
  after the other is stored behind the header, and ReleaseBuffer sets the size. The locale
  \<open>record_codec\<close> states the contract of a class whose records can be built and parsed; it
  gives the round trip, and what is left of a record when its buffer has to grow.
\<close>

section \<open>Building a list of fields\<close>

lemma build_fields_append:
  "build_fields d n (fs @ gs) = rbind (build_fields d n fs) (\<lambda>(d', n'). build_fields d' n' gs)"
  by (simp add: build_fields_def rfold_append case_prod_unfold)

lemma build_fields_simps:
  "build_fields d n [] = Inr (d, n)"
  "build_fields d n (f # fs) = rbind (store_field d n f) (\<lambda>(d', n'). build_fields d' n' fs)"
  by (simp_all add: build_fields_def case_prod_unfold)

lemma build_unknowns:
  "rfold (\<lambda>dn uf. BuildField_unknown (fst dn) (snd dn) uf) dn ufs
     = build_fields (fst dn) (snd dn) (map (\<lambda>f. common_field (fst f) (snd f)) ufs)"
  by (induction ufs arbitrary: dn)
     (simp_all add: build_fields_simps BuildField_unknown_def BuildField_raw_def case_prod_unfold)

definition build_record :: "data \<Rightarrow> nat \<Rightarrow> (byte \<times> bytes) list \<Rightarrow> (data \<times> nat) res" where
  "build_record d offset fs =
     rbind (build_fields (Zap d) offset (map (\<lambda>f. common_field (fst f) (snd f)) fs))
       (\<lambda>(d', n'). rbind (ReleaseBuffer d' (int n')) (\<lambda>d''. Inr (d'', n')))"

lemma BuildField_u8_field: "BuildField_u8 d n ty c = store_field d n (common_field ty [c])"
  by (simp add: BuildField_u8_def common_field_def)

lemma BuildField_u16_field: "BuildField_u16 d n ty v = store_field d n (common_field ty (le16 v))"
  by (simp add: BuildField_u16_def common_field_def)

lemma BuildField_u32_field: "BuildField_u32 d n ty v = store_field d n (common_field ty (le32 v))"
  by (simp add: BuildField_u32_def common_field_def)

lemma BuildField_u64_field: "BuildField_u64 d n ty v = store_field d n (common_field ty (le64 v))"
  by (simp add: BuildField_u64_def common_field_def)

lemma BuildField1900_field: "BuildField1900 d n ty t = store_field d n (common_field ty (le32 (store_min1900 t)))"
  by (simp add: BuildField1900_def common_field_def layout_simps)

lemma BuildField_string_field: "BuildField_string d n ty s = store_field d n (common_field ty (s @ [0]))"
  by (simp add: BuildField_string_def BuildField_raw_def)

lemma BuildField_link_field: "BuildField_link d n ty l = store_field d n (common_field ty (le32 (fst l) @ le16 (snd l)))"
  by (simp add: BuildField_link_def common_field_def)

lemmas build_field_simps = BuildField_u8_field BuildField_u16_field BuildField_u32_field BuildField_u64_field
  BuildField1900_field BuildField_string_field BuildField_link_field BuildField_raw_def

lemma Zap_room: "has_room d n \<Longrightarrow> has_room (Zap d) n"
  by (auto simp: has_room_def Zap_def)

lemma built_Zap: "\<not> external d \<Longrightarrow> dstart d + n \<le> length (mem d) \<Longrightarrow> built (Zap d) n = replicate n 0"
  by (simp add: built_def Zap_def min_def)

text \<open>Into a buffer that has room for the record.\<close>

lemma build_record_room:
  assumes "has_room d (offset + length (encode_fields fls))"
  shows "\<exists>d'. build_record d offset fls = Inr (d', offset + length (encode_fields fls))
     \<and> data_ok d' \<and> contents d' = replicate offset 0 @ encode_fields fls"
proof -
  define fs where "fs = map (\<lambda>f. common_field (fst f) (snd f)) fls"
  define n where "n = offset + length (concat fs)"
  have ne: "[] \<notin> set fs" by (auto simp: fs_def common_field_def)
  have room: "has_room (Zap d) (offset + length (concat fs))"
    using Zap_room[OF assms] by (simp add: fs_def encode_fields_def)
  then have d: "\<not> external d" "dstart d + offset \<le> length (mem d)" by (auto simp: has_room_def Zap_def split: if_splits)
  obtain d1 where d1: "build_fields (Zap d) offset fs = Inr (d1, n)" "dstart d1 = dstart (Zap d)" "external d1 = external (Zap d)"
      "length (mem d1) = length (mem (Zap d))" "built d1 n = built (Zap d) offset @ concat fs"
    unfolding n_def using build_fields_room[OF room ne] by blast
  have i: "\<not> external d1" "n \<le> GetBufSize d1" using d1 room by (auto simp: has_room_def n_def GetBufSize_def split: if_splits)
  have "build_record d offset fls = Inr (d1\<lparr>dsize := n\<rparr>, n)"
    unfolding build_record_def fs_def[symmetric] using d1 i by (simp add: ReleaseBuffer_size)
  moreover have "contents (d1\<lparr>dsize := n\<rparr>) = replicate offset 0 @ concat fs"
    using d1(5) i(1) built_Zap[OF d] by (simp add: contents_internal built_def)
  moreover have "data_ok (d1\<lparr>dsize := n\<rparr>)"
    using d1 i room by (auto simp: data_ok_def has_room_def n_def split: if_splits)
  ultimately show ?thesis by (auto simp: n_def fs_def encode_fields_def)
qed

section \<open>A record that outgrows its buffer\<close>

lemma GetBuffer_new_block:
  fixes prepend :: nat
  assumes "\<not> external d" "dsize d = 0" "k \<noteq> 0" "prepend = (if dstart d = 0 then 0x100 else dstart d)"
    and "GetBufSize d < k + prepend" "length (mem d) < k + (1024 + prepend)"
  shows "GetBuffer d k = Inr (d\<lparr>mem := replicate (k + (1024 + prepend)) 0, dstart := prepend\<rparr>)"
proof -
  have p: "(let p = max (AvailablePrependSpace d) 0 in if p = 0 then 0x100 else p) = prepend"
    using assms(1,4) by (simp add: AvailablePrependSpace_def)
  have "contents d = []" using assms(1,2) by (simp add: contents_def)
  then have "poke prepend (contents d) (replicate (k + (1024 + prepend)) 0) = replicate (k + (1024 + prepend)) (0 :: byte)"
    by (simp add: poke_def min_def flip: replicate_add)
  moreover have "\<not> k + (1024 + prepend) \<le> length (mem d)" using assms(6) by simp
  ultimately show ?thesis
    unfolding GetBuffer_def MakeSpace_def using assms(1-3,5) p by (simp add: Let_def del: replicate_add)
qed

lemma store_field_grows:
  fixes prepend :: nat
  assumes "\<not> external d" "dsize d = 0" "\<not> has_room d (n + length f)"
    and "prepend = (if dstart d = 0 then 0x100 else dstart d)"
    and "length (mem d) < n + length f + (1024 + prepend)" and "f \<noteq> []" and "data_ok d"
  shows "\<exists>d'. store_field d n f = Inr (d', n + length f) \<and> \<not> external d' \<and> dstart d' + n + length f \<le> length (mem d')
     \<and> built d' (n + length f) = replicate n 0 @ f"
proof -
  define newbuf where "newbuf = replicate (n + length f + (1024 + prepend)) (0 :: byte)"
  define d1 where "d1 = d\<lparr>mem := newbuf, dstart := prepend\<rparr>"
  have ne: "n + length f \<noteq> 0" using assms(6) by simp
  have "GetBufSize d < n + length f + prepend"
    using assms(1,3,4,7) by (auto simp: has_room_def GetBufSize_def data_ok_def split: if_splits)
  then have g: "GetBuffer d (n + length f) = Inr d1"
    unfolding d1_def newbuf_def by (intro GetBuffer_new_block) (use ne assms in auto)
  define d2 where "d2 = d1\<lparr>mem := poke (prepend + n) f newbuf\<rparr>"
  have "write_at d1 (n, f) = Inr d2"
    by (simp add: write_at_def d2_def d1_def newbuf_def)
  then have "store_field d n f = Inr (d2, n + length f)" using g by (simp add: store_field_def)
  moreover have "built d2 (n + length f) = replicate n 0 @ f"
    using assms(6) by (simp add: built_def d2_def d1_def newbuf_def poke_def drop_take min_def)
  moreover have "dstart d2 + n + length f \<le> length (mem d2)" by (simp add: d2_def d1_def newbuf_def)
  ultimately show ?thesis using assms(1) by (intro exI[of _ d2]) (simp add: d2_def d1_def)
qed

text \<open>
  The buffer is emptied at the start and its size is set at the end, so a reallocation in
  between copies nothing: if the last field does not fit, all that was built before it is
  zero bytes.
\<close>

lemma build_record_grows:
  fixes prepend :: nat
  assumes "data_ok d" and "\<not> external d" and "n = offset + length (encode_fields fs)"
    and "g = common_field (fst f) (snd f)" and "has_room d n" and "\<not> has_room d (n + length g)"
    and "prepend = (if dstart d = 0 then 0x100 else dstart d)"
    and "length (mem d) < n + length g + (1024 + prepend)"
  shows "rbind (build_record d offset (fs @ [f])) (\<lambda>(d', n'). Inr (contents d', n'))
     = Inr (replicate n 0 @ g, n + length g)"
proof -
  define gs where "gs = map (\<lambda>f. common_field (fst f) (snd f)) fs"
  have n: "n = offset + length (concat gs)" using assms(3) by (simp add: gs_def encode_fields_def)
  have ne: "[] \<notin> set gs" by (auto simp: gs_def common_field_def)
  obtain d1 where d1: "build_fields (Zap d) offset gs = Inr (d1, n)" "dstart d1 = dstart (Zap d)" "external d1 = external (Zap d)"
      "length (mem d1) = length (mem (Zap d))" "dsize d1 = 0"
    using build_fields_room[of "Zap d" offset gs] Zap_room[OF assms(5)] ne build_fields_dsize[of "Zap d" offset gs] n
    by (fastforce simp: Zap_def)
  have same: "\<not> external d1" "dstart d1 = dstart d" "length (mem d1) = length (mem d)"
    using d1 assms(2) by (simp_all add: Zap_def)
  have f: "g \<noteq> []" using assms(4) by (simp add: common_field_def)
  have p: "prepend = (if dstart d1 = 0 then 0x100 else dstart d1)" using assms(7) same(2) by simp
  have big: "\<not> has_room d1 (n + length g)" using assms(2,6) same by (auto simp: has_room_def split: if_splits)
  have "data_ok d1" using same d1(5) assms(1,2) by (simp add: data_ok_def)
  moreover have "length (mem d1) < n + length g + (1024 + prepend)" using assms(8) same(3) by simp
  ultimately obtain d2 where d2: "store_field d1 n g = Inr (d2, n + length g)" "\<not> external d2"
      "dstart d2 + n + length g \<le> length (mem d2)" "built d2 (n + length g) = replicate n 0 @ g"
    using store_field_grows[OF same(1) d1(5) big p _ f] by blast
  have "ReleaseBuffer d2 (int (n + length g)) = Inr (d2\<lparr>dsize := n + length g\<rparr>)"
    using d2 by (intro ReleaseBuffer_size) (simp_all add: GetBufSize_def)
  moreover have "map (\<lambda>f. common_field (fst f) (snd f)) (fs @ [f]) = gs @ [g]" by (simp add: gs_def assms(4))
  ultimately show ?thesis
    using d1(1) d2 by (simp add: build_record_def build_fields_append build_fields_simps contents_internal built_def)
qed

section \<open>Strings in fields\<close>

definition text_ok :: "converter option \<Rightarrow> bytes \<Rightarrow> bool" where
  "text_ok ic s \<longleftrightarrow> from_bb ic (to_bb ic s) = s \<and> length (to_bb ic s) < 65535
     \<and> (to_bb ic s \<noteq> [] \<longrightarrow> last (to_bb ic s) \<noteq> 0)"

lemma string_length_stop: "byte_at s n \<noteq> 0 \<Longrightarrow> string_length s (Suc n) = Suc n"
  by simp

lemma ParseFieldString_nul:
  assumes "s \<noteq> [] \<longrightarrow> last s \<noteq> 0"
  shows "ParseFieldString (s @ [0]) (length (s @ [0])) = s"
proof (cases s rule: rev_cases)
  case Nil
  then show ?thesis by (simp add: ParseFieldString_def)
next
  case (snoc t x)
  then have "x \<noteq> 0" using assms by simp
  then show ?thesis by (simp add: ParseFieldString_def snoc)
qed

lemma ParseFieldString_text:
  "text_ok ic s \<Longrightarrow> from_bb ic (ParseFieldString (to_bb ic s @ [0]) (length (to_bb ic s @ [0]))) = s"
  using ParseFieldString_nul[of "to_bb ic s"] by (simp add: text_ok_def)

section \<open>Building by the field table\<close>

text \<open>
  The loop over the type table in BuildFields: strings and postal strings that are not
  empty, positive times, and the addresses that are not empty. The addresses are written
  as they are, both strings with their NUL.
\<close>

definition address_field :: "email_address \<Rightarrow> bytes" where
  "address_field a = ea_Email a @ [0] @ ea_Name a @ [0]"

fun build_links :: "'r field_link list \<Rightarrow> converter option \<Rightarrow> 'r \<Rightarrow> data \<times> nat \<Rightarrow> (data \<times> nat) res" where
  "build_links [] ic m dn = Inr dn"
| "build_links (l # ls) ic m dn =
     rbind
       (case link_member l of
          StrMember rd wr \<Rightarrow>
            if rd m \<noteq> []
            then BuildField_string (fst dn) (snd dn) (link_type l) (if iconvNeeded l then to_bb ic (rd m) else rd m)
            else Inr dn
        | TimeMember rd wr \<Rightarrow>
            if rd m > 0 then BuildField1900 (fst dn) (snd dn) (link_type l) (rd m) else Inr dn
        | AddrMember rd wr split \<Rightarrow>
            rfold (\<lambda>dn a. if address_empty a then Inr dn
                          else BuildField_raw (fst dn) (snd dn) (link_type l) (address_field a)) dn (rd m)
        | PostMember rd wr \<Rightarrow>
            if rd m \<noteq> []
            then BuildField_string (fst dn) (snd dn) (link_type l) (if iconvNeeded l then to_bb ic (rd m) else rd m)
            else Inr dn)
       (build_links ls ic m)"

text \<open>The fields these steps add, as values; \<open>store_fields\<close> puts a list of fields into the buffer.\<close>

definition str_field :: "byte \<Rightarrow> converter option \<Rightarrow> bytes \<Rightarrow> (byte \<times> bytes) list" where
  "str_field ty ic s = (if s \<noteq> [] then [(ty, to_bb ic s @ [0])] else [])"

definition time_field :: "byte \<Rightarrow> int \<Rightarrow> (byte \<times> bytes) list" where
  "time_field ty t = (if t > 0 then [(ty, le32 (store_min1900 t))] else [])"

definition addr_fields :: "byte \<Rightarrow> email_address list \<Rightarrow> (byte \<times> bytes) list" where
  "addr_fields ty al = map (\<lambda>a. (ty, address_field a)) (filter (\<lambda>a. \<not> address_empty a) al)"

definition link_fields :: "converter option \<Rightarrow> 'r \<Rightarrow> 'r field_link \<Rightarrow> (byte \<times> bytes) list" where
  "link_fields ic m l =
     (case link_member l of
        StrMember rd wr \<Rightarrow> str_field (link_type l) (if iconvNeeded l then ic else None) (rd m)
      | TimeMember rd wr \<Rightarrow> time_field (link_type l) (rd m)
      | AddrMember rd wr split \<Rightarrow> addr_fields (link_type l) (rd m)
      | PostMember rd wr \<Rightarrow> str_field (link_type l) (if iconvNeeded l then ic else None) (rd m))"

definition store_fields :: "data \<times> nat \<Rightarrow> (byte \<times> bytes) list \<Rightarrow> (data \<times> nat) res" where
  "store_fields dn fs = build_fields (fst dn) (snd dn) (map (\<lambda>f. common_field (fst f) (snd f)) fs)"

lemma store_fields_append: "store_fields dn (fs @ gs) = rbind (store_fields dn fs) (\<lambda>dn'. store_fields dn' gs)"
  by (simp add: store_fields_def build_fields_append case_prod_unfold)

lemma store_fields_simps:
  "store_fields dn [] = Inr dn"
  "store_fields dn (f # fs) = rbind (store_field (fst dn) (snd dn) (common_field (fst f) (snd f))) (\<lambda>dn'. store_fields dn' fs)"
  by (simp_all add: store_fields_def build_fields_simps case_prod_unfold)

lemma store_one: "store_field (fst dn) (snd dn) (common_field ty v) = store_fields dn [(ty, v)]"
  by (cases "store_field (fst dn) (snd dn) (common_field ty v)") (simp_all add: store_fields_simps)

lemma store_three:
  "rbind (store_fields dn [a]) (\<lambda>dn. rbind (store_fields dn [b]) (\<lambda>dn. store_fields dn [c])) = store_fields dn [a, b, c]"
  using store_fields_append[of dn "[a]" "[b, c]"] by (simp add: store_fields_append[of _ "[b]" "[c]", simplified])

lemma store_if: "(if c then store_fields dn fs else Inr dn) = store_fields dn (if c then fs else [])"
  by (simp add: store_fields_simps(1))

lemma store_unknowns: "rfold (\<lambda>dn uf. BuildField_unknown (fst dn) (snd dn) uf) dn ufs = store_fields dn ufs"
  by (simp add: store_fields_def build_unknowns)

lemma store_each: "rfold (\<lambda>dn x. store_fields dn (g x)) dn xs = store_fields dn (concat (map g xs))"
  by (induction xs arbitrary: dn) (simp_all add: store_fields_append store_fields_simps(1))

lemma store_addresses:
  "rfold (\<lambda>dn a. if address_empty a then Inr dn else BuildField_raw (fst dn) (snd dn) ty (address_field a)) dn al
     = store_fields dn (addr_fields ty al)"
  by (induction al arbitrary: dn) (simp_all add: addr_fields_def store_fields_simps BuildField_raw_def)

lemma store_nil: "store_fields dn [] = Inr dn"
  by (rule store_fields_simps)

lemma build_links_fields: "build_links ls ic m dn = store_fields dn (concat (map (link_fields ic m) ls))"
proof (induction ls arbitrary: dn)
  case Nil
  show ?case by (simp add: store_nil)
next
  case (Cons l ls)
  have str: "(if s \<noteq> [] then BuildField_string (fst dn) (snd dn) ty (if b then to_bb ic s else s) else Inr dn)
      = store_fields dn (str_field ty (if b then ic else None) s)" for s b ty
    by (simp add: str_field_def BuildField_string_field store_one store_nil to_bb_def)
  have tim: "(if t > 0 then BuildField1900 (fst dn) (snd dn) ty t else Inr dn) = store_fields dn (time_field ty t)" for t ty
    by (simp add: time_field_def BuildField1900_field store_one store_nil)
  have "build_links ls ic m = (\<lambda>dn. store_fields dn (concat (map (link_fields ic m) ls)))"
    by (rule ext) (rule Cons.IH)
  then show ?case
    by (cases "link_member l") (simp_all only: build_links.simps member.case str tim store_addresses link_fields_def[of ic m l]
          list.map concat.simps store_fields_append)
qed

lemma build_record_fields:
  "build_record d offset fs = rbind (store_fields (Zap d, offset) fs) (\<lambda>dn.
     rbind (ReleaseBuffer (fst dn) (int (snd dn))) (\<lambda>d'. Inr (d', snd dn)))"
  by (simp add: build_record_def store_fields_def case_prod_unfold)

lemmas store_simps = store_one store_if store_unknowns store_addresses build_links_fields store_fields_append build_record_fields

text \<open>Reading the fields of one step back.\<close>

lemma rfold_str_field:
  "(s \<noteq> [] \<Longrightarrow> h r (ty, to_bb ic s @ [0]) = Inr r') \<Longrightarrow> (s = [] \<Longrightarrow> r' = r) \<Longrightarrow> rfold h r (str_field ty ic s) = Inr r'"
  by (simp add: str_field_def)

lemma rfold_time_field:
  "(t > 0 \<Longrightarrow> h r (ty, le32 (store_min1900 t)) = Inr r') \<Longrightarrow> (\<not> t > 0 \<Longrightarrow> r' = r) \<Longrightarrow> rfold h r (time_field ty t) = Inr r'"
  by (simp add: time_field_def)

text \<open>An address whose strings hold no NUL comes back, converted from the device's character set.\<close>

definition plain_address :: "email_address \<Rightarrow> bool" where
  "plain_address a \<longleftrightarrow> 0 \<notin> set (ea_Name a) \<and> 0 \<notin> set (ea_Email a) \<and> length (ea_Name a) + length (ea_Email a) < 65534"

text \<open>What comes back: the addresses were not converted on the way out, but are on the way in.\<close>

definition addresses_stored :: "converter option \<Rightarrow> email_address list \<Rightarrow> email_address list" where
  "addresses_stored ic al = map (address_from_bb ic) (filter (\<lambda>a. \<not> address_empty a) al)"

lemma address_first_field: "plain_address a \<Longrightarrow> address_first (address_field a) = Inr a"
  by (simp add: plain_address_def address_first_def address_field_def dual_strings_def c_str_at_def)

lemma rfold_addr_fields:
  assumes step: "\<And>a r. plain_address a \<Longrightarrow> \<not> address_empty a \<Longrightarrow> h r (ty, address_field a) = Inr (wr (rd r @ [address_from_bb ic a]) r)"
    and lens: "\<And>x r. rd (wr x r) = x" "\<And>x y r. wr x (wr y r) = wr x r" "\<And>r. wr (rd r) r = r"
    and "list_all plain_address al"
  shows "rfold h r (addr_fields ty al) = Inr (wr (rd r @ map (address_from_bb ic) (filter (\<lambda>a. \<not> address_empty a) al)) r)"
  using assms(5)
proof (induction al arbitrary: r)
  case Nil
  then show ?case by (simp add: addr_fields_def lens)
next
  case (Cons a al)
  then show ?case by (simp add: addr_fields_def step lens)
qed

text \<open>
  Tables that hold only strings are read back in one go: the handler of the class puts the
  string of a field where the table says. \<open>links_clear\<close> says that leaving out an empty
  string makes no difference.
\<close>

definition is_text :: "'r field_link \<Rightarrow> bool" where
  "is_text l \<longleftrightarrow> (case link_member l of StrMember rd wr \<Rightarrow> True | PostMember rd wr \<Rightarrow> True | _ \<Rightarrow> False)"

definition link_get :: "'r field_link \<Rightarrow> 'r \<Rightarrow> bytes" where
  "link_get l = (case link_member l of StrMember rd wr \<Rightarrow> rd | PostMember rd wr \<Rightarrow> rd | _ \<Rightarrow> (\<lambda>_. []))"

definition link_put :: "'r field_link \<Rightarrow> bytes \<Rightarrow> 'r \<Rightarrow> 'r" where
  "link_put l = (case link_member l of StrMember rd wr \<Rightarrow> wr | PostMember rd wr \<Rightarrow> wr | _ \<Rightarrow> (\<lambda>_ r. r))"

fun links_clear :: "'r \<Rightarrow> 'r field_link list \<Rightarrow> 'r \<Rightarrow> bool" where
  "links_clear m [] r = True"
| "links_clear m (l # ls) r =
     ((link_get l m = [] \<longrightarrow> link_put l [] r = r) \<and> links_clear m ls (link_put l (link_get l m) r))"

definition link_ic :: "converter option \<Rightarrow> 'r field_link \<Rightarrow> converter option" where
  "link_ic ic l = (if iconvNeeded l then ic else None)"

lemma link_fields_text: "is_text l \<Longrightarrow> link_fields ic m l = str_field (link_type l) (link_ic ic l) (link_get l m)"
  by (auto simp: is_text_def link_fields_def link_get_def link_ic_def split: member.splits)

lemma parse_links_text:
  assumes "distinct (map link_type ls)" and "l \<in> set ls" and "is_text l"
  shows "parse_links ls ic r (link_type l) raw = Some (Inr (link_put l (from_bb (link_ic ic l) (ParseFieldString raw (length raw))) r))"
  using assms
  by (induction ls)
     (auto simp: is_text_def link_put_def link_ic_def from_bb_def Let_def rev_image_eqI split: member.splits)

lemma parse_links_other: "ty \<notin> link_type ` set ls \<Longrightarrow> parse_links ls ic r ty raw = None"
  by (induction ls) auto

lemma rfold_text_links:
  assumes "\<And>l r. l \<in> set ls \<Longrightarrow> text_ok (link_ic ic l) (link_get l m) \<Longrightarrow> link_get l m \<noteq> [] \<Longrightarrow>
      h r (link_type l, to_bb (link_ic ic l) (link_get l m) @ [0]) = Inr (link_put l (link_get l m) r)"
    and "list_all is_text ls" and "list_all (\<lambda>l. text_ok (link_ic ic l) (link_get l m)) ls" and "links_clear m ls r"
  shows "rfold h r (concat (map (link_fields ic m) ls)) = Inr (fold (\<lambda>l. link_put l (link_get l m)) ls r)"
  using assms
proof (induction ls arbitrary: r)
  case (Cons l ls)
  have "rfold h r (str_field (link_type l) (link_ic ic l) (link_get l m)) = Inr (link_put l (link_get l m) r)"
    by (rule rfold_str_field) (use Cons.prems in auto)
  then show ?case using Cons by (simp add: rfold_append link_fields_text)
qed simp

text \<open>Unknown fields that can be stored: they have a value and a type the class does not know.\<close>

definition unknowns_ok :: "byte list \<Rightarrow> unknown_field list \<Rightarrow> bool" where
  "unknowns_ok known ufs \<longleftrightarrow> list_all (\<lambda>uf. snd uf \<noteq> [] \<and> length (snd uf) < 65536 \<and> fst uf \<notin> set known) ufs"

text \<open>A field with a value that fits the size member.\<close>

definition proper_field :: "byte \<times> bytes \<Rightarrow> bool" where
  "proper_field f \<longleftrightarrow> snd f \<noteq> [] \<and> length (snd f) < 65536"

lemma proper_ints: "proper_field (ty, [x])" "proper_field (ty, le16 v)" "proper_field (ty, le32 w)" "proper_field (ty, le64 u)"
  by (simp_all add: proper_field_def le16_def le32_def le64_def)

lemma proper_text: "text_ok ic s \<Longrightarrow> proper_field (ty, to_bb ic s @ [0])"
  by (simp add: proper_field_def text_ok_def)

lemma proper_str_field: "text_ok ic s \<Longrightarrow> list_all proper_field (str_field ty ic s)"
  by (simp add: str_field_def proper_text)

lemma proper_time_field: "list_all proper_field (time_field ty t)"
  by (simp add: time_field_def proper_ints)

lemma proper_addr_fields: "list_all plain_address al \<Longrightarrow> list_all proper_field (addr_fields ty al)"
  by (auto simp: addr_fields_def list_all_iff proper_field_def address_field_def plain_address_def)

lemma proper_unknowns: "unknowns_ok known ufs \<Longrightarrow> list_all proper_field ufs"
  by (auto simp: unknowns_ok_def list_all_iff proper_field_def)

lemmas proper_simps = proper_ints proper_text proper_str_field proper_time_field proper_addr_fields proper_unknowns

lemma proper_filter: "list_all proper_field fs \<Longrightarrow> filter (\<lambda>f. snd f \<noteq> []) fs = fs"
  by (auto simp: list_all_iff proper_field_def intro!: filter_True)

lemma proper_contained: "list_all proper_field fs \<Longrightarrow> f \<in> set fs \<Longrightarrow> self_contained (\<lambda>_. h) f"
  by (auto simp: list_all_iff proper_field_def self_contained_def)

lemma proper_last: "list_all proper_field fs \<Longrightarrow> fs \<noteq> [] \<Longrightarrow> snd (last fs) \<noteq> []"
  by (auto simp: list_all_iff proper_field_def)

lemma proper_sizes: "list_all proper_field fs \<Longrightarrow> list_all (\<lambda>f. length (snd f) < 65536) fs"
  by (auto simp: list_all_iff proper_field_def)

lemma proper_parse_list:
  assumes "list_all proper_field fs"
  shows "parse_list (\<lambda>_. h) r fs = rfold (\<lambda>r f. h r (fst f) (snd f)) r fs"
proof -
  have "\<forall>f \<in> set fs. self_contained (\<lambda>_. h) f" using proper_contained[OF assms] by blast
  then show ?thesis using proper_filter[OF assms] by (simp add: parse_list_contained)
qed

section \<open>The contract of a record class\<close>

text \<open>
  A class that builds the list \<open>field_list\<close> of a well formed record and whose parser makes
  \<open>stored m\<close> of them, starting from the cleared record with the ids set, \<open>fresh m\<close>.
\<close>

locale record_codec = record_parser ParseField handle
  for ParseField :: "'r \<Rightarrow> bytes \<Rightarrow> nat \<Rightarrow> ('r \<times> nat) res" and handle +
  fixes BuildFields :: "'r \<Rightarrow> data \<Rightarrow> nat \<Rightarrow> (data \<times> nat) res"
    and field_list :: "'r \<Rightarrow> (byte \<times> bytes) list"
    and well_formed :: "'r \<Rightarrow> bool"
    and fresh :: "'r \<Rightarrow> 'r"
    and stored :: "'r \<Rightarrow> 'r"
  assumes build: "well_formed m \<Longrightarrow> BuildFields m d offset = build_record d offset (field_list m)"
    and sizes: "well_formed m \<Longrightarrow> list_all (\<lambda>f. length (snd f) < 65536) (field_list m)"
    and ends: "well_formed m \<Longrightarrow> field_list m \<noteq> [] \<Longrightarrow> snd (last (field_list m)) \<noteq> []"
    and reads: "well_formed m \<Longrightarrow> parse_list handle (fresh m) (field_list m) = Inr (stored m)"
begin

lemma build_room:
  assumes "well_formed m" and "has_room d (offset + length (encode_fields (field_list m)))"
  shows "\<exists>d'. BuildFields m d offset = Inr (d', offset + length (encode_fields (field_list m)))
     \<and> data_ok d' \<and> contents d' = replicate offset 0 @ encode_fields (field_list m)"
  using build_record_room[OF assms(2)] by (simp add: build[OF assms(1)])

lemma parse_back:
  assumes "well_formed m"
  shows "ParseCommonFields ParseField (fresh m) (pre @ encode_fields (field_list m)) (length pre)
     = Some (Inr (stored m, length pre + length (encode_fields (field_list m))))"
  using parse_fields[of "field_list m" "fresh m" pre] sizes[OF assms] ends[OF assms] by (simp add: reads[OF assms])

lemma roundtrip:
  assumes "well_formed m" and "has_room d (offset + length (encode_fields (field_list m)))"
  shows "\<exists>d' n. BuildFields m d offset = Inr (d', n) \<and> n = length (contents d')
     \<and> ParseCommonFields ParseField (fresh m) (contents d') offset = Some (Inr (stored m, n))"
  using build_room[OF assms] parse_back[OF assms(1), of "replicate offset 0"] by fastforce

end

end
