(* ===== verification/Unknown_Fields.thy ===== *)
theory Unknown_Fields imports Record_Build begin

text \<open>
  What all record classes promise about fields they do not know: such a field is not
  lost, it is added to the list of unknown fields, with its type and value and in order.
  The locale \<open>unknown_keeper\<close> states it of one field and gives it for a whole record.
\<close>

section \<open>Which fields a field table takes\<close>

text \<open>A time is taken from the table only if the field has four bytes.\<close>

fun links_take :: "'r field_link list \<Rightarrow> byte \<Rightarrow> bytes \<Rightarrow> bool" where
  "links_take [] ty raw = False"
| "links_take (l # ls) ty raw =
     (link_type l = ty \<and> (case link_member l of TimeMember rd wr \<Rightarrow> length raw = 4 | _ \<Rightarrow> True) \<or> links_take ls ty raw)"

definition link_keeps :: "('r \<Rightarrow> 'u) \<Rightarrow> 'r field_link \<Rightarrow> bool" where
  "link_keeps g l \<longleftrightarrow>
     (case link_member l of
        StrMember rd wr \<Rightarrow> \<forall>s r. g (wr s r) = g r
      | TimeMember rd wr \<Rightarrow> \<forall>t r. g (wr t r) = g r
      | AddrMember rd wr split \<Rightarrow> \<forall>a r. g (wr a r) = g r
      | PostMember rd wr \<Rightarrow> \<forall>s r. g (wr s r) = g r)"

lemma parse_links_take: "parse_links ls ic r ty raw = None \<longleftrightarrow> \<not> links_take ls ty raw"
  by (induction ls) (auto simp: Let_def split: member.splits)

lemma parse_links_keeps:
  "list_all (link_keeps g) ls \<Longrightarrow> parse_links ls ic r ty raw = Some (Inr r') \<Longrightarrow> g r' = g r"
proof (induction ls)
  case (Cons l ls)
  then have k: "link_keeps g l" "parse_links ls ic r ty raw = Some (Inr r') \<Longrightarrow> g r' = g r" by auto
  show ?case
  proof (cases "link_type l = ty")
    case True
    with Cons.prems(2) k show ?thesis
      by (cases "link_member l") (auto simp: link_keeps_def Let_def rbind_eq_Inr split: if_splits)
  next
    case False
    with Cons.prems(2) k(2) show ?thesis by simp
  qed
qed simp

text \<open>A ParseField that looks into the table first.\<close>

lemma links_first:
  assumes "list_all (link_keeps g) ls" "(case parse_links ls ic r ty raw of Some x \<Rightarrow> x | None \<Rightarrow> other) = Inr r'"
    and "\<not> links_take ls ty raw \<Longrightarrow> other = Inr r' \<Longrightarrow> g r' = g r @ (if also_taken then [] else us)"
  shows "g r' = g r @ (if links_take ls ty raw \<or> also_taken then [] else us)"
proof (cases "parse_links ls ic r ty raw")
  case None
  then show ?thesis using assms(2,3) parse_links_take[of ls ic r ty raw] by simp
next
  case (Some x)
  then have "links_take ls ty raw" using parse_links_take[of ls ic r ty raw] by simp
  then show ?thesis using assms(2) Some parse_links_keeps[OF assms(1)] by simp
qed

section \<open>Nothing is lost\<close>

locale unknown_keeper = record_parser ParseField handle
  for ParseField :: "'r \<Rightarrow> bytes \<Rightarrow> nat \<Rightarrow> ('r \<times> nat) res" and handle +
  fixes unknowns :: "'r \<Rightarrow> unknown_field list"
    and takes :: "'r \<Rightarrow> byte \<Rightarrow> bytes \<Rightarrow> bool"
  assumes sorts: "raw \<noteq> [] \<Longrightarrow> handle post r ty raw = Inr r' \<Longrightarrow>
      unknowns r' = unknowns r @ (if takes r ty raw then [] else [(ty, raw)])"
    and takes_same: "handle post r ty raw = Inr r' \<Longrightarrow> takes r' = takes r"
begin

lemma kept_list:
  "parse_list handle r fs = Inr r' \<Longrightarrow>
     unknowns r' = unknowns r @ filter (\<lambda>f. snd f \<noteq> [] \<and> \<not> takes r (fst f) (snd f)) fs"
proof (induction fs arbitrary: r)
  case (Cons f fs)
  then obtain r1 where r1: "(if snd f = [] then Inr r else handle (encode_fields fs) r (fst f) (snd f)) = Inr r1"
      "parse_list handle r1 fs = Inr r'"
    by (auto simp: rbind_eq_Inr)
  have same: "takes r1 = takes r" using r1(1) takes_same by (auto split: if_splits)
  show ?case using r1(1) Cons.IH[OF r1(2)] sorts[of "snd f" "encode_fields fs" r "fst f" r1] unfolding same by (auto split: if_splits)
qed simp

lemma kept_whole:
  assumes "list_all (\<lambda>f. length (snd f) < 65536) fs" and "fs \<noteq> [] \<longrightarrow> snd (last fs) \<noteq> []"
    and "bs = pre @ encode_fields fs" and "offset = length pre"
    and "ParseCommonFields ParseField r bs offset = Some (Inr (r', n))"
  shows "unknowns r' = unknowns r @ filter (\<lambda>f. snd f \<noteq> [] \<and> \<not> takes r (fst f) (snd f)) fs"
  using parse_fields[OF assms(1,2), of r pre] assms(3-5) kept_list[of r fs r'] by (auto simp: rbind_eq_Inr)

end

end
