(* ===== verification/Memo.thy ===== *)
theory Memo imports Unknown_Fields begin

text \<open>
  The Memo record class (src/src/r_memo.cc, src/src/r_memo.h): parsing the fields of a memo
  from device data and building them again. The theory proves the round trip, and what is
  left of a record when its buffer has to grow while the fields are built.
\<close>

section \<open>State\<close>

record memo =
  mm_RecType :: byte
  mm_RecordId :: u32
  Title :: bytes
  Body :: bytes
  Categories :: "bytes list"
  Unknowns :: "unknown_field list"

definition Memo_Clear :: memo where
  "Memo_Clear = \<lparr>mm_RecType = 0, mm_RecordId = 0, Title = [], Body = [], Categories = [], Unknowns = []\<rparr>"

definition MEMFC_TITLE :: byte where "MEMFC_TITLE = 1"
definition MEMFC_BODY :: byte where "MEMFC_BODY = 2"
definition MEMFC_MEMO_TYPE :: byte where "MEMFC_MEMO_TYPE = 3"
definition MEMFC_CATEGORY :: byte where "MEMFC_CATEGORY = 4"

lemmas memo_codes = MEMFC_TITLE_def MEMFC_BODY_def MEMFC_MEMO_TYPE_def MEMFC_CATEGORY_def

definition MemoFieldLinks :: "memo field_link list" where
  "MemoFieldLinks =
     [FieldLink MEMFC_TITLE (StrMember Title (\<lambda>s m. m\<lparr>Title := s\<rparr>)) True,
      FieldLink MEMFC_BODY (StrMember Body (\<lambda>s m. m\<lparr>Body := s\<rparr>)) True]"

definition Memo_SetIds :: "byte \<Rightarrow> u32 \<Rightarrow> memo \<Rightarrow> memo" where
  "Memo_SetIds ty ident m = m\<lparr>mm_RecType := ty, mm_RecordId := ident\<rparr>"

section \<open>Parsing\<close>

text \<open>ParseField behind its common start.\<close>

definition Memo_handle :: "converter option \<Rightarrow> memo \<Rightarrow> byte \<Rightarrow> bytes \<Rightarrow> memo res" where
  "Memo_handle ic m ty raw =
     (if ty = MEMFC_MEMO_TYPE
      then (if byte_at raw 0 \<noteq> 0x6d then Inl (BarryError ''Memo::ParseField: MemoType is not m'') else Inr m)
      else case parse_links MemoFieldLinks ic m ty raw of
        Some r \<Rightarrow> r
      | None \<Rightarrow>
          if ty = MEMFC_CATEGORY
          then rbind (CategoryStr2List (from_bb ic (ParseFieldString raw (length raw)))) (\<lambda>cs.
                 Inr (m\<lparr>Categories := cs\<rparr>))
          else Inr (m\<lparr>Unknowns := Unknowns m @ [(ty, raw)]\<rparr>))"

definition Memo_ParseField :: "converter option \<Rightarrow> memo \<Rightarrow> bytes \<Rightarrow> nat \<Rightarrow> (memo \<times> nat) res" where
  "Memo_ParseField ic = ParseField_start (Memo_handle ic)"

text \<open>Memo records have no header; the new offset is where the last field ended.\<close>

definition Memo_ParseHeader :: "memo \<Rightarrow> data \<Rightarrow> nat \<Rightarrow> memo \<times> nat" where
  "Memo_ParseHeader m d offset = (m, offset)"

definition Memo_ParseFields :: "converter option \<Rightarrow> memo \<Rightarrow> data \<Rightarrow> nat \<Rightarrow> (memo \<times> nat) res option" where
  "Memo_ParseFields ic m d offset = ParseCommonFields (Memo_ParseField ic) m (contents d) offset"

section \<open>Building\<close>

fun Memo_build_links :: "memo field_link list \<Rightarrow> converter option \<Rightarrow> memo \<Rightarrow> data \<times> nat \<Rightarrow> (data \<times> nat) res" where
  "Memo_build_links [] ic m dn = Inr dn"
| "Memo_build_links (l # ls) ic m dn =
     rbind
       (case link_member l of
          StrMember rd wr \<Rightarrow>
            if rd m \<noteq> []
            then BuildField_string (fst dn) (snd dn) (link_type l) (if iconvNeeded l then to_bb ic (rd m) else rd m)
            else Inr dn
        | _ \<Rightarrow> Inr dn)
       (Memo_build_links ls ic m)"

definition Memo_BuildHeader :: "memo \<Rightarrow> data \<Rightarrow> nat \<Rightarrow> data \<times> nat" where
  "Memo_BuildHeader m d offset = (d, offset)"

definition Memo_BuildFields :: "converter option \<Rightarrow> memo \<Rightarrow> data \<Rightarrow> nat \<Rightarrow> (data \<times> nat) res" where
  "Memo_BuildFields ic m d offset =
     rbind (BuildField_u8 (Zap d) offset MEMFC_MEMO_TYPE 0x6d) (\<lambda>dn1.
     rbind (if Categories m \<noteq> []
            then BuildField_string (fst dn1) (snd dn1) MEMFC_CATEGORY (to_bb ic (CategoryList2Str (Categories m)))
            else Inr dn1) (\<lambda>dn2.
     rbind (Memo_build_links MemoFieldLinks ic m dn2) (\<lambda>dn3.
     rbind (rfold (\<lambda>dn uf. BuildField_unknown (fst dn) (snd dn) uf) dn3 (Unknowns m)) (\<lambda>dn4.
     rbind (ReleaseBuffer (fst dn4) (int (snd dn4))) (\<lambda>d5. Inr (d5, snd dn4))))))"

section \<open>The fields of a memo\<close>

text \<open>The fields BuildFields writes, in order, as pairs of type and value.\<close>

definition memo_fields :: "converter option \<Rightarrow> memo \<Rightarrow> (byte \<times> bytes) list" where
  "memo_fields ic m =
     [(MEMFC_MEMO_TYPE, [0x6d])]
     @ (if Categories m \<noteq> [] then [(MEMFC_CATEGORY, to_bb ic (CategoryList2Str (Categories m)) @ [0])] else [])
     @ (if Title m \<noteq> [] then [(MEMFC_TITLE, to_bb ic (Title m) @ [0])] else [])
     @ (if Body m \<noteq> [] then [(MEMFC_BODY, to_bb ic (Body m) @ [0])] else [])
     @ Unknowns m"

lemma Memo_BuildFields_eq: "Memo_BuildFields ic m d offset = build_record d offset (memo_fields ic m)"
  unfolding Memo_BuildFields_def memo_fields_def MemoFieldLinks_def build_unknowns build_record_def
  by (cases "Categories m = []"; cases "Title m = []"; cases "Body m = []")
     (simp_all add: build_fields_simps build_field_simps to_bb_def case_prod_unfold)

section \<open>Round trip\<close>

text \<open>
  A memo that can be stored: its strings do not end in a NUL, its categories are parsed
  back from their text, its unknown fields have a value and a type that is not one of the
  known ones, and every value fits the 16 bits of the size member.
\<close>

definition memo_ok :: "converter option \<Rightarrow> memo \<Rightarrow> bool" where
  "memo_ok ic m \<longleftrightarrow> text_ok ic (Title m) \<and> text_ok ic (Body m) \<and> text_ok ic (CategoryList2Str (Categories m))
     \<and> list_all category_ok (Categories m)
     \<and> unknowns_ok [1, 2, 3, 4] (Unknowns m)"

lemma Memo_handle_cases:
  "Memo_handle ic r MEMFC_MEMO_TYPE [0x6d] = Inr r"
  "text_ok ic s \<Longrightarrow> Memo_handle ic r MEMFC_TITLE (to_bb ic s @ [0]) = Inr (r\<lparr>Title := s\<rparr>)"
  "text_ok ic s \<Longrightarrow> Memo_handle ic r MEMFC_BODY (to_bb ic s @ [0]) = Inr (r\<lparr>Body := s\<rparr>)"
  "text_ok ic (CategoryList2Str cs) \<Longrightarrow> list_all category_ok cs \<Longrightarrow>
     Memo_handle ic r MEMFC_CATEGORY (to_bb ic (CategoryList2Str cs) @ [0]) = Inr (r\<lparr>Categories := cs\<rparr>)"
  "ty \<notin> {1, 2, 3, 4} \<Longrightarrow> Memo_handle ic r ty raw = Inr (r\<lparr>Unknowns := Unknowns r @ [(ty, raw)]\<rparr>)"
  using ParseFieldString_text[of ic s] ParseFieldString_text[of ic "CategoryList2Str cs"]
  by (simp_all add: Memo_handle_def MemoFieldLinks_def memo_codes categories_survive Let_def)

lemma Memo_handle_unknowns:
  "list_all (\<lambda>uf. fst uf \<notin> {1, 2, 3, 4}) ufs \<Longrightarrow>
     rfold (\<lambda>r f. Memo_handle ic r (fst f) (snd f)) r ufs = Inr (r\<lparr>Unknowns := Unknowns r @ ufs\<rparr>)"
  by (induction ufs arbitrary: r) (simp_all add: Memo_handle_cases(5))

lemma Memo_handle_fields:
  assumes "memo_ok ic m"
  shows "rfold (\<lambda>r f. Memo_handle ic r (fst f) (snd f)) (Memo_Clear\<lparr>mm_RecType := mm_RecType m, mm_RecordId := mm_RecordId m\<rparr>) (memo_fields ic m) = Inr m"
proof -
  have "list_all (\<lambda>uf. fst uf \<notin> {1, 2, 3, 4}) (Unknowns m)"
    using assms by (auto simp: memo_ok_def unknowns_ok_def list_all_iff)
  note u = Memo_handle_unknowns[OF this, of ic]
  have ok: "text_ok ic (Title m)" "text_ok ic (Body m)" "text_ok ic (CategoryList2Str (Categories m))" "list_all category_ok (Categories m)"
    using assms by (simp_all add: memo_ok_def)
  show ?thesis
    unfolding memo_fields_def
    by (simp add: rfold_append u Memo_handle_cases ok Memo_Clear_def)
qed

lemma memo_fields_proper: "memo_ok ic m \<Longrightarrow> list_all proper_field (memo_fields ic m)"
  by (simp add: memo_ok_def memo_fields_def proper_simps proper_unknowns[of "[1, 2, 3, 4]"])

definition memo_takes :: "byte \<Rightarrow> bytes \<Rightarrow> bool" where
  "memo_takes ty raw \<longleftrightarrow> ty = MEMFC_MEMO_TYPE \<or> links_take MemoFieldLinks ty raw \<or> ty = MEMFC_CATEGORY"

interpretation memo_unknowns: unknown_keeper "Memo_ParseField ic" "\<lambda>_. Memo_handle ic" Unknowns "\<lambda>_. memo_takes" for ic
proof unfold_locales
  fix raw and ty and r r' :: memo
  assume h: "Memo_handle ic r ty raw = Inr r'"
  have k: "list_all (link_keeps Unknowns) MemoFieldLinks" by (simp add: MemoFieldLinks_def link_keeps_def)
  show "Unknowns r' = Unknowns r @ (if memo_takes ty raw then [] else [(ty, raw)])"
  proof (cases "ty = MEMFC_MEMO_TYPE")
    case False
    have "Unknowns r' = Unknowns r @ (if links_take MemoFieldLinks ty raw \<or> ty = MEMFC_CATEGORY then [] else [(ty, raw)])"
      by (rule links_first[OF k h[unfolded Memo_handle_def if_not_P[OF False]]]) (auto simp: rbind_eq_Inr split: if_splits)
    then show ?thesis using False by (simp add: memo_takes_def)
  qed (use h in \<open>auto simp: Memo_handle_def memo_takes_def split: if_splits\<close>)
qed (simp_all add: Memo_ParseField_def)

interpretation memo_codec: record_codec "Memo_ParseField ic" "\<lambda>_. Memo_handle ic" "Memo_BuildFields ic" "memo_fields ic"
  "memo_ok ic" "\<lambda>m. Memo_Clear\<lparr>mm_RecType := mm_RecType m, mm_RecordId := mm_RecordId m\<rparr>" "\<lambda>m. m" for ic
  by unfold_locales (simp_all add: Memo_ParseField_def Memo_BuildFields_eq proper_sizes[OF memo_fields_proper]
    proper_last[OF memo_fields_proper] proper_parse_list[OF memo_fields_proper] Memo_handle_fields)

text \<open>
  C23: Building the fields of a memo behind a header of any length and parsing them back
  gives the same memo, with every string converted to the device's character set and back,
  the unknown fields kept, and both offsets at the end of the data, provided the buffer
  has room for the record before the first field is built.
\<close>

theorem Memo_roundtrip:
  assumes "memo_ok ic m" and "has_room d (offset + length (encode_fields (memo_fields ic m)))"
  shows "\<exists>d' n. Memo_BuildFields ic m d offset = Inr (d', n) \<and> n = length (contents d')
     \<and> Memo_ParseFields ic (Memo_Clear\<lparr>mm_RecType := mm_RecType m, mm_RecordId := mm_RecordId m\<rparr>) d' offset = Some (Inr (m, n))"
  using memo_codec.roundtrip[OF assms] by (simp add: Memo_ParseFields_def)

definition sample_memo :: memo where
  "sample_memo = \<lparr>mm_RecType = 0, mm_RecordId = 7, Title = [0x41], Body = [0x42, 0x0d, 0x43],
     Categories = [[0x57], [0x78, 0x20, 0x79]], Unknowns = [(9, [1, 0])]\<rparr>"

lemma Memo_roundtrip_witness:
  "\<exists>d' n. Memo_BuildFields None sample_memo Data_default 15 = Inr (d', n)
     \<and> Memo_ParseFields None (Memo_Clear\<lparr>mm_RecType := 0, mm_RecordId := 7\<rparr>) d' 15 = Some (Inr (sample_memo, n))"
proof -
  have "memo_ok None sample_memo"
    by (simp add: memo_ok_def unknowns_ok_def sample_memo_def text_ok_def from_bb_def to_bb_def category_ok_def CategoryList2Str_def)
  moreover have "has_room Data_default (15 + length (encode_fields (memo_fields None sample_memo)))"
    by (simp add: has_room_def Data_default_def Data_new_def BARRY_DATA_DEFAULT_SIZE_def BARRY_DATA_DEFAULT_PREPEND_SIZE_def
        encode_fields_def memo_fields_def sample_memo_def common_field_def to_bb_def CategoryList2Str_def)
  ultimately show ?thesis
    using Memo_roundtrip[of None sample_memo Data_default 15] by (auto simp: sample_memo_def)
qed

section \<open>A record that outgrows its buffer\<close>

text \<open>
  C35: A memo whose body is the field that no longer fits into the buffer comes out broken:
  the buffer is emptied at the start of BuildFields and its size is only set at the end,
  so the reallocation inside the last BuildField copies nothing, and the memo type, the
  categories and the title, built before, are zero bytes in front of an intact body.
\<close>

theorem Memo_growth_erases:
  fixes prepend :: nat
  assumes "Body m \<noteq> []" and "Unknowns m = []" and "data_ok d" and "\<not> external d"
    and "n = offset + length (encode_fields (memo_fields ic (m\<lparr>Body := []\<rparr>)))"
    and "f = common_field MEMFC_BODY (to_bb ic (Body m) @ [0])"
    and "has_room d n" and "\<not> has_room d (n + length f)"
    and "prepend = (if dstart d = 0 then 0x100 else dstart d)"
    and "length (mem d) < n + length f + (1024 + prepend)"
  shows "rbind (Memo_BuildFields ic m d offset) (\<lambda>(d', n'). Inr (contents d', n'))
     = Inr (replicate n 0 @ f, n + length f)"
proof -
  have "memo_fields ic m = memo_fields ic (m\<lparr>Body := []\<rparr>) @ [(MEMFC_BODY, to_bb ic (Body m) @ [0])]"
    using assms(1,2) by (simp add: memo_fields_def)
  then show ?thesis
    using build_record_grows[OF assms(3-5), of f "(MEMFC_BODY, to_bb ic (Body m) @ [0])"] assms(6-10)
    by (simp add: Memo_BuildFields_eq)
qed

text \<open>A memo of 16,500 letters, built behind the 15 bytes of an upload header.\<close>

definition long_memo :: memo where
  "long_memo = Memo_Clear\<lparr>Title := [0x54], Body := replicate 16500 0x61\<rparr>"

lemma Memo_growth_erases_witness:
  "rbind (Memo_BuildFields None long_memo Data_default 15) (\<lambda>(d', n'). Inr (contents d', n'))
     = Inr (replicate 24 0 @ common_field MEMFC_BODY (replicate 16500 0x61 @ [0]), 16528)"
proof -
  have front: "15 + length (encode_fields (memo_fields None (long_memo\<lparr>Body := []\<rparr>))) = 24"
    by (simp add: encode_fields_def memo_fields_def long_memo_def Memo_Clear_def common_field_def to_bb_def)
  define f where "f = common_field MEMFC_BODY (replicate 16500 0x61 @ [0])"
  have len: "length f = 16504" by (simp add: f_def common_field_def)
  have body: "f = common_field MEMFC_BODY (to_bb None (Body long_memo) @ [0])"
    by (simp add: f_def to_bb_def long_memo_def)
  have dd: "dstart Data_default = 256" "length (mem Data_default) = 16640" "\<not> external Data_default"
    by (simp_all add: Data_default_def Data_new_def BARRY_DATA_DEFAULT_SIZE_def BARRY_DATA_DEFAULT_PREPEND_SIZE_def)
  have "rbind (Memo_BuildFields None long_memo Data_default 15) (\<lambda>(d', n'). Inr (contents d', n'))
     = Inr (replicate 24 0 @ f, 24 + length f)"
    by (rule Memo_growth_erases[where prepend = "256"])
       (use front len body dd in \<open>simp_all add: has_room_def long_memo_def Memo_Clear_def\<close>)
  then show ?thesis using len by (simp add: f_def)
qed

end
