(* ===== verification/Recur.thy ===== *)
theory Recur imports Record_Build begin

text \<open>
  Recurrence data (src/src/r_recur_base.cc, src/src/r_recur_base.h and the struct
  CalendarRecurrenceDataField of src/src/protostructs.h): the base class of appointments
  and tasks. The record is extended by the records of the derived classes, and its
  operations work on every extension.
\<close>

section \<open>State\<close>

datatype RecurringCodeType = Day | MonthByDate | MonthByDay | YearByDate | YearByDay | Week

record recur =
  Recurring :: bool
  RecurringType :: RecurringCodeType
  Interval :: u16
  RecurringEndTime :: int
  Perpetual :: bool
  DayOfWeek :: u16
  WeekOfMonth :: u16
  DayOfMonth :: u16
  MonthOfYear :: u16
  WeekDays :: byte

definition RecurBase_Clear :: "'a recur_scheme \<Rightarrow> 'a recur_scheme" where
  "RecurBase_Clear r = r\<lparr>Recurring := False, RecurringType := Week, Interval := 1, RecurringEndTime := 0,
     Perpetual := False, DayOfWeek := 0, WeekOfMonth := 0, DayOfMonth := 0, MonthOfYear := 0, WeekDays := 0\<rparr>"

definition FIELDCODE_RECURRENCE_DATA :: byte where "FIELDCODE_RECURRENCE_DATA = 0x0c"

fun CRDF_TYPE :: "RecurringCodeType \<Rightarrow> byte" where
  "CRDF_TYPE Day = 0x01"
| "CRDF_TYPE MonthByDate = 0x03"
| "CRDF_TYPE MonthByDay = 0x04"
| "CRDF_TYPE YearByDate = 0x05"
| "CRDF_TYPE YearByDay = 0x06"
| "CRDF_TYPE Week = 0x0c"

section \<open>Parsing\<close>

definition WeekDayProto2Rec :: "byte \<Rightarrow> byte" where "WeekDayProto2Rec raw_field = raw_field"
definition WeekDayRec2Proto :: "byte \<Rightarrow> byte" where "WeekDayRec2Proto weekdays = weekdays"

text \<open>The end time is an unsigned 32 bit number of minutes; the details start at byte 12.\<close>

definition ParseRecurrenceData :: "bytes \<Rightarrow> 'a recur_scheme \<Rightarrow> 'a recur_scheme res" where
  "ParseRecurrenceData raw r =
     (let iv = get16 raw 2;
          r1 = r\<lparr>Interval := (if iv < 1 then 1 else iv)\<rparr>;
          endTime = get32 raw 8;
          r2 = (if endTime = 0xffffffff then r1\<lparr>Perpetual := True\<rparr>
                else r1\<lparr>RecurringEndTime := min2time (uint endTime), Perpetual := False\<rparr>);
          ty = byte_at raw 0;
          u0 = ucast (byte_at raw 12); u1 = ucast (byte_at raw 13); u2 = ucast (byte_at raw 14)
      in rbind
        (if ty = CRDF_TYPE Day then Inr (r2\<lparr>RecurringType := Day\<rparr>)
         else if ty = CRDF_TYPE MonthByDate then Inr (r2\<lparr>RecurringType := MonthByDate, DayOfMonth := u0\<rparr>)
         else if ty = CRDF_TYPE MonthByDay
           then Inr (r2\<lparr>RecurringType := MonthByDay, DayOfWeek := u0, WeekOfMonth := u1\<rparr>)
         else if ty = CRDF_TYPE YearByDate
           then Inr (r2\<lparr>RecurringType := YearByDate, DayOfMonth := u0, MonthOfYear := u2\<rparr>)
         else if ty = CRDF_TYPE YearByDay
           then Inr (r2\<lparr>RecurringType := YearByDay, DayOfWeek := u0, WeekOfMonth := u1, MonthOfYear := u2\<rparr>)
         else if ty = CRDF_TYPE Week
           then Inr (r2\<lparr>RecurringType := Week, WeekDays := WeekDayProto2Rec (byte_at raw 12)\<rparr>)
         else Inl (BarryError ''Unknown recurrence data type''))
        (\<lambda>r3. Inr (r3\<lparr>Recurring := True\<rparr>)))"

text \<open>None if the field is not handled.\<close>

definition RecurBase_ParseField :: "byte \<Rightarrow> bytes \<Rightarrow> 'a recur_scheme \<Rightarrow> 'a recur_scheme res option" where
  "RecurBase_ParseField ty raw r =
     (if ty = FIELDCODE_RECURRENCE_DATA
      then Some (if length raw \<ge> CALENDAR_RECURRENCE_DATA_FIELD_SIZE then ParseRecurrenceData raw r
                 else Inl (BarryError ''RecurBase::ParseField: not enough data in recurrence data field''))
      else None)"

section \<open>Building\<close>

text \<open>The six bytes of the union, zero where nothing is stored.\<close>

definition recurrence_details :: "'a recur_scheme \<Rightarrow> bytes" where
  "recurrence_details r =
     (case RecurringType r of
        Day \<Rightarrow> [0, 0, 0, 0, 0, 0]
      | MonthByDate \<Rightarrow> [ucast (DayOfMonth r), 0, 0, 0, 0, 0]
      | MonthByDay \<Rightarrow> [ucast (DayOfWeek r), ucast (WeekOfMonth r), 0, 0, 0, 0]
      | YearByDate \<Rightarrow> [ucast (DayOfMonth r), 0, ucast (MonthOfYear r), 0, 0, 0]
      | YearByDay \<Rightarrow> [ucast (DayOfWeek r), ucast (WeekOfMonth r), ucast (MonthOfYear r), 0, 0, 0]
      | Week \<Rightarrow> [WeekDayRec2Proto (WeekDays r), 0, 0, 0, 0, 0])"

definition BuildRecurrenceData :: "int \<Rightarrow> 'a recur_scheme \<Rightarrow> bytes res" where
  "BuildRecurrenceData StartTime r =
     (if \<not> Recurring r
      then Inl (BarryError ''RecurBase::BuildRecurrenceData: Attempting to build recurrence data on non-recurring record.'')
      else Inr ([CRDF_TYPE (RecurringType r), 0] @ le16 (Interval r) @ le32 (word_of_int (time2min StartTime))
             @ le32 (if Perpetual r then 0xffffffff else word_of_int (time2min (RecurringEndTime r)))
             @ recurrence_details r))"

definition recurrence_fields :: "int \<Rightarrow> 'a recur_scheme \<Rightarrow> (byte \<times> bytes) list" where
  "recurrence_fields start r =
     (if Recurring r
      then (case BuildRecurrenceData start r of Inr rdata \<Rightarrow> [(FIELDCODE_RECURRENCE_DATA, rdata)] | Inl _ \<Rightarrow> [])
      else [])"

lemma store_recurrence:
  "(if Recurring r then rbind (BuildRecurrenceData start r) (\<lambda>rdata.
      BuildField_raw (fst dn) (snd dn) FIELDCODE_RECURRENCE_DATA rdata) else Inr dn)
     = store_fields dn (recurrence_fields start r)"
  by (simp add: recurrence_fields_def BuildRecurrenceData_def BuildField_raw_def store_one store_nil)

lemma proper_recurrence_fields: "list_all proper_field (recurrence_fields start r)"
proof -
  have "length (recurrence_details r) = 6" by (simp add: recurrence_details_def split: RecurringCodeType.split)
  then show ?thesis by (simp add: recurrence_fields_def BuildRecurrenceData_def proper_field_def)
qed

section \<open>Round trip\<close>

text \<open>A whole minute that a field can hold, or no time.\<close>

definition minute_time :: "int \<Rightarrow> bool" where
  "minute_time t \<longleftrightarrow> 0 \<le> t \<and> 60 dvd t \<and> t div 60 + STDC_MIN1900_DIFF < 2 ^ 31"

text \<open>
  Recurrence data without loss: the members the type does not use are clear, those it uses
  fit a byte, the interval is not 0, and a record that ends has an end time.
\<close>

definition recur_details_ok :: "'a recur_scheme \<Rightarrow> bool" where
  "recur_details_ok r \<longleftrightarrow>
     (DayOfWeek r = 0 \<or> RecurringType r \<in> {MonthByDay, YearByDay}) \<and> (WeekOfMonth r = 0 \<or> RecurringType r \<in> {MonthByDay, YearByDay})
     \<and> (DayOfMonth r = 0 \<or> RecurringType r \<in> {MonthByDate, YearByDate}) \<and> (MonthOfYear r = 0 \<or> RecurringType r \<in> {YearByDate, YearByDay})
     \<and> (WeekDays r = 0 \<or> RecurringType r = Week)
     \<and> DayOfWeek r < 256 \<and> WeekOfMonth r < 256 \<and> DayOfMonth r < 256 \<and> MonthOfYear r < 256"

definition recur_ok :: "'a recur_scheme \<Rightarrow> bool" where
  "recur_ok r \<longleftrightarrow>
     (if Recurring r
      then Interval r \<noteq> 0 \<and> minute_time (RecurringEndTime r) \<and> (Perpetual r \<longleftrightarrow> RecurringEndTime r = 0) \<and> recur_details_ok r
      else RecurBase_Clear r = r)"

lemma ucast_byte_u16: "v < 256 \<Longrightarrow> ucast (ucast v :: byte) = (v :: u16)"
  by (simp add: word_unat_eq_iff word_less_nat_alt unsigned_ucast_eq take_bit_eq_mod unat_mod)

lemma sdiv_60: "0 \<le> t \<Longrightarrow> t sdiv 60 = t div (60 :: int)"
  by (cases "t = 0") (simp_all add: signed_divide_int_def sgn_if)

lemma minute_time_range:
  assumes "minute_time t" and "t \<noteq> 0"
  shows "time2min t = t div 60 + STDC_MIN1900_DIFF" and "0 \<le> time2min t" and "time2min t < 2 ^ 31"
    and "(time2min t - STDC_MIN1900_DIFF) * 60 = t"
proof -
  have t: "0 \<le> t" "60 dvd t" "t div 60 + STDC_MIN1900_DIFF < 2 ^ 31" using assms by (auto simp: minute_time_def)
  show m: "time2min t = t div 60 + STDC_MIN1900_DIFF" using t(1) assms(2) by (simp add: time2min_def sdiv_60)
  have "0 \<le> t div 60" using t(1) by simp
  then show "0 \<le> time2min t" "time2min t < 2 ^ 31" using t(3) by (simp_all add: m STDC_MIN1900_DIFF_value)
  show "(time2min t - STDC_MIN1900_DIFF) * 60 = t" using t(2) by (simp add: m)
qed

lemma minute_time_unsigned:
  assumes "minute_time t" and "t \<noteq> 0"
  shows "min2time (uint (word_of_int (time2min t) :: u32)) = t" and "word_of_int (time2min t) \<noteq> (0xffffffff :: u32)"
proof -
  note r = minute_time_range[OF assms]
  have u: "uint (word_of_int (time2min t) :: u32) = time2min t"
    using r(2,3) by (simp add: uint_word_of_int)
  show "min2time (uint (word_of_int (time2min t) :: u32)) = t"
    unfolding u using load_small[of "time2min t"] r(2-4) by simp
  have "uint (word_of_int (time2min t) :: u32) \<noteq> uint (0xffffffff :: u32)" unfolding u using r(3) by simp
  then show "word_of_int (time2min t) \<noteq> (0xffffffff :: u32)" by metis
qed

lemma minute_time_field:
  assumes "minute_time t" and "t \<noteq> 0" shows "load_min1900 (store_min1900 t) = t"
proof -
  note r = minute_time_range[OF assms]
  have "sint (word_of_int (time2min t) :: u32) = time2min t" using r(2,3) by (intro store_load) simp_all
  then show ?thesis using r by (simp add: load_min1900_def store_min1900_def load_small)
qed

text \<open>A record with the recurrence members of another one.\<close>

definition with_recurrence :: "'a recur_scheme \<Rightarrow> 'b recur_scheme \<Rightarrow> 'b recur_scheme" where
  "with_recurrence r s = s\<lparr>Recurring := Recurring r, RecurringType := RecurringType r, Interval := Interval r,
     RecurringEndTime := RecurringEndTime r, Perpetual := Perpetual r, DayOfWeek := DayOfWeek r,
     WeekOfMonth := WeekOfMonth r, DayOfMonth := DayOfMonth r, MonthOfYear := MonthOfYear r, WeekDays := WeekDays r\<rparr>"

definition no_details :: "'a recur_scheme \<Rightarrow> bool" where
  "no_details s \<longleftrightarrow> RecurringEndTime s = 0 \<and> DayOfWeek s = 0 \<and> WeekOfMonth s = 0 \<and> DayOfMonth s = 0 \<and> MonthOfYear s = 0 \<and> WeekDays s = 0"

lemma recurrence_data:
  fixes r :: "'a recur_scheme" and s :: "'b recur_scheme"
  assumes "Recurring r" and "recur_ok r"
  obtains raw where "BuildRecurrenceData start r = Inr raw" and "length raw = CALENDAR_RECURRENCE_DATA_FIELD_SIZE"
    and "\<And>s :: 'b recur_scheme. no_details s \<Longrightarrow> ParseRecurrenceData raw s = Inr (with_recurrence r s)"
proof -
  define e :: u32 where "e = (if Perpetual r then 0xffffffff else word_of_int (time2min (RecurringEndTime r)))"
  define raw where "raw = [CRDF_TYPE (RecurringType r), 0] @ le16 (Interval r) @ le32 (word_of_int (time2min start)) @ le32 e @ recurrence_details r"
  have ok: "Interval r \<noteq> 0" "minute_time (RecurringEndTime r)" "Perpetual r \<longleftrightarrow> RecurringEndTime r = 0" "recur_details_ok r"
    using assms by (simp_all add: recur_ok_def)
  have b: "BuildRecurrenceData start r = Inr raw" using assms(1) by (simp add: BuildRecurrenceData_def raw_def e_def)
  have len: "length raw = CALENDAR_RECURRENCE_DATA_FIELD_SIZE"
    by (simp add: raw_def recurrence_details_def layout_simps split: RecurringCodeType.split)
  have ty: "byte_at raw 0 = CRDF_TYPE (RecurringType r)" by (simp add: raw_def)
  have iv: "get16 raw 2 = Interval r" by (simp add: raw_def)
  have et: "get32 raw 8 = e" by (simp add: raw_def)
  have u: "byte_at raw 12 = byte_at (recurrence_details r) 0" "byte_at raw 13 = byte_at (recurrence_details r) 1"
      "byte_at raw 14 = byte_at (recurrence_details r) 2"
    by (simp_all add: raw_def)
  have end_time: "e = 0xffffffff \<longleftrightarrow> Perpetual r" "\<not> Perpetual r \<Longrightarrow> min2time (uint e) = RecurringEndTime r"
    using minute_time_unsigned[OF ok(2)] ok(3) by (auto simp: e_def)
  have i0: "\<not> Interval r < 1" using ok(1) by simp
  have parse: "ParseRecurrenceData raw s = Inr (with_recurrence r s)" if s: "no_details s" for s :: "'b recur_scheme"
    unfolding ParseRecurrenceData_def Let_def ty iv et u end_time(1)
    using assms(1) ok(3,4) s end_time(2) i0
    by (cases "RecurringType r"; cases "Perpetual r")
       (auto simp: with_recurrence_def recurrence_details_def recur_details_ok_def no_details_def ucast_byte_u16
          WeekDayRec2Proto_def WeekDayProto2Rec_def intro!: recur.equality)
  show thesis using b len parse by (rule that)
qed

text \<open>Reading the recurrence field of a derived class, whose handler passes it on.\<close>

lemma read_recurrence:
  fixes r :: "'b recur_scheme" and c :: "'a recur_scheme"
  assumes handler: "\<And>raw r. length raw = CALENDAR_RECURRENCE_DATA_FIELD_SIZE \<Longrightarrow>
      h r (FIELDCODE_RECURRENCE_DATA, raw) = ParseRecurrenceData raw r"
    and "recur_ok c" and "no_details r"
    and "Recurring r = Recurring c \<or> \<not> Recurring r" and "RecurringType r = Week" and "Interval r = 1" and "\<not> Perpetual r"
  shows "rfold h r (recurrence_fields start c) = Inr (with_recurrence c r)"
proof (cases "Recurring c")
  case True
  obtain rdata where "BuildRecurrenceData start c = Inr rdata" "length rdata = CALENDAR_RECURRENCE_DATA_FIELD_SIZE"
      "ParseRecurrenceData rdata r = Inr (with_recurrence c r)"
    using recurrence_data[OF True assms(2), where start = start] assms(3) by metis
  then show ?thesis using True by (simp add: recurrence_fields_def handler)
next
  case False
  then have eq: "RecurBase_Clear c = c" using assms(2) by (simp add: recur_ok_def)
  have "RecurringType (RecurBase_Clear c) = Week \<and> Interval (RecurBase_Clear c) = 1 \<and> \<not> Perpetual (RecurBase_Clear c)
      \<and> no_details (RecurBase_Clear c)"
    by (simp add: RecurBase_Clear_def no_details_def)
  then have "RecurringType c = Week" "Interval c = 1" "\<not> Perpetual c" "no_details c" unfolding eq by simp_all
  then have "with_recurrence c r = r"
    using False assms(3-7) unfolding with_recurrence_def no_details_def by (intro recur.equality) simp_all
  then show ?thesis using False by (simp add: recurrence_fields_def)
qed

end
