(* ===== verification/Calendar.thy ===== *)
theory Calendar imports Recur Unknown_Fields begin

text \<open>
  The Calendar record class (src/src/r_calendar.cc, src/src/r_calendar.h), derived from the
  recurrence data, and the header of the Calendar-All class: parsing, building and the
  round trip. Dump, sorting and the field handles are left out.
\<close>

section \<open>State\<close>

datatype FreeBusyFlagType = Free | Tentative | Busy | OutOfOffice
datatype ClassFlagType = Public | Confidential | Private

record calendar = recur +
  cal_RecType :: byte
  cal_RecordId :: u32
  AllDayEvent :: bool
  Subject :: bytes
  cal_Notes :: bytes
  Location :: bytes
  NotificationTime :: int
  cal_StartTime :: int
  EndTime :: int
  Organizer :: "email_address list"
  AcceptedBy :: "email_address list"
  Invited :: "email_address list"
  FreeBusyFlag :: FreeBusyFlagType
  ClassFlag :: ClassFlagType
  CalendarID :: u64
  cal_TimeZoneCode :: u16
  cal_TimeZoneValid :: bool
  cal_Unknowns :: "unknown_field list"

text \<open>The casts between the flags and their codes; the parser has checked the range.\<close>

definition FreeBusyFlagProto2Rec :: "byte \<Rightarrow> FreeBusyFlagType" where
  "FreeBusyFlagProto2Rec f = (if f = 0 then Free else if f = 1 then Tentative else if f = 2 then Busy else OutOfOffice)"

fun FreeBusyFlagRec2Proto :: "FreeBusyFlagType \<Rightarrow> byte" where
  "FreeBusyFlagRec2Proto Free = 0"
| "FreeBusyFlagRec2Proto Tentative = 1"
| "FreeBusyFlagRec2Proto Busy = 2"
| "FreeBusyFlagRec2Proto OutOfOffice = 3"

definition ClassFlagProto2Rec :: "byte \<Rightarrow> ClassFlagType" where
  "ClassFlagProto2Rec f = (if f = 0 then Public else if f = 1 then Confidential else Private)"

fun ClassFlagRec2Proto :: "ClassFlagType \<Rightarrow> byte" where
  "ClassFlagRec2Proto Public = 0"
| "ClassFlagRec2Proto Confidential = 1"
| "ClassFlagRec2Proto Private = 2"

definition CR_FREEBUSY_RANGE_HIGH :: byte where "CR_FREEBUSY_RANGE_HIGH = 3"
definition CR_CLASS_RANGE_HIGH :: byte where "CR_CLASS_RANGE_HIGH = 2"

definition CALFC_APPT_TYPE_FLAG :: byte where "CALFC_APPT_TYPE_FLAG = 0x01"
definition CALFC_SUBJECT :: byte where "CALFC_SUBJECT = 0x02"
definition CALFC_NOTES :: byte where "CALFC_NOTES = 0x03"
definition CALFC_LOCATION :: byte where "CALFC_LOCATION = 0x04"
definition CALFC_NOTIFICATION_TIME :: byte where "CALFC_NOTIFICATION_TIME = 0x05"
definition CALFC_START_TIME :: byte where "CALFC_START_TIME = 0x06"
definition CALFC_END_TIME :: byte where "CALFC_END_TIME = 0x07"
definition CALFC_ACCEPTED_BY :: byte where "CALFC_ACCEPTED_BY = 0x0b"
definition CALFC_INVITED :: byte where "CALFC_INVITED = 0x15"
definition CALFC_ORGANIZER :: byte where "CALFC_ORGANIZER = 0x16"
definition CALFC_FREEBUSY_FLAG :: byte where "CALFC_FREEBUSY_FLAG = 0x1c"
definition CALFC_TIMEZONE_CODE :: byte where "CALFC_TIMEZONE_CODE = 0x1e"
definition CALFC_CLASS_FLAG :: byte where "CALFC_CLASS_FLAG = 0x28"
definition CALFC_CALENDAR_ID :: byte where "CALFC_CALENDAR_ID = 0x2b"
definition CALFC_ALLDAYEVENT_FLAG :: byte where "CALFC_ALLDAYEVENT_FLAG = 0xff"

lemmas calendar_codes = CALFC_APPT_TYPE_FLAG_def CALFC_SUBJECT_def CALFC_NOTES_def CALFC_LOCATION_def
  CALFC_NOTIFICATION_TIME_def CALFC_START_TIME_def CALFC_END_TIME_def CALFC_ACCEPTED_BY_def CALFC_INVITED_def
  CALFC_ORGANIZER_def CALFC_FREEBUSY_FLAG_def CALFC_TIMEZONE_CODE_def CALFC_CLASS_FLAG_def CALFC_CALENDAR_ID_def
  CALFC_ALLDAYEVENT_FLAG_def

definition CalendarFieldLinks :: "'a calendar_scheme field_link list" where
  "CalendarFieldLinks =
     [FieldLink CALFC_SUBJECT (StrMember Subject (\<lambda>s c. c\<lparr>Subject := s\<rparr>)) True,
      FieldLink CALFC_NOTES (StrMember cal_Notes (\<lambda>s c. c\<lparr>cal_Notes := s\<rparr>)) True,
      FieldLink CALFC_LOCATION (StrMember Location (\<lambda>s c. c\<lparr>Location := s\<rparr>)) True,
      FieldLink CALFC_NOTIFICATION_TIME (TimeMember NotificationTime (\<lambda>t c. c\<lparr>NotificationTime := t\<rparr>)) False,
      FieldLink CALFC_START_TIME (TimeMember cal_StartTime (\<lambda>t c. c\<lparr>cal_StartTime := t\<rparr>)) False,
      FieldLink CALFC_END_TIME (TimeMember EndTime (\<lambda>t c. c\<lparr>EndTime := t\<rparr>)) False,
      FieldLink CALFC_ORGANIZER (AddrMember Organizer (\<lambda>al c. c\<lparr>Organizer := al\<rparr>) address_first) True,
      FieldLink CALFC_ACCEPTED_BY (AddrMember AcceptedBy (\<lambda>al c. c\<lparr>AcceptedBy := al\<rparr>) address_first) True,
      FieldLink CALFC_INVITED (AddrMember Invited (\<lambda>al c. c\<lparr>Invited := al\<rparr>) address_first) True]"

definition Calendar_Clear :: "'a calendar_scheme \<Rightarrow> 'a calendar_scheme" where
  "Calendar_Clear c = (RecurBase_Clear c)\<lparr>cal_RecType := 5, cal_RecordId := 0, AllDayEvent := False, Subject := [],
     cal_Notes := [], Location := [], NotificationTime := 0, cal_StartTime := 0, EndTime := 0, Organizer := [],
     AcceptedBy := [], Invited := [], FreeBusyFlag := Free, ClassFlag := Public, CalendarID := 0xffffffffffffffff,
     cal_TimeZoneCode := GetStaticTimeZoneCode 0 0, cal_TimeZoneValid := False, cal_Unknowns := []\<rparr>"

definition Calendar_SetIds :: "byte \<Rightarrow> u32 \<Rightarrow> 'a calendar_scheme \<Rightarrow> 'a calendar_scheme" where
  "Calendar_SetIds ty ident c = c\<lparr>cal_RecType := ty, cal_RecordId := ident\<rparr>"

section \<open>Parsing\<close>

definition Calendar_special :: "'a calendar_scheme \<Rightarrow> byte \<Rightarrow> bytes \<Rightarrow> 'a calendar_scheme res option" where
  "Calendar_special c ty raw =
     (if ty = CALFC_APPT_TYPE_FLAG
      then Some (if byte_at raw 0 = 0x61 then Inr (c\<lparr>Recurring := False\<rparr>)
                 else if byte_at raw 0 = 0x2a then Inr (c\<lparr>Recurring := True\<rparr>)
                 else Inl (BarryError ''Calendar::ParseField: unknown appointment type''))
      else if ty = CALFC_ALLDAYEVENT_FLAG then Some (Inr (c\<lparr>AllDayEvent := (byte_at raw 0 = 1)\<rparr>))
      else if ty = CALFC_TIMEZONE_CODE
      then Some (if length raw = 2 then Inr (c\<lparr>cal_TimeZoneCode := get16 raw 0, cal_TimeZoneValid := True\<rparr>)
                 else Inl (BarryError ''Calendar::ParseField: not enough data in time zone code field''))
      else if ty = CALFC_FREEBUSY_FLAG
      then Some (if byte_at raw 0 > CR_FREEBUSY_RANGE_HIGH
                 then Inl (BarryError ''Calendar::ParseField: FreeBusyFlag out of range'')
                 else Inr (c\<lparr>FreeBusyFlag := FreeBusyFlagProto2Rec (byte_at raw 0)\<rparr>))
      else if ty = CALFC_CALENDAR_ID
      then Some (if length raw = 8 then Inr (c\<lparr>CalendarID := get64 raw 0\<rparr>)
                 else Inl (BarryError ''Calendar::ParseField: size data unknown in calendar field''))
      else if ty = CALFC_CLASS_FLAG
      then Some (if byte_at raw 0 > CR_CLASS_RANGE_HIGH
                 then Inl (BarryError ''Calendar::ParseField: ClassFlag out of range'')
                 else Inr (c\<lparr>ClassFlag := ClassFlagProto2Rec (byte_at raw 0)\<rparr>))
      else None)"

definition Calendar_handle ::
  "converter option \<Rightarrow> 'a calendar_scheme \<Rightarrow> byte \<Rightarrow> bytes \<Rightarrow> 'a calendar_scheme res" where
  "Calendar_handle ic c ty raw =
     (case parse_links CalendarFieldLinks ic c ty raw of
        Some r \<Rightarrow> r
      | None \<Rightarrow>
          (case Calendar_special c ty raw of
             Some r \<Rightarrow> r
           | None \<Rightarrow>
               (case RecurBase_ParseField ty raw c of
                  Some r \<Rightarrow> r
                | None \<Rightarrow> Inr (c\<lparr>cal_Unknowns := cal_Unknowns c @ [(ty, raw)]\<rparr>))))"

definition Calendar_ParseField ::
  "converter option \<Rightarrow> 'a calendar_scheme \<Rightarrow> bytes \<Rightarrow> nat \<Rightarrow> ('a calendar_scheme \<times> nat) res" where
  "Calendar_ParseField ic = ParseField_start (Calendar_handle ic)"

definition Calendar_ParseHeader :: "'a calendar_scheme \<Rightarrow> data \<Rightarrow> nat \<Rightarrow> 'a calendar_scheme \<times> nat" where
  "Calendar_ParseHeader c d offset = (c, offset)"

definition Calendar_ParseFields ::
  "converter option \<Rightarrow> 'a calendar_scheme \<Rightarrow> data \<Rightarrow> nat \<Rightarrow> ('a calendar_scheme \<times> nat) res option" where
  "Calendar_ParseFields ic c d offset = ParseCommonFields (Calendar_ParseField ic) c (contents d) offset"

section \<open>Building\<close>

definition Calendar_BuildHeader :: "'a calendar_scheme \<Rightarrow> data \<Rightarrow> nat \<Rightarrow> data \<times> nat" where
  "Calendar_BuildHeader c d offset = (d, offset)"

definition Calendar_BuildFields ::
  "converter option \<Rightarrow> 'a calendar_scheme \<Rightarrow> data \<Rightarrow> nat \<Rightarrow> (data \<times> nat) res" where
  "Calendar_BuildFields ic c d offset =
     rbind (BuildField_u8 (Zap d) offset CALFC_APPT_TYPE_FLAG (if Recurring c then 0x2a else 0x61)) (\<lambda>dn1.
     rbind (if AllDayEvent c then BuildField_u8 (fst dn1) (snd dn1) CALFC_ALLDAYEVENT_FLAG 1 else Inr dn1) (\<lambda>dn2.
     rbind (build_links CalendarFieldLinks ic c dn2) (\<lambda>dn3.
     rbind (if Recurring c
            then rbind (BuildRecurrenceData (cal_StartTime c) c) (\<lambda>rdata.
                   BuildField_raw (fst dn3) (snd dn3) FIELDCODE_RECURRENCE_DATA rdata)
            else Inr dn3) (\<lambda>dn4.
     rbind (if cal_TimeZoneValid c
            then BuildField_u16 (fst dn4) (snd dn4) CALFC_TIMEZONE_CODE (cal_TimeZoneCode c) else Inr dn4) (\<lambda>dn5.
     rbind (BuildField_u8 (fst dn5) (snd dn5) CALFC_FREEBUSY_FLAG (FreeBusyFlagRec2Proto (FreeBusyFlag c))) (\<lambda>dn6.
     rbind (BuildField_u8 (fst dn6) (snd dn6) CALFC_CLASS_FLAG (ClassFlagRec2Proto (ClassFlag c))) (\<lambda>dn7.
     rbind (if CalendarID c \<noteq> 0xffffffffffffffff
            then BuildField_u64 (fst dn7) (snd dn7) CALFC_CALENDAR_ID (CalendarID c) else Inr dn7) (\<lambda>dn8.
     rbind (rfold (\<lambda>dn uf. BuildField_unknown (fst dn) (snd dn) uf) dn8 (cal_Unknowns c)) (\<lambda>dn9.
     rbind (ReleaseBuffer (fst dn9) (int (snd dn9))) (\<lambda>d'. Inr (d', snd dn9)))))))))))"

section \<open>The fields of an appointment\<close>

definition calendar_fields :: "converter option \<Rightarrow> 'a calendar_scheme \<Rightarrow> (byte \<times> bytes) list" where
  "calendar_fields ic c =
     [(CALFC_APPT_TYPE_FLAG, [if Recurring c then 0x2a else 0x61])]
     @ (if AllDayEvent c then [(CALFC_ALLDAYEVENT_FLAG, [1])] else [])
     @ concat (map (link_fields ic c) CalendarFieldLinks)
     @ recurrence_fields (cal_StartTime c) c
     @ (if cal_TimeZoneValid c then [(CALFC_TIMEZONE_CODE, le16 (cal_TimeZoneCode c))] else [])
     @ [(CALFC_FREEBUSY_FLAG, [FreeBusyFlagRec2Proto (FreeBusyFlag c)])]
     @ [(CALFC_CLASS_FLAG, [ClassFlagRec2Proto (ClassFlag c)])]
     @ (if CalendarID c \<noteq> 0xffffffffffffffff then [(CALFC_CALENDAR_ID, le64 (CalendarID c))] else [])
     @ cal_Unknowns c"

lemma Calendar_BuildFields_eq: "Calendar_BuildFields ic c d offset = build_record d offset (calendar_fields ic c)"
proof -
  have first: "store_field (Zap d) offset g = store_field (fst (Zap d, offset)) (snd (Zap d, offset)) g" for g by simp
  show ?thesis
    unfolding Calendar_BuildFields_def calendar_fields_def build_field_simps(1-4) first store_simps store_recurrence rbind_assoc ..
qed

section \<open>Round trip\<close>

definition calendar_known :: "byte list" where
  "calendar_known = [0x01, 0x02, 0x03, 0x04, 0x05, 0x06, 0x07, 0x0b, 0x0c, 0x15, 0x16, 0x1c, 0x1e, 0x28, 0x2b, 0xff]"

text \<open>
  An appointment that can be stored: whole minutes, strings that survive the conversion,
  addresses without NUL, recurrence data without loss.
\<close>

definition calendar_ok :: "converter option \<Rightarrow> 'a calendar_scheme \<Rightarrow> bool" where
  "calendar_ok ic c \<longleftrightarrow> recur_ok c \<and> text_ok ic (Subject c) \<and> text_ok ic (cal_Notes c) \<and> text_ok ic (Location c)
     \<and> minute_time (NotificationTime c) \<and> minute_time (cal_StartTime c) \<and> minute_time (EndTime c)
     \<and> list_all plain_address (Organizer c) \<and> list_all plain_address (AcceptedBy c) \<and> list_all plain_address (Invited c)
     \<and> (cal_TimeZoneValid c \<or> cal_TimeZoneCode c = GetStaticTimeZoneCode 0 0)
     \<and> unknowns_ok calendar_known (cal_Unknowns c)"

definition calendar_stored :: "converter option \<Rightarrow> 'a calendar_scheme \<Rightarrow> 'a calendar_scheme" where
  "calendar_stored ic c = c\<lparr>Organizer := addresses_stored ic (Organizer c),
     AcceptedBy := addresses_stored ic (AcceptedBy c), Invited := addresses_stored ic (Invited c)\<rparr>"

lemma Calendar_handle_link:
  "parse_links CalendarFieldLinks ic r ty raw = Some (Inr r') \<Longrightarrow> Calendar_handle ic r ty raw = Inr r'"
  by (simp add: Calendar_handle_def)

lemma Calendar_handle_text:
  assumes "text_ok ic s"
  shows "Calendar_handle ic r CALFC_SUBJECT (to_bb ic s @ [0]) = Inr (r\<lparr>Subject := s\<rparr>)"
    "Calendar_handle ic r CALFC_NOTES (to_bb ic s @ [0]) = Inr (r\<lparr>cal_Notes := s\<rparr>)"
    "Calendar_handle ic r CALFC_LOCATION (to_bb ic s @ [0]) = Inr (r\<lparr>Location := s\<rparr>)"
  using ParseFieldString_text[OF assms]
  by (simp_all add: Calendar_handle_def CalendarFieldLinks_def calendar_codes Let_def)

lemma Calendar_handle_time:
  assumes "minute_time t" "t \<noteq> 0"
  shows "Calendar_handle ic r CALFC_NOTIFICATION_TIME (le32 (store_min1900 t)) = Inr (r\<lparr>NotificationTime := t\<rparr>)"
    "Calendar_handle ic r CALFC_START_TIME (le32 (store_min1900 t)) = Inr (r\<lparr>cal_StartTime := t\<rparr>)"
    "Calendar_handle ic r CALFC_END_TIME (le32 (store_min1900 t)) = Inr (r\<lparr>EndTime := t\<rparr>)"
  using minute_time_field[OF assms]
  by (simp_all add: Calendar_handle_def CalendarFieldLinks_def calendar_codes)

lemma Calendar_handle_addr:
  assumes "plain_address a" "\<not> address_empty a"
  shows "Calendar_handle ic r CALFC_ORGANIZER (address_field a) = Inr (r\<lparr>Organizer := Organizer r @ [address_from_bb ic a]\<rparr>)"
    "Calendar_handle ic r CALFC_ACCEPTED_BY (address_field a) = Inr (r\<lparr>AcceptedBy := AcceptedBy r @ [address_from_bb ic a]\<rparr>)"
    "Calendar_handle ic r CALFC_INVITED (address_field a) = Inr (r\<lparr>Invited := Invited r @ [address_from_bb ic a]\<rparr>)"
  using address_first_field[OF assms(1)] assms(2)
  by (simp_all add: Calendar_handle_def CalendarFieldLinks_def calendar_codes)

lemma flag_codes:
  "\<not> CR_FREEBUSY_RANGE_HIGH < FreeBusyFlagRec2Proto fb" "FreeBusyFlagProto2Rec (FreeBusyFlagRec2Proto fb) = fb"
  "\<not> CR_CLASS_RANGE_HIGH < ClassFlagRec2Proto cl" "ClassFlagProto2Rec (ClassFlagRec2Proto cl) = cl"
  by (cases fb; simp add: FreeBusyFlagProto2Rec_def CR_FREEBUSY_RANGE_HIGH_def)+
     (cases cl; simp add: ClassFlagProto2Rec_def CR_CLASS_RANGE_HIGH_def)+

lemma Calendar_handle_flags:
  "Calendar_handle ic r CALFC_APPT_TYPE_FLAG [if b then 0x2a else 0x61] = Inr (r\<lparr>Recurring := b\<rparr>)"
  "Calendar_handle ic r CALFC_ALLDAYEVENT_FLAG [1] = Inr (r\<lparr>AllDayEvent := True\<rparr>)"
  "Calendar_handle ic r CALFC_TIMEZONE_CODE (le16 z) = Inr (r\<lparr>cal_TimeZoneCode := z, cal_TimeZoneValid := True\<rparr>)"
  "Calendar_handle ic r CALFC_FREEBUSY_FLAG [FreeBusyFlagRec2Proto fb] = Inr (r\<lparr>FreeBusyFlag := fb\<rparr>)"
  "Calendar_handle ic r CALFC_CLASS_FLAG [ClassFlagRec2Proto cl] = Inr (r\<lparr>ClassFlag := cl\<rparr>)"
  "Calendar_handle ic r CALFC_CALENDAR_ID (le64 i) = Inr (r\<lparr>CalendarID := i\<rparr>)"
  by (simp_all add: Calendar_handle_def CalendarFieldLinks_def Calendar_special_def calendar_codes flag_codes)

lemma Calendar_handle_recurrence:
  assumes "length raw = CALENDAR_RECURRENCE_DATA_FIELD_SIZE"
  shows "Calendar_handle ic r FIELDCODE_RECURRENCE_DATA raw = ParseRecurrenceData raw r"
  using assms
  by (simp add: Calendar_handle_def CalendarFieldLinks_def Calendar_special_def calendar_codes FIELDCODE_RECURRENCE_DATA_def
      RecurBase_ParseField_def)

lemma Calendar_handle_unknown:
  assumes "ty \<notin> set calendar_known"
  shows "Calendar_handle ic r ty raw = Inr (r\<lparr>cal_Unknowns := cal_Unknowns r @ [(ty, raw)]\<rparr>)"
  using assms
  by (simp add: Calendar_handle_def CalendarFieldLinks_def Calendar_special_def calendar_codes calendar_known_def
      RecurBase_ParseField_def FIELDCODE_RECURRENCE_DATA_def)

text \<open>Reading the fields of the table, from a record in which they are clear.\<close>

definition link_members_clear :: "'a calendar_scheme \<Rightarrow> bool" where
  "link_members_clear r \<longleftrightarrow> Subject r = [] \<and> cal_Notes r = [] \<and> Location r = [] \<and> NotificationTime r = 0
     \<and> cal_StartTime r = 0 \<and> EndTime r = 0 \<and> Organizer r = [] \<and> AcceptedBy r = [] \<and> Invited r = []"

lemma minute_time_pos: "minute_time t \<Longrightarrow> \<not> t > 0 \<Longrightarrow> t = 0"
  by (simp add: minute_time_def)

lemma Calendar_read_links:
  assumes ok: "calendar_ok ic c" and clear: "link_members_clear r"
  shows "rfold (\<lambda>r f. Calendar_handle ic r (fst f) (snd f)) r (concat (map (link_fields ic c) CalendarFieldLinks))
     = Inr (r\<lparr>Subject := Subject c, cal_Notes := cal_Notes c, Location := Location c, NotificationTime := NotificationTime c,
         cal_StartTime := cal_StartTime c, EndTime := EndTime c, Organizer := addresses_stored ic (Organizer c),
         AcceptedBy := addresses_stored ic (AcceptedBy c), Invited := addresses_stored ic (Invited c)\<rparr>)"
proof -
  let ?h = "\<lambda>r f. Calendar_handle ic r (fst f) (snd f)"
  note o = ok[unfolded calendar_ok_def]
  have str: "\<And>r. Subject r = [] \<Longrightarrow> rfold ?h r (str_field CALFC_SUBJECT ic (Subject c)) = Inr (r\<lparr>Subject := Subject c\<rparr>)"
    "\<And>r. cal_Notes r = [] \<Longrightarrow> rfold ?h r (str_field CALFC_NOTES ic (cal_Notes c)) = Inr (r\<lparr>cal_Notes := cal_Notes c\<rparr>)"
    "\<And>r. Location r = [] \<Longrightarrow> rfold ?h r (str_field CALFC_LOCATION ic (Location c)) = Inr (r\<lparr>Location := Location c\<rparr>)"
    by (rule rfold_str_field; simp add: Calendar_handle_text o)+
  have tim: "\<And>r. NotificationTime r = 0 \<Longrightarrow> rfold ?h r (time_field CALFC_NOTIFICATION_TIME (NotificationTime c)) = Inr (r\<lparr>NotificationTime := NotificationTime c\<rparr>)"
    "\<And>r. cal_StartTime r = 0 \<Longrightarrow> rfold ?h r (time_field CALFC_START_TIME (cal_StartTime c)) = Inr (r\<lparr>cal_StartTime := cal_StartTime c\<rparr>)"
    "\<And>r. EndTime r = 0 \<Longrightarrow> rfold ?h r (time_field CALFC_END_TIME (EndTime c)) = Inr (r\<lparr>EndTime := EndTime c\<rparr>)"
    by (rule rfold_time_field; simp add: Calendar_handle_time o minute_time_pos)+
  have adr: "\<And>r. rfold ?h r (addr_fields CALFC_ORGANIZER (Organizer c)) = Inr (r\<lparr>Organizer := Organizer r @ addresses_stored ic (Organizer c)\<rparr>)"
    "\<And>r. rfold ?h r (addr_fields CALFC_ACCEPTED_BY (AcceptedBy c)) = Inr (r\<lparr>AcceptedBy := AcceptedBy r @ addresses_stored ic (AcceptedBy c)\<rparr>)"
    "\<And>r. rfold ?h r (addr_fields CALFC_INVITED (Invited c)) = Inr (r\<lparr>Invited := Invited r @ addresses_stored ic (Invited c)\<rparr>)"
    unfolding addresses_stored_def
    by (rule rfold_addr_fields; simp add: Calendar_handle_addr o)+
  show ?thesis
    using clear unfolding link_members_clear_def CalendarFieldLinks_def
    by (simp add: link_fields_def rfold_append str tim adr)
qed

lemma Calendar_read_unknowns:
  "list_all (\<lambda>uf. fst uf \<notin> set calendar_known) ufs \<Longrightarrow>
     rfold (\<lambda>r f. Calendar_handle ic r (fst f) (snd f)) r ufs = Inr (r\<lparr>cal_Unknowns := cal_Unknowns r @ ufs\<rparr>)"
  by (induction ufs arbitrary: r) (simp_all add: Calendar_handle_unknown)

definition Calendar_fresh :: "'a calendar_scheme \<Rightarrow> 'a calendar_scheme" where
  "Calendar_fresh c = Calendar_SetIds (cal_RecType c) (cal_RecordId c) (Calendar_Clear c)"

lemma calendar_fields_proper: "calendar_ok ic c \<Longrightarrow> list_all proper_field (calendar_fields ic c)"
  by (simp add: calendar_ok_def calendar_fields_def CalendarFieldLinks_def link_fields_def proper_simps
    proper_unknowns[of calendar_known] proper_recurrence_fields)

lemma Calendar_reads:
  assumes ok: "calendar_ok ic c"
  shows "rfold (\<lambda>r f. Calendar_handle ic r (fst f) (snd f)) (Calendar_fresh c) (calendar_fields ic c) = Inr (calendar_stored ic c)"
proof -
  let ?h = "\<lambda>r f. Calendar_handle ic r (fst f) (snd f)"
  define r1 where "r1 = (Calendar_fresh c)\<lparr>Recurring := Recurring c, AllDayEvent := AllDayEvent c\<rparr>"
  define r2 where "r2 = r1\<lparr>Subject := Subject c, cal_Notes := cal_Notes c, Location := Location c, NotificationTime := NotificationTime c,
     cal_StartTime := cal_StartTime c, EndTime := EndTime c, Organizer := addresses_stored ic (Organizer c),
     AcceptedBy := addresses_stored ic (AcceptedBy c), Invited := addresses_stored ic (Invited c)\<rparr>"
  define r3 where "r3 = with_recurrence c r2"
  have s1: "rfold ?h (Calendar_fresh c) ([(CALFC_APPT_TYPE_FLAG, [if Recurring c then 0x2a else 0x61])]
      @ (if AllDayEvent c then [(CALFC_ALLDAYEVENT_FLAG, [1])] else [])) = Inr r1"
    by (simp add: Calendar_handle_flags rfold_append r1_def Calendar_fresh_def Calendar_SetIds_def Calendar_Clear_def)
  have "link_members_clear r1"
    by (simp add: r1_def Calendar_fresh_def Calendar_SetIds_def Calendar_Clear_def link_members_clear_def)
  from Calendar_read_links[OF ok this]
  have s2: "rfold ?h r1 (concat (map (link_fields ic c) CalendarFieldLinks)) = Inr r2" by (simp add: r2_def)
  have rec: "recur_ok c" using ok by (simp add: calendar_ok_def)
  have s3: "rfold ?h r2 (recurrence_fields (cal_StartTime c) c) = Inr r3"
    unfolding r3_def
    by (rule read_recurrence[OF _ rec])
       (simp_all add: Calendar_handle_recurrence r2_def r1_def Calendar_fresh_def Calendar_SetIds_def Calendar_Clear_def RecurBase_Clear_def no_details_def)
  have tz: "\<not> cal_TimeZoneValid c \<Longrightarrow> cal_TimeZoneCode c = GetStaticTimeZoneCode 0 0" using ok by (auto simp: calendar_ok_def)
  have unk: "list_all (\<lambda>uf. fst uf \<notin> set calendar_known) (cal_Unknowns c)"
    using ok by (auto simp: calendar_ok_def unknowns_ok_def list_all_iff)
  define flags :: "(byte \<times> bytes) list" where "flags = [(CALFC_APPT_TYPE_FLAG, [if Recurring c then 0x2a else 0x61])]
      @ (if AllDayEvent c then [(CALFC_ALLDAYEVENT_FLAG, [1])] else [])"
  define rest where "rest = (if cal_TimeZoneValid c then [(CALFC_TIMEZONE_CODE, le16 (cal_TimeZoneCode c))] else [])
     @ [(CALFC_FREEBUSY_FLAG, [FreeBusyFlagRec2Proto (FreeBusyFlag c)])]
     @ [(CALFC_CLASS_FLAG, [ClassFlagRec2Proto (ClassFlag c)])]
     @ (if CalendarID c \<noteq> 0xffffffffffffffff then [(CALFC_CALENDAR_ID, le64 (CalendarID c))] else [])
     @ cal_Unknowns c"
  have split: "calendar_fields ic c = flags @ concat (map (link_fields ic c) CalendarFieldLinks)
      @ recurrence_fields (cal_StartTime c) c @ rest"
    by (simp add: calendar_fields_def flags_def rest_def)
  have s4: "rfold ?h r3 rest = Inr (r3\<lparr>cal_TimeZoneCode := cal_TimeZoneCode c, cal_TimeZoneValid := cal_TimeZoneValid c,
      FreeBusyFlag := FreeBusyFlag c, ClassFlag := ClassFlag c, CalendarID := CalendarID c, cal_Unknowns := cal_Unknowns c\<rparr>)"
    using tz
    by (simp add: rest_def rfold_append Calendar_handle_flags Calendar_read_unknowns[OF unk] r3_def with_recurrence_def r2_def r1_def
        Calendar_fresh_def Calendar_SetIds_def Calendar_Clear_def)
  have "rfold ?h (Calendar_fresh c) (calendar_fields ic c) = Inr (r3\<lparr>cal_TimeZoneCode := cal_TimeZoneCode c, cal_TimeZoneValid := cal_TimeZoneValid c,
      FreeBusyFlag := FreeBusyFlag c, ClassFlag := ClassFlag c, CalendarID := CalendarID c, cal_Unknowns := cal_Unknowns c\<rparr>)"
    unfolding split by (simp only: rfold_append s1[folded flags_def] s2 s3 s4 rbind_simps)
  also have "\<dots> = Inr (calendar_stored ic c)"
    unfolding r3_def with_recurrence_def r2_def r1_def Calendar_fresh_def Calendar_SetIds_def Calendar_Clear_def
      calendar_stored_def RecurBase_Clear_def
    by (rule arg_cong[of _ _ Inr], rule calendar.equality) simp_all
  finally show ?thesis .
qed

definition calendar_takes :: "byte \<Rightarrow> bytes \<Rightarrow> bool" where
  "calendar_takes ty raw \<longleftrightarrow> links_take (CalendarFieldLinks :: calendar field_link list) ty raw
     \<or> ty \<in> {CALFC_APPT_TYPE_FLAG, CALFC_ALLDAYEVENT_FLAG, CALFC_TIMEZONE_CODE, CALFC_FREEBUSY_FLAG, CALFC_CALENDAR_ID,
          CALFC_CLASS_FLAG, FIELDCODE_RECURRENCE_DATA}"

interpretation calendar_unknowns: unknown_keeper "Calendar_ParseField ic :: calendar \<Rightarrow> _" "\<lambda>_. Calendar_handle ic" cal_Unknowns
  "\<lambda>_. calendar_takes" for ic
proof unfold_locales
  fix raw and ty and r r' :: calendar
  assume h: "Calendar_handle ic r ty raw = Inr r'"
  have k: "list_all (link_keeps cal_Unknowns) (CalendarFieldLinks :: calendar field_link list)"
    by (simp add: CalendarFieldLinks_def link_keeps_def)
  show "cal_Unknowns r' = cal_Unknowns r @ (if calendar_takes ty raw then [] else [(ty, raw)])"
    unfolding calendar_takes_def
    by (rule links_first[OF k h[unfolded Calendar_handle_def]])
      (auto simp: Calendar_special_def RecurBase_ParseField_def ParseRecurrenceData_def Let_def rbind_eq_Inr split: if_splits)
qed (simp_all add: Calendar_ParseField_def)

interpretation calendar_codec: record_codec "Calendar_ParseField ic" "\<lambda>_. Calendar_handle ic" "Calendar_BuildFields ic"
  "calendar_fields ic" "calendar_ok ic" Calendar_fresh "calendar_stored ic" for ic
  by unfold_locales (simp_all add: Calendar_ParseField_def Calendar_BuildFields_eq proper_sizes[OF calendar_fields_proper]
    proper_last[OF calendar_fields_proper] proper_parse_list[OF calendar_fields_proper] Calendar_reads)

text \<open>
  C24: An appointment built behind a header of any length and parsed again is the same
  appointment, recurrence data, flags and unknown fields included, except that the
  addresses of organizer, accepted and invited come back after a conversion from the
  device's character set that was never applied in the other direction: BuildFields
  converts name and address and then writes the unconverted strings.
  The buffer has to have room for the whole record before the first field is built (has_room);
  what happens otherwise is shown for memos.
\<close>

theorem Calendar_roundtrip:
  assumes "calendar_ok ic c" and "has_room d (offset + length (encode_fields (calendar_fields ic c)))"
  shows "\<exists>d' n. Calendar_BuildFields ic c d offset = Inr (d', n) \<and> n = length (contents d')
     \<and> Calendar_ParseFields ic (Calendar_fresh c) d' offset
       = Some (Inr (c\<lparr>Organizer := addresses_stored ic (Organizer c), AcceptedBy := addresses_stored ic (AcceptedBy c),
           Invited := addresses_stored ic (Invited c)\<rparr>, n))"
  using calendar_codec.roundtrip[OF assms] by (simp add: Calendar_ParseFields_def calendar_stored_def)

text \<open>A weekly appointment with one organizer, and a converter that shifts every byte by one.\<close>

definition sample_converter :: converter where
  "sample_converter = \<lparr>ToBB = map (\<lambda>x. x + 1), FromBB = map (\<lambda>x. x - 1)\<rparr>"

definition sample_appointment :: calendar where
  "sample_appointment = \<lparr>Recurring = True, RecurringType = Week, Interval = 2, RecurringEndTime = 1400000040, Perpetual = False,
     DayOfWeek = 0, WeekOfMonth = 0, DayOfMonth = 0, MonthOfYear = 0, WeekDays = 0x22,
     cal_RecType = 5, cal_RecordId = 9, AllDayEvent = False, Subject = [0x41], cal_Notes = [], Location = [0x42, 0x43],
     NotificationTime = 0, cal_StartTime = 1300000020, EndTime = 1300003620,
     Organizer = [\<lparr>ea_Name = [0x44], ea_Email = [0x45, 0x46]\<rparr>], AcceptedBy = [], Invited = [],
     FreeBusyFlag = Busy, ClassFlag = Private, CalendarID = 77, cal_TimeZoneCode = 0x6e, cal_TimeZoneValid = True,
     cal_Unknowns = [(0x60, [1, 2])]\<rparr>"

lemma Calendar_roundtrip_witness:
  "\<exists>d' n. Calendar_BuildFields (Some sample_converter) sample_appointment Data_default 15 = Inr (d', n)
     \<and> Calendar_ParseFields (Some sample_converter) (Calendar_fresh sample_appointment) d' 15
       = Some (Inr (sample_appointment\<lparr>Organizer := [\<lparr>ea_Name = [0x43], ea_Email = [0x44, 0x45]\<rparr>]\<rparr>, n))"
proof -
  have ok: "calendar_ok (Some sample_converter) sample_appointment"
    by (simp add: calendar_ok_def sample_appointment_def recur_ok_def recur_details_ok_def minute_time_def text_ok_def from_bb_def to_bb_def
        sample_converter_def plain_address_def unknowns_ok_def calendar_known_def STDC_MIN1900_DIFF_value)
  have room: "has_room Data_default (15 + length (encode_fields (calendar_fields (Some sample_converter) sample_appointment)))"
    by (simp add: has_room_def Data_default_def Data_new_def BARRY_DATA_DEFAULT_SIZE_def BARRY_DATA_DEFAULT_PREPEND_SIZE_def
        encode_fields_def calendar_fields_def CalendarFieldLinks_def link_fields_def str_field_def time_field_def addr_fields_def
        address_empty_def address_field_def recurrence_fields_def BuildRecurrenceData_def recurrence_details_def
        sample_appointment_def sample_converter_def to_bb_def common_field_def)
  have "(sample_appointment\<lparr>Organizer := addresses_stored (Some sample_converter) (Organizer sample_appointment),
        AcceptedBy := addresses_stored (Some sample_converter) (AcceptedBy sample_appointment),
        Invited := addresses_stored (Some sample_converter) (Invited sample_appointment)\<rparr>)
      = sample_appointment\<lparr>Organizer := [\<lparr>ea_Name = [0x43], ea_Email = [0x44, 0x45]\<rparr>]\<rparr>"
    by (simp add: sample_appointment_def addresses_stored_def address_empty_def address_from_bb_def from_bb_def sample_converter_def)
  then show ?thesis using Calendar_roundtrip[OF ok room] by auto
qed

section \<open>Calendar - All\<close>

text \<open>
  Records of the Calendar - All database start with a header of fields of their own; the
  appointment is the value of the field CALALLFC_CAL_OBJECT, and the header ends in front
  of that value.
\<close>

record calendar_all = calendar +
  MailAccount :: bytes

definition CALALLFC_CALENDAR_ID :: byte where "CALALLFC_CALENDAR_ID = 0x02"
definition CALALLFC_MAIL_ACCOUNT :: byte where "CALALLFC_MAIL_ACCOUNT = 0x03"
definition CALALLFC_UNIQUEID :: byte where "CALALLFC_UNIQUEID = 0x05"
definition CALALLFC_CAL_OBJECT :: byte where "CALALLFC_CAL_OBJECT = 0x0a"

lemmas calendar_all_codes = CALALLFC_CALENDAR_ID_def CALALLFC_MAIL_ACCOUNT_def CALALLFC_UNIQUEID_def CALALLFC_CAL_OBJECT_def

definition CalendarAll_Clear :: "calendar_all \<Rightarrow> calendar_all" where
  "CalendarAll_Clear c = (Calendar_Clear c)\<lparr>MailAccount := []\<rparr>"

definition CalendarAll_handle :: "calendar_all \<Rightarrow> byte \<Rightarrow> bytes \<Rightarrow> calendar_all res" where
  "CalendarAll_handle c ty raw =
     (if ty = CALALLFC_CALENDAR_ID
      then (if length raw = 8 then Inr (c\<lparr>CalendarID := get64 raw 0\<rparr>)
            else Inl (BarryError ''CalendarAll::ParseField: size data unknown in calendar field''))
      else if ty = CALALLFC_MAIL_ACCOUNT then Inr (c\<lparr>MailAccount := ParseFieldString raw (length raw)\<rparr>)
      else if ty = CALALLFC_UNIQUEID
      then (if length raw = 4 then Inr (c\<lparr>cal_RecordId := get32 raw 0\<rparr>)
            else Inl (BarryError ''CalendarAll::ParseHeader: size data unknown in calendar field''))
      else Inr (c\<lparr>cal_Unknowns := cal_Unknowns c @ [(ty, raw)]\<rparr>))"

function CalendarAll_header_loop :: "calendar_all \<Rightarrow> bytes \<Rightarrow> nat \<Rightarrow> (calendar_all \<times> nat) res" where
  "CalendarAll_header_loop c bs b =
     (if \<not> b + COMMON_FIELD_HEADER_SIZE < length bs then Inr (c, b)
      else let b1 = next_field bs b
           in if length bs < b1 \<or> field_size bs b = 0 then CalendarAll_header_loop c bs b1
              else if field_type bs b = CALALLFC_CAL_OBJECT then Inr (c, b1 - field_size bs b)
              else rbind (CalendarAll_handle c (field_type bs b) (field_raw bs b)) (\<lambda>c1. CalendarAll_header_loop c1 bs b1))"
  by auto
termination
  by (relation "measure (\<lambda>(c, bs, b). length bs - b)") (auto simp: next_field_def COMMON_FIELD_HEADER_SIZE_def)

declare CalendarAll_header_loop.simps [simp del]

definition CalendarAll_ParseHeader :: "calendar_all \<Rightarrow> data \<Rightarrow> nat \<Rightarrow> (calendar_all \<times> nat) res" where
  "CalendarAll_ParseHeader c d offset = CalendarAll_header_loop c (contents d) offset"

lemma CalendarAll_header_field:
  assumes "raw \<noteq> []" and "length raw < 65536"
  shows "CalendarAll_header_loop c (pre @ common_field ty raw @ post) (length pre)
     = (if ty = CALALLFC_CAL_OBJECT then Inr (c, length pre + COMMON_FIELD_HEADER_SIZE)
        else rbind (CalendarAll_handle c ty raw) (\<lambda>c1. CalendarAll_header_loop c1 (pre @ common_field ty raw @ post)
          (length pre + length (common_field ty raw))))"
proof -
  note m = field_members[OF assms(2)]
  have "length pre + COMMON_FIELD_HEADER_SIZE < length (pre @ common_field ty raw @ post)"
    using assms(1) by (simp add: common_field_def COMMON_FIELD_HEADER_SIZE_def)
  moreover have "length pre + length (common_field t raw) - length raw = length pre + COMMON_FIELD_HEADER_SIZE" for t
    by (simp add: common_field_def COMMON_FIELD_HEADER_SIZE_def)
  ultimately show ?thesis
    using assms(1) by (subst CalendarAll_header_loop.simps) (simp add: m Let_def)
qed

text \<open>
  The appointment inside a Calendar - All record: the header loop reads calendar id, unique
  id and mail account and leaves the offset at the first field of the appointment.
\<close>

lemma CalendarAll_header_read:
  assumes "text_ok None mail" and "object \<noteq> []" and "length object < 65536"
    and "bs = pre @ encode_fields [(CALALLFC_CALENDAR_ID, le64 i), (CALALLFC_UNIQUEID, le32 u), (CALALLFC_MAIL_ACCOUNT, mail @ [0])]"
  shows "CalendarAll_header_loop c (bs @ common_field CALALLFC_CAL_OBJECT object) (length pre)
     = Inr (c\<lparr>CalendarID := i, cal_RecordId := u, MailAccount := mail\<rparr>, length bs + COMMON_FIELD_HEADER_SIZE)"
proof -
  define f1 where "f1 = common_field CALALLFC_CALENDAR_ID (le64 i)"
  define f2 where "f2 = common_field CALALLFC_UNIQUEID (le32 u)"
  define f3 where "f3 = common_field CALALLFC_MAIL_ACCOUNT (mail @ [0])"
  define f4 where "f4 = common_field CALALLFC_CAL_OBJECT object"
  have whole: "bs @ f4 = pre @ f1 @ f2 @ f3 @ f4" "bs = pre @ f1 @ f2 @ f3"
    using assms(4) by (simp_all add: encode_fields_def f1_def f2_def f3_def)
  have s: "ParseFieldString (mail @ [0]) (length (mail @ [0])) = mail" "length (mail @ [0]) < 65536"
    using ParseFieldString_text[OF assms(1)] assms(1) by (simp_all add: from_bb_def to_bb_def text_ok_def)
  have ne: "le64 i \<noteq> []" "le32 u \<noteq> []" by (simp_all add: le64_def le32_def)
  have sz: "length (le64 i) < 65536" "length (le32 u) < 65536" by simp_all
  note h1 = CalendarAll_header_field[OF ne(1) sz(1), of _ pre CALALLFC_CALENDAR_ID "f2 @ f3 @ f4", folded f1_def]
  note h2 = CalendarAll_header_field[OF ne(2) sz(2), of _ "pre @ f1" CALALLFC_UNIQUEID "f3 @ f4", folded f2_def]
  note h3 = CalendarAll_header_field[OF _ s(2), of _ "pre @ f1 @ f2" CALALLFC_MAIL_ACCOUNT f4, folded f3_def]
  note h4 = CalendarAll_header_field[OF assms(2,3), of _ "pre @ f1 @ f2 @ f3" CALALLFC_CAL_OBJECT "[]", folded f4_def]
  show ?thesis
    unfolding f4_def[symmetric] whole
    using h1 h2 h3 h4 s(1) by (simp add: CalendarAll_handle_def calendar_all_codes add.assoc)
qed

end
