(* ===== verification/Task.thy ===== *)
theory Task imports Recur Unknown_Fields begin

text \<open>
  The Task record class (src/src/r_task.cc, src/src/r_task.h), derived from the recurrence
  data: parsing, building and the round trip. Dump, sorting and the field handles are left
  out.
\<close>

section \<open>State\<close>

text \<open>The range check of the alarm type has no lower bound, so the code 0, which is no enumerator, gets through.\<close>

datatype AlarmFlagType = NoEnumerator | Date | Relative
datatype PriorityFlagType = High | Normal | Low
datatype StatusFlagType = NotStarted | InProgress | Completed | Waiting | Deferred

record task = recur +
  tsk_RecType :: byte
  tsk_RecordId :: u32
  Summary :: bytes
  tsk_Notes :: bytes
  tsk_Categories :: "bytes list"
  UID :: bytes
  tsk_StartTime :: int
  DueTime :: int
  AlarmTime :: int
  tsk_TimeZoneCode :: u16
  tsk_TimeZoneValid :: bool
  AlarmType :: AlarmFlagType
  PriorityFlag :: PriorityFlagType
  StatusFlag :: StatusFlagType
  tsk_Unknowns :: "unknown_field list"

definition AlarmProto2Rec :: "byte \<Rightarrow> AlarmFlagType" where
  "AlarmProto2Rec a = (if a = 0 then NoEnumerator else if a = 1 then Date else Relative)"

fun AlarmRec2Proto :: "AlarmFlagType \<Rightarrow> byte" where
  "AlarmRec2Proto NoEnumerator = 0"
| "AlarmRec2Proto Date = 1"
| "AlarmRec2Proto Relative = 2"

definition PriorityProto2Rec :: "byte \<Rightarrow> PriorityFlagType" where
  "PriorityProto2Rec p = (if p = 0 then High else if p = 1 then Normal else Low)"

fun PriorityRec2Proto :: "PriorityFlagType \<Rightarrow> byte" where
  "PriorityRec2Proto High = 0"
| "PriorityRec2Proto Normal = 1"
| "PriorityRec2Proto Low = 2"

definition StatusProto2Rec :: "byte \<Rightarrow> StatusFlagType" where
  "StatusProto2Rec s = (if s = 0 then NotStarted else if s = 1 then InProgress else if s = 2 then Completed
     else if s = 3 then Waiting else Deferred)"

fun StatusRec2Proto :: "StatusFlagType \<Rightarrow> byte" where
  "StatusRec2Proto NotStarted = 0"
| "StatusRec2Proto InProgress = 1"
| "StatusRec2Proto Completed = 2"
| "StatusRec2Proto Waiting = 3"
| "StatusRec2Proto Deferred = 4"

definition TR_ALARM_RANGE_HIGH :: byte where "TR_ALARM_RANGE_HIGH = 2"
definition TR_PRIORITY_RANGE_HIGH :: byte where "TR_PRIORITY_RANGE_HIGH = 2"
definition TR_STATUS_RANGE_HIGH :: byte where "TR_STATUS_RANGE_HIGH = 4"

lemma task_flag_codes:
  "\<not> TR_ALARM_RANGE_HIGH < AlarmRec2Proto a" "AlarmProto2Rec (AlarmRec2Proto a) = a"
  "\<not> TR_PRIORITY_RANGE_HIGH < PriorityRec2Proto p" "PriorityProto2Rec (PriorityRec2Proto p) = p"
  "\<not> TR_STATUS_RANGE_HIGH < StatusRec2Proto s" "StatusProto2Rec (StatusRec2Proto s) = s"
  by (cases a; simp add: AlarmProto2Rec_def TR_ALARM_RANGE_HIGH_def)+
     (cases p; simp add: PriorityProto2Rec_def TR_PRIORITY_RANGE_HIGH_def
      | cases s; simp add: StatusProto2Rec_def TR_STATUS_RANGE_HIGH_def)+

definition TSKFC_TASK_TYPE :: byte where "TSKFC_TASK_TYPE = 0x01"
definition TSKFC_TITLE :: byte where "TSKFC_TITLE = 0x02"
definition TSKFC_NOTES :: byte where "TSKFC_NOTES = 0x03"
definition TSKFC_DUE_TIME :: byte where "TSKFC_DUE_TIME = 0x05"
definition TSKFC_START_TIME :: byte where "TSKFC_START_TIME = 0x06"
definition TSKFC_DUE_FLAG :: byte where "TSKFC_DUE_FLAG = 0x08"
definition TSKFC_STATUS :: byte where "TSKFC_STATUS = 0x09"
definition TSKFC_PRIORITY :: byte where "TSKFC_PRIORITY = 0x0a"
definition TSKFC_ALARM_TYPE :: byte where "TSKFC_ALARM_TYPE = 0x0e"
definition TSKFC_ALARM_TIME :: byte where "TSKFC_ALARM_TIME = 0x0f"
definition TSKFC_TIMEZONE_CODE :: byte where "TSKFC_TIMEZONE_CODE = 0x10"
definition TSKFC_CATEGORIES :: byte where "TSKFC_CATEGORIES = 0x11"
definition TSKFC_ALARM_FLAG :: byte where "TSKFC_ALARM_FLAG = 0x12"

lemmas task_codes = TSKFC_TASK_TYPE_def TSKFC_TITLE_def TSKFC_NOTES_def TSKFC_DUE_TIME_def TSKFC_START_TIME_def
  TSKFC_DUE_FLAG_def TSKFC_STATUS_def TSKFC_PRIORITY_def TSKFC_ALARM_TYPE_def TSKFC_ALARM_TIME_def
  TSKFC_TIMEZONE_CODE_def TSKFC_CATEGORIES_def TSKFC_ALARM_FLAG_def

definition TaskFieldLinks :: "task field_link list" where
  "TaskFieldLinks =
     [FieldLink TSKFC_TITLE (StrMember Summary (\<lambda>s t. t\<lparr>Summary := s\<rparr>)) True,
      FieldLink TSKFC_NOTES (StrMember tsk_Notes (\<lambda>s t. t\<lparr>tsk_Notes := s\<rparr>)) True,
      FieldLink TSKFC_START_TIME (TimeMember tsk_StartTime (\<lambda>m t. t\<lparr>tsk_StartTime := m\<rparr>)) False,
      FieldLink TSKFC_DUE_TIME (TimeMember DueTime (\<lambda>m t. t\<lparr>DueTime := m\<rparr>)) False,
      FieldLink TSKFC_ALARM_TIME (TimeMember AlarmTime (\<lambda>m t. t\<lparr>AlarmTime := m\<rparr>)) False]"

definition Task_Clear :: "task \<Rightarrow> task" where
  "Task_Clear t = (RecurBase_Clear t)\<lparr>tsk_RecType := 2, tsk_RecordId := 0, Summary := [], tsk_Notes := [],
     tsk_Categories := [], UID := [], tsk_StartTime := 0, DueTime := 0, AlarmTime := 0,
     tsk_TimeZoneCode := GetStaticTimeZoneCode 0 0, tsk_TimeZoneValid := False, AlarmType := Date,
     PriorityFlag := Normal, StatusFlag := NotStarted, tsk_Unknowns := []\<rparr>"

definition Task_SetIds :: "byte \<Rightarrow> u32 \<Rightarrow> task \<Rightarrow> task" where
  "Task_SetIds ty ident t = t\<lparr>tsk_RecType := ty, tsk_RecordId := ident\<rparr>"

section \<open>Parsing\<close>

definition Task_special :: "converter option \<Rightarrow> task \<Rightarrow> byte \<Rightarrow> bytes \<Rightarrow> task res option" where
  "Task_special ic t ty raw =
     (if ty = TSKFC_PRIORITY
      then Some (if byte_at raw 0 > TR_PRIORITY_RANGE_HIGH
                 then Inl (BarryError ''Task::ParseField: priority field out of bounds'')
                 else Inr (t\<lparr>PriorityFlag := PriorityProto2Rec (byte_at raw 0)\<rparr>))
      else if ty = TSKFC_STATUS
      then Some (if byte_at raw 0 > TR_STATUS_RANGE_HIGH
                 then Inl (BarryError ''Task::ParseField: priority field out of bounds'')
                 else Inr (t\<lparr>StatusFlag := StatusProto2Rec (byte_at raw 0)\<rparr>))
      else if ty = TSKFC_TIMEZONE_CODE
      then Some (if length raw = 4 then Inr (t\<lparr>tsk_TimeZoneCode := get16 raw 0, tsk_TimeZoneValid := True\<rparr>)
                 else Inl (BarryError ''Task::ParseField: not enough data in time zone code field''))
      else if ty = TSKFC_DUE_FLAG then Some (Inr t)
      else if ty = TSKFC_ALARM_FLAG then Some (Inr t)
      else if ty = TSKFC_ALARM_TYPE
      then Some (if byte_at raw 0 > TR_ALARM_RANGE_HIGH
                 then Inl (BarryError ''Task::ParseField: AlarmType out of bounds'')
                 else Inr (t\<lparr>AlarmType := AlarmProto2Rec (byte_at raw 0)\<rparr>))
      else if ty = TSKFC_CATEGORIES
      then Some (rbind (CategoryStr2List (from_bb ic (ParseFieldString raw (length raw)))) (\<lambda>cs.
                   Inr (t\<lparr>tsk_Categories := cs\<rparr>)))
      else None)"

definition Task_handle :: "converter option \<Rightarrow> task \<Rightarrow> byte \<Rightarrow> bytes \<Rightarrow> task res" where
  "Task_handle ic t ty raw =
     (if ty = TSKFC_TASK_TYPE
      then (if byte_at raw 0 \<noteq> 0x74 then Inl (BarryError ''Task::ParseField: Task Type is not t'') else Inr t)
      else
        case parse_links TaskFieldLinks ic t ty raw of
          Some r \<Rightarrow> r
        | None \<Rightarrow>
            (case Task_special ic t ty raw of
               Some r \<Rightarrow> r
             | None \<Rightarrow>
                 (case RecurBase_ParseField ty raw t of
                    Some r \<Rightarrow> r
                  | None \<Rightarrow> Inr (t\<lparr>tsk_Unknowns := tsk_Unknowns t @ [(ty, raw)]\<rparr>))))"

definition Task_ParseField :: "converter option \<Rightarrow> task \<Rightarrow> bytes \<Rightarrow> nat \<Rightarrow> (task \<times> nat) res" where
  "Task_ParseField ic = ParseField_start (Task_handle ic)"

definition Task_ParseHeader :: "task \<Rightarrow> data \<Rightarrow> nat \<Rightarrow> task \<times> nat" where
  "Task_ParseHeader t d offset = (t, offset)"

definition Task_ParseFields :: "converter option \<Rightarrow> task \<Rightarrow> data \<Rightarrow> nat \<Rightarrow> (task \<times> nat) res option" where
  "Task_ParseFields ic t d offset = ParseCommonFields (Task_ParseField ic) t (contents d) offset"

section \<open>Building\<close>

definition Task_BuildHeader :: "task \<Rightarrow> data \<Rightarrow> nat \<Rightarrow> data \<times> nat" where
  "Task_BuildHeader t d offset = (d, offset)"

text \<open>BuildFields does not use the table; the start time is written from the due time.\<close>

definition Task_BuildFields :: "converter option \<Rightarrow> task \<Rightarrow> data \<Rightarrow> nat \<Rightarrow> (data \<times> nat) res" where
  "Task_BuildFields ic t d offset =
     rbind (BuildField_u8 (Zap d) offset TSKFC_TASK_TYPE 0x74) (\<lambda>dn1.
     rbind (if Summary t \<noteq> [] then BuildField_string (fst dn1) (snd dn1) TSKFC_TITLE (to_bb ic (Summary t)) else Inr dn1) (\<lambda>dn2.
     rbind (BuildField_u32 (fst dn2) (snd dn2) TSKFC_STATUS (ucast (StatusRec2Proto (StatusFlag t)))) (\<lambda>dn3.
     rbind (BuildField_u32 (fst dn3) (snd dn3) TSKFC_PRIORITY (ucast (PriorityRec2Proto (PriorityFlag t)))) (\<lambda>dn4.
     rbind (if tsk_TimeZoneValid t
            then BuildField_u32 (fst dn4) (snd dn4) TSKFC_TIMEZONE_CODE (ucast (tsk_TimeZoneCode t)) else Inr dn4) (\<lambda>dn5.
     rbind (if DueTime t > 0
            then rbind (BuildField1900 (fst dn5) (snd dn5) TSKFC_START_TIME (DueTime t)) (\<lambda>dn.
                 rbind (BuildField_u32 (fst dn) (snd dn) TSKFC_DUE_FLAG 1) (\<lambda>dn.
                 BuildField1900 (fst dn) (snd dn) TSKFC_DUE_TIME (DueTime t)))
            else Inr dn5) (\<lambda>dn6.
     rbind (if AlarmTime t > 0
            then rbind (BuildField_u32 (fst dn6) (snd dn6) TSKFC_ALARM_FLAG 1) (\<lambda>dn.
                 rbind (BuildField_u8 (fst dn) (snd dn) TSKFC_ALARM_TYPE (AlarmRec2Proto (AlarmType t))) (\<lambda>dn.
                 BuildField1900 (fst dn) (snd dn) TSKFC_ALARM_TIME (AlarmTime t)))
            else Inr dn6) (\<lambda>dn7.
     rbind (if tsk_Categories t \<noteq> []
            then BuildField_string (fst dn7) (snd dn7) TSKFC_CATEGORIES (to_bb ic (CategoryList2Str (tsk_Categories t)))
            else Inr dn7) (\<lambda>dn8.
     rbind (if tsk_Notes t \<noteq> [] then BuildField_string (fst dn8) (snd dn8) TSKFC_NOTES (to_bb ic (tsk_Notes t)) else Inr dn8) (\<lambda>dn9.
     rbind (if Recurring t
            then rbind (BuildRecurrenceData (tsk_StartTime t) t) (\<lambda>rdata.
                   BuildField_raw (fst dn9) (snd dn9) FIELDCODE_RECURRENCE_DATA rdata)
            else Inr dn9) (\<lambda>dn10.
     rbind (rfold (\<lambda>dn uf. BuildField_unknown (fst dn) (snd dn) uf) dn10 (tsk_Unknowns t)) (\<lambda>dn11.
     rbind (ReleaseBuffer (fst dn11) (int (snd dn11))) (\<lambda>d'. Inr (d', snd dn11)))))))))))))"

section \<open>The fields of a task\<close>

definition task_fields :: "converter option \<Rightarrow> task \<Rightarrow> (byte \<times> bytes) list" where
  "task_fields ic t =
     [(TSKFC_TASK_TYPE, [0x74])]
     @ str_field TSKFC_TITLE ic (Summary t)
     @ [(TSKFC_STATUS, le32 (ucast (StatusRec2Proto (StatusFlag t))))]
     @ [(TSKFC_PRIORITY, le32 (ucast (PriorityRec2Proto (PriorityFlag t))))]
     @ (if tsk_TimeZoneValid t then [(TSKFC_TIMEZONE_CODE, le32 (ucast (tsk_TimeZoneCode t)))] else [])
     @ (if DueTime t > 0
        then [(TSKFC_START_TIME, le32 (store_min1900 (DueTime t))), (TSKFC_DUE_FLAG, le32 1),
              (TSKFC_DUE_TIME, le32 (store_min1900 (DueTime t)))] else [])
     @ (if AlarmTime t > 0
        then [(TSKFC_ALARM_FLAG, le32 1), (TSKFC_ALARM_TYPE, [AlarmRec2Proto (AlarmType t)]),
              (TSKFC_ALARM_TIME, le32 (store_min1900 (AlarmTime t)))] else [])
     @ (if tsk_Categories t \<noteq> [] then [(TSKFC_CATEGORIES, to_bb ic (CategoryList2Str (tsk_Categories t)) @ [0])] else [])
     @ str_field TSKFC_NOTES ic (tsk_Notes t)
     @ recurrence_fields (tsk_StartTime t) t
     @ tsk_Unknowns t"

lemma Task_BuildFields_eq: "Task_BuildFields ic t d offset = build_record d offset (task_fields ic t)"
proof -
  have first: "store_field (Zap d) offset g = store_field (fst (Zap d, offset)) (snd (Zap d, offset)) g" for g by simp
  show ?thesis
    unfolding Task_BuildFields_def task_fields_def build_field_simps(1-6) first store_one store_recurrence store_three
    unfolding store_simps str_field_def rbind_assoc ..
qed

section \<open>Round trip\<close>

definition task_known :: "byte list" where
  "task_known = [0x01, 0x02, 0x03, 0x05, 0x06, 0x08, 0x09, 0x0a, 0x0c, 0x0e, 0x0f, 0x10, 0x11, 0x12]"

definition task_ok :: "converter option \<Rightarrow> task \<Rightarrow> bool" where
  "task_ok ic t \<longleftrightarrow> recur_ok t \<and> text_ok ic (Summary t) \<and> text_ok ic (tsk_Notes t)
     \<and> text_ok ic (CategoryList2Str (tsk_Categories t)) \<and> list_all category_ok (tsk_Categories t)
     \<and> minute_time (DueTime t) \<and> minute_time (AlarmTime t)
     \<and> (tsk_TimeZoneValid t \<or> tsk_TimeZoneCode t = GetStaticTimeZoneCode 0 0)
     \<and> unknowns_ok task_known (tsk_Unknowns t)"

text \<open>The start time comes back as the due time; the alarm type is kept only with an alarm, the UID never.\<close>

definition task_stored :: "task \<Rightarrow> task" where
  "task_stored t = t\<lparr>tsk_StartTime := DueTime t, UID := [], AlarmType := (if AlarmTime t > 0 then AlarmType t else Date)\<rparr>"

definition Task_fresh :: "task \<Rightarrow> task" where
  "Task_fresh t = Task_SetIds (tsk_RecType t) (tsk_RecordId t) (Task_Clear t)"

lemma le32_ucast: "byte_at (le32 (ucast (b :: byte))) 0 = b" "get16 (le32 (ucast (z :: u16))) 0 = z"
proof -
  show "byte_at (le32 (ucast b)) 0 = b" by (simp add: le32_def) (rule bit_word_eqI, simp add: bit_simps)
  have "ucast (ucast z :: u32) = (ucast z :: byte)" "ucast (drop_bit 8 (ucast z :: u32)) = (ucast (drop_bit 8 z) :: byte)"
    by (rule bit_word_eqI, simp add: bit_simps)+
  then show "get16 (le32 (ucast z)) 0 = z" by (simp add: le32_def get16_def word16_split)
qed

lemma Task_handle_text:
  assumes "text_ok ic s"
  shows "Task_handle ic r TSKFC_TITLE (to_bb ic s @ [0]) = Inr (r\<lparr>Summary := s\<rparr>)"
    "Task_handle ic r TSKFC_NOTES (to_bb ic s @ [0]) = Inr (r\<lparr>tsk_Notes := s\<rparr>)"
  using ParseFieldString_text[OF assms]
  by (simp_all add: Task_handle_def TaskFieldLinks_def task_codes Let_def)

lemma Task_handle_time:
  assumes "minute_time m" "m \<noteq> 0"
  shows "Task_handle ic r TSKFC_START_TIME (le32 (store_min1900 m)) = Inr (r\<lparr>tsk_StartTime := m\<rparr>)"
    "Task_handle ic r TSKFC_DUE_TIME (le32 (store_min1900 m)) = Inr (r\<lparr>DueTime := m\<rparr>)"
    "Task_handle ic r TSKFC_ALARM_TIME (le32 (store_min1900 m)) = Inr (r\<lparr>AlarmTime := m\<rparr>)"
  using minute_time_field[OF assms]
  by (simp_all add: Task_handle_def TaskFieldLinks_def task_codes)

lemma Task_handle_flags:
  "Task_handle ic r TSKFC_TASK_TYPE [0x74] = Inr r"
  "Task_handle ic r TSKFC_STATUS (le32 (ucast (StatusRec2Proto s))) = Inr (r\<lparr>StatusFlag := s\<rparr>)"
  "Task_handle ic r TSKFC_PRIORITY (le32 (ucast (PriorityRec2Proto p))) = Inr (r\<lparr>PriorityFlag := p\<rparr>)"
  "Task_handle ic r TSKFC_TIMEZONE_CODE (le32 (ucast z)) = Inr (r\<lparr>tsk_TimeZoneCode := z, tsk_TimeZoneValid := True\<rparr>)"
  "Task_handle ic r TSKFC_DUE_FLAG (le32 1) = Inr r"
  "Task_handle ic r TSKFC_ALARM_FLAG (le32 1) = Inr r"
  "Task_handle ic r TSKFC_ALARM_TYPE [AlarmRec2Proto a] = Inr (r\<lparr>AlarmType := a\<rparr>)"
  by (simp_all add: Task_handle_def TaskFieldLinks_def Task_special_def task_codes task_flag_codes le32_ucast)

lemma Task_handle_categories:
  assumes "text_ok ic (CategoryList2Str cs)" and "list_all category_ok cs"
  shows "Task_handle ic r TSKFC_CATEGORIES (to_bb ic (CategoryList2Str cs) @ [0]) = Inr (r\<lparr>tsk_Categories := cs\<rparr>)"
  using ParseFieldString_text[OF assms(1)] assms(2)
  by (simp add: Task_handle_def TaskFieldLinks_def Task_special_def task_codes categories_survive)

lemma Task_handle_recurrence:
  assumes "length raw = CALENDAR_RECURRENCE_DATA_FIELD_SIZE"
  shows "Task_handle ic r FIELDCODE_RECURRENCE_DATA raw = ParseRecurrenceData raw r"
  using assms
  by (simp add: Task_handle_def TaskFieldLinks_def Task_special_def task_codes FIELDCODE_RECURRENCE_DATA_def
      RecurBase_ParseField_def)

lemma Task_handle_unknown:
  assumes "ty \<notin> set task_known"
  shows "Task_handle ic r ty raw = Inr (r\<lparr>tsk_Unknowns := tsk_Unknowns r @ [(ty, raw)]\<rparr>)"
  using assms
  by (simp add: Task_handle_def TaskFieldLinks_def Task_special_def task_codes task_known_def
      RecurBase_ParseField_def FIELDCODE_RECURRENCE_DATA_def)

lemma Task_read_unknowns:
  "list_all (\<lambda>uf. fst uf \<notin> set task_known) ufs \<Longrightarrow>
     rfold (\<lambda>r f. Task_handle ic r (fst f) (snd f)) r ufs = Inr (r\<lparr>tsk_Unknowns := tsk_Unknowns r @ ufs\<rparr>)"
  by (induction ufs arbitrary: r) (simp_all add: Task_handle_unknown)

lemma task_fields_proper: "task_ok ic t \<Longrightarrow> list_all proper_field (task_fields ic t)"
  by (simp add: task_ok_def task_fields_def proper_simps proper_unknowns[of task_known] proper_recurrence_fields)

lemma Task_reads:
  assumes ok: "task_ok ic t"
  shows "rfold (\<lambda>r f. Task_handle ic r (fst f) (snd f)) (Task_fresh t) (task_fields ic t) = Inr (task_stored t)"
proof -
  let ?h = "\<lambda>r f. Task_handle ic r (fst f) (snd f)"
  note o = ok[unfolded task_ok_def]
  have rec: "recur_ok t" and unk: "list_all (\<lambda>uf. fst uf \<notin> set task_known) (tsk_Unknowns t)"
    using ok by (auto simp: task_ok_def unknowns_ok_def list_all_iff)
  have str: "\<And>r. Summary r = [] \<Longrightarrow> rfold ?h r (str_field TSKFC_TITLE ic (Summary t)) = Inr (r\<lparr>Summary := Summary t\<rparr>)"
    "\<And>r. tsk_Notes r = [] \<Longrightarrow> rfold ?h r (str_field TSKFC_NOTES ic (tsk_Notes t)) = Inr (r\<lparr>tsk_Notes := tsk_Notes t\<rparr>)"
    by (rule rfold_str_field; simp add: Task_handle_text o)+
  have tz: "\<not> tsk_TimeZoneValid t \<Longrightarrow> tsk_TimeZoneCode t = GetStaticTimeZoneCode 0 0" using o by auto
  have due: "\<not> 0 < DueTime t \<Longrightarrow> DueTime t = 0" and alarm: "\<not> 0 < AlarmTime t \<Longrightarrow> AlarmTime t = 0"
    using o by (auto simp: minute_time_def)
  define front where "front = [(TSKFC_TASK_TYPE, [0x74])] @ str_field TSKFC_TITLE ic (Summary t)
     @ [(TSKFC_STATUS, le32 (ucast (StatusRec2Proto (StatusFlag t))))]
     @ [(TSKFC_PRIORITY, le32 (ucast (PriorityRec2Proto (PriorityFlag t))))]
     @ (if tsk_TimeZoneValid t then [(TSKFC_TIMEZONE_CODE, le32 (ucast (tsk_TimeZoneCode t)))] else [])"
  define times where "times = (if DueTime t > 0
        then [(TSKFC_START_TIME, le32 (store_min1900 (DueTime t))), (TSKFC_DUE_FLAG, le32 1),
              (TSKFC_DUE_TIME, le32 (store_min1900 (DueTime t)))] else [])
     @ (if AlarmTime t > 0
        then [(TSKFC_ALARM_FLAG, le32 1), (TSKFC_ALARM_TYPE, [AlarmRec2Proto (AlarmType t)]),
              (TSKFC_ALARM_TIME, le32 (store_min1900 (AlarmTime t)))] else [])"
  define cats where "cats = (if tsk_Categories t \<noteq> []
      then [(TSKFC_CATEGORIES, to_bb ic (CategoryList2Str (tsk_Categories t)) @ [0])] else [])
     @ str_field TSKFC_NOTES ic (tsk_Notes t)"
  have split: "task_fields ic t = front @ times @ cats
      @ recurrence_fields (tsk_StartTime t) t @ tsk_Unknowns t"
    by (simp add: task_fields_def front_def times_def cats_def)
  define r1 where "r1 = (Task_fresh t)\<lparr>Summary := Summary t, StatusFlag := StatusFlag t, PriorityFlag := PriorityFlag t,
      tsk_TimeZoneCode := tsk_TimeZoneCode t, tsk_TimeZoneValid := tsk_TimeZoneValid t\<rparr>"
  define r2 where "r2 = r1\<lparr>tsk_StartTime := DueTime t, DueTime := DueTime t, AlarmTime := AlarmTime t,
      AlarmType := (if AlarmTime t > 0 then AlarmType t else Date)\<rparr>"
  define r3 where "r3 = r2\<lparr>tsk_Categories := tsk_Categories t, tsk_Notes := tsk_Notes t\<rparr>"
  define r4 where "r4 = with_recurrence t r3"
  note fresh = Task_fresh_def Task_SetIds_def Task_Clear_def
  have s1: "rfold ?h (Task_fresh t) front = Inr r1"
    using tz by (simp add: front_def rfold_append str Task_handle_flags r1_def fresh)
  have s2: "rfold ?h r1 times = Inr r2"
    using due alarm o by (simp add: times_def rfold_append Task_handle_time Task_handle_flags r2_def r1_def fresh)
  have s3: "rfold ?h r2 cats = Inr r3"
    using o by (simp add: cats_def rfold_append str Task_handle_categories r3_def r2_def r1_def fresh)
  have s4: "rfold ?h r3 (recurrence_fields (tsk_StartTime t) t) = Inr r4"
    unfolding r4_def
    by (rule read_recurrence[OF _ rec])
       (simp_all add: Task_handle_recurrence r3_def r2_def r1_def fresh RecurBase_Clear_def no_details_def)
  have "rfold ?h (Task_fresh t) (task_fields ic t) = Inr (r4\<lparr>tsk_Unknowns := tsk_Unknowns r4 @ tsk_Unknowns t\<rparr>)"
    unfolding split by (simp only: rfold_append s1 s2 s3 s4 rbind_simps Task_read_unknowns[OF unk])
  also have "\<dots> = Inr (task_stored t)"
    unfolding r4_def with_recurrence_def r3_def r2_def r1_def fresh RecurBase_Clear_def task_stored_def
    by (rule arg_cong[of _ _ Inr], rule task.equality) simp_all
  finally show ?thesis .
qed

definition task_takes :: "byte \<Rightarrow> bytes \<Rightarrow> bool" where
  "task_takes ty raw \<longleftrightarrow> ty = TSKFC_TASK_TYPE \<or> links_take TaskFieldLinks ty raw
     \<or> ty \<in> {TSKFC_PRIORITY, TSKFC_STATUS, TSKFC_TIMEZONE_CODE, TSKFC_DUE_FLAG, TSKFC_ALARM_FLAG, TSKFC_ALARM_TYPE,
          TSKFC_CATEGORIES, FIELDCODE_RECURRENCE_DATA}"

interpretation task_unknowns: unknown_keeper "Task_ParseField ic" "\<lambda>_. Task_handle ic" tsk_Unknowns "\<lambda>_. task_takes" for ic
proof unfold_locales
  fix raw and ty and r r' :: task
  assume h: "Task_handle ic r ty raw = Inr r'"
  have k: "list_all (link_keeps tsk_Unknowns) TaskFieldLinks" by (simp add: TaskFieldLinks_def link_keeps_def)
  show "tsk_Unknowns r' = tsk_Unknowns r @ (if task_takes ty raw then [] else [(ty, raw)])"
  proof (cases "ty = TSKFC_TASK_TYPE")
    case False
    have "tsk_Unknowns r' = tsk_Unknowns r @ (if links_take TaskFieldLinks ty raw
       \<or> ty \<in> {TSKFC_PRIORITY, TSKFC_STATUS, TSKFC_TIMEZONE_CODE, TSKFC_DUE_FLAG, TSKFC_ALARM_FLAG, TSKFC_ALARM_TYPE,
          TSKFC_CATEGORIES, FIELDCODE_RECURRENCE_DATA} then [] else [(ty, raw)])"
      by (rule links_first[OF k h[unfolded Task_handle_def if_not_P[OF False]]])
        (auto simp: Task_special_def RecurBase_ParseField_def ParseRecurrenceData_def Let_def rbind_eq_Inr split: if_splits)
    then show ?thesis using False by (simp add: task_takes_def)
  qed (use h in \<open>auto simp: Task_handle_def task_takes_def split: if_splits\<close>)
qed (simp_all add: Task_ParseField_def)

interpretation task_codec: record_codec "Task_ParseField ic" "\<lambda>_. Task_handle ic" "Task_BuildFields ic"
  "task_fields ic" "task_ok ic" Task_fresh task_stored for ic
  by unfold_locales (simp_all add: Task_ParseField_def Task_BuildFields_eq proper_sizes[OF task_fields_proper]
    proper_last[OF task_fields_proper] proper_parse_list[OF task_fields_proper] Task_reads)

text \<open>
  C25: A task built behind a header of any length and parsed again is the same task,
  recurrence data, categories and unknown fields included, except that its start time is
  the due time, its alarm type is the default unless it has an alarm, and its UID is gone.
  The buffer has to have room for the whole record before the first field is built (has_room);
  what happens otherwise is shown for memos.
\<close>

theorem Task_roundtrip:
  assumes "task_ok ic t" and "has_room d (offset + length (encode_fields (task_fields ic t)))"
  shows "\<exists>d' n. Task_BuildFields ic t d offset = Inr (d', n) \<and> n = length (contents d')
     \<and> Task_ParseFields ic (Task_fresh t) d' offset
       = Some (Inr (t\<lparr>tsk_StartTime := DueTime t, UID := [], AlarmType := (if AlarmTime t > 0 then AlarmType t else Date)\<rparr>, n))"
  using task_codec.roundtrip[OF assms] by (simp add: Task_ParseFields_def task_stored_def)

definition sample_task :: task where
  "sample_task = \<lparr>Recurring = True, RecurringType = YearByDay, Interval = 1, RecurringEndTime = 0, Perpetual = True,
     DayOfWeek = 3, WeekOfMonth = 2, DayOfMonth = 0, MonthOfYear = 11, WeekDays = 0,
     tsk_RecType = 2, tsk_RecordId = 4, Summary = [0x41], tsk_Notes = [0x42], tsk_Categories = [[0x57], [0x58]],
     UID = [0x31], tsk_StartTime = 0, DueTime = 1300000020, AlarmTime = 0, tsk_TimeZoneCode = 0x55, tsk_TimeZoneValid = True,
     AlarmType = Relative, PriorityFlag = Low, StatusFlag = Waiting, tsk_Unknowns = []\<rparr>"

lemma Task_roundtrip_witness:
  "\<exists>d' n. Task_BuildFields None sample_task Data_default 15 = Inr (d', n)
     \<and> Task_ParseFields None (Task_fresh sample_task) d' 15
       = Some (Inr (sample_task\<lparr>tsk_StartTime := 1300000020, UID := [], AlarmType := Date\<rparr>, n))"
proof -
  have ok: "task_ok None sample_task"
    by (simp add: task_ok_def sample_task_def recur_ok_def recur_details_ok_def minute_time_def text_ok_def from_bb_def to_bb_def
        category_ok_def CategoryList2Str_def unknowns_ok_def STDC_MIN1900_DIFF_value)
  have room: "has_room Data_default (15 + length (encode_fields (task_fields None sample_task)))"
    by (simp add: has_room_def Data_default_def Data_new_def BARRY_DATA_DEFAULT_SIZE_def BARRY_DATA_DEFAULT_PREPEND_SIZE_def
        encode_fields_def task_fields_def str_field_def recurrence_fields_def BuildRecurrenceData_def recurrence_details_def
        sample_task_def to_bb_def common_field_def CategoryList2Str_def)
  have "sample_task\<lparr>tsk_StartTime := DueTime sample_task, UID := [], AlarmType := (if AlarmTime sample_task > 0 then AlarmType sample_task else Date)\<rparr>
      = sample_task\<lparr>tsk_StartTime := 1300000020, UID := [], AlarmType := Date\<rparr>"
    by (simp add: sample_task_def)
  then show ?thesis using Task_roundtrip[OF ok room] by auto
qed

end
