(* ===== verification/Dates.thy ===== *)
theory Dates imports Text_Lists begin

text \<open>
  The Date record of contacts (src/src/record.cc, src/src/record.h) and its text forms:
  DD/MM/YYYY as the device stores it and YYYYMMDD. Output goes through an ostream with fill
  character 0 and a minimal width, input through sscanf with \<open>%d\<close> conversions.
\<close>

section \<open>Decimal numbers\<close>

fun dec_digits :: "nat \<Rightarrow> bytes" where
  "dec_digits n = (if n < 10 then [0x30 + of_nat n] else dec_digits (n div 10) @ [0x30 + of_nat (n mod 10)])"

declare dec_digits.simps [simp del]

definition show_int :: "int \<Rightarrow> bytes" where
  "show_int i = (if i < 0 then 0x2d # dec_digits (nat (- i)) else dec_digits (nat i))"

text \<open>\<open>setw(w) << setfill('0') << i\<close>, right adjusted.\<close>

definition put_int :: "nat \<Rightarrow> int \<Rightarrow> bytes" where
  "put_int w i = replicate (w - length (show_int i)) 0x30 @ show_int i"

definition isdigit :: "byte \<Rightarrow> bool" where "isdigit c \<longleftrightarrow> 0x30 \<le> c \<and> c \<le> 0x39"

definition digits_value :: "bytes \<Rightarrow> int" where
  "digits_value ds = foldl (\<lambda>n c. n * 10 + (uint c - 0x30)) 0 ds"

text \<open>
  A \<open>%d\<close> conversion, with a maximal field width if there is one: white space is skipped and
  not counted, the sign is counted. None is a matching failure; the rest of the input
  comes with the number.
\<close>

definition scan_d :: "nat option \<Rightarrow> bytes \<Rightarrow> (int \<times> bytes) option" where
  "scan_d width s =
     (let s1 = dropWhile isspace s;
          field = (case width of None \<Rightarrow> s1 | Some w \<Rightarrow> take w s1);
          signed = (field \<noteq> [] \<and> (hd field = 0x2b \<or> hd field = 0x2d));
          ds = takeWhile isdigit (if signed then tl field else field);
          v = digits_value ds
      in if ds = [] then None
         else Some (if signed \<and> hd field = 0x2d then - v else v,
                    drop (length ds + (if signed then 1 else 0)) s1))"

text \<open>
  A conversion stores its number as soon as it is read, also when a later one fails; a
  number outside the range of int makes the behaviour of sscanf undefined.
\<close>

definition in_int :: "int \<Rightarrow> bool" where "in_int i \<longleftrightarrow> - (2 ^ 31) \<le> i \<and> i < 2 ^ 31"

definition scan_int :: "nat option \<Rightarrow> bytes \<Rightarrow> (int \<Rightarrow> bytes \<Rightarrow> 'a option res) \<Rightarrow> 'a option res" where
  "scan_int width s f =
     (case scan_d width s of
        None \<Rightarrow> Inr None
      | Some (i, rest) \<Rightarrow> if in_int i then f i rest else Inl (UB ''sscanf: number out of range''))"

text \<open>A literal slash of the format has to match the next character.\<close>

definition scan_slash :: "bytes \<Rightarrow> (bytes \<Rightarrow> 'a option res) \<Rightarrow> 'a option res" where
  "scan_slash s f = (case s of [] \<Rightarrow> Inr None | c # cs \<Rightarrow> if c = 0x2f then f cs else Inr None)"

section \<open>Dates\<close>

record date =
  d_Month :: int
  d_Day :: int
  d_Year :: int

record tm =
  tm_year :: int
  tm_mon :: int
  tm_mday :: int

definition Date_Clear :: date where "Date_Clear = \<lparr>d_Month = 0, d_Day = 0, d_Year = 0\<rparr>"

definition Date_HasData :: "date \<Rightarrow> bool" where
  "Date_HasData d \<longleftrightarrow> d_Month d \<noteq> 0 \<or> d_Day d \<noteq> 0 \<or> d_Year d \<noteq> 0"

text \<open>The members of struct tm that are not set here are zero.\<close>

definition ToTm :: "date \<Rightarrow> tm" where
  "ToTm d = \<lparr>tm_year = d_Year d - 1900, tm_mon = d_Month d, tm_mday = d_Day d\<rparr>"

definition ToYYYYMMDD :: "date \<Rightarrow> bytes" where
  "ToYYYYMMDD d = put_int 4 (d_Year d) @ put_int 2 (d_Month d + 1) @ put_int 2 (d_Day d)"

definition ToBBString :: "date \<Rightarrow> bytes" where
  "ToBBString d = put_int 2 (d_Day d) @ [0x2f] @ put_int 2 (d_Month d + 1) @ [0x2f] @ put_int 2 (d_Year d)"

definition FromTm :: "tm option \<Rightarrow> date \<Rightarrow> (bool \<times> date) res" where
  "FromTm timep d =
     (case timep of
        None \<Rightarrow> Inl (LogicError ''NULL time pointer passed to Date::FromTm'')
      | Some t \<Rightarrow> Inr (True, \<lparr>d_Month = tm_mon t, d_Day = tm_mday t, d_Year = tm_year t + 1900\<rparr>))"

definition set_scanned :: "date \<Rightarrow> (int \<times> int \<times> int) option \<Rightarrow> bool \<times> date" where
  "set_scanned old dmy =
     (case dmy of
        None \<Rightarrow> (False, old)
      | Some (day, month, year) \<Rightarrow> (True, \<lparr>d_Month = month - 1, d_Day = day, d_Year = year\<rparr>))"

definition FromBBString :: "bytes \<Rightarrow> date \<Rightarrow> (bool \<times> date) res" where
  "FromBBString str old =
     rbind (scan_int None (c_str str) (\<lambda>day s1. scan_slash s1 (\<lambda>s2.
            scan_int None s2 (\<lambda>month s3. scan_slash s3 (\<lambda>s4.
            scan_int None s4 (\<lambda>year s5. Inr (Some (day, month, year))))))))
       (\<lambda>dmy. Inr (set_scanned old dmy))"

definition FromYYYYMMDD :: "bytes \<Rightarrow> date \<Rightarrow> (bool \<times> date) res" where
  "FromYYYYMMDD str old =
     rbind (scan_int (Some 4) (c_str str) (\<lambda>year s1.
            scan_int (Some 2) s1 (\<lambda>month s2.
            scan_int (Some 2) s2 (\<lambda>day s3. Inr (Some (day, month, year))))))
       (\<lambda>dmy. Inr (set_scanned old dmy))"

text \<open>operator< compares YYYYMMDD as unsigned integers of 32 bits.\<close>

definition date_key :: "date \<Rightarrow> int" where
  "date_key d = (d_Year d * 10000 + d_Month d * 100 + d_Day d) mod 2 ^ 32"

definition date_less :: "date \<Rightarrow> date \<Rightarrow> bool" where
  "date_less d e \<longleftrightarrow> date_key d < date_key e"

section \<open>Numbers survive their text\<close>

lemma digit_byte:
  assumes "n < 10"
  shows "isdigit (0x30 + of_nat n)" "uint (0x30 + of_nat n :: byte) = 0x30 + int n"
proof -
  have "unat (0x30 + of_nat n :: byte) = 0x30 + n"
    using assms by (simp add: unat_word_ariths unat_of_nat)
  then show "isdigit (0x30 + of_nat n)" "uint (0x30 + of_nat n :: byte) = 0x30 + int n"
    using assms by (simp_all add: isdigit_def word_le_nat_alt uint_nat)
qed

lemma dec_digits_digits: "list_all isdigit (dec_digits n)"
  by (induction n rule: dec_digits.induct) (subst dec_digits.simps, simp add: digit_byte)

lemma dec_digits_nonempty: "dec_digits n \<noteq> []"
  by (subst dec_digits.simps) simp

lemma digits_value_snoc: "digits_value (ds @ [c]) = digits_value ds * 10 + (uint c - 0x30)"
  by (simp add: digits_value_def)

lemma digits_value_dec: "digits_value (dec_digits n) = int n"
proof (induction n rule: dec_digits.induct)
  case (1 n)
  show ?case
  proof (cases "n < 10")
    case True
    then show ?thesis by (subst dec_digits.simps) (simp add: digits_value_def digit_byte)
  next
    case False
    then have "digits_value (dec_digits n) = int (n div 10) * 10 + int (n mod 10)"
      using 1 by (subst dec_digits.simps) (simp add: digits_value_snoc digit_byte)
    then show ?thesis by presburger
  qed
qed

lemma digits_value_zeros: "digits_value (replicate k 0x30 @ ds) = digits_value ds"
  by (induction k) (simp_all add: digits_value_def)

lemma put_int_number:
  assumes "0 \<le> i"
  shows "list_all isdigit (put_int w i)" and "put_int w i \<noteq> []" and "digits_value (put_int w i) = i"
    and "w \<le> length (put_int w i)" and "length (show_int i) \<le> w \<Longrightarrow> length (put_int w i) = w"
proof -
  have s: "show_int i = dec_digits (nat i)" using assms by (simp add: show_int_def)
  have z: "isdigit 0x30" by (simp add: isdigit_def)
  show "list_all isdigit (put_int w i)"
    using dec_digits_digits[of "nat i"] z by (auto simp: put_int_def s list_all_iff)
  show "put_int w i \<noteq> []" by (simp add: put_int_def s dec_digits_nonempty)
  show "digits_value (put_int w i) = i" using assms by (simp add: put_int_def s digits_value_zeros digits_value_dec)
  show "w \<le> length (put_int w i)" "length (show_int i) \<le> w \<Longrightarrow> length (put_int w i) = w" by (simp_all add: put_int_def)
qed

lemma digit_no_sign: "isdigit c \<Longrightarrow> \<not> isspace c \<and> c \<noteq> 0x2b \<and> c \<noteq> 0x2d \<and> c \<noteq> 0"
  by (auto simp: isdigit_def isspace_def dest: order_trans[of "0x30" c 13])

lemma scan_digits:
  assumes "list_all isdigit ds" and "ds \<noteq> []" and "rest = [] \<or> \<not> isdigit (hd rest)"
  shows "scan_d None (ds @ rest) = Some (digits_value ds, rest)"
proof -
  obtain c cs where c: "ds = c # cs" using assms(2) by (cases ds) auto
  then have h: "\<not> isspace c" "c \<noteq> 0x2b" "c \<noteq> 0x2d" using assms(1) digit_no_sign by auto
  have "takeWhile isdigit rest = []" using assms(3) by (cases rest) auto
  then have "takeWhile isdigit (ds @ rest) = ds" using assms(1) by (simp add: list_all_iff)
  then show ?thesis using h by (simp add: scan_d_def c Let_def)
qed

lemma scan_width:
  assumes "list_all isdigit ds" and "ds \<noteq> []" and "length ds = w"
  shows "scan_d (Some w) (ds @ rest) = Some (digits_value ds, rest)"
proof -
  have h: "\<not> isspace (hd ds)" "hd ds \<noteq> 0x2b" "hd ds \<noteq> 0x2d"
    using assms(1,2) digit_no_sign[of "hd ds"] by (cases ds; simp)+
  have t: "take w (ds @ rest) = ds" "drop w (ds @ rest) = rest" using assms(3) by simp_all
  have d: "dropWhile isspace (ds @ rest) = ds @ rest" using h(1) assms(2) by (cases ds) simp_all
  have tw: "takeWhile isdigit ds = ds" using assms(1) by (simp add: list_all_iff)
  show ?thesis using h assms(2,3) by (simp add: scan_d_def d t tw Let_def del: take_append drop_append)
qed

text \<open>
  What the two formats accept, said without the scanner: a number is white space, at most
  one sign and at least one digit, taken as far as the field width and the digits go.
\<close>

definition number_field :: "nat option \<Rightarrow> bytes \<Rightarrow> int \<Rightarrow> bytes \<Rightarrow> bool" where
  "number_field width s i rest \<longleftrightarrow>
     (\<exists>blanks sign ds. s = blanks @ sign @ ds @ rest \<and> list_all isspace blanks \<and> sign \<in> {[], [0x2b], [0x2d]}
        \<and> ds \<noteq> [] \<and> list_all isdigit ds
        \<and> (case width of None \<Rightarrow> True | Some w \<Rightarrow> length (sign @ ds) \<le> w)
        \<and> (width = Some (length (sign @ ds)) \<or> rest = [] \<or> \<not> isdigit (hd rest))
        \<and> i = (if sign = [0x2d] then - digits_value ds else digits_value ds))"

definition bb_text :: "bytes \<Rightarrow> int \<Rightarrow> int \<Rightarrow> int \<Rightarrow> bool" where
  "bb_text s day month year \<longleftrightarrow> (\<exists>s2 s4 s5. number_field None s day (0x2f # s2)
     \<and> number_field None s2 month (0x2f # s4) \<and> number_field None s4 year s5)"

definition ymd_text :: "bytes \<Rightarrow> int \<Rightarrow> int \<Rightarrow> int \<Rightarrow> bool" where
  "ymd_text s day month year \<longleftrightarrow> (\<exists>s1 s2 s3. number_field (Some 4) s year s1
     \<and> number_field (Some 2) s1 month s2 \<and> number_field (Some 2) s2 day s3)"

lemma sign_no_digit: "\<not> isdigit 0x2b" "\<not> isdigit 0x2d" "\<not> isspace 0x2b" "\<not> isspace 0x2d"
  by (simp_all add: isdigit_def isspace_def)

lemma takeWhile_isdigit: "list_all isdigit ds \<Longrightarrow> rest = [] \<or> \<not> isdigit (hd rest) \<Longrightarrow> takeWhile isdigit (ds @ rest) = ds"
  by (cases rest) (auto simp: list_all_iff)

lemma number_field_scan:
  assumes "number_field width s i rest" shows "scan_d width s = Some (i, rest)"
proof -
  obtain blanks sign ds where s: "s = blanks @ sign @ ds @ rest" "list_all isspace blanks" "sign \<in> {[], [0x2b], [0x2d]}"
      "ds \<noteq> []" "list_all isdigit ds" "case width of None \<Rightarrow> True | Some w \<Rightarrow> length (sign @ ds) \<le> w"
      "width = Some (length (sign @ ds)) \<or> rest = [] \<or> \<not> isdigit (hd rest)"
      "i = (if sign = [0x2d] then - digits_value ds else digits_value ds)"
    using assms unfolding number_field_def by blast
  obtain c cs where c: "ds = c # cs" "isdigit c" using s(4,5) by (cases ds) auto
  have h: "\<not> isspace c" "c \<noteq> 0x2b" "c \<noteq> 0x2d" using digit_no_sign[OF c(2)] by auto
  have drop: "dropWhile isspace s = sign @ ds @ rest"
    using s(1,2,3) h(1) sign_no_digit c(1) by (auto simp: list_all_iff dropWhile_append2)
  define field where "field = (case width of None \<Rightarrow> sign @ ds @ rest | Some w \<Rightarrow> take w (sign @ ds @ rest))"
  obtain more where more: "field = sign @ ds @ more" "more = [] \<or> \<not> isdigit (hd more)"
  proof (cases "width = Some (length (sign @ ds))")
    case True
    then show ?thesis using that[of "[]"] by (simp add: field_def)
  next
    case False
    then have r: "rest = [] \<or> \<not> isdigit (hd rest)" using s(7) by blast
    show ?thesis
    proof (cases width)
      case None
      then show ?thesis using that[of rest] r by (simp add: field_def)
    next
      case (Some w)
      have t: "take (w - length (sign @ ds)) rest = [] \<or> \<not> isdigit (hd (take (w - length (sign @ ds)) rest))"
        using r by (cases rest; cases "w - length (sign @ ds)") auto
      show ?thesis by (rule that[OF _ t]) (use s(6) Some in \<open>simp add: field_def\<close>)
    qed
  qed
  have digits: "takeWhile isdigit (ds @ more) = ds" by (rule takeWhile_isdigit[OF s(5) more(2)])
  have eq: "scan_d width s = (let signed = (field \<noteq> [] \<and> (hd field = 0x2b \<or> hd field = 0x2d));
      ds = takeWhile isdigit (if signed then tl field else field); v = digits_value ds
    in if ds = [] then None
       else Some (if signed \<and> hd field = 0x2d then - v else v, drop (length ds + (if signed then 1 else 0)) (sign @ ds' @ rest)))"
    if "ds' = ds" for ds' unfolding that scan_d_def Let_def drop field_def[symmetric] by (rule refl)
  consider "sign = []" | "sign = [0x2b]" | "sign = [0x2d]" using s(3) by blast
  then show ?thesis
  proof cases
    case 1
    then show ?thesis using h digits c s(8) unfolding eq[OF refl] more(1) by simp
  next
    case 2
    then show ?thesis using digits c s(8) unfolding eq[OF refl] more(1) by simp
  next
    case 3
    then show ?thesis using digits c s(8) unfolding eq[OF refl] more(1) by simp
  qed
qed

lemma scan_number_field:
  assumes "scan_d width s = Some (i, rest)" shows "number_field width s i rest"
proof -
  define s1 where "s1 = dropWhile isspace s"
  define field where "field = (case width of None \<Rightarrow> s1 | Some w \<Rightarrow> take w s1)"
  define signed where "signed \<longleftrightarrow> field \<noteq> [] \<and> (hd field = 0x2b \<or> hd field = 0x2d)"
  define body where "body = (if signed then tl field else field)"
  define ds where "ds = takeWhile isdigit body"
  define sign where "sign = (if signed then [hd field] else [])"
  have "scan_d width s = (if ds = [] then None
      else Some (if signed \<and> hd field = 0x2d then - digits_value ds else digits_value ds, drop (length ds + (if signed then 1 else 0)) s1))"
    unfolding scan_d_def Let_def s1_def[symmetric] field_def[symmetric] signed_def[symmetric] body_def[symmetric] ds_def[symmetric]
    by (rule refl)
  then have r: "ds \<noteq> []" "i = (if signed \<and> hd field = 0x2d then - digits_value ds else digits_value ds)"
      "rest = drop (length ds + (if signed then 1 else 0)) s1"
    using assms by (auto split: if_splits)
  have f: "field = sign @ body" by (auto simp: sign_def body_def signed_def)
  have b: "body = ds @ drop (length ds) body" unfolding ds_def by (metis takeWhile_eq_take append_take_drop_id)
  have stop: "drop (length ds) body = [] \<or> \<not> isdigit (hd (drop (length ds) body))"
    unfolding ds_def using hd_dropWhile[of isdigit body] dropWhile_eq_drop[of isdigit body] by metis
  have s1: "s1 = field @ drop (length field) s1" by (cases width) (auto simp: field_def min_def)
  have rest: "rest = drop (length ds) body @ drop (length field) s1"
  proof -
    have "s1 = (sign @ ds) @ drop (length ds) body @ drop (length field) s1" using s1 f b by (metis append.assoc)
    then have "drop (length (sign @ ds)) s1 = drop (length ds) body @ drop (length field) s1" by (metis append_eq_conv_conj)
    then show ?thesis using r(3) by (simp add: sign_def split: if_splits)
  qed
  have whole: "s = takeWhile isspace s @ sign @ ds @ rest"
    using s1 f b rest unfolding s1_def by (metis append.assoc takeWhile_dropWhile_id)
  have "length (sign @ ds) \<le> length field" using f b by (metis append.assoc length_append le_add1)
  then have fits: "case width of None \<Rightarrow> True | Some w \<Rightarrow> length (sign @ ds) \<le> w"
    by (cases width) (auto simp: field_def)
  have ends: "width = Some (length (sign @ ds)) \<or> rest = [] \<or> \<not> isdigit (hd rest)"
  proof (cases "drop (length ds) body = []")
    case False
    then show ?thesis using stop rest by simp
  next
    case True
    then have fd: "field = sign @ ds" "rest = drop (length field) s1" using f b rest by simp_all
    show ?thesis
    proof (cases width)
      case None
      then show ?thesis using fd(2) by (simp add: field_def)
    next
      case (Some w)
      then have l: "length field = min (length s1) w" by (simp add: field_def)
      show ?thesis
      proof (cases "w \<le> length s1")
        case True
        then show ?thesis using Some l fd(1) by simp
      next
        case False
        then show ?thesis using fd(2) l by simp
      qed
    qed
  qed
  have "sign \<in> {[], [0x2b], [0x2d]}" by (auto simp: sign_def signed_def)
  moreover have "list_all isspace (takeWhile isspace s)" "list_all isdigit ds"
    by (auto simp: list_all_iff ds_def dest: set_takeWhileD)
  moreover have "i = (if sign = [0x2d] then - digits_value ds else digits_value ds)" using r(2) by (auto simp: sign_def)
  ultimately show ?thesis using whole fits ends r(1) unfolding number_field_def by blast
qed

lemma scan_d_iff: "scan_d width s = Some (i, rest) \<longleftrightarrow> number_field width s i rest"
  using number_field_scan scan_number_field by blast

lemma dec_digits_length: "n < 10 ^ k \<Longrightarrow> k \<noteq> 0 \<Longrightarrow> length (dec_digits n) \<le> k"
proof (induction k arbitrary: n)
  case (Suc k)
  show ?case
  proof (cases "n < 10")
    case True
    then show ?thesis by (subst dec_digits.simps) simp
  next
    case False
    then have "k \<noteq> 0" using Suc.prems(1) by (cases k) auto
    moreover have "n div 10 < 10 ^ k" using Suc.prems(1) by (simp add: less_mult_imp_div_less mult.commute)
    ultimately show ?thesis using Suc.IH False by (subst dec_digits.simps) simp
  qed
qed simp

lemma show_int_length: "0 \<le> i \<Longrightarrow> i < 10 ^ k \<Longrightarrow> k \<noteq> 0 \<Longrightarrow> length (show_int i) \<le> k"
  using dec_digits_length[of "nat i" k] by (simp add: show_int_def nat_less_iff)

section \<open>Round trips\<close>

lemma c_str_digits:
  assumes "list_all (\<lambda>c. isdigit c \<or> c = 0x2f) s" shows "c_str s = s"
proof (rule c_str_id)
  have "\<not> isdigit 0" by (simp add: isdigit_def)
  then show "0 \<notin> set s" using assms by (auto simp: list_all_iff)
qed

lemma ToBBString_digits:
  assumes "0 \<le> d_Month d" and "0 \<le> d_Day d" and "0 \<le> d_Year d"
  shows "list_all (\<lambda>c. isdigit c \<or> c = 0x2f) (ToBBString d)"
proof -
  have m1: "0 \<le> d_Month d + 1" using assms(1) by simp
  show ?thesis
    using put_int_number(1)[OF assms(2)] put_int_number(1)[OF m1] put_int_number(1)[OF assms(3)]
    by (auto simp: ToBBString_def list_all_iff)
qed

lemma ToBBString_last:
  assumes "0 \<le> d_Month d" and "0 \<le> d_Day d" and "0 \<le> d_Year d"
  shows "last (ToBBString d) \<noteq> 0"
proof -
  have "last (ToBBString d) \<in> set (ToBBString d)" by (rule last_in_set) (simp add: ToBBString_def)
  then have "isdigit (last (ToBBString d)) \<or> last (ToBBString d) = 0x2f"
    using ToBBString_digits[OF assms] by (simp add: list_all_iff)
  then show ?thesis by (auto simp: isdigit_def)
qed

lemma ToBBString_read:
  assumes "0 \<le> d_Month d" and "0 \<le> d_Day d" and "0 \<le> d_Year d"
    and "d_Month d < 2 ^ 31 - 1" and "d_Day d < 2 ^ 31" and "d_Year d < 2 ^ 31"
  shows "FromBBString (ToBBString d) old = Inr (True, d)"
proof -
  have m1: "0 \<le> d_Month d + 1" using assms(1) by simp
  note pd = put_int_number[OF assms(2)] and pm = put_int_number[OF m1] and py = put_int_number[OF assms(3)]
  have slash: "\<not> isdigit 0x2f" by (simp add: isdigit_def)
  have cs: "c_str (ToBBString d) = ToBBString d"
    by (rule c_str_digits) (rule ToBBString_digits[OF assms(1-3)])
  have ints: "in_int (d_Day d)" "in_int (d_Month d + 1)" "in_int (d_Year d)"
    using assms by (simp_all add: in_int_def)
  have s1: "scan_d None (put_int 2 (d_Day d) @ 0x2f # rest) = Some (d_Day d, 0x2f # rest)" for rest
    using scan_digits[OF pd(1,2), of "0x2f # rest"] pd(3) slash by simp
  have s2: "scan_d None (put_int 2 (d_Month d + 1) @ 0x2f # rest) = Some (d_Month d + 1, 0x2f # rest)" for rest
    using scan_digits[OF pm(1,2), of "0x2f # rest"] pm(3) slash by simp
  have s3: "scan_d None (put_int 2 (d_Year d)) = Some (d_Year d, [])"
    using scan_digits[OF py(1,2), of "[]"] py(3) by simp
  show ?thesis
    unfolding FromBBString_def cs unfolding ToBBString_def
    using ints by (simp add: s1 s2 s3 scan_int_def scan_slash_def set_scanned_def)
qed

lemma digits_value_bounds: "list_all isdigit ds \<Longrightarrow> 0 \<le> digits_value ds \<and> digits_value ds < 10 ^ length ds"
proof (induction ds rule: rev_induct)
  case (snoc c ds)
  have "0x30 \<le> uint c" "uint c \<le> 0x39" using snoc.prems by (auto simp: isdigit_def word_le_def)
  then show ?case using snoc by (auto simp: digits_value_snoc)
qed (simp add: digits_value_def)

lemma number_field_small:
  assumes "number_field (Some w) s i rest" "w \<le> 4" shows "in_int i"
proof -
  obtain sign ds where d: "list_all isdigit ds" "length (sign @ ds) \<le> w" "i = (if sign = [0x2d] then - digits_value ds else digits_value ds)"
    using assms(1) by (auto simp: number_field_def)
  have "(10 :: int) ^ length ds \<le> 10 ^ 4" using d(2) assms(2) by (intro power_increasing) auto
  then show ?thesis using digits_value_bounds[OF d(1)] d(3) by (auto simp: in_int_def)
qed

lemma scan_int_Some: "number_field w s i rest \<Longrightarrow> in_int i \<Longrightarrow> scan_int w s f = f i rest"
  by (simp add: scan_int_def number_field_scan)

lemma scan_int_all:
  assumes "\<And>i rest. number_field w s i rest \<Longrightarrow> P (f i rest)" "P (Inr None)" "P (Inl (UB ''sscanf: number out of range''))"
  shows "P (scan_int w s f)"
  using assms by (auto simp: scan_int_def scan_d_iff split: option.split)

lemma scan_slash_all:
  assumes "\<And>cs. s = 0x2f # cs \<Longrightarrow> P (f cs)" "P (Inr None)" shows "P (scan_slash s f)"
  using assms by (auto simp: scan_slash_def split: list.split)

text \<open>A text has one reading.\<close>

lemma ymd_text_unique: "ymd_text s day month year \<Longrightarrow> ymd_text s day' month' year' \<Longrightarrow> day = day' \<and> month = month' \<and> year = year'"
  unfolding ymd_text_def scan_d_iff[symmetric] by auto

lemma FromYYYYMMDD_reads:
  "ymd_text (c_str str) day month year \<Longrightarrow> FromYYYYMMDD str old = Inr (True, \<lparr>d_Month = month - 1, d_Day = day, d_Year = year\<rparr>)"
  by (auto simp: ymd_text_def FromYYYYMMDD_def set_scanned_def scan_int_Some number_field_small)

lemma FromYYYYMMDD_fails:
  assumes "\<not> (\<exists>day month year. ymd_text (c_str str) day month year)"
  shows "FromYYYYMMDD str old = Inr (False, old)"
proof -
  have "scan_int (Some 4) (c_str str) (\<lambda>year s1. scan_int (Some 2) s1 (\<lambda>month s2.
      scan_int (Some 2) s2 (\<lambda>day s3. Inr (Some (day, month, year))))) = Inr None"
    using assms number_field_small unfolding ymd_text_def
    by (fastforce simp: scan_int_def scan_d_iff split: option.split)
  then show ?thesis by (simp add: FromYYYYMMDD_def set_scanned_def)
qed

lemma FromBBString_reads:
  "bb_text (c_str str) day month year \<Longrightarrow> in_int day \<Longrightarrow> in_int month \<Longrightarrow> in_int year
   \<Longrightarrow> FromBBString str old = Inr (True, \<lparr>d_Month = month - 1, d_Day = day, d_Year = year\<rparr>)"
  by (auto simp: bb_text_def FromBBString_def set_scanned_def scan_int_Some scan_slash_def)

lemma FromBBString_fails:
  assumes "\<not> (\<exists>day month year. bb_text (c_str str) day month year)"
  shows "FromBBString str old = Inr (False, old) \<or> FromBBString str old = Inl (UB ''sscanf: number out of range'')"
proof -
  define P :: "(int \<times> int \<times> int) option res \<Rightarrow> bool" where "P r \<longleftrightarrow> r = Inr None \<or> r = Inl (UB ''sscanf: number out of range'')" for r
  have n: "P (Inr None)" "P (Inl (UB ''sscanf: number out of range''))" by (simp_all add: P_def)
  have "P (scan_int None (c_str str) (\<lambda>day s1. scan_slash s1 (\<lambda>s2. scan_int None s2 (\<lambda>month s3. scan_slash s3 (\<lambda>s4.
      scan_int None s4 (\<lambda>year s5. Inr (Some (day, month, year))))))))"
    by (intro scan_int_all[where P = P] scan_slash_all[where P = P] n) (use assms[unfolded bb_text_def] in blast)
  then show ?thesis unfolding P_def FromBBString_def set_scanned_def by (elim disjE) (simp_all del: not_ex)
qed


definition sample_date :: date where "sample_date = \<lparr>d_Month = 11, d_Day = 7, d_Year = 1999\<rparr>"


text \<open>The order of valid dates is the order of the calendar.\<close>

lemma date_less_valid:
  assumes "0 \<le> d_Month d" "d_Month d < 12" "0 \<le> d_Day d" "d_Day d < 100" "0 \<le> d_Year d" "d_Year d < 10000"
    and "0 \<le> d_Month e" "d_Month e < 12" "0 \<le> d_Day e" "d_Day e < 100" "0 \<le> d_Year e" "d_Year e < 10000"
  shows "date_less d e \<longleftrightarrow> d_Year d < d_Year e \<or> d_Year d = d_Year e
     \<and> (d_Month d < d_Month e \<or> d_Month d = d_Month e \<and> d_Day d < d_Day e)"
  using assms by (simp add: date_less_def date_key_def) arith

end
