(* ===== verification/Contact.thy ===== *)
theory Contact imports Unknown_Fields Dates begin

text \<open>
  The Contact record class (src/src/r_contact.cc, src/src/r_contact.h): the field table with
  work and home address, names, e-mail addresses, group links and dates; parsing, building
  and the round trip, and the helpers for names and address lists. Dump, sorting and the
  field handles are left out.
\<close>

section \<open>State\<close>

record postal_address =
  Address1 :: bytes
  Address2 :: bytes
  Address3 :: bytes
  City :: bytes
  Province :: bytes
  PostalCode :: bytes
  Country :: bytes

record contact =
  ct_RecType :: byte
  ct_RecordId :: u32
  EmailAddresses :: "bytes list"
  Phone :: bytes
  Fax :: bytes
  HomeFax :: bytes
  WorkPhone :: bytes
  HomePhone :: bytes
  MobilePhone :: bytes
  MobilePhone2 :: bytes
  Pager :: bytes
  PIN :: bytes
  Radio :: bytes
  WorkPhone2 :: bytes
  HomePhone2 :: bytes
  OtherPhone :: bytes
  FirstName :: bytes
  LastName :: bytes
  Company :: bytes
  DefaultCommunicationsMethod :: bytes
  JobTitle :: bytes
  PublicKey :: bytes
  URL :: bytes
  Prefix :: bytes
  ct_Notes :: bytes
  UserDefined1 :: bytes
  UserDefined2 :: bytes
  UserDefined3 :: bytes
  UserDefined4 :: bytes
  Image :: bytes
  Nickname :: bytes
  Birthday :: date
  Anniversary :: date
  WorkAddress :: postal_address
  HomeAddress :: postal_address
  ct_Categories :: "bytes list"
  GroupLinks :: "(u32 \<times> u16) list"
  ct_Unknowns :: "unknown_field list"
  m_FirstNameSeen :: bool

definition PostalAddress_Clear :: postal_address where
  "PostalAddress_Clear = \<lparr>Address1 = [], Address2 = [], Address3 = [], City = [], Province = [], PostalCode = [], Country = []\<rparr>"

definition Contact_Clear :: contact where
  "Contact_Clear = \<lparr>ct_RecType = 0, ct_RecordId = 0, EmailAddresses = [],
     Phone = [], Fax = [], HomeFax = [], WorkPhone = [], HomePhone = [], MobilePhone = [], MobilePhone2 =
     [], Pager = [], PIN = [], Radio = [], WorkPhone2 = [], HomePhone2 = [], OtherPhone = [], FirstName =
     [], LastName = [], Company = [], DefaultCommunicationsMethod = [], JobTitle = [], PublicKey = [],
     URL = [], Prefix = [], ct_Notes = [], UserDefined1 = [], UserDefined2 = [], UserDefined3 = [],
     UserDefined4 = [], Image = [], Nickname = [],
     Birthday = Date_Clear, Anniversary = Date_Clear, WorkAddress = PostalAddress_Clear, HomeAddress = PostalAddress_Clear,
     ct_Categories = [], GroupLinks = [], ct_Unknowns = [], m_FirstNameSeen = False\<rparr>"

definition Contact_SetIds :: "byte \<Rightarrow> u32 \<Rightarrow> contact \<Rightarrow> contact" where
  "Contact_SetIds ty ident c = c\<lparr>ct_RecType := ty, ct_RecordId := ident\<rparr>"

definition CFC_EMAIL :: byte where "CFC_EMAIL = 1"
definition CFC_PHONE :: byte where "CFC_PHONE = 2"
definition CFC_FAX :: byte where "CFC_FAX = 3"
definition CFC_WORK_PHONE :: byte where "CFC_WORK_PHONE = 6"
definition CFC_HOME_PHONE :: byte where "CFC_HOME_PHONE = 7"
definition CFC_MOBILE_PHONE :: byte where "CFC_MOBILE_PHONE = 8"
definition CFC_PAGER :: byte where "CFC_PAGER = 9"
definition CFC_PIN :: byte where "CFC_PIN = 10"
definition CFC_RADIO :: byte where "CFC_RADIO = 14"
definition CFC_WORK_PHONE_2 :: byte where "CFC_WORK_PHONE_2 = 16"
definition CFC_HOME_PHONE_2 :: byte where "CFC_HOME_PHONE_2 = 17"
definition CFC_OTHER_PHONE :: byte where "CFC_OTHER_PHONE = 18"
definition CFC_MOBILE_PHONE_2 :: byte where "CFC_MOBILE_PHONE_2 = 19"
definition CFC_HOME_FAX :: byte where "CFC_HOME_FAX = 20"
definition CFC_NAME :: byte where "CFC_NAME = 32"
definition CFC_COMPANY :: byte where "CFC_COMPANY = 33"
definition CFC_DEFAULT_COMM_METHOD :: byte where "CFC_DEFAULT_COMM_METHOD = 34"
definition CFC_ADDRESS1 :: byte where "CFC_ADDRESS1 = 35"
definition CFC_ADDRESS2 :: byte where "CFC_ADDRESS2 = 36"
definition CFC_ADDRESS3 :: byte where "CFC_ADDRESS3 = 37"
definition CFC_CITY :: byte where "CFC_CITY = 38"
definition CFC_PROVINCE :: byte where "CFC_PROVINCE = 39"
definition CFC_POSTAL_CODE :: byte where "CFC_POSTAL_CODE = 40"
definition CFC_COUNTRY :: byte where "CFC_COUNTRY = 41"
definition CFC_TITLE :: byte where "CFC_TITLE = 42"
definition CFC_PUBLIC_KEY :: byte where "CFC_PUBLIC_KEY = 43"
definition CFC_GROUP_FLAG :: byte where "CFC_GROUP_FLAG = 44"
definition CFC_GROUP_LINK :: byte where "CFC_GROUP_LINK = 52"
definition CFC_URL :: byte where "CFC_URL = 54"
definition CFC_PREFIX :: byte where "CFC_PREFIX = 55"
definition CFC_CATEGORY :: byte where "CFC_CATEGORY = 59"
definition CFC_HOME_ADDRESS1 :: byte where "CFC_HOME_ADDRESS1 = 61"
definition CFC_HOME_ADDRESS2 :: byte where "CFC_HOME_ADDRESS2 = 62"
definition CFC_HOME_ADDRESS3 :: byte where "CFC_HOME_ADDRESS3 = 63"
definition CFC_NOTES :: byte where "CFC_NOTES = 64"
definition CFC_USER_DEFINED_1 :: byte where "CFC_USER_DEFINED_1 = 65"
definition CFC_USER_DEFINED_2 :: byte where "CFC_USER_DEFINED_2 = 66"
definition CFC_USER_DEFINED_3 :: byte where "CFC_USER_DEFINED_3 = 67"
definition CFC_USER_DEFINED_4 :: byte where "CFC_USER_DEFINED_4 = 68"
definition CFC_HOME_CITY :: byte where "CFC_HOME_CITY = 69"
definition CFC_HOME_PROVINCE :: byte where "CFC_HOME_PROVINCE = 70"
definition CFC_HOME_POSTAL_CODE :: byte where "CFC_HOME_POSTAL_CODE = 71"
definition CFC_HOME_COUNTRY :: byte where "CFC_HOME_COUNTRY = 72"
definition CFC_IMAGE :: byte where "CFC_IMAGE = 77"
definition CFC_BIRTHDAY :: byte where "CFC_BIRTHDAY = 82"
definition CFC_ANNIVERSARY :: byte where "CFC_ANNIVERSARY = 83"
definition CFC_UNIQUEID :: byte where "CFC_UNIQUEID = 85"
definition CFC_NICKNAME :: byte where "CFC_NICKNAME = 86"

lemmas contact_codes = CFC_EMAIL_def CFC_PHONE_def CFC_FAX_def CFC_WORK_PHONE_def CFC_HOME_PHONE_def CFC_MOBILE_PHONE_def
  CFC_PAGER_def CFC_PIN_def CFC_RADIO_def CFC_WORK_PHONE_2_def CFC_HOME_PHONE_2_def
  CFC_OTHER_PHONE_def CFC_MOBILE_PHONE_2_def CFC_HOME_FAX_def CFC_NAME_def CFC_COMPANY_def
  CFC_DEFAULT_COMM_METHOD_def CFC_ADDRESS1_def CFC_ADDRESS2_def CFC_ADDRESS3_def CFC_CITY_def
  CFC_PROVINCE_def CFC_POSTAL_CODE_def CFC_COUNTRY_def CFC_TITLE_def CFC_PUBLIC_KEY_def
  CFC_GROUP_FLAG_def CFC_GROUP_LINK_def CFC_URL_def CFC_PREFIX_def CFC_CATEGORY_def
  CFC_HOME_ADDRESS1_def CFC_HOME_ADDRESS2_def CFC_HOME_ADDRESS3_def CFC_NOTES_def
  CFC_USER_DEFINED_1_def CFC_USER_DEFINED_2_def CFC_USER_DEFINED_3_def CFC_USER_DEFINED_4_def
  CFC_HOME_CITY_def CFC_HOME_PROVINCE_def CFC_HOME_POSTAL_CODE_def CFC_HOME_COUNTRY_def CFC_IMAGE_def
  CFC_BIRTHDAY_def CFC_ANNIVERSARY_def CFC_UNIQUEID_def CFC_NICKNAME_def

definition ContactFieldLinks :: "contact field_link list" where
  "ContactFieldLinks =
     [FieldLink CFC_NICKNAME (StrMember Nickname (\<lambda>s c. c\<lparr>Nickname := s\<rparr>)) True,
      FieldLink CFC_PHONE (StrMember Phone (\<lambda>s c. c\<lparr>Phone := s\<rparr>)) True,
      FieldLink CFC_FAX (StrMember Fax (\<lambda>s c. c\<lparr>Fax := s\<rparr>)) True,
      FieldLink CFC_HOME_FAX (StrMember HomeFax (\<lambda>s c. c\<lparr>HomeFax := s\<rparr>)) True,
      FieldLink CFC_WORK_PHONE (StrMember WorkPhone (\<lambda>s c. c\<lparr>WorkPhone := s\<rparr>)) True,
      FieldLink CFC_HOME_PHONE (StrMember HomePhone (\<lambda>s c. c\<lparr>HomePhone := s\<rparr>)) True,
      FieldLink CFC_MOBILE_PHONE (StrMember MobilePhone (\<lambda>s c. c\<lparr>MobilePhone := s\<rparr>)) True,
      FieldLink CFC_MOBILE_PHONE_2 (StrMember MobilePhone2 (\<lambda>s c. c\<lparr>MobilePhone2 := s\<rparr>)) True,
      FieldLink CFC_PAGER (StrMember Pager (\<lambda>s c. c\<lparr>Pager := s\<rparr>)) True,
      FieldLink CFC_PIN (StrMember PIN (\<lambda>s c. c\<lparr>PIN := s\<rparr>)) True,
      FieldLink CFC_RADIO (StrMember Radio (\<lambda>s c. c\<lparr>Radio := s\<rparr>)) True,
      FieldLink CFC_WORK_PHONE_2 (StrMember WorkPhone2 (\<lambda>s c. c\<lparr>WorkPhone2 := s\<rparr>)) True,
      FieldLink CFC_HOME_PHONE_2 (StrMember HomePhone2 (\<lambda>s c. c\<lparr>HomePhone2 := s\<rparr>)) True,
      FieldLink CFC_OTHER_PHONE (StrMember OtherPhone (\<lambda>s c. c\<lparr>OtherPhone := s\<rparr>)) True,
      FieldLink CFC_COMPANY (StrMember Company (\<lambda>s c. c\<lparr>Company := s\<rparr>)) True,
      FieldLink CFC_DEFAULT_COMM_METHOD (StrMember DefaultCommunicationsMethod (\<lambda>s c. c\<lparr>DefaultCommunicationsMethod := s\<rparr>)) True,
      FieldLink CFC_ADDRESS1 (PostMember (\<lambda>c. Address1 (WorkAddress c)) (\<lambda>s c. c\<lparr>WorkAddress := (WorkAddress c)\<lparr>Address1 := s\<rparr>\<rparr>)) True,
      FieldLink CFC_ADDRESS2 (PostMember (\<lambda>c. Address2 (WorkAddress c)) (\<lambda>s c. c\<lparr>WorkAddress := (WorkAddress c)\<lparr>Address2 := s\<rparr>\<rparr>)) True,
      FieldLink CFC_ADDRESS3 (PostMember (\<lambda>c. Address3 (WorkAddress c)) (\<lambda>s c. c\<lparr>WorkAddress := (WorkAddress c)\<lparr>Address3 := s\<rparr>\<rparr>)) True,
      FieldLink CFC_CITY (PostMember (\<lambda>c. City (WorkAddress c)) (\<lambda>s c. c\<lparr>WorkAddress := (WorkAddress c)\<lparr>City := s\<rparr>\<rparr>)) True,
      FieldLink CFC_PROVINCE (PostMember (\<lambda>c. Province (WorkAddress c)) (\<lambda>s c. c\<lparr>WorkAddress := (WorkAddress c)\<lparr>Province := s\<rparr>\<rparr>)) True,
      FieldLink CFC_POSTAL_CODE (PostMember (\<lambda>c. PostalCode (WorkAddress c)) (\<lambda>s c. c\<lparr>WorkAddress := (WorkAddress c)\<lparr>PostalCode := s\<rparr>\<rparr>)) True,
      FieldLink CFC_COUNTRY (PostMember (\<lambda>c. Country (WorkAddress c)) (\<lambda>s c. c\<lparr>WorkAddress := (WorkAddress c)\<lparr>Country := s\<rparr>\<rparr>)) True,
      FieldLink CFC_TITLE (StrMember JobTitle (\<lambda>s c. c\<lparr>JobTitle := s\<rparr>)) True,
      FieldLink CFC_PUBLIC_KEY (StrMember PublicKey (\<lambda>s c. c\<lparr>PublicKey := s\<rparr>)) False,
      FieldLink CFC_URL (StrMember URL (\<lambda>s c. c\<lparr>URL := s\<rparr>)) True,
      FieldLink CFC_PREFIX (StrMember Prefix (\<lambda>s c. c\<lparr>Prefix := s\<rparr>)) True,
      FieldLink CFC_HOME_ADDRESS1 (PostMember (\<lambda>c. Address1 (HomeAddress c)) (\<lambda>s c. c\<lparr>HomeAddress := (HomeAddress c)\<lparr>Address1 := s\<rparr>\<rparr>)) True,
      FieldLink CFC_HOME_ADDRESS2 (PostMember (\<lambda>c. Address2 (HomeAddress c)) (\<lambda>s c. c\<lparr>HomeAddress := (HomeAddress c)\<lparr>Address2 := s\<rparr>\<rparr>)) True,
      FieldLink CFC_HOME_ADDRESS3 (PostMember (\<lambda>c. Address3 (HomeAddress c)) (\<lambda>s c. c\<lparr>HomeAddress := (HomeAddress c)\<lparr>Address3 := s\<rparr>\<rparr>)) True,
      FieldLink CFC_NOTES (StrMember ct_Notes (\<lambda>s c. c\<lparr>ct_Notes := s\<rparr>)) True,
      FieldLink CFC_USER_DEFINED_1 (StrMember UserDefined1 (\<lambda>s c. c\<lparr>UserDefined1 := s\<rparr>)) True,
      FieldLink CFC_USER_DEFINED_2 (StrMember UserDefined2 (\<lambda>s c. c\<lparr>UserDefined2 := s\<rparr>)) True,
      FieldLink CFC_USER_DEFINED_3 (StrMember UserDefined3 (\<lambda>s c. c\<lparr>UserDefined3 := s\<rparr>)) True,
      FieldLink CFC_USER_DEFINED_4 (StrMember UserDefined4 (\<lambda>s c. c\<lparr>UserDefined4 := s\<rparr>)) True,
      FieldLink CFC_HOME_CITY (PostMember (\<lambda>c. City (HomeAddress c)) (\<lambda>s c. c\<lparr>HomeAddress := (HomeAddress c)\<lparr>City := s\<rparr>\<rparr>)) True,
      FieldLink CFC_HOME_PROVINCE (PostMember (\<lambda>c. Province (HomeAddress c)) (\<lambda>s c. c\<lparr>HomeAddress := (HomeAddress c)\<lparr>Province := s\<rparr>\<rparr>)) True,
      FieldLink CFC_HOME_POSTAL_CODE (PostMember (\<lambda>c. PostalCode (HomeAddress c)) (\<lambda>s c. c\<lparr>HomeAddress := (HomeAddress c)\<lparr>PostalCode := s\<rparr>\<rparr>)) True,
      FieldLink CFC_HOME_COUNTRY (PostMember (\<lambda>c. Country (HomeAddress c)) (\<lambda>s c. c\<lparr>HomeAddress := (HomeAddress c)\<lparr>Country := s\<rparr>\<rparr>)) True,
      FieldLink CFC_IMAGE (StrMember Image (\<lambda>s c. c\<lparr>Image := s\<rparr>)) False]"

section \<open>Names\<close>

definition GetFullName :: "contact \<Rightarrow> bytes" where
  "GetFullName c = FirstName c @ (if FirstName c \<noteq> [] \<and> LastName c \<noteq> [] then [0x20] else []) @ LastName c"

definition GetEmail :: "contact \<Rightarrow> nat \<Rightarrow> bytes" where
  "GetEmail c index = (if index < length (EmailAddresses c) then EmailAddresses c ! index else [])"

text \<open>find_last_of; the last name is read as a C string, so it ends at a NUL.\<close>

definition SplitName :: "bytes \<Rightarrow> bytes \<times> bytes" where
  "SplitName full =
     (case rfind 0x20 full of
        Some pos \<Rightarrow> (take pos full, c_str (drop (pos + 1) full))
      | None \<Rightarrow> (full, []))"

definition Contact_GetDescription :: "contact \<Rightarrow> bytes" where
  "Contact_GetDescription c = (if GetFullName c = [] \<and> Company c \<noteq> [] then Company c else GetFullName c)"

definition Contact_Validate :: "contact \<Rightarrow> unit res" where
  "Contact_Validate c =
     (if GetFullName c = [] \<and> Company c = []
      then Inl (ValidationError ''A contact record must contain either a First/Last name, or a Company name.'')
      else Inr ())"

section \<open>Lists of plain e-mail addresses\<close>

fun Email2CommaString :: "bytes list \<Rightarrow> bytes" where
  "Email2CommaString [] = []"
| "Email2CommaString [e] = e"
| "Email2CommaString (e # es) = e @ [0x2c, 0x20] @ Email2CommaString es"

text \<open>The loop of \<open>iss >> ws\<close> and getline with a comma: the parts, without leading white space.\<close>

function comma_parts :: "bytes \<Rightarrow> bytes list" where
  "comma_parts s =
     (let s1 = dropWhile isspace s
      in if s1 = [] then []
         else takeWhile (\<lambda>c. c \<noteq> 0x2c) s1 # comma_parts (drop 1 (dropWhile (\<lambda>c. c \<noteq> 0x2c) s1)))"
  by auto
termination
proof (relation "measure length", simp, goal_cases)
  case (1 s s1)
  have "length (dropWhile (\<lambda>c. c \<noteq> 0x2c) s1) \<le> length s1" by (rule length_dropWhile_le)
  moreover have "length s1 \<le> length s" unfolding 1(1) by (rule length_dropWhile_le)
  moreover have "length s1 \<noteq> 0" using 1(2) by simp
  moreover have "length (drop 1 (dropWhile (\<lambda>c. c \<noteq> 0x2c) s1)) = length (dropWhile (\<lambda>c. c \<noteq> 0x2c) s1) - 1" by (rule length_drop)
  ultimately have "length (drop 1 (dropWhile (\<lambda>c. c \<noteq> 0x2c) s1)) < length s" by linarith
  then show ?case by simp
qed

declare comma_parts.simps [simp del]

definition CommaString2Email :: "bytes \<Rightarrow> bytes list" where
  "CommaString2Email s = filter (\<lambda>a. rfind 0x3e a = None \<and> a \<noteq> []) (map rtrim (comma_parts s))"

definition plain_email :: "bytes \<Rightarrow> bool" where
  "plain_email e \<longleftrightarrow> e \<noteq> [] \<and> 0x2c \<notin> set e \<and> 0x3e \<notin> set e \<and> \<not> isspace (hd e) \<and> \<not> isspace (last e)"

lemma comma_parts_last: "plain_email e \<Longrightarrow> comma_parts e = [e]"
proof -
  assume *: "plain_email e"
  have 1: "dropWhile isspace e = e" using * by (cases e) (simp_all add: plain_email_def)
  have 2: "takeWhile (\<lambda>c. c \<noteq> 0x2c) e = e" "dropWhile (\<lambda>c. c \<noteq> 0x2c) e = []"
    using * by (auto simp: plain_email_def takeWhile_eq_all_conv)
  show ?thesis
    unfolding comma_parts.simps[of e] Let_def 1 2 using * by (simp add: comma_parts.simps[of "[]"] plain_email_def)
qed

lemma comma_parts_Cons: "plain_email e \<Longrightarrow> comma_parts (e @ 0x2c # rest) = e # comma_parts rest"
proof -
  assume *: "plain_email e"
  then have "dropWhile isspace (e @ 0x2c # rest) = e @ 0x2c # rest" by (cases e) (simp_all add: plain_email_def)
  moreover have "takeWhile (\<lambda>c. c \<noteq> 0x2c) (e @ 0x2c # rest) = e" "dropWhile (\<lambda>c. c \<noteq> 0x2c) (e @ 0x2c # rest) = 0x2c # rest"
    using * by (simp_all add: plain_email_def takeWhile_tail dropWhile_append3 takeWhile_append dropWhile_append)
  ultimately show ?thesis by (simp only: comma_parts.simps[of "e @ 0x2c # rest"]) simp
qed

lemma comma_parts_space: "comma_parts (0x20 # s) = comma_parts s"
  by (simp add: comma_parts.simps[of "0x20 # s"] comma_parts.simps[of s] isspace_def)

lemma comma_parts_join: "list_all plain_email es \<Longrightarrow> comma_parts (Email2CommaString es) = es"
  by (induction es rule: Email2CommaString.induct)
     (simp_all add: comma_parts_last comma_parts_Cons comma_parts_space comma_parts.simps[of "[]"])

lemma email_list_roundtrip: "list_all plain_email es \<Longrightarrow> CommaString2Email (Email2CommaString es) = es"
proof -
  assume *: "list_all plain_email es"
  have "rtrim e = e" "rfind 0x3e e = None" if "plain_email e" for e
    using that by (cases e rule: rev_cases; simp add: plain_email_def rtrim_def rfind_None)+
  then have "map rtrim es = es" "filter (\<lambda>a. rfind 0x3e a = None \<and> a \<noteq> []) es = es"
    using * by (auto simp: list_all_iff plain_email_def intro!: map_idI filter_True)
  then show ?thesis by (simp add: CommaString2Email_def comma_parts_join[OF *])
qed

section \<open>Parsing\<close>

definition parse_name :: "converter option \<Rightarrow> contact \<Rightarrow> bytes \<Rightarrow> contact" where
  "parse_name ic c raw =
     (let s = from_bb ic (ParseFieldString raw (length raw))
      in if FirstName c \<noteq> [] \<or> m_FirstNameSeen c
         then c\<lparr>LastName := s, m_FirstNameSeen := False\<rparr>
         else c\<lparr>FirstName := s, m_FirstNameSeen := True\<rparr>)"

text \<open>The group link is read without a look at the size of the field; \<open>rest\<close> is the data behind it.\<close>

definition Contact_handle :: "converter option \<Rightarrow> bytes \<Rightarrow> contact \<Rightarrow> byte \<Rightarrow> bytes \<Rightarrow> contact res" where
  "Contact_handle ic rest c ty raw =
     (case parse_links ContactFieldLinks ic c ty raw of
        Some r \<Rightarrow> r
      | None \<Rightarrow>
          if ty = CFC_EMAIL
          then Inr (c\<lparr>EmailAddresses := EmailAddresses c @ [from_bb ic (ParseFieldString raw (length raw))]\<rparr>)
          else if ty = CFC_NAME then Inr (parse_name ic c raw)
          else if ty = CFC_GROUP_LINK
          then rbind (rd32 (raw @ rest) 0) (\<lambda>link. rbind (rd16 (raw @ rest) 4) (\<lambda>unknown.
                 Inr (c\<lparr>GroupLinks := GroupLinks c @ [(link, unknown)]\<rparr>)))
          else if ty = CFC_GROUP_FLAG then Inr c
          else if ty = CFC_CATEGORY
          then rbind (CategoryStr2List (from_bb ic (ParseFieldString raw (length raw)))) (\<lambda>cs. Inr (c\<lparr>ct_Categories := cs\<rparr>))
          else if ty = CFC_BIRTHDAY
          then rbind (FromBBString (ParseFieldString raw (length raw)) (Birthday c)) (\<lambda>(_, d). Inr (c\<lparr>Birthday := d\<rparr>))
          else if ty = CFC_ANNIVERSARY
          then rbind (FromBBString (ParseFieldString raw (length raw)) (Anniversary c)) (\<lambda>(_, d). Inr (c\<lparr>Anniversary := d\<rparr>))
          else if ty = CFC_UNIQUEID then Inr c
          else Inr (c\<lparr>ct_Unknowns := ct_Unknowns c @ [(ty, raw)]\<rparr>))"

definition Contact_ParseField :: "converter option \<Rightarrow> contact \<Rightarrow> bytes \<Rightarrow> nat \<Rightarrow> (contact \<times> nat) res" where
  "Contact_ParseField ic c bs b = ParseField_start (Contact_handle ic (drop (next_field bs b) bs)) c bs b"

definition Contact_ParseHeader :: "contact \<Rightarrow> data \<Rightarrow> nat \<Rightarrow> contact \<times> nat" where
  "Contact_ParseHeader c d offset = (c, offset)"

definition Contact_ParseFields :: "converter option \<Rightarrow> contact \<Rightarrow> data \<Rightarrow> nat \<Rightarrow> (contact \<times> nat) res option" where
  "Contact_ParseFields ic c d offset = ParseCommonFields (Contact_ParseField ic) c (contents d) offset"

section \<open>Building\<close>

definition Contact_BuildHeader :: "contact \<Rightarrow> data \<Rightarrow> nat \<Rightarrow> data \<times> nat" where
  "Contact_BuildHeader c d offset = (d, offset)"

definition Contact_BuildFields :: "converter option \<Rightarrow> contact \<Rightarrow> data \<Rightarrow> nat \<Rightarrow> (data \<times> nat) res" where
  "Contact_BuildFields ic c d offset =
     (if GetFullName c = [] \<and> Company c = [] then Inl (BadData ''Contact must have name or company name.'')
      else
     rbind (let dn = (Zap d, offset) in
            if GroupLinks c \<noteq> [] then BuildField_u8 (fst dn) (snd dn) CFC_GROUP_FLAG 0x47 else Inr dn) (\<lambda>dn1.
     rbind (if FirstName c \<noteq> [] then BuildField_string (fst dn1) (snd dn1) CFC_NAME (to_bb ic (FirstName c)) else Inr dn1) (\<lambda>dn2.
     rbind (if LastName c \<noteq> []
            then rbind (if FirstName c = [] then BuildField_string (fst dn2) (snd dn2) CFC_NAME [] else Inr dn2) (\<lambda>dn.
                   BuildField_string (fst dn) (snd dn) CFC_NAME (to_bb ic (LastName c)))
            else Inr dn2) (\<lambda>dn3.
     rbind (BuildField_u32 (fst dn3) (snd dn3) CFC_UNIQUEID (ct_RecordId c)) (\<lambda>dn4.
     rbind (rfold (\<lambda>dn e. if e \<noteq> [] then BuildField_string (fst dn) (snd dn) CFC_EMAIL (to_bb ic e) else Inr dn) dn4 (EmailAddresses c)) (\<lambda>dn5.
     rbind (build_links ContactFieldLinks ic c dn5) (\<lambda>dn6.
     rbind (rfold (\<lambda>dn l. BuildField_link (fst dn) (snd dn) CFC_GROUP_LINK l) dn6 (GroupLinks c)) (\<lambda>dn7.
     rbind (if ct_Categories c \<noteq> []
            then BuildField_string (fst dn7) (snd dn7) CFC_CATEGORY (to_bb ic (CategoryList2Str (ct_Categories c)))
            else Inr dn7) (\<lambda>dn8.
     rbind (if Date_HasData (Birthday c) then BuildField_string (fst dn8) (snd dn8) CFC_BIRTHDAY (ToBBString (Birthday c)) else Inr dn8) (\<lambda>dn9.
     rbind (if Date_HasData (Anniversary c) then BuildField_string (fst dn9) (snd dn9) CFC_ANNIVERSARY (ToBBString (Anniversary c)) else Inr dn9) (\<lambda>dn10.
     rbind (rfold (\<lambda>dn uf. BuildField_unknown (fst dn) (snd dn) uf) dn10 (ct_Unknowns c)) (\<lambda>dn11.
     rbind (ReleaseBuffer (fst dn11) (int (snd dn11))) (\<lambda>d'. Inr (d', snd dn11))))))))))))))"

section \<open>The fields of a contact\<close>

definition name_fields :: "converter option \<Rightarrow> contact \<Rightarrow> (byte \<times> bytes) list" where
  "name_fields ic c =
     (if FirstName c \<noteq> [] then [(CFC_NAME, to_bb ic (FirstName c) @ [0])] else [])
     @ (if LastName c \<noteq> []
        then (if FirstName c = [] then [(CFC_NAME, [0])] else []) @ [(CFC_NAME, to_bb ic (LastName c) @ [0])] else [])"

definition date_field :: "byte \<Rightarrow> date \<Rightarrow> (byte \<times> bytes) list" where
  "date_field ty d = (if Date_HasData d then [(ty, ToBBString d @ [0])] else [])"

definition contact_fields :: "converter option \<Rightarrow> contact \<Rightarrow> (byte \<times> bytes) list" where
  "contact_fields ic c =
     (if GroupLinks c \<noteq> [] then [(CFC_GROUP_FLAG, [0x47])] else [])
     @ name_fields ic c
     @ [(CFC_UNIQUEID, le32 (ct_RecordId c))]
     @ map (\<lambda>e. (CFC_EMAIL, to_bb ic e @ [0])) (filter (\<lambda>e. e \<noteq> []) (EmailAddresses c))
     @ concat (map (link_fields ic c) ContactFieldLinks)
     @ map (\<lambda>l. (CFC_GROUP_LINK, le32 (fst l) @ le16 (snd l))) (GroupLinks c)
     @ (if ct_Categories c \<noteq> [] then [(CFC_CATEGORY, to_bb ic (CategoryList2Str (ct_Categories c)) @ [0])] else [])
     @ date_field CFC_BIRTHDAY (Birthday c)
     @ date_field CFC_ANNIVERSARY (Anniversary c)
     @ ct_Unknowns c"

lemma concat_filter: "concat (map (\<lambda>x. if P x then [g x] else []) xs) = map g (filter P xs)"
  by (induction xs) simp_all

lemma concat_singles: "concat (map (\<lambda>x. [g x]) xs) = map g xs"
  by (induction xs) simp_all

lemma Contact_BuildFields_eq:
  assumes "GetFullName c \<noteq> [] \<or> Company c \<noteq> []"
  shows "Contact_BuildFields ic c d offset = build_record d offset (contact_fields ic c)"
proof -
  have ok: "(GetFullName c = [] \<and> Company c = []) = False" using assms by blast
  show ?thesis
    unfolding Contact_BuildFields_def contact_fields_def name_fields_def date_field_def ok if_False Let_def
      build_field_simps(1-7) store_one store_fields_append[symmetric]
    unfolding store_if store_fields_append[symmetric] store_each concat_filter concat_singles
    unfolding store_if store_fields_append[symmetric]
    unfolding store_simps rbind_assoc append_Nil ..
qed

section \<open>Round trip\<close>

definition contact_known :: "byte list" where
  "contact_known = map link_type ContactFieldLinks
     @ [CFC_EMAIL, CFC_NAME, CFC_GROUP_LINK, CFC_GROUP_FLAG, CFC_CATEGORY, CFC_BIRTHDAY, CFC_ANNIVERSARY, CFC_UNIQUEID]"

definition date_ok :: "date \<Rightarrow> bool" where
  "date_ok d \<longleftrightarrow> 0 \<le> d_Month d \<and> 0 \<le> d_Day d \<and> 0 \<le> d_Year d
     \<and> d_Month d < 2 ^ 31 - 1 \<and> d_Day d < 2 ^ 31 \<and> d_Year d < 2 ^ 31"

definition contact_ok :: "converter option \<Rightarrow> contact \<Rightarrow> bool" where
  "contact_ok ic c \<longleftrightarrow> (GetFullName c \<noteq> [] \<or> Company c \<noteq> [])
     \<and> text_ok ic (FirstName c) \<and> text_ok ic (LastName c)
     \<and> list_all (text_ok ic) (EmailAddresses c)
     \<and> list_all (\<lambda>l. text_ok (link_ic ic l) (link_get l c)) ContactFieldLinks
     \<and> text_ok ic (CategoryList2Str (ct_Categories c)) \<and> list_all category_ok (ct_Categories c)
     \<and> date_ok (Birthday c) \<and> date_ok (Anniversary c) \<and> from_bb ic [] = []
     \<and> unknowns_ok contact_known (ct_Unknowns c)"

text \<open>Empty e-mail addresses are dropped, and the parser remembers a first name without a last name.\<close>

definition contact_stored :: "contact \<Rightarrow> contact" where
  "contact_stored c = c\<lparr>EmailAddresses := filter (\<lambda>e. e \<noteq> []) (EmailAddresses c),
     m_FirstNameSeen := (FirstName c \<noteq> [] \<and> LastName c = [])\<rparr>"

definition Contact_fresh :: "contact \<Rightarrow> contact" where
  "Contact_fresh c = Contact_SetIds (ct_RecType c) (ct_RecordId c) Contact_Clear"

lemma contact_links_distinct: "distinct (map link_type ContactFieldLinks)"
  by (simp add: ContactFieldLinks_def contact_codes)

lemma contact_links_text: "list_all is_text ContactFieldLinks"
  by (simp add: ContactFieldLinks_def is_text_def)

lemma contact_special_codes:
  "ty \<in> {CFC_EMAIL, CFC_NAME, CFC_GROUP_LINK, CFC_GROUP_FLAG, CFC_CATEGORY, CFC_BIRTHDAY, CFC_ANNIVERSARY, CFC_UNIQUEID}
     \<Longrightarrow> parse_links ContactFieldLinks ic r ty raw = None"
  by (rule parse_links_other) (auto simp: ContactFieldLinks_def contact_codes)

lemma Contact_handle_link:
  assumes "l \<in> set ContactFieldLinks" and "text_ok (link_ic ic l) s"
  shows "Contact_handle ic rest r (link_type l) (to_bb (link_ic ic l) s @ [0]) = Inr (link_put l s r)"
proof -
  have "is_text l" using contact_links_text assms(1) by (simp add: list_all_iff)
  then show ?thesis
    using parse_links_text[OF contact_links_distinct assms(1)] ParseFieldString_text[OF assms(2)]
    by (simp add: Contact_handle_def)
qed

lemma Contact_handle_text:
  assumes "text_ok ic s"
  shows "Contact_handle ic rest r CFC_EMAIL (to_bb ic s @ [0]) = Inr (r\<lparr>EmailAddresses := EmailAddresses r @ [s]\<rparr>)"
    "Contact_handle ic rest r CFC_NAME (to_bb ic s @ [0]) =
       Inr (if FirstName r \<noteq> [] \<or> m_FirstNameSeen r then r\<lparr>LastName := s, m_FirstNameSeen := False\<rparr>
            else r\<lparr>FirstName := s, m_FirstNameSeen := True\<rparr>)"
  using ParseFieldString_text[OF assms] contact_special_codes
  by (simp_all add: Contact_handle_def parse_name_def Let_def contact_codes)

lemma Contact_handle_flags:
  "Contact_handle ic rest r CFC_GROUP_FLAG [0x47] = Inr r"
  "Contact_handle ic rest r CFC_UNIQUEID (le32 i) = Inr r"
  "Contact_handle ic rest r CFC_GROUP_LINK (le32 k @ le16 v) = Inr (r\<lparr>GroupLinks := GroupLinks r @ [(k, v)]\<rparr>)"
  using contact_special_codes
  by (simp_all add: Contact_handle_def contact_codes rd32_def rd16_def)

lemma Contact_handle_blank_name:
  assumes "FirstName r = []" and "\<not> m_FirstNameSeen r"
  shows "Contact_handle ic rest r CFC_NAME [0] = Inr (r\<lparr>FirstName := from_bb ic [], m_FirstNameSeen := True\<rparr>)"
  using assms contact_special_codes
  by (simp add: Contact_handle_def parse_name_def Let_def contact_codes ParseFieldString_def)

lemma Contact_handle_categories:
  assumes "text_ok ic (CategoryList2Str cs)" and "list_all category_ok cs"
  shows "Contact_handle ic rest r CFC_CATEGORY (to_bb ic (CategoryList2Str cs) @ [0]) = Inr (r\<lparr>ct_Categories := cs\<rparr>)"
  using ParseFieldString_text[OF assms(1)] assms(2) contact_special_codes
  by (simp add: Contact_handle_def contact_codes categories_survive)

lemma Contact_handle_date:
  assumes "date_ok d"
  shows "Contact_handle ic rest r CFC_BIRTHDAY (ToBBString d @ [0]) = Inr (r\<lparr>Birthday := d\<rparr>)"
    "Contact_handle ic rest r CFC_ANNIVERSARY (ToBBString d @ [0]) = Inr (r\<lparr>Anniversary := d\<rparr>)"
proof -
  have "ParseFieldString (ToBBString d @ [0]) (length (ToBBString d @ [0])) = ToBBString d"
    by (rule ParseFieldString_nul) (use ToBBString_last[of d] assms in \<open>simp add: date_ok_def\<close>)
  then show "Contact_handle ic rest r CFC_BIRTHDAY (ToBBString d @ [0]) = Inr (r\<lparr>Birthday := d\<rparr>)"
      "Contact_handle ic rest r CFC_ANNIVERSARY (ToBBString d @ [0]) = Inr (r\<lparr>Anniversary := d\<rparr>)"
    using contact_special_codes ToBBString_read[of d] assms
    by (simp_all add: Contact_handle_def contact_codes date_ok_def)
qed

lemma Contact_handle_unknown:
  assumes "ty \<notin> set contact_known"
  shows "Contact_handle ic rest r ty raw = Inr (r\<lparr>ct_Unknowns := ct_Unknowns r @ [(ty, raw)]\<rparr>)"
proof -
  have "ty \<notin> link_type ` set ContactFieldLinks" using assms by (simp add: contact_known_def)
  then show ?thesis using assms by (simp add: Contact_handle_def parse_links_other contact_known_def)
qed


text \<open>The strings of the table, put into a record in which they are all empty.\<close>

definition before_links :: "byte \<Rightarrow> u32 \<Rightarrow> bytes list \<Rightarrow> bytes \<Rightarrow> bytes \<Rightarrow> bool \<Rightarrow> contact" where
  "before_links ty i es f g z =
     Contact_Clear\<lparr>ct_RecType := ty, ct_RecordId := i, EmailAddresses := es, FirstName := f, LastName := g, m_FirstNameSeen := z\<rparr>"

definition after_links :: "contact \<Rightarrow> bytes list \<Rightarrow> bool \<Rightarrow> contact" where
  "after_links c es z = c\<lparr>EmailAddresses := es, m_FirstNameSeen := z, Birthday := Date_Clear, Anniversary := Date_Clear,
     ct_Categories := [], GroupLinks := [], ct_Unknowns := []\<rparr>"

lemma contact_links_clear: "links_clear c ContactFieldLinks (before_links ty i es f g z)"
  by (simp add: ContactFieldLinks_def before_links_def Contact_Clear_def PostalAddress_Clear_def link_get_def link_put_def)

lemma contact_links_fold:
  "fold (\<lambda>l. link_put l (link_get l c)) ContactFieldLinks (before_links (ct_RecType c) (ct_RecordId c) es (FirstName c) (LastName c) z)
     = after_links c es z"
  by (simp add: ContactFieldLinks_def before_links_def after_links_def Contact_Clear_def PostalAddress_Clear_def link_get_def link_put_def)


lemma Contact_read_unknowns:
  "list_all (\<lambda>uf. fst uf \<notin> set contact_known) ufs \<Longrightarrow>
     rfold (\<lambda>r f. Contact_handle ic [] r (fst f) (snd f)) r ufs = Inr (r\<lparr>ct_Unknowns := ct_Unknowns r @ ufs\<rparr>)"
  by (induction ufs arbitrary: r) (simp_all add: Contact_handle_unknown)

lemma Contact_read_emails:
  "list_all (text_ok ic) es \<Longrightarrow>
     rfold (\<lambda>r f. Contact_handle ic [] r (fst f) (snd f)) r (map (\<lambda>e. (CFC_EMAIL, to_bb ic e @ [0])) es)
     = Inr (r\<lparr>EmailAddresses := EmailAddresses r @ es\<rparr>)"
  by (induction es arbitrary: r) (simp_all add: Contact_handle_text)

lemma Contact_read_group_links:
  "rfold (\<lambda>r f. Contact_handle ic [] r (fst f) (snd f)) r (map (\<lambda>l. (CFC_GROUP_LINK, le32 (fst l) @ le16 (snd l))) gs)
     = Inr (r\<lparr>GroupLinks := GroupLinks r @ gs\<rparr>)"
  by (induction gs arbitrary: r) (simp_all add: Contact_handle_flags)

lemma Contact_read_names:
  assumes "text_ok ic (FirstName c)" and "text_ok ic (LastName c)" and "from_bb ic [] = []"
  shows "rfold (\<lambda>r f. Contact_handle ic [] r (fst f) (snd f)) (before_links ty i es [] [] False) (name_fields ic c)
     = Inr (before_links ty i es (FirstName c) (LastName c) (FirstName c \<noteq> [] \<and> LastName c = []))"
  using assms
  by (simp add: name_fields_def Contact_handle_text Contact_handle_blank_name)
     (simp add: before_links_def Contact_Clear_def)

lemma Contact_read_links:
  assumes "list_all (\<lambda>l. text_ok (link_ic ic l) (link_get l c)) ContactFieldLinks"
  shows "rfold (\<lambda>r f. Contact_handle ic [] r (fst f) (snd f))
       (before_links (ct_RecType c) (ct_RecordId c) es (FirstName c) (LastName c) z) (concat (map (link_fields ic c) ContactFieldLinks))
     = Inr (after_links c es z)"
  unfolding contact_links_fold[symmetric]
  by (rule rfold_text_links[OF _ contact_links_text assms contact_links_clear]) (simp add: Contact_handle_link)

lemma Contact_read_dates:
  assumes "date_ok (Birthday c)" and "date_ok (Anniversary c)" and "Birthday r = Date_Clear" and "Anniversary r = Date_Clear"
  shows "rfold (\<lambda>r f. Contact_handle ic [] r (fst f) (snd f)) r
       (date_field CFC_BIRTHDAY (Birthday c) @ date_field CFC_ANNIVERSARY (Anniversary c))
     = Inr (r\<lparr>Birthday := Birthday c, Anniversary := Anniversary c\<rparr>)"
proof -
  have none: "d = Date_Clear" if "\<not> Date_HasData d" "date_ok d" for d
    using that by (cases d) (auto simp: Date_HasData_def date_ok_def Date_Clear_def)
  have b: "rfold (\<lambda>r f. Contact_handle ic [] r (fst f) (snd f)) r (date_field CFC_BIRTHDAY (Birthday c)) = Inr (r\<lparr>Birthday := Birthday c\<rparr>)"
    using assms(1,3) none[of "Birthday c"] by (auto simp: date_field_def Contact_handle_date)
  have "rfold (\<lambda>r f. Contact_handle ic [] r (fst f) (snd f)) (r\<lparr>Birthday := Birthday c\<rparr>) (date_field CFC_ANNIVERSARY (Anniversary c))
      = Inr (r\<lparr>Birthday := Birthday c, Anniversary := Anniversary c\<rparr>)"
    using assms(2,4) none[of "Anniversary c"] by (auto simp: date_field_def Contact_handle_date)
  then show ?thesis by (simp add: rfold_append b)
qed


lemma ToBBString_proper:
  assumes "date_ok d"
  shows "proper_field (ty, ToBBString d @ [0])"
proof -
  have len: "length (put_int 2 i) \<le> 10" if "0 \<le> i" "i < 2 ^ 31" for i
    using show_int_length[of i 10] that by (simp add: put_int_def)
  have "length (put_int 2 (d_Day d)) \<le> 10" "length (put_int 2 (d_Month d + 1)) \<le> 10" "length (put_int 2 (d_Year d)) \<le> 10"
    using assms by (auto intro!: len simp: date_ok_def)
  then have "length (ToBBString d) \<le> 32" by (simp add: ToBBString_def)
  then show ?thesis by (simp add: proper_field_def)
qed

lemma contact_fields_proper:
  assumes "contact_ok ic c"
  shows "list_all proper_field (contact_fields ic c)"
proof -
  note o = assms[unfolded contact_ok_def]
  have links: "list_all proper_field (concat (map (link_fields ic c) ContactFieldLinks))"
  proof -
    have "list_all proper_field (link_fields ic c l)" if "l \<in> set ContactFieldLinks" for l
    proof -
      have "is_text l" "text_ok (link_ic ic l) (link_get l c)" using that o contact_links_text by (auto simp: list_all_iff)
      then show ?thesis by (simp add: link_fields_text proper_str_field)
    qed
    then show ?thesis by (simp add: list_all_iff)
  qed
  have emails: "list_all proper_field (map (\<lambda>e. (CFC_EMAIL, to_bb ic e @ [0])) (filter (\<lambda>e. e \<noteq> []) (EmailAddresses c)))"
    using o by (simp add: list_all_iff proper_text)
  have groups: "list_all proper_field (map (\<lambda>l. (CFC_GROUP_LINK, le32 (fst l) @ le16 (snd l))) (GroupLinks c))"
    by (simp add: list_all_iff proper_field_def le32_def le16_def)
  have blank: "proper_field (ty, [0])" for ty by (simp add: proper_field_def)
  show ?thesis
    using o links emails groups
    by (simp add: contact_fields_def name_fields_def date_field_def proper_simps proper_unknowns[of contact_known] ToBBString_proper blank)
qed

lemma Contact_reads:
  assumes ok: "contact_ok ic c"
  shows "rfold (\<lambda>r f. Contact_handle ic [] r (fst f) (snd f)) (Contact_fresh c) (contact_fields ic c) = Inr (contact_stored c)"
proof -
  let ?h = "\<lambda>r f. Contact_handle ic [] r (fst f) (snd f)"
  define z where "z = (FirstName c \<noteq> [] \<and> LastName c = [])"
  define es where "es = filter (\<lambda>e. e \<noteq> []) (EmailAddresses c)"
  note o = ok[unfolded contact_ok_def]
  have eok: "list_all (text_ok ic) es" using o by (simp add: es_def list_all_iff)
  have uok: "list_all (\<lambda>uf. fst uf \<notin> set contact_known) (ct_Unknowns c)"
    using o by (auto simp: unknowns_ok_def list_all_iff)
  let ?b = "before_links (ct_RecType c) (ct_RecordId c)"
  define cats where "cats = (if ct_Categories c \<noteq> [] then [(CFC_CATEGORY, to_bb ic (CategoryList2Str (ct_Categories c)) @ [0])] else [])"
  have fresh: "Contact_fresh c = ?b [] [] [] False"
    by (simp add: Contact_fresh_def Contact_SetIds_def before_links_def Contact_Clear_def)
  have s1: "rfold ?h (?b [] [] [] False) (if GroupLinks c \<noteq> [] then [(CFC_GROUP_FLAG, [0x47])] else []) = Inr (?b [] [] [] False)"
    by (simp add: Contact_handle_flags)
  have s2: "rfold ?h (?b [] [] [] False) (name_fields ic c) = Inr (?b [] (FirstName c) (LastName c) z)"
    unfolding z_def using o by (intro Contact_read_names) auto
  have s3: "rfold ?h (?b [] (FirstName c) (LastName c) z) [(CFC_UNIQUEID, le32 (ct_RecordId c))] = Inr (?b [] (FirstName c) (LastName c) z)"
    by (simp add: Contact_handle_flags)
  have s4: "rfold ?h (?b [] (FirstName c) (LastName c) z) (map (\<lambda>e. (CFC_EMAIL, to_bb ic e @ [0])) es)
      = Inr (?b es (FirstName c) (LastName c) z)"
    unfolding Contact_read_emails[OF eok] by (simp add: before_links_def Contact_Clear_def)
  have s5: "rfold ?h (?b es (FirstName c) (LastName c) z) (concat (map (link_fields ic c) ContactFieldLinks)) = Inr (after_links c es z)"
    using o by (intro Contact_read_links) auto
  define r6 where "r6 = (after_links c es z)\<lparr>GroupLinks := GroupLinks c\<rparr>"
  have s6: "rfold ?h (after_links c es z) (map (\<lambda>l. (CFC_GROUP_LINK, le32 (fst l) @ le16 (snd l))) (GroupLinks c)) = Inr r6"
    unfolding Contact_read_group_links r6_def by (simp add: after_links_def)
  define r7 where "r7 = r6\<lparr>ct_Categories := ct_Categories c\<rparr>"
  have s7: "rfold ?h r6 cats = Inr r7"
    using o by (simp add: cats_def Contact_handle_categories r7_def r6_def after_links_def)
  define r8 where "r8 = r7\<lparr>Birthday := Birthday c, Anniversary := Anniversary c\<rparr>"
  have s8: "rfold ?h r7 (date_field CFC_BIRTHDAY (Birthday c) @ date_field CFC_ANNIVERSARY (Anniversary c)) = Inr r8"
    unfolding r8_def using o by (intro Contact_read_dates) (auto simp: r7_def r6_def after_links_def)
  have split: "contact_fields ic c = (if GroupLinks c \<noteq> [] then [(CFC_GROUP_FLAG, [0x47])] else [])
     @ name_fields ic c @ [(CFC_UNIQUEID, le32 (ct_RecordId c))] @ map (\<lambda>e. (CFC_EMAIL, to_bb ic e @ [0])) es
     @ concat (map (link_fields ic c) ContactFieldLinks) @ map (\<lambda>l. (CFC_GROUP_LINK, le32 (fst l) @ le16 (snd l))) (GroupLinks c)
     @ cats @ (date_field CFC_BIRTHDAY (Birthday c) @ date_field CFC_ANNIVERSARY (Anniversary c)) @ ct_Unknowns c"
    by (simp add: contact_fields_def cats_def es_def)
  have "rfold ?h (Contact_fresh c) (contact_fields ic c) = Inr (r8\<lparr>ct_Unknowns := ct_Unknowns r8 @ ct_Unknowns c\<rparr>)"
    unfolding fresh split
    by (simp only: rfold_append s1 s2 s3 s4 s5 s6 s7 s8[unfolded rfold_append] s8 rbind_simps Contact_read_unknowns[OF uok])
  also have "\<dots> = Inr (contact_stored c)"
    unfolding r8_def r7_def r6_def after_links_def contact_stored_def es_def z_def
    by (rule arg_cong[of _ _ Inr], rule contact.equality) simp_all
  finally show ?thesis .
qed


text \<open>A group link field of a contact, also one kept as unknown, has all of its six bytes.\<close>

lemma group_link_fields:
  assumes ok: "contact_ok ic c" and f: "f \<in> set (contact_fields ic c)" and ty: "fst f = CFC_GROUP_LINK"
  shows "\<exists>k v. f = (CFC_GROUP_LINK, le32 k @ le16 v)"
proof -
  have "\<forall>l \<in> set ContactFieldLinks. link_type l \<noteq> CFC_GROUP_LINK" by (simp add: ContactFieldLinks_def contact_codes)
  then have links: "f \<notin> set (concat (map (link_fields ic c) ContactFieldLinks))"
    using ty contact_links_text by (auto simp: list_all_iff link_fields_text str_field_def split: if_splits)
  have unknown: "f \<notin> set (ct_Unknowns c)"
    using ok ty by (auto simp: contact_ok_def unknowns_ok_def contact_known_def list_all_iff)
  have "f \<in> set (map (\<lambda>l. (CFC_GROUP_LINK, le32 (fst l) @ le16 (snd l))) (GroupLinks c))"
    using f ty links unknown
    by (auto simp: contact_fields_def name_fields_def date_field_def contact_codes split: if_splits)
  then show ?thesis by auto
qed

definition contact_takes :: "byte \<Rightarrow> bytes \<Rightarrow> bool" where
  "contact_takes ty raw \<longleftrightarrow> links_take ContactFieldLinks ty raw
     \<or> ty \<in> {CFC_EMAIL, CFC_NAME, CFC_GROUP_LINK, CFC_GROUP_FLAG, CFC_CATEGORY, CFC_BIRTHDAY, CFC_ANNIVERSARY, CFC_UNIQUEID}"

interpretation contact_unknowns: unknown_keeper "Contact_ParseField ic" "Contact_handle ic" ct_Unknowns "\<lambda>_. contact_takes" for ic
proof unfold_locales
  fix raw post and ty and r r' :: contact
  assume h: "Contact_handle ic post r ty raw = Inr r'"
  have k: "list_all (link_keeps ct_Unknowns) ContactFieldLinks" by (simp add: ContactFieldLinks_def link_keeps_def)
  show "ct_Unknowns r' = ct_Unknowns r @ (if contact_takes ty raw then [] else [(ty, raw)])"
    unfolding contact_takes_def
    by (rule links_first[OF k h[unfolded Contact_handle_def]]) (auto simp: parse_name_def Let_def rbind_eq_Inr split: if_splits)
qed (simp_all add: Contact_ParseField_def)

interpretation contact_codec: record_codec "Contact_ParseField ic" "Contact_handle ic" "Contact_BuildFields ic"
  "contact_fields ic" "contact_ok ic" Contact_fresh contact_stored for ic
proof unfold_locales
  fix m d offset assume "contact_ok ic m"
  then show "Contact_BuildFields ic m d offset = build_record d offset (contact_fields ic m)"
    by (simp add: Contact_BuildFields_eq contact_ok_def)
next
  fix m assume ok: "contact_ok ic m"
  show "list_all (\<lambda>f. length (snd f) < 65536) (contact_fields ic m)" by (rule proper_sizes[OF contact_fields_proper[OF ok]])
next
  fix m assume ok: "contact_ok ic m" and ne: "contact_fields ic m \<noteq> []"
  show "snd (last (contact_fields ic m)) \<noteq> []" by (rule proper_last[OF contact_fields_proper[OF ok] ne])
next
  fix m assume ok: "contact_ok ic m"
  have "self_contained (Contact_handle ic) f" if f: "f \<in> set (contact_fields ic m)" for f
  proof -
    have "length (snd f) < 65536" using contact_fields_proper[OF ok] f by (auto simp: list_all_iff proper_field_def)
    moreover have "Contact_handle ic post r (fst f) (snd f) = Contact_handle ic [] r (fst f) (snd f)" for post r
    proof (cases "fst f = CFC_GROUP_LINK")
      case True
      then obtain k v where "f = (CFC_GROUP_LINK, le32 k @ le16 v)" using f group_link_fields[OF ok] by blast
      then show ?thesis by (simp add: Contact_handle_flags)
    next
      case False
      then show ?thesis unfolding Contact_handle_def by (simp only: if_False)
    qed
    ultimately show ?thesis by (auto simp: self_contained_def)
  qed
  then show "parse_list (Contact_handle ic) (Contact_fresh m) (contact_fields ic m) = Inr (contact_stored m)"
    using proper_filter[OF contact_fields_proper[OF ok]] Contact_reads[OF ok] by (simp add: parse_list_contained)
qed

text \<open>
  C26: A contact with a name or a company, built behind a header of any length and parsed
  again, is the same contact: names, all strings of the field table, both addresses, group
  links, categories, dates and unknown fields. Empty e-mail addresses are dropped, and the
  parser's note of a first name without a last name is set.
  The buffer has to have room for the whole record before the first field is built (has_room);
  what happens otherwise is shown for memos.
\<close>

theorem Contact_roundtrip:
  assumes "contact_ok ic c" and "has_room d (offset + length (encode_fields (contact_fields ic c)))"
  shows "\<exists>d' n. Contact_BuildFields ic c d offset = Inr (d', n) \<and> n = length (contents d')
     \<and> Contact_ParseFields ic (Contact_fresh c) d' offset
       = Some (Inr (c\<lparr>EmailAddresses := filter (\<lambda>e. e \<noteq> []) (EmailAddresses c),
            m_FirstNameSeen := (FirstName c \<noteq> [] \<and> LastName c = [])\<rparr>, n))"
  using contact_codec.roundtrip[OF assms] by (simp add: Contact_ParseFields_def contact_stored_def)

definition sample_contact :: contact where
  "sample_contact = Contact_Clear\<lparr>ct_RecordId := 7, EmailAddresses := [[0x61], [], [0x62]], Phone := [0x31],
     LastName := [0x4c, 0x4d], Birthday := \<lparr>d_Month = 6, d_Day = 31, d_Year = 1988\<rparr>,
     HomeAddress := PostalAddress_Clear\<lparr>City := [0x57]\<rparr>, ct_Categories := [[0x58]], GroupLinks := [(5, 1)]\<rparr>"

lemma Contact_roundtrip_witness:
  "\<exists>d' n. Contact_BuildFields None sample_contact Data_default 10 = Inr (d', n)
     \<and> Contact_ParseFields None (Contact_fresh sample_contact) d' 10
       = Some (Inr (sample_contact\<lparr>EmailAddresses := [[0x61], [0x62]]\<rparr>, n))"
proof -
  have ok: "contact_ok None sample_contact"
    by (simp add: contact_ok_def sample_contact_def Contact_Clear_def PostalAddress_Clear_def GetFullName_def text_ok_def from_bb_def to_bb_def
        ContactFieldLinks_def link_ic_def link_get_def category_ok_def CategoryList2Str_def unknowns_ok_def date_ok_def Date_Clear_def)
  have room: "has_room Data_default (10 + length (encode_fields (contact_fields None sample_contact)))"
    by (simp add: has_room_def Data_default_def Data_new_def BARRY_DATA_DEFAULT_SIZE_def BARRY_DATA_DEFAULT_PREPEND_SIZE_def
        encode_fields_def contact_fields_def name_fields_def date_field_def link_fields_def str_field_def ContactFieldLinks_def
        sample_contact_def Contact_Clear_def PostalAddress_Clear_def Date_Clear_def Date_HasData_def ToBBString_def put_int_def show_int_def
        dec_digits.simps to_bb_def common_field_def CategoryList2Str_def)
  have "sample_contact\<lparr>EmailAddresses := filter (\<lambda>e. e \<noteq> []) (EmailAddresses sample_contact),
        m_FirstNameSeen := (FirstName sample_contact \<noteq> [] \<and> LastName sample_contact = [])\<rparr>
      = sample_contact\<lparr>EmailAddresses := [[0x61], [0x62]]\<rparr>"
    by (simp add: sample_contact_def Contact_Clear_def)
  then show ?thesis using Contact_roundtrip[OF ok room] by auto
qed

end
