(* ===== verification/Content_Store.thy ===== *)
theory Content_Store imports Unknown_Fields begin

text \<open>
  The Content Store record class (src/src/r_cstore.cc, src/src/r_cstore.h): files and
  folders. The content of a file is stored as its 64 bit size followed by blocks of at
  most 0xfffe bytes, all in fields of the same type. Dump and sorting are left out.
\<close>

section \<open>State\<close>

record content_store =
  cs_RecType :: byte
  cs_RecordId :: u32
  Filename :: bytes
  FolderFlag :: bool
  FileContent :: bytes
  FileDescriptor :: bytes
  cs_Unknowns :: "unknown_field list"
  FileSize :: u64

definition CSFC_FILENAME :: byte where "CSFC_FILENAME = 0x01"
definition CSFC_FOLDER_FLAG :: byte where "CSFC_FOLDER_FLAG = 0x05"
definition CSFC_FILE_DESCRIPTOR :: byte where "CSFC_FILE_DESCRIPTOR = 0x06"
definition CSFC_FILE_CONTENT :: byte where "CSFC_FILE_CONTENT = 0x07"
definition MAX_CONTENT_BLOCK_SIZE :: nat where "MAX_CONTENT_BLOCK_SIZE = 0xfffe"

lemmas content_codes = CSFC_FILENAME_def CSFC_FOLDER_FLAG_def CSFC_FILE_DESCRIPTOR_def CSFC_FILE_CONTENT_def

definition ContentStore_Clear :: content_store where
  "ContentStore_Clear = \<lparr>cs_RecType = 0, cs_RecordId = 0, Filename = [], FolderFlag = False, FileContent = [],
     FileDescriptor = [], cs_Unknowns = [], FileSize = 0\<rparr>"

definition ContentStore_SetIds :: "byte \<Rightarrow> u32 \<Rightarrow> content_store \<Rightarrow> content_store" where
  "ContentStore_SetIds ty ident c = c\<lparr>cs_RecType := ty, cs_RecordId := ident\<rparr>"

section \<open>Parsing\<close>

text \<open>
  The first content field, as long as the size is 0, is read as 64 bits without a look at
  its size. The strings are not converted.
\<close>

definition ContentStore_handle :: "bytes \<Rightarrow> content_store \<Rightarrow> byte \<Rightarrow> bytes \<Rightarrow> content_store res" where
  "ContentStore_handle rest c ty raw =
     (if ty = CSFC_FILENAME then Inr (c\<lparr>Filename := ParseFieldString raw (length raw)\<rparr>)
      else if ty = CSFC_FOLDER_FLAG
      then Inr (c\<lparr>FolderFlag := (ParseFieldString raw (length raw) = lit ''folder'')\<rparr>)
      else if ty = CSFC_FILE_CONTENT
      then (if FileSize c \<noteq> 0 then Inr (c\<lparr>FileContent := FileContent c @ raw\<rparr>)
            else if length (raw @ rest) < 8 then Inl (UB ''read past the end of the data'')
            else Inr (c\<lparr>FileSize := get64 (raw @ rest) 0\<rparr>))
      else if ty = CSFC_FILE_DESCRIPTOR then Inr (c\<lparr>FileDescriptor := raw\<rparr>)
      else Inr (c\<lparr>cs_Unknowns := cs_Unknowns c @ [(ty, raw)]\<rparr>))"

definition ContentStore_ParseField :: "content_store \<Rightarrow> bytes \<Rightarrow> nat \<Rightarrow> (content_store \<times> nat) res" where
  "ContentStore_ParseField c bs b = ParseField_start (ContentStore_handle (drop (next_field bs b) bs)) c bs b"

definition ContentStore_ParseHeader :: "content_store \<Rightarrow> data \<Rightarrow> nat \<Rightarrow> content_store \<times> nat" where
  "ContentStore_ParseHeader c d offset = (c, offset)"

definition ContentStore_ParseFields :: "content_store \<Rightarrow> data \<Rightarrow> nat \<Rightarrow> (content_store \<times> nat) res option" where
  "ContentStore_ParseFields c d offset = ParseCommonFields ContentStore_ParseField c (contents d) offset"

section \<open>Building\<close>

definition ContentStore_BuildHeader :: "content_store \<Rightarrow> data \<Rightarrow> nat \<Rightarrow> data \<times> nat" where
  "ContentStore_BuildHeader c d offset = (d, offset)"

definition block_size :: "bytes \<Rightarrow> nat \<Rightarrow> nat" where
  "block_size content foff = min (length content - foff) MAX_CONTENT_BLOCK_SIZE"

function build_content :: "bytes \<Rightarrow> nat \<Rightarrow> data \<times> nat \<Rightarrow> (data \<times> nat) res" where
  "build_content content foff dn =
     (if foff < length content
      then rbind (BuildField_raw (fst dn) (snd dn) CSFC_FILE_CONTENT (take (block_size content foff) (drop foff content)))
             (build_content content (foff + block_size content foff))
      else Inr dn)"
  by auto
termination
  by (relation "measure (\<lambda>(content, foff, dn). length content - foff)") (auto simp: block_size_def MAX_CONTENT_BLOCK_SIZE_def)

declare build_content.simps [simp del]

definition ContentStore_BuildFields :: "content_store \<Rightarrow> data \<Rightarrow> nat \<Rightarrow> (data \<times> nat) res" where
  "ContentStore_BuildFields c d offset =
     (if Filename c = [] then Inl (BadData ''Content Store must have a name.'')
      else if \<not> FolderFlag c \<and> FileContent c = [] then Inl (BadData ''Content Store item without any data.'')
      else
     rbind (BuildField_string (Zap d) offset CSFC_FILENAME (Filename c)) (\<lambda>dn1.
     rbind (if FolderFlag c then BuildField_string (fst dn1) (snd dn1) CSFC_FOLDER_FLAG (lit ''folder'')
            else rbind (BuildField_raw (fst dn1) (snd dn1) CSFC_FILE_DESCRIPTOR (FileDescriptor c)) (\<lambda>dn.
                 rbind (BuildField_u64 (fst dn) (snd dn) CSFC_FILE_CONTENT (word_of_nat (length (FileContent c)))) (\<lambda>dn.
                 build_content (FileContent c) 0 dn))) (\<lambda>dn2.
     rbind (rfold (\<lambda>dn uf. BuildField_unknown (fst dn) (snd dn) uf) dn2 (cs_Unknowns c)) (\<lambda>dn3.
     rbind (ReleaseBuffer (fst dn3) (int (snd dn3))) (\<lambda>d'. Inr (d', snd dn3))))))"

section \<open>The fields of a file or folder\<close>

function content_blocks :: "bytes \<Rightarrow> nat \<Rightarrow> bytes list" where
  "content_blocks content foff =
     (if foff < length content
      then take (block_size content foff) (drop foff content) # content_blocks content (foff + block_size content foff)
      else [])"
  by auto
termination
  by (relation "measure (\<lambda>(content, foff). length content - foff)") (auto simp: block_size_def MAX_CONTENT_BLOCK_SIZE_def)

declare content_blocks.simps [simp del]

definition content_fields :: "content_store \<Rightarrow> (byte \<times> bytes) list" where
  "content_fields c =
     [(CSFC_FILENAME, Filename c @ [0])]
     @ (if FolderFlag c then [(CSFC_FOLDER_FLAG, lit ''folder'' @ [0])]
        else [(CSFC_FILE_DESCRIPTOR, FileDescriptor c), (CSFC_FILE_CONTENT, le64 (word_of_nat (length (FileContent c))))]
          @ map (Pair CSFC_FILE_CONTENT) (content_blocks (FileContent c) 0))
     @ cs_Unknowns c"

lemma build_content_fields: "build_content content foff dn = store_fields dn (map (Pair CSFC_FILE_CONTENT) (content_blocks content foff))"
proof (induction content foff dn rule: build_content.induct)
  case (1 content foff dn)
  show ?case
  proof (cases "foff < length content")
    case True
    then have IH: "build_content content (foff + block_size content foff) = (\<lambda>dn. store_fields dn (map (Pair CSFC_FILE_CONTENT)
        (content_blocks content (foff + block_size content foff))))"
      using 1 by auto
    show ?thesis
      unfolding build_content.simps[of content foff dn] content_blocks.simps[of content foff] IH
      using True by (simp add: build_field_simps store_fields_simps)
  qed (simp add: build_content.simps[of content foff dn] content_blocks.simps[of content foff] store_nil)
qed

text \<open>The blocks are the content, cut.\<close>

lemma concat_blocks: "concat (content_blocks content foff) = drop foff content"
proof (induction content foff rule: content_blocks.induct)
  case (1 content foff)
  show ?case
  proof (cases "foff < length content")
    case True
    then have "concat (content_blocks content foff) = take (block_size content foff) (drop foff content)
        @ drop (foff + block_size content foff) content"
      using 1 by (subst content_blocks.simps) simp
    then show ?thesis by (metis append_take_drop_id drop_drop add.commute)
  qed (simp add: content_blocks.simps[of content foff])
qed

lemma blocks_proper: "list_all (\<lambda>b. b \<noteq> [] \<and> length b \<le> MAX_CONTENT_BLOCK_SIZE) (content_blocks content foff)"
proof (induction content foff rule: content_blocks.induct)
  case (1 content foff)
  then show ?case
    by (subst content_blocks.simps) (auto simp: block_size_def MAX_CONTENT_BLOCK_SIZE_def)
qed

lemma ContentStore_BuildFields_eq:
  assumes "Filename c \<noteq> []" and "FolderFlag c \<or> FileContent c \<noteq> []"
  shows "ContentStore_BuildFields c d offset = build_record d offset (content_fields c)"
proof -
  have first: "store_field (Zap d) offset g = store_field (fst (Zap d, offset)) (snd (Zap d, offset)) g" for g by simp
  have described: "rbind (store_fields dn [a]) (\<lambda>dn. rbind (store_fields dn [b]) (\<lambda>dn. store_fields dn bs)) = store_fields dn ([a, b] @ bs)" for dn a b bs
    using store_fields_append[of dn "[a]" "[b] @ bs"] by (simp add: store_fields_append[of _ "[b]" bs, simplified])
  have bc: "build_content content 0 = (\<lambda>dn. store_fields dn (map (Pair CSFC_FILE_CONTENT) (content_blocks content 0)))" for content
    by (rule ext) (rule build_content_fields)
  have if_store: "(if c then store_fields dn fs else store_fields dn gs) = store_fields dn (if c then fs else gs)" for c dn fs gs by simp
  have ok: "(Filename c = []) = False" "(\<not> FolderFlag c \<and> FileContent c = []) = False" using assms by auto
  show ?thesis
    unfolding ContentStore_BuildFields_def content_fields_def ok if_False first build_field_simps store_one bc
    unfolding described
    unfolding if_store
    unfolding store_unknowns store_fields_append build_record_fields rbind_assoc ..
qed


section \<open>Round trip\<close>

definition content_known :: "byte list" where "content_known = [0x01, 0x05, 0x06, 0x07]"

text \<open>A file has content, a folder may not need any.\<close>

definition content_ok :: "content_store \<Rightarrow> bool" where
  "content_ok c \<longleftrightarrow> Filename c \<noteq> [] \<and> text_ok None (Filename c) \<and> (FolderFlag c \<or> FileContent c \<noteq> [])
     \<and> length (FileContent c) < 2 ^ 64 \<and> length (FileDescriptor c) < 65536 \<and> unknowns_ok content_known (cs_Unknowns c)"

text \<open>What comes back: of a folder the name only, of a file its content with the true size.\<close>

definition content_stored :: "content_store \<Rightarrow> content_store" where
  "content_stored c =
     (if FolderFlag c then c\<lparr>FileContent := [], FileDescriptor := [], FileSize := 0\<rparr>
      else c\<lparr>FileSize := word_of_nat (length (FileContent c))\<rparr>)"

definition ContentStore_fresh :: "content_store \<Rightarrow> content_store" where
  "ContentStore_fresh c = ContentStore_SetIds (cs_RecType c) (cs_RecordId c) ContentStore_Clear"

lemma read_blocks:
  "FileSize r \<noteq> 0 \<Longrightarrow> list_all (\<lambda>b. b \<noteq> [] \<and> length b \<le> MAX_CONTENT_BLOCK_SIZE) bs \<Longrightarrow>
     parse_list ContentStore_handle r (map (Pair CSFC_FILE_CONTENT) bs @ fs)
       = parse_list ContentStore_handle (r\<lparr>FileContent := FileContent r @ concat bs\<rparr>) fs"
  by (induction bs arbitrary: r) (simp_all add: ContentStore_handle_def content_codes)

lemma read_content_unknowns:
  "unknowns_ok content_known ufs \<Longrightarrow> parse_list ContentStore_handle r ufs = Inr (r\<lparr>cs_Unknowns := cs_Unknowns r @ ufs\<rparr>)"
  by (induction ufs arbitrary: r) (auto simp: unknowns_ok_def content_known_def ContentStore_handle_def content_codes)

lemma ContentStore_handle_fields:
  "text_ok None s \<Longrightarrow> ContentStore_handle rest r CSFC_FILENAME (s @ [0]) = Inr (r\<lparr>Filename := s\<rparr>)"
  "ContentStore_handle rest r CSFC_FOLDER_FLAG (lit ''folder'' @ [0]) = Inr (r\<lparr>FolderFlag := True\<rparr>)"
  "ContentStore_handle rest r CSFC_FILE_DESCRIPTOR raw = Inr (r\<lparr>FileDescriptor := raw\<rparr>)"
  "FileSize r = 0 \<Longrightarrow> ContentStore_handle rest r CSFC_FILE_CONTENT (le64 n) = Inr (r\<lparr>FileSize := n\<rparr>)"
proof -
  show "text_ok None s \<Longrightarrow> ContentStore_handle rest r CSFC_FILENAME (s @ [0]) = Inr (r\<lparr>Filename := s\<rparr>)"
    using ParseFieldString_text[of None s] by (simp add: ContentStore_handle_def from_bb_def to_bb_def)
  have "ParseFieldString (lit ''folder'' @ [0]) (length (lit ''folder'' @ [0])) = lit ''folder''"
    by (rule ParseFieldString_nul) (simp add: lit_def)
  then show "ContentStore_handle rest r CSFC_FOLDER_FLAG (lit ''folder'' @ [0]) = Inr (r\<lparr>FolderFlag := True\<rparr>)"
    by (simp add: ContentStore_handle_def content_codes)
qed (simp_all add: ContentStore_handle_def content_codes)

lemma content_size_nonzero:
  assumes "content \<noteq> []" and "length content < 2 ^ 64" shows "word_of_nat (length content) \<noteq> (0 :: u64)"
proof -
  have "unat (word_of_nat (length content) :: u64) = length content" using assms(2) by (simp add: unat_of_nat)
  then show ?thesis using assms(1) by (metis length_0_conv unat_0)
qed

lemma ContentStore_reads:
  assumes "content_ok c"
  shows "parse_list ContentStore_handle (ContentStore_fresh c) (content_fields c) = Inr (content_stored c)"
proof -
  note o = assms[unfolded content_ok_def]
  note fresh = ContentStore_fresh_def ContentStore_SetIds_def ContentStore_Clear_def
  show ?thesis
  proof (cases "FolderFlag c")
    case True
    then show ?thesis
      using o by (simp add: content_fields_def ContentStore_handle_fields read_content_unknowns)
        (simp add: fresh content_stored_def)
  next
    case False
    define n :: u64 where "n = word_of_nat (length (FileContent c))"
    have n: "n \<noteq> 0" using o False content_size_nonzero by (auto simp: n_def)
    define r1 where "r1 = (ContentStore_fresh c)\<lparr>Filename := Filename c, FileDescriptor := FileDescriptor c, FileSize := n\<rparr>"
    have d: "(if FileDescriptor c = [] then Inr r else ContentStore_handle rest r CSFC_FILE_DESCRIPTOR (FileDescriptor c))
        = Inr (r\<lparr>FileDescriptor := FileDescriptor c\<rparr>)" if "FileDescriptor r = []" for r rest
      using that by (simp add: ContentStore_handle_fields)
    have ne: "le64 n \<noteq> []" by (simp add: le64_def)
    have "parse_list ContentStore_handle (ContentStore_fresh c) (content_fields c)
        = parse_list ContentStore_handle r1 (map (Pair CSFC_FILE_CONTENT) (content_blocks (FileContent c) 0) @ cs_Unknowns c)"
      using False o ne by (simp add: content_fields_def ContentStore_handle_fields d fresh r1_def flip: n_def)
    also have "\<dots> = Inr (content_stored c)"
      using o n False by (simp add: read_blocks[OF _ blocks_proper] read_content_unknowns r1_def concat_blocks)
        (simp add: fresh content_stored_def n_def)
    finally show ?thesis .
  qed
qed

lemma content_fields_sizes:
  assumes "content_ok c"
  shows "list_all (\<lambda>f. length (snd f) < 65536) (content_fields c)" and "snd (last (content_fields c)) \<noteq> []"
proof -
  note o = assms[unfolded content_ok_def]
  have blocks: "list_all (\<lambda>f. length (snd f) < 65536) (map (Pair CSFC_FILE_CONTENT) (content_blocks (FileContent c) 0))"
    using blocks_proper[of "FileContent c" 0] by (auto simp: list_all_iff MAX_CONTENT_BLOCK_SIZE_def)
  show "list_all (\<lambda>f. length (snd f) < 65536) (content_fields c)"
    using o blocks by (auto simp: content_fields_def text_ok_def to_bb_def unknowns_ok_def list_all_iff lit_def)
  have "snd (last (content_fields c)) \<noteq> []" if "cs_Unknowns c = []"
  proof (cases "FolderFlag c")
    case False
    then have "content_blocks (FileContent c) 0 \<noteq> []" using o by (subst content_blocks.simps) simp
    moreover from this have "last (content_blocks (FileContent c) 0) \<noteq> []"
      using blocks_proper[of "FileContent c" 0] by (auto simp: list_all_iff)
    ultimately show ?thesis using False that by (simp add: content_fields_def last_map)
  qed (simp add: content_fields_def that)
  then show "snd (last (content_fields c)) \<noteq> []"
    using o by (cases "cs_Unknowns c = []") (auto simp: content_fields_def unknowns_ok_def list_all_iff)
qed

definition content_takes :: "byte \<Rightarrow> bool" where
  "content_takes ty \<longleftrightarrow> ty \<in> {CSFC_FILENAME, CSFC_FOLDER_FLAG, CSFC_FILE_CONTENT, CSFC_FILE_DESCRIPTOR}"

interpretation content_unknowns: unknown_keeper ContentStore_ParseField ContentStore_handle cs_Unknowns "\<lambda>_ ty _. content_takes ty"
  by unfold_locales (auto simp: ContentStore_ParseField_def ContentStore_handle_def content_takes_def split: if_splits)

interpretation content_codec: record_codec ContentStore_ParseField ContentStore_handle ContentStore_BuildFields
  content_fields content_ok ContentStore_fresh content_stored
proof unfold_locales
  fix m d offset assume "content_ok m"
  then show "ContentStore_BuildFields m d offset = build_record d offset (content_fields m)"
    by (intro ContentStore_BuildFields_eq) (auto simp: content_ok_def)
qed (use content_fields_sizes ContentStore_reads in auto)

text \<open>
  C28: A file, built behind a header of any length into a buffer that has room for the whole
  record before the first field is built (has_room), and parsed again, is the same file:
  name, descriptor and content, of any size up to that of the buffer, which is cut into
  blocks of at most 65534 bytes on the way; its size is the true size of the content. Of a
  folder the name comes back. Without the room, growing the buffer loses the fields built
  before, as it does for memos.
\<close>

theorem ContentStore_roundtrip:
  assumes "content_ok c" and "has_room d (offset + length (encode_fields (content_fields c)))"
  shows "\<exists>d' n. ContentStore_BuildFields c d offset = Inr (d', n) \<and> n = length (contents d')
     \<and> ContentStore_ParseFields (ContentStore_fresh c) d' offset
       = Some (Inr (if FolderFlag c then c\<lparr>FileContent := [], FileDescriptor := [], FileSize := 0\<rparr>
                    else c\<lparr>FileSize := word_of_nat (length (FileContent c))\<rparr>, n))"
  using content_codec.roundtrip[OF assms] by (simp add: ContentStore_ParseFields_def content_stored_def)

text \<open>A file of two content blocks.\<close>

definition sample_content :: bytes where "sample_content = replicate 65534 7 @ [1, 2, 3]"

definition sample_file :: content_store where
  "sample_file = ContentStore_Clear\<lparr>cs_RecordId := 3, Filename := [0x61, 0x2f], FileContent := sample_content, FileDescriptor := [9]\<rparr>"

lemma sample_file_fields: "content_fields sample_file = [(CSFC_FILENAME, [0x61, 0x2f, 0]), (CSFC_FILE_DESCRIPTOR, [9]),
    (CSFC_FILE_CONTENT, le64 65537), (CSFC_FILE_CONTENT, replicate 65534 7), (CSFC_FILE_CONTENT, [1, 2, 3])]"
proof -
  have len: "length sample_content = 65537" by (simp add: sample_content_def)
  have "take 65534 sample_content = replicate 65534 7" "drop 65534 sample_content = [1, 2, 3]"
    by (simp_all add: sample_content_def)
  then have "content_blocks sample_content 0 = [replicate 65534 7, [1, 2, 3]]"
    by (subst content_blocks.simps, subst content_blocks.simps, subst content_blocks.simps)
       (simp add: block_size_def MAX_CONTENT_BLOCK_SIZE_def len)
  then show ?thesis by (simp add: content_fields_def sample_file_def ContentStore_Clear_def len)
qed

lemma ContentStore_roundtrip_witness:
  "\<exists>d' n. ContentStore_BuildFields sample_file (Data_new 0 80000 0) 10 = Inr (d', n)
     \<and> ContentStore_ParseFields (ContentStore_fresh sample_file) d' 10 = Some (Inr (sample_file\<lparr>FileSize := 65537\<rparr>, n))"
proof -
  have ok: "content_ok sample_file"
    by (simp add: content_ok_def sample_file_def sample_content_def ContentStore_Clear_def text_ok_def from_bb_def to_bb_def unknowns_ok_def)
  have room: "has_room (Data_new 0 80000 0) (10 + length (encode_fields (content_fields sample_file)))"
    unfolding sample_file_fields by (simp add: has_room_def Data_new_def encode_fields_def common_field_def)
  have "FolderFlag sample_file = False" "length (FileContent sample_file) = 65537"
    by (simp_all add: sample_file_def ContentStore_Clear_def sample_content_def)
  then show ?thesis using ContentStore_roundtrip[OF ok room] by auto
qed

end
