(* ===== verification/Folder.thy ===== *)
theory Folder imports Unknown_Fields begin

text \<open>
  The Folder record class (src/src/r_folder.cc, src/src/r_folder.h), which is only parsed;
  building is not implemented there. The folder type is kept as its code, since the cast to
  the enumeration has no range check. Dump and the field handles are left out.
\<close>

record folder =
  fd_RecType :: byte
  fd_RecordId :: u32
  fd_Name :: bytes
  Number :: u16
  Level :: u16
  fd_Type :: byte
  fd_Unknowns :: "unknown_field list"

definition FFC_NUMBER :: byte where "FFC_NUMBER = 0x0a"
definition FFC_LEVEL :: byte where "FFC_LEVEL = 0x0b"
definition FFC_NAME :: byte where "FFC_NAME = 0x0c"
definition FFC_TYPE :: byte where "FFC_TYPE = 0x0f"

lemmas folder_codes = FFC_NUMBER_def FFC_LEVEL_def FFC_NAME_def FFC_TYPE_def

definition FolderFieldLinks :: "folder field_link list" where
  "FolderFieldLinks = [FieldLink FFC_NAME (StrMember fd_Name (\<lambda>s f. f\<lparr>fd_Name := s\<rparr>)) True]"

definition Folder_TypeProto2Rec :: "byte \<Rightarrow> byte" where "Folder_TypeProto2Rec t = t"
definition Folder_TypeRec2Proto :: "byte \<Rightarrow> byte" where "Folder_TypeRec2Proto t = t"

definition Folder_Clear :: folder where
  "Folder_Clear = \<lparr>fd_RecType = 0, fd_RecordId = 0, fd_Name = [], Number = 0, Level = 0, fd_Type = 0, fd_Unknowns = []\<rparr>"

definition Folder_SetIds :: "byte \<Rightarrow> u32 \<Rightarrow> folder \<Rightarrow> folder" where
  "Folder_SetIds ty ident f = f\<lparr>fd_RecType := ty, fd_RecordId := ident\<rparr>"

definition Folder_handle :: "converter option \<Rightarrow> folder \<Rightarrow> byte \<Rightarrow> bytes \<Rightarrow> folder res" where
  "Folder_handle ic f ty raw =
     (case parse_links FolderFieldLinks ic f ty raw of
        Some r \<Rightarrow> r
      | None \<Rightarrow>
          if ty = FFC_TYPE then Inr (f\<lparr>fd_Type := Folder_TypeProto2Rec (byte_at raw 0)\<rparr>)
          else if ty = FFC_NUMBER then Inr (f\<lparr>Number := ucast (byte_at raw 0)\<rparr>)
          else if ty = FFC_LEVEL then Inr (f\<lparr>Level := ucast (byte_at raw 0)\<rparr>)
          else Inr (f\<lparr>fd_Unknowns := fd_Unknowns f @ [(ty, raw)]\<rparr>))"

definition Folder_ParseField :: "converter option \<Rightarrow> folder \<Rightarrow> bytes \<Rightarrow> nat \<Rightarrow> (folder \<times> nat) res" where
  "Folder_ParseField ic = ParseField_start (Folder_handle ic)"

definition Folder_ParseHeader :: "folder \<Rightarrow> data \<Rightarrow> nat \<Rightarrow> folder \<times> nat" where
  "Folder_ParseHeader f d offset = (f, offset)"

definition Folder_ParseFields :: "converter option \<Rightarrow> folder \<Rightarrow> data \<Rightarrow> nat \<Rightarrow> (folder \<times> nat) res option" where
  "Folder_ParseFields ic f d offset = ParseCommonFields (Folder_ParseField ic) f (contents d) offset"

definition Folder_BuildHeader :: "folder \<Rightarrow> data \<Rightarrow> nat \<Rightarrow> data \<times> nat" where
  "Folder_BuildHeader f d offset = (d, offset)"

definition Folder_BuildFields :: "converter option \<Rightarrow> folder \<Rightarrow> data \<Rightarrow> nat \<Rightarrow> (data \<times> nat) res" where
  "Folder_BuildFields ic f d offset = Inr (d, offset)"

definition folder_known :: "byte list" where "folder_known = [0x0a, 0x0b, 0x0c, 0x0f]"

interpretation folder_unknowns: unknown_keeper "Folder_ParseField ic" "\<lambda>_. Folder_handle ic" fd_Unknowns
  "\<lambda>_ ty _. ty \<in> set folder_known" for ic
  by unfold_locales
    (auto simp: Folder_ParseField_def Folder_handle_def FolderFieldLinks_def folder_codes folder_known_def Let_def split: if_splits)

text \<open>A record with the four known fields, in the order of the device.\<close>

lemma Folder_reads:
  assumes "text_ok ic s"
  shows "parse_list (\<lambda>_. Folder_handle ic) f [(FFC_NUMBER, [n]), (FFC_LEVEL, [l]), (FFC_NAME, to_bb ic s @ [0]), (FFC_TYPE, [t])]
     = Inr (f\<lparr>Number := ucast n, Level := ucast l, fd_Name := s, fd_Type := t\<rparr>)"
  using ParseFieldString_text[OF assms]
  by (simp add: Folder_handle_def FolderFieldLinks_def folder_codes Let_def Folder_TypeProto2Rec_def)

end
