(* ===== verification/Call_Log.thy ===== *)
theory Call_Log imports Unknown_Fields begin

text \<open>
  The CallLog record class (src/src/r_calllog.cc, src/src/r_calllog.h), which is only
  parsed. Dump and the field handles are left out.
\<close>

section \<open>State\<close>

datatype DirectionFlagType = Receiver | Emitter | Failed | Missing
datatype CallStatusFlagType = OK | CallBusy | NetError | CallUnknown
datatype PhoneTypeFlagType = TypeUndefined | TypeOffice | TypeHome | TypeMobile | TypeUnknown
datatype PhoneInfoFlagType = InfoUndefined | InfoKnown | InfoUnknown | InfoPrivate

record call_log =
  cl_RecType :: byte
  cl_RecordId :: u32
  Duration :: u32
  Timestamp :: u64
  ContactName :: bytes
  PhoneNumber :: bytes
  DirectionFlag :: DirectionFlagType
  cl_StatusFlag :: CallStatusFlagType
  PhoneTypeFlag :: PhoneTypeFlagType
  PhoneInfoFlag :: PhoneInfoFlagType
  cl_Unknowns :: "unknown_field list"

definition MILLISECONDS_IN_A_SECOND :: u64 where "MILLISECONDS_IN_A_SECOND = 1000"

definition CallLog_GetTime :: "call_log \<Rightarrow> int" where
  "CallLog_GetTime c = uint (Timestamp c div MILLISECONDS_IN_A_SECOND)"

definition CLL_DIRECTION_RANGE_HIGH :: byte where "CLL_DIRECTION_RANGE_HIGH = 3"
definition CLL_PHONETYPE_RANGE_HIGH :: byte where "CLL_PHONETYPE_RANGE_HIGH = 3"

text \<open>The casts; the parser has checked the range.\<close>

definition DirectionProto2Rec :: "byte \<Rightarrow> DirectionFlagType" where
  "DirectionProto2Rec s = (if s = 0 then Receiver else if s = 1 then Emitter else if s = 2 then Failed else Missing)"

fun DirectionRec2Proto :: "DirectionFlagType \<Rightarrow> byte" where
  "DirectionRec2Proto Receiver = 0"
| "DirectionRec2Proto Emitter = 1"
| "DirectionRec2Proto Failed = 2"
| "DirectionRec2Proto Missing = 3"

definition PhoneTypeProto2Rec :: "byte \<Rightarrow> PhoneTypeFlagType" where
  "PhoneTypeProto2Rec s =
     (if s = 0 then TypeUndefined else if s = 1 then TypeOffice else if s = 2 then TypeHome else if s = 3 then TypeMobile else TypeUnknown)"

fun PhoneTypeRec2Proto :: "PhoneTypeFlagType \<Rightarrow> byte" where
  "PhoneTypeRec2Proto TypeUndefined = 0"
| "PhoneTypeRec2Proto TypeOffice = 1"
| "PhoneTypeRec2Proto TypeHome = 2"
| "PhoneTypeRec2Proto TypeMobile = 3"
| "PhoneTypeRec2Proto TypeUnknown = 4"

definition CLLFC_CALLLOG_TYPE :: byte where "CLLFC_CALLLOG_TYPE = 0x01"
definition CLLFC_DIRECTION :: byte where "CLLFC_DIRECTION = 0x02"
definition CLLFC_DURATION :: byte where "CLLFC_DURATION = 0x03"
definition CLLFC_TIMESTAMP :: byte where "CLLFC_TIMESTAMP = 0x04"
definition CLLFC_STATUS :: byte where "CLLFC_STATUS = 0x06"
definition CLLFC_UNIQUEID :: byte where "CLLFC_UNIQUEID = 0x07"
definition CLLFC_PHONE_TYPE :: byte where "CLLFC_PHONE_TYPE = 0x0b"
definition CLLFC_PHONE_NUMBER :: byte where "CLLFC_PHONE_NUMBER = 0x0c"
definition CLLFC_PHONE_INFO :: byte where "CLLFC_PHONE_INFO = 0x0d"
definition CLLFC_CONTACT_NAME :: byte where "CLLFC_CONTACT_NAME = 0x1f"

lemmas call_codes = CLLFC_CALLLOG_TYPE_def CLLFC_DIRECTION_def CLLFC_DURATION_def CLLFC_TIMESTAMP_def CLLFC_STATUS_def
  CLLFC_UNIQUEID_def CLLFC_PHONE_TYPE_def CLLFC_PHONE_NUMBER_def CLLFC_PHONE_INFO_def CLLFC_CONTACT_NAME_def

definition CallLogFieldLinks :: "call_log field_link list" where
  "CallLogFieldLinks =
     [FieldLink CLLFC_PHONE_NUMBER (StrMember PhoneNumber (\<lambda>s c. c\<lparr>PhoneNumber := s\<rparr>)) True,
      FieldLink CLLFC_CONTACT_NAME (StrMember ContactName (\<lambda>s c. c\<lparr>ContactName := s\<rparr>)) True]"

definition CallLog_Clear :: call_log where
  "CallLog_Clear = \<lparr>cl_RecType = 0, cl_RecordId = 0, Duration = 0, Timestamp = 0, ContactName = [], PhoneNumber = [],
     DirectionFlag = Receiver, cl_StatusFlag = CallUnknown, PhoneTypeFlag = TypeUnknown, PhoneInfoFlag = InfoUndefined,
     cl_Unknowns = []\<rparr>"

definition CallLog_SetIds :: "byte \<Rightarrow> u32 \<Rightarrow> call_log \<Rightarrow> call_log" where
  "CallLog_SetIds ty ident c = c\<lparr>cl_RecType := ty, cl_RecordId := ident\<rparr>"

section \<open>Parsing\<close>

text \<open>A duration or a time that is too short is left to the unknown fields.\<close>

definition CallLog_special :: "call_log \<Rightarrow> byte \<Rightarrow> bytes \<Rightarrow> call_log res option" where
  "CallLog_special c ty raw =
     (let b = byte_at raw 0
      in if ty = CLLFC_STATUS
         then Some (Inr (c\<lparr>cl_StatusFlag := (if b = 0x00 then OK else if b = 0x01 then CallBusy else if b = 0x09 then NetError
              else CallUnknown)\<rparr>))
         else if ty = CLLFC_DIRECTION
         then Some (if b > CLL_DIRECTION_RANGE_HIGH then Inl (BarryError ''CallLog::ParseField: direction field out of bounds'')
                    else Inr (c\<lparr>DirectionFlag := DirectionProto2Rec b\<rparr>))
         else if ty = CLLFC_PHONE_TYPE
         then Some (Inr (c\<lparr>PhoneTypeFlag := (if b > CLL_PHONETYPE_RANGE_HIGH then TypeUnknown else PhoneTypeProto2Rec b)\<rparr>))
         else if ty = CLLFC_PHONE_INFO
         then Some (Inr (c\<lparr>PhoneInfoFlag := (if b = 0x03 then InfoKnown else if b = 0x80 then InfoUnknown
              else if b = 0x40 then InfoPrivate else InfoUndefined)\<rparr>))
         else if ty = CLLFC_DURATION \<and> length raw \<ge> 4 then Some (Inr (c\<lparr>Duration := get32 raw 0\<rparr>))
         else if ty = CLLFC_TIMESTAMP \<and> length raw \<ge> 8 then Some (Inr (c\<lparr>Timestamp := get64 raw 0\<rparr>))
         else None)"

definition CallLog_handle :: "converter option \<Rightarrow> call_log \<Rightarrow> byte \<Rightarrow> bytes \<Rightarrow> call_log res" where
  "CallLog_handle ic c ty raw =
     (if ty = CLLFC_CALLLOG_TYPE
      then (if byte_at raw 0 \<noteq> 0x70 then Inl (BarryError ''CallLog::ParseField: CallLogType is not p'') else Inr c)
      else if ty = CLLFC_UNIQUEID then Inr c
      else
        case parse_links CallLogFieldLinks ic c ty raw of
          Some r \<Rightarrow> r
        | None \<Rightarrow>
            (case CallLog_special c ty raw of
               Some r \<Rightarrow> r
             | None \<Rightarrow> Inr (c\<lparr>cl_Unknowns := cl_Unknowns c @ [(ty, raw)]\<rparr>)))"

definition CallLog_ParseField :: "converter option \<Rightarrow> call_log \<Rightarrow> bytes \<Rightarrow> nat \<Rightarrow> (call_log \<times> nat) res" where
  "CallLog_ParseField ic = ParseField_start (CallLog_handle ic)"

definition CallLog_ParseHeader :: "call_log \<Rightarrow> data \<Rightarrow> nat \<Rightarrow> call_log \<times> nat" where
  "CallLog_ParseHeader c d offset = (c, offset)"

definition CallLog_ParseFields :: "converter option \<Rightarrow> call_log \<Rightarrow> data \<Rightarrow> nat \<Rightarrow> (call_log \<times> nat) res option" where
  "CallLog_ParseFields ic c d offset = ParseCommonFields (CallLog_ParseField ic) c (contents d) offset"

definition CallLog_BuildHeader :: "call_log \<Rightarrow> data \<Rightarrow> nat \<Rightarrow> data \<times> nat" where
  "CallLog_BuildHeader c d offset = (d, offset)"

definition CallLog_BuildFields :: "converter option \<Rightarrow> call_log \<Rightarrow> data \<Rightarrow> nat \<Rightarrow> (data \<times> nat) res" where
  "CallLog_BuildFields ic c d offset = Inr (d, offset)"

definition call_takes :: "byte \<Rightarrow> bytes \<Rightarrow> bool" where
  "call_takes ty raw \<longleftrightarrow> ty \<in> {0x01, 0x02, 0x06, 0x07, 0x0b, 0x0c, 0x0d, 0x1f}
     \<or> ty = 0x03 \<and> length raw \<ge> 4 \<or> ty = 0x04 \<and> length raw \<ge> 8"

interpretation call_unknowns: unknown_keeper "CallLog_ParseField ic" "\<lambda>_. CallLog_handle ic" cl_Unknowns "\<lambda>_. call_takes" for ic
  by unfold_locales
    (auto simp: CallLog_ParseField_def CallLog_handle_def CallLog_special_def CallLogFieldLinks_def call_codes call_takes_def Let_def
       split: if_splits)

lemma direction_codes: "\<not> CLL_DIRECTION_RANGE_HIGH < DirectionRec2Proto f" "DirectionProto2Rec (DirectionRec2Proto f) = f"
  by (cases f; simp add: CLL_DIRECTION_RANGE_HIGH_def DirectionProto2Rec_def)+

text \<open>A record with all known fields.\<close>

lemma CallLog_reads:
  assumes "text_ok ic number" and "text_ok ic name"
  shows "parse_list (\<lambda>_. CallLog_handle ic) c
       [(CLLFC_CALLLOG_TYPE, [0x70]), (CLLFC_DIRECTION, [DirectionRec2Proto f]), (CLLFC_DURATION, le32 secs), (CLLFC_TIMESTAMP, le64 ms),
        (CLLFC_STATUS, [0x09]), (CLLFC_UNIQUEID, le32 i), (CLLFC_PHONE_INFO, [0x40]), (CLLFC_PHONE_NUMBER, to_bb ic number @ [0]),
        (CLLFC_CONTACT_NAME, to_bb ic name @ [0])]
     = Inr (c\<lparr>DirectionFlag := f, Duration := secs, Timestamp := ms, cl_StatusFlag := NetError, PhoneInfoFlag := InfoPrivate,
          PhoneNumber := number, ContactName := name\<rparr>)"
proof -
  have ne: "le32 secs \<noteq> []" "le64 ms \<noteq> []" "le32 i \<noteq> []" by (simp_all add: le32_def le64_def)
  show ?thesis
    using ParseFieldString_text[OF assms(1)] ParseFieldString_text[OF assms(2)] ne
    by (simp add: CallLog_handle_def CallLog_special_def CallLogFieldLinks_def call_codes Let_def direction_codes)
qed

end
