(* ===== verification/Digits.thy ===== *)
theory Digits imports Dates begin

text \<open>
  Numbers in a base up to 16 as text: what an ostream writes with \<open>dec\<close>, \<open>hex\<close>, \<open>setw\<close> and
  fill character 0, and the value of a digit string. Shared by the record classes and mode
  objects that convert numbers with string streams.
\<close>

section \<open>Definitions\<close>

text \<open>Digits in a base up to 16, as an ostream writes them with \<open>dec\<close> and \<open>hex\<close>.\<close>

definition digit_char :: "nat \<Rightarrow> byte" where
  "digit_char d = (if d < 10 then 0x30 + of_nat d else 0x61 + of_nat (d - 10))"

definition is_hex :: "byte \<Rightarrow> bool" where
  "is_hex c \<longleftrightarrow> isdigit c \<or> 0x41 \<le> c \<and> c \<le> 0x46 \<or> 0x61 \<le> c \<and> c \<le> 0x66"

definition is_digit_of :: "nat \<Rightarrow> byte \<Rightarrow> bool" where
  "is_digit_of base c \<longleftrightarrow> (if base = 16 then is_hex c else isdigit c)"

definition digit_val :: "byte \<Rightarrow> nat" where
  "digit_val c = (if isdigit c then unat c - 0x30 else if 0x61 \<le> c then unat c - 0x61 + 10 else unat c - 0x41 + 10)"

definition lower :: "byte \<Rightarrow> byte" where
  "lower c = (if 0x41 \<le> c \<and> c \<le> 0x5a then c + 0x20 else c)"

fun num_digits :: "nat \<Rightarrow> nat \<Rightarrow> bytes" where
  "num_digits base n =
     (if n < base \<or> base < 2 then [digit_char n] else num_digits base (n div base) @ [digit_char (n mod base)])"

declare num_digits.simps [simp del]

definition pad_number :: "nat \<Rightarrow> nat \<Rightarrow> nat \<Rightarrow> bytes" where
  "pad_number base w n = replicate (w - length (num_digits base n)) 0x30 @ num_digits base n"

definition num_value :: "nat \<Rightarrow> bytes \<Rightarrow> nat" where
  "num_value base ds = foldl (\<lambda>n c. n * base + digit_val c) 0 ds"

text \<open>
  \<open>hex >> number\<close> into an unsigned integer: white space, a sign and the prefix 0x are
  accepted; no digits or a value that does not fit is a failure.
\<close>

definition scan_hex :: "nat \<Rightarrow> bytes \<Rightarrow> (nat \<times> bytes) option" where
  "scan_hex bits s =
     (let s1 = dropWhile isspace s;
          signed = (s1 \<noteq> [] \<and> (hd s1 = 0x2b \<or> hd s1 = 0x2d));
          s2 = (if signed then tl s1 else s1);
          s3 = (if take 2 s2 = [0x30, 0x78] \<or> take 2 s2 = [0x30, 0x58] then drop 2 s2 else s2);
          ds = takeWhile is_hex s3;
          v = num_value 16 ds
      in if ds = [] \<or> 2 ^ bits \<le> v then None
         else Some (if signed \<and> hd s1 = 0x2d then (2 ^ bits - v) mod 2 ^ bits else v, drop (length ds) s3))"

text \<open>\<open>>> string\<close>: the next word.\<close>

definition scan_word :: "bytes \<Rightarrow> (bytes \<times> bytes) option" where
  "scan_word s =
     (let s1 = dropWhile isspace s; w = takeWhile (\<lambda>c. \<not> isspace c) s1
      in if w = [] then None else Some (w, drop (length w) s1))"

section \<open>Laws\<close>

lemma digit_char_unat: "d < 16 \<Longrightarrow> unat (digit_char d) = (if d < 10 then 48 + d else 87 + d)"
  by (auto simp: digit_char_def unat_word_ariths unat_of_nat)

lemma isdigit_unat: "isdigit c \<longleftrightarrow> 48 \<le> unat c \<and> unat c \<le> 57"
  by (simp add: isdigit_def word_le_nat_alt)

lemma is_hex_unat: "is_hex c \<longleftrightarrow> 48 \<le> unat c \<and> unat c \<le> 57 \<or> 65 \<le> unat c \<and> unat c \<le> 70 \<or> 97 \<le> unat c \<and> unat c \<le> 102"
  by (simp add: is_hex_def isdigit_def word_le_nat_alt)

lemma digit_char_ok:
  assumes "d < base" "base = 10 \<or> base = 16"
  shows "is_digit_of base (digit_char d)" "digit_val (digit_char d) = d"
proof -
  have u: "unat (digit_char d) = (if d < 10 then 48 + d else 87 + d)" using assms by (intro digit_char_unat) auto
  show "is_digit_of base (digit_char d)" using assms u by (auto simp: is_digit_of_def is_hex_unat isdigit_unat split: if_splits)
  show "digit_val (digit_char d) = d" using assms u by (auto simp: digit_val_def isdigit_unat word_le_nat_alt split: if_splits)
qed

lemma digit_val_ok:
  assumes "is_digit_of base c" "base = 10 \<or> base = 16"
  shows "digit_val c < base" "digit_char (digit_val c) = lower c"
proof -
  show v: "digit_val c < base" using assms by (auto simp: digit_val_def is_digit_of_def is_hex_unat isdigit_unat word_le_nat_alt split: if_splits)
  have l: "unat (lower c) = (if 65 \<le> unat c \<and> unat c \<le> 90 then unat c + 32 else unat c)"
    by (auto simp: lower_def word_le_nat_alt unat_word_ariths)
  have "unat (digit_char (digit_val c)) = (if digit_val c < 10 then 48 + digit_val c else 87 + digit_val c)"
    using v assms(2) by (intro digit_char_unat) auto
  then have "unat (digit_char (digit_val c)) = unat (lower c)"
    unfolding l using assms by (auto simp: digit_val_def is_digit_of_def is_hex_unat isdigit_unat word_le_nat_alt split: if_splits)
  then show "digit_char (digit_val c) = lower c" by (simp add: word_unat_eq_iff)
qed

lemma num_value_snoc: "num_value base (ds @ [c]) = num_value base ds * base + digit_val c"
  by (simp add: num_value_def)

lemma lower_zero: "lower 0x30 = 0x30" by (simp add: lower_def)

lemma num_digits_nonempty: "num_digits base n \<noteq> []"
  by (subst num_digits.simps) simp

lemma num_value_bound:
  assumes "list_all (is_digit_of base) ds" "base = 10 \<or> base = 16"
  shows "num_value base ds < base ^ length ds"
  using assms(1)
proof (induction ds rule: rev_induct)
  case (snoc c ds)
  then have "num_value base ds < base ^ length ds" "digit_val c < base" using digit_val_ok assms(2) by auto
  then have "num_value base ds * base + digit_val c < (num_value base ds + 1) * base" by simp
  also have "\<dots> \<le> base ^ length ds * base" using \<open>num_value base ds < base ^ length ds\<close> by (intro mult_right_mono) auto
  finally show ?case by (simp add: num_value_snoc mult.commute)
qed (simp add: num_value_def)

lemma num_digits_good:
  assumes "base = 10 \<or> base = 16"
  shows "list_all (is_digit_of base) (num_digits base n) \<and> num_value base (num_digits base n) = n"
proof (induction n rule: less_induct)
  case (less n)
  show ?case
  proof (cases "n < base")
    case True
    then show ?thesis using digit_char_ok[OF True assms] by (subst (1 2) num_digits.simps) (simp add: num_value_def)
  next
    case False
    then have "n div base < n" using assms by auto
    then have IH: "list_all (is_digit_of base) (num_digits base (n div base))" "num_value base (num_digits base (n div base)) = n div base"
      using less by auto
    have m: "n mod base < base" using assms by auto
    have "num_digits base n = num_digits base (n div base) @ [digit_char (n mod base)]"
      using False assms by (subst num_digits.simps) auto
    then show ?thesis using IH digit_char_ok[OF m assms] by (simp add: num_value_snoc)
  qed
qed

lemma num_digits_length:
  assumes "base = 10 \<or> base = 16" "n < base ^ w" "w \<noteq> 0"
  shows "length (num_digits base n) \<le> w"
  using assms(2,3)
proof (induction w arbitrary: n)
  case (Suc w)
  show ?case
  proof (cases "n < base")
    case True
    then show ?thesis by (subst num_digits.simps) simp
  next
    case False
    have "w \<noteq> 0" using Suc.prems(1) False by (cases w) auto
    moreover have "n div base < base ^ w" using Suc.prems(1) assms(1) by (simp add: less_mult_imp_div_less mult.commute)
    ultimately have "length (num_digits base (n div base)) \<le> w" using Suc.IH by blast
    then show ?thesis using False assms(1) by (subst num_digits.simps) auto
  qed
qed simp

lemma num_value_zeros: "num_value base (replicate k 0x30 @ ds) = num_value base ds"
proof -
  have "digit_val 0x30 = 0" by (simp add: digit_val_def isdigit_def)
  then have "foldl (\<lambda>n c. n * base + digit_val c) 0 (replicate k 0x30) = 0" by (induction k) simp_all
  then show ?thesis by (simp add: num_value_def)
qed

lemma pad_number_good:
  assumes "base = 10 \<or> base = 16"
  shows "list_all (is_digit_of base) (pad_number base w n)" "num_value base (pad_number base w n) = n"
    "pad_number base w n \<noteq> []" "n < base ^ w \<Longrightarrow> w \<noteq> 0 \<Longrightarrow> length (pad_number base w n) = w"
proof -
  have "is_digit_of base 0x30" using digit_char_ok(1)[of 0 base] assms by (auto simp: digit_char_def)
  then show "list_all (is_digit_of base) (pad_number base w n)" using num_digits_good[OF assms] by (auto simp: pad_number_def list_all_iff)
  show "num_value base (pad_number base w n) = n" by (simp add: pad_number_def num_value_zeros num_digits_good[OF assms])
  show "pad_number base w n \<noteq> []" by (simp add: pad_number_def num_digits_nonempty)
  show "n < base ^ w \<Longrightarrow> w \<noteq> 0 \<Longrightarrow> length (pad_number base w n) = w" using num_digits_length[OF assms] by (simp add: pad_number_def)
qed

text \<open>A number written with the width of a digit string is that string, in lower case.\<close>

lemma pad_number_value:
  assumes "list_all (is_digit_of base) ds" "base = 10 \<or> base = 16" "ds \<noteq> []"
  shows "pad_number base (length ds) (num_value base ds) = map lower ds"
  using assms(1,3)
proof (induction ds rule: rev_induct)
  case (snoc c ds)
  have c: "digit_val c < base" "digit_char (digit_val c) = lower c" using snoc.prems digit_val_ok[of base c] assms(2) by auto
  show ?case
  proof (cases "ds = []")
    case True
    then show ?thesis using c by (simp add: num_value_def pad_number_def num_digits.simps[of base "digit_val c"])
  next
    case False
    then have IH: "pad_number base (length ds) (num_value base ds) = map lower ds" using snoc by simp
    define v where "v = num_value base ds"
    have b: "\<not> base < 2" using assms(2) by auto
    show ?thesis
    proof (cases "v = 0")
      case True
      then have "num_digits base (v * base + digit_val c) = [lower c]" using c by (subst num_digits.simps) simp
      moreover have "num_digits base 0 = [0x30]" using b by (subst num_digits.simps) (simp add: digit_char_def)
      moreover have "replicate (length ds) (0x30 :: byte) = replicate (length ds - 1) 0x30 @ [0x30]"
        using False by (metis One_nat_def Suc_pred length_greater_0_conv replicate_append_same replicate_Suc)
      ultimately show ?thesis using IH True by (simp add: pad_number_def num_value_snoc v_def)
    next
      case False
      then have "\<not> v * base + digit_val c < base" by (cases v) auto
      then have "num_digits base (v * base + digit_val c) = num_digits base v @ [lower c]"
        using c b by (subst num_digits.simps) auto
      then show ?thesis using IH by (simp add: pad_number_def num_value_snoc v_def)
    qed
  qed
qed simp

lemma digits_of: "is_digit_of 16 = is_hex" "is_digit_of 10 = isdigit"
  by (simp_all add: fun_eq_iff is_digit_of_def)

lemma lower_digit: "isdigit c \<Longrightarrow> lower c = c"
  using digit_val_ok(2)[of 10 c] by (auto simp: lower_def isdigit_unat word_le_nat_alt)

text \<open>Words and hexadecimal numbers that end before a space or the end.\<close>

definition word_ok :: "bytes \<Rightarrow> bool" where
  "word_ok w \<longleftrightarrow> w \<noteq> [] \<and> list_all (\<lambda>c. \<not> isspace c) w"

definition ends_word :: "bytes \<Rightarrow> bool" where
  "ends_word s \<longleftrightarrow> s = [] \<or> isspace (hd s)"

lemma takeWhile_stops: "list_all P w \<Longrightarrow> s = [] \<or> \<not> P (hd s) \<Longrightarrow> takeWhile P (w @ s) = w"
  by (induction w) (cases s; auto)+

lemma dropWhile_none: "s \<noteq> [] \<Longrightarrow> \<not> P (hd s) \<Longrightarrow> dropWhile P s = s"
  by (cases s) auto

lemma scan_word_ok: "word_ok w \<Longrightarrow> ends_word s \<Longrightarrow> scan_word (w @ s) = Some (w, s)"
proof -
  assume a: "word_ok w" "ends_word s"
  then have d: "dropWhile isspace (w @ s) = w @ s" by (intro dropWhile_none) (cases w; auto simp: word_ok_def)+
  have t: "takeWhile (\<lambda>c. \<not> isspace c) (w @ s) = w" using a by (intro takeWhile_stops) (auto simp: word_ok_def ends_word_def)
  show ?thesis using a d t by (simp add: scan_word_def word_ok_def Let_def)
qed

lemma hex_not_space: "is_hex c \<Longrightarrow> \<not> isspace c"
  by (auto simp: is_hex_unat isspace_def word_le_nat_alt)

lemma hex_not_sign: "is_hex c \<Longrightarrow> c \<noteq> 0x2b \<and> c \<noteq> 0x2d" "is_hex c \<Longrightarrow> c \<noteq> 0x78 \<and> c \<noteq> 0x58"
  by (auto simp: is_hex_unat)

lemma space_not_hex: "ends_word s \<Longrightarrow> s = [] \<or> \<not> is_hex (hd s)"
  using hex_not_space by (auto simp: ends_word_def)

lemma scan_hex_ok:
  assumes "list_all is_hex ds" "ds \<noteq> []" "num_value 16 ds < 2 ^ bits" "ends_word s"
  shows "scan_hex bits (ds @ s) = Some (num_value 16 ds, s)" "scan_hex bits ([0x30, 0x78] @ ds @ s) = Some (num_value 16 ds, s)"
proof -
  obtain c cs where ds: "ds = c # cs" "is_hex c" using assms(1,2) by (cases ds) auto
  have t: "takeWhile is_hex (ds @ s) = ds" using assms(1) space_not_hex[OF assms(4)] by (intro takeWhile_stops) auto
  have d: "dropWhile isspace (ds @ s) = ds @ s" using ds hex_not_space by (intro dropWhile_none) auto
  have z: "\<not> isspace 0x30" by (simp add: isspace_def)
  then have d0: "dropWhile isspace (0x30 # 0x78 # ds @ s) = 0x30 # 0x78 # ds @ s" by simp
  have sp: "\<not> (take 2 (ds @ s) = [0x30, 0x78] \<or> take 2 (ds @ s) = [0x30, 0x58])"
  proof (cases cs)
    case Nil
    then show ?thesis using ds assms(4) by (cases s) (auto simp: ends_word_def isspace_def)
  next
    case (Cons e es)
    then have "is_hex e" using assms(1) ds by simp
    then show ?thesis using ds Cons hex_not_sign(2)[of e] by auto
  qed
  have h: "hd (ds @ s) \<noteq> 0x2b \<and> hd (ds @ s) \<noteq> 0x2d" using ds hex_not_sign by simp
  show "scan_hex bits (ds @ s) = Some (num_value 16 ds, s)"
    using t d sp h assms(2,3) by (simp add: scan_hex_def Let_def)
  show "scan_hex bits ([0x30, 0x78] @ ds @ s) = Some (num_value 16 ds, s)"
    using t d0 assms(2,3) by (simp add: scan_hex_def Let_def)
qed

end
