(* ===== verification/Handheld_Agent.thy ===== *)
theory Handheld_Agent imports Unknown_Fields Digits begin

text \<open>
  The Handheld Agent record class (src/src/r_hhagent.cc, src/src/r_hhagent.h): parsing by a
  table that depends on the record id, and the conversion of serial numbers between their
  decimal and hexadecimal form. Dump, sorting and the field handles are left out.
\<close>

section \<open>Records\<close>

record hhagent =
  hh_RecType :: byte
  hh_RecordId :: u32
  MEID :: bytes
  hh_Model :: bytes
  Bands :: bytes
  Pin :: bytes
  hh_Version :: bytes
  PlatformVersion :: bytes
  Manufacturer :: bytes
  Network :: bytes
  hh_Unknowns :: "unknown_field list"

definition HHAFC3_MODEL :: byte where "HHAFC3_MODEL = 0x03"
definition HHAFC3_BANDS :: byte where "HHAFC3_BANDS = 0x07"
definition HHAFC3_VERSION :: byte where "HHAFC3_VERSION = 0x08"
definition HHAFC3_NETWORK :: byte where "HHAFC3_NETWORK = 0x0f"
definition HHAFC3_PIN :: byte where "HHAFC3_PIN = 0x10"
definition HHAFC3_MEID :: byte where "HHAFC3_MEID = 0x11"
definition HHAFC7_FIRMWARE :: byte where "HHAFC7_FIRMWARE = 0x13"
definition HHAFC7_MANUFACTURER :: byte where "HHAFC7_MANUFACTURER = 0x14"
definition HHAFC7_MODEL :: byte where "HHAFC7_MODEL = 0x15"
definition HHAFC7_PLATFORM :: byte where "HHAFC7_PLATFORM = 0x17"

lemmas hhagent_codes = HHAFC3_MODEL_def HHAFC3_BANDS_def HHAFC3_VERSION_def HHAFC3_NETWORK_def HHAFC3_PIN_def HHAFC3_MEID_def
  HHAFC7_FIRMWARE_def HHAFC7_MANUFACTURER_def HHAFC7_MODEL_def HHAFC7_PLATFORM_def

definition HandheldAgentFieldLinks_3000000 :: "hhagent field_link list" where
  "HandheldAgentFieldLinks_3000000 =
     [FieldLink HHAFC3_MODEL (StrMember hh_Model (\<lambda>s h. h\<lparr>hh_Model := s\<rparr>)) True,
      FieldLink HHAFC3_NETWORK (StrMember Network (\<lambda>s h. h\<lparr>Network := s\<rparr>)) True,
      FieldLink HHAFC3_BANDS (StrMember Bands (\<lambda>s h. h\<lparr>Bands := s\<rparr>)) True,
      FieldLink HHAFC3_MEID (StrMember MEID (\<lambda>s h. h\<lparr>MEID := s\<rparr>)) True,
      FieldLink HHAFC3_PIN (StrMember Pin (\<lambda>s h. h\<lparr>Pin := s\<rparr>)) True,
      FieldLink HHAFC3_VERSION (StrMember hh_Version (\<lambda>s h. h\<lparr>hh_Version := s\<rparr>)) True]"

definition HandheldAgentFieldLinks_7000000 :: "hhagent field_link list" where
  "HandheldAgentFieldLinks_7000000 =
     [FieldLink HHAFC7_MODEL (StrMember hh_Model (\<lambda>s h. h\<lparr>hh_Model := s\<rparr>)) True,
      FieldLink HHAFC7_MANUFACTURER (StrMember Manufacturer (\<lambda>s h. h\<lparr>Manufacturer := s\<rparr>)) True,
      FieldLink HHAFC7_FIRMWARE (StrMember hh_Version (\<lambda>s h. h\<lparr>hh_Version := s\<rparr>)) True,
      FieldLink HHAFC7_PLATFORM (StrMember PlatformVersion (\<lambda>s h. h\<lparr>PlatformVersion := s\<rparr>)) True]"

definition GetMEIDRecordId :: u32 where "GetMEIDRecordId = 0x3000000"
definition GetUnknown1RecordId :: u32 where "GetUnknown1RecordId = 0x4000000"
definition GetUnknown2RecordId :: u32 where "GetUnknown2RecordId = 0x5000000"
definition GetUnknown3RecordId :: u32 where "GetUnknown3RecordId = 0x7000000"

lemmas hhagent_ids = GetMEIDRecordId_def GetUnknown1RecordId_def GetUnknown2RecordId_def GetUnknown3RecordId_def

definition IsSpecial :: "u32 \<Rightarrow> bool" where
  "IsSpecial i \<longleftrightarrow> i = GetMEIDRecordId \<or> i = GetUnknown1RecordId \<or> i = GetUnknown2RecordId \<or> i = GetUnknown3RecordId"

text \<open>The table of a record id; the other tables are empty.\<close>

definition hhagent_links :: "u32 \<Rightarrow> hhagent field_link list" where
  "hhagent_links i =
     (if i = GetMEIDRecordId then HandheldAgentFieldLinks_3000000
      else if i = GetUnknown1RecordId then []
      else if i = GetUnknown2RecordId then []
      else if i = GetUnknown3RecordId then HandheldAgentFieldLinks_7000000
      else [])"

definition HandheldAgent_Clear :: hhagent where
  "HandheldAgent_Clear = \<lparr>hh_RecType = 0, hh_RecordId = 0, MEID = [], hh_Model = [], Bands = [], Pin = [], hh_Version = [],
     PlatformVersion = [], Manufacturer = [], Network = [], hh_Unknowns = []\<rparr>"

definition HandheldAgent_SetIds :: "byte \<Rightarrow> u32 \<Rightarrow> hhagent \<Rightarrow> hhagent" where
  "HandheldAgent_SetIds ty ident h = h\<lparr>hh_RecType := ty, hh_RecordId := ident\<rparr>"

definition HandheldAgent_handle :: "converter option \<Rightarrow> hhagent \<Rightarrow> byte \<Rightarrow> bytes \<Rightarrow> hhagent res" where
  "HandheldAgent_handle ic h ty raw =
     (if hh_RecordId h = 0
      then Inl (LogicError ''HandheldAgent requires SetIds() to be called before ParseField()'')
      else
        case parse_links (hhagent_links (hh_RecordId h)) ic h ty raw of
          Some r \<Rightarrow> r
        | None \<Rightarrow> Inr (h\<lparr>hh_Unknowns := hh_Unknowns h @ [(ty, raw)]\<rparr>))"

definition HandheldAgent_ParseField :: "converter option \<Rightarrow> hhagent \<Rightarrow> bytes \<Rightarrow> nat \<Rightarrow> (hhagent \<times> nat) res" where
  "HandheldAgent_ParseField ic = ParseField_start (HandheldAgent_handle ic)"

definition HandheldAgent_ParseHeader :: "hhagent \<Rightarrow> data \<Rightarrow> nat \<Rightarrow> hhagent \<times> nat" where
  "HandheldAgent_ParseHeader h d offset = (h, offset)"

definition HandheldAgent_ParseFields :: "converter option \<Rightarrow> hhagent \<Rightarrow> data \<Rightarrow> nat \<Rightarrow> (hhagent \<times> nat) res option" where
  "HandheldAgent_ParseFields ic h d offset = ParseCommonFields (HandheldAgent_ParseField ic) h (contents d) offset"

definition HandheldAgent_BuildHeader :: "hhagent \<Rightarrow> data \<Rightarrow> nat \<Rightarrow> data \<times> nat" where
  "HandheldAgent_BuildHeader h d offset = (d, offset)"

definition HandheldAgent_BuildFields :: "converter option \<Rightarrow> hhagent \<Rightarrow> data \<Rightarrow> nat \<Rightarrow> (data \<times> nat) res" where
  "HandheldAgent_BuildFields ic h d offset = Inr (d, offset)"

text \<open>The fields a record takes depend on its id.\<close>

definition hhagent_takes :: "hhagent \<Rightarrow> byte \<Rightarrow> bytes \<Rightarrow> bool" where
  "hhagent_takes h ty raw \<longleftrightarrow> links_take (hhagent_links (hh_RecordId h)) ty raw"

lemma hhagent_links_keep:
  "list_all (link_keeps hh_Unknowns) (hhagent_links i)" "list_all (link_keeps hh_RecordId) (hhagent_links i)"
  by (simp_all add: hhagent_links_def HandheldAgentFieldLinks_3000000_def HandheldAgentFieldLinks_7000000_def link_keeps_def)

interpretation hhagent_unknowns: unknown_keeper "HandheldAgent_ParseField ic" "\<lambda>_. HandheldAgent_handle ic" hh_Unknowns hhagent_takes for ic
proof unfold_locales
  fix raw :: bytes and ty and r r' :: hhagent
  assume h: "HandheldAgent_handle ic r ty raw = Inr r'"
  have r': "hh_Unknowns r' = hh_Unknowns r @ (if hhagent_takes r ty raw then [] else [(ty, raw)]) \<and> hh_RecordId r' = hh_RecordId r"
  proof (cases "parse_links (hhagent_links (hh_RecordId r)) ic r ty raw")
    case None
    then show ?thesis
      using h parse_links_take[of "hhagent_links (hh_RecordId r)" ic r ty raw]
      by (auto simp: HandheldAgent_handle_def hhagent_takes_def split: if_splits)
  next
    case (Some res)
    then have "parse_links (hhagent_links (hh_RecordId r)) ic r ty raw = Some (Inr r')" "hhagent_takes r ty raw"
      using h parse_links_take[of "hhagent_links (hh_RecordId r)" ic r ty raw]
      by (auto simp: HandheldAgent_handle_def hhagent_takes_def split: if_splits)
    then show ?thesis
      using parse_links_keeps[OF hhagent_links_keep(1)] parse_links_keeps[OF hhagent_links_keep(2)] by auto
  qed
  then show "hh_Unknowns r' = hh_Unknowns r @ (if hhagent_takes r ty raw then [] else [(ty, raw)])" by simp
  show "hhagent_takes r' = hhagent_takes r" using r' by (auto simp: hhagent_takes_def fun_eq_iff)
qed (simp add: HandheldAgent_ParseField_def)

section \<open>Serial numbers\<close>

text \<open>
  \<open>iss >> number\<close>: a run of digits that fits 32 bits is its value. What a stream makes of any
  other text (blanks, signs, prefixes, overflow) is the parameter \<open>other\<close>.
\<close>

definition stream_number :: "(bytes \<Rightarrow> nat option) \<Rightarrow> nat \<Rightarrow> bytes \<Rightarrow> nat option" where
  "stream_number other base s =
     (if s \<noteq> [] \<and> list_all (is_digit_of base) s \<and> num_value base s < 2 ^ 32 then Some (num_value base s) else other s)"

definition IsESNHex :: "bytes \<Rightarrow> bool" where "IsESNHex esn \<longleftrightarrow> length esn = 8 \<and> list_all is_hex esn"
definition IsESNDec :: "bytes \<Rightarrow> bool" where "IsESNDec esn \<longleftrightarrow> length esn = 11 \<and> list_all isdigit esn"

definition ESNDec2Hex :: "(bytes \<Rightarrow> nat option) \<Rightarrow> bytes \<Rightarrow> bytes" where
  "ESNDec2Hex other esn =
     (if length esn \<noteq> 11 then []
      else case stream_number other 10 (take 3 esn) of
        None \<Rightarrow> []
      | Some part1 \<Rightarrow>
          (case stream_number other 10 (drop 3 esn) of
             None \<Rightarrow> []
           | Some part2 \<Rightarrow> pad_number 16 2 part1 @ pad_number 16 6 part2))"

definition ESNHex2Dec :: "(bytes \<Rightarrow> nat option) \<Rightarrow> bytes \<Rightarrow> bytes" where
  "ESNHex2Dec other esn =
     (if length esn \<noteq> 8 then []
      else case stream_number other 16 (take 2 esn) of
        None \<Rightarrow> []
      | Some part1 \<Rightarrow>
          (case stream_number other 16 (drop 2 esn) of
             None \<Rightarrow> []
           | Some part2 \<Rightarrow> pad_number 10 3 part1 @ pad_number 10 8 part2))"

lemma stream_number_good:
  assumes "list_all (is_digit_of base) s" "base = 10 \<or> base = 16" "s \<noteq> []" "base ^ length s < 2 ^ 32"
  shows "stream_number other base s = Some (num_value base s)"
  using num_value_bound[OF assms(1,2)] assms by (simp add: stream_number_def)

lemma hex_to_dec:
  assumes "IsESNHex h"
  defines "p \<equiv> num_value 16 (take 2 h)" and "q \<equiv> num_value 16 (drop 2 h)"
  shows "ESNHex2Dec other h = pad_number 10 3 p @ pad_number 10 8 q" "p < 256" "q < 2 ^ 24"
proof -
  have h: "length h = 8" "list_all (is_digit_of 16) h" using assms(1) by (auto simp: IsESNHex_def digits_of)
  have t: "list_all (is_digit_of 16) (take 2 h)" "list_all (is_digit_of 16) (drop 2 h)"
    using h(2) by (auto simp: list_all_iff dest: in_set_takeD in_set_dropD)
  have l: "length (take 2 h) = 2" "length (drop 2 h) = 6" using h(1) by auto
  have ne: "take 2 h \<noteq> []" "drop 2 h \<noteq> []" using l by auto
  have "stream_number other 16 (take 2 h) = Some p" "stream_number other 16 (drop 2 h) = Some q"
    unfolding p_def q_def using t ne l by (auto intro!: stream_number_good)
  then show "ESNHex2Dec other h = pad_number 10 3 p @ pad_number 10 8 q" using h(1) by (simp add: ESNHex2Dec_def)
  show "p < 256" "q < 2 ^ 24" unfolding p_def q_def using num_value_bound[OF t(1)] num_value_bound[OF t(2)] l by simp_all
qed

lemma dec_to_hex:
  assumes "IsESNDec d"
  defines "p \<equiv> num_value 10 (take 3 d)" and "q \<equiv> num_value 10 (drop 3 d)"
  shows "ESNDec2Hex other d = pad_number 16 2 p @ pad_number 16 6 q"
proof -
  have d: "length d = 11" "list_all (is_digit_of 10) d" using assms(1) by (auto simp: IsESNDec_def digits_of)
  have t: "list_all (is_digit_of 10) (take 3 d)" "list_all (is_digit_of 10) (drop 3 d)"
    using d(2) by (auto simp: list_all_iff dest: in_set_takeD in_set_dropD)
  have l: "length (take 3 d) = 3" "length (drop 3 d) = 8" using d(1) by auto
  have ne: "take 3 d \<noteq> []" "drop 3 d \<noteq> []" using l by auto
  have "stream_number other 10 (take 3 d) = Some p" "stream_number other 10 (drop 3 d) = Some q"
    unfolding p_def q_def using t ne l by (auto intro!: stream_number_good)
  then show ?thesis using d(1) by (simp add: ESNDec2Hex_def)
qed

text \<open>
  The two forms of a serial number carry the same information: a hexadecimal number
  becomes a decimal one and comes back as itself in lower case; a decimal number whose parts
  fit eight and 24 bits becomes a hexadecimal one and comes back as itself.
\<close>

theorem ESN_roundtrip:
  "(IsESNHex h \<longrightarrow> IsESNDec (ESNHex2Dec other h) \<and> ESNDec2Hex other (ESNHex2Dec other h) = map lower h)
   \<and> (IsESNDec d \<and> num_value 10 (take 3 d) < 256 \<and> num_value 10 (drop 3 d) < 2 ^ 24 \<longrightarrow>
        IsESNHex (ESNDec2Hex other d) \<and> ESNHex2Dec other (ESNDec2Hex other d) = d)"
proof (intro conjI impI; (elim conjE)?)
  note g = pad_number_good[of 10, simplified] pad_number_good[of 16, simplified]
  assume h: "IsESNHex h"
  define p q where "p = num_value 16 (take 2 h)" and "q = num_value 16 (drop 2 h)"
  note hd = hex_to_dec(1)[OF h, folded p_def q_def, of other] hex_to_dec(2,3)[OF h, folded p_def q_def]
  have l: "length (pad_number 10 3 p) = 3" "length (pad_number 10 8 q) = 8" using g(4)[of p 3] g(4)[of q 8] hd by auto
  show dec: "IsESNDec (ESNHex2Dec other h)" using g(1) l by (simp add: hd IsESNDec_def digits_of)
  have parts: "take 3 (ESNHex2Dec other h) = pad_number 10 3 p" "drop 3 (ESNHex2Dec other h) = pad_number 10 8 q"
    using l by (simp_all add: hd)
  have digits: "list_all (is_digit_of 16) (take 2 h)" "list_all (is_digit_of 16) (drop 2 h)" "length h = 8" "h \<noteq> []"
    using h by (auto simp: IsESNHex_def digits_of list_all_iff dest: in_set_takeD in_set_dropD)
  have "pad_number 16 2 p = map lower (take 2 h)" "pad_number 16 6 q = map lower (drop 2 h)"
    using pad_number_value[OF digits(1)] pad_number_value[OF digits(2)] digits(3,4) by (auto simp: p_def q_def)
  then show "ESNDec2Hex other (ESNHex2Dec other h) = map lower h"
    using dec_to_hex[OF dec, of other] unfolding parts g(2) by (simp flip: map_append)
next
  note g = pad_number_good[of 10, simplified] pad_number_good[of 16, simplified]
  assume d: "IsESNDec d" and small: "num_value 10 (take 3 d) < 256" "num_value 10 (drop 3 d) < 2 ^ 24"
  define p q where "p = num_value 10 (take 3 d)" and "q = num_value 10 (drop 3 d)"
  note dh = dec_to_hex[OF d, folded p_def q_def, of other]
  have l: "length (pad_number 16 2 p) = 2" "length (pad_number 16 6 q) = 6"
    using g(8)[of p 2] g(8)[of q 6] small by (auto simp: p_def q_def)
  show hex: "IsESNHex (ESNDec2Hex other d)" using g(5) l by (simp add: dh IsESNHex_def digits_of)
  have parts: "take 2 (ESNDec2Hex other d) = pad_number 16 2 p" "drop 2 (ESNDec2Hex other d) = pad_number 16 6 q"
    using l by (simp_all add: dh)
  have digits: "list_all (is_digit_of 10) (take 3 d)" "list_all (is_digit_of 10) (drop 3 d)" "length d = 11" "map lower d = d" "d \<noteq> []"
    using d lower_digit by (auto simp: IsESNDec_def digits_of list_all_iff map_idI dest: in_set_takeD in_set_dropD)
  have "pad_number 10 3 p = map lower (take 3 d)" "pad_number 10 8 q = map lower (drop 3 d)"
    using pad_number_value[OF digits(1)] pad_number_value[OF digits(2)] digits(3,5) by (auto simp: p_def q_def)
  then show "ESNHex2Dec other (ESNDec2Hex other d) = d"
    using hex_to_dec(1)[OF hex, of other] digits(4) unfolding parts g(6) by (simp flip: map_append)
qed

lemma ESN_roundtrip_witness:
  "ESNDec2Hex (\<lambda>_. None) (ESNHex2Dec (\<lambda>_. None) (lit ''4C070068'')) = lit ''4c070068''"
proof -
  have h: "IsESNHex (lit ''4C070068'')" by (simp add: IsESNHex_def lit_def is_hex_def isdigit_def)
  have "map lower (lit ''4C070068'') = lit ''4c070068''" by (simp add: lit_def lower_def)
  then show ?thesis using ESN_roundtrip[of "lit ''4C070068''" "\<lambda>_. None" "[]"] h by simp
qed

end
