(* ===== verification/Time_Zone.thy ===== *)
theory Time_Zone imports Unknown_Fields Dates "HOL-Library.Multiset" begin

text \<open>
  The TimeZone record class and the list of time zones (src/src/r_timezone.cc,
  src/src/r_timezone.h): parsing, splitting an offset into hours and minutes, the text for
  the TZ variable, and searching. Dump, the description with its floating point number and
  loading from a device, which is LoadDatabase with a parser, are left out.
\<close>

section \<open>Records\<close>

record time_zone =
  tz_RecType :: byte
  tz_RecordId :: u32
  tz_Name :: bytes
  Index :: int
  UTCOffset :: int
  UseDST :: bool
  DSTOffset :: u32
  StartMonth :: u32
  EndMonth :: u32
  TZType :: byte
  tz_Unknowns :: "unknown_field list"

definition TZFC_INDEX :: byte where "TZFC_INDEX = 0x01"
definition TZFC_NAME :: byte where "TZFC_NAME = 0x02"
definition TZFC_OFFSET :: byte where "TZFC_OFFSET = 0x03"
definition TZFC_DST :: byte where "TZFC_DST = 0x04"
definition TZFC_STARTMONTH :: byte where "TZFC_STARTMONTH = 0x06"
definition TZFC_ENDMONTH :: byte where "TZFC_ENDMONTH = 0x0B"
definition TZFC_TZTYPE :: byte where "TZFC_TZTYPE = 0x64"

lemmas zone_codes = TZFC_INDEX_def TZFC_NAME_def TZFC_OFFSET_def TZFC_DST_def TZFC_STARTMONTH_def TZFC_ENDMONTH_def TZFC_TZTYPE_def

definition TimeZoneFieldLinks :: "time_zone field_link list" where
  "TimeZoneFieldLinks = [FieldLink TZFC_NAME (StrMember tz_Name (\<lambda>s z. z\<lparr>tz_Name := s\<rparr>)) True]"

definition TimeZone_Clear :: time_zone where
  "TimeZone_Clear = \<lparr>tz_RecType = 2, tz_RecordId = 0, tz_Name = [], Index = 0, UTCOffset = 0, UseDST = False, DSTOffset = 0,
     StartMonth = - 1, EndMonth = - 1, TZType = 0, tz_Unknowns = []\<rparr>"

definition TimeZone_SetIds :: "byte \<Rightarrow> u32 \<Rightarrow> time_zone \<Rightarrow> time_zone" where
  "TimeZone_SetIds ty ident z = z\<lparr>tz_RecType := ty, tz_RecordId := ident\<rparr>"

text \<open>The constructors; minutes count in the direction of the hours.\<close>

definition TimeZone_offset :: "int \<Rightarrow> time_zone" where
  "TimeZone_offset utc_offset = TimeZone_Clear\<lparr>UTCOffset := utc_offset\<rparr>"

definition TimeZone_new :: "int \<Rightarrow> int \<Rightarrow> time_zone" where
  "TimeZone_new hours minutes =
     (let minutes = (if minutes < 0 then - minutes else minutes)
      in TimeZone_Clear\<lparr>UTCOffset := (if hours < 0 then hours * 60 - minutes else hours * 60 + minutes)\<rparr>)"

section \<open>Parsing\<close>

text \<open>
  The integers are read without a look at the size of the field. The type is assigned to a
  byte before it is compared.
\<close>

definition TimeZone_handle :: "converter option \<Rightarrow> bytes \<Rightarrow> time_zone \<Rightarrow> byte \<Rightarrow> bytes \<Rightarrow> time_zone res" where
  "TimeZone_handle ic rest z ty raw =
     (if ty = TZFC_TZTYPE
      then rbind (rd32 (raw @ rest) 0) (\<lambda>v.
             if (ucast v :: byte) \<noteq> 1 then Inl (BarryError ''TimeZone::ParseField: TimeZone Type is not valid'')
             else Inr (z\<lparr>TZType := ucast v\<rparr>))
      else
        case parse_links TimeZoneFieldLinks ic z ty raw of
          Some r \<Rightarrow> r
        | None \<Rightarrow>
            if ty = TZFC_INDEX then rbind (rd32 (raw @ rest) 0) (\<lambda>v. Inr (z\<lparr>Index := sint v\<rparr>))
            else if ty = TZFC_OFFSET then rbind (rd16 (raw @ rest) 0) (\<lambda>v. Inr (z\<lparr>UTCOffset := sint v\<rparr>))
            else if ty = TZFC_DST
            then rbind (rd32 (raw @ rest) 0) (\<lambda>v. Inr (z\<lparr>DSTOffset := v, UseDST := (UseDST z \<or> v \<noteq> 0)\<rparr>))
            else if ty = TZFC_STARTMONTH then rbind (rd32 (raw @ rest) 0) (\<lambda>v. Inr (z\<lparr>StartMonth := v\<rparr>))
            else if ty = TZFC_ENDMONTH then rbind (rd32 (raw @ rest) 0) (\<lambda>v. Inr (z\<lparr>EndMonth := v\<rparr>))
            else Inr (z\<lparr>tz_Unknowns := tz_Unknowns z @ [(ty, raw)]\<rparr>))"

definition TimeZone_ParseField :: "converter option \<Rightarrow> time_zone \<Rightarrow> bytes \<Rightarrow> nat \<Rightarrow> (time_zone \<times> nat) res" where
  "TimeZone_ParseField ic z bs b = ParseField_start (TimeZone_handle ic (drop (next_field bs b) bs)) z bs b"

definition TimeZone_ParseHeader :: "time_zone \<Rightarrow> data \<Rightarrow> nat \<Rightarrow> time_zone \<times> nat" where
  "TimeZone_ParseHeader z d offset = (z, offset)"

definition TimeZone_ParseFields :: "converter option \<Rightarrow> time_zone \<Rightarrow> data \<Rightarrow> nat \<Rightarrow> (time_zone \<times> nat) res option" where
  "TimeZone_ParseFields ic z d offset = ParseCommonFields (TimeZone_ParseField ic) z (contents d) offset"

definition TimeZone_BuildHeader :: "time_zone \<Rightarrow> data \<Rightarrow> nat \<Rightarrow> data \<times> nat" where
  "TimeZone_BuildHeader z d offset = (d, offset)"

definition TimeZone_BuildFields :: "converter option \<Rightarrow> time_zone \<Rightarrow> data \<Rightarrow> nat \<Rightarrow> (data \<times> nat) res" where
  "TimeZone_BuildFields ic z d offset = Inr (d, offset)"

definition zone_known :: "byte list" where "zone_known = [0x01, 0x02, 0x03, 0x04, 0x06, 0x0B, 0x64]"

interpretation zone_unknowns: unknown_keeper "TimeZone_ParseField ic" "TimeZone_handle ic" tz_Unknowns
  "\<lambda>_ ty _. ty \<in> set zone_known" for ic
  by unfold_locales
    (auto simp: TimeZone_ParseField_def TimeZone_handle_def TimeZoneFieldLinks_def zone_codes zone_known_def Let_def rbind_eq_Inr
       split: if_splits)

text \<open>A zone as the device sends it.\<close>

lemma TimeZone_reads:
  assumes "text_ok ic s"
  shows "parse_list (TimeZone_handle ic) z
      [(TZFC_TZTYPE, le32 1), (TZFC_INDEX, le32 i), (TZFC_NAME, to_bb ic s @ [0]), (TZFC_OFFSET, le16 off), (TZFC_DST, le32 dst),
       (TZFC_STARTMONTH, le32 m), (TZFC_ENDMONTH, le32 n)]
     = Inr (z\<lparr>TZType := 1, Index := sint i, tz_Name := s, UTCOffset := sint off, DSTOffset := dst, UseDST := (UseDST z \<or> dst \<noteq> 0),
         StartMonth := m, EndMonth := n\<rparr>)"
proof -
  have ne: "le32 v \<noteq> []" "le16 w \<noteq> []" for v w by (simp_all add: le32_def le16_def)
  show ?thesis
    using ParseFieldString_text[OF assms]
    by (simp add: TimeZone_handle_def TimeZoneFieldLinks_def zone_codes Let_def ne rd32_def rd16_def)
qed

section \<open>Offsets\<close>

definition IsWest :: "time_zone \<Rightarrow> bool" where "IsWest z \<longleftrightarrow> UTCOffset z < 0"

definition Split :: "time_zone \<Rightarrow> int \<times> int" where
  "Split z =
     (let minutes = UTCOffset z smod 60
      in (UTCOffset z sdiv 60, if minutes < 0 then - minutes else minutes))"

definition SplitAbsolute :: "time_zone \<Rightarrow> bool \<times> int \<times> int" where
  "SplitAbsolute z =
     (let (hours, minutes) = Split z
      in (hours < 0, if hours < 0 then - hours else hours, minutes))"

definition tz_part :: "bytes \<Rightarrow> string \<Rightarrow> int \<Rightarrow> int \<Rightarrow> bytes" where
  "tz_part prefix suffix hours minutes = prefix @ lit suffix @ show_int hours @ lit '':'' @ put_int 2 minutes @ lit '':00''"

text \<open>The sum of offset and daylight saving is unsigned; \<open>TimeZone_offset\<close> takes it as an int.\<close>

definition GetTz :: "time_zone \<Rightarrow> bytes \<Rightarrow> bytes" where
  "GetTz z prefix =
     (let (hours, minutes) = Split z
      in tz_part prefix ''ST'' (- hours) minutes
         @ (if UseDST z
            then let dst = TimeZone_offset (sint (word_of_int (UTCOffset z) + DSTOffset z :: u32));
                     (hours, minutes) = Split dst
                 in tz_part prefix ''DT'' (- hours) minutes
                    @ lit '',M'' @ show_int (uint (StartMonth z + 1)) @ lit ''.2.0''
                    @ lit '',M'' @ show_int (uint (EndMonth z + 1)) @ lit ''.1.0''
            else []))"

text \<open>Truncating division by 60, for the two signs.\<close>

lemma split_signs:
  "0 \<le> n \<Longrightarrow> n sdiv (60 :: int) = n div 60 \<and> n smod 60 = n mod 60"
  "n < 0 \<Longrightarrow> n sdiv (60 :: int) = - (- n div 60) \<and> n smod 60 = - (- n mod 60)"
  by (auto simp: signed_divide_int_def signed_modulo_int_def sgn_if minus_mult_div_eq_mod algebra_simps)

lemma Split_cases:
  "0 \<le> UTCOffset z \<Longrightarrow> Split z = (UTCOffset z div 60, UTCOffset z mod 60)"
  "UTCOffset z < 0 \<Longrightarrow> Split z = (- (- UTCOffset z div 60), - UTCOffset z mod 60)"
  using split_signs[of "UTCOffset z"] pos_mod_sign[of 60 "- UTCOffset z"] pos_mod_sign[of 60 "UTCOffset z"]
  by (auto simp: Split_def Let_def)


text \<open>
  C34: Splitting an offset and building it again fails exactly for the offsets within the
  hour west of UTC: their hours are 0 and carry no sign. There \<open>SplitAbsolute\<close> does not
  say west although \<open>IsWest\<close> does, and the TZ text is the one of the zone as far to the east.
\<close>

theorem Split_loses_sign:
  "(UTCOffset (TimeZone_new (fst (Split z)) (snd (Split z))) = UTCOffset z \<longleftrightarrow> \<not> (- 60 < UTCOffset z \<and> UTCOffset z < 0))
   \<and> (fst (SplitAbsolute z) = IsWest z \<longleftrightarrow> \<not> (- 60 < UTCOffset z \<and> UTCOffset z < 0))
   \<and> (- 60 < UTCOffset z \<and> UTCOffset z < 0 \<and> \<not> UseDST z \<longrightarrow> GetTz z prefix = GetTz (z\<lparr>UTCOffset := - UTCOffset z\<rparr>) prefix)"
proof (cases "0 \<le> UTCOffset z")
  case True
  then have d: "0 \<le> UTCOffset z div 60" "0 \<le> UTCOffset z mod 60" "UTCOffset z div 60 * 60 + UTCOffset z mod 60 = UTCOffset z" by auto
  then show ?thesis
    using True by (auto simp: Split_cases TimeZone_new_def Let_def SplitAbsolute_def IsWest_def)
next
  case False
  define n where "n = - UTCOffset z"
  have n: "0 < n" "UTCOffset z = - n" using False by (auto simp: n_def)
  have s: "Split z = (- (n div 60), n mod 60)" using False Split_cases(2)[of z] by (simp add: n_def)
  have d: "0 \<le> n mod 60" "n div 60 * 60 + n mod 60 = n" "n div 60 \<noteq> 0 \<longleftrightarrow> 60 \<le> n" "0 \<le> n div 60" "n mod 60 < 60"
    using n(1) by (auto simp: div_eq_0_iff)
  have new: "UTCOffset (TimeZone_new (- (n div 60)) (n mod 60)) = (if 60 \<le> n then - n else n mod 60)"
    using d(1,3-5) by (auto simp: TimeZone_new_def Let_def; use div_mult_mod_eq[of n 60] in linarith)
  have east: "Split (z\<lparr>UTCOffset := n\<rparr>) = (n div 60, n mod 60)" using n(1) Split_cases(1)[of "z\<lparr>UTCOffset := n\<rparr>"] by simp
  have small: "n < 60 \<Longrightarrow> n div 60 = 0" using n(1) by simp
  show ?thesis
    unfolding s fst_conv snd_conv new
    using d n small east s by (auto simp: SplitAbsolute_def IsWest_def GetTz_def Let_def)
qed

lemma Split_loses_sign_witness:
  "fst (SplitAbsolute (TimeZone_offset (- 30))) \<noteq> IsWest (TimeZone_offset (- 30))
   \<and> GetTz (TimeZone_offset (- 30)) (lit ''E'') = GetTz (TimeZone_offset 30) (lit ''E'')"
  using Split_loses_sign[of "TimeZone_offset (- 30)" "lit ''E''"] by (simp add: TimeZone_offset_def TimeZone_Clear_def)

section \<open>The list of the static zones\<close>

definition zone_record :: "(bytes \<Rightarrow> bytes) \<Rightarrow> static_time_zone \<Rightarrow> time_zone" where
  "zone_record gettext z = (TimeZone_new (HourOffset z) (MinOffset z))\<lparr>Index := uint (Code z), tz_Name := gettext (lit (Name z))\<rparr>"

text \<open>The constructed list; std::sort leaves the order of zones with the same offset open.\<close>

definition TimeZones :: "(bytes \<Rightarrow> bytes) \<Rightarrow> time_zone list \<Rightarrow> bool" where
  "TimeZones gettext zs \<longleftrightarrow> mset zs = mset (map (zone_record gettext) Zones) \<and> sorted (map UTCOffset zs)"

definition TimeZones_Find :: "time_zone list \<Rightarrow> int \<Rightarrow> time_zone option" where
  "TimeZones_Find zs index = find (\<lambda>z. Index z = index) zs"

definition TimeZones_FindByOffset :: "time_zone list \<Rightarrow> int \<Rightarrow> time_zone option" where
  "TimeZones_FindByOffset zs utc_offset = find (\<lambda>z. UTCOffset z = utc_offset) zs"

lemma Zones_offsets: "list_all (\<lambda>z. HourOffset z \<noteq> 0 \<or> MinOffset z = 0) Zones"
  by code_simp

lemma find_unique:
  assumes "distinct (map f xs)" and "x \<in> set xs" shows "find (\<lambda>y. f y = f x) xs = Some x"
  using assms by (induction xs) (auto simp: image_iff)

text \<open>In any such list a static zone is found by its code.\<close>

lemma TimeZones_find:
  assumes "TimeZones gettext zs" and "z \<in> set Zones"
  shows "TimeZones_Find zs (uint (Code z)) = Some (zone_record gettext z)"
proof -
  have m: "mset zs = mset (map (zone_record gettext) Zones)" using assms(1) by (simp add: TimeZones_def)
  then have "mset (map Index zs) = mset (map Index (map (zone_record gettext) Zones))" by (metis mset_map)
  also have "map Index (map (zone_record gettext) Zones) = map (\<lambda>z. uint (Code z)) Zones" by (simp add: zone_record_def)
  finally have i: "mset (map Index zs) = mset (map (\<lambda>z. uint (Code z)) Zones)" .
  have "distinct (map uint (map Code Zones))" using distinct_codes by (subst distinct_map) (auto intro!: inj_onI simp: word_uint_eq_iff)
  then have "distinct (map (\<lambda>z. uint (Code z)) Zones)" by (simp add: comp_def)
  then have "distinct (map Index zs)" using i by (metis mset_eq_imp_distinct_iff)
  moreover have "zone_record gettext z \<in> set zs" using m assms(2) by (metis imageI image_set set_mset_mset)
  ultimately have "find (\<lambda>y. Index y = Index (zone_record gettext z)) zs = Some (zone_record gettext z)" by (rule find_unique)
  then show ?thesis by (simp add: TimeZones_Find_def zone_record_def)
qed

end
