(* ===== verification/Sms.thy ===== *)
theory Sms imports Unknown_Fields begin

text \<open>
  The SMS record class (src/src/r_sms.cc, src/src/r_sms.h), which is only parsed: the meta
  data, the addresses, the body in its three coding schemes, and the conversion of the
  GSM 03.38 alphabet to UTF-8. Dump and the field handles are left out.
\<close>

section \<open>State\<close>

datatype MessageType = MsgUnknown | MsgReceived | MsgSent | MsgDraft
datatype DeliveryType = NoReport | DeliveryFailed | Succeeded
datatype DataCodingSchemeType = SevenBit | EightBit | UCS2

record sms =
  sms_RecType :: byte
  sms_RecordId :: u32
  MessageStatus :: MessageType
  DeliveryStatus :: DeliveryType
  IsNew :: bool
  NewConversation :: bool
  Saved :: bool
  Deleted :: bool
  Opened :: bool
  sms_Timestamp :: u64
  ServiceCenterTimestamp :: u64
  DataCodingScheme :: DataCodingSchemeType
  ErrorId :: u32
  Addresses :: "bytes list"
  sms_Body :: bytes
  sms_Unknowns :: "unknown_field list"

definition SMSFC_METADATA :: byte where "SMSFC_METADATA = 0x01"
definition SMSFC_ADDRESS :: byte where "SMSFC_ADDRESS = 0x02"
definition SMSFC_BODY :: byte where "SMSFC_BODY = 0x04"
definition SMS_ADDRESS_HEADER_SIZE :: nat where "SMS_ADDRESS_HEADER_SIZE = 0x04"
definition SMS_METADATA_SIZE :: nat where "SMS_METADATA_SIZE = 1 + 1 + 1 + 2 + 4 + 4 + 8 + 8 + 1"
definition SMS_FLG_NEW_CONVERSATION :: byte where "SMS_FLG_NEW_CONVERSATION = 0x20"
definition SMS_FLG_SAVED :: byte where "SMS_FLG_SAVED = 0x10"
definition SMS_FLG_DELETED :: byte where "SMS_FLG_DELETED = 0x08"
definition SMS_FLG_OPENED :: byte where "SMS_FLG_OPENED = 0x01"
definition SMS_STA_RECEIVED :: u32 where "SMS_STA_RECEIVED = 0x000007ff"
definition SMS_STA_DRAFT :: u32 where "SMS_STA_DRAFT = 0x7fffffff"
definition SMS_DCS_7BIT :: byte where "SMS_DCS_7BIT = 0x00"
definition SMS_DCS_8BIT :: byte where "SMS_DCS_8BIT = 0x01"
definition SMS_DCS_UCS2 :: byte where "SMS_DCS_UCS2 = 0x02"
definition SMS_MILLISECONDS :: u64 where "SMS_MILLISECONDS = 1000"

lemmas sms_codes = SMSFC_METADATA_def SMSFC_ADDRESS_def SMSFC_BODY_def SMS_ADDRESS_HEADER_SIZE_def SMS_METADATA_SIZE_def
  SMS_FLG_NEW_CONVERSATION_def SMS_FLG_SAVED_def SMS_FLG_DELETED_def SMS_FLG_OPENED_def SMS_STA_RECEIVED_def SMS_STA_DRAFT_def
  SMS_DCS_7BIT_def SMS_DCS_8BIT_def SMS_DCS_UCS2_def

definition Sms_Clear :: sms where
  "Sms_Clear = \<lparr>sms_RecType = 5, sms_RecordId = 0, MessageStatus = MsgUnknown, DeliveryStatus = NoReport, IsNew = False,
     NewConversation = False, Saved = False, Deleted = False, Opened = False, sms_Timestamp = 0, ServiceCenterTimestamp = 0,
     DataCodingScheme = SevenBit, ErrorId = 0, Addresses = [], sms_Body = [], sms_Unknowns = []\<rparr>"

definition Sms_SetIds :: "byte \<Rightarrow> u32 \<Rightarrow> sms \<Rightarrow> sms" where
  "Sms_SetIds ty ident m = m\<lparr>sms_RecType := ty, sms_RecordId := ident\<rparr>"

definition Sms_GetTime :: "sms \<Rightarrow> int" where "Sms_GetTime m = uint (sms_Timestamp m div SMS_MILLISECONDS)"
definition Sms_GetServiceCenterTime :: "sms \<Rightarrow> int" where
  "Sms_GetServiceCenterTime m = uint (ServiceCenterTimestamp m div SMS_MILLISECONDS)"

definition Sms_SetTime :: "int \<Rightarrow> u32 \<Rightarrow> sms \<Rightarrow> sms" where
  "Sms_SetTime timestamp milliseconds m = m\<lparr>sms_Timestamp := word_of_int timestamp * SMS_MILLISECONDS + ucast milliseconds\<rparr>"

definition Sms_SetServiceCenterTime :: "int \<Rightarrow> u32 \<Rightarrow> sms \<Rightarrow> sms" where
  "Sms_SetServiceCenterTime timestamp milliseconds m =
     m\<lparr>ServiceCenterTimestamp := word_of_int timestamp * SMS_MILLISECONDS + ucast milliseconds\<rparr>"

section \<open>The GSM alphabet\<close>

definition GsmTable :: "bytes list" where
  "GsmTable =
     [[0x40], [0xc2, 0xa3], [0x24], [0xc2, 0xa5], [0xc3, 0xa8], [0xc3, 0xa9], [0xc3, 0xb9], [0xc3, 0xac],
      [0xc3, 0xb2], [0xc3, 0x87], [0x0a], [0xc3, 0x98], [0xc3, 0xb8], [0x0d], [0xc3, 0x85], [0xc3, 0xa5],
      [0xce, 0x94], [0x5f], [0xce, 0xa6], [0xce, 0x93], [0xce, 0x9b], [0xce, 0xa9], [0xce, 0xa0], [0xce, 0xa8],
      [0xce, 0xa3], [0xce, 0x98], [0xce, 0x9e], [0x20], [0xc3, 0x86], [0xc3, 0xa6], [0xc3, 0x9f], [0xc3, 0x89],
      [0x20], [0x21], [0x22], [0x23], [0xc2, 0xa4], [0x25], [0x26], [0x27],
      [0x28], [0x29], [0x2a], [0x2b], [0x2c], [0x2d], [0x2e], [0x2f],
      [0x30], [0x31], [0x32], [0x33], [0x34], [0x35], [0x36], [0x37],
      [0x38], [0x39], [0x3a], [0x3b], [0x3c], [0x3d], [0x3e], [0x3f],
      [0xc2, 0xa1], [0x41], [0x42], [0x43], [0x44], [0x45], [0x46], [0x47],
      [0x48], [0x49], [0x4a], [0x4b], [0x4c], [0x4d], [0x4e], [0x4f],
      [0x50], [0x51], [0x52], [0x53], [0x54], [0x55], [0x56], [0x57],
      [0x58], [0x59], [0x5a], [0xc3, 0x84], [0xc3, 0x96], [0xc3, 0x91], [0xc3, 0x9c], [0xc2, 0xa7],
      [0xc2, 0xbf], [0x61], [0x62], [0x63], [0x64], [0x65], [0x66], [0x67],
      [0x68], [0x69], [0x6a], [0x6b], [0x6c], [0x6d], [0x6e], [0x6f],
      [0x70], [0x71], [0x72], [0x73], [0x74], [0x75], [0x76], [0x77],
      [0x78], [0x79], [0x7a], [0xc3, 0xa4], [0xc3, 0xb6], [0xc3, 0xb1], [0xc3, 0xbc], [0xc3, 0xa0]]"

definition GsmExtensionTable :: "bytes list" where
  "GsmExtensionTable =
     [[], [], [], [], [], [], [], [],
      [], [], [0x0c], [], [], [], [], [],
      [], [], [], [], [0x5e], [], [], [],
      [], [], [], [0x20], [], [], [], [],
      [], [], [], [], [], [], [], [],
      [0x7b], [0x7d], [], [], [], [], [], [0x5c],
      [], [], [], [], [], [], [], [],
      [], [], [], [], [0x5b], [0x7e], [0x5d], [],
      [0x7c], [], [], [], [], [], [], [],
      [], [], [], [], [], [], [], [],
      [], [], [], [], [], [], [], [],
      [], [], [], [], [], [], [], [],
      [], [], [], [], [], [0xe2, 0x82, 0xac], [], [],
      [], [], [], [], [], [], [], [],
      [], [], [], [], [], [], [], [],
      [], [], [], [], [], [], [], []]"

text \<open>The index loop, one or two characters per turn.\<close>

fun ConvertGsmToUtf8 :: "bytes \<Rightarrow> bytes" where
  "ConvertGsmToUtf8 [] = []"
| "ConvertGsmToUtf8 [c] = (if c > 0x7f then [] else if c = 0x1b then [] else GsmTable ! unat c)"
| "ConvertGsmToUtf8 (c # d # s) =
     (if c > 0x7f then ConvertGsmToUtf8 (d # s)
      else if c = 0x1b then (if d \<le> 0x7f then GsmExtensionTable ! unat d else []) @ ConvertGsmToUtf8 s
      else GsmTable ! unat c @ ConvertGsmToUtf8 (d # s))"

section \<open>Parsing\<close>

text \<open>The conversions of an IConverter that are used here: to its own character set, from three others.\<close>

record sms_converter =
  from_utf8 :: "bytes \<Rightarrow> bytes"
  from_device :: "bytes \<Rightarrow> bytes"
  from_ucs2 :: "bytes \<Rightarrow> bytes"

definition parse_metadata :: "bytes \<Rightarrow> sms \<Rightarrow> sms" where
  "parse_metadata raw m =
     (let flags = byte_at raw 1; status = get32 raw 5; dcs = byte_at raw 29
      in m\<lparr>NewConversation := (flags AND SMS_FLG_NEW_CONVERSATION \<noteq> 0), Saved := (flags AND SMS_FLG_SAVED \<noteq> 0),
           Deleted := (flags AND SMS_FLG_DELETED \<noteq> 0), Opened := (flags AND SMS_FLG_OPENED \<noteq> 0),
           IsNew := (byte_at raw 2 \<noteq> 0),
           MessageStatus := (if status = SMS_STA_RECEIVED then MsgReceived else if status = SMS_STA_DRAFT then MsgDraft else MsgSent),
           ErrorId := get32 raw 9, sms_Timestamp := get64 raw 13, ServiceCenterTimestamp := get64 raw 21,
           DataCodingScheme := (if dcs = SMS_DCS_7BIT then SevenBit else if dcs = SMS_DCS_8BIT then EightBit
             else if dcs = SMS_DCS_UCS2 then UCS2 else SevenBit)\<rparr>)"

text \<open>Two bytes that are both 0 are left out; a single byte at the end is not looked at.\<close>

fun strip_pairs :: "bytes \<Rightarrow> bytes" where
  "strip_pairs (a # b # s) = (if a \<noteq> 0 \<or> b \<noteq> 0 then [a, b] else []) @ strip_pairs s"
| "strip_pairs s = []"

definition convert_body :: "sms_converter option \<Rightarrow> DataCodingSchemeType \<Rightarrow> bytes \<Rightarrow> bytes" where
  "convert_body ic dcs body =
     (case ic of
        None \<Rightarrow> body
      | Some c \<Rightarrow>
          (case dcs of
             SevenBit \<Rightarrow> from_utf8 c (ConvertGsmToUtf8 body)
           | EightBit \<Rightarrow> from_device c body
           | UCS2 \<Rightarrow> from_ucs2 c body))"

text \<open>The body is appended to what is there, and all of it is converted.\<close>

definition parse_body :: "sms_converter option \<Rightarrow> bytes \<Rightarrow> sms \<Rightarrow> sms" where
  "parse_body ic raw m =
     m\<lparr>sms_Body := convert_body ic (DataCodingScheme m)
         (sms_Body m @ (if DataCodingScheme m \<noteq> UCS2 then filter (\<lambda>c. c \<noteq> 0) raw else strip_pairs raw))\<rparr>"

definition Sms_handle :: "sms_converter option \<Rightarrow> sms \<Rightarrow> byte \<Rightarrow> bytes \<Rightarrow> sms res" where
  "Sms_handle ic m ty raw =
     (if ty = SMSFC_METADATA \<and> length raw \<ge> SMS_METADATA_SIZE then Inr (parse_metadata raw m)
      else if ty = SMSFC_ADDRESS \<and> length raw \<ge> SMS_ADDRESS_HEADER_SIZE + 1
      then Inr (m\<lparr>Addresses := Addresses m @ [c_str (drop SMS_ADDRESS_HEADER_SIZE raw)]\<rparr>)
      else if ty = SMSFC_BODY then Inr (parse_body ic raw m)
      else Inr (m\<lparr>sms_Unknowns := sms_Unknowns m @ [(ty, raw)]\<rparr>))"

definition Sms_ParseField :: "sms_converter option \<Rightarrow> sms \<Rightarrow> bytes \<Rightarrow> nat \<Rightarrow> (sms \<times> nat) res" where
  "Sms_ParseField ic = ParseField_start (Sms_handle ic)"

definition Sms_ParseHeader :: "sms \<Rightarrow> data \<Rightarrow> nat \<Rightarrow> sms \<times> nat" where
  "Sms_ParseHeader m d offset = (m, offset)"

definition Sms_ParseFields :: "sms_converter option \<Rightarrow> sms \<Rightarrow> data \<Rightarrow> nat \<Rightarrow> (sms \<times> nat) res option" where
  "Sms_ParseFields ic m d offset = ParseCommonFields (Sms_ParseField ic) m (contents d) offset"

definition Sms_BuildHeader :: "sms \<Rightarrow> data \<Rightarrow> nat \<Rightarrow> data \<times> nat" where
  "Sms_BuildHeader m d offset = (d, offset)"

definition Sms_BuildFields :: "converter option \<Rightarrow> sms \<Rightarrow> data \<Rightarrow> nat \<Rightarrow> (data \<times> nat) res" where
  "Sms_BuildFields ic m d offset = Inr (d, offset)"

definition Sms_GetDescription :: "(bytes \<Rightarrow> bytes) \<Rightarrow> sms \<Rightarrow> bytes" where
  "Sms_GetDescription gettext m = (if Addresses m \<noteq> [] then Addresses m ! 0 else gettext (lit ''Unknown destination''))"

definition sms_takes :: "byte \<Rightarrow> bytes \<Rightarrow> bool" where
  "sms_takes ty raw \<longleftrightarrow> ty = 0x01 \<and> length raw \<ge> 30 \<or> ty = 0x02 \<and> length raw \<ge> 5 \<or> ty = 0x04"

interpretation sms_unknowns: unknown_keeper "Sms_ParseField ic" "\<lambda>_. Sms_handle ic" sms_Unknowns "\<lambda>_. sms_takes" for ic
  by unfold_locales
    (auto simp: Sms_ParseField_def Sms_handle_def sms_codes sms_takes_def parse_metadata_def parse_body_def Let_def split: if_splits)


section \<open>The converted text is UTF-8\<close>

text \<open>Well-formed UTF-8 (RFC 3629): no overlong forms, no surrogates, nothing above U+10FFFF.\<close>

definition continues :: "byte \<Rightarrow> bool" where "continues b \<longleftrightarrow> 0x80 \<le> b \<and> b \<le> 0xbf"

fun utf8_valid :: "bytes \<Rightarrow> bool" where
  "utf8_valid [] = True"
| "utf8_valid (a # s) =
     (if a < 0x80 then utf8_valid s
      else case s of
        [] \<Rightarrow> False
      | b # t \<Rightarrow>
          if 0xc2 \<le> a \<and> a \<le> 0xdf then continues b \<and> utf8_valid t
          else (case t of
            [] \<Rightarrow> False
          | c # u \<Rightarrow>
              if 0xe0 \<le> a \<and> a \<le> 0xef
              then continues b \<and> continues c \<and> (a = 0xe0 \<longrightarrow> 0xa0 \<le> b) \<and> (a = 0xed \<longrightarrow> b \<le> 0x9f) \<and> utf8_valid u
              else (case u of
                [] \<Rightarrow> False
              | d # v \<Rightarrow> 0xf0 \<le> a \<and> a \<le> 0xf4 \<and> continues b \<and> continues c \<and> continues d
                  \<and> (a = 0xf0 \<longrightarrow> 0x90 \<le> b) \<and> (a = 0xf4 \<longrightarrow> b \<le> 0x8f) \<and> utf8_valid v)))"

lemma utf8_valid_append: "utf8_valid s \<Longrightarrow> utf8_valid (s @ r) = utf8_valid r"
proof (induction s rule: utf8_valid.induct)
  case (2 a s)
  show ?case
  proof (cases "a < 0x80")
    case True
    then show ?thesis using 2 by simp
  next
    case F1: False
    obtain b t where s: "s = b # t" using 2(5) F1 by (cases s) auto
    show ?thesis
    proof (cases "0xc2 \<le> a \<and> a \<le> 0xdf")
      case True
      then show ?thesis using 2(2)[OF F1 s True] 2(5) F1 by (simp add: s)
    next
      case F2: False
      obtain c u where t: "t = c # u" using 2(5) F1 F2 by (cases t) (auto simp: s)
      show ?thesis
      proof (cases "0xe0 \<le> a \<and> a \<le> 0xef")
        case True
        then show ?thesis using 2(3)[OF F1 s F2 t True] 2(5) F1 F2 by (auto simp: s t)
      next
        case F3: False
        obtain d v where u: "u = d # v" using 2(5) F1 F2 F3 by (cases u) (auto simp: s t)
        show ?thesis using 2(4)[OF F1 s F2 t F3 u] 2(5) F1 F2 F3 by (auto simp: s t u)
      qed
    qed
  qed
qed simp

lemma one_small: "\<not> (32::byte) \<le> 1" "\<not> (37::byte) \<le> 1" "\<not> (65::byte) \<le> 1" "\<not> (97::byte) \<le> 1"
  by (simp_all add: word_le_nat_alt)

lemma tables_valid: "list_all utf8_valid GsmTable" "length GsmTable = 128"
    "list_all utf8_valid GsmExtensionTable" "length GsmExtensionTable = 128"
  by (simp_all add: GsmTable_def GsmExtensionTable_def continues_def)

lemma table_entries:
  fixes c :: byte
  shows "c \<le> 0x7f \<Longrightarrow> utf8_valid (GsmTable ! unat c)" "c \<le> 0x7f \<Longrightarrow> utf8_valid (GsmExtensionTable ! unat c)"
proof -
  assume "c \<le> 0x7f"
  then have "unat c < 128" by (simp add: word_le_nat_alt)
  then show "utf8_valid (GsmTable ! unat c)" "utf8_valid (GsmExtensionTable ! unat c)"
    using tables_valid by (auto simp: list_all_length)
qed

definition gsm_same :: "byte \<Rightarrow> bool" where
  "gsm_same c \<longleftrightarrow> c = 0x0a \<or> c = 0x0d \<or> 0x20 \<le> c \<and> c \<le> 0x23 \<or> 0x25 \<le> c \<and> c \<le> 0x3f \<or> 0x41 \<le> c \<and> c \<le> 0x5a \<or> 0x61 \<le> c \<and> c \<le> 0x7a"

lemma table_same: "list_all2 (\<lambda>n e. gsm_same (word_of_nat n) \<longrightarrow> e = [word_of_nat n]) [0..<128] GsmTable"
  by (simp add: GsmTable_def gsm_same_def upt_rec one_small)

lemma gsm_same_entry:
  assumes "gsm_same c" shows "c \<le> 0x7f" "c \<noteq> 0x1b" "GsmTable ! unat c = [c]"
proof -
  show c: "c \<le> 0x7f" using assms by (auto simp: gsm_same_def dest: order_trans[of c _ 127])
  show "c \<noteq> 0x1b" using assms by (auto simp: gsm_same_def)
  have "unat c < 128" using c by (simp add: word_le_nat_alt)
  then show "GsmTable ! unat c = [c]" using table_same assms by (simp add: list_all2_conv_all_nth)
qed

text \<open>
  C32: Whatever bytes a device sends as a 7 bit message, what the GSM conversion hands to
  iconv is well-formed UTF-8, and letters, digits, blanks and line ends stay what they are.
\<close>

theorem ConvertGsmToUtf8_valid:
  "utf8_valid (ConvertGsmToUtf8 s) \<and> (list_all gsm_same s \<longrightarrow> ConvertGsmToUtf8 s = s)"
proof
  show "utf8_valid (ConvertGsmToUtf8 s)"
    by (induction s rule: ConvertGsmToUtf8.induct) (auto simp: utf8_valid_append table_entries not_less)
  show "list_all gsm_same s \<longrightarrow> ConvertGsmToUtf8 s = s"
    by (induction s rule: ConvertGsmToUtf8.induct) (auto simp: gsm_same_entry not_less dest: gsm_same_entry leD)
qed

lemma ConvertGsmToUtf8_valid_witness:
  "utf8_valid (ConvertGsmToUtf8 [0x1b, 0x65, 0x80, 0x00]) \<and> ConvertGsmToUtf8 (lit ''Hello 7'') = lit ''Hello 7''"
  using ConvertGsmToUtf8_valid[of "[0x1b, 0x65, 0x80, 0x00]"] ConvertGsmToUtf8_valid[of "lit ''Hello 7''"]
  by (simp add: lit_def gsm_same_def)

end
