(* ===== verification/Service_Book.thy ===== *)
theory Service_Book imports Unknown_Fields begin

text \<open>
  The Service Book record class (src/src/r_servicebook.cc, src/src/r_servicebook.h): the
  packed fields inside its configuration field, which come in three formats, and the
  record itself with its two conflicting field tables. Dump, sorting and the field handles
  are left out.
\<close>

section \<open>The configuration field\<close>

record service_config =
  cfg_Format :: byte
  cfg_Unknowns :: "unknown_field list"

definition ServiceBookConfig_Clear :: service_config where
  "ServiceBookConfig_Clear = \<lparr>cfg_Format = 0, cfg_Unknowns = []\<rparr>"

definition PACKED_FIELD_02_HEADER_SIZE :: nat where "PACKED_FIELD_02_HEADER_SIZE = 3"
definition PACKED_FIELD_10_HEADER_SIZE :: nat where "PACKED_FIELD_10_HEADER_SIZE = 2"
definition SERVICE_BOOK_CONFIG_FIELD_HEADER_SIZE :: nat where "SERVICE_BOOK_CONFIG_FIELD_HEADER_SIZE = 1"

lemmas packed_sizes = PACKED_FIELD_02_HEADER_SIZE_def PACKED_FIELD_10_HEADER_SIZE_def SERVICE_BOOK_CONFIG_FIELD_HEADER_SIZE_def

text \<open>The type table of the class is empty, so every field ends up in the list of unknown fields.\<close>

definition packed_value :: "service_config \<Rightarrow> bytes \<Rightarrow> nat \<Rightarrow> nat \<Rightarrow> byte \<Rightarrow> nat \<Rightarrow> (service_config \<times> nat) res" where
  "packed_value c bs raw sz type after =
     (if length bs < after then Inr (c, after)
      else if sz = 0 then Inr (c, after)
      else Inr (c\<lparr>cfg_Unknowns := cfg_Unknowns c @ [(type, take sz (drop raw bs))]\<rparr>, after))"

definition ServiceBookConfig_ParseField :: "service_config \<Rightarrow> bytes \<Rightarrow> nat \<Rightarrow> (service_config \<times> nat) res" where
  "ServiceBookConfig_ParseField c bs b =
     (if cfg_Format c = 0x01 \<or> cfg_Format c = 0x02
      then packed_value c bs (b + PACKED_FIELD_02_HEADER_SIZE) (unat (byte_at bs (b + 1))) (byte_at bs (b + 2))
             (b + PACKED_FIELD_02_HEADER_SIZE + unat (byte_at bs (b + 1)))
      else if cfg_Format c = 0x10
      then packed_value c bs (b + PACKED_FIELD_10_HEADER_SIZE) (unat (byte_at bs (b + 1))) (byte_at bs b)
             (b + PACKED_FIELD_10_HEADER_SIZE + unat (byte_at bs (b + 1)))
      else Inl (BadPackedFormat (cfg_Format c)))"

definition ServiceBookConfig_ParseHeader :: "service_config \<Rightarrow> bytes \<Rightarrow> nat \<Rightarrow> service_config \<times> nat" where
  "ServiceBookConfig_ParseHeader c bs offset =
     (if length bs \<ge> offset + SERVICE_BOOK_CONFIG_FIELD_HEADER_SIZE then c\<lparr>cfg_Format := byte_at bs offset\<rparr> else c,
      offset + SERVICE_BOOK_CONFIG_FIELD_HEADER_SIZE)"

definition ServiceBookConfig_ParseFields :: "service_config \<Rightarrow> bytes \<Rightarrow> nat \<Rightarrow> (service_config \<times> nat) res option" where
  "ServiceBookConfig_ParseFields c bs offset = ParseCommonFields ServiceBookConfig_ParseField c bs offset"

definition ServiceBookConfig_BuildHeader :: "service_config \<Rightarrow> data \<Rightarrow> nat \<Rightarrow> (data \<times> nat) res" where
  "ServiceBookConfig_BuildHeader c d offset = store_field d offset [cfg_Format c]"

definition ServiceBookConfig_BuildFields :: "service_config \<Rightarrow> data \<Rightarrow> nat \<Rightarrow> (data \<times> nat) res" where
  "ServiceBookConfig_BuildFields c d offset = Inl (LogicError ''ServiceBookConfig::Build not yet implemented'')"

lemma packed_value_Inr: "packed_value c bs raw sz type after = Inr (c', b') \<Longrightarrow> b' = after \<and> cfg_Format c' = cfg_Format c"
  by (auto simp: packed_value_def split: if_splits)

interpretation config_parser: field_parser ServiceBookConfig_ParseField
  by unfold_locales (auto simp: ServiceBookConfig_ParseField_def packed_sizes dest!: packed_value_Inr split: if_splits)

section \<open>Records\<close>

text \<open>Which of the two conflicting tables the last such field came from.\<close>

datatype type_set = OldFieldLinks | NewFieldLinks

record service_book =
  m_typeSet :: type_set
  sb_RecType :: byte
  sb_RecordId :: u32
  sb_Name :: bytes
  HiddenName :: bytes
  sb_Description :: bytes
  DSID :: bytes
  BesDomain :: bytes
  sb_UniqueId :: bytes
  ContentId :: bytes
  Config :: service_config
  sb_Unknowns :: "unknown_field list"

definition SBFC_OLD_NAME :: byte where "SBFC_OLD_NAME = 0x01"
definition SBFC_HIDDEN_NAME :: byte where "SBFC_HIDDEN_NAME = 0x02"
definition SBFC_NAME :: byte where "SBFC_NAME = 0x03"
definition SBFC_OLD_UNIQUE_ID :: byte where "SBFC_OLD_UNIQUE_ID = 0x06"
definition SBFC_UNIQUE_ID :: byte where "SBFC_UNIQUE_ID = 0x07"
definition SBFC_CONTENT_ID :: byte where "SBFC_CONTENT_ID = 0x08"
definition SBFC_CONFIG :: byte where "SBFC_CONFIG = 0x09"
definition SBFC_OLD_DESC :: byte where "SBFC_OLD_DESC = 0x32"
definition SBFC_DESCRIPTION :: byte where "SBFC_DESCRIPTION = 0x0f"
definition SBFC_DSID :: byte where "SBFC_DSID = 0xa1"
definition SBFC_BES_DOMAIN :: byte where "SBFC_BES_DOMAIN = 0xa2"

lemmas service_codes = SBFC_OLD_NAME_def SBFC_HIDDEN_NAME_def SBFC_NAME_def SBFC_OLD_UNIQUE_ID_def SBFC_UNIQUE_ID_def
  SBFC_CONTENT_ID_def SBFC_CONFIG_def SBFC_OLD_DESC_def SBFC_DESCRIPTION_def SBFC_DSID_def SBFC_BES_DOMAIN_def

definition ServiceBookOldFieldLinks :: "service_book field_link list" where
  "ServiceBookOldFieldLinks =
     [FieldLink SBFC_OLD_NAME (StrMember sb_Name (\<lambda>s r. r\<lparr>sb_Name := s\<rparr>)) True,
      FieldLink SBFC_OLD_DESC (StrMember sb_Description (\<lambda>s r. r\<lparr>sb_Description := s\<rparr>)) True,
      FieldLink SBFC_OLD_UNIQUE_ID (StrMember sb_UniqueId (\<lambda>s r. r\<lparr>sb_UniqueId := s\<rparr>)) False]"

definition ServiceBookNewFieldLinks :: "service_book field_link list" where
  "ServiceBookNewFieldLinks =
     [FieldLink SBFC_NAME (StrMember sb_Name (\<lambda>s r. r\<lparr>sb_Name := s\<rparr>)) True,
      FieldLink SBFC_DESCRIPTION (StrMember sb_Description (\<lambda>s r. r\<lparr>sb_Description := s\<rparr>)) True,
      FieldLink SBFC_UNIQUE_ID (StrMember sb_UniqueId (\<lambda>s r. r\<lparr>sb_UniqueId := s\<rparr>)) False]"

definition ServiceBookFieldLinks :: "service_book field_link list" where
  "ServiceBookFieldLinks =
     [FieldLink SBFC_HIDDEN_NAME (StrMember HiddenName (\<lambda>s r. r\<lparr>HiddenName := s\<rparr>)) True,
      FieldLink SBFC_DSID (StrMember DSID (\<lambda>s r. r\<lparr>DSID := s\<rparr>)) False,
      FieldLink SBFC_CONTENT_ID (StrMember ContentId (\<lambda>s r. r\<lparr>ContentId := s\<rparr>)) False,
      FieldLink SBFC_BES_DOMAIN (StrMember BesDomain (\<lambda>s r. r\<lparr>BesDomain := s\<rparr>)) False]"

lemmas service_links = ServiceBookOldFieldLinks_def ServiceBookNewFieldLinks_def ServiceBookFieldLinks_def

definition ServiceBookLinkTable :: "(type_set \<times> service_book field_link list) list" where
  "ServiceBookLinkTable = [(OldFieldLinks, ServiceBookOldFieldLinks), (NewFieldLinks, ServiceBookNewFieldLinks)]"

definition ServiceBook_new :: "byte \<Rightarrow> service_book" where
  "ServiceBook_new ty = \<lparr>m_typeSet = OldFieldLinks, sb_RecType = ty, sb_RecordId = 0, sb_Name = [], HiddenName = [],
     sb_Description = [], DSID = [], BesDomain = [], sb_UniqueId = [], ContentId = [], Config = ServiceBookConfig_Clear,
     sb_Unknowns = []\<rparr>"

text \<open>Clear leaves the ids and all strings as they are.\<close>

definition ServiceBook_Clear :: "service_book \<Rightarrow> service_book" where
  "ServiceBook_Clear s = s\<lparr>m_typeSet := OldFieldLinks, sb_Unknowns := [], Config := ServiceBookConfig_Clear\<rparr>"

definition ServiceBook_SetIds :: "byte \<Rightarrow> u32 \<Rightarrow> service_book \<Rightarrow> service_book" where
  "ServiceBook_SetIds ty ident s = s\<lparr>sb_RecType := ty, sb_RecordId := ident\<rparr>"

text \<open>
  ParseFieldByTable over an array of tables: the first table that has the field, and the
  record with it.
\<close>

fun ParseFieldByTable ::
  "converter option \<Rightarrow> service_book \<Rightarrow> byte \<Rightarrow> bytes \<Rightarrow> (type_set \<times> service_book field_link list) list
     \<Rightarrow> (type_set \<times> service_book res) option" where
  "ParseFieldByTable ic s ty raw [] = None"
| "ParseFieldByTable ic s ty raw ((t, links) # ts) =
     (case parse_links links ic s ty raw of
        Some r \<Rightarrow> Some (t, r)
      | None \<Rightarrow> ParseFieldByTable ic s ty raw ts)"

text \<open>
  The configuration field. BadPackedFormat, the only exception there is, is thrown at the
  first packed field if at all, so what it leaves behind is the new format.
\<close>

definition parse_config :: "service_config \<Rightarrow> bytes \<Rightarrow> service_config \<times> bool" where
  "parse_config c raw =
     (let (c1, offset) = ServiceBookConfig_ParseHeader c raw 0
      in case ServiceBookConfig_ParseFields c1 raw offset of
           Some (Inr (c2, _)) \<Rightarrow> (c2, True)
         | _ \<Rightarrow> (c1, False))"

definition ServiceBook_handle :: "converter option \<Rightarrow> service_book \<Rightarrow> byte \<Rightarrow> bytes \<Rightarrow> service_book res" where
  "ServiceBook_handle ic s ty raw =
     (case ParseFieldByTable ic s ty raw ServiceBookLinkTable of
        Some (t, r) \<Rightarrow> rbind r (\<lambda>s'. Inr (s'\<lparr>m_typeSet := t\<rparr>))
      | None \<Rightarrow>
          (case parse_links ServiceBookFieldLinks ic s ty raw of
             Some r \<Rightarrow> r
           | None \<Rightarrow>
               if ty = SBFC_CONFIG \<and> snd (parse_config (Config s) raw)
               then Inr (s\<lparr>Config := fst (parse_config (Config s) raw)\<rparr>)
               else Inr (s\<lparr>Config := (if ty = SBFC_CONFIG then fst (parse_config (Config s) raw) else Config s),
                           sb_Unknowns := sb_Unknowns s @ [(ty, raw)]\<rparr>)))"

definition ServiceBook_ParseField :: "converter option \<Rightarrow> service_book \<Rightarrow> bytes \<Rightarrow> nat \<Rightarrow> (service_book \<times> nat) res" where
  "ServiceBook_ParseField ic = ParseField_start (ServiceBook_handle ic)"

definition ServiceBook_ParseHeader :: "service_book \<Rightarrow> data \<Rightarrow> nat \<Rightarrow> service_book \<times> nat" where
  "ServiceBook_ParseHeader s d offset = (s, offset)"

definition ServiceBook_ParseFields :: "converter option \<Rightarrow> service_book \<Rightarrow> data \<Rightarrow> nat \<Rightarrow> (service_book \<times> nat) res option" where
  "ServiceBook_ParseFields ic s d offset = ParseCommonFields (ServiceBook_ParseField ic) s (contents d) offset"

definition ServiceBook_BuildHeader :: "service_book \<Rightarrow> data \<Rightarrow> nat \<Rightarrow> data \<times> nat" where
  "ServiceBook_BuildHeader s d offset = (d, offset)"

definition ServiceBook_BuildFields :: "service_book \<Rightarrow> data \<Rightarrow> nat \<Rightarrow> (data \<times> nat) res" where
  "ServiceBook_BuildFields s d offset = Inl (LogicError ''ServiceBook::BuildFields not yet implemented'')"

definition ServiceBook_GetDescription :: "service_book \<Rightarrow> bytes" where
  "ServiceBook_GetDescription s = sb_Name s"

section \<open>The configuration field, read\<close>

definition packed_format :: "byte \<Rightarrow> bool" where
  "packed_format f \<longleftrightarrow> f = 0x01 \<or> f = 0x02 \<or> f = 0x10"

lemma packed_no_error:
  "packed_format (cfg_Format c) \<Longrightarrow> \<exists>c' b'. ServiceBookConfig_ParseField c bs b = Inr (c', b') \<and> cfg_Format c' = cfg_Format c \<and> b < b'"
  by (auto simp: packed_format_def ServiceBookConfig_ParseField_def packed_value_def packed_sizes)

lemma ParseFields_ok:
  "packed_format (cfg_Format c) \<Longrightarrow> \<exists>c' b'. ServiceBookConfig_ParseFields c bs b = Some (Inr (c', b'))"
proof (induction "length bs - b" arbitrary: b c rule: less_induct)
  case less
  show ?case
  proof (cases "b + COMMON_FIELD_HEADER_SIZE < length bs")
    case True
    obtain c1 b1 where one: "ServiceBookConfig_ParseField c bs b = Inr (c1, b1)" "cfg_Format c1 = cfg_Format c" "b < b1"
      using packed_no_error[OF less.prems] by blast
    have "length bs - b1 < length bs - b" using one(3) True by linarith
    from less.hyps[OF this] one(2) less.prems show ?thesis
      unfolding ServiceBookConfig_ParseFields_def config_parser.unfold[of c] using True one(1) by auto
  qed (simp add: ServiceBookConfig_ParseFields_def config_parser.unfold[of c])
qed

lemma parse_config_ok:
  assumes "raw \<noteq> []"
  shows "snd (parse_config c raw) \<longleftrightarrow> packed_format (byte_at raw 0) \<or> length raw \<le> 4"
proof -
  define c1 where "c1 = c\<lparr>cfg_Format := byte_at raw 0\<rparr>"
  have head: "ServiceBookConfig_ParseHeader c raw 0 = (c1, 1)"
    using assms by (cases raw) (auto simp: ServiceBookConfig_ParseHeader_def packed_sizes c1_def)
  show ?thesis
  proof (cases "packed_format (byte_at raw 0)")
    case True
    then obtain c' b' where "ServiceBookConfig_ParseFields c1 raw 1 = Some (Inr (c', b'))"
      using ParseFields_ok[of c1 raw 1] by (auto simp: c1_def)
    then show ?thesis using True by (simp add: parse_config_def head)
  next
    case False
    then have "ServiceBookConfig_ParseField c1 raw 1 = Inl (BadPackedFormat (byte_at raw 0))"
      by (simp add: ServiceBookConfig_ParseField_def packed_format_def c1_def)
    then show ?thesis
      using False by (auto simp: parse_config_def head ServiceBookConfig_ParseFields_def config_parser.unfold[of c1] layout_simps)
  qed
qed

section \<open>Unknown fields are kept\<close>

definition service_takes :: "byte \<Rightarrow> bytes \<Rightarrow> bool" where
  "service_takes ty raw \<longleftrightarrow>
     ty \<in> {0x01, 0x02, 0x03, 0x06, 0x07, 0x08, 0x0f, 0x32, 0xa1, 0xa2}
     \<or> ty = 0x09 \<and> (packed_format (byte_at raw 0) \<or> length raw \<le> 4)"

lemma service_tables:
  "ParseFieldByTable ic s ty raw ServiceBookLinkTable = None \<longleftrightarrow> ty \<notin> {0x01, 0x03, 0x06, 0x07, 0x0f, 0x32}"
  "parse_links ServiceBookFieldLinks ic s ty raw = None \<longleftrightarrow> ty \<notin> {0x02, 0x08, 0xa1, 0xa2}"
  by (auto simp: ServiceBookLinkTable_def service_links service_codes Let_def)

lemma table_keeps_unknowns:
  "ParseFieldByTable ic s ty raw ServiceBookLinkTable = Some (t, Inr s') \<Longrightarrow> sb_Unknowns s' = sb_Unknowns s"
  "parse_links ServiceBookFieldLinks ic s ty raw = Some (Inr s') \<Longrightarrow> sb_Unknowns s' = sb_Unknowns s"
  by (auto simp: ServiceBookLinkTable_def service_links service_codes Let_def split: if_splits)

interpretation service_unknowns: unknown_keeper "ServiceBook_ParseField ic" "\<lambda>_. ServiceBook_handle ic" sb_Unknowns "\<lambda>_. service_takes" for ic
proof unfold_locales
  fix raw :: bytes and ty and r r' :: service_book
  assume raw: "raw \<noteq> []" and h: "ServiceBook_handle ic r ty raw = Inr r'"
  consider t where "ParseFieldByTable ic r ty raw ServiceBookLinkTable = Some t"
    | r1 where "ParseFieldByTable ic r ty raw ServiceBookLinkTable = None" "parse_links ServiceBookFieldLinks ic r ty raw = Some r1"
    | "ParseFieldByTable ic r ty raw ServiceBookLinkTable = None" "parse_links ServiceBookFieldLinks ic r ty raw = None"
    by blast
  then show "sb_Unknowns r' = sb_Unknowns r @ (if service_takes ty raw then [] else [(ty, raw)])"
  proof cases
    case 1
    then have "service_takes ty raw" using service_tables(1)[of ic r ty raw] by (auto simp: service_takes_def)
    moreover have "sb_Unknowns r' = sb_Unknowns r"
      using h 1 table_keeps_unknowns(1)[of ic r ty raw "fst t"] by (cases t) (auto simp: ServiceBook_handle_def rbind_eq_Inr)
    ultimately show ?thesis by simp
  next
    case 2
    then have "service_takes ty raw" using service_tables(2)[of ic r ty raw] by (auto simp: service_takes_def)
    moreover have "sb_Unknowns r' = sb_Unknowns r"
      using h 2 table_keeps_unknowns(2)[of ic r ty raw] by (auto simp: ServiceBook_handle_def)
    ultimately show ?thesis by simp
  next
    case 3
    then have "service_takes ty raw \<longleftrightarrow> ty = SBFC_CONFIG \<and> snd (parse_config (Config r) raw)"
      using service_tables[of ic r ty raw] parse_config_ok[OF raw] by (auto simp: service_takes_def SBFC_CONFIG_def)
    then show ?thesis using h 3 by (auto simp: ServiceBook_handle_def split: if_splits)
  qed
qed (simp_all add: ServiceBook_ParseField_def)

section \<open>A list of packed fields\<close>

text \<open>A field with its code, type and value; the short format has no code.\<close>

definition packed_field :: "byte \<Rightarrow> byte \<times> byte \<times> bytes \<Rightarrow> bytes" where
  "packed_field f p =
     (if f = 0x10 then [fst (snd p), word_of_nat (length (snd (snd p)))] @ snd (snd p)
      else [fst p, word_of_nat (length (snd (snd p))), fst (snd p)] @ snd (snd p))"

definition keep_packed :: "service_config \<Rightarrow> (byte \<times> byte \<times> bytes) list \<Rightarrow> service_config" where
  "keep_packed c fs = c\<lparr>cfg_Unknowns := cfg_Unknowns c @ map snd (filter (\<lambda>p. snd (snd p) \<noteq> []) fs)\<rparr>"

text \<open>The fields the loop sees: it stops when no more than three bytes are left.\<close>

definition packed_seen :: "byte \<Rightarrow> (byte \<times> byte \<times> bytes) list \<Rightarrow> (byte \<times> byte \<times> bytes) list" where
  "packed_seen f fs = (if f = 0x10 \<and> fs \<noteq> [] \<and> length (snd (snd (last fs))) = 1 then butlast fs else fs)"

lemma packed_one:
  assumes "packed_format (cfg_Format c)" "length (snd (snd p)) < 256"
  shows "ServiceBookConfig_ParseField c (pre @ packed_field (cfg_Format c) p @ post) (length pre)
     = Inr (keep_packed c [p], length pre + length (packed_field (cfg_Format c) p))"
proof -
  have l: "unat (word_of_nat (length (snd (snd p))) :: byte) = length (snd (snd p))"
    using assms(2) by (simp add: unat_of_nat)
  consider "cfg_Format c = 0x01 \<or> cfg_Format c = 0x02" | "cfg_Format c = 0x10" using assms(1) by (auto simp: packed_format_def)
  then show ?thesis
    by cases (auto simp: ServiceBookConfig_ParseField_def packed_value_def packed_field_def packed_sizes l keep_packed_def)
qed

lemma packed_seen_Cons:
  "packed_seen f (p # fs) = (if fs = [] then (if f = 0x10 \<and> length (snd (snd p)) = 1 then [] else [p]) else p # packed_seen f fs)"
  by (auto simp: packed_seen_def)

lemma packed_all:
  assumes "packed_format (cfg_Format c)" "list_all (\<lambda>p. length (snd (snd p)) < 256) fs"
  shows "\<exists>n. ServiceBookConfig_ParseFields c (pre @ concat (map (packed_field (cfg_Format c)) fs)) (length pre)
     = Some (Inr (keep_packed c (packed_seen (cfg_Format c) fs), n))"
  using assms
proof (induction fs arbitrary: c pre)
  case Nil
  then show ?case
    by (simp add: ServiceBookConfig_ParseFields_def config_parser.unfold[of c] packed_seen_def keep_packed_def)
next
  case (Cons p fs)
  define f where "f = cfg_Format c"
  define bs where "bs = pre @ packed_field f p @ concat (map (packed_field f) fs)"
  show ?case
  proof (cases "length pre + COMMON_FIELD_HEADER_SIZE < length bs")
    case True
    have one: "ServiceBookConfig_ParseField c bs (length pre) = Inr (keep_packed c [p], length pre + length (packed_field f p))"
      using packed_one[of c p pre] Cons.prems by (simp add: bs_def f_def)
    have f': "cfg_Format (keep_packed c [p]) = f" by (simp add: keep_packed_def f_def)
    obtain n where "ServiceBookConfig_ParseFields (keep_packed c [p])
        ((pre @ packed_field f p) @ concat (map (packed_field f) fs)) (length (pre @ packed_field f p))
      = Some (Inr (keep_packed (keep_packed c [p]) (packed_seen f fs), n))"
      using Cons.IH[of "keep_packed c [p]" "pre @ packed_field f p"] Cons.prems unfolding f' by (auto simp: f_def)
    moreover have "\<not> (fs = [] \<and> f = 0x10 \<and> length (snd (snd p)) = 1)"
      using True by (auto simp: bs_def packed_field_def layout_simps)
    then have "keep_packed (keep_packed c [p]) (packed_seen f fs) = keep_packed c (packed_seen f (p # fs))"
      by (auto simp: packed_seen_Cons keep_packed_def packed_seen_def)
    ultimately have "ServiceBookConfig_ParseFields (keep_packed c [p]) bs (length pre + length (packed_field f p))
      = Some (Inr (keep_packed c (packed_seen f (p # fs)), n))"
      by (simp add: bs_def)
    then show ?thesis
      using True one
      by (simp add: ServiceBookConfig_ParseFields_def config_parser.unfold[of c bs "length pre"] bs_def[symmetric] f_def[symmetric])
  next
    case False
    then have "length (packed_field f p) + length (concat (map (packed_field f) fs)) \<le> 3"
      by (simp add: bs_def layout_simps)
    moreover have two: "length (packed_field f q) \<ge> 2" for q by (simp add: packed_field_def)
    moreover have "fs = []"
    proof (rule ccontr)
      assume "fs \<noteq> []"
      then obtain q qs where "fs = q # qs" by (cases fs) auto
      then have "4 \<le> length (packed_field f p) + length (concat (map (packed_field f) fs))" using two[of p] two[of q] by simp
      then show False using \<open>length (packed_field f p) + length (concat (map (packed_field f) fs)) \<le> 3\<close> by linarith
    qed
    ultimately have "fs = []" "length (packed_field f p) \<le> 3" by auto
    then have "keep_packed c (packed_seen f (p # fs)) = c"
      by (auto simp: packed_seen_Cons keep_packed_def packed_field_def le_Suc_eq split: if_splits)
    then show ?thesis
      using False
      by (simp add: ServiceBookConfig_ParseFields_def config_parser.unfold[of c bs "length pre"] bs_def[symmetric] f_def[symmetric])
  qed
qed

text \<open>
  A configuration field in one of the known formats yields its packed fields in order,
  those without a value left out. In the short format, whose header has two bytes, a last
  field with a value of one byte is lost: the loop wants more than three bytes.
\<close>

theorem packed_fields_read:
  assumes "packed_format f" "list_all (\<lambda>p. length (snd (snd p)) < 256) fs"
  shows "parse_config c (f # concat (map (packed_field f) fs)) = (keep_packed (c\<lparr>cfg_Format := f\<rparr>) (packed_seen f fs), True)"
proof -
  obtain n where "ServiceBookConfig_ParseFields (c\<lparr>cfg_Format := f\<rparr>) ([f] @ concat (map (packed_field f) fs)) 1
     = Some (Inr (keep_packed (c\<lparr>cfg_Format := f\<rparr>) (packed_seen f fs), n))"
    using packed_all[of "c\<lparr>cfg_Format := f\<rparr>" fs "[f]"] assms by auto
  then show ?thesis by (simp add: parse_config_def ServiceBookConfig_ParseHeader_def packed_sizes)
qed

lemma packed_fields_read_witness:
  "parse_config ServiceBookConfig_Clear [0x10, 0x21, 2, 5, 6, 0x22, 1, 7]
     = (\<lparr>cfg_Format = 0x10, cfg_Unknowns = [(0x21, [5, 6])]\<rparr>, True)"
  using packed_fields_read[of "0x10" "[(0, 0x21, [5, 6]), (0, 0x22, [7])]" ServiceBookConfig_Clear]
  by (simp add: packed_format_def packed_field_def packed_seen_def keep_packed_def ServiceBookConfig_Clear_def)

section \<open>A record that is read after another\<close>

text \<open>The strings and the types of the fields that set them.\<close>

definition service_strings :: "((service_book \<Rightarrow> bytes) \<times> byte list) list" where
  "service_strings =
     [(sb_Name, [SBFC_OLD_NAME, SBFC_NAME]), (sb_Description, [SBFC_OLD_DESC, SBFC_DESCRIPTION]),
      (sb_UniqueId, [SBFC_OLD_UNIQUE_ID, SBFC_UNIQUE_ID]), (HiddenName, [SBFC_HIDDEN_NAME]), (DSID, [SBFC_DSID]),
      (ContentId, [SBFC_CONTENT_ID]), (BesDomain, [SBFC_BES_DOMAIN])]"

lemma handle_other_type:
  assumes "(g, ts) \<in> set service_strings" "ty \<notin> set ts" "ServiceBook_handle ic s ty raw = Inr s'"
  shows "g s' = g s"
  using assms
  by (auto simp: service_strings_def ServiceBook_handle_def ServiceBookLinkTable_def service_links service_codes Let_def split: if_splits)

lemma parse_list_other_types:
  "(g, ts) \<in> set service_strings \<Longrightarrow> \<forall>f \<in> set fs. fst f \<notin> set ts \<Longrightarrow>
     parse_list (\<lambda>_. ServiceBook_handle ic) s fs = Inr s' \<Longrightarrow> g s' = g s"
proof (induction fs arbitrary: s)
  case (Cons f fs)
  then obtain s1 where s1: "(if snd f = [] then Inr s else ServiceBook_handle ic s (fst f) (snd f)) = Inr s1"
      "parse_list (\<lambda>_. ServiceBook_handle ic) s1 fs = Inr s'"
    by (auto simp: rbind_eq_Inr)
  have "g s1 = g s"
  proof (cases "snd f = []")
    case False
    then have "ServiceBook_handle ic s (fst f) (snd f) = Inr s1" using s1(1) by simp
    from handle_other_type[OF Cons.prems(1) _ this] show ?thesis using Cons.prems(2) by simp
  qed (use s1(1) in simp)
  moreover have "g s' = g s1" using Cons.IH[OF Cons.prems(1) _ s1(2)] Cons.prems(2) by simp
  ultimately show ?case by simp
qed simp

text \<open>
  Clear does not empty the strings. When one object reads several records, as
  RecordParser does, a string without a field in the new record is that of the record
  before; it is not empty.
\<close>

theorem ServiceBook_inherits_strings:
  assumes "list_all (\<lambda>f. length (snd f) < 65536) fs" "fs \<noteq> [] \<longrightarrow> snd (last fs) \<noteq> []"
    and "contents d = pre @ encode_fields fs"
    and "ServiceBook_ParseFields ic (ServiceBook_Clear s) d (length pre) = Some (Inr (s', n))"
    and "(g, ts) \<in> set service_strings" "\<forall>f \<in> set fs. fst f \<notin> set ts"
  shows "g s' = g s"
proof -
  have "parse_list (\<lambda>_. ServiceBook_handle ic) (ServiceBook_Clear s) fs = Inr s'"
    using service_unknowns.parse_fields[OF assms(1,2), of ic "ServiceBook_Clear s" pre] assms(3,4)
    by (auto simp: ServiceBook_ParseFields_def rbind_eq_Inr)
  then have "g s' = g (ServiceBook_Clear s)" using parse_list_other_types[OF assms(5,6)] by blast
  then show ?thesis using assms(5) by (auto simp: service_strings_def ServiceBook_Clear_def)
qed

definition second_fields :: "(byte \<times> bytes) list" where
  "second_fields = [(SBFC_UNIQUE_ID, lit ''S7'')]"

lemma ServiceBook_inherits_strings_witness:
  "\<exists>s' n. ServiceBook_ParseFields None (ServiceBook_Clear ((ServiceBook_new 0)\<lparr>sb_Name := lit ''Mail''\<rparr>))
       (Data_external (encode_fields second_fields) 5) 0 = Some (Inr (s', n))
     \<and> ServiceBook_GetDescription s' = lit ''Mail''"
proof -
  define s where "s = (ServiceBook_new 0)\<lparr>sb_Name := lit ''Mail''\<rparr>"
  define d where "d = Data_external (encode_fields second_fields) 5"
  have small: "list_all (\<lambda>f. length (snd f) < 65536) second_fields" "second_fields \<noteq> [] \<longrightarrow> snd (last second_fields) \<noteq> []"
    by (simp_all add: second_fields_def lit_def)
  have c: "contents d = [] @ encode_fields second_fields"
    by (simp add: d_def contents_def Data_external_def second_fields_def encode_fields_def common_field_def lit_def)
  obtain s' where "parse_list (\<lambda>_. ServiceBook_handle None) (ServiceBook_Clear s) second_fields = Inr s'"
    by (simp add: second_fields_def lit_def ServiceBook_handle_def ServiceBookLinkTable_def service_links service_codes Let_def)
  then obtain n where p: "ServiceBook_ParseFields None (ServiceBook_Clear s) d (length ([] :: bytes)) = Some (Inr (s', n))"
    using service_unknowns.parse_fields[OF small, of None "ServiceBook_Clear s" "[]"] by (auto simp: ServiceBook_ParseFields_def c)
  have "sb_Name s' = sb_Name s"
    by (rule ServiceBook_inherits_strings[OF small c p, of sb_Name "[SBFC_OLD_NAME, SBFC_NAME]"])
      (simp_all add: service_strings_def second_fields_def service_codes)
  then show ?thesis
    using p by (auto simp: s_def d_def ServiceBook_GetDescription_def)
qed

end
