(* ===== verification/Message_Base.thy ===== *)
theory Message_Base imports Unknown_Fields begin

text \<open>
  E-mail, PIN and saved messages (src/src/r_message_base.cc and its header, with the derived
  classes of src/src/r_message.h, r_pin_message.h and r_saved_message.h), and the message
  time of src/src/time.cc. The record classes are only parsed; building is not implemented
  there. Dump and the field handles are left out.
\<close>

section \<open>The message time\<close>

text \<open>
  \<open>jan\<close> is what mktime makes of the last day of the old year, 0:00 local time, in the current
  year. The number of days is multiplied as an int.
\<close>

definition DayToDate :: "int \<Rightarrow> u16 \<Rightarrow> int res" where
  "DayToDate jan day =
     (if uint day * 24 * 60 * 60 \<ge> 2 ^ 31 then Inl (UB ''signed integer overflow'')
      else Inr (jan - 60 * 60 + uint day * 24 * 60 * 60))"

text \<open>The product with the double 1.77, cut off, is t * 177 div 100 for all 16 bit numbers t.\<close>

definition Message2Time :: "int \<Rightarrow> u16 \<Rightarrow> u16 \<Rightarrow> int res" where
  "Message2Time jan r_date r_time =
     rbind (DayToDate jan ((r_date AND 0x01ff) - 0x29)) (\<lambda>result. Inr (result + uint r_time * 177 div 100))"

section \<open>Records\<close>

datatype PriorityType = LowPriority | NormalPriority | HighPriority | UnknownPriority
datatype SensitivityType = NormalSensitivity | Personal | Private | Confidential | UnknownSensitivity

record message =
  mb_RecType :: byte
  mb_RecordId :: u32
  From :: "email_address list"
  To :: "email_address list"
  Cc :: "email_address list"
  Bcc :: "email_address list"
  Sender :: "email_address list"
  ReplyTo :: "email_address list"
  mb_Subject :: bytes
  mb_Body :: bytes
  Attachment :: bytes
  MessageRecordId :: u32
  MessageReplyTo :: u32
  MessageDateSent :: int
  MessageDateReceived :: int
  MessageTruncated :: bool
  MessageRead :: bool
  MessageReply :: bool
  MessageSaved :: bool
  MessageSavedDeleted :: bool
  Priority :: PriorityType
  Sensitivity :: SensitivityType
  mb_Unknowns :: "unknown_field list"

definition MBFC_TO :: byte where "MBFC_TO = 0x01"
definition MBFC_CC :: byte where "MBFC_CC = 0x02"
definition MBFC_BCC :: byte where "MBFC_BCC = 0x03"
definition MBFC_SENDER :: byte where "MBFC_SENDER = 0x04"
definition MBFC_FROM :: byte where "MBFC_FROM = 0x05"
definition MBFC_REPLY_TO :: byte where "MBFC_REPLY_TO = 0x06"
definition MBFC_SUBJECT :: byte where "MBFC_SUBJECT = 0x0b"
definition MBFC_BODY :: byte where "MBFC_BODY = 0x0c"
definition MBFC_REPLY_UNKNOWN :: byte where "MBFC_REPLY_UNKNOWN = 0x12"
definition MBFC_ATTACHMENT :: byte where "MBFC_ATTACHMENT = 0x16"
definition MBFC_RECORDID :: byte where "MBFC_RECORDID = 0x4b"

lemmas message_codes = MBFC_TO_def MBFC_CC_def MBFC_BCC_def MBFC_SENDER_def MBFC_FROM_def MBFC_REPLY_TO_def MBFC_SUBJECT_def
  MBFC_BODY_def MBFC_REPLY_UNKNOWN_def MBFC_ATTACHMENT_def MBFC_RECORDID_def

definition PRIORITY_MASK :: u16 where "PRIORITY_MASK = 0x003f"
definition PRIORITY_HIGH :: u16 where "PRIORITY_HIGH = 0x0008"
definition PRIORITY_LOW :: u16 where "PRIORITY_LOW = 0x0002"
definition SENSITIVE_MASK :: u16 where "SENSITIVE_MASK = 0xff80"
definition SENSITIVE_CONFIDENTIAL :: u16 where "SENSITIVE_CONFIDENTIAL = 0x0100"
definition SENSITIVE_PERSONAL :: u16 where "SENSITIVE_PERSONAL = 0x0080"
definition SENSITIVE_PRIVATE :: u16 where "SENSITIVE_PRIVATE = 0x0040"
definition MESSAGE_READ :: u32 where "MESSAGE_READ = 0x0800"
definition MESSAGE_REPLY :: u32 where "MESSAGE_REPLY = 0x0001"
definition MESSAGE_SAVED :: u32 where "MESSAGE_SAVED = 0x0002"
definition MESSAGE_TRUNCATED :: u32 where "MESSAGE_TRUNCATED = 0x0020"
definition MESSAGE_SAVED_DELETED :: u32 where "MESSAGE_SAVED_DELETED = 0x0080"

lemmas message_masks = PRIORITY_MASK_def PRIORITY_HIGH_def PRIORITY_LOW_def SENSITIVE_MASK_def SENSITIVE_CONFIDENTIAL_def
  SENSITIVE_PERSONAL_def SENSITIVE_PRIVATE_def MESSAGE_READ_def MESSAGE_REPLY_def MESSAGE_SAVED_def MESSAGE_TRUNCATED_def
  MESSAGE_SAVED_DELETED_def

definition MessageBase_Clear :: message where
  "MessageBase_Clear = \<lparr>mb_RecType = 0, mb_RecordId = 0, From = [], To = [], Cc = [], Bcc = [], Sender = [], ReplyTo = [],
     mb_Subject = [], mb_Body = [], Attachment = [], MessageRecordId = 0, MessageReplyTo = 0, MessageDateSent = 0,
     MessageDateReceived = 0, MessageTruncated = False, MessageRead = False, MessageReply = False, MessageSaved = False,
     MessageSavedDeleted = False, Priority = NormalPriority, Sensitivity = NormalSensitivity, mb_Unknowns = []\<rparr>"

definition Message_Clear :: message where "Message_Clear = MessageBase_Clear\<lparr>mb_RecType := 0, mb_RecordId := 0\<rparr>"
definition PINMessage_Clear :: message where "PINMessage_Clear = MessageBase_Clear\<lparr>mb_RecType := 0, mb_RecordId := 0\<rparr>"
definition SavedMessage_Clear :: message where "SavedMessage_Clear = MessageBase_Clear\<lparr>mb_RecType := 3, mb_RecordId := 0\<rparr>"

definition Message_SetIds :: "byte \<Rightarrow> u32 \<Rightarrow> message \<Rightarrow> message" where
  "Message_SetIds ty ident m = m\<lparr>mb_RecType := ty, mb_RecordId := ident\<rparr>"

section \<open>Fields\<close>

text \<open>
  An address field has eight unknown bytes, the name and the address. The length of the
  strings is computed without a check; if it wraps, the string constructor throws
  std::length_error, a logic error.
\<close>

definition address_skip :: nat where "address_skip = 8"

definition message_address :: "bytes \<Rightarrow> email_address res" where
  "message_address raw =
     (if length raw < address_skip then Inl (LogicError ''basic_string'')
      else rbind (dual_strings (drop address_skip raw)) (\<lambda>(s1, s2). Inr \<lparr>ea_Name = s1, ea_Email = s2\<rparr>))"

definition MessageBaseFieldLinks :: "message field_link list" where
  "MessageBaseFieldLinks =
     [FieldLink MBFC_TO (AddrMember To (\<lambda>a m. m\<lparr>To := a\<rparr>) message_address) True,
      FieldLink MBFC_CC (AddrMember Cc (\<lambda>a m. m\<lparr>Cc := a\<rparr>) message_address) True,
      FieldLink MBFC_BCC (AddrMember Bcc (\<lambda>a m. m\<lparr>Bcc := a\<rparr>) message_address) True,
      FieldLink MBFC_SENDER (AddrMember Sender (\<lambda>a m. m\<lparr>Sender := a\<rparr>) message_address) True,
      FieldLink MBFC_FROM (AddrMember From (\<lambda>a m. m\<lparr>From := a\<rparr>) message_address) True,
      FieldLink MBFC_REPLY_TO (AddrMember ReplyTo (\<lambda>a m. m\<lparr>ReplyTo := a\<rparr>) message_address) True,
      FieldLink MBFC_SUBJECT (StrMember mb_Subject (\<lambda>s m. m\<lparr>mb_Subject := s\<rparr>)) True,
      FieldLink MBFC_BODY (StrMember mb_Body (\<lambda>s m. m\<lparr>mb_Body := s\<rparr>)) True,
      FieldLink MBFC_ATTACHMENT (StrMember Attachment (\<lambda>s m. m\<lparr>Attachment := s\<rparr>)) False]"

text \<open>The record id is read as 32 bits without a look at the field's size.\<close>

definition Message_handle :: "converter option \<Rightarrow> bytes \<Rightarrow> message \<Rightarrow> byte \<Rightarrow> bytes \<Rightarrow> message res" where
  "Message_handle ic rest m ty raw =
     (case parse_links MessageBaseFieldLinks ic m ty raw of
        Some r \<Rightarrow> r
      | None \<Rightarrow>
          if ty = MBFC_RECORDID
          then (if length (raw @ rest) < 4 then Inl (UB ''read past the end of the data'')
                else Inr (m\<lparr>MessageRecordId := get32 (raw @ rest) 0\<rparr>))
          else if ty = MBFC_REPLY_UNKNOWN then Inr m
          else Inr (m\<lparr>mb_Unknowns := mb_Unknowns m @ [(ty, raw)]\<rparr>))"

definition Message_ParseField :: "converter option \<Rightarrow> message \<Rightarrow> bytes \<Rightarrow> nat \<Rightarrow> (message \<times> nat) res" where
  "Message_ParseField ic m bs b = ParseField_start (Message_handle ic (drop (next_field bs b) bs)) m bs b"

definition Message_ParseFields :: "converter option \<Rightarrow> message \<Rightarrow> data \<Rightarrow> nat \<Rightarrow> (message \<times> nat) res option" where
  "Message_ParseFields ic m d offset = ParseCommonFields (Message_ParseField ic) m (contents d) offset"

section \<open>The header\<close>

definition MESSAGE_RECORD_HEADER_SIZE :: nat where "MESSAGE_RECORD_HEADER_SIZE = 116"

definition header_priority :: "u16 \<Rightarrow> PriorityType" where
  "header_priority priority =
     (if priority AND PRIORITY_MASK \<noteq> 0
      then (if priority AND PRIORITY_HIGH \<noteq> 0 then HighPriority
            else if priority AND PRIORITY_LOW \<noteq> 0 then LowPriority
            else UnknownPriority)
      else NormalPriority)"

definition header_sensitivity :: "u16 \<Rightarrow> SensitivityType" where
  "header_sensitivity priority =
     (if priority AND SENSITIVE_MASK \<noteq> 0
      then (if priority AND SENSITIVE_CONFIDENTIAL = SENSITIVE_CONFIDENTIAL then Confidential
            else if priority AND SENSITIVE_PRIVATE = SENSITIVE_PRIVATE then Private
            else if priority AND SENSITIVE_PERSONAL = SENSITIVE_PERSONAL then Personal
            else UnknownSensitivity)
      else NormalSensitivity)"

text \<open>\<open>bs\<close> starts with the MessageRecord.\<close>

definition header_members :: "bytes \<Rightarrow> message \<Rightarrow> message" where
  "header_members bs m =
     (let priority = get16 bs 43; flags = get32 bs 5; inReplyTo = get32 bs 73
      in m\<lparr>Priority := header_priority priority, Sensitivity := header_sensitivity priority,
           MessageReplyTo := (if inReplyTo \<noteq> 0 then inReplyTo else MessageReplyTo m),
           MessageRead := (flags AND MESSAGE_READ = 0 \<or> MessageRead m),
           MessageReply := (flags AND MESSAGE_REPLY = MESSAGE_REPLY \<or> MessageReply m),
           MessageTruncated := (flags AND MESSAGE_TRUNCATED = 0 \<or> MessageTruncated m),
           MessageSaved := (flags AND MESSAGE_SAVED = 0 \<or> MessageSaved m),
           MessageSavedDeleted := (flags AND MESSAGE_SAVED_DELETED = 0 \<or> MessageSavedDeleted m)\<rparr>)"

text \<open>A short packet is left alone, and the offset too.\<close>

definition Message_ParseHeader :: "int \<Rightarrow> message \<Rightarrow> data \<Rightarrow> nat \<Rightarrow> (message \<times> nat) res" where
  "Message_ParseHeader jan m d offset =
     (if length (contents d) < offset + MESSAGE_RECORD_HEADER_SIZE then Inr (m, offset)
      else let bs = drop offset (contents d) in
        rbind (Message2Time jan (get16 bs 39) (get16 bs 41)) (\<lambda>sent.
        rbind (Message2Time jan (get16 bs 31) (get16 bs 33)) (\<lambda>received.
        Inr ((header_members bs m)\<lparr>MessageDateSent := sent, MessageDateReceived := received\<rparr>,
             offset + MESSAGE_RECORD_HEADER_SIZE))))"

definition Message_BuildHeader :: "message \<Rightarrow> data \<Rightarrow> nat \<Rightarrow> (data \<times> nat) res" where
  "Message_BuildHeader m d offset = Inl (LogicError ''MessageBase::BuildHeader not yet implemented'')"

definition Message_BuildFields :: "message \<Rightarrow> data \<Rightarrow> nat \<Rightarrow> (data \<times> nat) res" where
  "Message_BuildFields m d offset = Inl (LogicError ''MessageBase::BuildFields not yet implemented'')"

section \<open>Text and order\<close>

definition Message_GetDescription :: "message \<Rightarrow> bytes" where
  "Message_GetDescription m = mb_Subject m"

definition SimpleFromAddress :: "(bytes \<Rightarrow> bytes) \<Rightarrow> message \<Rightarrow> bytes" where
  "SimpleFromAddress gettext m =
     (case From m of
        a # _ \<Rightarrow> filter (\<lambda>c. c \<noteq> 0x20) (ea_Email a)
      | [] \<Rightarrow> gettext (lit ''unknown''))"

text \<open>operator< of std::string.\<close>

fun string_less :: "bytes \<Rightarrow> bytes \<Rightarrow> bool" where
  "string_less _ [] = False"
| "string_less [] (_ # _) = True"
| "string_less (a # s) (b # t) = (a < b \<or> a = b \<and> string_less s t)"

definition message_less :: "message \<Rightarrow> message \<Rightarrow> bool" where
  "message_less m n =
     (let date = max (MessageDateSent m) (MessageDateReceived m); odate = max (MessageDateSent n) (MessageDateReceived n)
      in if date \<noteq> odate then date < odate else string_less (mb_Subject m) (mb_Subject n))"

section \<open>The contract of a record class\<close>

definition message_known :: "byte list" where
  "message_known = [0x01, 0x02, 0x03, 0x04, 0x05, 0x06, 0x0b, 0x0c, 0x12, 0x16, 0x4b]"

lemma message_links_take: "links_take MessageBaseFieldLinks ty raw \<longleftrightarrow> ty \<in> {0x01, 0x02, 0x03, 0x04, 0x05, 0x06, 0x0b, 0x0c, 0x16}"
  by (auto simp: MessageBaseFieldLinks_def message_codes)

lemma message_links_keep: "list_all (link_keeps mb_Unknowns) MessageBaseFieldLinks"
  by (simp add: MessageBaseFieldLinks_def link_keeps_def)

interpretation message_unknowns: unknown_keeper "Message_ParseField ic" "Message_handle ic" mb_Unknowns "\<lambda>_ ty _. ty \<in> set message_known" for ic
proof unfold_locales
  fix raw post :: bytes and ty and r r' :: message
  assume h: "Message_handle ic post r ty raw = Inr r'"
  show "mb_Unknowns r' = mb_Unknowns r @ (if ty \<in> set message_known then [] else [(ty, raw)])"
  proof (cases "parse_links MessageBaseFieldLinks ic r ty raw")
    case None
    then have "ty \<notin> {0x01, 0x02, 0x03, 0x04, 0x05, 0x06, 0x0b, 0x0c, 0x16}"
      using parse_links_take[of MessageBaseFieldLinks ic r ty raw] message_links_take by blast
    then show ?thesis using h None by (auto simp: Message_handle_def message_known_def message_codes split: if_splits)
  next
    case (Some res)
    then have "links_take MessageBaseFieldLinks ty raw" using parse_links_take[of MessageBaseFieldLinks ic r ty raw] by simp
    then have "ty \<in> set message_known" unfolding message_links_take by (auto simp: message_known_def)
    moreover have "mb_Unknowns r' = mb_Unknowns r"
      using h Some parse_links_keeps[OF message_links_keep] by (auto simp: Message_handle_def)
    ultimately show ?thesis by simp
  qed
qed (simp_all add: Message_ParseField_def)

section \<open>Addresses\<close>

text \<open>The address lists and the types of their fields.\<close>

definition message_lists :: "((message \<Rightarrow> email_address list) \<times> byte) list" where
  "message_lists = [(To, MBFC_TO), (Cc, MBFC_CC), (Bcc, MBFC_BCC), (Sender, MBFC_SENDER), (From, MBFC_FROM), (ReplyTo, MBFC_REPLY_TO)]"

definition good_address :: "byte \<times> bytes \<Rightarrow> bool" where
  "good_address f \<longleftrightarrow> fst f \<in> {0x01, 0x02, 0x03, 0x04, 0x05, 0x06} \<and> snd f \<noteq> []
     \<longrightarrow> length (snd f) \<ge> 8 \<and> 0 \<in> set (drop 8 (snd f))"

definition address_value :: "bytes \<Rightarrow> email_address" where
  "address_value raw = \<lparr>ea_Name = c_str (drop 8 raw), ea_Email = c_str (drop (9 + length (c_str (drop 8 raw))) raw)\<rparr>"

definition address_list :: "converter option \<Rightarrow> byte \<Rightarrow> (byte \<times> bytes) list \<Rightarrow> email_address list" where
  "address_list ic ty fs =
     map (address_from_bb ic) (filter (\<lambda>a. \<not> address_empty a) (map (\<lambda>f. address_value (snd f))
       (filter (\<lambda>f. fst f = ty \<and> snd f \<noteq> []) fs)))"

lemma c_str_length: "length (c_str s) \<le> length s"
  by (simp add: c_str_def length_takeWhile_le)

lemma c_str_shorter: "length (c_str s) < length s \<longleftrightarrow> 0 \<in> set s"
  unfolding c_str_def by (induction s) auto

lemma message_address_eq:
  "message_address raw =
     (if length raw < 8 then Inl (LogicError ''basic_string'')
      else if 0 \<in> set (drop 8 raw) then Inr (address_value raw)
      else Inl (UB ''read past the end of a string''))"
proof (cases "length raw < 8")
  case False
  have "length (c_str (drop 8 raw)) + 1 \<le> length (drop 8 raw) \<longleftrightarrow> 0 \<in> set (drop 8 raw)"
    using c_str_shorter[of "drop 8 raw"] by linarith
  then show ?thesis
    using False by (auto simp: message_address_def address_skip_def dual_strings_def c_str_at_def address_value_def add.commute)
qed (simp add: message_address_def address_skip_def)

text \<open>
  A record id is read as four bytes, whatever the size of its field: a shorter field is only
  a problem when not enough follows it.
\<close>

definition readable_field :: "bytes \<Rightarrow> byte \<times> bytes \<Rightarrow> bool" where
  "readable_field post f \<longleftrightarrow> good_address f \<and> (fst f = MBFC_RECORDID \<longrightarrow> snd f = [] \<or> 4 \<le> length (snd f @ post))"

fun readable :: "(byte \<times> bytes) list \<Rightarrow> bool" where
  "readable [] \<longleftrightarrow> True"
| "readable (f # fs) \<longleftrightarrow> readable_field (encode_fields fs) f \<and> readable fs"

definition ends_in_short_id :: "(byte \<times> bytes) list \<Rightarrow> bool" where
  "ends_in_short_id fs \<longleftrightarrow> fs \<noteq> [] \<and> fst (last fs) = MBFC_RECORDID \<and> length (snd (last fs)) < 4"

lemma encode_fields_long: "fs \<noteq> [] \<Longrightarrow> snd (last fs) \<noteq> [] \<Longrightarrow> 4 \<le> length (encode_fields fs)"
proof (induction fs)
  case (Cons f fs)
  then show ?case by (cases "fs = []"; cases "snd f") (auto simp: encode_fields_def common_field_def)
qed simp

lemma readable_eq: "(fs \<noteq> [] \<longrightarrow> snd (last fs) \<noteq> []) \<Longrightarrow> readable fs \<longleftrightarrow> list_all good_address fs \<and> \<not> ends_in_short_id fs"
proof (induction fs)
  case (Cons f fs)
  show ?case
  proof (cases "fs = []")
    case True
    then show ?thesis using Cons.prems by (auto simp: readable_field_def ends_in_short_id_def encode_fields_def)
  next
    case False
    then have "4 \<le> length (encode_fields fs)" using Cons.prems by (intro encode_fields_long) simp_all
    then show ?thesis using Cons False by (auto simp: readable_field_def ends_in_short_id_def)
  qed
qed (simp add: ends_in_short_id_def)

text \<open>One field: what it does to every address list.\<close>

lemma handle_lists:
  assumes "snd f \<noteq> []"
  shows "case Message_handle ic post m (fst f) (snd f) of
           Inl e \<Rightarrow> \<not> readable_field post f
         | Inr m' \<Rightarrow> readable_field post f \<and> (\<forall>(g, ty) \<in> set message_lists. g m' = g m @ address_list ic ty [f])"
proof -
  consider (subject) "fst f \<in> {0x0b, 0x0c, 0x16}" | (other) "fst f \<notin> {0x01, 0x02, 0x03, 0x04, 0x05, 0x06, 0x0b, 0x0c, 0x16}"
    | (address) "fst f \<in> {0x01, 0x02, 0x03, 0x04, 0x05, 0x06}" by blast
  then show ?thesis
  proof cases
    case subject
    then show ?thesis
      by (auto simp: Message_handle_def MessageBaseFieldLinks_def message_codes message_lists_def address_list_def good_address_def readable_field_def Let_def)
  next
    case other
    then have "parse_links MessageBaseFieldLinks ic m (fst f) (snd f) = None"
      using parse_links_take[of MessageBaseFieldLinks] message_links_take by blast
    then show ?thesis
      using other assms
      by (auto simp: Message_handle_def message_codes message_lists_def address_list_def good_address_def readable_field_def)
  next
    case address
    show ?thesis
    proof (cases "length (snd f) \<ge> 8 \<and> 0 \<in> set (drop 8 (snd f))")
      case True
      then have a: "message_address (snd f) = Inr (address_value (snd f))" by (simp add: message_address_eq)
      show ?thesis
        using True address assms
        by (auto simp: a Message_handle_def MessageBaseFieldLinks_def message_codes message_lists_def address_list_def good_address_def readable_field_def)
    next
      case False
      then have "\<exists>e. message_address (snd f) = Inl e" by (auto simp: message_address_eq)
      then obtain e where a: "message_address (snd f) = Inl e" ..
      show ?thesis
        using False address assms
        by (auto simp: a Message_handle_def MessageBaseFieldLinks_def message_codes good_address_def readable_field_def)
    qed
  qed
qed

lemma address_list_Cons: "address_list ic ty (f # fs) = address_list ic ty [f] @ address_list ic ty fs"
  by (simp add: address_list_def)

lemma parse_list_lists:
  "(case parse_list (Message_handle ic) m fs of
      Inl e \<Rightarrow> \<not> readable fs
    | Inr m' \<Rightarrow> readable fs \<and> (\<forall>(g, ty) \<in> set message_lists. g m' = g m @ address_list ic ty fs))"
proof (induction fs arbitrary: m)
  case Nil
  then show ?case by (auto simp: address_list_def)
next
  case (Cons f fs)
  show ?case
  proof (cases "snd f = []")
    case True
    then have "readable_field (encode_fields fs) f" "address_list ic ty (f # fs) = address_list ic ty fs" for ty
      by (simp_all add: readable_field_def good_address_def address_list_def)
    then show ?thesis using Cons.IH[of m] True by (cases "parse_list (Message_handle ic) m fs") simp_all
  next
    case False
    note step = handle_lists[OF False, where ic = ic and post = "encode_fields fs" and m = m]
    show ?thesis
    proof (cases "Message_handle ic (encode_fields fs) m (fst f) (snd f)")
      case (Inl e)
      then show ?thesis using step False by simp
    next
      case (Inr m1)
      have s: "readable_field (encode_fields fs) f" "\<forall>(g, ty) \<in> set message_lists. g m1 = g m @ address_list ic ty [f]"
        using step Inr False by simp_all
      have IH: "case parse_list (Message_handle ic) m1 fs of
          Inl e \<Rightarrow> \<not> readable fs
        | Inr m' \<Rightarrow> readable fs \<and> (\<forall>(g, ty) \<in> set message_lists. g m' = g m1 @ address_list ic ty fs)"
        by (rule Cons.IH)
      show ?thesis
      proof (cases "parse_list (Message_handle ic) m1 fs")
        case (Inl e)
        then show ?thesis using IH False \<open>Message_handle ic _ m _ _ = Inr m1\<close> s(1) by simp
      next
        case (Inr m2)
        have "\<forall>(g, ty) \<in> set message_lists. g m2 = g m @ address_list ic ty (f # fs)"
          using IH Inr s(2) by (auto simp: address_list_Cons[of ic _ f fs] split: prod.splits)
        then show ?thesis using IH Inr False \<open>Message_handle ic _ m _ _ = Inr m1\<close> s(1) by simp
      qed
    qed
  qed
qed


definition sample_fields :: "(byte \<times> bytes) list" where
  "sample_fields = [(MBFC_TO, replicate 8 0 @ lit ''Jo'' @ [0] @ lit ''j@x'' @ [0]), (MBFC_TO, [1, 2])]"


section \<open>Times\<close>

text \<open>
  C33: The time of a message is defined exactly when the low nine bits of the date word, which
  are the date, are at least 0x29; a smaller date wraps to a day number near 65535 and
  overflows.
\<close>

theorem Message2Time_defined:
  "Message2Time jan r_date r_time =
     (if r_date AND 0x01ff \<ge> 0x29
      then Inr (jan - 3600 + (uint (r_date AND 0x01ff) - 0x29) * 86400 + uint r_time * 177 div 100)
      else Inl (UB ''signed integer overflow''))"
proof -
  define x where "x = r_date AND 0x01ff"
  have x: "uint x \<le> 511" unfolding x_def
    using word_and_le1[of r_date "0x01ff"] by (simp add: word_le_def)
  show ?thesis
  proof (cases "x \<ge> 0x29")
    case True
    then have "uint (x - 0x29) = uint x - 0x29" by (simp add: uint_minus_simple_alt)
    then show ?thesis using True x unfolding x_def[symmetric] by (simp add: Message2Time_def DayToDate_def x_def[symmetric])
  next
    case False
    then have "uint x < 0x29" by (simp add: word_le_def)
    then have "(uint x - 0x29 + 65536) mod 65536 = uint x - 0x29 + 65536"
      using uint_ge_0[of x] by (intro mod_pos_pos_trivial) auto
    then have "(uint x - 0x29) mod 65536 = uint x - 0x29 + 65536" unfolding mod_add_self2 .
    then have "uint (x - 0x29) = uint x - 0x29 + 65536" by (simp add: uint_word_ariths)
    then show ?thesis using False unfolding x_def[symmetric] by (simp add: Message2Time_def DayToDate_def x_def[symmetric])
  qed
qed

end
