(* ===== verification/Bookmark.thy ===== *)
theory Bookmark imports Unknown_Fields Endian begin

text \<open>
  The Browser Bookmark record class (src/src/r_bookmark.cc, src/src/r_bookmark.h), which is
  only parsed: the sections of the first structure, the address in the second. Positions
  stand for the pointers; a read behind the data is an error value. Dump, sorting and the
  field handles are left out.
\<close>

section \<open>State\<close>

datatype BrowserIdentityType = IdentityAuto | IdentityBlackBerry | IdentityFireFox | IdentityInternetExplorer | IdentityUnknown
datatype DisplayModeType = DisplayAuto | DisplayColomn | DisplayPage | DisplayUnknown
datatype JavaScriptModeType = JavaScriptAuto | JavaScriptEnabled | JavaScriptDisabled | JavaScriptUnknown

record bookmark =
  bk_RecType :: byte
  bk_RecordId :: u32
  bk_Index :: byte
  bk_Name :: bytes
  Icon :: bytes
  Url :: bytes
  BrowserIdentity :: BrowserIdentityType
  DisplayMode :: DisplayModeType
  JavaScriptMode :: JavaScriptModeType
  bk_Unknowns :: "unknown_field list"

text \<open>The range checks in front of the casts.\<close>

definition display_mode :: "byte \<Rightarrow> DisplayModeType" where
  "display_mode b = (if b = 0 then DisplayAuto else if b = 1 then DisplayColomn else if b = 2 then DisplayPage else DisplayUnknown)"

definition javascript_mode :: "byte \<Rightarrow> JavaScriptModeType" where
  "javascript_mode b =
     (if b = 0 then JavaScriptAuto else if b = 1 then JavaScriptEnabled else if b = 2 then JavaScriptDisabled else JavaScriptUnknown)"

definition browser_identity :: "byte \<Rightarrow> BrowserIdentityType" where
  "browser_identity b =
     (if b = 0 then IdentityAuto else if b = 1 then IdentityBlackBerry else if b = 2 then IdentityFireFox
      else if b = 3 then IdentityInternetExplorer else IdentityUnknown)"

definition BMKFC_BOOKMARK_TYPE :: byte where "BMKFC_BOOKMARK_TYPE = 0x01"
definition BMKFC_STRUCT1 :: byte where "BMKFC_STRUCT1 = 0x11"
definition BMKFC_STRUCT2 :: byte where "BMKFC_STRUCT2 = 0x12"
definition BMK1SC_HOMEPAGE_KEY :: byte where "BMK1SC_HOMEPAGE_KEY = 0x85"
definition BMK1SC_BOOKMARK_ID :: byte where "BMK1SC_BOOKMARK_ID = 0x87"
definition BMK1SC_BOOKMARK_ID2 :: byte where "BMK1SC_BOOKMARK_ID2 = 0x84"
definition BMK1SC_NAME :: byte where "BMK1SC_NAME = 0x04"
definition BMK1SC_ICON :: byte where "BMK1SC_ICON = 0x05"
definition BMK1SC_FOLDERS :: byte where "BMK1SC_FOLDERS = 0x81"
definition BOOKMARK_ID_SIZE :: nat where "BOOKMARK_ID_SIZE = 5"
definition VARSTRING_FIELD_HEADER_SIZE :: nat where "VARSTRING_FIELD_HEADER_SIZE = 3"
definition BOOKMARK_FOLDERS_HEADER_SIZE :: nat where "BOOKMARK_FOLDERS_HEADER_SIZE = 10"
definition STRING_FIELD_HEADER_SIZE :: nat where "STRING_FIELD_HEADER_SIZE = 2"

lemmas bookmark_codes = BMKFC_BOOKMARK_TYPE_def BMKFC_STRUCT1_def BMKFC_STRUCT2_def BMK1SC_HOMEPAGE_KEY_def BMK1SC_BOOKMARK_ID_def
  BMK1SC_BOOKMARK_ID2_def BMK1SC_NAME_def BMK1SC_ICON_def BMK1SC_FOLDERS_def
lemmas bookmark_sizes = BOOKMARK_ID_SIZE_def VARSTRING_FIELD_HEADER_SIZE_def BOOKMARK_FOLDERS_HEADER_SIZE_def STRING_FIELD_HEADER_SIZE_def

definition Bookmark_Clear :: bookmark where
  "Bookmark_Clear = \<lparr>bk_RecType = 1, bk_RecordId = 0, bk_Index = 0, bk_Name = [], Icon = [], Url = [],
     BrowserIdentity = IdentityUnknown, DisplayMode = DisplayUnknown, JavaScriptMode = JavaScriptUnknown, bk_Unknowns = []\<rparr>"

definition Bookmark_SetIds :: "byte \<Rightarrow> u32 \<Rightarrow> bookmark \<Rightarrow> bookmark" where
  "Bookmark_SetIds ty ident m = m\<lparr>bk_RecType := ty, bk_RecordId := ident\<rparr>"

section \<open>The first structure\<close>

definition be_size :: "bytes \<Rightarrow> nat \<Rightarrow> u16" where "be_size bs b = bbswap_16 (get16 bs b)"

text \<open>A bookmark id at \<open>b\<close>: four bytes that are ignored, and the index.\<close>

definition struct1_id :: "bookmark \<Rightarrow> bytes \<Rightarrow> nat \<Rightarrow> nat \<Rightarrow> bookmark \<times> nat" where
  "struct1_id m bs b e =
     (if b + BOOKMARK_ID_SIZE > e then (m, b + BOOKMARK_ID_SIZE)
      else (m\<lparr>bk_Index := byte_at bs (b + 4)\<rparr>, b + BOOKMARK_ID_SIZE))"

text \<open>A string that may be absent.\<close>

definition struct1_string :: "byte \<Rightarrow> bookmark \<Rightarrow> bytes \<Rightarrow> nat \<Rightarrow> nat \<Rightarrow> bookmark \<times> nat" where
  "struct1_string ty m bs b e =
     (let present = byte_at bs b; sz = be_size bs (b + 1); b2 = b + VARSTRING_FIELD_HEADER_SIZE
      in if b2 > e then (m, b2)
         else if present = 1
         then (if b2 + unat sz > e then (m, b2 + unat sz)
               else let s = ParseFieldString (drop b2 bs) (unat sz)
                    in (if ty = BMK1SC_NAME then m\<lparr>bk_Name := s\<rparr> else m\<lparr>Icon := s\<rparr>, b2 + unat sz))
         else if present = 0 \<and> sz > 0xA0 then (m, b2 + unat (sz AND 0x0F))
         else (m, b2))"

text \<open>\<open>b\<close> is behind the section code here: the flags are read from one byte before it and two before that.\<close>

definition struct1_flags :: "bookmark \<Rightarrow> bytes \<Rightarrow> nat \<Rightarrow> bookmark" where
  "struct1_flags m bs b =
     m\<lparr>DisplayMode := display_mode (byte_at bs (b - 3)), JavaScriptMode := javascript_mode (byte_at bs (b - 2)),
       BrowserIdentity := browser_identity (byte_at bs (b - 1))\<rparr>"

function ParseStruct1Field :: "bookmark \<Rightarrow> bytes \<Rightarrow> nat \<Rightarrow> nat \<Rightarrow> (bookmark \<times> nat) res" where
  "ParseStruct1Field m bs b e =
     (if length bs \<le> b then Inl (UB ''read past the end of the data'')
      else let ty = byte_at bs b in
        if b + 1 > e then Inr (m, b + 1)
        else if ty = BMK1SC_HOMEPAGE_KEY \<or> ty = BMK1SC_BOOKMARK_ID \<or> ty = BMK1SC_BOOKMARK_ID2
        then Inr (struct1_id m bs (b + 1) e)
        else if ty = BMK1SC_NAME \<or> ty = BMK1SC_ICON then Inr (struct1_string ty m bs (b + 1) e)
        else if ty = BMK1SC_FOLDERS then Inr (m, b + 1 + BOOKMARK_FOLDERS_HEADER_SIZE)
        else if e - (b + 1) = 2 then Inr (struct1_flags m bs (b + 1), b + 1)
        else if b + 4 < e \<and> byte_at bs (b + 4) = 0 then ParseStruct1Field m bs (b + 5) e
        else Inr (m, b + 1))"
  by auto
termination by (relation "measure (\<lambda>(m, bs, b, e). length bs - b)") auto

declare ParseStruct1Field.simps [simp del]

lemma struct1_advances: "ParseStruct1Field m bs b e = Inr (m', b') \<Longrightarrow> b < b'"
proof (induction m bs b e rule: ParseStruct1Field.induct)
  case (1 m bs b e)
  show ?case
  proof (cases "length bs \<le> b \<or> b + 1 > e")
    case False
    then show ?thesis
      using 1(2) 1(1)[OF _ refl]
      by (subst (asm) ParseStruct1Field.simps)
        (auto simp: Let_def struct1_id_def struct1_string_def bookmark_sizes split: if_splits)
  qed (use 1(2) in \<open>subst (asm) ParseStruct1Field.simps, auto simp: Let_def split: if_splits\<close>)
qed

text \<open>The loop goes on while \<open>b \<le> e\<close>, so it does not stop at the end of the field.\<close>

function struct1_loop :: "bookmark \<Rightarrow> bytes \<Rightarrow> nat \<Rightarrow> nat \<Rightarrow> (bookmark \<times> nat) res" where
  "struct1_loop m bs b e =
     (if b \<le> e
      then (case ParseStruct1Field m bs b e of
              Inl x \<Rightarrow> Inl x
            | Inr (m', b') \<Rightarrow> struct1_loop m' bs b' e)
      else Inr (m, b))"
  by auto
termination by (relation "measure (\<lambda>(m, bs, b, e). Suc e - b)") (auto dest: struct1_advances)

declare struct1_loop.simps [simp del]

section \<open>The second structure and the fields\<close>

definition ParseStruct2 :: "bookmark \<Rightarrow> bytes \<Rightarrow> nat \<Rightarrow> nat \<Rightarrow> bookmark \<times> nat" where
  "ParseStruct2 m bs b e =
     (let b1 = b + STRING_FIELD_HEADER_SIZE; sz = unat (be_size bs b); b2 = b1 + 2 + sz
      in if b1 > e then (m, b1)
         else if b2 > e then (m, b2)
         else (m\<lparr>Url := ParseFieldString (drop b1 bs) sz\<rparr>, b2))"

definition Bookmark_ParseField :: "bookmark \<Rightarrow> bytes \<Rightarrow> nat \<Rightarrow> (bookmark \<times> nat) res" where
  "Bookmark_ParseField m bs b =
     (let raw = b + COMMON_FIELD_HEADER_SIZE; e = next_field bs b; ty = field_type bs b
      in if length bs < e then Inr (m, e)
         else if field_size bs b = 0 then Inr (m, e)
         else if ty = BMKFC_STRUCT1 then struct1_loop m bs raw e
         else if ty = BMKFC_BOOKMARK_TYPE
         then (if byte_at bs raw \<noteq> 0x44 then Inl (BarryError ''Bookmark::ParseField: BookmarkType is not D'') else Inr (m, e))
         else if ty = BMKFC_STRUCT2 then Inr (ParseStruct2 m bs raw e)
         else Inr (m\<lparr>bk_Unknowns := bk_Unknowns m @ [(ty, field_raw bs b)]\<rparr>, e))"

definition Bookmark_ParseHeader :: "bookmark \<Rightarrow> data \<Rightarrow> nat \<Rightarrow> bookmark \<times> nat" where
  "Bookmark_ParseHeader m d offset = (m, offset)"

definition Bookmark_ParseFields :: "bookmark \<Rightarrow> data \<Rightarrow> nat \<Rightarrow> (bookmark \<times> nat) res option" where
  "Bookmark_ParseFields m d offset = ParseCommonFields Bookmark_ParseField m (contents d) offset"

definition Bookmark_BuildHeader :: "bookmark \<Rightarrow> data \<Rightarrow> nat \<Rightarrow> data \<times> nat" where
  "Bookmark_BuildHeader m d offset = (d, offset)"

definition Bookmark_BuildFields :: "bookmark \<Rightarrow> data \<Rightarrow> nat \<Rightarrow> (data \<times> nat) res" where
  "Bookmark_BuildFields m d offset = Inr (d, offset)"

definition Bookmark_GetDescription :: "bookmark \<Rightarrow> bytes" where
  "Bookmark_GetDescription m = bk_Name m"

lemma struct1_loop_beyond: "struct1_loop m bs b e = Inr (m', b') \<Longrightarrow> e < b'"
proof (induction m bs b e rule: struct1_loop.induct)
  case (1 m bs b e)
  show ?case
  proof (cases "b \<le> e")
    case True
    show ?thesis
    proof (cases "ParseStruct1Field m bs b e")
      case (Inl x)
      then show ?thesis using 1(2) True by (simp add: struct1_loop.simps[of m bs b e])
    next
      case (Inr p)
      obtain m1 b1 where p: "p = (m1, b1)" by (cases p)
      show ?thesis
        using 1(1)[OF True Inr p[symmetric]] 1(2) True Inr p by (simp add: struct1_loop.simps[of m bs b e])
    qed
  qed (use 1(2) in \<open>simp add: struct1_loop.simps[of m bs b e]\<close>)
qed

interpretation bookmark_parser: field_parser Bookmark_ParseField
proof unfold_locales
  fix m m' :: bookmark and bs b b'
  assume p: "Bookmark_ParseField m bs b = Inr (m', b')"
  have n: "b < next_field bs b" by (simp add: next_field_def layout_simps)
  have s: "struct1_loop m bs (b + COMMON_FIELD_HEADER_SIZE) (next_field bs b) = Inr (m', b') \<Longrightarrow> b < b'"
    using struct1_loop_beyond[of m bs "b + COMMON_FIELD_HEADER_SIZE" "next_field bs b" m' b'] n by linarith
  show "b < b'"
    using p n s by (auto simp: Bookmark_ParseField_def Let_def ParseStruct2_def bookmark_sizes layout_simps split: if_splits)
qed

section \<open>Where the next field is looked for\<close>

lemma struct1_error: "ParseStruct1Field m bs b e = Inl x \<Longrightarrow> x = UB ''read past the end of the data''"
proof (induction m bs b e rule: ParseStruct1Field.induct)
  case (1 m bs b e)
  show ?case
  proof (cases "length bs \<le> b \<or> b + 1 > e")
    case False
    then show ?thesis
      using 1(2) 1(1)[OF _ refl]
      by (subst (asm) ParseStruct1Field.simps) (auto simp: Let_def split: if_splits)
  qed (use 1(2) in \<open>subst (asm) ParseStruct1Field.simps, auto simp: Let_def split: if_splits\<close>)
qed

lemma struct1_loop_error: "struct1_loop m bs b e = Inl x \<Longrightarrow> x = UB ''read past the end of the data''"
proof (induction m bs b e rule: struct1_loop.induct)
  case (1 m bs b e)
  then show ?case
    using struct1_error[of m bs b e]
    by (auto simp: struct1_loop.simps[of m bs b e] split: if_splits sum.splits prod.splits)
qed

text \<open>
  A field with the first structure is never followed correctly: either a section code is
  read behind the end of the data, or the position for the next field lies behind the place
  where it begins. (The loop over the sections goes on while the position is at the end.)
\<close>

theorem Bookmark_struct1_overruns:
  assumes "length raw < 65536" "raw \<noteq> []"
  shows "case Bookmark_ParseField m (pre @ common_field BMKFC_STRUCT1 raw @ post) (length pre) of
           Inl x \<Rightarrow> x = UB ''read past the end of the data''
         | Inr (m', b') \<Rightarrow> length pre + length (common_field BMKFC_STRUCT1 raw) < b'"
proof -
  define bs where "bs = pre @ common_field BMKFC_STRUCT1 raw @ post"
  note f = field_members[OF assms(1), of pre BMKFC_STRUCT1 post, folded bs_def]
  have "\<not> length bs < next_field bs (length pre)" unfolding f(3) by (simp add: bs_def)
  then have "Bookmark_ParseField m bs (length pre)
     = struct1_loop m bs (length pre + COMMON_FIELD_HEADER_SIZE) (length pre + length (common_field BMKFC_STRUCT1 raw))"
    using assms(2) f by (simp add: Bookmark_ParseField_def)
  then show ?thesis
    unfolding bs_def[symmetric] using struct1_loop_error struct1_loop_beyond by (auto split: sum.split)
qed

text \<open>Two STRUCT1 fields and an address: the second field and the address are missed.\<close>

lemma Bookmark_struct1_overruns_witness:
  "(case Bookmark_ParseField Bookmark_Clear (common_field BMKFC_STRUCT1 [0x87, 1, 2, 3, 4, 7] @ [0x12, 5, 0, 0]) 0 of
      Inl x \<Rightarrow> x = UB ''read past the end of the data''
    | Inr (m', b') \<Rightarrow> 9 < b')
   \<and> Bookmark_ParseField Bookmark_Clear (common_field BMKFC_STRUCT1 [0x87, 1, 2, 3, 4, 7] @ [0x12, 5, 0, 0]) 0
     = Inr (Bookmark_Clear\<lparr>bk_Index := 7\<rparr>, 10)"
  using Bookmark_struct1_overruns[where raw = "[0x87, 1, 2, 3, 4, 7]" and m = Bookmark_Clear and pre = "[]" and post = "[0x12, 5, 0, 0]"]
  by (simp add: common_field_def le16_def Bookmark_ParseField_def next_field_def field_size_def field_type_def get16_def
      bookmark_codes bookmark_sizes layout_simps struct1_loop.simps ParseStruct1Field.simps struct1_id_def)

section \<open>The flags\<close>

text \<open>
  When the three last bytes of the structure are the flags, the display mode and the
  JavaScript mode are taken from the two bytes in front of them and the browser identity from
  the first flag, the display mode.
\<close>

theorem Bookmark_flags_shifted:
  assumes "length bs = Suc (Suc b) + n" "n \<ge> 1" "b \<ge> 2"
    and "byte_at bs b \<notin> {BMK1SC_HOMEPAGE_KEY, BMK1SC_BOOKMARK_ID, BMK1SC_BOOKMARK_ID2, BMK1SC_NAME, BMK1SC_ICON, BMK1SC_FOLDERS}"
  shows "ParseStruct1Field m bs b (b + 3) =
     Inr (m\<lparr>DisplayMode := display_mode (bs ! (b - 2)), JavaScriptMode := javascript_mode (bs ! (b - 1)),
            BrowserIdentity := browser_identity (bs ! b)\<rparr>, b + 1)"
  using assms by (subst ParseStruct1Field.simps) (auto simp: Let_def struct1_flags_def byte_at_def numeral_eq_Suc)

text \<open>The example in the code: the identity is 1, BlackBerry, and becomes automatic.\<close>

lemma Bookmark_flags_shifted_witness:
  "ParseStruct1Field Bookmark_Clear [0x08, 0x01, 0x05, 0x00, 0x00, 0x00, 0x00, 0x00, 0x01] 6 9
     = Inr (Bookmark_Clear\<lparr>DisplayMode := DisplayAuto, JavaScriptMode := JavaScriptAuto, BrowserIdentity := IdentityAuto\<rparr>, 7)"
  using Bookmark_flags_shifted[of "[0x08, 0x01, 0x05, 0x00, 0x00, 0x00, 0x00, 0x00, 0x01]" 6 1 Bookmark_Clear]
  by (simp add: bookmark_codes display_mode_def javascript_mode_def browser_identity_def)

section \<open>The address\<close>

lemma string_length_append: "n \<le> length u \<Longrightarrow> string_length (u @ x) n = string_length u n"
  by (induction n) auto

lemma ParseFieldString_append: "ParseFieldString (u @ x) (length u) = ParseFieldString u (length u)"
proof -
  have "string_length u n \<le> n" for n by (induction n) auto
  then show ?thesis by (simp add: ParseFieldString_def string_length_append)
qed

text \<open>
  The address in the second structure is read exactly if at least two bytes follow it,
  and the next field is looked for two bytes behind it, wherever the field ends.
\<close>

theorem Bookmark_url:
  assumes "length u + length rest + 2 < 65536"
  shows "Bookmark_ParseField m (pre @ common_field BMKFC_STRUCT2 (le16 (bbswap_16 (word_of_nat (length u))) @ u @ rest) @ post) (length pre)
     = Inr (if 2 \<le> length rest then m\<lparr>Url := ParseFieldString u (length u)\<rparr> else m, length pre + 7 + length u)"
proof -
  define raw where "raw = le16 (bbswap_16 (word_of_nat (length u))) @ u @ rest"
  define bs where "bs = pre @ common_field BMKFC_STRUCT2 raw @ post"
  have l: "length raw < 65536" "raw \<noteq> []" using assms by (auto simp: raw_def le16_def)
  note f = field_members[OF l(1), of pre BMKFC_STRUCT2 post, folded bs_def]
  have next_pos: "next_field bs (length pre) = length pre + 5 + length u + length rest"
    unfolding f(3) by (simp add: common_field_def raw_def)
  have "get16 bs (length pre + 3) = bbswap_16 (word_of_nat (length u))"
    using get16_drop[of "length pre + 3" bs 0] by (simp add: bs_def common_field_def raw_def)
  then have sz: "unat (be_size bs (length pre + 3)) = length u"
    using assms by (simp add: be_size_def unat_of_nat)
  have u: "drop (length pre + 3 + STRING_FIELD_HEADER_SIZE) bs = u @ rest @ post"
    by (simp add: bookmark_sizes bs_def common_field_def raw_def le16_def)
  have "\<not> length bs < next_field bs (length pre)" unfolding f(3) by (simp add: bs_def)
  then have "Bookmark_ParseField m bs (length pre) = Inr (ParseStruct2 m bs (length pre + 3) (next_field bs (length pre)))"
    using l(2) f(1,2) by (simp add: Bookmark_ParseField_def bookmark_codes layout_simps)
  then show ?thesis
    unfolding bs_def[symmetric] raw_def[symmetric] ParseStruct2_def Let_def sz u ParseFieldString_append
    by (simp add: bookmark_sizes next_pos)
qed

lemma Bookmark_url_witness:
  "Bookmark_ParseField Bookmark_Clear (common_field BMKFC_STRUCT2 ([0, 3] @ lit ''a.b'')) 0 = Inr (Bookmark_Clear, 10)"
proof -
  have sz: "le16 (bbswap_16 (word_of_nat (length (lit ''a.b'')))) = [0, 3]" by (simp add: lit_def le16_def bbswap_16_def)
  show ?thesis
    using Bookmark_url[of "lit ''a.b''" "[]" Bookmark_Clear "[]" "[]"] unfolding sz by (simp add: lit_def)
qed

section \<open>Unknown fields\<close>

text \<open>
  Without a structure in it a bookmark is parsed like the other records: field after field,
  and what is not the type field is added to the unknown fields.
\<close>

definition bookmark_plain :: "bookmark \<Rightarrow> byte \<Rightarrow> bytes \<Rightarrow> bookmark res" where
  "bookmark_plain m ty raw =
     (if ty = BMKFC_BOOKMARK_TYPE
      then (if byte_at raw 0 \<noteq> 0x44 then Inl (BarryError ''Bookmark::ParseField: BookmarkType is not D'') else Inr m)
      else Inr (m\<lparr>bk_Unknowns := bk_Unknowns m @ [(ty, raw)]\<rparr>))"

interpretation plain_bookmark: unknown_keeper "\<lambda>m bs b. ParseField_start bookmark_plain m bs b" "\<lambda>_. bookmark_plain"
    bk_Unknowns "\<lambda>_ ty _. ty = BMKFC_BOOKMARK_TYPE"
  by unfold_locales (auto simp: bookmark_plain_def split: if_splits)

definition no_struct :: "(byte \<times> bytes) list \<Rightarrow> bool" where
  "no_struct fs \<longleftrightarrow> list_all (\<lambda>f. fst f \<noteq> BMKFC_STRUCT1 \<and> fst f \<noteq> BMKFC_STRUCT2 \<and> length (snd f) < 65536) fs"

lemma Bookmark_ParseField_plain:
  assumes "field_type bs b \<noteq> BMKFC_STRUCT1" "field_type bs b \<noteq> BMKFC_STRUCT2"
  shows "Bookmark_ParseField m bs b = ParseField_start bookmark_plain m bs b"
proof -
  have "byte_at (field_raw bs b) 0 = byte_at bs (b + COMMON_FIELD_HEADER_SIZE)"
    if "\<not> length bs < next_field bs b" "field_size bs b \<noteq> 0"
    using that by (simp add: field_raw_def byte_at_def next_field_def)
  then show ?thesis using assms
    by (auto simp: Bookmark_ParseField_def ParseField_start_def bookmark_plain_def Let_def)
qed

lemma Bookmark_fields_plain:
  "no_struct fs \<Longrightarrow> ParseCommonFields Bookmark_ParseField m (pre @ encode_fields fs) (length pre)
    = ParseCommonFields (\<lambda>m bs b. ParseField_start bookmark_plain m bs b) m (pre @ encode_fields fs) (length pre)"
proof (induction fs arbitrary: m pre)
  case Nil
  show ?case by (simp add: bookmark_parser.unfold plain_bookmark.unfold encode_fields_def)
next
  case (Cons f fs)
  define bs where "bs = pre @ common_field (fst f) (snd f) @ encode_fields fs"
  have enc: "pre @ encode_fields (f # fs) = bs" by (simp add: bs_def encode_fields_def)
  have f: "length (snd f) < 65536" "no_struct fs" using Cons.prems by (simp_all add: no_struct_def)
  have "field_type bs (length pre) = fst f" using field_members(2)[OF f(1)] by (simp add: bs_def)
  then have same: "Bookmark_ParseField m bs (length pre) = ParseField_start bookmark_plain m bs (length pre)"
    using Cons.prems by (intro Bookmark_ParseField_plain) (simp_all add: no_struct_def)
  show ?case
  proof (cases "ParseField_start bookmark_plain m bs (length pre)")
    case (Inl e)
    then show ?thesis unfolding enc using same
      by (subst bookmark_parser.unfold, subst plain_bookmark.unfold) simp
  next
    case (Inr p)
    obtain m' b' where p: "p = (m', b')" by (cases p)
    have b': "b' = length (pre @ common_field (fst f) (snd f))"
      using Inr plain_bookmark.parse_one[OF f(1), of m pre "fst f" "encode_fields fs"] by (auto simp: p bs_def rbind_eq_Inr split: if_splits)
    have "ParseCommonFields Bookmark_ParseField m' bs b' = ParseCommonFields (\<lambda>m bs b. ParseField_start bookmark_plain m bs b) m' bs b'"
      using Cons.IH[OF f(2), of m' "pre @ common_field (fst f) (snd f)"] unfolding b' by (simp add: bs_def)
    then show ?thesis unfolding enc using same Inr p
      by (subst bookmark_parser.unfold, subst plain_bookmark.unfold) simp
  qed
qed

lemma Bookmark_kept:
  assumes "no_struct fs" "fs \<noteq> [] \<longrightarrow> snd (last fs) \<noteq> []" "contents d = pre @ encode_fields fs"
    and "Bookmark_ParseFields m d (length pre) = Some (Inr (r, n))"
  shows "bk_Unknowns r = bk_Unknowns m @ filter (\<lambda>f. snd f \<noteq> [] \<and> fst f \<noteq> BMKFC_BOOKMARK_TYPE) fs"
proof -
  have "list_all (\<lambda>f. length (snd f) < 65536) fs" using assms(1) by (auto simp: no_struct_def list_all_iff)
  from plain_bookmark.kept_whole[OF this assms(2) refl refl] show ?thesis
    using assms(4) Bookmark_fields_plain[OF assms(1)] by (simp add: Bookmark_ParseFields_def assms(3))
qed

text \<open>Behind a structure fields get lost, since the next one is looked for at the wrong place.\<close>

definition lost_fields :: "(byte \<times> bytes) list" where
  "lost_fields = [(BMKFC_STRUCT1, [0x87, 1, 2, 3, 4, 7]), (0x77, [9]), (0x78, [8])]"

lemma Bookmark_loses:
  "\<exists>r n. Bookmark_ParseFields Bookmark_Clear (Data_external (encode_fields lost_fields) 17) 0 = Some (Inr (r, n)) \<and> bk_Unknowns r = []
    \<and> filter (\<lambda>f. snd f \<noteq> [] \<and> fst f \<notin> {BMKFC_STRUCT1, BMKFC_STRUCT2, BMKFC_BOOKMARK_TYPE}) lost_fields = [(0x77, [9]), (0x78, [8])]"
proof -
  define bs :: bytes where "bs = [6, 0, 0x11, 0x87, 1, 2, 3, 4, 7, 1, 0, 0x77, 9, 1, 0, 0x78, 8]"
  have c: "contents (Data_external (encode_fields lost_fields) 17) = bs"
    by (simp add: bs_def lost_fields_def encode_fields_def common_field_def le16_def contents_def Data_external_def bookmark_codes)
  note calc = Bookmark_ParseField_def next_field_def field_size_def field_type_def get16_def bookmark_codes bookmark_sizes
    layout_simps struct1_loop.simps ParseStruct1Field.simps struct1_id_def bs_def
  have one: "Bookmark_ParseField Bookmark_Clear bs 0 = Inr (Bookmark_Clear\<lparr>bk_Index := 7\<rparr>, 10)" by (simp add: calc)
  have two: "\<exists>n. Bookmark_ParseField m bs 10 = Inr (m, n) \<and> 17 < n" for m by (simp add: calc)
  have len: "length bs = 17" by (simp add: bs_def)
  obtain n where n: "Bookmark_ParseField (Bookmark_Clear\<lparr>bk_Index := 7\<rparr>) bs 10 = Inr (Bookmark_Clear\<lparr>bk_Index := 7\<rparr>, n)" "17 < n"
    using two by blast
  have "ParseCommonFields Bookmark_ParseField Bookmark_Clear bs 0 = Some (Inr (Bookmark_Clear\<lparr>bk_Index := 7\<rparr>, n))"
    using bookmark_parser.unfold[of Bookmark_Clear bs 0] bookmark_parser.unfold[of "Bookmark_Clear\<lparr>bk_Index := 7\<rparr>" bs 10]
      bookmark_parser.unfold[of "Bookmark_Clear\<lparr>bk_Index := 7\<rparr>" bs n] one n len by (simp add: layout_simps)
  then show ?thesis by (simp add: Bookmark_ParseFields_def c Bookmark_Clear_def) (simp add: lost_fields_def bookmark_codes)
qed

end
