(* ===== verification/Record_Classes.thy ===== *)
theory Record_Classes
  imports Memo Calendar Task Contact Content_Store Folder Call_Log Handheld_Agent Time_Zone Sms Service_Book Message_Base Bookmark
begin

text \<open>
  What all record classes have in common, from their interpretations of \<open>field_parser\<close> and
  \<open>unknown_keeper\<close>: reading a record ends, and fields that a class does not know are kept.
\<close>

text \<open>
  C30: The field loop has no bound of its own, but reading a record ends for every record
  class and every data: each turn moves on by at least a field header, also for the packed
  fields of a service book and the sections of a bookmark.
\<close>

theorem record_parsers_return:
  "Memo_ParseFields ic m d offset \<noteq> None
   \<and> Calendar_ParseFields ic (c :: calendar) d offset \<noteq> None
   \<and> Task_ParseFields ic t d offset \<noteq> None
   \<and> Contact_ParseFields ic p d offset \<noteq> None
   \<and> ContentStore_ParseFields cs d offset \<noteq> None
   \<and> Folder_ParseFields ic fd d offset \<noteq> None
   \<and> CallLog_ParseFields ic cl d offset \<noteq> None
   \<and> HandheldAgent_ParseFields ic hh d offset \<noteq> None
   \<and> TimeZone_ParseFields ic tz d offset \<noteq> None
   \<and> Sms_ParseFields sc s d offset \<noteq> None
   \<and> ServiceBook_ParseFields ic sb d offset \<noteq> None
   \<and> Message_ParseFields ic mb d offset \<noteq> None
   \<and> Bookmark_ParseFields bk d offset \<noteq> None
   \<and> ServiceBookConfig_ParseFields cfg bs offset \<noteq> None"
  unfolding Memo_ParseFields_def Calendar_ParseFields_def Task_ParseFields_def Contact_ParseFields_def ContentStore_ParseFields_def Folder_ParseFields_def CallLog_ParseFields_def HandheldAgent_ParseFields_def TimeZone_ParseFields_def Sms_ParseFields_def ServiceBook_ParseFields_def Message_ParseFields_def Bookmark_ParseFields_def ServiceBookConfig_ParseFields_def
  by (intro conjI memo_unknowns.returns calendar_unknowns.returns task_unknowns.returns contact_unknowns.returns content_unknowns.returns folder_unknowns.returns call_unknowns.returns hhagent_unknowns.returns zone_unknowns.returns sms_unknowns.returns service_unknowns.returns message_unknowns.returns bookmark_parser.returns config_parser.returns)

text \<open>The fields with a value that a class does not take.\<close>

definition not_taken :: "(byte \<Rightarrow> bytes \<Rightarrow> bool) \<Rightarrow> (byte \<times> bytes) list \<Rightarrow> (byte \<times> bytes) list" where
  "not_taken takes fs = filter (\<lambda>f. snd f \<noteq> [] \<and> \<not> takes (fst f) (snd f)) fs"

text \<open>
  C29: Of the record classes with a list of unknown fields all but Bookmark keep every field
  they do not know: when a record is read, the list of unknown fields is the old one followed
  by all the fields with a value that the class does not take, with type and value and in
  their order. Bookmark does so for a record without its two structures; behind a structure
  fields are lost, as in the record of the last line.
\<close>

theorem unknown_fields_kept:
  assumes "list_all (\<lambda>f. length (snd f) < 65536) fs" "fs \<noteq> [] \<longrightarrow> snd (last fs) \<noteq> []"
    and d: "contents d = pre @ encode_fields fs"
  shows
    "(\<forall>r n. Memo_ParseFields ic m d (length pre) = Some (Inr (r, n)) \<longrightarrow>
          Unknowns r = Unknowns m @ not_taken (\<lambda>ty raw. memo_takes ty raw) fs)
     \<and> (\<forall>r n. Calendar_ParseFields ic (c :: calendar) d (length pre) = Some (Inr (r, n)) \<longrightarrow>
          cal_Unknowns r = cal_Unknowns c @ not_taken (\<lambda>ty raw. calendar_takes ty raw) fs)
     \<and> (\<forall>r n. Task_ParseFields ic t d (length pre) = Some (Inr (r, n)) \<longrightarrow>
          tsk_Unknowns r = tsk_Unknowns t @ not_taken (\<lambda>ty raw. task_takes ty raw) fs)
     \<and> (\<forall>r n. Contact_ParseFields ic p d (length pre) = Some (Inr (r, n)) \<longrightarrow>
          ct_Unknowns r = ct_Unknowns p @ not_taken (\<lambda>ty raw. contact_takes ty raw) fs)
     \<and> (\<forall>r n. ContentStore_ParseFields cs d (length pre) = Some (Inr (r, n)) \<longrightarrow>
          cs_Unknowns r = cs_Unknowns cs @ not_taken (\<lambda>ty _. content_takes ty) fs)
     \<and> (\<forall>r n. Folder_ParseFields ic fd d (length pre) = Some (Inr (r, n)) \<longrightarrow>
          fd_Unknowns r = fd_Unknowns fd @ not_taken (\<lambda>ty _. ty \<in> set folder_known) fs)
     \<and> (\<forall>r n. CallLog_ParseFields ic cl d (length pre) = Some (Inr (r, n)) \<longrightarrow>
          cl_Unknowns r = cl_Unknowns cl @ not_taken (\<lambda>ty raw. call_takes ty raw) fs)
     \<and> (\<forall>r n. HandheldAgent_ParseFields ic hh d (length pre) = Some (Inr (r, n)) \<longrightarrow>
          hh_Unknowns r = hh_Unknowns hh @ not_taken (\<lambda>ty raw. hhagent_takes hh ty raw) fs)
     \<and> (\<forall>r n. TimeZone_ParseFields ic tz d (length pre) = Some (Inr (r, n)) \<longrightarrow>
          tz_Unknowns r = tz_Unknowns tz @ not_taken (\<lambda>ty _. ty \<in> set zone_known) fs)
     \<and> (\<forall>r n. Sms_ParseFields sc s d (length pre) = Some (Inr (r, n)) \<longrightarrow>
          sms_Unknowns r = sms_Unknowns s @ not_taken (\<lambda>ty raw. sms_takes ty raw) fs)
     \<and> (\<forall>r n. ServiceBook_ParseFields ic sb d (length pre) = Some (Inr (r, n)) \<longrightarrow>
          sb_Unknowns r = sb_Unknowns sb @ not_taken (\<lambda>ty raw. service_takes ty raw) fs)
     \<and> (\<forall>r n. Message_ParseFields ic mb d (length pre) = Some (Inr (r, n)) \<longrightarrow>
          mb_Unknowns r = mb_Unknowns mb @ not_taken (\<lambda>ty _. ty \<in> set message_known) fs)
     \<and> (no_struct fs \<longrightarrow> (\<forall>r n. Bookmark_ParseFields bk d (length pre) = Some (Inr (r, n)) \<longrightarrow>
          bk_Unknowns r = bk_Unknowns bk @ not_taken (\<lambda>ty _. ty = BMKFC_BOOKMARK_TYPE) fs))
     \<and> (\<exists>r n. Bookmark_ParseFields Bookmark_Clear (Data_external (encode_fields lost_fields) 17) 0 = Some (Inr (r, n))
          \<and> bk_Unknowns r = [] \<and> not_taken (\<lambda>ty _. ty \<in> {BMKFC_STRUCT1, BMKFC_STRUCT2, BMKFC_BOOKMARK_TYPE}) lost_fields = [(0x77, [9]), (0x78, [8])])"
  unfolding not_taken_def Memo_ParseFields_def Calendar_ParseFields_def Task_ParseFields_def Contact_ParseFields_def ContentStore_ParseFields_def Folder_ParseFields_def CallLog_ParseFields_def HandheldAgent_ParseFields_def TimeZone_ParseFields_def Sms_ParseFields_def ServiceBook_ParseFields_def Message_ParseFields_def
  by (intro conjI allI impI; (erule memo_unknowns.kept_whole[OF assms refl]
      | erule calendar_unknowns.kept_whole[OF assms refl]
      | erule task_unknowns.kept_whole[OF assms refl]
      | erule contact_unknowns.kept_whole[OF assms refl]
      | erule content_unknowns.kept_whole[OF assms refl]
      | erule folder_unknowns.kept_whole[OF assms refl]
      | erule call_unknowns.kept_whole[OF assms refl]
      | erule hhagent_unknowns.kept_whole[OF assms refl]
      | erule zone_unknowns.kept_whole[OF assms refl]
      | erule sms_unknowns.kept_whole[OF assms refl]
      | erule service_unknowns.kept_whole[OF assms refl]
      | erule message_unknowns.kept_whole[OF assms refl]
      | erule (1) Bookmark_kept[OF _ assms(2,3)]
      | rule Bookmark_loses))

definition odd_fields :: "(byte \<times> bytes) list" where
  "odd_fields = [(0x77, [1, 2]), (0x01, [0x6d]), (0x78, []), (0x77, [3])]"

lemma unknown_fields_kept_witness:
  "\<exists>r n. Memo_ParseFields None Memo_Clear (Data_external (encode_fields odd_fields) 16) 0 = Some (Inr (r, n))
     \<and> Unknowns r = [(0x77, [1, 2]), (0x77, [3])]"
proof -
  define d where "d = Data_external (encode_fields odd_fields) 16"
  have small: "list_all (\<lambda>f. length (snd f) < 65536) odd_fields" "odd_fields \<noteq> [] \<longrightarrow> snd (last odd_fields) \<noteq> []"
    by (simp_all add: odd_fields_def)
  have c: "contents d = [] @ encode_fields odd_fields"
    by (simp add: d_def contents_def Data_external_def odd_fields_def encode_fields_def common_field_def)
  obtain r where "parse_list (\<lambda>_. Memo_handle None) Memo_Clear odd_fields = Inr r"
    by (simp add: odd_fields_def Memo_handle_def MemoFieldLinks_def memo_codes)
  then obtain n where p: "Memo_ParseFields None Memo_Clear d 0 = Some (Inr (r, n))"
    using memo_unknowns.parse_fields[OF small, where ic = None and rec = Memo_Clear and pre = "[]"]
    by (auto simp: Memo_ParseFields_def c)
  have "Unknowns r = Unknowns Memo_Clear @ not_taken (\<lambda>ty raw. memo_takes ty raw) odd_fields"
    using unknown_fields_kept[OF small c, where ic = None and m = Memo_Clear] p by simp
  also have "\<dots> = [(0x77, [1, 2]), (0x77, [3])]"
    by (simp add: not_taken_def odd_fields_def memo_takes_def MemoFieldLinks_def memo_codes Memo_Clear_def)
  finally show ?thesis using p by (auto simp: d_def)
qed

end
