(* ===== verification/Upload.thy ===== *)
theory Upload imports Packets Memo begin

text \<open>
  Builders (src/src/builder.h, src/src/builder.cc): the templates that turn a record object
  into a DBData object and feed it to an upload packet, and the builder around an existing
  DBData object. The theory joins the record classes to the packet layer: what AddRecord
  sends for a memo is read back as that memo.
\<close>

section \<open>SetDBData and RecordBuilder\<close>

text \<open>What the templates require of a record class.\<close>

record 'r record_class =
  Validate :: "'r \<Rightarrow> unit res"
  GetDBName_of :: bytes
  GetRecType :: "'r \<Rightarrow> byte"
  GetUniqueId :: "'r \<Rightarrow> u32"
  BuildHeader :: "'r \<Rightarrow> data \<Rightarrow> nat \<Rightarrow> data \<times> nat"
  BuildFields :: "converter option \<Rightarrow> 'r \<Rightarrow> data \<Rightarrow> nat \<Rightarrow> (data \<times> nat) res"

definition memo_class :: "memo record_class" where
  "memo_class = \<lparr>Validate = (\<lambda>m. Inr ()), GetDBName_of = lit ''Memos'', GetRecType = mm_RecType,
     GetUniqueId = mm_RecordId, BuildHeader = Memo_BuildHeader, BuildFields = Memo_BuildFields\<rparr>"

definition SetDBData :: "'r record_class \<Rightarrow> converter option \<Rightarrow> 'r \<Rightarrow> dbdata \<Rightarrow> nat \<Rightarrow> (dbdata \<times> nat) res" where
  "SetDBData cls ic rec d offset =
     rbind (Validate cls rec) (\<lambda>_.
     let d1 = SetIds (GetRecType cls rec) (GetUniqueId cls rec)
                (SetDBName (GetDBName_of cls) (SetOffset offset (SetVersion REC_VERSION_1 d)))
     in rbind (UseData d1) (\<lambda>d2.
        let (b, offset1) = BuildHeader cls rec (m_data d2) offset
        in rbind (UseData (d2\<lparr>m_data := b\<rparr>)) (\<lambda>d3.
           rbind (BuildFields cls ic rec (m_data d3) offset1) (\<lambda>(b', offset2).
             Inr (d3\<lparr>m_data := b'\<rparr>, offset2)))))"

text \<open>
  The storage object is called with the builder's record and says whether it loaded
  another one; \<open>'s\<close> is its state.
\<close>

record ('r, 's) record_builder =
  rb_storage :: 's
  rb_load :: "'s \<Rightarrow> 'r \<Rightarrow> bool \<times> 'r \<times> 's"
  m_end_of_file :: bool
  m_rec :: 'r

definition RecordBuilder_new :: "('s \<Rightarrow> 'r \<Rightarrow> bool \<times> 'r \<times> 's) \<Rightarrow> 's \<Rightarrow> 'r \<Rightarrow> ('r, 's) record_builder" where
  "RecordBuilder_new load storage rec = \<lparr>rb_storage = storage, rb_load = load, m_end_of_file = False, m_rec = rec\<rparr>"

definition BuildRecord ::
  "'r record_class \<Rightarrow> converter option \<Rightarrow> ('r, 's) record_builder \<Rightarrow> dbdata \<Rightarrow> nat
     \<Rightarrow> (bool \<times> dbdata \<times> nat \<times> ('r, 's) record_builder) res" where
  "BuildRecord cls ic rb d offset =
     (if m_end_of_file rb then Inr (False, d, offset, rb)
      else case rb_load rb (rb_storage rb) (m_rec rb) of
        (loaded, rec, storage) \<Rightarrow>
          let rb1 = rb\<lparr>rb_storage := storage, m_rec := rec\<rparr>
          in if \<not> loaded then Inr (False, d, offset, rb1\<lparr>m_end_of_file := True\<rparr>)
             else rbind (SetDBData cls ic rec d offset) (\<lambda>(d', offset'). Inr (True, d', offset', rb1)))"

definition FetchRecord ::
  "'r record_class \<Rightarrow> converter option \<Rightarrow> ('r, 's) record_builder \<Rightarrow> dbdata
     \<Rightarrow> (bool \<times> dbdata \<times> nat \<times> ('r, 's) record_builder) res" where
  "FetchRecord cls ic rb d = BuildRecord cls ic rb d 0"

text \<open>RecordFetch delivers its record once; the flag is m_done.\<close>

definition RecordFetch :: "'r \<Rightarrow> bool \<Rightarrow> 'r \<Rightarrow> bool \<times> 'r \<times> bool" where
  "RecordFetch fetched finished rec = (if finished then (False, rec, finished) else (True, fetched, True))"

text \<open>What an upload packet sees of a builder in a given state.\<close>

definition as_builder :: "'r record_class \<Rightarrow> converter option \<Rightarrow> ('r, 's) record_builder \<Rightarrow> ('r, 's) record_builder builder" where
  "as_builder cls ic rb d offset =
     rbind (BuildRecord cls ic rb d offset) (\<lambda>(more, d', offset', rb'). Inr (more, d', rb'))"

section \<open>DBDataBuilder\<close>

definition DBDataBuilder_BuildRecord :: "dbdata \<Rightarrow> dbdata \<Rightarrow> nat \<Rightarrow> (bool \<times> dbdata) res" where
  "DBDataBuilder_BuildRecord orig d offset =
     (if offset = m_offset orig then rbind (DBData_assign d orig) (\<lambda>d'. Inr (True, d'))
      else
        let d1 = CopyMeta orig d
        in if m_offset orig > dsize (m_data orig)
           then Inl (LogicError ''DBDataBuilder: offset greater than size'')
           else
             let actual = dsize (m_data orig) - m_offset orig; total = offset + actual
             in rbind (UseData d1) (\<lambda>d2.
                rbind (GetBuffer (m_data d2) total) (\<lambda>b.
                rbind (write_at b (offset, drop (m_offset orig) (contents (m_data orig)))) (\<lambda>b1.
                rbind (ReleaseBuffer b1 (int total)) (\<lambda>b2.
                  Inr (True, SetOffset offset (d2\<lparr>m_data := b2\<rparr>)))))))"

definition DBDataBuilder_FetchRecord :: "dbdata \<Rightarrow> dbdata \<Rightarrow> (bool \<times> dbdata) res" where
  "DBDataBuilder_FetchRecord orig d = rbind (DBData_assign d orig) (\<lambda>d'. Inr (True, d'))"

section \<open>Properties\<close>

lemma GetBuffer_0_room:
  assumes "has_room d n" "dsize d \<le> n" shows "GetBuffer d 0 = Inr d"
  using assms by (auto simp: has_room_def GetBuffer_def MakeSpace_def AvailablePrependSpace_def GetBufSize_def Let_def split: if_splits)

lemma SetDBData_memo:
  assumes "has_room (m_data d) n" "dsize (m_data d) \<le> n"
    and "n = offset + length (encode_fields (memo_fields ic m))" and "memo_ok ic m"
  shows "\<exists>d'. SetDBData memo_class ic m d offset = Inr (d', n) \<and> data_ok (m_data d') \<and> dsize (m_data d') = n
     \<and> contents (m_data d') = replicate offset 0 @ encode_fields (memo_fields ic m)
     \<and> m_recType d' = mm_RecType m \<and> m_uniqueId d' = mm_RecordId m \<and> m_dbName d' = lit ''Memos'' \<and> m_offset d' = offset"
proof -
  obtain b where b: "Memo_BuildFields ic m (m_data d) offset = Inr (b, n)" "data_ok b"
      "contents b = replicate offset 0 @ encode_fields (memo_fields ic m)"
    using memo_codec.build_room[OF assms(4), of "m_data d" offset] assms(1,3) by blast
  have "dsize b = n" using length_contents[OF b(2)] b(3) assms(3) by simp
  then show ?thesis
    using b GetBuffer_0_room[OF assms(1,2)]
    by (simp add: SetDBData_def memo_class_def UseData_def SetIds_def SetDBName_def SetOffset_def SetVersion_def
        Memo_BuildHeader_def Let_def)
qed

text \<open>
  The builder around a DBData object delivers its record behind any offset that is
  asked for: it copies the bytes behind the original offset, takes over all meta data and
  records the new offset, wherever the target object was before.
\<close>

theorem DBDataBuilder_moves:
  assumes "data_ok (m_data d)" and "data_ok (m_data orig)" and "m_offset orig \<le> dsize (m_data orig)"
  shows "\<exists>d'. DBDataBuilder_BuildRecord orig d offset = Inr (True, d') \<and> data_ok (m_data d')
     \<and> drop offset (contents (m_data d')) = drop (m_offset orig) (contents (m_data orig)) \<and> m_offset d' = offset
     \<and> m_dbName d' = m_dbName orig \<and> m_recType d' = m_recType orig \<and> m_uniqueId d' = m_uniqueId orig
     \<and> m_version d' = m_version orig"
proof (cases "offset = m_offset orig")
  case True
  obtain d1 where d1: "assign (m_data d) (m_data orig) = Inr d1" using assign_total by blast
  show ?thesis
    using assign_spec[OF d1 assms(1,2)] True
    by (simp add: DBDataBuilder_BuildRecord_def DBData_assign_def d1 CopyMeta_def)
next
  case False
  obtain b where g: "GetBuffer (m_data d) 0 = Inr b" using GetBuffer_total by blast
  have ok: "data_ok b" by (rule GetBuffer_eqs(1)[OF g assms(1)])
  define raw where "raw = drop (m_offset orig) (contents (m_data orig))"
  have len: "length raw = dsize (m_data orig) - m_offset orig" using assms(2) by (simp add: raw_def)
  have le: "offset + length raw \<le> offset + length raw" by simp
  from write_behind_offset[OF ok le]
  obtain b1 b2 b3 where b: "GetBuffer b (offset + length raw) = Inr b1" "write_at b1 (offset, raw) = Inr b2"
      "ReleaseBuffer b2 (int (length raw + offset)) = Inr b3" "data_ok b3" "drop offset (contents b3) = raw"
    by blast
  define d1 where "d1 = CopyMeta orig d"
  have "UseData d1 = Inr (d1\<lparr>m_data := b\<rparr>)" by (simp add: UseData_def d1_def CopyMeta_def g)
  then have "DBDataBuilder_BuildRecord orig d offset = Inr (True, SetOffset offset (d1\<lparr>m_data := b3\<rparr>))"
    unfolding DBDataBuilder_BuildRecord_def Let_def d1_def[symmetric] raw_def[symmetric] len[symmetric]
    using False assms(3) b(1-3) by (simp add: add.commute)
  then show ?thesis using b by (simp add: SetOffset_def d1_def CopyMeta_def raw_def)
qed

lemma dsize_external: "dsize (Data_external xs n) = n"
  by (simp add: Data_external_def)

lemma DBDataBuilder_moves_witness:
  "\<exists>d'. DBDataBuilder_BuildRecord (DBData_memory_meta REC_VERSION_2 (lit ''Memos'') 1 2 3 [9, 8, 7, 6, 5] 5) DBData_empty 15 = Inr (True, d')
     \<and> drop 15 (contents (m_data d')) = [6, 5] \<and> m_uniqueId d' = 2"
  using DBDataBuilder_moves[of DBData_empty "DBData_memory_meta REC_VERSION_2 (lit ''Memos'') 1 2 3 [9, 8, 7, 6, 5] 5" 15]
  by (auto simp: DBData_empty_def DBData_memory_meta_def data_external_ok contents_external dsize_external)

end
