(* ===== verification/Parsers.thy ===== *)
theory Parsers imports Upload begin

text \<open>
  Parsers (src/src/parser.h, src/src/parser.cc): the template that turns a DBData object back
  into a record object, the parser that stores records, and the two containers, which
  choose a parser by database name and feed several parsers. A parser is a program on the
  state of the parser objects and their stores, so what was stored before an exception
  stays stored. The theory joins Upload: parsing what SetDBData made gives the record.
\<close>

section \<open>ParseDBData and RecordParser\<close>

text \<open>What the templates require of a record class for reading.\<close>

record 'r parse_class =
  rec_DBName :: bytes
  rec_new :: 'r
  rec_SetIds :: "byte \<Rightarrow> u32 \<Rightarrow> 'r \<Rightarrow> 'r"
  rec_ParseHeader :: "'r \<Rightarrow> data \<Rightarrow> nat \<Rightarrow> ('r \<times> nat) res"
  rec_ParseFields :: "converter option \<Rightarrow> 'r \<Rightarrow> data \<Rightarrow> nat \<Rightarrow> ('r \<times> nat) res option"

definition memo_parse_class :: "memo parse_class" where
  "memo_parse_class = \<lparr>rec_DBName = lit ''Memos'', rec_new = Memo_Clear, rec_SetIds = Memo_SetIds,
     rec_ParseHeader = (\<lambda>m d offset. Inr (Memo_ParseHeader m d offset)), rec_ParseFields = Memo_ParseFields\<rparr>"

definition ParseDBData :: "'r parse_class \<Rightarrow> converter option \<Rightarrow> dbdata \<Rightarrow> 'r res" where
  "ParseDBData cls ic d =
     (let rec = rec_SetIds cls (m_recType d) (m_uniqueId d) (rec_new cls)
      in rbind (rec_ParseHeader cls rec (m_data d) (m_offset d)) (\<lambda>(rec1, offset).
         case rec_ParseFields cls ic rec1 (m_data d) offset of
           None \<Rightarrow> Inl (UB ''out of fuel'')
         | Some r \<Rightarrow> rbind r (\<lambda>(rec2, offset'). Inr rec2)))"

text \<open>
  The object holds the last record and whether it is valid; the store is a functor with a
  state of its own, or none. After a failed parse m_rec is left half filled in; here it keeps
  its old value, and only m_record_valid says so.
\<close>

record ('r, 's) record_parser_object =
  rp_rec :: 'r
  m_record_valid :: bool
  rp_store :: 's

definition RecordParser_new :: "'r parse_class \<Rightarrow> 's \<Rightarrow> ('r, 's) record_parser_object" where
  "RecordParser_new cls storage = \<lparr>rp_rec = rec_new cls, m_record_valid = False, rp_store = storage\<rparr>"

definition RecordParser_ParseRecord ::
  "'r parse_class \<Rightarrow> ('r \<Rightarrow> ('s, unit) st) option \<Rightarrow> converter option \<Rightarrow> ('r, 's) record_parser_object parser" where
  "RecordParser_ParseRecord cls store ic d =
     bnd (modify (\<lambda>p. p\<lparr>m_record_valid := False\<rparr>)) (\<lambda>_.
     bnd (lift (ParseDBData cls ic d)) (\<lambda>rec.
     bnd (modify (\<lambda>p. p\<lparr>rp_rec := rec, m_record_valid := True\<rparr>)) (\<lambda>_.
       case store of None \<Rightarrow> ret () | Some f \<Rightarrow> zoom rp_store rp_store_update (f rec))))"

text \<open>The store of most callers: a list that grows at its end.\<close>

definition append_store :: "'r \<Rightarrow> ('r list, unit) st" where
  "append_store rec = modify (\<lambda>rs. rs @ [rec])"

section \<open>Containers\<close>

text \<open>
  MultiRecordParser: parsers by database name. Pointers to parsers are programs on a common
  state; deleting the parser that is replaced is not visible.
\<close>

record 'p multi_parser =
  m_default_parser :: "'p parser option"
  m_parsers :: "bytes \<rightharpoonup> 'p parser"

definition MultiRecordParser_new :: "'p parser option \<Rightarrow> 'p multi_parser" where
  "MultiRecordParser_new default_parser = \<lparr>m_default_parser = default_parser, m_parsers = Map.empty\<rparr>"

definition MultiRecordParser_Add :: "bytes \<Rightarrow> 'p parser \<Rightarrow> 'p multi_parser \<Rightarrow> 'p multi_parser" where
  "MultiRecordParser_Add dbname parser mp =
     (case m_parsers mp dbname of
        Some old \<Rightarrow> mp\<lparr>m_parsers := (m_parsers mp)(dbname \<mapsto> parser)\<rparr>
      | None \<Rightarrow> mp\<lparr>m_parsers := (m_parsers mp)(dbname \<mapsto> parser)\<rparr>)"

definition MultiRecordParser_ParseRecord :: "'p multi_parser \<Rightarrow> 'p parser" where
  "MultiRecordParser_ParseRecord mp d =
     (case m_parsers mp (m_dbName d) of
        Some parser \<Rightarrow> parser d
      | None \<Rightarrow> (case m_default_parser mp of Some parser \<Rightarrow> parser d | None \<Rightarrow> ret ()))"

record 'p tee_parser =
  m_external_parsers :: "'p parser list"
  m_owned_parsers :: "'p parser list"

definition TeeParser_new :: "'p tee_parser" where
  "TeeParser_new = \<lparr>m_external_parsers = [], m_owned_parsers = []\<rparr>"

definition TeeParser_Add_owned :: "'p parser \<Rightarrow> 'p tee_parser \<Rightarrow> 'p tee_parser" where
  "TeeParser_Add_owned p t = t\<lparr>m_owned_parsers := m_owned_parsers t @ [p]\<rparr>"

definition TeeParser_Add :: "'p parser \<Rightarrow> 'p tee_parser \<Rightarrow> 'p tee_parser" where
  "TeeParser_Add p t = t\<lparr>m_external_parsers := m_external_parsers t @ [p]\<rparr>"

primrec call_all :: "'p parser list \<Rightarrow> 'p parser" where
  "call_all [] d = ret ()"
| "call_all (p # ps) d = bnd (p d) (\<lambda>_. call_all ps d)"

definition TeeParser_ParseRecord :: "'p tee_parser \<Rightarrow> 'p parser" where
  "TeeParser_ParseRecord t d =
     bnd (call_all (m_owned_parsers t) d) (\<lambda>_. call_all (m_external_parsers t) d)"

section \<open>Lemmas\<close>

lemma ParseDBData_memo:
  assumes "memo_ok ic m" and "contents (m_data d) = pre @ encode_fields (memo_fields ic m)"
    and "m_recType d = mm_RecType m" and "m_uniqueId d = mm_RecordId m" and "m_offset d = length pre"
  shows "ParseDBData memo_parse_class ic d = Inr m"
  using memo_codec.parse_back[OF assms(1), of pre]
  by (simp add: ParseDBData_def memo_parse_class_def Memo_ParseHeader_def Memo_ParseFields_def Memo_SetIds_def assms)

lemma RecordParser_stores:
  assumes "ParseDBData cls ic d = Inr rec"
  shows "RecordParser_ParseRecord cls (Some append_store) ic d p
     = (Inr (), \<lparr>rp_rec = rec, m_record_valid = True, rp_store = rp_store p @ [rec]\<rparr>)"
  using assms by (simp add: RecordParser_ParseRecord_def append_store_def zoom_def)

lemma RecordParser_rejects:
  assumes "ParseDBData cls ic d = Inl e"
  shows "RecordParser_ParseRecord cls store ic d p = (Inl e, p\<lparr>m_record_valid := False\<rparr>)"
  using assms by (simp add: RecordParser_ParseRecord_def)

lemma call_all_append: "call_all (ps @ qs) d = bnd (call_all ps d) (\<lambda>_. call_all qs d)"
  by (induction ps) (auto intro: ext)

text \<open>
  Adding parsers to a container by name: a record goes to the parser added last under the
  name of its database, to the default parser if there is none, and is dropped otherwise.
\<close>

theorem MultiRecordParser_dispatch:
  "MultiRecordParser_ParseRecord (fold (\<lambda>(n, p). MultiRecordParser_Add n p) adds (MultiRecordParser_new dflt)) d
     = (case filter (\<lambda>(n, p). n = m_dbName d) (rev adds) of
          (n, p) # _ \<Rightarrow> p d
        | [] \<Rightarrow> (case dflt of Some p \<Rightarrow> p d | None \<Rightarrow> ret ()))"
proof (induction adds rule: rev_induct)
  case Nil
  then show ?case by (simp add: MultiRecordParser_ParseRecord_def MultiRecordParser_new_def)
next
  case (snoc np adds)
  obtain n p where np: "np = (n, p)" by (cases np)
  have "m_parsers (MultiRecordParser_Add n p mp) = (m_parsers mp)(n \<mapsto> p)"
    "m_default_parser (MultiRecordParser_Add n p mp) = m_default_parser mp" for mp
    by (simp_all add: MultiRecordParser_Add_def split: option.split)
  then show ?case using snoc by (auto simp: MultiRecordParser_ParseRecord_def np cong: option.case_cong)
qed

text \<open>TeeParser passes a record to the parsers it owns and then to the others, in the order they were added, and stops at the first exception.\<close>

theorem TeeParser_order:
  "TeeParser_ParseRecord (fold TeeParser_Add ps (fold TeeParser_Add_owned qs TeeParser_new)) d = call_all (qs @ ps) d"
proof -
  have "fold TeeParser_Add_owned qs t = t\<lparr>m_owned_parsers := m_owned_parsers t @ qs\<rparr>" for t :: "'a tee_parser"
    by (induction qs arbitrary: t) (simp_all add: TeeParser_Add_owned_def)
  moreover have "fold TeeParser_Add ps t = t\<lparr>m_external_parsers := m_external_parsers t @ ps\<rparr>" for t :: "'a tee_parser"
    by (induction ps arbitrary: t) (simp_all add: TeeParser_Add_def)
  ultimately show ?thesis by (simp add: TeeParser_ParseRecord_def call_all_append TeeParser_new_def)
qed

end
