(* ===== verification/Controller.thy ===== *)
theory Controller imports Socket begin

text \<open>
  Selecting and opening a mode (src/src/controller.cc, src/src/m_mode_base.cc): SelectMode asks
  the device for the socket of a mode, OpenSocket opens it, and the Mode base class ties the
  two together and lets the program retry the password. The set-up of the USB device in
  the constructor is left out. The theory shows what is asked, how the answers are taken,
  and that only RetryPassword, never a second Open, may follow a refused password.
\<close>

section \<open>Controller\<close>

datatype mode_type = Unspecified | Bypass | DesktopMode | JavaLoader | JVMDebug | UsbSerData | UsbSerCtrl | RawChannel

primrec mode_name :: "mode_type \<Rightarrow> bytes res" where
  "mode_name Bypass = Inr (lit ''RIM Bypass'')"
| "mode_name DesktopMode = Inr (lit ''RIM Desktop'')"
| "mode_name JavaLoader = Inr (lit ''RIM_JavaLoader'')"
| "mode_name JVMDebug = Inr (lit ''RIM_JVMDebug'')"
| "mode_name UsbSerData = Inr (lit ''RIM_UsbSerData'')"
| "mode_name UsbSerCtrl = Inr (lit ''RIM_UsbSerCtrl'')"
| "mode_name RawChannel = Inl (LogicError ''Controller: No channel name given with RawChannel mode'')"
| "mode_name Unspecified = Inl (LogicError ''Controller: Invalid mode in SelectMode'')"

text \<open>The name member: sixteen zero bytes with the C string copied over them.\<close>

definition mode_command :: "bytes \<Rightarrow> bytes" where
  "mode_command name =
     le16 0 @ le16 (word_of_nat SB_MODE_PACKET_COMMAND_SIZE) @ [SB_COMMAND_SELECT_MODE]
     @ le16 SB_MODE_REQUEST_SOCKET @ [0] @ name @ replicate (sizeof_mode_name - length name) 0"

text \<open>
  The reply is looked at without a size check. The response object is fresh, so what lies
  behind a short reply in its block is zero.
\<close>

definition mode_reply :: "bytes \<Rightarrow> u16 res" where
  "mode_reply response =
     (if byte_at response off_command = SB_COMMAND_MODE_NOT_SELECTED
      then Inl (BarryError ''Controller: requested mode not supported'')
      else if byte_at response off_command \<noteq> SB_COMMAND_MODE_SELECTED
      then Inl (BarryError ''Controller: mode not selected'')
      else Inr (get16 response off_u_socket_socket))"

definition SelectMode :: "handlers \<Rightarrow> mode_type \<Rightarrow> bytes option \<Rightarrow> (zero, u16) st" where
  "SelectMode h mode explicitModeName =
     bnd (lift (case explicitModeName of
            Some name \<Rightarrow>
              if sizeof_mode_name \<le> length (c_str name)
              then Inl (LogicError ''Controller: explicit mode name too long'') else Inr (c_str name)
          | None \<Rightarrow> mode_name mode)) (\<lambda>name.
     bnd (Zero_Send_receive h (mode_command name)) (\<lambda>response. lift (mode_reply response)))"

definition OpenSocket :: "handlers \<Rightarrow> (bytes \<Rightarrow> bytes) \<Rightarrow> handler option \<Rightarrow> u16 \<Rightarrow> bytes option \<Rightarrow> (zero, sock) st" where
  "OpenSocket h sha1 handler socket password = Open h sha1 handler socket password"

section \<open>The Mode base class\<close>

text \<open>
  A mode object over its controller. m_socket is an auto_ptr, null until a socket is open.
  The derived class supplies its handler and what it does after the socket is open.
\<close>

record mode_state =
  m_modetype :: mode_type
  m_ModeSocket :: u16
  md_socket :: "sock option"
  md_zero :: zero

text \<open>A call on the socket object that m_socket points to.\<close>

definition on_socket :: "(conn, 'a) st \<Rightarrow> (mode_state, 'a) st" where
  "on_socket m md =
     (case md_socket md of
        None \<Rightarrow> (Inl (UB ''null socket pointer''), md)
      | Some s \<Rightarrow> (case m \<lparr>sk = s, zr = md_zero md\<rparr> of
          (r, c) \<Rightarrow> (r, md\<lparr>md_socket := Some (sk c), md_zero := zr c\<rparr>)))"

definition RetryPassword ::
  "handlers \<Rightarrow> (bytes \<Rightarrow> bytes) \<Rightarrow> handler option \<Rightarrow> (mode_state, unit) st \<Rightarrow> bytes option \<Rightarrow> (mode_state, unit) st" where
  "RetryPassword h sha1 handler OnOpen password =
     bnd (gets id) (\<lambda>md.
       if md_socket md \<noteq> None then throw (LogicError ''Socket alreay open in RetryPassword'')
       else bnd (zoom md_zero md_zero_update (OpenSocket h sha1 handler (m_ModeSocket md) password)) (\<lambda>s.
            bnd (modify (\<lambda>md. md\<lparr>md_socket := Some s\<rparr>)) (\<lambda>_. OnOpen)))"

text \<open>Both Open functions; \<open>name\<close> is the explicit mode name of the second.\<close>

definition Mode_Open ::
  "handlers \<Rightarrow> (bytes \<Rightarrow> bytes) \<Rightarrow> handler option \<Rightarrow> (mode_state, unit) st \<Rightarrow> bytes option \<Rightarrow> bytes option
     \<Rightarrow> (mode_state, unit) st" where
  "Mode_Open h sha1 handler OnOpen password name =
     bnd (gets m_ModeSocket) (\<lambda>old.
     bnd (exec_if (old \<noteq> 0)
           (bnd (on_socket (LocalClose h)) (\<lambda>_.
            bnd (on_socket (Socket_destroy h)) (\<lambda>_.
              modify (\<lambda>md. md\<lparr>md_socket := None, m_ModeSocket := 0\<rparr>))))) (\<lambda>_.
     bnd (gets m_modetype) (\<lambda>mode.
     bnd (zoom md_zero md_zero_update (SelectMode h mode name)) (\<lambda>s.
     bnd (modify (\<lambda>md. md\<lparr>m_ModeSocket := s\<rparr>)) (\<lambda>_.
       RetryPassword h sha1 handler OnOpen password)))))"

section \<open>Properties\<close>

lemma length_mode_command: "length name < 16 \<Longrightarrow> length (mode_command name) = 24"
  by (simp add: mode_command_def layout_simps)

lemma mode_name_short: "mode_name mode = Inr name \<Longrightarrow> length name < 16"
  by (cases mode) (auto simp: lit_def)

definition mode_lookup :: "mode_type \<Rightarrow> bytes option \<Rightarrow> bytes res" where
  "mode_lookup mode name = (case name of
     Some n \<Rightarrow> if 16 \<le> length (c_str n)
       then Inl (LogicError ''Controller: explicit mode name too long'') else Inr (c_str n)
   | None \<Rightarrow> mode_name mode)"

lemma mode_command_sequence:
  "overwrite 7 [q] (overwrite 0 (le16 0) (mode_command name))
     = [0, 0, 24, 0, 7, 255, 0, q] @ name @ replicate (16 - length name) 0"
proof -
  have "mode_command name = [0, 0, 24, 0, 7, 255, 0, 0] @ name @ replicate (16 - length name) 0"
    by (simp add: mode_command_def layout_simps le16_def)
  then show ?thesis by (simp add: le16_def overwrite.simps numeral_eq_Suc)
qed

text \<open>
  SelectMode writes one packet of 24 bytes with the next sequence number of socket 0 and the
  zero padded name, and returns the socket of a reply that says the mode was selected; a
  name of 16 bytes or more, RawChannel without a name and the unused mode are refused
  before anything is written.
\<close>

theorem SelectMode_exchange:
  assumes "zero_has_device z" and "write_faults z = []"
  shows "SelectMode h mode name z =
    (case mode_lookup mode name of
       Inl e \<Rightarrow> (Inl e, z)
     | Inr n \<Rightarrow>
         (case RawReceive h (z\<lparr>m_zeroSocketSequence := m_zeroSocketSequence z + 1,
              sent := sent z @ [[0, 0, 24, 0, 7, 255, 0, m_zeroSocketSequence z] @ n @ replicate (16 - length n) 0]\<rparr>) of
            (Inl e, z') \<Rightarrow> (Inl e, z')
          | (Inr reply, z') \<Rightarrow> (mode_reply reply, z')))"
proof -
  have dev: "zero_has_device (z\<lparr>m_zeroSocketSequence := q\<rparr>)" for q
    using assms(1) by (simp add: zero_has_device_def cong: option.case_cong)
  have "Zero_Send (mode_command n) z = (Inr (), z\<lparr>m_zeroSocketSequence := m_zeroSocketSequence z + 1,
       sent := sent z @ [[0, 0, 24, 0, 7, 255, 0, m_zeroSocketSequence z] @ n @ replicate (16 - length n) 0]\<rparr>)"
    if "length n < 16" for n
    using length_mode_command[OF that] assms(2) dev that
    by (simp add: Zero_Send_def Zero_RawSend_ok layout_simps mode_command_sequence)
  moreover have "length n < 16" if "mode_lookup mode name = Inr n" for n
    using that mode_name_short by (auto simp: mode_lookup_def split: option.splits if_splits)
  moreover have "(case name of
            Some name \<Rightarrow>
              if sizeof_mode_name \<le> length (c_str name)
              then Inl (LogicError ''Controller: explicit mode name too long'') else Inr (c_str name)
          | None \<Rightarrow> mode_name mode) = mode_lookup mode name"
    by (simp add: mode_lookup_def sizeof_mode_name_def split: option.split)
  ultimately show ?thesis
    by (cases "mode_lookup mode name")
       (auto simp: SelectMode_def Zero_Send_receive_def bnd_def split: prod.split sum.split)
qed

text \<open>A connection without a router on which the device answers with the given packets.\<close>

definition sample_zero :: "bytes list \<Rightarrow> zero" where
  "sample_zero replies = (zr (sample_conn []))\<lparr>z_queue := None, arrivals := map (\<lambda>r. [UsbData r]) replies\<rparr>"

lemma SelectMode_exchange_witness:
  "fst (SelectMode (\<lambda>_ bs. Inr bs) DesktopMode None (sample_zero [[0, 0, 8, 0, 8, 6, 0, 0]])) = Inr 6"
proof -
  have "mode_lookup DesktopMode None = Inr (lit ''RIM Desktop'')" by (simp add: mode_lookup_def)
  then show ?thesis
    using SelectMode_exchange[of "sample_zero [[0, 0, 8, 0, 8, 6, 0, 0]]" "\<lambda>_ bs. Inr bs" DesktopMode None]
    by (simp add: sample_zero_def sample_conn_def zero_has_device_def RawReceive_def direct_read_def mode_reply_def
        layout_simps get16_def)
qed

text \<open>
  C38: When the device refuses the password, the mode object is left with the number of its
  mode socket and no socket object. RetryPassword then goes on with the handshake on that
  socket, but calling Open again dereferences the null pointer, because Open takes the
  socket number as the sign of an open socket.
\<close>

theorem Open_after_failed_password:
  assumes "m_ModeSocket md = 0" and "md_socket md = None"
    and "SelectMode h (m_modetype md) name (md_zero md) = (Inr s, z1)" and "s \<noteq> 0"
    and "Open h sha1 handler s password z1 = (Inl e, z2)"
  shows "\<exists>md'. Mode_Open h sha1 handler OnOpen password name md = (Inl e, md')
    \<and> (\<forall>pw nm. Mode_Open h sha1 handler OnOpen pw nm md' = (Inl (UB ''null socket pointer''), md'))
    \<and> (\<forall>pw. RetryPassword h sha1 handler OnOpen pw md' =
         (case Open h sha1 handler s pw z2 of
            (Inl e', z3) \<Rightarrow> (Inl e', md'\<lparr>md_zero := z3\<rparr>)
          | (Inr so, z3) \<Rightarrow> OnOpen (md'\<lparr>md_zero := z3, md_socket := Some so\<rparr>)))"
proof -
  define md' where "md' = md\<lparr>md_zero := z2, m_ModeSocket := s\<rparr>"
  have "Mode_Open h sha1 handler OnOpen password name md = (Inl e, md')"
    using assms by (simp add: Mode_Open_def RetryPassword_def OpenSocket_def zoom_def md'_def bnd_def)
  moreover have "Mode_Open h sha1 handler OnOpen pw nm md' = (Inl (UB ''null socket pointer''), md')" for pw nm
    using assms by (simp add: Mode_Open_def on_socket_def md'_def bnd_def)
  moreover have "RetryPassword h sha1 handler OnOpen pw md' =
         (case Open h sha1 handler s pw z2 of
            (Inl e', z3) \<Rightarrow> (Inl e', md'\<lparr>md_zero := z3\<rparr>)
          | (Inr so, z3) \<Rightarrow> OnOpen (md'\<lparr>md_zero := z3, md_socket := Some so\<rparr>))" for pw
    using assms by (simp add: RetryPassword_def OpenSocket_def zoom_def md'_def bnd_def split: prod.split sum.split)
  ultimately show ?thesis by blast
qed

text \<open>The device answers SelectMode, then OPEN_SOCKET with a password challenge; no password was given.\<close>

lemma Open_after_failed_password_witness:
  "\<exists>md'. Mode_Open (\<lambda>_ bs. Inr bs) (\<lambda>_. replicate 20 0) None (ret ()) None None
       \<lparr>m_modetype = DesktopMode, m_ModeSocket = 0, md_socket = None,
        md_zero = sample_zero [[0, 0, 8, 0, 8, 6, 0, 0], [0, 0, 16, 0, 14, 6, 0, 1, 9, 0, 0, 0, 1, 2, 3, 4]]\<rparr>
     = (Inl (BadPassword ''No password specified.'' 9 False), md')
   \<and> fst (Mode_Open (\<lambda>_ bs. Inr bs) (\<lambda>_. replicate 20 0) None (ret ()) (Some [1]) None md')
     = Inl (UB ''null socket pointer'')"
proof -
  let ?z = "sample_zero [[0, 0, 8, 0, 8, 6, 0, 0], [0, 0, 16, 0, 14, 6, 0, 1, 9, 0, 0, 0, 1, 2, 3, 4]]"
  let ?c = "[0, 0, 16, 0, 14, 6, 0, 1, 9, 0, 0, 0, 1, 2, 3, 4] :: bytes"
  let ?md = "\<lparr>m_modetype = DesktopMode, m_ModeSocket = 0, md_socket = None, md_zero = ?z\<rparr>"
  have lookup: "mode_lookup DesktopMode None = Inr (lit ''RIM Desktop'')" by (simp add: mode_lookup_def)
  obtain z1 where z1: "SelectMode (\<lambda>_ bs. Inr bs) DesktopMode None ?z = (Inr 6, z1)" "arrivals z1 = [[UsbData ?c]]"
      "z_queue z1 = None" "\<not> m_halfOpen z1" "\<not> m_pushback z1" "z_dev z1" "write_faults z1 = []"
    using SelectMode_exchange[of ?z "\<lambda>_ bs. Inr bs" DesktopMode None] lookup
    by (simp add: sample_zero_def sample_conn_def zero_has_device_def RawReceive_def direct_read_def mode_reply_def
        layout_simps get16_def)
  obtain z2 where z2: "Open (\<lambda>_ bs. Inr bs) (\<lambda>_. replicate 20 0) None 6 None z1 = (Inl (BadPassword ''No password specified.'' 9 False), z2)"
    using z1(2-) unfolding Open_def
    by (simp add: Open_body_def Opening_def open_start_def open_password_def SendOpen_def Zero_RawSend_def zero_has_device_def
        BulkWrite_def RawReceive_def direct_read_def store_challenge_def ChallengeSeed_def RemainingTries_def Packet_Command_def
        CheckSize_def packet_size_field_def get16_def IsSequencePacket_def rd8_def rd32_def layout_simps socket_command_def
        zoom_def bnd_def Let_def Socket_destroy_def LocalClose_def LocalUnregisterInterest_def Zero_Close_def
        Zero_Send_receive_def Zero_Send_def catch_def Socket_new_def ForceClosed_def exec_if_def ret_def throw_def)
  show ?thesis
    using Open_after_failed_password[of ?md "\<lambda>_ bs. Inr bs" None 6 z1 "\<lambda>_. replicate 20 0" None None _ z2 "ret ()"] z1(1) z2
    by auto
qed

end
