(* ===== verification/Record_Link.thy ===== *)
theory Record_Link imports Socket begin

text \<open>
  The interface the desktop mode uses: Packet and NextRecord of an open socket
  (src/src/socket.h), as a locale. A script says how the device will answer the coming
  exchanges; the laws are that an exchange returns its answer whole and writes its request
  to the wire. The interpretation proves them for a routed socket, on which every transfer
  is acknowledged by a sequence packet and every answer comes as fragments or as one final
  packet, with sequence packets and blanks in between.
\<close>

section \<open>Answers on a routed socket\<close>

text \<open>A final packet (DB_DONE) ends the loop of Packet as it is.\<close>

context packet_source begin

lemma final_packet:
  assumes "gap_ok ns" "CheckSize r 5 = Inr ()" "byte_at r 4 = 0x41" "offers s (ns @ r # rest)"
  shows "\<exists>s'. offers s' rest \<and> loop_read Receive (length ns + Suc k) False 0 acc s = (Inr r, s')"
proof -
  obtain bc s1 where s1: "offers s1 (r # rest)"
    "loop_read Receive (length ns + Suc k) False 0 acc s = loop_read Receive (Suc k) False bc acc s1"
    using gap_skip[of ns 0 s "r # rest" "Suc k" False acc] assms(1,4) by (auto simp: gap_ok_def)
  have "r \<noteq> []" using CheckSize_Inr_length[OF assms(2)] by auto
  then have "packet_round False bc (if False then acc else r) r = Inr (True, False, r, 0)"
    using assms(2,3) by (simp add: packet_round_def layout_simps)
  from loop_read_done[OF this s1(1)] show ?thesis using s1(2) by auto
qed

end

text \<open>Reading leaves the connection and what was written as they are.\<close>

definition offers_still :: "conn \<Rightarrow> conn \<Rightarrow> bytes list \<Rightarrow> bool" where
  "offers_still c0 c xs \<longleftrightarrow> sock_offers c xs \<and> write_faults (zr c) = write_faults (zr c0)
     \<and> sent (zr c) = sent (zr c0) \<and> sk c = sk c0 \<and> zero_has_device (zr c) = zero_has_device (zr c0)"

lemma offers_still_receive:
  "offers_still c0 c (x # xs) \<Longrightarrow> \<exists>c'. Socket_Receive h c = (Inr x, c') \<and> offers_still c0 c' xs"
  using Socket_Receive_offered[of c x xs h] by (auto simp: offers_still_def)

interpretation still_source: packet_source "Socket_Receive h" "offers_still c0"
  by unfold_locales (rule offers_still_receive)

text \<open>One answer: the whole packet, the packets it arrives as, and the reads this takes.\<close>

definition arrives_as :: "nat \<Rightarrow> bytes \<Rightarrow> bytes list \<Rightarrow> bool" where
  "arrives_as fuel r xs \<longleftrightarrow>
     (\<exists>response gfs. 6 \<le> length response \<and> map snd gfs = fragments response 0 \<and> list_all gap_ok (map fst gfs)
        \<and> r = set_header response \<and> xs = transcript gfs \<and> length xs \<le> fuel)
   \<or> (\<exists>ns. gap_ok ns \<and> CheckSize r 5 = Inr () \<and> byte_at r 4 = 0x41 \<and> xs = ns @ [r] \<and> length xs \<le> fuel)"

fun script :: "nat \<Rightarrow> (nat \<times> bytes) list \<Rightarrow> bytes list \<Rightarrow> bool" where
  "script fuel [] xs \<longleftrightarrow> True"
| "script fuel ((n, r) # rs) xs \<longleftrightarrow> (\<exists>acks ys zs. xs = acks @ ys @ zs \<and> length acks = n
     \<and> list_all IsSequencePacket acks \<and> arrives_as fuel r ys \<and> script fuel rs zs)"

definition sock_answers :: "nat \<Rightarrow> conn \<Rightarrow> (nat \<times> bytes) list \<Rightarrow> bool" where
  "sock_answers fuel c rs \<longleftrightarrow> can_write c \<and> (\<exists>xs. sock_offers c xs \<and> script fuel rs xs)"

definition sendable :: "bytes \<Rightarrow> bool" where
  "sendable req \<longleftrightarrow> 5 \<le> length req \<and> byte_at req 4 \<in> {0x40, 0x41} \<and> length req < 2 ^ 32"

definition wire_of :: "conn \<Rightarrow> bytes \<Rightarrow> bytes list" where
  "wire_of c req = concat (map (on_wire (m_socket (sk c))) (transfers req))"

lemma loop_read_arrives:
  assumes "arrives_as fuel r ys" "offers_still c0 c (ys @ zs)"
  shows "\<exists>c'. offers_still c0 c' zs \<and> loop_read (Socket_Receive h) fuel False 0 [] c = (Inr r, c')"
  using assms(1) unfolding arrives_as_def
proof (elim disjE exE conjE)
  fix response gfs
  assume a: "6 \<le> length response" "map snd gfs = fragments response 0" "list_all gap_ok (map fst gfs)"
    "r = set_header response" "ys = transcript gfs" "length ys \<le> fuel"
  then obtain k where k: "fuel = length (transcript gfs) + k" using le_Suc_ex by blast
  show ?thesis unfolding k a(4)
    by (rule still_source.reassemble[OF a(1-3)]) (use assms(2) a(5) in simp)
next
  fix ns
  assume a: "gap_ok ns" "CheckSize r 5 = Inr ()" "byte_at r 4 = 0x41" "ys = ns @ [r]" "length ys \<le> fuel"
  then obtain k where k: "fuel = length ns + Suc k" using le_Suc_ex[of "length ys" fuel] by auto
  show ?thesis unfolding k
    by (rule still_source.final_packet[OF a(1-3)]) (use assms(2) a(4) in simp)
qed

section \<open>The interface\<close>

text \<open>
  \<open>cost req\<close> is the number of transfers a request takes, \<open>wire\<close> what they put on the wire.
\<close>

locale record_link =
  fixes Packet :: "bytes \<Rightarrow> ('s, bytes) st" and Next :: "('s, bytes) st"
    and answers :: "'s \<Rightarrow> (nat \<times> bytes) list \<Rightarrow> bool" and cost :: "bytes \<Rightarrow> nat"
    and wire :: "'s \<Rightarrow> bytes \<Rightarrow> 'w list" and written :: "'s \<Rightarrow> 'w list" and next_request :: bytes
  assumes Packet_answered: "answers s ((cost req, r) # rs) \<Longrightarrow> sendable req \<Longrightarrow>
      \<exists>s'. Packet req s = (Inr r, s') \<and> answers s' rs \<and> written s' = written s @ wire s req \<and> wire s' = wire s"
    and Next_Packet: "Next = Packet next_request"
    and next_sendable: "sendable next_request" and next_short: "length next_request \<le> 0x400"
    and cost_short: "length req \<le> 0x400 \<Longrightarrow> cost req = 1"

definition next_request :: "bytes \<Rightarrow> bytes" where
  "next_request junk = take 2 (junk @ [0, 0]) @ le16 7 @ [SB_COMMAND_DB_DONE, 0, 0]"

lemma sock_Packet_answered:
  assumes "sock_answers fuel c ((length (transfers req), r) # rs)" "sendable req"
  shows "\<exists>c'. SocketBase_Packet (Socket_SyncSend h) (Socket_Receive h) fuel req c = (Inr r, c') \<and> sock_answers fuel c' rs
    \<and> sent (zr c') = sent (zr c) @ wire_of c req \<and> wire_of c' = wire_of c"
proof -
  obtain acks ys zs where x: "can_write c" "sock_offers c (acks @ ys @ zs)" "length acks = length (transfers req)"
      "list_all IsSequencePacket acks" "arrives_as fuel r ys" "script fuel rs zs"
    using assms(1) by (auto simp: sock_answers_def)
  have "DBFragSend (Socket_SyncSend h) req = send_all (Socket_SyncSend h) (transfers req)"
    using assms(2) frag_loop_sends[of req 0 "length req" "Socket_SyncSend h"]
    by (auto simp: DBFragSend_def layout_simps transfers_def sendable_def)
  moreover obtain c1 where c1: "send_all (Socket_SyncSend h) (transfers req) c = (Inr (), c1)" "can_write c1"
      "sock_offers c1 (ys @ zs)" "sent (zr c1) = sent (zr c) @ wire_of c req" "m_socket (sk c1) = m_socket (sk c)"
    using send_all_ok[OF x(1,2,4,3), of h] by (auto simp: wire_of_def)
  moreover have "offers_still c1 c1 (ys @ zs)" using c1 by (simp add: offers_still_def)
  then obtain c2 where c2: "offers_still c1 c2 zs" "loop_read (Socket_Receive h) fuel False 0 [] c1 = (Inr r, c2)"
    using loop_read_arrives[OF x(5)] by blast
  ultimately have "SocketBase_Packet (Socket_SyncSend h) (Socket_Receive h) fuel req c = (Inr r, c2)"
    by (simp add: SocketBase_Packet_def loop_read_def)
  then show ?thesis using c2(1) c1 x(6)
    by (auto simp: offers_still_def sock_answers_def can_write_def wire_of_def fun_eq_iff)
qed

lemma next_request_sendable: "sendable (next_request junk)" "length (next_request junk) \<le> 0x400"
proof -
  obtain a b where "take 2 (junk @ [0, 0]) = [a, b]"
    by (cases junk; cases "tl junk") auto
  then show "sendable (next_request junk)" "length (next_request junk) \<le> 0x400"
    by (simp_all add: next_request_def sendable_def le16_def layout_simps)
qed

lemma transfers_short: "length req \<le> 0x400 \<Longrightarrow> length (transfers req) = 1"
  by (simp add: transfers_def)

interpretation socket_link: record_link "SocketBase_Packet (Socket_SyncSend h) (Socket_Receive h) fuel"
    "NextRecord (Socket_SyncSend h) (Socket_Receive h) fuel junk" "sock_answers fuel" "\<lambda>req. length (transfers req)"
    wire_of "\<lambda>c. sent (zr c)" "next_request junk"
  by unfold_locales
     (use sock_Packet_answered in blast, simp_all only: NextRecord_def next_request_def[symmetric] next_request_sendable transfers_short)

end
