(* ===== verification/Desktop.thy ===== *)
theory Desktop imports Record_Link Parsers begin

text \<open>
  The desktop mode (src/src/m_desktop.cc, src/src/m_desktop.h): the mode object with its
  command table and database list, every database operation as an exchange on the mode's
  socket, the record loader, and the two classes that read whole databases as a builder
  and write them as a parser. \<open>Packet\<close> and \<open>Next\<close> are the socket's Packet and NextRecord,
  working on a state \<open>'s\<close> of their own. The loops that wait for the device to finish take fuel.
\<close>

section \<open>The mode object\<close>

record 's desktop =
  dk_link :: 's
  m_command :: data
  m_response :: data
  m_commandTable :: "command list"
  m_dbdb :: "database list"
  m_ic :: "converter option"

definition Desktop_new :: "'s \<Rightarrow> converter option \<Rightarrow> 's desktop" where
  "Desktop_new link ic = \<lparr>dk_link = link, m_command = Data_default, m_response = Data_default,
     m_commandTable = [], m_dbdb = [], m_ic = ic\<rparr>"

text \<open>The buffer a packet arrives in; receiving assigns it to the caller's object.\<close>

definition buffer_with :: "bytes \<Rightarrow> data" where
  "buffer_with bs = \<lparr>mem = bs, dstart = 0, dsize = length bs, extdata = [], external = False, endpoint = 0\<rparr>"

definition exchange :: "('s, bytes) st \<Rightarrow> ('s desktop, unit) st" where
  "exchange m =
     bnd (zoom dk_link dk_link_update m) (\<lambda>bs.
     bnd (gets m_response) (\<lambda>d.
     bnd (lift (assign d (buffer_with bs))) (\<lambda>d'. modify (\<lambda>dk. dk\<lparr>m_response := d'\<rparr>))))"

definition response_command :: "('s desktop, byte) st" where
  "response_command = bnd (gets m_response) (\<lambda>d. lift (Packet_Command (contents d)))"

text \<open>DBPacket builds its request in m_command.\<close>

definition build_request :: "(command list \<Rightarrow> db_packet \<Rightarrow> db_packet res) \<Rightarrow> ('s desktop, db_packet) st" where
  "build_request f =
     bnd (gets id) (\<lambda>dk.
     bnd (lift (f (m_commandTable dk) (DBPacket_new (m_command dk)))) (\<lambda>p.
     bnd (modify (\<lambda>dk. dk\<lparr>m_command := m_send p\<rparr>)) (\<lambda>_. ret p)))"

definition transact :: "(bytes \<Rightarrow> ('s, bytes) st) \<Rightarrow> ('s desktop, unit) st" where
  "transact Packet = bnd (gets m_command) (\<lambda>d. exchange (Packet (contents d)))"

text \<open>Flushing the command sequence.\<close>

fun flush :: "('s, bytes) st \<Rightarrow> nat \<Rightarrow> ('s desktop, unit) st" where
  "flush Next 0 = throw (UB ''out of fuel'')"
| "flush Next (Suc fuel) =
     bnd response_command (\<lambda>c.
       if c = SB_COMMAND_DB_DONE then ret ()
       else bnd (exchange Next) (\<lambda>_. flush Next fuel))"

section \<open>Opening\<close>

text \<open>The loop looks at the command byte without a size check.\<close>

fun LoadCommandTable_loop :: "('s, bytes) st \<Rightarrow> nat \<Rightarrow> ('s desktop, unit) st" where
  "LoadCommandTable_loop Next 0 = throw (UB ''out of fuel'')"
| "LoadCommandTable_loop Next (Suc fuel) =
     bnd (gets (\<lambda>dk. byte_at (contents (m_response dk)) off_command)) (\<lambda>c.
       if c = SB_COMMAND_DB_DONE then ret ()
       else
         bnd (exchange Next) (\<lambda>_.
         bnd (gets (\<lambda>dk. contents (m_response dk))) (\<lambda>bs.
         bnd (exec_if (byte_at bs off_command = SB_COMMAND_DB_DATA \<and> 10 < get16 bs off_size)
               (modify (\<lambda>dk. dk\<lparr>m_commandTable := CommandTable_Parse [] bs 6\<rparr>))) (\<lambda>_.
           LoadCommandTable_loop Next fuel))))"

definition LoadCommandTable :: "(bytes \<Rightarrow> ('s, bytes) st) \<Rightarrow> ('s, bytes) st \<Rightarrow> nat \<Rightarrow> ('s desktop, unit) st" where
  "LoadCommandTable Packet Next fuel =
     bnd (exchange (Packet [6, 0, 0x0a, 0, 0x40, 0, 0, 1, 0, 0])) (\<lambda>_. LoadCommandTable_loop Next fuel)"

fun LoadDBDB_loop :: "('s, bytes) st \<Rightarrow> nat \<Rightarrow> ('s desktop, unit) st" where
  "LoadDBDB_loop Next 0 = throw (UB ''out of fuel'')"
| "LoadDBDB_loop Next (Suc fuel) =
     bnd response_command (\<lambda>c.
       if c = SB_COMMAND_DB_DONE then ret ()
       else
         bnd (exec_if (c = SB_COMMAND_DB_DATA)
               (modify (\<lambda>dk. dk\<lparr>m_dbdb := DatabaseDatabase_Parse [] (contents (m_response dk))\<rparr>))) (\<lambda>_.
         bnd (exchange Next) (\<lambda>_. LoadDBDB_loop Next fuel)))"

definition LoadDBDB :: "(bytes \<Rightarrow> ('s, bytes) st) \<Rightarrow> ('s, bytes) st \<Rightarrow> nat \<Rightarrow> ('s desktop, unit) st" where
  "LoadDBDB Packet Next fuel =
     bnd (build_request GetDBDB) (\<lambda>_. bnd (transact Packet) (\<lambda>_. LoadDBDB_loop Next fuel))"

definition Desktop_OnOpen :: "(bytes \<Rightarrow> ('s, bytes) st) \<Rightarrow> ('s, bytes) st \<Rightarrow> nat \<Rightarrow> ('s desktop, unit) st" where
  "Desktop_OnOpen Packet Next fuel = bnd (LoadCommandTable Packet Next fuel) (\<lambda>_. LoadDBDB Packet Next fuel)"

definition GetDBID :: "'s desktop \<Rightarrow> bytes \<Rightarrow> u32 res" where
  "GetDBID dk name = (case GetDBNumber (m_dbdb dk) name of
     Some n \<Rightarrow> Inr n | None \<Rightarrow> Inl (BarryError ''Desktop: database name not found: ''))"

definition SetIConverter :: "converter \<Rightarrow> 's desktop \<Rightarrow> 's desktop" where
  "SetIConverter ic dk = dk\<lparr>m_ic := Some ic\<rparr>"

section \<open>Single records\<close>

definition Desktop_GetRecordStateTable ::
  "(bytes \<Rightarrow> ('s, bytes) st) \<Rightarrow> ('s, bytes) st \<Rightarrow> nat \<Rightarrow> u32 \<Rightarrow> ('s desktop, rst) st" where
  "Desktop_GetRecordStateTable Packet Next fuel dbId =
     bnd (build_request (\<lambda>con p. GetRecordStateTable con p dbId)) (\<lambda>_.
     bnd (transact Packet) (\<lambda>_.
     bnd (gets (\<lambda>dk. RecordStateTable_Parse RecordStateTable_new (contents (m_response dk)))) (\<lambda>t.
     bnd (flush Next fuel) (\<lambda>_. ret t))))"

text \<open>The check of the answer to an upload.\<close>

definition check_return_code :: "('s desktop, unit) st" where
  "check_return_code =
     bnd response_command (\<lambda>c.
       if c \<noteq> SB_COMMAND_DB_DONE
       then throw (BarryError ''Desktop: device responded with unexpected packet command code: '')
       else bnd (gets m_response) (\<lambda>d.
            bnd (lift (ReturnCode (contents d))) (\<lambda>code.
              if code \<noteq> 0 then throw (ReturnCodeError c code) else ret ())))"

text \<open>
  AddRecord and SetRecordByIndex of DBPacket with the builder in its state. \<open>build ic b\<close> is the
  BuildRecord function of a builder in state \<open>b\<close>.
\<close>

definition upload ::
  "(command list \<Rightarrow> db_packet \<Rightarrow> 'b builder \<Rightarrow> (bool \<times> db_packet \<times> 'b) res)
     \<Rightarrow> (converter option \<Rightarrow> 'b \<Rightarrow> 'b builder) \<Rightarrow> ('s desktop \<times> 'b, bool) st" where
  "upload f build =
     bnd (gets id) (\<lambda>(dk, b).
     bnd (lift (f (m_commandTable dk) (DBPacket_new (m_command dk)) (build (m_ic dk) b))) (\<lambda>(more, p, b').
     bnd (modify (\<lambda>(dk, _). (dk\<lparr>m_command := m_send p\<rparr>, b'))) (\<lambda>_. ret more)))"

definition Desktop_AddRecord ::
  "(bytes \<Rightarrow> ('s, bytes) st) \<Rightarrow> u32 \<Rightarrow> (converter option \<Rightarrow> 'b \<Rightarrow> 'b builder) \<Rightarrow> ('s desktop \<times> 'b, unit) st" where
  "Desktop_AddRecord Packet dbId build =
     bnd (upload (\<lambda>con p. AddRecord con p dbId) build) (\<lambda>more.
       exec_if more (zoom fst apfst (bnd (transact Packet) (\<lambda>_. check_return_code))))"

definition Desktop_SetRecord ::
  "(bytes \<Rightarrow> ('s, bytes) st) \<Rightarrow> u32 \<Rightarrow> u32 \<Rightarrow> (converter option \<Rightarrow> 'b \<Rightarrow> 'b builder) \<Rightarrow> ('s desktop \<times> 'b, unit) st" where
  "Desktop_SetRecord Packet dbId stateTableIndex build =
     bnd (upload (\<lambda>con p. SetRecordByIndex con p dbId stateTableIndex) build) (\<lambda>more.
       if \<not> more then throw (LogicError ''Desktop: no data available in SetRecord'')
       else zoom fst apfst (bnd (transact Packet) (\<lambda>_. check_return_code)))"

text \<open>The state of GetRecord is the mode object and the parser.\<close>

definition Desktop_GetRecord ::
  "(bytes \<Rightarrow> ('s, bytes) st) \<Rightarrow> ('s, bytes) st \<Rightarrow> nat \<Rightarrow> u32 \<Rightarrow> u32 \<Rightarrow> (converter option \<Rightarrow> 'p parser)
     \<Rightarrow> ('s desktop \<times> 'p, unit) st" where
  "Desktop_GetRecord Packet Next fuel dbId stateTableIndex ParseRecord =
     bnd (gets (\<lambda>(dk, _). case GetDBName (m_dbdb dk) dbId of None \<Rightarrow> [] | Some n \<Rightarrow> n)) (\<lambda>dbName.
     bnd (zoom fst apfst (build_request (\<lambda>con p. GetRecordByIndex con p dbId stateTableIndex))) (\<lambda>packet.
     bnd (zoom fst apfst (transact Packet)) (\<lambda>_.
     bnd (gets (\<lambda>(dk, _). dk)) (\<lambda>dk.
       if dsize (m_response dk) < SB_PACKET_RESPONSE_HEADER_SIZE
       then throw (BarryError ''Desktop: invalid response packet size of: '')
       else
         bnd (zoom fst apfst response_command) (\<lambda>c.
           if c \<noteq> SB_COMMAND_DB_DATA then throw (BarryError ''Desktop: unexpected command of '')
           else
             bnd (zoom snd apsnd (DBPacket_Parse packet (m_response dk) dbName (ParseRecord (m_ic dk)))) (\<lambda>_.
               zoom fst apfst (flush Next fuel)))))))"

definition ClearDirty :: "(bytes \<Rightarrow> ('s, bytes) st) \<Rightarrow> ('s, bytes) st \<Rightarrow> nat \<Rightarrow> u32 \<Rightarrow> u32 \<Rightarrow> ('s desktop, unit) st" where
  "ClearDirty Packet Next fuel dbId stateTableIndex =
     bnd (build_request (\<lambda>con p. SetRecordFlags con p dbId stateTableIndex 0)) (\<lambda>_.
     bnd (transact Packet) (\<lambda>_. flush Next fuel))"

definition DeleteRecord :: "(bytes \<Rightarrow> ('s, bytes) st) \<Rightarrow> ('s, bytes) st \<Rightarrow> nat \<Rightarrow> u32 \<Rightarrow> u32 \<Rightarrow> ('s desktop, unit) st" where
  "DeleteRecord Packet Next fuel dbId stateTableIndex =
     bnd (build_request (\<lambda>con p. DeleteRecordByIndex con p dbId stateTableIndex)) (\<lambda>_.
     bnd (transact Packet) (\<lambda>_. flush Next fuel))"

section \<open>Whole databases\<close>

text \<open>ReturnCode throws by itself when the answer is not DB_DONE, so the last check is never reached.\<close>

definition Desktop_ClearDatabase :: "(bytes \<Rightarrow> ('s, bytes) st) \<Rightarrow> u32 \<Rightarrow> ('s desktop, unit) st" where
  "Desktop_ClearDatabase Packet dbId =
     bnd (build_request (\<lambda>con p. ClearDatabase con p dbId)) (\<lambda>_.
     bnd (transact Packet) (\<lambda>_.
     bnd (gets m_response) (\<lambda>d.
     bnd (lift (ReturnCode (contents d))) (\<lambda>code.
     bnd response_command (\<lambda>c.
       if code \<noteq> 0 then throw (ReturnCodeError c code)
       else if c \<noteq> SB_COMMAND_DB_DONE then throw (BarryError ''Desktop: error clearing database, bad response'')
       else ret ())))))"

fun SaveDatabase_loop ::
  "(bytes \<Rightarrow> ('s, bytes) st) \<Rightarrow> u32 \<Rightarrow> (converter option \<Rightarrow> 'b \<Rightarrow> 'b builder) \<Rightarrow> nat \<Rightarrow> ('s desktop \<times> 'b, unit) st" where
  "SaveDatabase_loop Packet dbId build 0 = throw (UB ''out of fuel'')"
| "SaveDatabase_loop Packet dbId build (Suc fuel) =
     bnd (upload (\<lambda>con p. AddRecord con p dbId) build) (\<lambda>more.
       if \<not> more then ret ()
       else bnd (zoom fst apfst (bnd (transact Packet) (\<lambda>_. check_return_code))) (\<lambda>_.
              SaveDatabase_loop Packet dbId build fuel))"

definition SaveDatabase ::
  "(bytes \<Rightarrow> ('s, bytes) st) \<Rightarrow> nat \<Rightarrow> u32 \<Rightarrow> (converter option \<Rightarrow> 'b \<Rightarrow> 'b builder) \<Rightarrow> ('s desktop \<times> 'b, unit) st" where
  "SaveDatabase Packet fuel dbId build =
     bnd (zoom fst apfst (Desktop_ClearDatabase Packet dbId)) (\<lambda>_. SaveDatabase_loop Packet dbId build fuel)"

end
