(* ===== verification/Db_Loader.thy ===== *)
theory Db_Loader imports Desktop begin

text \<open>
  Reading databases (src/src/m_desktop.cc): DBLoader, which streams the records of a database
  into a DBData object, LoadDatabase on top of it, DeviceBuilder, which delivers the records of
  a list of databases, and DeviceParser, which writes records to a device in one of its modes.
\<close>

section \<open>DBLoader\<close>

record dbloader =
  ld_packet :: db_packet
  m_loading :: bool
  ld_dbName :: bytes

definition DBLoader_new :: dbloader where
  "DBLoader_new = \<lparr>ld_packet = DBPacket_new Data_default, m_loading = False, ld_dbName = []\<rparr>"

text \<open>The mode object, the loader and the DBData object it loads into.\<close>

record 's load_state =
  ls_desktop :: "'s desktop"
  ls_loader :: dbloader
  ls_data :: dbdata

definition on_link :: "('s, 'a) st \<Rightarrow> ('s load_state, 'a) st" where
  "on_link = zoom (\<lambda>l. dk_link (ls_desktop l)) (\<lambda>f l. l\<lparr>ls_desktop := (ls_desktop l)\<lparr>dk_link := f (dk_link (ls_desktop l))\<rparr>\<rparr>)"

definition use_data :: "('s load_state, unit) st" where
  "use_data = bnd (gets ls_data) (\<lambda>d. bnd (lift (UseData d)) (\<lambda>d'. modify (\<lambda>l. l\<lparr>ls_data := d'\<rparr>)))"

text \<open>An exchange whose answer goes to the DBData object.\<close>

definition load_exchange :: "('s, bytes) st \<Rightarrow> ('s load_state, unit) st" where
  "load_exchange m =
     bnd (on_link m) (\<lambda>bs.
     bnd (gets ls_data) (\<lambda>d.
     bnd (lift (assign (m_data d) (buffer_with bs))) (\<lambda>b. modify (\<lambda>l. l\<lparr>ls_data := d\<lparr>m_data := b\<rparr>\<rparr>))))"

definition load_command :: "('s load_state, byte) st" where
  "load_command = bnd (gets ls_data) (\<lambda>d. lift (Packet_Command (contents (m_data d))))"

definition load_meta :: "('s load_state, unit) st" where
  "load_meta =
     bnd (gets id) (\<lambda>l.
     bnd (lift (ParseMeta (ld_packet (ls_loader l)) (ls_data l))) (\<lambda>(known, d). modify (\<lambda>l. l\<lparr>ls_data := d\<rparr>)))"

definition set_loading :: "bool \<Rightarrow> ('s load_state, unit) st" where
  "set_loading b = modify (\<lambda>l. l\<lparr>ls_loader := (ls_loader l)\<lparr>m_loading := b\<rparr>\<rparr>)"

fun StartDBLoad_loop :: "('s, bytes) st \<Rightarrow> nat \<Rightarrow> ('s load_state, bool) st" where
  "StartDBLoad_loop Next 0 = throw (UB ''out of fuel'')"
| "StartDBLoad_loop Next (Suc fuel) =
     bnd load_command (\<lambda>c.
       if c = SB_COMMAND_DB_DONE then bnd (set_loading False) (\<lambda>_. ret False)
       else if c = SB_COMMAND_DB_DATA
       then bnd load_meta (\<lambda>_.
            bnd (modify (\<lambda>l. l\<lparr>ls_data := SetDBName (ld_dbName (ls_loader l)) (ls_data l)\<rparr>)) (\<lambda>_. ret True))
       else bnd use_data (\<lambda>_. bnd (load_exchange Next) (\<lambda>_. StartDBLoad_loop Next fuel)))"

definition StartDBLoad :: "(bytes \<Rightarrow> ('s, bytes) st) \<Rightarrow> ('s, bytes) st \<Rightarrow> nat \<Rightarrow> u32 \<Rightarrow> ('s load_state, bool) st" where
  "StartDBLoad Packet Next fuel dbId =
     bnd (set_loading True) (\<lambda>_.
     bnd (modify (\<lambda>l. case GetDBName (m_dbdb (ls_desktop l)) dbId of
            None \<Rightarrow> l | Some n \<Rightarrow> l\<lparr>ls_loader := (ls_loader l)\<lparr>ld_dbName := n\<rparr>\<rparr>)) (\<lambda>_.
     bnd use_data (\<lambda>_.
     bnd (gets id) (\<lambda>l.
     bnd (lift (GetRecords (m_commandTable (ls_desktop l)) (ld_packet (ls_loader l)) dbId)) (\<lambda>p.
     bnd (modify (\<lambda>l. l\<lparr>ls_loader := (ls_loader l)\<lparr>ld_packet := p\<rparr>\<rparr>)) (\<lambda>_.
     bnd (load_exchange (Packet (contents (m_send p)))) (\<lambda>_. StartDBLoad_loop Next fuel)))))))"

fun GetNextRecord_loop :: "('s, bytes) st \<Rightarrow> nat \<Rightarrow> ('s load_state, bool) st" where
  "GetNextRecord_loop Next 0 = throw (UB ''out of fuel'')"
| "GetNextRecord_loop Next (Suc fuel) =
     bnd use_data (\<lambda>_.
     bnd (load_exchange Next) (\<lambda>_.
     bnd load_command (\<lambda>c.
       if c = SB_COMMAND_DB_DATA then bnd load_meta (\<lambda>_. ret True)
       else if c \<noteq> SB_COMMAND_DB_DONE then GetNextRecord_loop Next fuel
       else bnd (set_loading False) (\<lambda>_. ret False))))"

definition GetNextRecord :: "('s, bytes) st \<Rightarrow> nat \<Rightarrow> ('s load_state, bool) st" where
  "GetNextRecord Next fuel =
     bnd (gets (m_loading \<circ> ls_loader)) (\<lambda>busy.
       if \<not> busy then ret False else bnd use_data (\<lambda>_. GetNextRecord_loop Next fuel))"

section \<open>LoadDatabase\<close>

fun LoadDatabase_loop ::
  "('s, bytes) st \<Rightarrow> nat \<Rightarrow> 'p parser \<Rightarrow> nat \<Rightarrow> bool \<Rightarrow> ('s load_state \<times> 'p, unit) st" where
  "LoadDatabase_loop Next fuel ParseRecord turns loading =
     (if \<not> loading then ret ()
      else case turns of
        0 \<Rightarrow> throw (UB ''out of fuel'')
      | Suc turns' \<Rightarrow>
          bnd (gets (ls_data \<circ> fst)) (\<lambda>d.
          bnd (zoom snd apsnd (ParseRecord d)) (\<lambda>_.
          bnd (zoom fst apfst (GetNextRecord Next fuel)) (\<lambda>loading'.
            LoadDatabase_loop Next fuel ParseRecord turns' loading'))))"

declare LoadDatabase_loop.simps [simp del]

definition LoadDatabase ::
  "(bytes \<Rightarrow> ('s, bytes) st) \<Rightarrow> ('s, bytes) st \<Rightarrow> nat \<Rightarrow> u32 \<Rightarrow> (converter option \<Rightarrow> 'p parser)
     \<Rightarrow> ('s desktop \<times> 'p, unit) st" where
  "LoadDatabase Packet Next fuel dbId ParseRecord s =
     (case bnd (zoom fst apfst (StartDBLoad Packet Next fuel dbId))
             (LoadDatabase_loop Next fuel (ParseRecord (m_ic (fst s))) fuel)
             (\<lparr>ls_desktop = fst s, ls_loader = DBLoader_new, ls_data = DBData_empty\<rparr>, snd s) of
        (r, l, p) \<Rightarrow> (r, ls_desktop l, p))"

section \<open>DeviceBuilder\<close>

text \<open>
  m_current is the position of the iterator. The loader and the mode object are the
  load state the functions work on.
\<close>

record device_builder =
  m_dbIds :: "(u32 \<times> bytes) list"
  m_current :: nat
  m_started :: bool

definition DeviceBuilder_Restart :: "device_builder \<Rightarrow> device_builder" where
  "DeviceBuilder_Restart b = b\<lparr>m_current := 0, m_started := False\<rparr>"

definition DeviceBuilder_new :: device_builder where
  "DeviceBuilder_new = DeviceBuilder_Restart \<lparr>m_dbIds = [], m_current = 0, m_started = False\<rparr>"

definition DeviceBuilder_Add :: "'s desktop \<Rightarrow> bytes \<Rightarrow> device_builder \<Rightarrow> bool \<times> device_builder" where
  "DeviceBuilder_Add dk dbname b = (case GetDBID dk dbname of
     Inr ident \<Rightarrow> (True, b\<lparr>m_dbIds := m_dbIds b @ [(ident, dbname)]\<rparr>) | Inl e \<Rightarrow> (False, b))"

definition DeviceBuilder_Add_all :: "database list \<Rightarrow> device_builder \<Rightarrow> device_builder" where
  "DeviceBuilder_Add_all dbs b = b\<lparr>m_dbIds := m_dbIds b @ map (\<lambda>db. (db_Number db, db_Name db)) dbs\<rparr>"

definition DeviceBuilder_EndOfFile :: "device_builder \<Rightarrow> bool" where
  "DeviceBuilder_EndOfFile b \<longleftrightarrow> m_current b = length (m_dbIds b)"

abbreviation on_loader :: "('s load_state, 'a) st \<Rightarrow> ('s load_state \<times> device_builder, 'a) st" where
  "on_loader m \<equiv> zoom fst apfst m"

abbreviation on_builder :: "(device_builder \<Rightarrow> device_builder) \<Rightarrow> ('s load_state \<times> device_builder, unit) st" where
  "on_builder f \<equiv> modify (apsnd f)"

definition DeviceBuilder_FetchRecord ::
  "(bytes \<Rightarrow> ('s, bytes) st) \<Rightarrow> ('s, bytes) st \<Rightarrow> nat \<Rightarrow> ('s load_state \<times> device_builder, bool) st" where
  "DeviceBuilder_FetchRecord Packet Next fuel =
     bnd (gets id) (\<lambda>(l, b).
       if m_dbIds b = [] then ret False
       else
         bnd (if \<not> m_started b
              then bnd (on_builder (m_current_update (\<lambda>_. 0))) (\<lambda>_.
                   bnd (on_loader (StartDBLoad Packet Next fuel (fst (m_dbIds b ! 0)))) (\<lambda>r.
                   bnd (on_builder (m_started_update (\<lambda>_. True))) (\<lambda>_. ret (Some r))))
              else if m_loading (ls_loader l)
              then bnd (on_loader (GetNextRecord Next fuel)) (\<lambda>r. ret (Some r))
              else if DeviceBuilder_EndOfFile b then ret None
              else bnd (on_builder (m_current_update Suc)) (\<lambda>_.
                     if DeviceBuilder_EndOfFile (m_current_update Suc b) then ret None
                     else bnd (on_loader (StartDBLoad Packet Next fuel (fst (m_dbIds b ! Suc (m_current b))))) (\<lambda>r.
                            ret (Some r)))) (\<lambda>res.
         case res of
           None \<Rightarrow> ret False
         | Some r \<Rightarrow>
             bnd (exec_if r (modify (\<lambda>(l, b). (l\<lparr>ls_data := SetDBName (snd (m_dbIds b ! m_current b)) (ls_data l)\<rparr>, b))))
               (\<lambda>_. ret r)))"

text \<open>
  BuildRecord fetches into an object of its own and copies. MemCpy takes the offset by
  reference and advances it, so ReleaseBuffer is called with the advanced offset plus the
  size.
\<close>

definition place_record :: "dbdata \<Rightarrow> dbdata \<Rightarrow> nat \<Rightarrow> dbdata res" where
  "place_record temp d offset =
     (let d1 = SetOffset offset (SetIds (m_recType temp) (m_uniqueId temp)
                 (SetDBName (m_dbName temp) (SetVersion (m_version temp) d)));
          tempsize = dsize (m_data temp) - m_offset temp
      in rbind (UseData d1) (\<lambda>d2.
         rbind (MemCpy (m_data d2) offset (drop (m_offset temp) (contents (m_data temp)))) (\<lambda>(b, offset').
         rbind (UseData (d2\<lparr>m_data := b\<rparr>)) (\<lambda>d3.
         rbind (ReleaseBuffer (m_data d3) (int (offset' + tempsize))) (\<lambda>b'.
           Inr (d3\<lparr>m_data := b'\<rparr>))))))"

definition DeviceBuilder_BuildRecord ::
  "(bytes \<Rightarrow> ('s, bytes) st) \<Rightarrow> ('s, bytes) st \<Rightarrow> nat \<Rightarrow> dbdata \<Rightarrow> nat \<Rightarrow> ('s load_state \<times> device_builder, bool \<times> dbdata) st" where
  "DeviceBuilder_BuildRecord Packet Next fuel d offset =
     bnd (modify (apfst (\<lambda>l. l\<lparr>ls_data := DBData_empty\<rparr>))) (\<lambda>_.
     bnd (DeviceBuilder_FetchRecord Packet Next fuel) (\<lambda>more.
       if \<not> more then ret (False, d)
       else bnd (gets (ls_data \<circ> fst)) (\<lambda>temp.
            bnd (lift (place_record temp d offset)) (\<lambda>d'. ret (True, d')))))"

section \<open>DeviceParser\<close>

datatype write_mode =
    ERASE_ALL_WRITE_ALL | INDIVIDUAL_OVERWRITE | ADD_BUT_NO_OVERWRITE | ADD_WITH_NEW_ID | DECIDE_BY_CALLBACK | DROP_RECORD

text \<open>The constructor leaves m_current_dbid unset.\<close>

record device_parser =
  m_mode :: write_mode
  m_current_db :: bytes
  m_current_dbid :: u32
  m_rstate :: rst

definition DeviceParser_new :: "u32 \<Rightarrow> write_mode \<Rightarrow> device_parser" where
  "DeviceParser_new junk mode = \<lparr>m_mode = mode, m_current_db = [], m_current_dbid = junk, m_rstate = RecordStateTable_new\<rparr>"

text \<open>The mode for one record; DecideWrite is the callback of the derived class.\<close>

definition decided_mode :: "(dbdata \<Rightarrow> write_mode) \<Rightarrow> device_parser \<Rightarrow> dbdata \<Rightarrow> write_mode" where
  "decided_mode DecideWrite dp d = (if m_mode dp = DECIDE_BY_CALLBACK then DecideWrite d else m_mode dp)"

text \<open>A DBDataBuilder as an argument of AddRecord and SetRecord.\<close>

definition data_builder :: "dbdata \<Rightarrow> converter option \<Rightarrow> unit \<Rightarrow> unit builder" where
  "data_builder local ic u d offset =
     rbind (DBDataBuilder_BuildRecord local d offset) (\<lambda>(more, d'). Inr (more, d', ()))"

text \<open>A call on the mode object with a builder that has no state of its own.\<close>

definition on_desktop :: "('s desktop \<times> unit, 'a) st \<Rightarrow> ('s desktop \<times> device_parser, 'a) st" where
  "on_desktop m s = (case m (fst s, ()) of (r, dk, u) \<Rightarrow> (r, dk, snd s))"

definition WriteNext ::
  "(bytes \<Rightarrow> ('s, bytes) st) \<Rightarrow> (dbdata \<Rightarrow> write_mode) \<Rightarrow> dbdata \<Rightarrow> ('s desktop \<times> device_parser, unit) st" where
  "WriteNext Packet DecideWrite d =
     bnd (gets snd) (\<lambda>dp.
     let local = DBData_memory_meta (m_version d) (m_dbName d) (m_recType d) (m_uniqueId d) (m_offset d)
                   (contents (m_data d)) (dsize (m_data d));
         add = (\<lambda>local. on_desktop (Desktop_AddRecord Packet (m_current_dbid dp) (data_builder local)))
     in case decided_mode DecideWrite dp d of
          ERASE_ALL_WRITE_ALL \<Rightarrow> add local
        | INDIVIDUAL_OVERWRITE \<Rightarrow>
            (case GetIndex (m_rstate dp) (m_uniqueId local) of
               Some index \<Rightarrow> on_desktop (Desktop_SetRecord Packet (m_current_dbid dp) index (data_builder local))
             | None \<Rightarrow> add local)
        | ADD_BUT_NO_OVERWRITE \<Rightarrow>
            (case GetIndex (m_rstate dp) (m_uniqueId local) of Some index \<Rightarrow> ret () | None \<Rightarrow> add local)
        | ADD_WITH_NEW_ID \<Rightarrow>
            (case MakeNewRecordId (m_rstate dp) of
               None \<Rightarrow> throw (UB ''MakeNewRecordId does not return'')
             | Some (n, t) \<Rightarrow>
                 bnd (modify (apsnd (\<lambda>dp. dp\<lparr>m_rstate := t\<rparr>))) (\<lambda>_. add (SetIds (m_recType local) n local)))
        | DROP_RECORD \<Rightarrow> ret ()
        | DECIDE_BY_CALLBACK \<Rightarrow> throw (LogicError ''DeviceParser: unknown mode''))"

definition StartDB ::
  "(bytes \<Rightarrow> ('s, bytes) st) \<Rightarrow> ('s, bytes) st \<Rightarrow> nat \<Rightarrow> (dbdata \<Rightarrow> write_mode) \<Rightarrow> dbdata
     \<Rightarrow> ('s desktop \<times> device_parser, unit) st" where
  "StartDB Packet Next fuel DecideWrite d =
     bnd (modify (apsnd (\<lambda>dp. dp\<lparr>m_rstate := RecordStateTable_Clear (m_rstate dp), m_current_db := m_dbName d\<rparr>))) (\<lambda>_.
     bnd (gets id) (\<lambda>(dk, dp).
       case GetDBNumber (m_dbdb dk) (m_dbName d) of
         None \<Rightarrow> modify (apsnd (\<lambda>dp. dp\<lparr>m_current_db := [], m_current_dbid := 0\<rparr>))
       | Some ident \<Rightarrow>
           bnd (modify (apsnd (\<lambda>dp. dp\<lparr>m_current_dbid := ident\<rparr>))) (\<lambda>_.
             case decided_mode DecideWrite dp d of
               ERASE_ALL_WRITE_ALL \<Rightarrow>
                 bnd (zoom fst apfst (Desktop_ClearDatabase Packet ident)) (\<lambda>_. WriteNext Packet DecideWrite d)
             | DROP_RECORD \<Rightarrow> ret ()
             | DECIDE_BY_CALLBACK \<Rightarrow> throw (LogicError ''DeviceParser: unknown mode'')
             | _ \<Rightarrow>
                 bnd (zoom fst apfst (Desktop_GetRecordStateTable Packet Next fuel ident)) (\<lambda>t.
                 bnd (modify (apsnd (\<lambda>dp. dp\<lparr>m_rstate := t\<rparr>))) (\<lambda>_. WriteNext Packet DecideWrite d)))))"

definition DeviceParser_ParseRecord ::
  "(bytes \<Rightarrow> ('s, bytes) st) \<Rightarrow> ('s, bytes) st \<Rightarrow> nat \<Rightarrow> (dbdata \<Rightarrow> write_mode) \<Rightarrow> dbdata
     \<Rightarrow> ('s desktop \<times> device_parser, unit) st" where
  "DeviceParser_ParseRecord Packet Next fuel DecideWrite d =
     bnd (gets (m_current_db \<circ> snd)) (\<lambda>db.
       if m_dbName d = db then WriteNext Packet DecideWrite d else StartDB Packet Next fuel DecideWrite d)"

end
