(* ===== verification/Desktop_Load.thy ===== *)
theory Desktop_Load imports Db_Loader begin

text \<open>
  What the desktop mode makes of a device that answers: the lemmas are proved over the
  interface \<open>record_link\<close>, the properties for a routed socket. Loading a database feeds the
  parser every record in order.
\<close>

section \<open>Exchanges\<close>

lemma buffer_with_ok: "data_ok (buffer_with bs)" "contents (buffer_with bs) = bs"
  by (simp_all add: buffer_with_def data_ok_def contents_def)

lemma assign_buffer:
  assumes "data_ok d"
  shows "\<exists>d'. assign d (buffer_with bs) = Inr d' \<and> data_ok d' \<and> contents d' = bs"
proof -
  obtain d' where "assign d (buffer_with bs) = Inr d'" using assign_total by blast
  then show ?thesis using assign_spec[OF _ assms buffer_with_ok(1)[of bs]] by (auto simp: buffer_with_ok)
qed

lemma use_data_keeps:
  assumes "data_ok (m_data (ls_data l))"
  shows "\<exists>b. use_data l = (Inr (), l\<lparr>ls_data := (ls_data l)\<lparr>m_data := b\<rparr>\<rparr>) \<and> data_ok b
    \<and> contents b = contents (m_data (ls_data l))"
proof -
  obtain b where g: "GetBuffer (m_data (ls_data l)) 0 = Inr b" using GetBuffer_total by blast
  show ?thesis
    by (rule exI[of _ b]) (use GetBuffer_eqs[OF g assms] in \<open>simp add: use_data_def UseData_def g\<close>)
qed

lemma db_request_sendable:
  assumes "db_request p tableCmd dbop args" "length args \<le> 1017"
  shows "sendable (contents (m_send p))" "length (contents (m_send p)) \<le> 0x400"
proof -
  have "byte_at (contents (m_send p)) 4 = byte_at (drop 2 (contents (m_send p))) 2" by simp
  also have "\<dots> = 0x40" using assms(1) by (simp only: db_request_def) (simp add: le16_def)
  finally show "sendable (contents (m_send p))" "length (contents (m_send p)) \<le> 0x400"
    using assms by (auto simp: db_request_def sendable_def simp del: length_contents)
qed

text \<open>Answers with a record, and the last answer.\<close>

definition record_answer :: "bytes \<Rightarrow> bool" where
  "record_answer r \<longleftrightarrow> CheckSize r 15 = Inr () \<and> byte_at r 4 = 0x40"

definition final_answer :: "bytes \<Rightarrow> bool" where
  "final_answer r \<longleftrightarrow> CheckSize r 5 = Inr () \<and> byte_at r 4 = 0x41"

definition answer_data :: "bytes \<Rightarrow> bytes \<Rightarrow> dbdata \<Rightarrow> bool" where
  "answer_data name r d \<longleftrightarrow> m_version d = REC_VERSION_1 \<and> m_dbName d = name \<and> m_recType d = byte_at r 7
     \<and> m_uniqueId d = get32 r 10 \<and> m_offset d = 15 \<and> data_ok (m_data d) \<and> contents (m_data d) = r"

lemma answer_command:
  "record_answer r \<Longrightarrow> Packet_Command r = Inr 0x40" "final_answer r \<Longrightarrow> Packet_Command r = Inr 0x41"
  using CheckSize_mono[of r 15 5] CheckSize_Inr_length[of r 15 "()"] CheckSize_Inr_length[of r 5 "()"]
  by (simp_all add: record_answer_def final_answer_def Packet_Command_def layout_simps rd8_def)

lemma load_meta_answer:
  assumes "record_answer r" "contents (m_data (ls_data l)) = r" "m_last_dbop (ld_packet (ls_loader l)) = 0x42"
  shows "load_meta l = (Inr (), l\<lparr>ls_data := (ls_data l)\<lparr>m_version := REC_VERSION_1, m_recType := byte_at r 7,
     m_uniqueId := get32 r 10, m_offset := 15\<rparr>\<rparr>)"
proof -
  have "15 \<le> length r" using assms(1) CheckSize_Inr_length by (auto simp: record_answer_def)
  then show ?thesis using assms
    by (simp add: load_meta_def ParseMeta_def Let_def layout_simps SetVersion_def SetOffset_def SetIds_def rd8_def rd32_def
        record_answer_def)
qed

context record_link begin

lemma load_exchange_answered:
  assumes "answers (dk_link (ls_desktop l)) ((cost req, r) # rs)" "sendable req" "data_ok (m_data (ls_data l))"
  shows "\<exists>s' b. load_exchange (Packet req) l = (Inr (), l\<lparr>ls_desktop := (ls_desktop l)\<lparr>dk_link := s'\<rparr>,
      ls_data := (ls_data l)\<lparr>m_data := b\<rparr>\<rparr>)
    \<and> answers s' rs \<and> data_ok b \<and> contents b = r
    \<and> written s' = written (dk_link (ls_desktop l)) @ wire (dk_link (ls_desktop l)) req \<and> wire s' = wire (dk_link (ls_desktop l))"
proof -
  obtain s' where "Packet req (dk_link (ls_desktop l)) = (Inr r, s')" "answers s' rs"
      "written s' = written (dk_link (ls_desktop l)) @ wire (dk_link (ls_desktop l)) req" "wire s' = wire (dk_link (ls_desktop l))"
    using Packet_answered[OF assms(1,2)] by blast
  moreover obtain b where "assign (m_data (ls_data l)) (buffer_with r) = Inr b" "data_ok b" "contents b = r"
    using assign_buffer[OF assms(3)] by blast
  ultimately show ?thesis
    by (intro exI[of _ s'] exI[of _ b]) (simp add: load_exchange_def on_link_def zoom_def bnd_def)
qed

text \<open>A turn of GetNextRecord up to the command of the answer.\<close>

lemma next_answer:
  assumes "answers (dk_link (ls_desktop l)) ((1, r) # rs)" "data_ok (m_data (ls_data l))"
  shows "\<exists>s' b. bnd use_data (\<lambda>_. bnd (load_exchange Next) (\<lambda>_. bnd load_command k)) l
      = bnd (lift (Packet_Command r)) k (l\<lparr>ls_desktop := (ls_desktop l)\<lparr>dk_link := s'\<rparr>, ls_data := (ls_data l)\<lparr>m_data := b\<rparr>\<rparr>)
    \<and> answers s' rs \<and> data_ok b \<and> contents b = r"
proof -
  obtain b where b: "use_data l = (Inr (), l\<lparr>ls_data := (ls_data l)\<lparr>m_data := b\<rparr>\<rparr>)" "data_ok b"
    using use_data_keeps[OF assms(2)] by blast
  define l1 where "l1 = l\<lparr>ls_data := (ls_data l)\<lparr>m_data := b\<rparr>\<rparr>"
  have "data_ok (m_data (ls_data l1))" "answers (dk_link (ls_desktop l1)) ((1, r) # rs)"
    using b assms(1) by (simp_all add: l1_def)
  then obtain s' b' where "load_exchange Next l1 = (Inr (), l1\<lparr>ls_desktop := (ls_desktop l1)\<lparr>dk_link := s'\<rparr>,
      ls_data := (ls_data l1)\<lparr>m_data := b'\<rparr>\<rparr>)" "answers s' rs" "data_ok b'" "contents b' = r"
    unfolding Next_Packet using load_exchange_answered[OF _ next_sendable] cost_short[OF next_short] by force
  then show ?thesis using b by (auto simp: l1_def load_command_def bnd_def)
qed

lemma GetNextRecord_record:
  assumes "answers (dk_link (ls_desktop l)) ((1, r) # rs)" "record_answer r" "data_ok (m_data (ls_data l))"
    and "m_last_dbop (ld_packet (ls_loader l)) = 0x42" "m_loading (ls_loader l)" "m_dbName (ls_data l) = name"
  shows "\<exists>s' d. GetNextRecord Next (Suc n) l = (Inr True, l\<lparr>ls_desktop := (ls_desktop l)\<lparr>dk_link := s'\<rparr>, ls_data := d\<rparr>)
    \<and> answers s' rs \<and> answer_data name r d"
proof -
  obtain b0 where b0: "use_data l = (Inr (), l\<lparr>ls_data := (ls_data l)\<lparr>m_data := b0\<rparr>\<rparr>)" "data_ok b0"
    using use_data_keeps[OF assms(3)] by blast
  define l1 where "l1 = l\<lparr>ls_data := (ls_data l)\<lparr>m_data := b0\<rparr>\<rparr>"
  have l1: "data_ok (m_data (ls_data l1))" "answers (dk_link (ls_desktop l1)) ((1, r) # rs)"
    using b0 assms(1) by (simp_all add: l1_def)
  obtain s' b where sb: "GetNextRecord_loop Next (Suc n) l1 = bnd load_meta (\<lambda>_. ret True)
        (l1\<lparr>ls_desktop := (ls_desktop l1)\<lparr>dk_link := s'\<rparr>, ls_data := (ls_data l1)\<lparr>m_data := b\<rparr>\<rparr>)"
      "answers s' rs" "data_ok b" "contents b = r"
    using next_answer[OF l1(2,1), where k = "\<lambda>c. if c = SB_COMMAND_DB_DATA then bnd load_meta (\<lambda>_. ret True)
        else if c \<noteq> SB_COMMAND_DB_DONE then GetNextRecord_loop Next n else bnd (set_loading False) (\<lambda>_. ret False)"]
      answer_command(1)[OF assms(2)] by (auto simp: layout_simps)
  have "load_meta (l1\<lparr>ls_desktop := (ls_desktop l1)\<lparr>dk_link := s'\<rparr>, ls_data := (ls_data l1)\<lparr>m_data := b\<rparr>\<rparr>)
     = (Inr (), l\<lparr>ls_desktop := (ls_desktop l)\<lparr>dk_link := s'\<rparr>, ls_data := (ls_data l)\<lparr>m_data := b, m_version := REC_VERSION_1,
         m_recType := byte_at r 7, m_uniqueId := get32 r 10, m_offset := 15\<rparr>\<rparr>)"
    using load_meta_answer[OF assms(2), of "l1\<lparr>ls_desktop := (ls_desktop l1)\<lparr>dk_link := s'\<rparr>, ls_data := (ls_data l1)\<lparr>m_data := b\<rparr>\<rparr>"] sb(4) assms(4)
    by (simp add: l1_def)
  then show ?thesis
    using sb b0 assms(5,6)
    by (intro exI[of _ s'] exI[of _ "(ls_data l)\<lparr>m_data := b, m_version := REC_VERSION_1,
         m_recType := byte_at r 7, m_uniqueId := get32 r 10, m_offset := 15\<rparr>"])
       (simp add: GetNextRecord_def l1_def[symmetric] answer_data_def)
qed

lemma GetNextRecord_final:
  assumes "answers (dk_link (ls_desktop l)) ((1, r) # rs)" "final_answer r" "data_ok (m_data (ls_data l))"
    and "m_loading (ls_loader l)"
  shows "\<exists>s' l'. GetNextRecord Next (Suc n) l = (Inr False, l') \<and> ls_desktop l' = (ls_desktop l)\<lparr>dk_link := s'\<rparr> \<and> answers s' rs"
proof -
  obtain b0 where b0: "use_data l = (Inr (), l\<lparr>ls_data := (ls_data l)\<lparr>m_data := b0\<rparr>\<rparr>)" "data_ok b0"
    using use_data_keeps[OF assms(3)] by blast
  define l1 where "l1 = l\<lparr>ls_data := (ls_data l)\<lparr>m_data := b0\<rparr>\<rparr>"
  have l1: "data_ok (m_data (ls_data l1))" "answers (dk_link (ls_desktop l1)) ((1, r) # rs)"
    using b0 assms(1) by (simp_all add: l1_def)
  obtain s' b where "GetNextRecord_loop Next (Suc n) l1 = bnd (set_loading False) (\<lambda>_. ret False)
        (l1\<lparr>ls_desktop := (ls_desktop l1)\<lparr>dk_link := s'\<rparr>, ls_data := (ls_data l1)\<lparr>m_data := b\<rparr>\<rparr>)" "answers s' rs"
    using next_answer[OF l1(2,1), where k = "\<lambda>c. if c = SB_COMMAND_DB_DATA then bnd load_meta (\<lambda>_. ret True)
        else if c \<noteq> SB_COMMAND_DB_DONE then GetNextRecord_loop Next n else bnd (set_loading False) (\<lambda>_. ret False)"]
      answer_command(2)[OF assms(2)] by (auto simp: layout_simps)
  then show ?thesis using b0 assms(4) by (auto simp: GetNextRecord_def l1_def set_loading_def)
qed

lemma StartDBLoad_answered:
  assumes "GetDBCommand (m_commandTable (ls_desktop l)) DatabaseAccess = Inr cmd"
    and "data_ok (m_send (ld_packet (ls_loader l)))" "data_ok (m_data (ls_data l))"
    and "answers (dk_link (ls_desktop l)) ((1, r) # rs)"
    and "name = (case GetDBName (m_dbdb (ls_desktop l)) dbId of None \<Rightarrow> ld_dbName (ls_loader l) | Some n \<Rightarrow> n)"
  shows "\<exists>s' b p. StartDBLoad Packet Next fuel dbId l = StartDBLoad_loop Next fuel
      \<lparr>ls_desktop = (ls_desktop l)\<lparr>dk_link := s'\<rparr>, ls_loader = \<lparr>ld_packet = p, m_loading = True, ld_dbName = name\<rparr>,
         ls_data = (ls_data l)\<lparr>m_data := b\<rparr>\<rparr>
    \<and> m_last_dbop p = 0x42 \<and> answers s' rs \<and> data_ok b \<and> contents b = r"
proof -
  obtain p where p: "GetRecords (m_commandTable (ls_desktop l)) (ld_packet (ls_loader l)) dbId = Inr p"
      "db_request p (ucast cmd) 0x42 (le16 (ucast dbId))"
    using DBPacket_requests_facts[OF assms(1,2)] by blast
  define req where "req = contents (m_send p)"
  have req: "sendable req" "length req \<le> 0x400" using db_request_sendable[OF p(2)] by (simp_all add: req_def)
  define l0 where "l0 = l\<lparr>ls_loader := \<lparr>ld_packet = ld_packet (ls_loader l), m_loading = True, ld_dbName = name\<rparr>\<rparr>"
  have "data_ok (m_data (ls_data l0))" using assms(3) by (simp add: l0_def)
  from use_data_keeps[OF this] obtain b0 where b0: "use_data l0 = (Inr (), l0\<lparr>ls_data := (ls_data l0)\<lparr>m_data := b0\<rparr>\<rparr>)" "data_ok b0" by blast
  define l1 where "l1 = l0\<lparr>ls_data := (ls_data l0)\<lparr>m_data := b0\<rparr>, ls_loader := (ls_loader l0)\<lparr>ld_packet := p\<rparr>\<rparr>"
  have "answers (dk_link (ls_desktop l1)) ((cost req, r) # rs)" "data_ok (m_data (ls_data l1))"
    using assms(4) b0(2) cost_short[OF req(2)] by (simp_all add: l1_def l0_def)
  from load_exchange_answered[OF this(1) req(1) this(2)]
  obtain s' b where e: "load_exchange (Packet req) l1 = (Inr (), l1\<lparr>ls_desktop := (ls_desktop l1)\<lparr>dk_link := s'\<rparr>,
      ls_data := (ls_data l1)\<lparr>m_data := b\<rparr>\<rparr>)" "answers s' rs" "data_ok b" "contents b = r"
    by blast
  define name_step :: "'s load_state \<Rightarrow> 's load_state" where
    "name_step = (\<lambda>l. case GetDBName (m_dbdb (ls_desktop l)) dbId of
       None \<Rightarrow> l | Some n \<Rightarrow> l\<lparr>ls_loader := (ls_loader l)\<lparr>ld_dbName := n\<rparr>\<rparr>)"
  have "name_step (l\<lparr>ls_loader := (ls_loader l)\<lparr>m_loading := True\<rparr>\<rparr>) = l0"
    unfolding l0_def assms(5) name_step_def by (cases l) (auto split: option.split)
  then have "StartDBLoad Packet Next fuel dbId l = StartDBLoad_loop Next fuel (l1\<lparr>ls_desktop := (ls_desktop l1)\<lparr>dk_link := s'\<rparr>,
      ls_data := (ls_data l1)\<lparr>m_data := b\<rparr>\<rparr>)"
    using b0(1) e(1) p(1) unfolding StartDBLoad_def name_step_def[symmetric]
    by (simp add: set_loading_def req_def l1_def) (simp add: l0_def)
  then show ?thesis using e p(2)
    by (intro exI[of _ s'] exI[of _ b] exI[of _ p]) (cases l, simp add: l1_def l0_def db_request_def)
qed

lemma StartDBLoad_record:
  assumes "GetDBCommand (m_commandTable (ls_desktop l)) DatabaseAccess = Inr cmd"
    and "data_ok (m_send (ld_packet (ls_loader l)))" "data_ok (m_data (ls_data l))"
    and "answers (dk_link (ls_desktop l)) ((1, r) # rs)" "record_answer r"
    and "name = (case GetDBName (m_dbdb (ls_desktop l)) dbId of None \<Rightarrow> ld_dbName (ls_loader l) | Some n \<Rightarrow> n)"
  shows "\<exists>s' d p. StartDBLoad Packet Next (Suc n) dbId l = (Inr True, \<lparr>ls_desktop = (ls_desktop l)\<lparr>dk_link := s'\<rparr>,
       ls_loader = \<lparr>ld_packet = p, m_loading = True, ld_dbName = name\<rparr>, ls_data = d\<rparr>)
    \<and> m_last_dbop p = 0x42 \<and> answers s' rs \<and> answer_data name r d"
proof -
  obtain s' b p where s: "StartDBLoad Packet Next (Suc n) dbId l = StartDBLoad_loop Next (Suc n)
      \<lparr>ls_desktop = (ls_desktop l)\<lparr>dk_link := s'\<rparr>, ls_loader = \<lparr>ld_packet = p, m_loading = True, ld_dbName = name\<rparr>,
         ls_data = (ls_data l)\<lparr>m_data := b\<rparr>\<rparr>"
      "m_last_dbop p = 0x42" "answers s' rs" "data_ok b" "contents b = r"
    using StartDBLoad_answered[OF assms(1-4,6), of "Suc n"] by blast
  note m = load_meta_answer[OF assms(5), of "\<lparr>ls_desktop = (ls_desktop l)\<lparr>dk_link := s'\<rparr>,
     ls_loader = \<lparr>ld_packet = p, m_loading = True, ld_dbName = name\<rparr>, ls_data = (ls_data l)\<lparr>m_data := b\<rparr>\<rparr>"]
  show ?thesis
    using s m answer_command(1)[OF assms(5)]
    by (intro exI[of _ s'] exI[of _ p] exI[of _ "(ls_data l)\<lparr>m_version := REC_VERSION_1, m_dbName := name,
         m_recType := byte_at r 7, m_uniqueId := get32 r 10, m_offset := 15, m_data := b\<rparr>"])
       (simp add: load_command_def layout_simps SetDBName_def answer_data_def)
qed

lemma LoadDatabase_loop_records:
  assumes "answers (dk_link (ls_desktop l)) (map (Pair 1) rs @ (1, fin) # rest)" "list_all record_answer rs" "final_answer fin"
    and "data_ok (m_data (ls_data l))" "m_dbName (ls_data l) = name"
    and "m_last_dbop (ld_packet (ls_loader l)) = 0x42" "m_loading (ls_loader l)" "length rs < turns"
  shows "\<exists>ds. list_all2 (answer_data name) rs ds \<and>
    (\<forall>p. \<exists>l'. LoadDatabase_loop Next (Suc n) PR turns True (l, p)
        = (fst (send_all PR (ls_data l # ds) p), l', snd (send_all PR (ls_data l # ds) p))
       \<and> (\<forall>u. fst (send_all PR (ls_data l # ds) p) = Inr u \<longrightarrow>
            (\<exists>s'. ls_desktop l' = (ls_desktop l)\<lparr>dk_link := s'\<rparr> \<and> answers s' rest)))"
  using assms
proof (induction rs arbitrary: l turns)
  case Nil
  obtain t where t: "turns = Suc t" using Nil.prems(8) by (cases turns) auto
  obtain s' l' where "GetNextRecord Next (Suc n) l = (Inr False, l')" "ls_desktop l' = (ls_desktop l)\<lparr>dk_link := s'\<rparr>" "answers s' rest"
    using GetNextRecord_final[of l fin rest n] Nil.prems by auto
  note g = this
  have "\<exists>l'. LoadDatabase_loop Next (Suc n) PR turns True (l, p)
        = (fst (send_all PR [ls_data l] p), l', snd (send_all PR [ls_data l] p))
       \<and> (\<forall>u. fst (send_all PR [ls_data l] p) = Inr u \<longrightarrow>
            (\<exists>s'. ls_desktop l' = (ls_desktop l)\<lparr>dk_link := s'\<rparr> \<and> answers s' rest))" for p
  proof (cases "PR (ls_data l) p")
    case (Pair r p1)
    then show ?thesis using g
      by (cases r) (auto simp: t LoadDatabase_loop.simps zoom_def bnd_def)
  qed
  then show ?case by (intro exI[of _ "[]"]) simp
next
  case (Cons r rs)
  obtain t where t: "turns = Suc t" using Cons.prems(8) by (cases turns) auto
  obtain s' d where d: "GetNextRecord Next (Suc n) l = (Inr True, l\<lparr>ls_desktop := (ls_desktop l)\<lparr>dk_link := s'\<rparr>, ls_data := d\<rparr>)"
      "answers s' (map (Pair 1) rs @ (1, fin) # rest)" "answer_data name r d"
    using GetNextRecord_record[of l r "map (Pair 1) rs @ (1, fin) # rest" name n] Cons.prems by auto
  define l1 where "l1 = l\<lparr>ls_desktop := (ls_desktop l)\<lparr>dk_link := s'\<rparr>, ls_data := d\<rparr>"
  have l1: "answers (dk_link (ls_desktop l1)) (map (Pair 1) rs @ (1, fin) # rest)" "data_ok (m_data (ls_data l1))"
      "m_dbName (ls_data l1) = name" "m_last_dbop (ld_packet (ls_loader l1)) = 0x42" "m_loading (ls_loader l1)" "ls_data l1 = d"
    using Cons.prems(6,7) d(2,3) by (simp_all add: l1_def answer_data_def)
  have more: "list_all record_answer rs" "length rs < t" using Cons.prems(2,8) t by simp_all
  obtain ds where ds: "list_all2 (answer_data name) rs ds"
    and run: "\<And>p. \<exists>l'. LoadDatabase_loop Next (Suc n) PR t True (l1, p)
        = (fst (send_all PR (d # ds) p), l', snd (send_all PR (d # ds) p))
       \<and> (\<forall>u. fst (send_all PR (d # ds) p) = Inr u \<longrightarrow>
            (\<exists>s'. ls_desktop l' = (ls_desktop l1)\<lparr>dk_link := s'\<rparr> \<and> answers s' rest))"
    using Cons.IH[OF l1(1) _ Cons.prems(3) l1(2-5), of t] more unfolding l1(6) by blast
  have "\<exists>l'. LoadDatabase_loop Next (Suc n) PR turns True (l, p)
        = (fst (send_all PR (ls_data l # d # ds) p), l', snd (send_all PR (ls_data l # d # ds) p))
       \<and> (\<forall>u. fst (send_all PR (ls_data l # d # ds) p) = Inr u \<longrightarrow>
            (\<exists>s'. ls_desktop l' = (ls_desktop l)\<lparr>dk_link := s'\<rparr> \<and> answers s' rest))" for p
  proof (cases "PR (ls_data l) p")
    case (Pair q p1)
    show ?thesis
    proof (cases q)
      case (Inl e)
      then show ?thesis using Pair by (simp add: t LoadDatabase_loop.simps[of _ _ _ "Suc t"] zoom_def bnd_def)
    next
      case (Inr u)
      have "LoadDatabase_loop Next (Suc n) PR turns True (l, p) = LoadDatabase_loop Next (Suc n) PR t True (l1, p1)"
        using Pair Inr d(1) by (simp add: t LoadDatabase_loop.simps[of _ _ _ "Suc t"] zoom_def bnd_def l1_def)
      moreover have "send_all PR (ls_data l # d # ds) p = send_all PR (d # ds) p1"
        using Pair Inr by (simp add: bnd_def)
      moreover have "ls_desktop l1 = (ls_desktop l)\<lparr>dk_link := s'\<rparr>" by (simp add: l1_def)
      ultimately show ?thesis using run[of p1] by (auto simp del: send_all.simps)
    qed
  qed
  then show ?case using ds d(3) by (intro exI[of _ "d # ds"]) (simp del: send_all.simps)
qed

text \<open>The mode object after a successful load: only the link has moved on.\<close>

lemma LoadDatabase_records:
  assumes "GetDBCommand (m_commandTable dk) DatabaseAccess = Inr cmd"
    and "answers (dk_link dk) (map (Pair 1) rs @ (1, fin) # rest)" "list_all record_answer rs" "final_answer fin"
    and "length rs < fuel" "GetDBName (m_dbdb dk) dbId = Some name"
  shows "\<exists>ds. list_all2 (answer_data name) rs ds \<and>
    (\<forall>p. \<exists>dk'. LoadDatabase Packet Next fuel dbId PR (dk, p)
        = (fst (send_all (PR (m_ic dk)) ds p), dk', snd (send_all (PR (m_ic dk)) ds p))
       \<and> (\<forall>u. fst (send_all (PR (m_ic dk)) ds p) = Inr u \<longrightarrow> (\<exists>s'. dk' = dk\<lparr>dk_link := s'\<rparr> \<and> answers s' rest)))"
proof -
  define l0 where "l0 = \<lparr>ls_desktop = dk, ls_loader = DBLoader_new, ls_data = DBData_empty\<rparr>"
  have l0: "data_ok (m_send (ld_packet (ls_loader l0)))" "data_ok (m_data (ls_data l0))" "ls_desktop l0 = dk"
    by (simp_all add: l0_def DBLoader_new_def DBPacket_new_def DBData_empty_def data_default_ok)
  obtain n where n: "fuel = Suc n" using assms(5) by (cases fuel) auto
  show ?thesis
  proof (cases rs)
    case Nil
    obtain s' b p where "StartDBLoad Packet Next (Suc n) dbId l0 = StartDBLoad_loop Next (Suc n)
      \<lparr>ls_desktop = dk\<lparr>dk_link := s'\<rparr>, ls_loader = \<lparr>ld_packet = p, m_loading = True, ld_dbName = name\<rparr>,
         ls_data = (ls_data l0)\<lparr>m_data := b\<rparr>\<rparr>" "answers s' rest" "contents b = fin"
      using StartDBLoad_answered[of l0 cmd fin rest name dbId "Suc n"] l0 assms Nil by auto
    then have "\<exists>ld d. StartDBLoad Packet Next fuel dbId l0 = (Inr False, \<lparr>ls_desktop = dk\<lparr>dk_link := s'\<rparr>, ls_loader = ld, ls_data = d\<rparr>)"
      using answer_command(2)[OF assms(4)] by (simp add: n load_command_def layout_simps set_loading_def)
    then obtain ld d where "StartDBLoad Packet Next fuel dbId l0 = (Inr False, \<lparr>ls_desktop = dk\<lparr>dk_link := s'\<rparr>, ls_loader = ld, ls_data = d\<rparr>)"
      by blast
    then have "\<exists>dk'. LoadDatabase Packet Next fuel dbId PR (dk, p) = (Inr (), dk', p) \<and> (\<exists>s'. dk' = dk\<lparr>dk_link := s'\<rparr> \<and> answers s' rest)" for p
      using \<open>answers s' rest\<close>
      by (auto simp: LoadDatabase_def l0_def[symmetric] zoom_def bnd_def LoadDatabase_loop.simps)
    then show ?thesis using Nil by (intro exI[of _ "[]"]) simp
  next
    case (Cons r rs')
    obtain s' d p where s: "StartDBLoad Packet Next (Suc n) dbId l0 = (Inr True, \<lparr>ls_desktop = dk\<lparr>dk_link := s'\<rparr>,
       ls_loader = \<lparr>ld_packet = p, m_loading = True, ld_dbName = name\<rparr>, ls_data = d\<rparr>)"
      "m_last_dbop p = 0x42" "answers s' (map (Pair 1) rs' @ (1, fin) # rest)" "answer_data name r d"
      using StartDBLoad_record[of l0 cmd r "map (Pair 1) rs' @ (1, fin) # rest" name dbId n] l0 assms Cons by auto
    define l1 where "l1 = \<lparr>ls_desktop = dk\<lparr>dk_link := s'\<rparr>,
       ls_loader = \<lparr>ld_packet = p, m_loading = True, ld_dbName = name\<rparr>, ls_data = d\<rparr>"
    have l1: "answers (dk_link (ls_desktop l1)) (map (Pair 1) rs' @ (1, fin) # rest)" "data_ok (m_data (ls_data l1))"
        "m_dbName (ls_data l1) = name" "m_last_dbop (ld_packet (ls_loader l1)) = 0x42" "m_loading (ls_loader l1)" "ls_data l1 = d"
      using s(2-4) by (simp_all add: l1_def answer_data_def)
    have more: "list_all record_answer rs'" "length rs' < fuel" using assms(3,5) Cons by simp_all
    obtain ds where ds: "list_all2 (answer_data name) rs' ds"
      and run: "\<And>q. \<exists>l'. LoadDatabase_loop Next (Suc n) (PR (m_ic dk)) fuel True (l1, q)
        = (fst (send_all (PR (m_ic dk)) (d # ds) q), l', snd (send_all (PR (m_ic dk)) (d # ds) q))
       \<and> (\<forall>u. fst (send_all (PR (m_ic dk)) (d # ds) q) = Inr u \<longrightarrow>
            (\<exists>s'. ls_desktop l' = (ls_desktop l1)\<lparr>dk_link := s'\<rparr> \<and> answers s' rest))"
      using LoadDatabase_loop_records[OF l1(1) _ assms(4) l1(2-5), of fuel n "PR (m_ic dk)"] more unfolding l1(6) by blast
    have "\<exists>dk'. LoadDatabase Packet Next fuel dbId PR (dk, q)
        = (fst (send_all (PR (m_ic dk)) (d # ds) q), dk', snd (send_all (PR (m_ic dk)) (d # ds) q))
       \<and> (\<forall>u. fst (send_all (PR (m_ic dk)) (d # ds) q) = Inr u \<longrightarrow> (\<exists>s'. dk' = dk\<lparr>dk_link := s'\<rparr> \<and> answers s' rest))" for q
    proof -
      have "bnd (zoom fst apfst (StartDBLoad Packet Next fuel dbId)) (LoadDatabase_loop Next fuel (PR (m_ic dk)) fuel) (l0, q)
          = LoadDatabase_loop Next (Suc n) (PR (m_ic dk)) fuel True (l1, q)"
        using s(1) by (simp add: zoom_def bnd_def l1_def n)
      then show ?thesis using run[of q]
        by (auto simp: LoadDatabase_def l0_def[symmetric] l1_def simp del: send_all.simps)
    qed
    then show ?thesis using ds s(4) Cons by (intro exI[of _ "d # ds"]) (simp del: send_all.simps)
  qed
qed

end

section \<open>Loading a database of memos\<close>

text \<open>The answer that carries a memo: header, type, id, and the fields BuildFields writes.\<close>

definition memo_answer :: "converter option \<Rightarrow> bytes \<Rightarrow> memo \<Rightarrow> bool" where
  "memo_answer ic r m \<longleftrightarrow> record_answer r \<and> memo_ok ic m \<and> byte_at r 7 = mm_RecType m \<and> get32 r 10 = mm_RecordId m
     \<and> drop 15 r = encode_fields (memo_fields ic m)"

lemma ParseDBData_memo_answer:
  assumes "memo_answer ic r m" "answer_data name r d"
  shows "ParseDBData memo_parse_class ic d = Inr m"
proof -
  have "15 \<le> length r" using assms(1) CheckSize_Inr_length by (auto simp: memo_answer_def record_answer_def)
  then have "contents (m_data d) = take 15 r @ encode_fields (memo_fields ic m)" "m_offset d = length (take 15 r)"
    using assms append_take_drop_id[of 15 r] by (simp_all add: memo_answer_def answer_data_def)
  then show ?thesis using assms
    by (intro ParseDBData_memo[of _ _ _ "take 15 r"]) (simp_all add: memo_answer_def answer_data_def)
qed

lemma send_all_stores:
  assumes "list_all2 (\<lambda>d m. ParseDBData cls ic d = Inr m) ds ms"
  shows "\<exists>p'. send_all (RecordParser_ParseRecord cls (Some append_store) ic) ds p = (Inr (), p') \<and> rp_store p' = rp_store p @ ms"
  using assms
proof (induction arbitrary: p rule: list_all2_induct)
  case (Cons d ds m ms)
  then show ?case
    using Cons.IH[of "\<lparr>rp_rec = m, m_record_valid = True, rp_store = rp_store p @ [m]\<rparr>"]
    by (auto simp: RecordParser_stores)
qed simp

text \<open>
  C3: Loading a database through a routed socket with a parser that stores the records: if the
  device answers with one packet per memo and then with DB_DONE, each answer arriving in
  fragments or whole and mixed with sequence packets and blanks, the store ends up with the
  memos, in their order, and the answers that were not asked for are still to come.
\<close>

theorem LoadDatabase_memos:
  assumes "GetDBCommand (m_commandTable dk) DatabaseAccess = Inr cmd" and "GetDBName (m_dbdb dk) dbId = Some name"
    and "sock_answers fuel (dk_link dk) (map (Pair 1) rs @ (1, fin) # rest)"
    and "list_all2 (memo_answer (m_ic dk)) rs ms" and "final_answer fin" and "length rs < fuel"
  shows "\<exists>c p. LoadDatabase (SocketBase_Packet (Socket_SyncSend h) (Socket_Receive h) fuel)
        (NextRecord (Socket_SyncSend h) (Socket_Receive h) fuel junk) fuel dbId
        (RecordParser_ParseRecord memo_parse_class (Some append_store))
        (dk, RecordParser_new memo_parse_class [])
      = (Inr (), dk\<lparr>dk_link := c\<rparr>, p) \<and> rp_store p = ms \<and> sock_answers fuel c rest"
proof -
  have "list_all record_answer rs"
    using assms(4) by (induction rule: list_all2_induct) (simp_all add: memo_answer_def)
  from socket_link.LoadDatabase_records[OF assms(1,3) this assms(5,6,2),
      where PR = "RecordParser_ParseRecord memo_parse_class (Some append_store)" and h = h and junk = junk]
  obtain ds where ds: "list_all2 (answer_data name) rs ds"
    and run: "\<And>p. \<exists>dk'. LoadDatabase (SocketBase_Packet (Socket_SyncSend h) (Socket_Receive h) fuel)
        (NextRecord (Socket_SyncSend h) (Socket_Receive h) fuel junk) fuel dbId
        (RecordParser_ParseRecord memo_parse_class (Some append_store)) (dk, p)
        = (fst (send_all (RecordParser_ParseRecord memo_parse_class (Some append_store) (m_ic dk)) ds p), dk',
           snd (send_all (RecordParser_ParseRecord memo_parse_class (Some append_store) (m_ic dk)) ds p))
      \<and> (\<forall>u. fst (send_all (RecordParser_ParseRecord memo_parse_class (Some append_store) (m_ic dk)) ds p) = Inr u
           \<longrightarrow> (\<exists>c. dk' = dk\<lparr>dk_link := c\<rparr> \<and> sock_answers fuel c rest))"
    by blast
  have "list_all2 (\<lambda>d m. ParseDBData memo_parse_class (m_ic dk) d = Inr m) ds ms"
    using ds assms(4) ParseDBData_memo_answer by (fastforce simp: list_all2_conv_all_nth)
  from send_all_stores[OF this, of "RecordParser_new memo_parse_class []"]
  obtain p' where p': "send_all (RecordParser_ParseRecord memo_parse_class (Some append_store) (m_ic dk)) ds
       (RecordParser_new memo_parse_class []) = (Inr (), p')" "rp_store p' = ms"
    by (auto simp: RecordParser_new_def)
  then show ?thesis using run[of "RecordParser_new memo_parse_class []"] by auto
qed

text \<open>The packets of a device that answers every request at once.\<close>

definition record_packets :: "bytes list \<Rightarrow> bytes list" where
  "record_packets responses = concat (map (\<lambda>r. ack # fragments r 0) responses)"

lemma fragments_arrive:
  assumes "6 \<le> length response" "length (fragments response 0) \<le> fuel"
  shows "arrives_as fuel (set_header response) (fragments response 0)"
proof -
  have "transcript (map (Pair []) (fragments response 0)) = fragments response 0"
    by (simp add: transcript_def comp_def)
  then show ?thesis unfolding arrives_as_def using assms
    by (intro disjI1 exI[of _ response] exI[of _ "map (Pair []) (fragments response 0)"])
       (simp add: comp_def list_all_iff gap_ok_def)
qed

lemma ack_ok: "IsSequencePacket ack" "length [ack] = 1"
  by (simp_all add: ack_def IsSequencePacket_def layout_simps get16_def)

lemma script_records:
  assumes "list_all (\<lambda>r. 6 \<le> length r \<and> length (fragments r 0) \<le> fuel) responses" "script fuel rest xs"
  shows "script fuel (map (Pair 1) (map set_header responses) @ rest) (record_packets responses @ xs)"
  using assms(1)
proof (induction responses)
  case Nil
  then show ?case using assms(2) by (simp add: record_packets_def)
next
  case (Cons r rs)
  then have "script fuel (map (Pair 1) (map set_header rs) @ rest) (record_packets rs @ xs)" by simp
  moreover have "arrives_as fuel (set_header r) (fragments r 0)" using Cons.prems by (simp add: fragments_arrive)
  ultimately show ?case
    by (simp add: record_packets_def) (rule exI[of _ "[ack]"], simp add: ack_ok, blast)
qed

text \<open>The sample memo as the device sends it.\<close>

definition sample_answer :: bytes where
  "sample_answer = [6, 0, 0, 0, 0x40, 0, 0, 0, 0, 0, 7, 0, 0, 0, 0] @ encode_fields (memo_fields None sample_memo)"

definition sample_final :: bytes where "sample_final = [6, 0, 7, 0, 0x41, 0, 0]"

lemma memo_ok_sample: "memo_ok None sample_memo"
  by (simp add: memo_ok_def unknowns_ok_def sample_memo_def text_ok_def from_bb_def to_bb_def category_ok_def CategoryList2Str_def)

lemma sample_answer_ok: "memo_answer None (set_header sample_answer) sample_memo" "fragments sample_answer 0 = [set_header sample_answer]"
proof -
  have e: "encode_fields (memo_fields None sample_memo) = [1, 0, 3, 0x6d, 7, 0, 4, 0x57, 0x2c, 0x20, 0x78, 0x20, 0x79, 0,
      2, 0, 1, 0x41, 0, 4, 0, 2, 0x42, 0x0d, 0x43, 0, 2, 0, 9, 1, 0]"
    by (simp add: encode_fields_def memo_fields_def sample_memo_def common_field_def to_bb_def CategoryList2Str_def le16_def memo_codes)
  have h: "set_header sample_answer = [6, 0, 46, 0, 0x40, 0, 0, 0, 0, 0, 7, 0, 0, 0, 0] @ encode_fields (memo_fields None sample_memo)"
    by (simp add: set_header_eq sample_answer_def e le16_def)
  show "memo_answer None (set_header sample_answer) sample_memo"
    unfolding memo_answer_def h
    by (simp add: memo_ok_sample record_answer_def CheckSize_ok_iff packet_size_field_def layout_simps get16_def get32_def e)
       (simp add: sample_memo_def)
  show "fragments sample_answer 0 = [set_header sample_answer]"
    unfolding h by (subst fragments.simps) (simp add: sample_answer_def e frag_packet_def le16_def)
qed

definition sample_desktop :: "bytes list \<Rightarrow> conn desktop" where
  "sample_desktop xs = (Desktop_new (sample_conn xs) None)\<lparr>m_commandTable := sample_commands,
     m_dbdb := [\<lparr>db_Number = 3, db_RecordCount = 2, db_Name = lit ''Memos''\<rparr>]\<rparr>"

lemma LoadDatabase_memos_witness:
  "\<exists>c p. LoadDatabase (SocketBase_Packet (Socket_SyncSend (\<lambda>_ bs. Inr bs)) (Socket_Receive (\<lambda>_ bs. Inr bs)) 5)
        (NextRecord (Socket_SyncSend (\<lambda>_ bs. Inr bs)) (Socket_Receive (\<lambda>_ bs. Inr bs)) 5 []) 5 3
        (RecordParser_ParseRecord memo_parse_class (Some append_store))
        (sample_desktop (record_packets [sample_answer, sample_answer] @ [ack, sample_final]), RecordParser_new memo_parse_class [])
      = (Inr (), (sample_desktop (record_packets [sample_answer, sample_answer] @ [ack, sample_final]))\<lparr>dk_link := c\<rparr>, p)
        \<and> rp_store p = [sample_memo, sample_memo]"
proof -
  let ?xs = "record_packets [sample_answer, sample_answer] @ [ack, sample_final]"
  let ?dk = "sample_desktop ?xs"
  let ?rs = "[set_header sample_answer, set_header sample_answer]"
  have fin: "CheckSize sample_final 5 = Inr ()" "byte_at sample_final 4 = 0x41"
    by (simp_all add: sample_final_def CheckSize_ok_iff packet_size_field_def layout_simps get16_def)
  then have "arrives_as 5 sample_final [sample_final]"
    unfolding arrives_as_def by (intro disjI2 exI[of _ "[]"]) (simp add: gap_ok_def)
  then have "script 5 [(1, sample_final)] [ack, sample_final]"
    by (simp only: script.simps, intro exI[of _ "[ack]"] exI[of _ "[sample_final]"] exI[of _ "[]"]) (simp add: ack_ok)
  then have "script 5 (map (Pair 1) ?rs @ [(1, sample_final)]) ?xs"
    using script_records[of 5 "[sample_answer, sample_answer]" "[(1, sample_final)]"] sample_answer_ok(2)
    by (simp add: sample_answer_def del: script.simps)
  then have "sock_answers 5 (dk_link ?dk) (map (Pair 1) ?rs @ (1, sample_final) # [])"
    using sample_conn_offers[of ?xs]
    by (simp add: sock_answers_def sample_desktop_def Desktop_new_def del: script.simps) blast
  moreover have "GetDBCommand (m_commandTable ?dk) DatabaseAccess = Inr 0x62" "GetDBName (m_dbdb ?dk) 3 = Some (lit ''Memos'')"
      "m_ic ?dk = None"
    by (simp_all add: sample_desktop_def GetDBCommand_def Desktop_new_def sample_commands_def)
  ultimately show ?thesis
    using LoadDatabase_memos[where dk = ?dk and cmd = "0x62" and dbId = 3 and name = "lit ''Memos''" and fuel = 5
          and rs = ?rs and fin = sample_final and rest = "[]" and ms = "[sample_memo, sample_memo]"
          and h = "\<lambda>_ bs. Inr bs" and junk = "[]"]
      sample_answer_ok(1) fin
    by (auto simp: final_answer_def simp del: script.simps)
qed

end
