(* ===== verification/Desktop_Save.thy ===== *)
theory Desktop_Save imports Desktop_Load begin

text \<open>
  Saving a database: the mode clears it and uploads record after record until the builder
  has no more or the device refuses one. The lemmas are proved over the interface
  \<open>record_link\<close>, the property for a routed socket.
\<close>

section \<open>What a builder uploads\<close>

text \<open>
  \<open>yields con dbId build d b reqs\<close>: from the state \<open>b\<close>, and with the command buffer \<open>d\<close>, the
  packets AddRecord makes of the builder's records are \<open>reqs\<close>, and then the builder ends.
\<close>

primrec yields :: "command list \<Rightarrow> u32 \<Rightarrow> ('b \<Rightarrow> 'b builder) \<Rightarrow> data \<Rightarrow> 'b \<Rightarrow> bytes list \<Rightarrow> bool" where
  "yields con dbId build d b [] \<longleftrightarrow> (case AddRecord con (DBPacket_new d) dbId (build b) of
     Inr (ready, p, b') \<Rightarrow> \<not> ready | Inl e \<Rightarrow> False)"
| "yields con dbId build d b (req # reqs) \<longleftrightarrow> (case AddRecord con (DBPacket_new d) dbId (build b) of
     Inr (ready, p, b') \<Rightarrow> ready \<and> req = contents (m_send p) \<and> yields con dbId build (m_send p) b' reqs | Inl e \<Rightarrow> False)"

definition done_answer :: "bytes \<Rightarrow> byte \<Rightarrow> bool" where
  "done_answer r code \<longleftrightarrow> CheckSize r 7 = Inr () \<and> byte_at r 4 = 0x41 \<and> byte_at r 6 = code"

lemma done_answer_codes:
  assumes "done_answer r code"
  shows "Packet_Command r = Inr 0x41" "ReturnCode r = Inr code"
proof -
  have "CheckSize r 5 = Inr ()" "7 \<le> length r"
    using assms CheckSize_mono[of r 7 5] CheckSize_Inr_length[of r 7 "()"] by (simp_all add: done_answer_def)
  then show "Packet_Command r = Inr 0x41" "ReturnCode r = Inr code"
    using assms by (simp_all add: done_answer_def ReturnCode_def Packet_Command_def layout_simps rd8_def)
qed

text \<open>The outcome the return codes decide, and how many uploads are sent.\<close>

definition save_outcome :: "byte list \<Rightarrow> unit res" where
  "save_outcome codes = (case dropWhile (\<lambda>c. c = 0) codes of [] \<Rightarrow> Inr () | c # _ \<Rightarrow> Inl (ReturnCodeError 0x41 c))"

definition accepted :: "byte list \<Rightarrow> nat" where "accepted codes = length (takeWhile (\<lambda>c. c = 0) codes)"

section \<open>The loop\<close>

context record_link begin

lemma transact_answered:
  assumes "answers (dk_link dk) ((cost (contents (m_command dk)), r) # rs)" "sendable (contents (m_command dk))" "data_ok (m_response dk)"
  shows "\<exists>s' d. transact Packet dk = (Inr (), dk\<lparr>dk_link := s', m_response := d\<rparr>) \<and> answers s' rs \<and> data_ok d \<and> contents d = r
    \<and> written s' = written (dk_link dk) @ wire (dk_link dk) (contents (m_command dk)) \<and> wire s' = wire (dk_link dk)"
proof -
  obtain s' where s: "Packet (contents (m_command dk)) (dk_link dk) = (Inr r, s')" "answers s' rs"
      "written s' = written (dk_link dk) @ wire (dk_link dk) (contents (m_command dk))" "wire s' = wire (dk_link dk)"
    using Packet_answered[OF assms(1,2)] by blast
  obtain d where "assign (m_response dk) (buffer_with r) = Inr d" "data_ok d" "contents d = r"
    using assign_buffer[OF assms(3)] by blast
  then show ?thesis using s
    by (intro exI[of _ s'] exI[of _ d]) (simp add: transact_def exchange_def zoom_def bnd_def)
qed

lemma upload_answered:
  assumes "answers (dk_link dk) ((cost (contents (m_command dk)), r) # rs)" "sendable (contents (m_command dk))" "data_ok (m_response dk)"
    and "done_answer r code"
  shows "\<exists>s' d. bnd (transact Packet) (\<lambda>_. check_return_code) dk
      = (if code = 0 then Inr () else Inl (ReturnCodeError 0x41 code), dk\<lparr>dk_link := s', m_response := d\<rparr>)
    \<and> answers s' rs \<and> data_ok d \<and> written s' = written (dk_link dk) @ wire (dk_link dk) (contents (m_command dk)) \<and> wire s' = wire (dk_link dk)"
proof -
  obtain s' d where "transact Packet dk = (Inr (), dk\<lparr>dk_link := s', m_response := d\<rparr>)" "answers s' rs" "data_ok d" "contents d = r"
      "written s' = written (dk_link dk) @ wire (dk_link dk) (contents (m_command dk))" "wire s' = wire (dk_link dk)"
    using transact_answered[OF assms(1-3)] by blast
  then show ?thesis using done_answer_codes[OF assms(4)]
    by (intro exI[of _ s'] exI[of _ d]) (simp add: check_return_code_def response_command_def layout_simps)
qed

lemma SaveDatabase_loop_uploads:
  assumes "answers (dk_link dk) (zip (map cost reqs) as @ rest)" "list_all2 done_answer as codes" "length as = length reqs"
    and "yields (m_commandTable dk) dbId (build (m_ic dk)) (m_command dk) b reqs" "list_all sendable reqs"
    and "data_ok (m_response dk)" "length reqs < fuel"
  shows "\<exists>dk' b'. SaveDatabase_loop Packet dbId build fuel (dk, b) = (save_outcome codes, dk', b')
    \<and> written (dk_link dk') = written (dk_link dk) @ concat (map (wire (dk_link dk)) (take (Suc (accepted codes)) reqs))
    \<and> (save_outcome codes = Inr () \<longrightarrow> answers (dk_link dk') rest)"
  using assms
proof (induction reqs arbitrary: dk b as codes fuel)
  case Nil
  obtain n where n: "fuel = Suc n" using Nil.prems(7) by (cases fuel) auto
  obtain p b' where a: "AddRecord (m_commandTable dk) (DBPacket_new (m_command dk)) dbId (build (m_ic dk) b) = Inr (False, p, b')"
    using Nil.prems(4) by (auto split: sum.splits prod.splits)
  have "codes = []" using Nil.prems(2,3) by simp
  then show ?case using Nil.prems(1) a by (auto simp: n upload_def save_outcome_def bnd_def ret_def)
next
  case (Cons req reqs)
  obtain n where n: "fuel = Suc n" using Cons.prems(7) by (cases fuel) auto
  obtain p b1 where a: "AddRecord (m_commandTable dk) (DBPacket_new (m_command dk)) dbId (build (m_ic dk) b) = Inr (True, p, b1)"
      "req = contents (m_send p)" "yields (m_commandTable dk) dbId (build (m_ic dk)) (m_send p) b1 reqs"
    using Cons.prems(4) by (auto split: sum.splits prod.splits)
  obtain r as' where as: "as = r # as'" "length as' = length reqs" using Cons.prems(3) by (cases as) auto
  obtain code codes' where codes: "codes = code # codes'" "done_answer r code" "list_all2 done_answer as' codes'"
    using Cons.prems(2) as by (cases codes) auto
  define dk1 where "dk1 = dk\<lparr>m_command := m_send p\<rparr>"
  have "answers (dk_link dk1) ((cost (contents (m_command dk1)), r) # zip (map cost reqs) as' @ rest)" "sendable (contents (m_command dk1))"
      "data_ok (m_response dk1)"
    using Cons.prems(1,5,6) a(2) as by (simp_all add: dk1_def)
  from upload_answered[OF this codes(2)] obtain s' d where u:
      "bnd (transact Packet) (\<lambda>_. check_return_code) dk1
        = (if code = 0 then Inr () else Inl (ReturnCodeError 0x41 code), dk1\<lparr>dk_link := s', m_response := d\<rparr>)"
      "answers s' (zip (map cost reqs) as' @ rest)" "data_ok d" "written s' = written (dk_link dk) @ wire (dk_link dk) req"
      "wire s' = wire (dk_link dk)"
    using a(2) by (auto simp: dk1_def)
  define dk2 where "dk2 = dk1\<lparr>dk_link := s', m_response := d\<rparr>"
  have step: "SaveDatabase_loop Packet dbId build fuel (dk, b)
      = (if code = 0 then SaveDatabase_loop Packet dbId build n (dk2, b1) else (Inl (ReturnCodeError 0x41 code), dk2, b1))"
    using a(1) u(1) by (simp add: n upload_def dk1_def[symmetric] dk2_def zoom_def bnd_def)
  show ?case
  proof (cases "code = 0")
    case True
    have "answers (dk_link dk2) (zip (map cost reqs) as' @ rest)" "yields (m_commandTable dk2) dbId (build (m_ic dk2)) (m_command dk2) b1 reqs"
        "data_ok (m_response dk2)" "list_all sendable reqs" "length reqs < n"
      using u(2,3) a(3) Cons.prems(5,7) n by (simp_all add: dk2_def dk1_def)
    from Cons.IH[OF this(1) codes(3) as(2) this(2,4,3,5)] show ?thesis
      using True step u(4,5) by (simp add: codes(1) save_outcome_def accepted_def dk2_def dk1_def)
  next
    case False
    then show ?thesis using step u(4) by (simp add: codes(1) save_outcome_def accepted_def dk2_def dk1_def)
  qed
qed

lemma SaveDatabase_run:
  assumes "GetDBCommand (m_commandTable dk) DatabaseAccess = Inr cmd" "data_ok (m_command dk)" "data_ok (m_response dk)"
    and "ClearDatabase (m_commandTable dk) (DBPacket_new (m_command dk)) dbId = Inr p"
    and "answers (dk_link dk) ((1, r) # zip (map cost reqs) as @ rest)" "done_answer r 0"
    and "list_all2 done_answer as codes" "length as = length reqs"
    and "yields (m_commandTable dk) dbId (build (m_ic dk)) (m_send p) b reqs" "list_all sendable reqs" "length reqs < fuel"
  shows "\<exists>dk' b'. SaveDatabase Packet fuel dbId build (dk, b) = (save_outcome codes, dk', b')
    \<and> written (dk_link dk') = written (dk_link dk) @ wire (dk_link dk) (contents (m_send p))
        @ concat (map (wire (dk_link dk)) (take (Suc (accepted codes)) reqs))
    \<and> (save_outcome codes = Inr () \<longrightarrow> answers (dk_link dk') rest)"
proof -
  define dk1 where "dk1 = dk\<lparr>m_command := m_send p\<rparr>"
  have "db_request p (ucast cmd) 0x43 (le16 (ucast dbId))"
    using DBPacket_requests_facts[OF assms(1), of "DBPacket_new (m_command dk)" dbId] assms(2,4) by (auto simp: DBPacket_new_def)
  note req = db_request_sendable[OF this]
  have "answers (dk_link dk1) ((cost (contents (m_command dk1)), r) # zip (map cost reqs) as @ rest)" "sendable (contents (m_command dk1))"
      "data_ok (m_response dk1)"
    using assms(3,5) req cost_short[of "contents (m_send p)"] by (simp_all add: dk1_def)
  from transact_answered[OF this] obtain s' d where t: "transact Packet dk1 = (Inr (), dk1\<lparr>dk_link := s', m_response := d\<rparr>)"
      "answers s' (zip (map cost reqs) as @ rest)" "data_ok d" "contents d = r"
      "written s' = written (dk_link dk) @ wire (dk_link dk) (contents (m_send p))" "wire s' = wire (dk_link dk)"
    by (auto simp: dk1_def)
  define dk2 where "dk2 = dk1\<lparr>dk_link := s', m_response := d\<rparr>"
  have "Desktop_ClearDatabase Packet dbId dk = (Inr (), dk2)"
    using t(1,4) done_answer_codes[OF assms(6)] assms(4)
    by (simp add: Desktop_ClearDatabase_def build_request_def dk1_def[symmetric] dk2_def response_command_def layout_simps bnd_def)
  then have "SaveDatabase Packet fuel dbId build (dk, b) = SaveDatabase_loop Packet dbId build fuel (dk2, b)"
    by (simp add: SaveDatabase_def zoom_def bnd_def)
  moreover have "answers (dk_link dk2) (zip (map cost reqs) as @ rest)" "data_ok (m_response dk2)"
      "yields (m_commandTable dk2) dbId (build (m_ic dk2)) (m_command dk2) b reqs"
    using t(2,3) assms(9) by (simp_all add: dk2_def dk1_def)
  from SaveDatabase_loop_uploads[where build = build, OF this(1) assms(7,8) this(3) assms(10) this(2) assms(11)]
  obtain dk' b' where "SaveDatabase_loop Packet dbId build fuel (dk2, b) = (save_outcome codes, dk', b')"
    "written (dk_link dk') = written s' @ concat (map (wire s') (take (Suc (accepted codes)) reqs))"
    "save_outcome codes = Inr () \<longrightarrow> answers (dk_link dk') rest"
    by (auto simp: dk2_def)
  ultimately show ?thesis using t(5,6) by simp
qed

end

section \<open>Saving through a socket\<close>

text \<open>
  C4: SaveDatabase through a routed socket writes the request that clears the database and then
  the uploads the builder yields, each once and in order. If the device answers each with
  DB_DONE and a return code, the first code other than 0 ends it: that code is thrown, the
  upload it answers is the last one written, and the records of the device before it stay.
\<close>

theorem SaveDatabase_uploads:
  assumes "GetDBCommand (m_commandTable dk) DatabaseAccess = Inr cmd" and "data_ok (m_command dk)" and "data_ok (m_response dk)"
    and "ClearDatabase (m_commandTable dk) (DBPacket_new (m_command dk)) dbId = Inr p"
    and "yields (m_commandTable dk) dbId (build (m_ic dk)) (m_send p) b reqs" and "list_all sendable reqs" and "length reqs < fuel"
    and "sock_answers fuel (dk_link dk) ((1, r) # zip (map (\<lambda>req. length (transfers req)) reqs) as @ rest)"
    and "done_answer r 0" and "list_all2 done_answer as codes" and "length as = length reqs"
  shows "\<exists>dk' b'. SaveDatabase (SocketBase_Packet (Socket_SyncSend h) (Socket_Receive h) fuel) fuel dbId build (dk, b)
        = (save_outcome codes, dk', b')
    \<and> sent (zr (dk_link dk')) = sent (zr (dk_link dk)) @ wire_of (dk_link dk) (contents (m_send p))
        @ concat (map (wire_of (dk_link dk)) (take (Suc (accepted codes)) reqs))
    \<and> (save_outcome codes = Inr () \<longrightarrow> sock_answers fuel (dk_link dk') rest)"
  by (rule socket_link.SaveDatabase_run[where build = build and fuela = fuel, OF assms(1-4,8-11,5-7)])

text \<open>A builder with three bytes of payload per record, and how many records are left.\<close>

definition sample_uploads :: "nat \<Rightarrow> nat builder" where
  "sample_uploads k d offset = (if k = 0 then Inr (False, d, 0)
     else rbind (sample_builder d offset) (\<lambda>(_, d', _). Inr (True, d', k - 1)))"

lemma sample_yields:
  assumes "GetDBCommand con DatabaseAccess = Inr cmd"
  shows "\<exists>reqs. length reqs = k \<and> list_all (\<lambda>r. sendable r \<and> length r \<le> 0x400) reqs \<and> yields con dbId sample_uploads d k reqs"
proof (induction k arbitrary: d)
  case 0
  then show ?case by (simp add: sample_uploads_def AddRecord_def Let_def)
next
  case (Suc k)
  define s where "s = (DBData_data [] (m_send (DBPacket_new d)) False)\<lparr>m_recType := 7, m_uniqueId := 9,
     m_data := Data_external (replicate 15 0 @ [1, 2, 3]) 18\<rparr>"
  have b: "sample_uploads (Suc k) (DBData_data [] (m_send (DBPacket_new d)) False) 15 = Inr (True, s, k)"
    by (simp add: sample_uploads_def sample_builder_def s_def)
  have s: "data_ok (m_data s)" "dsize (m_data s) = 18" "contents (m_data s) = replicate 15 0 @ [1, 2, 3]"
    by (simp_all add: s_def data_external_ok contents_external dsize_external)
  have "15 \<le> dsize (m_data s)" by (simp only: s(2))
  from AddRecord_payload[where build = "sample_uploads (Suc k)" and p = "DBPacket_new d" and db = dbId, OF assms b s(1) this]
  obtain p s0 s1 where p: "AddRecord con (DBPacket_new d) dbId (sample_uploads (Suc k)) = Inr (True, p, k)"
      "contents (m_send p) = [s0, s1] @ (le16 (word_of_nat 18) @ [0x40, ucast cmd, 0x41] @ le16 (ucast dbId) @ [m_recType s]
         @ le32 (m_uniqueId s) @ [1]) @ drop 15 (replicate 15 0 @ [1, 2, 3])"
    unfolding s(2,3) by blast
  have "sendable (contents (m_send p))" "length (contents (m_send p)) \<le> 0x400"
    unfolding p(2) by (simp_all add: sendable_def le16_def le32_def)
  then show ?case using Suc[of "m_send p"] p(1) by (auto intro: exI[of _ "contents (m_send p) # _"])
qed

lemma done_arrives: "arrives_as (Suc n) [6, 0, 7, 0, 0x41, c, code] [[6, 0, 7, 0, 0x41, c, code]]"
  unfolding arrives_as_def
  by (intro disjI2 exI[of _ "[]"]) (simp add: gap_ok_def CheckSize_ok_iff packet_size_field_def layout_simps get16_def)

lemma done_script:
  "script (Suc n) (map (\<lambda>code. (1, [6, 0, 7, 0, 0x41, c, code])) codes) (concat (map (\<lambda>code. [ack, [6, 0, 7, 0, 0x41, c, code]]) codes))"
proof (induction codes)
  case (Cons code codes)
  then show ?case
    using done_arrives[of n c code]
    by simp (rule exI[of _ "[ack]"], rule exI[of _ "[[6, 0, 7, 0, 0x41, c, code]]"], simp add: ack_ok)
qed simp

lemma SaveDatabase_uploads_witness:
  "\<exists>dk' b'. SaveDatabase (SocketBase_Packet (Socket_SyncSend (\<lambda>_ bs. Inr bs)) (Socket_Receive (\<lambda>_ bs. Inr bs)) 5) 5 3 (\<lambda>_. sample_uploads)
      (sample_desktop (concat (map (\<lambda>code. [ack, [6, 0, 7, 0, 0x41, 0x62, code]]) [0, 0, 9, 0])), 3)
    = (Inl (ReturnCodeError 0x41 9), dk', b')"
proof -
  let ?done = "\<lambda>code. [6, 0, 7, 0, 0x41, 0x62, code] :: bytes"
  let ?xs = "concat (map (\<lambda>code. [ack, ?done code]) [0, 0, 9, 0])"
  let ?dk = "sample_desktop ?xs"
  have dk: "GetDBCommand (m_commandTable ?dk) DatabaseAccess = Inr 0x62" "data_ok (m_command ?dk)" "data_ok (m_response ?dk)"
    by (simp_all add: sample_desktop_def GetDBCommand_def Desktop_new_def sample_commands_def data_default_ok)
  obtain p where p: "ClearDatabase (m_commandTable ?dk) (DBPacket_new (m_command ?dk)) 3 = Inr p"
    using DBPacket_requests_facts[OF dk(1), of "DBPacket_new (m_command ?dk)" 3] dk(2) by (auto simp: DBPacket_new_def)
  obtain reqs where reqs: "length reqs = 3" "list_all (\<lambda>r. sendable r \<and> length r \<le> 0x400) reqs"
      "yields (m_commandTable ?dk) 3 sample_uploads (m_send p) 3 reqs"
    using sample_yields[OF dk(1)] by blast
  have "map (\<lambda>req. length (transfers req)) reqs = map (\<lambda>_. 1) reqs"
    using reqs(2) transfers_short by (auto simp: list_all_iff)
  then have costs: "map (\<lambda>req. length (transfers req)) reqs = [1, 1, 1]" using reqs(1) by (simp add: map_replicate_const numeral_eq_Suc)
  have "script 5 (map (\<lambda>code. (1, ?done code)) [0, 0, 9, 0]) ?xs" using done_script[where n = 4 and c = "0x62" and codes = "[0, 0, 9, 0]"] by (simp del: script.simps)
  then have "sock_answers 5 (dk_link ?dk) ((1, ?done 0) # zip (map (\<lambda>req. length (transfers req)) reqs) (map ?done [0, 9, 0]) @ [])"
    using sample_conn_offers[of ?xs] unfolding costs
    by (simp add: sock_answers_def sample_desktop_def Desktop_new_def del: script.simps) blast
  moreover have "done_answer (?done code) code" for code
    by (simp add: done_answer_def CheckSize_ok_iff packet_size_field_def layout_simps get16_def)
  then have "done_answer (?done 0) 0" "list_all2 done_answer (map ?done [0, 9, 0]) [0, 9, 0]" by simp_all
  moreover have "yields (m_commandTable ?dk) 3 ((\<lambda>_. sample_uploads) (m_ic ?dk)) (m_send p) 3 reqs" using reqs(3) by simp
  moreover have "list_all sendable reqs" "length reqs < 5" "length (map ?done [0, 9, 0]) = length reqs"
    using reqs(1,2) by (simp_all add: list_all_iff)
  moreover have "save_outcome [0, 9, 0] = Inl (ReturnCodeError 0x41 9)" by (simp add: save_outcome_def)
  ultimately show ?thesis
    using SaveDatabase_uploads[where build = "\<lambda>_. sample_uploads" and h = "\<lambda>_ bs. Inr bs" and rest = "[]", OF dk p] by metis
qed

end
