(* ===== verification/Device_Transfer.thy ===== *)
theory Device_Transfer imports Db_Loader begin

text \<open>
  What DeviceBuilder and DeviceParser (src/src/m_desktop.cc) make of a transfer: the size of the
  records the builder places, the order in which the parser clears and writes databases, and
  the records it writes in callback mode.
\<close>

section \<open>The records DeviceBuilder places\<close>

lemma place_record_size:
  assumes "data_ok (m_data d)" "data_ok (m_data temp)" "k = length (drop (m_offset temp) (contents (m_data temp)))"
    and "k = dsize (m_data temp) - m_offset temp"
  shows "(\<exists>d'. place_record temp d offset = Inr d' \<and> length (contents (m_data d')) = offset + 2 * k
        \<and> take k (drop offset (contents (m_data d'))) = drop (m_offset temp) (contents (m_data temp)))
     \<or> place_record temp d offset
         = Inl (LogicError ''Data::ReleaseBuffer() must be called with a size smaller than the original buffer requested'')"
proof -
  define d1 where "d1 = SetOffset offset (SetIds (m_recType temp) (m_uniqueId temp) (SetDBName (m_dbName temp) (SetVersion (m_version temp) d)))"
  have d1: "m_data d1 = m_data d" by (simp add: d1_def SetOffset_def SetIds_def SetDBName_def SetVersion_def)
  define src where "src = drop (m_offset temp) (contents (m_data temp))"
  obtain b0 where b0: "GetBuffer (m_data d) 0 = Inr b0" using GetBuffer_total by blast
  note e0 = GetBuffer_eqs[OF b0 assms(1)]
  obtain b1 where b1: "GetBuffer b0 (offset + k) = Inr b1" using GetBuffer_total by blast
  note e1 = GetBuffer_eqs[OF b1 e0(1)]
  have room: "dstart b1 + (offset + k) \<le> length (mem b1)" "dstart b1 + dsize b1 \<le> length (mem b1)"
    using e1 by (auto simp: data_ok_def split: if_splits)
  define b2 where "b2 = b1\<lparr>mem := poke (dstart b1 + offset) src (mem b1), dsize := max (dsize b1) (offset + k)\<rparr>"
  have src: "length src = k" using assms(3) by (simp add: src_def)
  have cpy: "MemCpy b0 offset src = Inr (b2, offset + k)"
    using b1 src by (cases b1) (auto simp: MemCpy_def Let_def b2_def max_def)
  have len: "length (mem b2) = length (mem b1)" using room src by (simp add: b2_def poke_def)
  have b2: "data_ok b2" "\<not> external b2" "dstart b2 = dstart b1" "dsize b2 = max (dsize b1) (offset + k)"
    using e1(3) room len by (auto simp: data_ok_def b2_def)
  have "drop offset (contents b2) = take (dsize b2 - offset) (drop (dstart b1 + offset) (mem b2))"
    using b2(2,3) by (simp add: contents_internal drop_take add.commute)
  then have cont: "take k (drop offset (contents b2)) = src"
    using src room by (simp add: b2_def min_def take_drop_poke)
  obtain b3 where b3: "GetBuffer b2 0 = Inr b3" using GetBuffer_total by blast
  note e3 = GetBuffer_eqs[OF b3 b2(1)]
  define n where "n = offset + k + k"
  have place: "place_record temp d offset = rbind (ReleaseBuffer b3 (int n)) (\<lambda>b'. Inr (d1\<lparr>m_data := b'\<rparr>))"
    using b0 cpy b3 assms(4)
    by (simp add: place_record_def d1_def[symmetric] Let_def UseData_def d1 src_def[symmetric] n_def)
  show ?thesis
  proof (cases "n \<le> GetBufSize b3")
    case True
    then have r: "place_record temp d offset = Inr (d1\<lparr>m_data := b3\<lparr>dsize := n\<rparr>\<rparr>)"
      using place e3(3) by (simp add: ReleaseBuffer_size)
    have "take k (drop offset (contents (b3\<lparr>dsize := n\<rparr>))) = take k (drop offset (contents b3))"
      unfolding n_def using e3(3,5) b2(4) True[unfolded n_def] by (simp add: contents_internal drop_take GetBufSize_def min_def)
    then have "take k (drop offset (contents (b3\<lparr>dsize := n\<rparr>))) = src" using cont e3(2) by simp
    moreover have "length (contents (b3\<lparr>dsize := n\<rparr>)) = offset + 2 * k"
      using e3(3) True by (simp add: contents_internal GetBufSize_def n_def)
    ultimately show ?thesis using r by (simp add: src_def)
  next
    case False
    then show ?thesis using place e3(3) by (simp add: ReleaseBuffer_def)
  qed
qed

text \<open>
  DeviceBuilder::BuildRecord counts the record twice: MemCpy has already moved the offset
  behind the record when its size is added once more for ReleaseBuffer. Unless the record is
  empty, the object ends up with as many bytes too many as the record has, or, where the
  buffer has no room for them, ReleaseBuffer throws.
\<close>

theorem BuildRecord_counts_twice:
  assumes "data_ok (m_data d)" and "data_ok (m_data temp)" and "m_offset temp < dsize (m_data temp)"
    and "payload = drop (m_offset temp) (contents (m_data temp))"
  shows "case place_record temp d offset of
      Inl e \<Rightarrow> e = LogicError ''Data::ReleaseBuffer() must be called with a size smaller than the original buffer requested''
    | Inr d' \<Rightarrow> (\<exists>surplus. drop offset (contents (m_data d')) = payload @ surplus \<and> length surplus = length payload \<and> surplus \<noteq> [])"
proof -
  define k where "k = dsize (m_data temp) - m_offset temp"
  have k: "k = length payload" "0 < k" using assms(2,3) by (simp_all add: k_def assms(4))
  consider (ok) d' where "place_record temp d offset = Inr d'" "length (contents (m_data d')) = offset + 2 * k"
      "take k (drop offset (contents (m_data d'))) = payload"
    | (bad) "place_record temp d offset
         = Inl (LogicError ''Data::ReleaseBuffer() must be called with a size smaller than the original buffer requested'')"
    using place_record_size[OF assms(1,2), of k offset] k(1) k_def assms(4) by auto
  then show ?thesis
  proof cases
    case ok
    have "drop offset (contents (m_data d')) = payload @ drop k (drop offset (contents (m_data d')))"
      using ok(3) append_take_drop_id[of k "drop offset (contents (m_data d'))"] by simp
    moreover have "length (drop k (drop offset (contents (m_data d')))) = k" using ok(2) by simp
    ultimately show ?thesis using ok(1) k by (auto intro!: exI[of _ "drop k (drop offset (contents (m_data d')))"])
  next
    case bad
    then show ?thesis by simp
  qed
qed

definition fetched_record :: dbdata where
  "fetched_record = DBData_empty\<lparr>m_offset := 2, m_data := \<lparr>mem = [9, 9, 1, 2, 3], dstart = 0, dsize = 5, extdata = [],
     external = False, endpoint = 0\<rparr>\<rparr>"

definition target_record :: dbdata where
  "target_record = DBData_empty\<lparr>m_data := \<lparr>mem = replicate 12 0, dstart = 1, dsize = 0, extdata = [],
     external = False, endpoint = 0\<rparr>\<rparr>"

lemma BuildRecord_counts_twice_witness:
  "\<exists>d' surplus. place_record fetched_record target_record 1 = Inr d' \<and> drop 1 (contents (m_data d')) = [1, 2, 3] @ surplus
     \<and> length surplus = 3"
proof -
  define b where "b = m_data target_record"
  have b: "GetBuffer b 0 = Inr b" "GetBuffer b 4 = Inr b"
    using GetBuffer_0_room[of b 4] GetBuffer_room[of b 4] by (simp_all add: b_def target_record_def has_room_def)
  have g: "GetBuffer b (Suc (Suc (Suc (Suc 0)))) = Inr b" using b(2) by (simp add: numeral_eq_Suc)
  define b1 where "b1 = b\<lparr>mem := poke 2 [1, 2, 3] (mem b), dsize := 4\<rparr>"
  have b1: "GetBuffer b1 0 = Inr b1"
    using GetBuffer_0_room[of b1 4] by (simp add: b1_def b_def target_record_def has_room_def poke_def)
  have "drop 2 (contents (m_data fetched_record)) = [1, 2, 3]" by (simp add: fetched_record_def contents_def)
  moreover have "m_offset fetched_record = 2" "dsize (m_data fetched_record) = 5" by (simp_all add: fetched_record_def)
  moreover have "MemCpy b 1 [1, 2, 3] = Inr (b1, 4)"
    using g by (simp add: MemCpy_def b1_def) (simp add: b_def target_record_def numeral_eq_Suc)
  moreover have "ReleaseBuffer b1 7 = Inr (b1\<lparr>dsize := 7\<rparr>)"
    by (simp add: ReleaseBuffer_def b1_def b_def target_record_def GetBufSize_def poke_def)
  ultimately have "\<exists>d'. place_record fetched_record target_record 1 = Inr d'"
    using b(1) b1 by (simp add: place_record_def Let_def UseData_def SetOffset_def SetIds_def SetDBName_def SetVersion_def b_def[symmetric])
  then obtain d' where d': "place_record fetched_record target_record 1 = Inr d'" by blast
  have "data_ok (m_data target_record)" "data_ok (m_data fetched_record)" "m_offset fetched_record < dsize (m_data fetched_record)"
    by (simp_all add: target_record_def fetched_record_def data_ok_def)
  moreover have "[1, 2, 3] = drop (m_offset fetched_record) (contents (m_data fetched_record))"
    by (simp add: fetched_record_def contents_def)
  ultimately have "\<exists>surplus. drop 1 (contents (m_data d')) = [1, 2, 3] @ surplus \<and> length surplus = length [1, 2, 3 :: byte] \<and> surplus \<noteq> []"
    using BuildRecord_counts_twice[of target_record fetched_record "[1, 2, 3]" 1] unfolding d' by (simp del: append.simps)
  then show ?thesis using d' by auto
qed

section \<open>The records DeviceParser writes\<close>

text \<open>The copy WriteNext makes, and what adding a record of the device parser's database comes to.\<close>

definition local_copy :: "dbdata \<Rightarrow> dbdata" where
  "local_copy d = DBData_memory_meta (m_version d) (m_dbName d) (m_recType d) (m_uniqueId d) (m_offset d)
     (contents (m_data d)) (dsize (m_data d))"

definition add_copy :: "(bytes \<Rightarrow> ('s, bytes) st) \<Rightarrow> u32 \<Rightarrow> dbdata \<Rightarrow> ('s desktop \<times> device_parser, unit) st" where
  "add_copy Packet ident d = on_desktop (Desktop_AddRecord Packet ident (data_builder (local_copy d)))"

lemma GetIndex_empty: "GetIndex (RecordStateTable_Clear t) i = None" "GetIndex RecordStateTable_new i = None"
  by (simp_all add: GetIndex_def RecordStateTable_Clear_def RecordStateTable_new_def)

lemma clear_is_new: "RecordStateTable_Clear t = RecordStateTable_new"
  by (simp add: RecordStateTable_Clear_def RecordStateTable_new_def)

lemma WriteNext_adds:
  assumes "decided_mode DecideWrite dp d \<in> {ERASE_ALL_WRITE_ALL}
     \<or> (decided_mode DecideWrite dp d \<in> {INDIVIDUAL_OVERWRITE, ADD_BUT_NO_OVERWRITE} \<and> GetIndex (m_rstate dp) (m_uniqueId d) = None)"
  shows "WriteNext Packet DecideWrite d (dk, dp) = add_copy Packet (m_current_dbid dp) d (dk, dp)"
  using assms by (auto simp: WriteNext_def Let_def add_copy_def local_copy_def DBData_memory_meta_def)

lemma on_desktop_keeps: "on_desktop m (dk, dp) = (r, s) \<Longrightarrow> snd s = dp"
  by (auto simp: on_desktop_def split: prod.splits)

text \<open>
  C36: DeviceParser in the mode ERASE_ALL_WRITE_ALL, given the records of one database: the
  database is cleared once, before the first record, and then every record is added, in
  order, up to the first failure.
\<close>

theorem erase_all_clears_once:
  assumes "m_mode dp = ERASE_ALL_WRITE_ALL" and "GetDBNumber (m_dbdb dk) name = Some ident" and "m_current_db dp \<noteq> name"
    and "m_dbName d = name" and "\<forall>d' \<in> set ds. m_dbName d' = name"
  shows "send_all (DeviceParser_ParseRecord Packet Next fuel DecideWrite) (d # ds) (dk, dp)
    = bnd (zoom fst apfst (Desktop_ClearDatabase Packet ident)) (\<lambda>_. send_all (add_copy Packet ident) (d # ds))
        (dk, dp\<lparr>m_rstate := RecordStateTable_new, m_current_db := name, m_current_dbid := ident\<rparr>)"
proof -
  define dp1 where "dp1 = dp\<lparr>m_rstate := RecordStateTable_new, m_current_db := name, m_current_dbid := ident\<rparr>"
  have dp1: "m_mode dp1 = ERASE_ALL_WRITE_ALL" "m_current_db dp1 = name" "m_current_dbid dp1 = ident"
    using assms(1) by (simp_all add: dp1_def)
  have adds: "WriteNext Packet DecideWrite e (dk', dp1) = add_copy Packet ident e (dk', dp1)" for e dk'
    using WriteNext_adds[of DecideWrite dp1 e Packet dk'] dp1 by (simp add: decided_mode_def)
  have rest: "send_all (DeviceParser_ParseRecord Packet Next fuel DecideWrite) es (dk', dp1)
      = send_all (add_copy Packet ident) es (dk', dp1)" if "\<forall>e \<in> set es. m_dbName e = name" for es dk'
    using that
  proof (induction es arbitrary: dk')
    case (Cons e es)
    obtain r s where r: "add_copy Packet ident e (dk', dp1) = (r, s)" by (cases "add_copy Packet ident e (dk', dp1)")
    then have "s = (fst s, dp1)" using on_desktop_keeps[of _ dk' dp1] by (cases s) (auto simp: add_copy_def)
    moreover have "DeviceParser_ParseRecord Packet Next fuel DecideWrite e (dk', dp1) = (r, s)"
      using Cons.prems dp1 adds r by (simp add: DeviceParser_ParseRecord_def)
    ultimately show ?case using r Cons.IH[of "fst s"] Cons.prems by (cases r) (simp_all add: bnd_def)
  qed simp
  have "DeviceParser_ParseRecord Packet Next fuel DecideWrite d (dk, dp)
      = bnd (zoom fst apfst (Desktop_ClearDatabase Packet ident)) (\<lambda>_. WriteNext Packet DecideWrite d) (dk, dp1)"
    using assms by (simp add: DeviceParser_ParseRecord_def StartDB_def clear_is_new decided_mode_def dp1_def)
  then have "send_all (DeviceParser_ParseRecord Packet Next fuel DecideWrite) (d # ds) (dk, dp)
      = bnd (zoom fst apfst (Desktop_ClearDatabase Packet ident)) (\<lambda>_. bnd (WriteNext Packet DecideWrite d)
          (\<lambda>_. send_all (DeviceParser_ParseRecord Packet Next fuel DecideWrite) ds)) (dk, dp1)"
    by (simp add: bnd_def split: prod.split sum.split)
  also have "\<dots> = bnd (zoom fst apfst (Desktop_ClearDatabase Packet ident)) (\<lambda>_. send_all (add_copy Packet ident) (d # ds)) (dk, dp1)"
  proof (cases "Desktop_ClearDatabase Packet ident dk")
    case (Pair r dk2)
    obtain q s where q: "add_copy Packet ident d (dk2, dp1) = (q, s)" by (cases "add_copy Packet ident d (dk2, dp1)")
    then have "s = (fst s, dp1)" using on_desktop_keeps[of _ dk2 dp1] by (cases s) (auto simp: add_copy_def)
    then show ?thesis using Pair q adds[of d dk2] rest[OF assms(5), of "fst s"]
      by (cases r; cases q) (simp_all add: zoom_def bnd_def)
  qed
  finally show ?thesis by (simp only: dp1_def)
qed

text \<open>A link that records the packets and answers with an empty one, a device with one database, and its records.\<close>

definition echo_link :: "bytes \<Rightarrow> (bytes list, bytes) st" where
  "echo_link bs ps = (Inr [], ps @ [bs])"

definition one_database :: "bytes list desktop" where
  "one_database = (Desktop_new [] None)\<lparr>m_dbdb := [\<lparr>db_Number = 3, db_RecordCount = 2, db_Name = [77]\<rparr>]\<rparr>"

definition record_of :: "u32 \<Rightarrow> dbdata" where
  "record_of i = DBData_memory_meta REC_VERSION_1 [77] 0 i 0 [1, 2, 3] 3"

lemma erase_all_clears_once_witness:
  "send_all (DeviceParser_ParseRecord echo_link (echo_link []) 5 (\<lambda>_. DROP_RECORD)) [record_of 1, record_of 2]
       (one_database, DeviceParser_new 9 ERASE_ALL_WRITE_ALL)
    = bnd (zoom fst apfst (Desktop_ClearDatabase echo_link 3)) (\<lambda>_. send_all (add_copy echo_link 3) [record_of 1, record_of 2])
        (one_database, \<lparr>m_mode = ERASE_ALL_WRITE_ALL, m_current_db = [77], m_current_dbid = 3, m_rstate = RecordStateTable_new\<rparr>)"
  using erase_all_clears_once[of "DeviceParser_new 9 ERASE_ALL_WRITE_ALL" one_database "[77]" 3 "record_of 1" "[record_of 2]"]
  by (simp add: one_database_def record_of_def DBData_memory_meta_def DeviceParser_new_def del: send_all.simps)

text \<open>
  C37: In the callback mode the record state table is fetched with the first record of a database,
  if that record is written. If the callback drops the first record, the table stays empty,
  and the next record of the database, if its callback asks for INDIVIDUAL_OVERWRITE or
  ADD_BUT_NO_OVERWRITE, is added, whatever the device holds, without asking it.
\<close>

theorem callback_drop_leaves_table_empty:
  assumes "m_mode dp = DECIDE_BY_CALLBACK" and "DecideWrite d = DROP_RECORD"
    and "DecideWrite d2 = INDIVIDUAL_OVERWRITE \<or> DecideWrite d2 = ADD_BUT_NO_OVERWRITE"
    and "GetDBNumber (m_dbdb dk) (m_dbName d) = Some ident" and "m_current_db dp \<noteq> m_dbName d" and "m_dbName d2 = m_dbName d"
  shows "bnd (DeviceParser_ParseRecord Packet Next fuel DecideWrite d) (\<lambda>_. DeviceParser_ParseRecord Packet Next fuel DecideWrite d2) (dk, dp)
    = add_copy Packet ident d2 (dk, dp\<lparr>m_rstate := RecordStateTable_new, m_current_db := m_dbName d, m_current_dbid := ident\<rparr>)"
proof -
  define dp1 where "dp1 = dp\<lparr>m_rstate := RecordStateTable_new, m_current_db := m_dbName d, m_current_dbid := ident\<rparr>"
  have "DeviceParser_ParseRecord Packet Next fuel DecideWrite d (dk, dp) = (Inr (), dk, dp1)"
    using assms(1,2,4,5) by (simp add: DeviceParser_ParseRecord_def StartDB_def clear_is_new decided_mode_def dp1_def)
  moreover have "WriteNext Packet DecideWrite d2 (dk, dp1) = add_copy Packet ident d2 (dk, dp1)"
    using WriteNext_adds[of DecideWrite dp1 d2 Packet dk] assms(1,3) by (auto simp: decided_mode_def dp1_def GetIndex_empty)
  moreover have "DeviceParser_ParseRecord Packet Next fuel DecideWrite d2 (dk, dp1) = WriteNext Packet DecideWrite d2 (dk, dp1)"
    using assms(6) by (simp add: DeviceParser_ParseRecord_def dp1_def)
  ultimately show ?thesis by (simp only: bnd_simps(2) dp1_def[symmetric])
qed

lemma callback_drop_leaves_table_empty_witness:
  "bnd (DeviceParser_ParseRecord echo_link (echo_link []) 5 (\<lambda>d. if m_uniqueId d = 1 then DROP_RECORD else INDIVIDUAL_OVERWRITE) (record_of 1))
      (\<lambda>_. DeviceParser_ParseRecord echo_link (echo_link []) 5 (\<lambda>d. if m_uniqueId d = 1 then DROP_RECORD else INDIVIDUAL_OVERWRITE) (record_of 2))
      (one_database, DeviceParser_new 9 DECIDE_BY_CALLBACK)
    = add_copy echo_link 3 (record_of 2)
        (one_database, \<lparr>m_mode = DECIDE_BY_CALLBACK, m_current_db = [77], m_current_dbid = 3, m_rstate = RecordStateTable_new\<rparr>)"
  using callback_drop_leaves_table_empty[of "DeviceParser_new 9 DECIDE_BY_CALLBACK"
      "\<lambda>d. if m_uniqueId d = 1 then DROP_RECORD else INDIVIDUAL_OVERWRITE" "record_of 1" "record_of 2" one_database 3]
  by (simp add: one_database_def record_of_def DBData_memory_meta_def DeviceParser_new_def)

end
