(* ===== verification/Cod_File.thy ===== *)
theory Cod_File imports Dates Exn_State begin

text \<open>
  COD application files (src/src/cod.cc, src/src/cod.h, src/src/cod-internal.h): a single
  module, or several packed in the PKZIP format without compression. SeekNextCod finds the
  next module in an input stream, CodFileBuilder writes the headers and the directory of a
  packed file. Streams: an istream is its bytes and the read position, and whether it can
  seek; an ostream is what has been written. A stream that hit its end is not used again
  by the code, so its flags are not part of the state. The CRC function is zlib's.
\<close>

section \<open>Layout\<close>

definition CODFILE_TYPE_SIMPLE :: bytes where [layout_simps]: "CODFILE_TYPE_SIMPLE = [0xDE, 0xC0]"
definition CODFILE_TYPE_PKZIP :: bytes where [layout_simps]: "CODFILE_TYPE_PKZIP = [0x50, 0x4B]"
definition PKZIP_LOCAL_FILE_SIG :: bytes where [layout_simps]: "PKZIP_LOCAL_FILE_SIG = [0x50, 0x4B, 0x03, 0x04]"
definition PKZIP_DIRECTORY_SIG :: bytes where [layout_simps]: "PKZIP_DIRECTORY_SIG = [0x50, 0x4B, 0x01, 0x02]"
definition PKZIP_END_DIRECTORY_SIG :: bytes where [layout_simps]: "PKZIP_END_DIRECTORY_SIG = [0x50, 0x4B, 0x05, 0x06]"

text \<open>The packed headers without their signatures; the time and date words are bit fields of 16 bits.\<close>

definition sizeof_pkzip_local_header :: nat where [layout_simps]: "sizeof_pkzip_local_header = 2 + 2 + 2 + 2 + 2 + 4 + 4 + 4 + 2 + 2"
definition sizeof_pkzip_directory :: nat where [layout_simps]:
  "sizeof_pkzip_directory = 2 + 2 + 2 + 2 + 2 + 2 + 4 + 4 + 4 + 2 + 2 + 2 + 2 + 2 + 4 + 4"
definition sizeof_pkzip_end_directory :: nat where [layout_simps]: "sizeof_pkzip_end_directory = 2 + 2 + 2 + 2 + 4 + 4 + 2"
definition off_compressed_size :: nat where [layout_simps]: "off_compressed_size = 14"
definition off_file_name_length :: nat where [layout_simps]: "off_file_name_length = 22"
definition off_extra_field_length :: nat where [layout_simps]: "off_extra_field_length = 24"

definition pkzip_local_header :: "u32 \<Rightarrow> u32 \<Rightarrow> u16 \<Rightarrow> bytes" where
  "pkzip_local_header crc n name_length =
     le16 10 @ le16 0 @ le16 0 @ le16 0 @ le16 0 @ le32 crc @ le32 n @ le32 n @ le16 name_length @ le16 0"

definition pkzip_directory :: "u32 \<Rightarrow> u32 \<Rightarrow> u16 \<Rightarrow> u32 \<Rightarrow> bytes" where
  "pkzip_directory crc n name_length relative_offset =
     le16 10 @ le16 10 @ le16 0 @ le16 0 @ le16 0 @ le16 0 @ le32 crc @ le32 n @ le32 n @ le16 name_length
     @ le16 0 @ le16 0 @ le16 0 @ le16 0 @ le32 0 @ le32 relative_offset"

definition pkzip_end_directory :: "u16 \<Rightarrow> u32 \<Rightarrow> u32 \<Rightarrow> bytes" where
  "pkzip_end_directory entries directory_length directory_offset =
     le16 0 @ le16 0 @ le16 entries @ le16 entries @ le32 directory_length @ le32 directory_offset @ le16 0"

lemma header_sizes:
  "length (pkzip_local_header crc n k) = sizeof_pkzip_local_header"
  "length (pkzip_directory crc n k off) = sizeof_pkzip_directory"
  "length (pkzip_end_directory e l off) = sizeof_pkzip_end_directory"
  by (simp_all add: pkzip_local_header_def pkzip_directory_def pkzip_end_directory_def layout_simps)

lemma header_members:
  "get32 (pkzip_local_header crc n k) off_compressed_size = n"
  "get16 (pkzip_local_header crc n k) off_file_name_length = k"
  "get16 (pkzip_local_header crc n k) off_extra_field_length = 0"
  by (simp_all add: pkzip_local_header_def layout_simps)

section \<open>Reading\<close>

record istream =
  is_bytes :: bytes
  is_pos :: nat
  is_seekable :: bool

definition remaining :: "istream \<Rightarrow> nat" where "remaining s = length (is_bytes s) - is_pos s"

text \<open>\<open>input.read(p, n)\<close> or \<open>input.ignore(n)\<close> followed by a check of eof().\<close>

definition read_or :: "string \<Rightarrow> nat \<Rightarrow> (istream, bytes) st" where
  "read_or msg n s =
     (if remaining s < n then (Inl (BarryError msg), s\<lparr>is_pos := length (is_bytes s)\<rparr>)
      else (Inr (take n (drop (is_pos s) (is_bytes s))), s\<lparr>is_pos := is_pos s + n\<rparr>))"

text \<open>The return value is a size_t that every caller keeps in 32 bits.\<close>

definition SeekNextCod :: "(istream, u32) st" where
  "SeekNextCod =
     bnd (gets remaining) (\<lambda>left.
       if left = 0 then ret 0
       else
         bnd (read_or ''SeekNextCod: EOF while reading file signature'' 4) (\<lambda>signature.
           if take 2 signature = CODFILE_TYPE_PKZIP
           then
             if signature = PKZIP_LOCAL_FILE_SIG
             then
               bnd (read_or ''SeekNextCod: EOF while reading PKZIP header'' sizeof_pkzip_local_header) (\<lambda>header.
               bnd (read_or ''SeekNextCod: EOF while skipping unused fields''
                      (unat (get16 header off_file_name_length) + unat (get16 header off_extra_field_length))) (\<lambda>_.
                 ret (get32 header off_compressed_size)))
             else ret 0
           else if take 2 signature = CODFILE_TYPE_SIMPLE
           then bnd (gets is_seekable) (\<lambda>ok.
             if \<not> ok then throw (BarryError ''SeekNextCod: seek to end failed'')
             else bnd (modify (\<lambda>s. s\<lparr>is_pos := 0\<rparr>)) (\<lambda>_.
                    gets (\<lambda>s. word_of_nat (length (is_bytes s)))))
           else throw (BarryError ''SeekNextCod: unknown COD file signature'')))"

section \<open>Writing\<close>

record cod_builder =
  m_module_name :: bytes
  m_module_count :: nat
  m_current_module :: u32
  m_directory :: bytes

definition CodFileBuilder_new :: "bytes \<Rightarrow> nat \<Rightarrow> cod_builder" where
  "CodFileBuilder_new module_name module_count =
     \<lparr>m_module_name = module_name, m_module_count = module_count, m_current_module = 0, m_directory = []\<rparr>"

text \<open>
  \<open>crc32\<close> is the function of zlib, with None for a null buffer; without zlib the CRC is zero.
\<close>

type_synonym crc_function = "u32 \<Rightarrow> bytes option \<Rightarrow> u32 \<Rightarrow> u32"

definition module_crc :: "crc_function option \<Rightarrow> bytes \<Rightarrow> u32 \<Rightarrow> u32" where
  "module_crc zlib module_buffer module_size =
     (case zlib of None \<Rightarrow> 0
      | Some crc32 \<Rightarrow> crc32 (crc32 0 None module_size) (Some module_buffer) module_size)"

definition cod_file_name :: "bytes \<Rightarrow> u32 \<Rightarrow> bytes" where
  "cod_file_name name i =
     name @ (if i = 0 then lit ''.cod'' else lit ''-'' @ dec_digits (unat i) @ lit ''.cod'')"

definition WriteNextHeader ::
  "crc_function option \<Rightarrow> bytes \<Rightarrow> u32 \<Rightarrow> bytes \<times> cod_builder \<Rightarrow> bytes \<times> cod_builder" where
  "WriteNextHeader zlib module_buffer module_size = (\<lambda>(output, b).
     if m_module_count b = 1 then (output, b)
     else
       let crc = module_crc zlib module_buffer module_size;
           file_name = cod_file_name (m_module_name b) (m_current_module b);
           entry_offset = word_of_nat (length output);
           name_length = word_of_nat (length file_name)
       in (output @ PKZIP_LOCAL_FILE_SIG @ pkzip_local_header crc module_size name_length @ file_name,
           b\<lparr>m_directory := m_directory b @ PKZIP_DIRECTORY_SIG
                @ pkzip_directory crc module_size name_length entry_offset @ file_name,
             m_current_module := m_current_module b + 1\<rparr>))"

definition WriteFooter :: "bytes \<Rightarrow> cod_builder \<Rightarrow> bytes" where
  "WriteFooter output b =
     (if m_module_count b = 1 then output
      else output @ m_directory b @ PKZIP_END_DIRECTORY_SIG
        @ pkzip_end_directory (ucast (m_current_module b)) (word_of_nat (length (m_directory b)))
            (word_of_nat (length output)))"

section \<open>The file of a list of modules\<close>

text \<open>What a caller writes: the header of each module and the module, and then the footer.\<close>

definition write_module :: "crc_function option \<Rightarrow> bytes \<times> cod_builder \<Rightarrow> bytes \<Rightarrow> bytes \<times> cod_builder" where
  "write_module zlib ob m = (let (output, b) = WriteNextHeader zlib m (word_of_nat (length m)) ob in (output @ m, b))"

definition cod_file :: "crc_function option \<Rightarrow> bytes \<Rightarrow> bytes list \<Rightarrow> bytes" where
  "cod_file zlib name mods =
     (let (output, b) = foldl (write_module zlib) ([], CodFileBuilder_new name (length mods)) mods
      in WriteFooter output b)"

section \<open>Reading a stream\<close>

definition at_rest :: "istream \<Rightarrow> bytes \<Rightarrow> bool" where
  "at_rest s xs \<longleftrightarrow> is_pos s \<le> length (is_bytes s) \<and> drop (is_pos s) (is_bytes s) = xs"

definition same_file :: "istream \<Rightarrow> istream \<Rightarrow> bool" where
  "same_file s s' \<longleftrightarrow> is_bytes s' = is_bytes s \<and> is_seekable s' = is_seekable s"

lemma at_rest_remaining: "at_rest s xs \<Longrightarrow> remaining s = length xs"
  by (auto simp: at_rest_def remaining_def)

lemma read_or_ok:
  assumes "at_rest s (xs @ ys)" "length xs = n"
  shows "\<exists>s'. read_or msg n s = (Inr xs, s') \<and> at_rest s' ys \<and> same_file s s'"
proof -
  have r: "drop (is_pos s) (is_bytes s) = xs @ ys" using assms(1) by (simp add: at_rest_def)
  then have "drop (is_pos s + n) (is_bytes s) = ys" using assms(2) by (simp flip: drop_drop add: add.commute)
  moreover have "length (is_bytes s) - is_pos s = length xs + length ys" using r by (metis length_append length_drop)
  ultimately show ?thesis
    using assms r by (auto simp: read_or_def remaining_def at_rest_def same_file_def)
qed

lemma read_or_short: "at_rest s xs \<Longrightarrow> length xs < n \<Longrightarrow> fst (read_or msg n s) = Inl (BarryError msg)"
  by (auto simp: read_or_def at_rest_remaining)

lemma SeekNextCod_end: "at_rest s [] \<Longrightarrow> SeekNextCod s = (Inr 0, s)"
  using at_rest_remaining[of s "[]"] by (simp add: SeekNextCod_def)

lemma read_signature:
  assumes "at_rest s (sig @ rest)" "length sig = 4"
  shows "\<exists>s1. at_rest s1 rest \<and> same_file s s1 \<and> SeekNextCod s =
    (if take 2 sig = CODFILE_TYPE_PKZIP
     then if sig = PKZIP_LOCAL_FILE_SIG
       then bnd (read_or ''SeekNextCod: EOF while reading PKZIP header'' sizeof_pkzip_local_header) (\<lambda>header.
            bnd (read_or ''SeekNextCod: EOF while skipping unused fields''
                   (unat (get16 header off_file_name_length) + unat (get16 header off_extra_field_length))) (\<lambda>_.
              ret (get32 header off_compressed_size))) s1
       else (Inr 0, s1)
     else if take 2 sig = CODFILE_TYPE_SIMPLE
     then if is_seekable s then (Inr (word_of_nat (length (is_bytes s))), s1\<lparr>is_pos := 0\<rparr>)
          else (Inl (BarryError ''SeekNextCod: seek to end failed''), s1)
     else (Inl (BarryError ''SeekNextCod: unknown COD file signature''), s1))"
proof -
  obtain s1 where s1: "read_or ''SeekNextCod: EOF while reading file signature'' 4 s = (Inr sig, s1)" "at_rest s1 rest" "same_file s s1"
    using read_or_ok[OF assms] by blast
  moreover have "remaining s \<noteq> 0" using at_rest_remaining[OF assms(1)] assms(2) by auto
  ultimately show ?thesis
    by (intro exI[of _ s1]) (auto simp: SeekNextCod_def same_file_def)
qed

lemma SeekNextCod_local:
  assumes "at_rest s (PKZIP_LOCAL_FILE_SIG @ pkzip_local_header crc n (word_of_nat (length name)) @ name @ rest)" "length name < 65536"
  shows "\<exists>s'. SeekNextCod s = (Inr n, s') \<and> at_rest s' rest \<and> same_file s s'"
proof -
  let ?h = "pkzip_local_header crc n (word_of_nat (length name))"
  obtain s1 where s1: "at_rest s1 (?h @ name @ rest)" "same_file s s1" and e: "SeekNextCod s =
       bnd (read_or ''SeekNextCod: EOF while reading PKZIP header'' sizeof_pkzip_local_header) (\<lambda>header.
            bnd (read_or ''SeekNextCod: EOF while skipping unused fields''
                   (unat (get16 header off_file_name_length) + unat (get16 header off_extra_field_length))) (\<lambda>_.
              ret (get32 header off_compressed_size))) s1"
    using read_signature[OF assms(1)] by (auto simp: layout_simps)
  obtain s2 where s2: "at_rest s2 (name @ rest)" "same_file s1 s2"
      "read_or ''SeekNextCod: EOF while reading PKZIP header'' sizeof_pkzip_local_header s1 = (Inr ?h, s2)"
    using read_or_ok[OF s1(1) header_sizes(1)] by blast
  obtain s3 where "at_rest s3 rest" "same_file s2 s3"
      "read_or ''SeekNextCod: EOF while skipping unused fields'' (length name) s2 = (Inr name, s3)"
    using read_or_ok[OF s2(1) refl] by blast
  then show ?thesis
    using s1(2) s2(2) s2(3) assms(2) by (auto simp: e header_members same_file_def)
qed

section \<open>What a packed file looks like\<close>

text \<open>The entries of the modules from number i on, as they stand in the file and in the directory.\<close>

definition local_entry :: "crc_function option \<Rightarrow> bytes \<Rightarrow> nat \<Rightarrow> bytes \<Rightarrow> bytes" where
  "local_entry zlib name i m =
     (let file_name = cod_file_name name (word_of_nat i); n = word_of_nat (length m)
      in PKZIP_LOCAL_FILE_SIG @ pkzip_local_header (module_crc zlib m n) n (word_of_nat (length file_name)) @ file_name)"

definition directory_entry :: "crc_function option \<Rightarrow> bytes \<Rightarrow> nat \<Rightarrow> bytes \<Rightarrow> nat \<Rightarrow> bytes" where
  "directory_entry zlib name i m offset =
     (let file_name = cod_file_name name (word_of_nat i); n = word_of_nat (length m)
      in PKZIP_DIRECTORY_SIG
         @ pkzip_directory (module_crc zlib m n) n (word_of_nat (length file_name)) (word_of_nat offset) @ file_name)"

primrec packed :: "crc_function option \<Rightarrow> bytes \<Rightarrow> nat \<Rightarrow> bytes list \<Rightarrow> bytes" where
  "packed zlib name i [] = []"
| "packed zlib name i (m # ms) = local_entry zlib name i m @ m @ packed zlib name (Suc i) ms"

primrec directory :: "crc_function option \<Rightarrow> bytes \<Rightarrow> nat \<Rightarrow> nat \<Rightarrow> bytes list \<Rightarrow> bytes" where
  "directory zlib name i offset [] = []"
| "directory zlib name i offset (m # ms) = directory_entry zlib name i m offset
     @ directory zlib name (Suc i) (offset + length (local_entry zlib name i m) + length m) ms"

lemma write_modules:
  assumes "m_module_count b \<noteq> 1" "m_current_module b = word_of_nat i"
  shows "foldl (write_module zlib) (out, b) ms =
    (out @ packed zlib (m_module_name b) i ms,
     b\<lparr>m_directory := m_directory b @ directory zlib (m_module_name b) i (length out) ms,
       m_current_module := word_of_nat (i + length ms)\<rparr>)"
  using assms
proof (induction ms arbitrary: out b i)
  case (Cons m ms)
  define b1 where "b1 = b\<lparr>m_directory := m_directory b @ directory_entry zlib (m_module_name b) i m (length out),
    m_current_module := word_of_nat (Suc i)\<rparr>"
  have "write_module zlib (out, b) m = (out @ local_entry zlib (m_module_name b) i m @ m, b1)"
    using Cons.prems by (simp add: write_module_def WriteNextHeader_def Let_def local_entry_def directory_entry_def b1_def add.commute)
  then show ?case
    using Cons.IH[of b1 "Suc i" "out @ local_entry zlib (m_module_name b) i m @ m"] Cons.prems
    by (simp add: b1_def add.assoc)
qed simp

definition cod_tail :: "crc_function option \<Rightarrow> bytes \<Rightarrow> bytes list \<Rightarrow> bytes" where
  "cod_tail zlib name mods =
     (let dir = directory zlib name 0 0 mods
      in dir @ PKZIP_END_DIRECTORY_SIG
         @ pkzip_end_directory (word_of_nat (length mods)) (word_of_nat (length dir)) (word_of_nat (length (packed zlib name 0 mods))))"

text \<open>A single module is its own file; any other number is packed.\<close>

lemma cod_file_eq:
  "cod_file zlib name mods = (if length mods = 1 then concat mods else packed zlib name 0 mods @ cod_tail zlib name mods)"
proof (cases "length mods = 1")
  case True
  then obtain m where "mods = [m]" by (cases mods) auto
  then show ?thesis by (simp add: cod_file_def CodFileBuilder_new_def write_module_def WriteNextHeader_def WriteFooter_def)
next
  case False
  have u: "(ucast (word_of_nat n :: u32) :: u16) = word_of_nat n" for n
    by (rule bit_word_eqI) (simp add: bit_simps)
  show ?thesis
    using False write_modules[of "CodFileBuilder_new name (length mods)" 0 zlib "[]" mods]
    by (simp add: cod_file_def CodFileBuilder_new_def WriteFooter_def cod_tail_def Let_def u)
qed

lemma SeekNextCod_tail:
  assumes "at_rest s (cod_tail zlib name mods)"
  shows "\<exists>s'. SeekNextCod s = (Inr 0, s')"
proof -
  obtain sig rest where "cod_tail zlib name mods = sig @ rest" "length sig = 4" "take 2 sig = CODFILE_TYPE_PKZIP" "sig \<noteq> PKZIP_LOCAL_FILE_SIG"
  proof (cases mods)
    case Nil
    show ?thesis
      by (rule that[of PKZIP_END_DIRECTORY_SIG]) (auto simp: Nil cod_tail_def Let_def layout_simps)
  next
    case (Cons m ms)
    show ?thesis
      by (rule that[of PKZIP_DIRECTORY_SIG]) (auto simp: Cons cod_tail_def Let_def directory_entry_def layout_simps)
  qed
  then show ?thesis using read_signature[of s sig rest] assms by auto
qed

section \<open>The directory\<close>

text \<open>Every directory entry points at the local entry of its module, and the end record at the directory.\<close>

primrec offsets :: "crc_function option \<Rightarrow> bytes \<Rightarrow> nat \<Rightarrow> nat \<Rightarrow> bytes list \<Rightarrow> nat list" where
  "offsets zlib name i offset [] = []"
| "offsets zlib name i offset (m # ms) = offset # offsets zlib name (Suc i) (offset + length (local_entry zlib name i m) + length m) ms"

lemma packed_offsets:
  assumes "j < length ms"
  shows "\<exists>rest. drop (offsets zlib name i (length pre) ms ! j) (pre @ packed zlib name i ms)
    = local_entry zlib name (i + j) (ms ! j) @ (ms ! j) @ rest"
  using assms
proof (induction ms arbitrary: i j pre)
  case (Cons m ms)
  show ?case
  proof (cases j)
    case (Suc j')
    then show ?thesis
      using Cons.IH[of j' "Suc i" "pre @ local_entry zlib name i m @ m"] Cons.prems by (simp add: add.assoc)
  qed simp
qed simp

lemma directory_offsets:
  "directory zlib name i offset ms = concat (map (\<lambda>j. directory_entry zlib name (i + j) (ms ! j) (offsets zlib name i offset ms ! j)) [0..<length ms])"
proof (induction ms arbitrary: i offset)
  case (Cons m ms)
  have "[0..<length (m # ms)] = 0 # map Suc [0..<length ms]" by (simp add: map_Suc_upt upt_conv_Cons del: upt_Suc)
  then show ?case unfolding directory.simps Cons.IH by (simp add: comp_def)
qed simp

theorem cod_file_directory:
  assumes "length mods \<noteq> 1"
  shows "\<exists>offs. length offs = length mods
    \<and> cod_file zlib name mods = packed zlib name 0 mods
        @ concat (map (\<lambda>j. directory_entry zlib name j (mods ! j) (offs ! j)) [0..<length mods])
        @ PKZIP_END_DIRECTORY_SIG
        @ pkzip_end_directory (word_of_nat (length mods)) (word_of_nat (length (directory zlib name 0 0 mods)))
            (word_of_nat (length (packed zlib name 0 mods)))
    \<and> (\<forall>j < length mods. \<exists>rest. drop (offs ! j) (cod_file zlib name mods)
          = local_entry zlib name j (mods ! j) @ (mods ! j) @ rest)"
proof -
  define offs where "offs = offsets zlib name 0 0 mods"
  have l: "length (offsets zlib name i k ms) = length ms" for i k ms by (induction ms arbitrary: i k) auto
  have f: "cod_file zlib name mods = packed zlib name 0 mods @ cod_tail zlib name mods" using assms by (simp add: cod_file_eq)
  have "\<exists>rest. drop (offs ! j) (cod_file zlib name mods) = local_entry zlib name j (mods ! j) @ (mods ! j) @ rest"
    if j: "j < length mods" for j
  proof -
    obtain rest where r: "drop (offs ! j) (packed zlib name 0 mods) = local_entry zlib name j (mods ! j) @ (mods ! j) @ rest"
      using packed_offsets[OF j, of zlib name 0 "[]"] by (auto simp: offs_def)
    have "local_entry zlib name j (mods ! j) \<noteq> []" by (simp add: local_entry_def Let_def layout_simps)
    then have "offs ! j \<le> length (packed zlib name 0 mods)" using r by (metis append_is_Nil_conv drop_all linorder_le_cases)
    then show ?thesis using r f by simp
  qed
  then show ?thesis
    using f l directory_offsets[of zlib name 0 0 mods]
    by (intro exI[of _ offs]) (simp add: offs_def cod_tail_def Let_def)
qed

end
