(* ===== verification/Loader_Log.thy ===== *)
theory Loader_Log imports Digits begin

text \<open>
  One entry of the device's event log (class JLEventlogEntry of src/src/m_javaloader.cc and
  src/src/m_javaloader.h): the text the device sends is taken apart with a string stream.
  An operation on a stream that has reached its end fails the next check in any case, so
  the state of the stream is the rest of the text. The formatting functions are left out.
\<close>

record jl_log_entry =
  le_Guid :: bytes
  MSTimestamp :: u64
  le_Severity :: u32
  le_Type :: u32
  le_App :: bytes
  le_Data :: bytes

definition SeverityProto2Rec :: "u32 \<Rightarrow> u32" where "SeverityProto2Rec s = s"
definition SeverityRec2Proto :: "u32 \<Rightarrow> u32" where "SeverityRec2Proto s = s"
definition ViewerTypeProto2Rec :: "u32 \<Rightarrow> u32" where "ViewerTypeProto2Rec v = v"
definition ViewerTypeRec2Proto :: "u32 \<Rightarrow> u32" where "ViewerTypeRec2Proto v = v"

text \<open>The base stays hexadecimal after the time, so severity and type are read in it too.\<close>

definition or_bad :: "string \<Rightarrow> 'a option \<Rightarrow> 'a res" where
  "or_bad msg x = (case x of None \<Rightarrow> Inl (BadData msg) | Some y \<Rightarrow> Inr y)"

definition JLEventlogEntry_Parse :: "bytes \<Rightarrow> jl_log_entry res" where
  "JLEventlogEntry_Parse src =
     rbind (or_bad ''JLEventlogEntry:Parse bad guid field'' (scan_word (drop 5 src))) (\<lambda>(guid, s).
     rbind (or_bad ''JLEventlogEntry:Parse bad time field'' (scan_hex 64 (drop 6 s))) (\<lambda>(time, s).
     rbind (or_bad ''JLEventlogEntry:Parse bad severity field'' (scan_hex 32 (drop 10 s))) (\<lambda>(severity, s).
     rbind (or_bad ''JLEventlogEntry:Parse bad type field'' (scan_hex 32 (drop 6 s))) (\<lambda>(ty, s).
     rbind (or_bad ''JLEventlogEntry:Parse bad app field'' (scan_word (drop 5 s))) (\<lambda>(app, s).
       let databuf = dropWhile isspace (drop 6 s)
       in if databuf = [] then Inl (BadData ''JLEventlogEntry:Parse bad data field'')
          else Inr \<lparr>le_Guid = guid, MSTimestamp = word_of_nat time,
            le_Severity = SeverityProto2Rec (word_of_nat severity), le_Type = ViewerTypeProto2Rec (word_of_nat ty),
            le_App = app, le_Data = databuf\<rparr>)))))"

section \<open>Well-formed entries are read\<close>

definition log_text :: "bytes \<Rightarrow> bytes \<Rightarrow> bytes \<Rightarrow> bytes \<Rightarrow> bytes \<Rightarrow> bytes \<Rightarrow> bytes" where
  "log_text guid time severity ty app dat =
     lit ''guid:'' @ guid @ lit '' time:0x'' @ time @ lit '' severity:'' @ severity @ lit '' type:'' @ ty
     @ lit '' app:'' @ app @ lit '' data:'' @ dat"

definition hex_ok :: "nat \<Rightarrow> bytes \<Rightarrow> bool" where
  "hex_ok bits ds \<longleftrightarrow> list_all is_hex ds \<and> ds \<noteq> [] \<and> num_value 16 ds < 2 ^ bits"

lemma lit_spaces:
  "ends_word (lit '' time:0x'' @ x)" "ends_word (lit '' severity:'' @ x)" "ends_word (lit '' type:'' @ x)"
  "ends_word (lit '' app:'' @ x)" "ends_word (lit '' data:'' @ x)"
  by (simp_all add: ends_word_def isspace_def lit_def of_char_def)

lemma drop_lits:
  "drop 5 (lit ''guid:'' @ x) = x" "drop 6 (lit '' time:0x'' @ x) = [0x30, 0x78] @ x" "drop 10 (lit '' severity:'' @ x) = x"
  "drop 6 (lit '' type:'' @ x) = x" "drop 5 (lit '' app:'' @ x) = x" "drop 6 (lit '' data:'' @ x) = x"
  by (simp_all add: lit_def of_char_def)

text \<open>What follows the application's name counts from the sixth character on.\<close>

definition log_front :: "bytes \<Rightarrow> bytes \<Rightarrow> bytes \<Rightarrow> bytes \<Rightarrow> bytes \<Rightarrow> bytes" where
  "log_front guid time severity ty rest =
     lit ''guid:'' @ guid @ lit '' time:0x'' @ time @ lit '' severity:'' @ severity @ lit '' type:'' @ ty @ lit '' app:'' @ rest"

lemma log_entry_front:
  assumes "word_ok guid" "hex_ok 64 time" "hex_ok 32 severity" "hex_ok 32 ty" "word_ok app" "ends_word tail"
  shows "JLEventlogEntry_Parse (log_front guid time severity ty (app @ tail))
    = (let databuf = dropWhile isspace (drop 6 tail)
       in if databuf = [] then Inl (BadData ''JLEventlogEntry:Parse bad data field'')
          else Inr \<lparr>le_Guid = guid, MSTimestamp = word_of_nat (num_value 16 time),
            le_Severity = word_of_nat (num_value 16 severity), le_Type = word_of_nat (num_value 16 ty),
            le_App = app, le_Data = databuf\<rparr>)"
proof -
  note w = scan_word_ok[OF assms(1) lit_spaces(1)] scan_word_ok[OF assms(5,6)]
  note h = assms(2-4)[unfolded hex_ok_def]
  have t: "scan_hex 64 ([0x30, 0x78] @ time @ lit '' severity:'' @ x) = Some (num_value 16 time, lit '' severity:'' @ x)" for x
    using h(1) by (intro scan_hex_ok(2) lit_spaces) auto
  have s: "scan_hex 32 (severity @ lit '' type:'' @ x) = Some (num_value 16 severity, lit '' type:'' @ x)" for x
    using h(2) by (intro scan_hex_ok(1) lit_spaces) auto
  have y: "scan_hex 32 (ty @ lit '' app:'' @ x) = Some (num_value 16 ty, lit '' app:'' @ x)" for x
    using h(3) by (intro scan_hex_ok(1) lit_spaces) auto
  show ?thesis
    unfolding JLEventlogEntry_Parse_def log_front_def drop_lits w t s y or_bad_def option.case rbind_simps prod.case
      SeverityProto2Rec_def ViewerTypeProto2Rec_def ..
qed

theorem log_entry_read:
  assumes "word_ok guid" "hex_ok 64 time" "hex_ok 32 severity" "hex_ok 32 ty" "word_ok app"
    and "dat \<noteq> []" "\<not> isspace (hd dat)"
  shows "JLEventlogEntry_Parse (log_text guid time severity ty app dat)
    = Inr \<lparr>le_Guid = guid, MSTimestamp = word_of_nat (num_value 16 time), le_Severity = word_of_nat (num_value 16 severity),
        le_Type = word_of_nat (num_value 16 ty), le_App = app, le_Data = dat\<rparr>"
proof -
  have d: "dropWhile isspace dat = dat" using assms(6,7) by (rule dropWhile_none)
  show ?thesis
    using log_entry_front[OF assms(1-5) lit_spaces(5), of dat] assms(6)
    unfolding drop_lits d by (simp add: log_text_def log_front_def)
qed

text \<open>
  An application name with a space is cut at it, and the data starts six characters after
  the cut, wherever that is. Severity 10 is read as sixteen. An entry with no data, or only
  blanks, is rejected.
\<close>

lemma sample_fields:
  "word_ok (lit ''9'')" "word_ok (lit ''My'')" "hex_ok 64 (lit ''1'')" "hex_ok 32 (lit ''2'')" "hex_ok 32 (lit ''10'')"
  by (simp_all add: word_ok_def hex_ok_def isspace_def is_hex_def isdigit_def num_value_def digit_val_def lit_def of_char_def)

lemma sample_values: "num_value 16 (lit ''1'') = 1" "num_value 16 (lit ''2'') = 2" "num_value 16 (lit ''10'') = 16"
  by (simp_all add: num_value_def digit_val_def lit_def of_char_def isdigit_def)

theorem log_entry_quirks:
  "JLEventlogEntry_Parse (log_text (lit ''9'') (lit ''1'') (lit ''10'') (lit ''2'') (lit ''My App'') (lit ''x''))
    = Inr \<lparr>le_Guid = lit ''9'', MSTimestamp = 1, le_Severity = 16, le_Type = 2, le_App = lit ''My'', le_Data = lit ''ata:x''\<rparr>"
  "JLEventlogEntry_Parse (log_text (lit ''9'') (lit ''1'') (lit ''10'') (lit ''2'') (lit ''My'') [])
    = Inl (BadData ''JLEventlogEntry:Parse bad data field'')"
proof -
  have e: "log_text g t s y (lit ''My App'') d = log_front g t s y (lit ''My'' @ lit '' App data:'' @ d)"
      "log_text g t s y (lit ''My'') [] = log_front g t s y (lit ''My'' @ lit '' data:'')" for g t s y d
    by (simp_all add: log_text_def log_front_def lit_def)
  have w: "ends_word (lit '' App data:'' @ lit ''x'')" "ends_word (lit '' data:'')"
    by (simp_all add: ends_word_def isspace_def lit_def of_char_def)
  have d: "dropWhile isspace (drop 6 (lit '' App data:'' @ lit ''x'')) = lit ''ata:x''" "drop 6 (lit '' data:'') = []"
    by (simp_all add: isspace_def lit_def of_char_def)
  note front = log_entry_front[OF sample_fields(1,3,5,4,2)]
  show "JLEventlogEntry_Parse (log_text (lit ''9'') (lit ''1'') (lit ''10'') (lit ''2'') (lit ''My App'') (lit ''x''))
    = Inr \<lparr>le_Guid = lit ''9'', MSTimestamp = 1, le_Severity = 16, le_Type = 2, le_App = lit ''My'', le_Data = lit ''ata:x''\<rparr>"
    unfolding e front[OF w(1)] d sample_values by (simp add: lit_def)
  show "JLEventlogEntry_Parse (log_text (lit ''9'') (lit ''1'') (lit ''10'') (lit ''2'') (lit ''My'') [])
    = Inl (BadData ''JLEventlogEntry:Parse bad data field'')"
    unfolding e front[OF w(2)] d by simp
qed

end
