(* ===== verification/Java_Loader.thy ===== *)
theory Java_Loader imports Cod_File Loader_Log Socket begin

text \<open>
  The Java loader mode (src/src/m_javaloader.cc, src/src/m_javaloader.h): loading, saving
  and erasing modules, the module directory, screen shots, the event log, device
  information. Every operation is a sequence of exchanges on the socket. The socket is a
  record of the three calls the mode makes; the packet object carries the command and data
  buffers that one operation reuses, and the buffer of the answers is the bytes of the
  last answer. The Dump functions and the formatting of time stamps are left out.
\<close>

section \<open>Constants\<close>

definition SB_COMMAND_JL_GET_SUBDIR_ENTRY :: byte where [layout_simps]: "SB_COMMAND_JL_GET_SUBDIR_ENTRY = 0x7d"
definition SB_COMMAND_JL_ERASE :: byte where [layout_simps]: "SB_COMMAND_JL_ERASE = 0x69"
definition SB_COMMAND_JL_FORCE_ERASE :: byte where [layout_simps]: "SB_COMMAND_JL_FORCE_ERASE = 0x7b"
definition SB_COMMAND_JL_COD_IN_USE :: byte where [layout_simps]: "SB_COMMAND_JL_COD_IN_USE = 0x6c"
definition SB_COMMAND_JL_COD_NOT_FOUND :: byte where [layout_simps]: "SB_COMMAND_JL_COD_NOT_FOUND = 0x69"
definition SB_COMMAND_JL_NOT_ENOUGH_MEMORY :: byte where [layout_simps]: "SB_COMMAND_JL_NOT_ENOUGH_MEMORY = 0x6a"
definition SB_JLDIRENTRY_HEADER_SIZE :: nat where [layout_simps]: "SB_JLDIRENTRY_HEADER_SIZE = 2 + 4 + 2"
definition SB_JLSCREENINFO_SIZE :: nat where [layout_simps]: "SB_JLSCREENINFO_SIZE = 2 + 2 + 2 + 2 + 2 + 2 + 2 + 2"
definition SB_JLEVENTLOG_ENTRY_HEADER_SIZE :: nat where [layout_simps]: "SB_JLEVENTLOG_ENTRY_HEADER_SIZE = 2"
definition SB_JLDEVICEINFO_SIZE :: nat where [layout_simps]: "SB_JLDEVICEINFO_SIZE = 4 + 4 + 4 + 4 + 4 + 4 + 4"

text \<open>Big endian members of an answer.\<close>

definition be16_at :: "bytes \<Rightarrow> nat \<Rightarrow> u16" where "be16_at bs i = bbswap_16 (get16 bs i)"
definition be32_at :: "bytes \<Rightarrow> nat \<Rightarrow> u32" where "be32_at bs i = bbswap_32 (get32 bs i)"

section \<open>The directory\<close>

text \<open>The entry class and the directory class contain each other; an entry takes the directory as a parameter.\<close>

datatype 'd jl_entry = JLDirectoryEntry (je_level: int) (je_Id: u16) (je_Name: bytes) (je_Version: bytes) (je_CodSize: u32)
    (je_Timestamp: u32) (je_SubDir: 'd)

datatype jl_directory = JLDirectory (jd_idTable: "u16 list") (jd_level: int) (jd_entries: "jl_directory jl_entry list")

definition JLDirectory_new :: "int \<Rightarrow> jl_directory" where "JLDirectory_new level = JLDirectory [] level []"

fun id_table :: "bytes \<Rightarrow> u16 list" where
  "id_table (a # b # bs) = be16_at [a, b] 0 # id_table bs"
| "id_table bs = []"

definition ParseTable :: "bytes \<Rightarrow> jl_directory \<Rightarrow> jl_directory" where
  "ParseTable table_packet d = JLDirectory (id_table table_packet) (jd_level d) (jd_entries d)"

definition jl_push_back :: "jl_directory jl_entry \<Rightarrow> jl_directory \<Rightarrow> jl_directory" where
  "jl_push_back e d = JLDirectory (jd_idTable d) (jd_level d) (jd_entries d @ [e])"

text \<open>A failed size check names the place, the size and what is needed.\<close>

definition JLDirectoryEntry_Parse :: "int \<Rightarrow> u16 \<Rightarrow> bytes \<Rightarrow> jl_directory jl_entry res" where
  "JLDirectoryEntry_Parse level ident entry_packet =
     (let have = length entry_packet; needed1 = SB_JLDIRENTRY_HEADER_SIZE
      in if have < needed1 then Inl (BadSize 0 have needed1)
      else let len1 = unat (be16_at entry_packet 6); needed2 = needed1 + len1
      in if have < needed2 then Inl (BadSize 0 have needed2)
      else if have < needed2 + 2 then Inl (BadSize 0 have (needed2 + 2))
      else let len2 = unat (be16_at entry_packet needed2); needed4 = needed2 + 2 + len2
      in if have < needed4 then Inl (BadSize 0 have needed4)
      else if have < needed4 + 4 then Inl (BadSize 0 have (needed4 + 4))
      else Inr (JLDirectoryEntry level ident (take len1 (drop 8 entry_packet))
             (take len2 (drop (needed2 + 2) entry_packet)) (be32_at entry_packet needed4)
             (be32_at entry_packet 2) (JLDirectory_new (level + 1))))"

section \<open>The socket\<close>

record 's jl_socket =
  ls_Packet :: "jl_packet \<Rightarrow> ('s, bytes) st"
  ls_Receive :: "('s, bytes) st"
  ls_ResetOnClose :: "bool \<Rightarrow> ('s, unit) st"

definition JLPacket_new :: jl_packet where
  "JLPacket_new = \<lparr>m_cmd = Data_new (-1) 8 BARRY_DATA_DEFAULT_PREPEND_SIZE,
     jl_data = Data_new (-1) 8 BARRY_DATA_DEFAULT_PREPEND_SIZE, m_last_set_size = 0\<rparr>"

definition hex_text :: "byte \<Rightarrow> string" where
  "hex_text b = (let d = (\<lambda>n. ''0123456789abcdef'' ! n)
     in if b < 16 then [d (unat b)] else [d (unat b div 16), d (unat b mod 16)])"

definition ThrowJLError :: "string \<Rightarrow> byte \<Rightarrow> exn" where
  "ThrowJLError msg cmd = BarryError (msg @ '': unexpected packet command code: 0x'' @ hex_text cmd)"

text \<open>An exchange, and the command of its answer.\<close>

definition jl_exchange :: "'s jl_socket \<Rightarrow> jl_packet \<Rightarrow> ('s, byte \<times> bytes) st" where
  "jl_exchange k p = bnd (ls_Packet k p) (\<lambda>r. bnd (lift (Packet_Command r)) (\<lambda>c. ret (c, r)))"

text \<open>An exchange that has to be acknowledged.\<close>

definition acked :: "'s jl_socket \<Rightarrow> string \<Rightarrow> jl_packet \<Rightarrow> ('s, bytes) st" where
  "acked k msg p = bnd (jl_exchange k p) (\<lambda>(c, r). if c \<noteq> SB_COMMAND_JL_ACK then throw (ThrowJLError msg c) else ret r)"

section \<open>Starting and stopping the stream\<close>

record 's java_loader =
  jl_link :: 's
  m_StreamStarted :: bool

abbreviation on_jl :: "('s, 'a) st \<Rightarrow> ('s java_loader, 'a) st" where
  "on_jl m \<equiv> zoom jl_link jl_link_update m"

definition JavaLoader_OnOpen :: "'s jl_socket \<Rightarrow> ('s java_loader, unit) st" where
  "JavaLoader_OnOpen k = bnd (on_jl (ls_Receive k)) (\<lambda>response. ret ())"

definition StartStream :: "'s jl_socket \<Rightarrow> ('s java_loader, unit) st" where
  "StartStream k =
     bnd (lift (SimpleCmd SB_COMMAND_JL_HELLO 0 0 JLPacket_new)) (\<lambda>p.
     bnd (on_jl (jl_exchange k p)) (\<lambda>(c, r).
       if c \<noteq> SB_COMMAND_JL_HELLO_ACK then throw (ThrowJLError ''JavaLoader::StartStream Hello'' c)
       else
         bnd (lift (SetUnknown1 p)) (\<lambda>p.
         bnd (on_jl (acked k ''JavaLoader::StartStream Unknown1'' p)) (\<lambda>r.
           modify (\<lambda>l. l\<lparr>m_StreamStarted := True\<rparr>)))))"

text \<open>
  Some devices answer Goodbye with NOT_SUPPORTED, which the socket turns into an exception;
  the answer is then still in the response buffer.
\<close>

definition goodbye_answer :: "'s jl_socket \<Rightarrow> jl_packet \<Rightarrow> ('s, byte res) st" where
  "goodbye_answer k p =
     catch (bnd (ls_Packet k p) (\<lambda>r. ret (Packet_Command r)))
       (\<lambda>e. case e of
          BadPacket response msg \<Rightarrow> if response \<noteq> SB_COMMAND_JL_NOT_SUPPORTED then throw e else ret (Inr response)
        | _ \<Rightarrow> throw e)"

definition StopStream :: "'s jl_socket \<Rightarrow> ('s java_loader, bool) st" where
  "StopStream k =
     bnd (lift (SimpleCmd SB_COMMAND_JL_GOODBYE 0 0 JLPacket_new)) (\<lambda>p.
     bnd (on_jl (goodbye_answer k p)) (\<lambda>answer.
     bnd (modify (\<lambda>l. l\<lparr>m_StreamStarted := False\<rparr>)) (\<lambda>_.
     bnd (lift answer) (\<lambda>c.
       if c = SB_COMMAND_JL_RESET_REQUIRED
       then bnd (on_jl (ls_ResetOnClose k True)) (\<lambda>_. ret True)
       else if c \<noteq> SB_COMMAND_JL_ACK \<and> c \<noteq> SB_COMMAND_JL_NOT_SUPPORTED
       then throw (ThrowJLError ''JavaLoader::StopStream error'' c)
       else ret False))))"

definition JavaLoader_destroy :: "'s jl_socket \<Rightarrow> ('s java_loader, unit) st" where
  "JavaLoader_destroy k =
     bnd (gets m_StreamStarted) (\<lambda>started.
       exec_if started (catch (bnd (StopStream k) (\<lambda>_. ret ())) (\<lambda>e. ret ())))"

section \<open>Loading modules\<close>

text \<open>The socket and the input stream are separate parts of the state.\<close>

abbreviation on_sock :: "('s, 'a) st \<Rightarrow> ('s \<times> 't, 'a) st" where "on_sock m \<equiv> zoom fst apfst m"
abbreviation on_stream :: "('t, 'a) st \<Rightarrow> ('s \<times> 't, 'a) st" where "on_stream m \<equiv> zoom snd apsnd m"

definition max_data_size :: nat where [layout_simps]: "max_data_size = MAX_PACKET_DATA_SIZE - SB_JLPACKET_HEADER_SIZE"

function send_data :: "'s jl_socket \<Rightarrow> nat \<Rightarrow> jl_packet \<Rightarrow> ('s \<times> istream, unit) st" where
  "send_data k left p =
     (if left = 0 then ret ()
      else
        let n = min left max_data_size
        in bnd (on_stream (read_or ''JavaLoader::SendStream: input stream read failed'' n)) (\<lambda>buffer.
           bnd (lift (PutData buffer p)) (\<lambda>p'.
           bnd (on_sock (jl_exchange k p')) (\<lambda>(c, r).
             if c = SB_COMMAND_JL_NOT_ENOUGH_MEMORY
             then throw (BarryError ''JavaLoader::SendStream: not enough memory to install the application'')
             else if c \<noteq> SB_COMMAND_JL_ACK then throw (ThrowJLError ''JavaLoader::SendStream: send data'' c)
             else send_data k (left - n) p'))))"
  by pat_completeness auto
termination by (relation "measure (\<lambda>(k, left, p). left)") (auto simp: layout_simps)

declare send_data.simps [simp del]

definition SendStream :: "'s jl_socket \<Rightarrow> u32 \<Rightarrow> ('s \<times> istream, unit) st" where
  "SendStream k module_size =
     bnd (lift (SetCodSize (ucast module_size) JLPacket_new)) (\<lambda>p.
     bnd (on_sock (acked k ''JavaLoader::SendStream: set code size first'' p)) (\<lambda>r.
       send_data k (unat module_size) p))"

text \<open>The fuel bounds the number of modules.\<close>

fun LoadApp :: "'s jl_socket \<Rightarrow> nat \<Rightarrow> ('s \<times> istream, unit) st" where
  "LoadApp k 0 = throw (UB ''out of fuel'')"
| "LoadApp k (Suc fuel) =
     bnd (on_stream SeekNextCod) (\<lambda>module_size.
       if module_size = 0 then ret ()
       else bnd (SendStream k module_size) (\<lambda>_. LoadApp k fuel))"

section \<open>Simple commands\<close>

definition Loader_SetTime :: "'s jl_socket \<Rightarrow> u64 \<Rightarrow> ('s, unit) st" where
  "Loader_SetTime k instant =
     bnd (lift (SetTime instant JLPacket_new)) (\<lambda>p. bnd (acked k ''JavaLoader::SetTime error'' p) (\<lambda>r. ret ()))"

definition ClearEventlog :: "'s jl_socket \<Rightarrow> ('s, unit) st" where
  "ClearEventlog k =
     bnd (lift (SimpleCmd SB_COMMAND_JL_CLEAR_LOG 0 0 JLPacket_new)) (\<lambda>p.
     bnd (acked k ''JavaLoader::ClearEventlog'' p) (\<lambda>r. ret ()))"

definition Wipe :: "'s jl_socket \<Rightarrow> bool \<Rightarrow> bool \<Rightarrow> ('s, unit) st" where
  "Wipe k apps fs =
     bnd (if apps
          then bnd (lift (SimpleCmd SB_COMMAND_JL_WIPE_APPS 0 0 JLPacket_new)) (\<lambda>p.
               bnd (acked k ''JavaLoader::WipeApps'' p) (\<lambda>r. ret p))
          else ret JLPacket_new) (\<lambda>p.
       exec_if fs
         (bnd (lift (SimpleCmd SB_COMMAND_JL_WIPE_FS 0 0 p)) (\<lambda>p.
          bnd (acked k ''JavaLoader::WipeFs'' p) (\<lambda>r. ret ()))))"

definition LogStackTraces :: "'s jl_socket \<Rightarrow> ('s, unit) st" where
  "LogStackTraces k =
     bnd (lift (SimpleCmd SB_COMMAND_JL_LOG_STRACES 0 0 JLPacket_new)) (\<lambda>p.
     bnd (acked k ''JavaLoader::LogStackTraces'' p) (\<lambda>r. ret ()))"

definition ResetToFactory :: "'s jl_socket \<Rightarrow> ('s, unit) st" where
  "ResetToFactory k =
     bnd (lift (SimpleCmd SB_COMMAND_JL_RESET_FACTORY 0 0 JLPacket_new)) (\<lambda>p.
     bnd (acked k ''JavaLoader::ResetToFactory'' p) (\<lambda>r. ret ()))"

section \<open>Directories\<close>

text \<open>
  The directory of a directory entry is fetched without its own subdirectories, so the
  calls nest at most twice. An empty table leaves the directory as it was.
\<close>

function GetDir :: "'s jl_socket \<Rightarrow> byte \<Rightarrow> bool \<Rightarrow> jl_packet \<Rightarrow> jl_directory \<Rightarrow> ('s, jl_packet \<times> jl_directory) st"
  and GetDirectoryEntries :: "'s jl_socket \<Rightarrow> byte \<Rightarrow> bool \<Rightarrow> u16 list \<Rightarrow> jl_packet \<Rightarrow> jl_directory \<Rightarrow> ('s, jl_packet \<times> jl_directory) st"
where
  "GetDir k entry_cmd include_subdirs p dir =
     bnd (acked k ''JavaLoader::GetDir'' p) (\<lambda>r.
     bnd (lift (JLPacket_Size r)) (\<lambda>expect.
       if expect = 0 then ret (p, dir)
       else
         bnd (ls_Receive k) (\<lambda>response.
         bnd (lift (CheckSize response 4)) (\<lambda>_.
         let dir1 = ParseTable (drop 4 response) dir
         in GetDirectoryEntries k entry_cmd include_subdirs (jd_idTable dir1) p dir1))))"
| "GetDirectoryEntries k entry_cmd include_subdirs [] p dir = ret (p, dir)"
| "GetDirectoryEntries k entry_cmd include_subdirs (i # ids) p dir =
     bnd (lift (GetDirEntry entry_cmd i p)) (\<lambda>p.
     bnd (acked k ''JavaLoader::GetDirectoryEntries'' p) (\<lambda>r.
     bnd (ls_Receive k) (\<lambda>response.
     bnd (lift (CheckSize response 4)) (\<lambda>_.
     bnd (lift (JLDirectoryEntry_Parse (jd_level dir) i (drop 4 response))) (\<lambda>entry.
     bnd (if include_subdirs
          then bnd (lift (GetSubDir i p)) (\<lambda>p.
               bnd (GetDir k SB_COMMAND_JL_GET_SUBDIR_ENTRY False p (je_SubDir entry)) (\<lambda>(p, sub).
                 ret (p, JLDirectoryEntry (je_level entry) (je_Id entry) (je_Name entry) (je_Version entry)
                           (je_CodSize entry) (je_Timestamp entry) sub)))
          else ret (p, entry)) (\<lambda>(p, entry).
       GetDirectoryEntries k entry_cmd include_subdirs ids p (jl_push_back entry dir)))))))"
  by pat_completeness auto
termination
  by (relation "inv_image (less_than <*lex*> less_than <*lex*> less_than)
        (\<lambda>x. case x of Inl (k, e, inc, p, d) \<Rightarrow> (of_bool inc, 1, 0) | Inr (k, e, inc, ids, p, d) \<Rightarrow> (of_bool inc, 0, length ids))") auto

declare GetDir.simps [simp del] GetDirectoryEntries.simps [simp del]

definition Loader_GetDirectory :: "'s jl_socket \<Rightarrow> bool \<Rightarrow> jl_directory \<Rightarrow> ('s, jl_directory) st" where
  "Loader_GetDirectory k include_subdirs dir =
     bnd (lift (SimpleCmd SB_COMMAND_JL_GET_DIRECTORY 0 0 JLPacket_new)) (\<lambda>p.
     bnd (GetDir k SB_COMMAND_JL_GET_DATA_ENTRY include_subdirs p dir) (\<lambda>(p, dir). ret dir))"

section \<open>Screen shots\<close>

record jl_screen_info =
  js_width :: u16
  js_height :: u16

text \<open>The device ends the transfer; the fuel bounds the number of its packets.\<close>

fun screenshot_loop :: "'s jl_socket \<Rightarrow> nat \<Rightarrow> jl_packet \<Rightarrow> data \<Rightarrow> ('s, data) st" where
  "screenshot_loop k 0 p img = throw (UB ''out of fuel'')"
| "screenshot_loop k (Suc fuel) p img =
     bnd (lift (SimpleCmd SB_COMMAND_JL_SEND_DATA 0 0 p)) (\<lambda>p.
     bnd (jl_exchange k p) (\<lambda>(c, r).
       if c = SB_COMMAND_JL_ACK then ret img
       else if c \<noteq> SB_COMMAND_JL_GET_DATA_ENTRY then throw (ThrowJLError ''JavaLoader::GetScreenShot '' c)
       else
         bnd (lift (JLPacket_Size r)) (\<lambda>expect.
         bnd (ls_Receive k) (\<lambda>response.
         bnd (lift (CheckSize response 4)) (\<lambda>_.
         let pd = drop 4 response
         in if unat expect \<noteq> length pd
            then throw (ThrowJLError ''JavaLoader::GetScreenShot expect'' (ucast expect))
            else bnd (lift (fill img (dsize img + length pd) [(dsize img, pd)])) (\<lambda>img.
                   screenshot_loop k fuel p img))))))"

definition Loader_GetScreenshot :: "'s jl_socket \<Rightarrow> nat \<Rightarrow> data \<Rightarrow> ('s, jl_screen_info \<times> data) st" where
  "Loader_GetScreenshot k fuel img =
     bnd (lift (GetScreenshot JLPacket_new)) (\<lambda>p.
     bnd (acked k ''JavaLoader::GetScreenshot'' p) (\<lambda>r.
     bnd (ls_Receive k) (\<lambda>response.
     bnd (lift (CheckSize response (SB_JLPACKET_HEADER_SIZE + SB_JLSCREENINFO_SIZE))) (\<lambda>_.
     bnd (screenshot_loop k fuel p (Zap img)) (\<lambda>img.
       ret (\<lparr>js_width = be16_at response (SB_JLPACKET_HEADER_SIZE + 6),
              js_height = be16_at response (SB_JLPACKET_HEADER_SIZE + 8)\<rparr>, img))))))"

section \<open>Erasing and saving modules\<close>

text \<open>The id of a module by its name.\<close>

definition module_id :: "'s jl_socket \<Rightarrow> string \<Rightarrow> string \<Rightarrow> bytes \<Rightarrow> ('s, jl_packet \<times> u16) st" where
  "module_id k msg missing cod_name =
     bnd (lift (SetCodFilename cod_name JLPacket_new)) (\<lambda>p.
     bnd (jl_exchange k p) (\<lambda>(c, r).
       if c = SB_COMMAND_JL_COD_NOT_FOUND
       then throw (BarryError (msg @ '': module not found: '' @ map (char_of \<circ> unat) cod_name))
       else if c \<noteq> SB_COMMAND_JL_ACK then throw (ThrowJLError msg c)
       else
         bnd (lift (JLPacket_Size r)) (\<lambda>n.
         if n \<noteq> 2 then throw (BarryError (msg @ missing))
         else
           bnd (ls_Receive k) (\<lambda>response.
           bnd (lift (CheckSize response (SB_JLPACKET_HEADER_SIZE + 2))) (\<lambda>_.
             ret (p, be16_at response SB_JLPACKET_HEADER_SIZE))))))"

definition DoErase :: "'s jl_socket \<Rightarrow> byte \<Rightarrow> bytes \<Rightarrow> ('s, unit) st" where
  "DoErase k cmd cod_name =
     bnd (module_id k ''JavaLoader::DoErase'' '': expected code ID not available'' cod_name) (\<lambda>(p, i).
     bnd (lift (JLPacket_Erase (ucast cmd) i p)) (\<lambda>p.
     bnd (jl_exchange k p) (\<lambda>(c, r).
       if c = SB_COMMAND_JL_COD_IN_USE then throw (BarryError ''JavaLoader::DoErase: COD file in use.'')
       else if c \<noteq> SB_COMMAND_JL_ACK then throw (ThrowJLError ''JavaLoader::DoErase'' c)
       else ret ())))"

definition Loader_Erase :: "'s jl_socket \<Rightarrow> bytes \<Rightarrow> ('s, unit) st" where
  "Loader_Erase k cod_name = DoErase k SB_COMMAND_JL_ERASE cod_name"

definition ForceErase :: "'s jl_socket \<Rightarrow> bytes \<Rightarrow> ('s, unit) st" where
  "ForceErase k cod_name = DoErase k SB_COMMAND_JL_FORCE_ERASE cod_name"

fun save_loop :: "'s jl_socket \<Rightarrow> nat \<Rightarrow> jl_packet \<Rightarrow> data \<Rightarrow> u32 \<Rightarrow> ('s, jl_packet \<times> data) st" where
  "save_loop k 0 p buffer offset = throw (UB ''out of fuel'')"
| "save_loop k (Suc fuel) p buffer offset =
     bnd (lift (SimpleCmd SB_COMMAND_JL_SEND_DATA 0 0 p)) (\<lambda>p.
     bnd (jl_exchange k p) (\<lambda>(c, r).
       if c = SB_COMMAND_JL_ACK then ret (p, buffer)
       else if c \<noteq> SB_COMMAND_JL_GET_DATA_ENTRY then throw (ThrowJLError ''JavaLoader::SaveData'' c)
       else
         bnd (lift (JLPacket_Size r)) (\<lambda>expect.
         bnd (ls_Receive k) (\<lambda>response.
         bnd (lift (CheckSize response (SB_JLPACKET_HEADER_SIZE + unat expect))) (\<lambda>_.
         let offset' = offset + ucast expect
         in bnd (lift (fill buffer (unat offset')
                   [(unat offset, take (unat expect) (drop SB_JLPACKET_HEADER_SIZE response))])) (\<lambda>buffer.
              save_loop k fuel p buffer offset'))))))"

text \<open>The second part of the state is the output stream.\<close>

definition SaveData :: "'s jl_socket \<Rightarrow> nat \<Rightarrow> crc_function option \<Rightarrow> jl_packet \<Rightarrow> u16 \<Rightarrow> cod_builder
    \<Rightarrow> ('s \<times> bytes, jl_packet \<times> cod_builder) st" where
  "SaveData k fuel zlib p ident builder =
     bnd (lift (SaveModule ident p)) (\<lambda>p.
     bnd (on_sock (acked k ''JavaLoader::SaveData'' p)) (\<lambda>r.
     bnd (on_sock (ls_Receive k)) (\<lambda>response.
     bnd (lift (CheckSize response (SB_JLPACKET_HEADER_SIZE + 4))) (\<lambda>_.
     let total_size = be32_at response SB_JLPACKET_HEADER_SIZE
     in bnd (on_sock (save_loop k fuel p (Data_new (-1) (unat total_size) BARRY_DATA_DEFAULT_PREPEND_SIZE) 0)) (\<lambda>(p, buffer).
        bnd (gets snd) (\<lambda>output.
        let (output, builder) = WriteNextHeader zlib (contents buffer) (word_of_nat (dsize buffer)) (output, builder)
        in bnd (modify (apsnd (\<lambda>_. output @ contents buffer))) (\<lambda>_. ret (p, builder))))))))"

primrec save_all :: "'s jl_socket \<Rightarrow> nat \<Rightarrow> crc_function option \<Rightarrow> u16 list \<Rightarrow> jl_packet \<Rightarrow> cod_builder
    \<Rightarrow> ('s \<times> bytes, cod_builder) st" where
  "save_all k fuel zlib [] p builder = ret builder"
| "save_all k fuel zlib (i # ids) p builder =
     bnd (SaveData k fuel zlib p i builder) (\<lambda>(p, builder). save_all k fuel zlib ids p builder)"

definition Loader_Save :: "'s jl_socket \<Rightarrow> nat \<Rightarrow> crc_function option \<Rightarrow> bytes \<Rightarrow> ('s \<times> bytes, unit) st" where
  "Loader_Save k fuel zlib cod_name =
     bnd (on_sock (module_id k ''JavaLoader::Save'' '': expected module ID, but not available'' cod_name)) (\<lambda>(p, i).
     bnd (lift (GetSubDir i p)) (\<lambda>p.
     bnd (on_sock (acked k ''JavaLoader::Save'' p)) (\<lambda>r.
     bnd (lift (JLPacket_Size r)) (\<lambda>expect.
     bnd (on_sock (ls_Receive k)) (\<lambda>response.
     bnd (lift (CheckSize response (SB_JLPACKET_HEADER_SIZE + unat expect))) (\<lambda>_.
     let ids = id_table (take (unat expect) (drop SB_JLPACKET_HEADER_SIZE response))
     in bnd (save_all k fuel zlib ids p (CodFileBuilder_new cod_name (unat expect div 2))) (\<lambda>builder.
          modify (apsnd (\<lambda>output. WriteFooter output builder)))))))))"

section \<open>Event log and device information\<close>

text \<open>
  The size of an entry comes from the packet and is not compared with what has arrived:
  what lies behind the packet is read. An exception loses the entries in this model, while
  the caller's list keeps them.
\<close>

definition log_entry_text :: "bytes \<Rightarrow> bytes res" where
  "log_entry_text response =
     (let n = unat (be16_at response SB_JLPACKET_HEADER_SIZE);
          start = SB_JLPACKET_HEADER_SIZE + SB_JLEVENTLOG_ENTRY_HEADER_SIZE
      in if length response < start + n then Inl (UB ''read past the end of the data'')
         else Inr (take n (drop start response)))"

primrec eventlog_loop :: "'s jl_socket \<Rightarrow> u16 list \<Rightarrow> jl_packet \<Rightarrow> jl_log_entry list \<Rightarrow> ('s, jl_log_entry list) st" where
  "eventlog_loop k [] p log = ret log"
| "eventlog_loop k (i # is) p log =
     bnd (lift (GetEventlogEntry i p)) (\<lambda>p.
     bnd (acked k ''JavaLoader::GetEventlog'' p) (\<lambda>r.
     bnd (ls_Receive k) (\<lambda>response.
     bnd (lift (CheckSize response (SB_JLPACKET_HEADER_SIZE + SB_JLEVENTLOG_ENTRY_HEADER_SIZE))) (\<lambda>_.
     bnd (lift (log_entry_text response)) (\<lambda>src.
     bnd (lift (JLEventlogEntry_Parse src)) (\<lambda>entry.
       eventlog_loop k is p (log @ [entry])))))))"

definition GetEventlog :: "'s jl_socket \<Rightarrow> jl_log_entry list \<Rightarrow> ('s, jl_log_entry list) st" where
  "GetEventlog k log =
     bnd (lift (SimpleCmd SB_COMMAND_JL_GET_LOG 0 0 JLPacket_new)) (\<lambda>p.
     bnd (acked k ''JavaLoader::GetEventlog'' p) (\<lambda>r.
     bnd (ls_Receive k) (\<lambda>response.
     bnd (lift (CheckSize response (SB_JLPACKET_HEADER_SIZE + 2))) (\<lambda>_.
     bnd (lift (rd16 response (SB_JLPACKET_HEADER_SIZE + 2))) (\<lambda>expect.
       eventlog_loop k (map word_of_nat [0..<unat (bbswap_16 expect)]) p log)))))"

record version_quad =
  vq_Major :: u32
  vq_Minor :: u32
  vq_SubMinor :: u32
  vq_Build :: u32

definition VersionQuad :: "u32 \<Rightarrow> version_quad" where
  "VersionQuad v = \<lparr>vq_Major = drop_bit 24 (v AND 0xff000000), vq_Minor = drop_bit 16 (v AND 0xff0000),
     vq_SubMinor = drop_bit 8 (v AND 0xff00), vq_Build = v AND 0xff\<rparr>"

record jl_device_info =
  HardwareId :: u32
  jl_Pin :: u32
  OsVersion :: version_quad
  VmVersion :: version_quad
  RadioId :: u32
  VendorId :: u32
  ActiveWafs :: u32
  OsMetrics :: bytes
  BootromMetrics :: bytes

text \<open>A block of text that follows a command; the two buffers of the result start empty.\<close>

definition metrics :: "'s jl_socket \<Rightarrow> byte \<Rightarrow> jl_packet \<Rightarrow> ('s, jl_packet \<times> bytes) st" where
  "metrics k cmd p =
     bnd (lift (SimpleCmd cmd 0 0 p)) (\<lambda>p.
     bnd (acked k ''JavaLoader::DeviceInfo'' p) (\<lambda>r.
     bnd (ls_Receive k) (\<lambda>response.
     bnd (lift (CheckSize response SB_JLPACKET_HEADER_SIZE)) (\<lambda>_.
       ret (p, drop SB_JLPACKET_HEADER_SIZE response)))))"

definition DeviceInfo :: "'s jl_socket \<Rightarrow> ('s, jl_device_info) st" where
  "DeviceInfo k =
     bnd (lift (SimpleCmd SB_COMMAND_JL_DEVICE_INFO 0 0 JLPacket_new)) (\<lambda>p.
     bnd (acked k ''JavaLoader::DeviceInfo'' p) (\<lambda>r.
     bnd (ls_Receive k) (\<lambda>response.
     bnd (lift (CheckSize response (SB_JLPACKET_HEADER_SIZE + SB_JLDEVICEINFO_SIZE))) (\<lambda>_.
     let w = (\<lambda>i. be32_at response (SB_JLPACKET_HEADER_SIZE + 4 * i))
     in bnd (metrics k SB_COMMAND_JL_OS_METRICS p) (\<lambda>(p, os).
        bnd (metrics k SB_COMMAND_JL_BOOTROM_METRICS p) (\<lambda>(p, boot).
          ret \<lparr>HardwareId = w 0, jl_Pin = w 1, OsVersion = VersionQuad (w 2), VmVersion = VersionQuad (w 3),
               RadioId = w 4, VendorId = w 5, ActiveWafs = w 6, OsMetrics = os, BootromMetrics = boot\<rparr>))))))"

end
