(* ===== verification/Loader_Link.thy ===== *)
theory Loader_Link imports Java_Loader Record_Link begin

text \<open>
  What the Java loader mode puts on its socket and what it makes of the answers. The
  interface is a locale: a script says how the device answers the coming exchanges and
  plain reads, the laws are that a packet is answered as the script says and that its
  buffers appear on the wire. The interpretation proves them for a routed socket. Inside
  the locale: loading an application sends its modules in pieces, saving one writes the
  file of its modules. A request is given by its bytes behind the two socket bytes, which
  the socket fills in.
\<close>

section \<open>Requests\<close>

definition jl_requests :: "jl_packet \<Rightarrow> bytes list" where
  "jl_requests p = contents (m_cmd p) # (if HasData p then [contents (jl_data p)] else [])"

definition jl_sendable :: "bytes \<Rightarrow> bool" where
  "jl_sendable b \<longleftrightarrow> 5 \<le> length b \<and> length b \<le> MAX_PACKET_DATA_SIZE"

definition jl_ok :: "jl_packet \<Rightarrow> bool" where
  "jl_ok p \<longleftrightarrow> data_ok (m_cmd p) \<and> data_ok (jl_data p)"

definition requests :: "jl_packet \<Rightarrow> bytes list \<Rightarrow> bool" where
  "requests p bodies \<longleftrightarrow> jl_ok p \<and> map (drop 2) (jl_requests p) = bodies \<and> list_all jl_sendable (jl_requests p)"

definition cmd_body :: "byte \<Rightarrow> byte \<Rightarrow> nat \<Rightarrow> bytes" where
  "cmd_body c u n = le16 8 @ [c, u] @ le16 (word_of_nat n)"

definition data_body :: "bytes \<Rightarrow> bytes" where
  "data_body src = le16 (word_of_nat (4 + length src)) @ src"

lemma jl_ok_new [simp]: "jl_ok JLPacket_new"
  by (simp add: jl_ok_def JLPacket_new_def Data_new_def data_ok_def)

lemma requests_ok: "requests p bs \<Longrightarrow> jl_ok p" "requests p bs \<Longrightarrow> length (jl_requests p) = length bs"
  by (auto simp: requests_def)

lemma SimpleCmd_requests:
  assumes "jl_ok p"
  shows "\<exists>p'. SimpleCmd c u (word_of_nat n) p = Inr p' \<and> requests p' [cmd_body c u n]"
proof -
  let ?cs = "[le16 8, [c], [u], le16 (word_of_nat n)] :: bytes list"
  have "place 2 ?cs = [(2, le16 8), (4, [c]), (5, [u]), (6, le16 (word_of_nat n))]" "8 = 2 + length (concat ?cs)" by simp_all
  then obtain d s0 s1 where d: "fill (m_cmd p) 8 [(2, le16 8), (4, [c]), (5, [u]), (6, le16 (word_of_nat n))] = Inr d"
      "data_ok d" "contents d = [s0, s1] @ concat ?cs"
    using fill_packet[of "m_cmd p" _ ?cs 8] assms unfolding jl_ok_def by metis
  have "SimpleCmd c u (word_of_nat n) p = Inr (p\<lparr>m_cmd := d, m_last_set_size := 1\<rparr>)"
    by (simp add: SimpleCmd_def layout_simps d(1))
  then show ?thesis
    using assms d(2,3) by (simp add: requests_def jl_ok_def jl_requests_def HasData_def cmd_body_def jl_sendable_def layout_simps)
qed

lemma SimpleData_requests:
  assumes "requests p [c]" "src \<noteq> []" "length src \<le> max_data_size"
  shows "\<exists>p'. SimpleData src p = Inr p' \<and> requests p' [c, data_body src]"
proof -
  have n: "unat (word_of_nat (length src) + 4 :: u16) = 4 + length src" "length src \<le> 2040"
    using unat_ucast_u16[of "4 + length src"] assms(3) by (simp_all add: add.commute layout_simps)
  obtain d s0 s1 where "fill (jl_data p) (4 + length src) [(2, le16 (word_of_nat (length src) + 4)), (4, src)] = Inr d"
      "data_ok d" "contents d = [s0, s1] @ le16 (word_of_nat (length src) + 4) @ src"
    using fill_packet[of "jl_data p" "[(2, le16 (word_of_nat (length src) + 4)), (4, src)]"
        "[le16 (word_of_nat (length src) + 4), src]" "4 + length src"] assms(1)
    by (auto simp: requests_def jl_ok_def)
  then show ?thesis
    using assms(1,2) n
    by (cases src) (auto simp: SimpleData_def Let_def layout_simps requests_def jl_ok_def jl_requests_def HasData_def
        data_body_def jl_sendable_def add.commute)
qed

lemma command_with_data:
  assumes "jl_ok p" "src \<noteq> []" "length src \<le> max_data_size"
  shows "\<exists>p'. rbind (SimpleCmd c u (word_of_nat n) p) (SimpleData src) = Inr p' \<and> requests p' [cmd_body c u n, data_body src]"
  using SimpleCmd_requests[OF assms(1), of c u n] SimpleData_requests[OF _ assms(2,3)] by fastforce

text \<open>The commands that carry data.\<close>

definition be16_bytes :: "nat \<Rightarrow> bytes" where "be16_bytes n = rev (le16 (word_of_nat n))"
definition be32_bytes :: "nat \<Rightarrow> bytes" where "be32_bytes n = rev (le32 (word_of_nat n))"

lemma builder_requests:
  assumes "jl_ok p"
  shows "\<exists>p'. SetCodSize (word_of_nat n) p = Inr p' \<and> requests p' [cmd_body 0x67 1 4, data_body (be32_bytes n)]"
    "src \<noteq> [] \<Longrightarrow> length src \<le> max_data_size \<Longrightarrow>
      \<exists>p'. PutData src p = Inr p' \<and> requests p' [cmd_body 0x68 0 (length src), data_body src]"
    "src \<noteq> [] \<Longrightarrow> length src \<le> max_data_size \<Longrightarrow>
      \<exists>p'. SetCodFilename src p = Inr p' \<and> requests p' [cmd_body 0x80 0 (length src), data_body src]"
    "\<exists>p'. GetSubDir (word_of_nat n) p = Inr p' \<and> requests p' [cmd_body 0x7f 0 2, data_body (be16_bytes n)]"
    "\<exists>p'. SaveModule (word_of_nat n) p = Inr p' \<and> requests p' [cmd_body 0x7e 0 2, data_body (be16_bytes n)]"
proof -
  have c: "(ucast (word_of_nat n :: u64) :: u32) = word_of_nat n" by (rule bit_word_eqI) (simp add: bit_simps)
  have l: "be32_bytes n \<noteq> []" "be16_bytes n \<noteq> []" "length (be32_bytes n) \<le> max_data_size" "length (be16_bytes n) \<le> max_data_size"
    by (simp_all add: be32_bytes_def be16_bytes_def le32_def le16_def layout_simps)
  show "\<exists>p'. SetCodSize (word_of_nat n) p = Inr p' \<and> requests p' [cmd_body 0x67 1 4, data_body (be32_bytes n)]"
    using command_with_data[OF assms l(1,3), of "0x67" 1 4]
    by (simp add: SetCodSize_def BigEndianData32_def[abs_def] be32_bytes_def le32_bbswap c layout_simps)
  show "\<exists>p'. GetSubDir (word_of_nat n) p = Inr p' \<and> requests p' [cmd_body 0x7f 0 2, data_body (be16_bytes n)]"
    "\<exists>p'. SaveModule (word_of_nat n) p = Inr p' \<and> requests p' [cmd_body 0x7e 0 2, data_body (be16_bytes n)]"
    using command_with_data[OF assms l(2,4), of "0x7f" 0 2] command_with_data[OF assms l(2,4), of "0x7e" 0 2]
    by (simp_all add: GetSubDir_def SaveModule_def BigEndianData16_def[abs_def] be16_bytes_def le16_bbswap layout_simps)
  assume s: "src \<noteq> []" "length src \<le> max_data_size"
  then have t: "unat (word_of_nat (length src) :: u16) = length src" by (simp add: layout_simps)
  show "\<exists>p'. PutData src p = Inr p' \<and> requests p' [cmd_body 0x68 0 (length src), data_body src]"
    "\<exists>p'. SetCodFilename src p = Inr p' \<and> requests p' [cmd_body 0x80 0 (length src), data_body src]"
    using command_with_data[OF assms s, of "0x68" 0 "length src"] command_with_data[OF assms s, of "0x80" 0 "length src"]
    by (simp_all add: PutData_def SetCodFilename_def t layout_simps)
qed

section \<open>The interface\<close>

definition jl_answer :: "bytes \<Rightarrow> bool" where
  "jl_answer r \<longleftrightarrow> CheckSize r 5 = Inr () \<and> byte_at r 4 \<notin> {SB_COMMAND_SEQUENCE_HANDSHAKE, SB_DATA_JL_INVALID, SB_COMMAND_JL_NOT_SUPPORTED}"

text \<open>
  A script is a list of answers with the number of transfers each one takes; no transfer
  means a plain read. \<open>wire\<close> is what a request becomes on the wire.
\<close>

locale loader_link =
  fixes k :: "'s jl_socket" and answers :: "'s \<Rightarrow> (nat \<times> bytes) list \<Rightarrow> bool"
    and wire :: "'s \<Rightarrow> bytes \<Rightarrow> 'w list" and written :: "'s \<Rightarrow> 'w list"
  assumes Packet_answered: "answers s ((length (jl_requests p), r) # rs) \<Longrightarrow> list_all jl_sendable (jl_requests p) \<Longrightarrow> jl_answer r \<Longrightarrow>
      \<exists>s'. ls_Packet k p s = (Inr r, s') \<and> answers s' rs
        \<and> written s' = written s @ concat (map (wire s) (map (drop 2) (jl_requests p))) \<and> wire s' = wire s"
    and Receive_answered: "answers s ((0, r) # rs) \<Longrightarrow>
      \<exists>s'. ls_Receive k s = (Inr r, s') \<and> answers s' rs \<and> written s' = written s \<and> wire s' = wire s"

lemma zoom_pair [simp]:
  "on_sock m (s, t) = (fst (m s), (snd (m s), t))" "on_stream m' (s, t) = (fst (m' t), (s, snd (m' t)))"
  by (simp_all add: zoom_def split: prod.splits)

text \<open>An acknowledgement, and the pieces a module is sent in.\<close>

definition is_ack :: "bytes \<Rightarrow> bool" where
  "is_ack r \<longleftrightarrow> CheckSize r 5 = Inr () \<and> byte_at r 4 = SB_COMMAND_JL_ACK"

function pieces :: "bytes \<Rightarrow> bytes list" where
  "pieces m = (if m = [] then [] else take max_data_size m # pieces (drop max_data_size m))"
  by pat_completeness auto
termination by (relation "measure length") (auto simp: layout_simps)

declare pieces.simps [simp del]

definition piece_bodies :: "bytes \<Rightarrow> bytes list" where
  "piece_bodies c = [cmd_body 0x68 0 (length c), data_body c]"

definition module_bodies :: "bytes \<Rightarrow> bytes list" where
  "module_bodies m = [cmd_body 0x67 1 4, data_body (be32_bytes (length m))] @ concat (map piece_bodies (pieces m))"

definition module_answers :: "bytes \<Rightarrow> nat" where
  "module_answers m = Suc (length (pieces m))"

context loader_link begin

definition after :: "'s \<Rightarrow> bytes list \<Rightarrow> (nat \<times> bytes) list \<Rightarrow> 's \<Rightarrow> bool" where
  "after s bodies rs s' \<longleftrightarrow> answers s' rs \<and> written s' = written s @ concat (map (wire s) bodies) \<and> wire s' = wire s"

lemma after_trans: "after s bs rs s' \<Longrightarrow> after s' bs' rs' s'' \<Longrightarrow> after s (bs @ bs') rs' s''"
  by (simp add: after_def)

lemma after_answers: "after s bs rs s' \<Longrightarrow> answers s' rs"
  by (simp add: after_def)

lemma jl_exchange_ok:
  assumes "requests p bodies" "answers s ((length bodies, r) # rs)" "jl_answer r"
  shows "\<exists>s'. jl_exchange k p s = (Inr (byte_at r 4, r), s') \<and> after s bodies rs s'"
proof -
  have b: "length (jl_requests p) = length bodies" "list_all jl_sendable (jl_requests p)" "map (drop 2) (jl_requests p) = bodies"
    using assms(1) by (auto simp: requests_def)
  have "5 \<le> length r" using assms(3) CheckSize_Inr_length by (auto simp: jl_answer_def)
  then have "Packet_Command r = Inr (byte_at r 4)" using assms(3)
    by (auto simp: Packet_Command_def jl_answer_def layout_simps rd8_def)
  moreover obtain s' where "ls_Packet k p s = (Inr r, s')" "answers s' rs" "wire s' = wire s"
      "written s' = written s @ concat (map (wire s) bodies)"
    using Packet_answered[OF _ b(2) assms(3), of s rs, unfolded b(1,3)] assms(2) by blast
  ultimately show ?thesis by (auto simp: jl_exchange_def after_def)
qed

lemma acked_ok:
  assumes "requests p bodies" "answers s ((length bodies, r) # rs)" "is_ack r"
  shows "\<exists>s'. acked k msg p s = (Inr r, s') \<and> after s bodies rs s'"
proof -
  have "jl_answer r" "byte_at r 4 = SB_COMMAND_JL_ACK" using assms(3) by (auto simp: is_ack_def jl_answer_def layout_simps)
  then show ?thesis using jl_exchange_ok[OF assms(1,2)] by (auto simp: acked_def)
qed

lemma refused:
  assumes "requests p bodies" "answers s ((length bodies, r) # rs)" "jl_answer r" "byte_at r 4 \<noteq> SB_COMMAND_JL_ACK"
  shows "\<exists>s'. acked k msg p s = (Inl (ThrowJLError msg (byte_at r 4)), s') \<and> after s bodies rs s'"
  using jl_exchange_ok[OF assms(1-3)] assms(4) by (auto simp: acked_def)

lemma receive_ok:
  assumes "answers s ((0, r) # rs)"
  shows "\<exists>s'. ls_Receive k s = (Inr r, s') \<and> after s [] rs s'"
  using Receive_answered[OF assms] by (auto simp: after_def)

text \<open>Sending a module.\<close>

lemma send_data_sends:
  assumes "jl_ok p" "at_rest t (m @ rest)" "answers s (map (Pair 2) acks @ rs)" "list_all is_ack acks" "length acks = length (pieces m)"
  shows "\<exists>s' t'. send_data k (length m) p (s, t) = (Inr (), (s', t')) \<and> after s (concat (map piece_bodies (pieces m))) rs s'
    \<and> at_rest t' rest \<and> same_file t t'"
  using assms
proof (induction m arbitrary: p s t acks rule: pieces.induct)
  case (1 m)
  show ?case
  proof (cases "m = []")
    case True
    then show ?thesis using "1.prems" by (simp add: send_data.simps pieces.simps[of "[]"] after_def same_file_def)
  next
    case False
    define c where "c = take max_data_size m"
    define m' where "m' = drop max_data_size m"
    have m: "m = c @ m'" "c \<noteq> []" "length c \<le> max_data_size" "min (length m) max_data_size = length c" "pieces m = c # pieces m'"
      "length m - length c = length m'"
      using False by (auto simp: c_def m'_def layout_simps pieces.simps[of m])
    obtain a acks' where a: "acks = a # acks'" using "1.prems"(5) m(5) by (cases acks) auto
    obtain t1 where t1: "read_or ''JavaLoader::SendStream: input stream read failed'' (length c) t = (Inr c, t1)"
        "at_rest t1 (m' @ rest)" "same_file t t1"
      using read_or_ok[of t c "m' @ rest"] "1.prems"(2) m(1) by auto
    obtain p1 where p1: "PutData c p = Inr p1" "requests p1 (piece_bodies c)"
      using builder_requests(2)[OF "1.prems"(1) m(2,3)] by (auto simp: piece_bodies_def)
    have ack: "jl_answer a" "byte_at a 4 = SB_COMMAND_JL_ACK" "byte_at a 4 \<noteq> SB_COMMAND_JL_NOT_ENOUGH_MEMORY"
      using "1.prems"(4) a by (auto simp: is_ack_def jl_answer_def layout_simps)
    have "answers s ((length (piece_bodies c), a) # map (Pair 2) acks' @ rs)" using "1.prems"(3) a by (simp add: piece_bodies_def numeral_2_eq_2)
    then obtain s1 where s1: "jl_exchange k p1 s = (Inr (byte_at a 4, a), s1)" "after s (piece_bodies c) (map (Pair 2) acks' @ rs) s1"
      using jl_exchange_ok[OF p1(2) _ ack(1)] by blast
    obtain s' t' where s': "send_data k (length m') p1 (s1, t1) = (Inr (), (s', t'))" "after s1 (concat (map piece_bodies (pieces m'))) rs s'"
        "at_rest t' rest" "same_file t1 t'"
      using "1.IH"[OF False, of p1 t1 s1 acks', folded m'_def] requests_ok(1)[OF p1(2)] t1(2) after_answers[OF s1(2)] "1.prems"(4,5) a m(5)
      by auto
    have "send_data k (length m) p (s, t) = send_data k (length m') p1 (s1, t1)"
      using False t1(1) p1(1) s1(1) ack(2,3) m(4,6)
      by (subst send_data.simps) (simp add: Let_def layout_simps bnd_def)
    then show ?thesis
      using s' after_trans[OF s1(2) s'(2)] m(5) t1(3) by (auto simp: same_file_def)
  qed
qed

lemma SendStream_sends:
  assumes "at_rest t (m @ rest)" "answers s (map (Pair 2) acks @ rs)" "list_all is_ack acks" "length acks = module_answers m"
    and "length m < 2 ^ 32"
  shows "\<exists>s' t'. SendStream k (word_of_nat (length m)) (s, t) = (Inr (), (s', t')) \<and> after s (module_bodies m) rs s'
    \<and> at_rest t' rest \<and> same_file t t'"
proof -
  obtain a acks' where a: "acks = a # acks'" using assms(4) by (cases acks) (auto simp: module_answers_def)
  have n: "ucast (word_of_nat (length m) :: u32) = (word_of_nat (length m) :: u64)" "unat (word_of_nat (length m) :: u32) = length m"
    using assms(5) by (simp_all add: unsigned_of_nat take_bit_nat_eq_self)
  obtain p where p: "SetCodSize (word_of_nat (length m)) JLPacket_new = Inr p" "requests p [cmd_body 0x67 1 4, data_body (be32_bytes (length m))]"
    using builder_requests(1)[OF jl_ok_new] by blast
  have "answers s ((length [cmd_body 0x67 1 4, data_body (be32_bytes (length m))], a) # map (Pair 2) acks' @ rs)" using assms(2) a by (simp add: numeral_2_eq_2)
  then obtain s1 where s1: "acked k ''JavaLoader::SendStream: set code size first'' p s = (Inr a, s1)"
      "after s [cmd_body 0x67 1 4, data_body (be32_bytes (length m))] (map (Pair 2) acks' @ rs) s1"
    using acked_ok[OF p(2), of s a] assms(3) a by auto
  obtain s' t' where "send_data k (length m) p (s1, t) = (Inr (), (s', t'))" "after s1 (concat (map piece_bodies (pieces m))) rs s'"
      "at_rest t' rest" "same_file t t'"
    using send_data_sends[OF requests_ok(1)[OF p(2)] assms(1) after_answers[OF s1(2)]] assms(3,4) a by (auto simp: module_answers_def)
  then show ?thesis
    using after_trans[OF s1(2)] p(1) s1(1) by (auto simp: SendStream_def n module_bodies_def bnd_def)
qed

text \<open>Loading an application: a packed file, or one simple module.\<close>

lemma LoadApp_packed:
  assumes "at_rest t (packed zlib name i mods @ tail)" "answers s (map (Pair 2) acks @ rs)" "list_all is_ack acks"
    and "length acks = sum_list (map module_answers mods)"
    and "list_all (\<lambda>m. m \<noteq> [] \<and> length m < 2 ^ 32) mods"
    and "\<forall>j < length mods. length (cod_file_name name (word_of_nat (i + j))) < 65536"
    and "\<And>t. at_rest t tail \<Longrightarrow> \<exists>t'. SeekNextCod t = (Inr 0, t')"
  shows "\<exists>s' t'. LoadApp k (Suc (length mods)) (s, t) = (Inr (), (s', t')) \<and> after s (concat (map module_bodies mods)) rs s'"
  using assms(1-6)
proof (induction mods arbitrary: i s t acks)
  case Nil
  then show ?case using assms(7)[of t] by (auto simp: after_def)
next
  case (Cons m ms)
  define a1 where "a1 = take (module_answers m) acks"
  define a2 where "a2 = drop (module_answers m) acks"
  have a: "acks = a1 @ a2" "length a1 = module_answers m" "length a2 = sum_list (map module_answers ms)" "list_all is_ack a1" "list_all is_ack a2"
    using Cons.prems(3,4) by (auto simp: a1_def a2_def list_all_iff dest: in_set_takeD in_set_dropD)
  obtain t1 where t1: "SeekNextCod t = (Inr (word_of_nat (length m)), t1)" "at_rest t1 (m @ packed zlib name (Suc i) ms @ tail)"
    using SeekNextCod_local[of t _ _ "cod_file_name name (word_of_nat i)"] Cons.prems(1,6)
    by (fastforce simp: local_entry_def Let_def)
  have ans: "answers s (map (Pair 2) a1 @ map (Pair 2) a2 @ rs)" using Cons.prems(2) a(1) by simp
  obtain s1 t2 where s1: "SendStream k (word_of_nat (length m)) (s, t1) = (Inr (), (s1, t2))" "after s (module_bodies m) (map (Pair 2) a2 @ rs) s1"
      "at_rest t2 (packed zlib name (Suc i) ms @ tail)"
    using SendStream_sends[OF t1(2) ans a(4,2)] Cons.prems(5) by auto
  have n: "\<forall>j < length ms. length (cod_file_name name (word_of_nat (Suc i + j))) < 65536"
  proof (intro allI impI)
    fix j assume "j < length ms"
    then show "length (cod_file_name name (word_of_nat (Suc i + j))) < 65536" using Cons.prems(6)[rule_format, of "Suc j"] by simp
  qed
  obtain s' t' where s': "LoadApp k (Suc (length ms)) (s1, t2) = (Inr (), (s', t'))" "after s1 (concat (map module_bodies ms)) rs s'"
    using Cons.IH[OF s1(3) after_answers[OF s1(2)] a(5,3) _ n] Cons.prems(5) by auto
  have "(word_of_nat (length m) :: u32) \<noteq> 0"
    using Cons.prems(5) unsigned_of_nat[of "length m", where 'a = nat and 'b = 32] by (auto simp: take_bit_nat_eq_self unat_eq_zero[symmetric])
  then have "LoadApp k (Suc (length (m # ms))) (s, t) = LoadApp k (Suc (length ms)) (s1, t2)"
    using t1(1) s1(1) by (simp add: bnd_def del: LoadApp.simps(2)) (subst LoadApp.simps(2), simp add: bnd_def)
  then show ?case using s' after_trans[OF s1(2) s'(2)] by auto
qed

lemma LoadApp_simple:
  assumes "at_rest t m" "is_pos t = 0" "is_seekable t" "take 2 m = CODFILE_TYPE_SIMPLE" "4 \<le> length m" "length m < 2 ^ 32"
    and "answers s (map (Pair 2) acks @ rs)" "list_all is_ack acks" "length acks = module_answers m"
  shows "\<exists>s' t'. LoadApp k 2 (s, t) = (Inr (), (s', t')) \<and> after s (module_bodies m) rs s'"
proof -
  have f: "is_bytes t = m" using assms(1,2) by (simp add: at_rest_def)
  obtain t1 where t1: "SeekNextCod t = (Inr (word_of_nat (length m)), t1)" "at_rest t1 (m @ [])"
    using read_signature[of t "take 4 m" "drop 4 m"] assms(1,3,4,5) f
    by (auto simp: layout_simps at_rest_def same_file_def)
  obtain s1 t2 where s1: "SendStream k (word_of_nat (length m)) (s, t1) = (Inr (), (s1, t2))" "after s (module_bodies m) rs s1" "at_rest t2 []"
    using SendStream_sends[OF t1(2) assms(7-9,6)] by auto
  have "(word_of_nat (length m) :: u32) \<noteq> 0"
    using assms(5,6) unsigned_of_nat[of "length m", where 'a = nat and 'b = 32] by (auto simp: take_bit_nat_eq_self unat_eq_zero[symmetric])
  then show ?thesis
    using t1(1) s1 SeekNextCod_end[OF s1(3)] by (auto simp: numeral_2_eq_2 bnd_def)
qed

end

section \<open>A routed socket provides the interface\<close>

text \<open>ResetOnClose of src/src/socket.h only sets a flag.\<close>

definition set_ResetOnClose :: "bool \<Rightarrow> (conn, unit) st" where
  "set_ResetOnClose b = modify (\<lambda>c. c\<lparr>sk := (sk c)\<lparr>m_resetOnClose := b\<rparr>\<rparr>)"

definition routed_socket :: "handlers \<Rightarrow> nat \<Rightarrow> conn jl_socket" where
  "routed_socket h fuel =
     \<lparr>ls_Packet = Packet_JL (Socket_SyncSend h) (Socket_Receive h) fuel, ls_Receive = Socket_Receive h,
      ls_ResetOnClose = set_ResetOnClose\<rparr>"

text \<open>
  Each transfer is acknowledged by a sequence packet; between the last one and the answer
  there may be sequence packets and a few blanks.
\<close>

fun jl_script :: "nat \<Rightarrow> (nat \<times> bytes) list \<Rightarrow> bytes list \<Rightarrow> bool" where
  "jl_script fuel [] xs \<longleftrightarrow> True"
| "jl_script fuel ((n, r) # rs) xs \<longleftrightarrow> (\<exists>acks ns zs. xs = acks @ ns @ r # zs \<and> length acks = n
     \<and> list_all IsSequencePacket acks \<and> gap_ok ns \<and> (n = 0 \<longrightarrow> ns = []) \<and> length ns < fuel \<and> jl_script fuel rs zs)"

definition jl_answers :: "nat \<Rightarrow> conn \<Rightarrow> (nat \<times> bytes) list \<Rightarrow> bool" where
  "jl_answers fuel c rs \<longleftrightarrow> can_write c \<and> (\<exists>xs. sock_offers c xs \<and> jl_script fuel rs xs)"

definition jl_wire :: "conn \<Rightarrow> bytes \<Rightarrow> bytes list" where
  "jl_wire c body = on_wire (m_socket (sk c)) ([0, 0] @ body)"

lemma on_wire_body: "5 \<le> length b \<Longrightarrow> on_wire s ([0, 0] @ drop 2 b) = on_wire s b"
  by (cases b; cases "tl b") (auto simp: on_wire_def le16_def overwrite.simps)

lemma jl_round_answer: "jl_answer r \<Longrightarrow> jl_round False bc r = Inr (True, 0)"
  using CheckSize_Inr_length[of r 5] by (auto simp: jl_answer_def jl_round_def Let_def layout_simps)

context packet_source begin

definition jl_read :: "nat \<Rightarrow> nat \<Rightarrow> ('s, bytes) st" where
  "jl_read fuel bc = bnd Receive (\<lambda>inFrag. round_loop (jl_round False) Receive fuel bc inFrag)"

lemma jl_read_answer:
  assumes "list_all (\<lambda>n. n = [] \<or> CheckSize n 5 = Inr () \<and> byte_at n 4 = SB_COMMAND_SEQUENCE_HANDSHAKE) ns"
    and "bc + length (filter (\<lambda>n. n = []) ns) < 10" and "jl_answer r" and "length ns < fuel" and "offers s (ns @ r # rest)"
  shows "\<exists>s'. jl_read fuel bc s = (Inr r, s') \<and> offers s' rest"
  using assms
proof (induction ns arbitrary: bc s fuel)
  case Nil
  then obtain f where "fuel = Suc f" by (cases fuel) auto
  then show ?case using receive_offered[of s r rest] Nil.prems jl_round_answer[of r bc] by (auto simp: jl_read_def)
next
  case (Cons n ns)
  obtain f where f: "fuel = Suc f" "length ns < f" using Cons.prems(4) by (cases fuel) auto
  obtain s1 where s1: "Receive s = (Inr n, s1)" "offers s1 (ns @ r # rest)" using receive_offered Cons.prems(5) by fastforce
  obtain bc' where b: "jl_round False bc n = Inr (False, bc')" "bc' + length (filter (\<lambda>n. n = []) ns) < 10"
  proof (cases "n = []")
    case True
    then show ?thesis using that[of "Suc bc"] Cons.prems(2) by (simp add: jl_round_def)
  next
    case False
    then show ?thesis using that[of 0] Cons.prems(1,2) by (simp add: jl_round_def layout_simps)
  qed
  have "jl_read fuel bc s = jl_read f bc' s1" using f(1) s1(1) b(1) by (simp add: jl_read_def)
  then show ?case using Cons.IH[OF _ b(2) Cons.prems(3) f(2) s1(2)] Cons.prems(1) by auto
qed

end

lemma PacketData_answered:
  assumes "can_write c" "jl_sendable b" "sock_offers c (a # ns @ r # zs)" "IsSequencePacket a" "gap_ok ns" "length ns < fuel" "jl_answer r"
  shows "\<exists>c'. PacketData (Socket_SyncSend h) (Socket_Receive h) fuel b False c = (Inr r, c') \<and> can_write c' \<and> sock_offers c' zs
    \<and> m_socket (sk c') = m_socket (sk c) \<and> sent (zr c') = sent (zr c) @ on_wire (m_socket (sk c)) b"
proof -
  obtain c1 where c1: "Socket_SyncSend h b c = (Inr (), c1)" "can_write c1" "sock_offers c1 (ns @ r # zs)"
      "m_socket (sk c1) = m_socket (sk c)" "sent (zr c1) = sent (zr c) @ on_wire (m_socket (sk c)) b"
    using Socket_SyncSend_ok[OF assms(1,3,4), of h b] by auto
  have "offers_still c1 c1 (ns @ r # zs)" using c1(3) by (simp add: offers_still_def)
  then obtain c2 where c2: "still_source.jl_read h fuel 0 c1 = (Inr r, c2)" "offers_still c1 c2 zs"
    using still_source.jl_read_answer[of ns 0 r fuel c1 c1 zs h] assms(5,6,7) by (auto simp: gap_ok_def)
  have "PacketData (Socket_SyncSend h) (Socket_Receive h) fuel b False c = (Inr r, c2)"
    using assms(2) c1(1) c2(1) by (simp add: PacketData_def jl_sendable_def layout_simps still_source.jl_read_def)
  then show ?thesis using c1 c2(2) by (auto simp: offers_still_def can_write_def)
qed

lemma routed_Packet:
  assumes "jl_answers fuel c ((length (jl_requests p), r) # rs)" "list_all jl_sendable (jl_requests p)" "jl_answer r"
  shows "\<exists>c'. Packet_JL (Socket_SyncSend h) (Socket_Receive h) fuel p c = (Inr r, c') \<and> jl_answers fuel c' rs
    \<and> sent (zr c') = sent (zr c) @ concat (map (jl_wire c) (map (drop 2) (jl_requests p))) \<and> jl_wire c' = jl_wire c"
proof -
  obtain acks ns zs where x: "can_write c" "sock_offers c (acks @ ns @ r # zs)" "length acks = length (jl_requests p)"
      "list_all IsSequencePacket acks" "gap_ok ns" "length ns < fuel" "jl_script fuel rs zs"
    using assms(1) by (auto simp: jl_answers_def)
  have w: "jl_wire c (drop 2 b) = on_wire (m_socket (sk c)) b" if "jl_sendable b" for b
    using that on_wire_body[of b] by (simp add: jl_wire_def jl_sendable_def)
  show ?thesis
  proof (cases "HasData p")
    case False
    then obtain a where "acks = [a]" using x(3) by (cases acks) (auto simp: jl_requests_def)
    then show ?thesis
      using PacketData_answered[OF x(1), of "contents (m_cmd p)" a ns r zs fuel h] x assms(2,3) False w
      by (auto simp: Packet_JL_def jl_requests_def jl_answers_def jl_wire_def fun_eq_iff)
  next
    case True
    then obtain a b where ab: "acks = [a, b]" using x(3) by (cases acks; cases "tl acks") (auto simp: jl_requests_def)
    obtain c1 where c1: "Socket_SyncSend h (contents (m_cmd p)) c = (Inr (), c1)" "can_write c1" "sock_offers c1 (b # ns @ r # zs)"
        "m_socket (sk c1) = m_socket (sk c)" "sent (zr c1) = sent (zr c) @ on_wire (m_socket (sk c)) (contents (m_cmd p))"
      using Socket_SyncSend_ok[OF x(1), of a "b # ns @ r # zs" h] x(2,4) ab by auto
    then show ?thesis
      using PacketData_answered[OF c1(2), of "contents (jl_data p)" b ns r zs fuel h] x ab assms(2,3) True w
      by (auto simp: Packet_JL_def jl_requests_def jl_answers_def jl_wire_def fun_eq_iff)
  qed
qed

lemma routed_Receive:
  assumes "jl_answers fuel c ((0, r) # rs)"
  shows "\<exists>c'. Socket_Receive h c = (Inr r, c') \<and> jl_answers fuel c' rs \<and> sent (zr c') = sent (zr c) \<and> jl_wire c' = jl_wire c"
proof -
  obtain zs where x: "can_write c" "sock_offers c (r # zs)" "jl_script fuel rs zs"
    using assms by (auto simp: jl_answers_def)
  then show ?thesis
    using Socket_Receive_offered[of c r zs h] by (auto simp: jl_answers_def can_write_def jl_wire_def fun_eq_iff)
qed

interpretation routed: loader_link "routed_socket h fuel" "jl_answers fuel" jl_wire "\<lambda>c. sent (zr c)"
  by unfold_locales (use routed_Packet routed_Receive in \<open>simp_all add: routed_socket_def del: map_map\<close>)

end
