(* ===== verification/Loader_Transfer.thy ===== *)
theory Loader_Transfer imports Loader_Link begin

text \<open>
  Saving an application from a device and loading one onto a device (the functions Save,
  SaveData, SendStream and LoadApp of src/src/m_javaloader.cc) as whole transfers: a
  scripted device sends its modules in pieces, the file that is written is the COD file
  of the modules, and loading that file sends the same modules. The loop of LoadApp ends on
  every file below 4 GiB.
\<close>

section \<open>What a device sends\<close>

definition dev_msg :: "bytes \<Rightarrow> bytes" where
  "dev_msg body = [0, 0] @ le16 (word_of_nat (4 + length body)) @ body"

definition dev_reply :: "byte \<Rightarrow> nat \<Rightarrow> bytes" where
  "dev_reply c n = dev_msg ([c, 0] @ le16 (word_of_nat n))"

definition piece_script :: "bytes \<Rightarrow> (nat \<times> bytes) list" where
  "piece_script c = [(1, dev_reply SB_COMMAND_JL_GET_DATA_ENTRY (length c)), (0, dev_msg c)]"

definition module_script :: "bytes list \<Rightarrow> (nat \<times> bytes) list" where
  "module_script cs = [(2, dev_reply SB_COMMAND_JL_ACK 0), (0, dev_msg (be32_bytes (length (concat cs))))]
     @ concat (map piece_script cs) @ [(1, dev_reply SB_COMMAND_JL_ACK 0)]"

definition id_bytes :: "u16 list \<Rightarrow> bytes" where "id_bytes ids = concat (map (\<lambda>i. rev (le16 i)) ids)"

definition save_script :: "u16 \<Rightarrow> u16 list \<Rightarrow> bytes list list \<Rightarrow> (nat \<times> bytes) list" where
  "save_script i ids css =
     [(2, dev_reply SB_COMMAND_JL_ACK 2), (0, dev_msg (rev (le16 i))),
      (2, dev_reply SB_COMMAND_JL_ACK (2 * length ids)), (0, dev_msg (id_bytes ids))]
     @ concat (map module_script css)"

text \<open>Pieces and modules that the size fields of the protocol can describe.\<close>

definition pieces_ok :: "bytes list \<Rightarrow> bool" where
  "pieces_ok cs \<longleftrightarrow> list_all (\<lambda>c. c \<noteq> [] \<and> length c < 65532) cs \<and> length (concat cs) < 2 ^ 32"

lemma length_dev_msg: "length (dev_msg body) = 4 + length body"
  by (simp add: dev_msg_def)

lemma dev_msg_size: "length body < 65532 \<Longrightarrow> CheckSize (dev_msg body) n = Inr () \<longleftrightarrow> n \<le> 4 + length body"
proof -
  assume "length body < 65532"
  then have "packet_size_field (dev_msg body) = length (dev_msg body)"
    using unat_ucast_u16[of "4 + length body"] by (simp add: packet_size_field_def dev_msg_def layout_simps)
  then show ?thesis by (simp add: CheckSize_ok_iff length_dev_msg)
qed

lemma drop_dev_msg: "drop 4 (dev_msg body) = body"
  by (simp add: dev_msg_def le16_def)

lemma dev_reply_facts:
  "CheckSize (dev_reply c n) 5 = Inr ()" "byte_at (dev_reply c n) 4 = c"
  "n < 65536 \<Longrightarrow> JLPacket_Size (dev_reply c n) = Inr (word_of_nat n)"
proof -
  have s: "CheckSize (dev_reply c n) j = Inr () \<longleftrightarrow> j \<le> 8" for j
    using dev_msg_size[of "[c, 0] @ le16 (word_of_nat n)"] by (simp add: dev_reply_def)
  show "CheckSize (dev_reply c n) 5 = Inr ()" by (simp add: s)
  show "byte_at (dev_reply c n) 4 = c" by (simp add: dev_reply_def dev_msg_def)
  have "get16 (dev_reply c n) 6 = word_of_nat n" by (simp add: dev_reply_def dev_msg_def)
  then show "JLPacket_Size (dev_reply c n) = Inr (word_of_nat n)"
    using s[of 8] length_dev_msg[of "[c, 0] @ le16 (word_of_nat n)"]
    by (simp add: JLPacket_Size_def layout_simps rd16_def dev_reply_def)
qed

lemma dev_reply_answer:
  "is_ack (dev_reply SB_COMMAND_JL_ACK n)" "jl_answer (dev_reply SB_COMMAND_JL_ACK n)" "jl_answer (dev_reply SB_COMMAND_JL_GET_DATA_ENTRY n)"
  by (simp_all add: is_ack_def jl_answer_def dev_reply_facts layout_simps)

lemma id_table_bytes: "id_table (id_bytes ids) = ids"
proof (induction ids)
  case (Cons i ids)
  have "get16 (rev (le16 i)) 0 = bbswap_16 i" unfolding le16_bbswap[symmetric] by (rule get16_le16(2))
  then show ?case using Cons by (simp add: id_bytes_def le16_def be16_at_def)
qed (simp add: id_bytes_def)

lemma length_id_bytes: "length (id_bytes ids) = 2 * length ids"
  by (induction ids) (auto simp: id_bytes_def)

lemma be_at_body:
  "be16_at (dev_msg (rev (le16 i))) 4 = i" "be32_at (dev_msg (rev (le32 n))) 4 = n"
proof -
  have "get16 (rev (le16 i)) 0 = bbswap_16 i" unfolding le16_bbswap[symmetric] by (rule get16_le16(2))
  then show "be16_at (dev_msg (rev (le16 i))) 4 = i" by (simp add: be16_at_def dev_msg_def)
  have "get32 (rev (le32 n)) 0 = bbswap_32 n" unfolding le32_bbswap[symmetric] by (rule get32_le32(2))
  then show "be32_at (dev_msg (rev (le32 n))) 4 = n" by (simp add: be32_at_def dev_msg_def)
qed

section \<open>Saving\<close>

lemma append_piece:
  assumes "data_ok d" "c \<noteq> []"
  shows "\<exists>d'. fill d (dsize d + length c) [(dsize d, c)] = Inr d' \<and> data_ok d' \<and> contents d' = contents d @ c"
proof -
  obtain d' old where d': "fill d (dsize d + length c) [(dsize d, c)] = Inr d'" "data_ok d'" "length old = dsize d + length c"
      "contents d' = poke_all [(dsize d, c)] old" "take (dsize d) old = contents d"
    using fill_spec[OF assms(1), of "dsize d + length c" "[(dsize d, c)]"] assms by (auto simp: min_def split: if_splits)
  then show ?thesis by (simp add: poke_all_def poke_def)
qed

text \<open>What a saving application sends.\<close>

definition fetch_bodies :: "bytes list \<Rightarrow> bytes list" where
  "fetch_bodies cs = replicate (Suc (length cs)) (cmd_body SB_COMMAND_JL_SEND_DATA 0 0)"

definition save_module_bodies :: "u16 \<Rightarrow> bytes list \<Rightarrow> bytes list" where
  "save_module_bodies i cs = [cmd_body 0x7e 0 2, data_body (rev (le16 i))] @ fetch_bodies cs"

definition save_bodies :: "bytes \<Rightarrow> u16 \<Rightarrow> u16 list \<Rightarrow> bytes list list \<Rightarrow> bytes list" where
  "save_bodies name i ids css =
     [cmd_body 0x80 0 (length name), data_body name, cmd_body 0x7f 0 2, data_body (rev (le16 i))]
     @ concat (map2 save_module_bodies ids css)"

lemma id_requests:
  assumes "jl_ok p"
  shows "\<exists>p'. GetSubDir i p = Inr p' \<and> requests p' [cmd_body 0x7f 0 2, data_body (rev (le16 i))]"
    "\<exists>p'. SaveModule i p = Inr p' \<and> requests p' [cmd_body 0x7e 0 2, data_body (rev (le16 i))]"
  using builder_requests(4,5)[OF assms, of "unat i"] by (simp_all add: be16_bytes_def)

context loader_link begin

text \<open>The two ways a request for data is answered: a piece, or the end.\<close>

lemma fetch_piece:
  assumes "jl_ok p" "answers s (piece_script c @ rest)"
  shows "\<exists>p1 s1 s2. SimpleCmd SB_COMMAND_JL_SEND_DATA 0 0 p = Inr p1 \<and> jl_ok p1
    \<and> jl_exchange k p1 s = (Inr (SB_COMMAND_JL_GET_DATA_ENTRY, dev_reply SB_COMMAND_JL_GET_DATA_ENTRY (length c)), s1)
    \<and> ls_Receive k s1 = (Inr (dev_msg c), s2) \<and> after s (fetch_bodies []) rest s2"
proof -
  obtain p1 where p1: "SimpleCmd SB_COMMAND_JL_SEND_DATA 0 0 p = Inr p1" "requests p1 [cmd_body SB_COMMAND_JL_SEND_DATA 0 0]"
    using SimpleCmd_requests[OF assms(1), of _ 0 0] by auto
  let ?r = "dev_reply SB_COMMAND_JL_GET_DATA_ENTRY (length c)"
  have "answers s ((length [cmd_body SB_COMMAND_JL_SEND_DATA 0 0], ?r) # (0, dev_msg c) # rest)"
    using assms(2) by (simp add: piece_script_def)
  then obtain s1 where s1: "jl_exchange k p1 s = (Inr (SB_COMMAND_JL_GET_DATA_ENTRY, ?r), s1)"
      "after s [cmd_body SB_COMMAND_JL_SEND_DATA 0 0] ((0, dev_msg c) # rest) s1"
    using jl_exchange_ok[OF p1(2) _ dev_reply_answer(3), unfolded dev_reply_facts(2)] by blast
  obtain s2 where s2: "ls_Receive k s1 = (Inr (dev_msg c), s2)" "after s1 [] rest s2" using receive_ok[OF after_answers[OF s1(2)]] by blast
  show ?thesis using p1(1) requests_ok(1)[OF p1(2)] s1(1) s2(1) after_trans[OF s1(2) s2(2)] by (auto simp: fetch_bodies_def)
qed

lemma fetch_end:
  assumes "jl_ok p" "answers s ((1, dev_reply SB_COMMAND_JL_ACK 0) # rest)"
  shows "\<exists>p1 s1. SimpleCmd SB_COMMAND_JL_SEND_DATA 0 0 p = Inr p1 \<and> jl_ok p1
    \<and> jl_exchange k p1 s = (Inr (SB_COMMAND_JL_ACK, dev_reply SB_COMMAND_JL_ACK 0), s1) \<and> after s (fetch_bodies []) rest s1"
proof -
  obtain p1 where p1: "SimpleCmd SB_COMMAND_JL_SEND_DATA 0 0 p = Inr p1" "requests p1 [cmd_body SB_COMMAND_JL_SEND_DATA 0 0]"
    using SimpleCmd_requests[OF assms(1), of _ 0 0] by auto
  have "answers s ((length [cmd_body SB_COMMAND_JL_SEND_DATA 0 0], dev_reply SB_COMMAND_JL_ACK 0) # rest)" using assms(2) by simp
  then obtain s1 where "jl_exchange k p1 s = (Inr (SB_COMMAND_JL_ACK, dev_reply SB_COMMAND_JL_ACK 0), s1)"
      "after s [cmd_body SB_COMMAND_JL_SEND_DATA 0 0] rest s1"
    using jl_exchange_ok[OF p1(2) _ dev_reply_answer(2), unfolded dev_reply_facts(2)] by blast
  then show ?thesis using p1(1) requests_ok(1)[OF p1(2)] by (auto simp: fetch_bodies_def)
qed

lemma save_loop_saves:
  assumes "jl_ok p" "data_ok d" "pieces_ok cs" "length (contents d) + length (concat cs) < 2 ^ 32" "length cs < fuel"
    and "answers s (concat (map piece_script cs) @ [(1, dev_reply SB_COMMAND_JL_ACK 0)] @ rs)"
  shows "\<exists>p' d' s'. save_loop k fuel p d (word_of_nat (dsize d)) s = (Inr (p', d'), s') \<and> jl_ok p' \<and> data_ok d'
    \<and> contents d' = contents d @ concat cs \<and> after s (fetch_bodies cs) rs s'"
  using assms
proof (induction cs arbitrary: p d s fuel)
  case Nil
  obtain f where f: "fuel = Suc f" using Nil by (cases fuel) auto
  obtain p1 s1 where "SimpleCmd SB_COMMAND_JL_SEND_DATA 0 0 p = Inr p1" "jl_ok p1"
      "jl_exchange k p1 s = (Inr (SB_COMMAND_JL_ACK, dev_reply SB_COMMAND_JL_ACK 0), s1)" "after s (fetch_bodies []) rs s1"
    using fetch_end[OF Nil(1), of s rs] Nil(6) by auto
  then show ?case using f Nil(2) by (auto simp: bnd_def)
next
  case (Cons c cs)
  obtain f where f: "fuel = Suc f" "length cs < f" using Cons.prems(5) by (cases fuel) auto
  have c: "c \<noteq> []" "length c < 65532" "pieces_ok cs" using Cons.prems(3) by (auto simp: pieces_ok_def)
  let ?rest = "concat (map piece_script cs) @ [(1, dev_reply SB_COMMAND_JL_ACK 0)] @ rs"
  have "answers s (piece_script c @ ?rest)" using Cons.prems(6) by simp
  then obtain p1 s1 s2 where e: "SimpleCmd SB_COMMAND_JL_SEND_DATA 0 0 p = Inr p1" "jl_ok p1"
      "jl_exchange k p1 s = (Inr (SB_COMMAND_JL_GET_DATA_ENTRY, dev_reply SB_COMMAND_JL_GET_DATA_ENTRY (length c)), s1)"
      "ls_Receive k s1 = (Inr (dev_msg c), s2)" "after s (fetch_bodies []) ?rest s2"
    using fetch_piece[OF Cons.prems(1)] by blast
  have dl: "dsize d = length (contents d)" using Cons.prems(2) by simp
  obtain d1 where d1: "fill d (dsize d + length c) [(dsize d, c)] = Inr d1" "data_ok d1" "contents d1 = contents d @ c"
    using append_piece[OF Cons.prems(2) c(1)] by blast
  have n: "unat (word_of_nat (length c) :: u16) = length c" using c(2) by simp
  have o: "(word_of_nat (dsize d) :: u32) + ucast (word_of_nat (length c) :: u16) = word_of_nat (dsize d1)"
    using c(2) d1(2,3) dl by (simp add: unsigned_of_nat take_bit_nat_eq_self flip: of_nat_add)
      (metis length_append length_contents)
  have u: "unat (word_of_nat m :: u32) = m" if "m < 2 ^ 32" for m using that by (simp add: unsigned_of_nat take_bit_nat_eq_self)
  have d1s: "dsize d1 = dsize d + length c" using length_contents[OF d1(2)] d1(3) dl by simp
  have uu: "unat (word_of_nat (dsize d) :: u32) = dsize d" "unat (word_of_nat (dsize d1) :: u32) = dsize d + length c"
    using u[of "dsize d"] u[of "dsize d1"] Cons.prems(4) d1s unfolding dl by (simp_all del: of_nat_add)
  have step: "save_loop k fuel p d (word_of_nat (dsize d)) s = save_loop k f p1 d1 (word_of_nat (dsize d1)) s2"
    using f(1) e(1,3,4) d1(1) c(2) dev_reply_facts(3)[of "length c"] dev_msg_size[of c "4 + length c"] n uu
    by (simp add: layout_simps drop_dev_msg o bnd_def Let_def)
  have "length (contents d1) + length (concat cs) < 2 ^ 32" using Cons.prems(4) d1(3) by simp
  then obtain p' d' s' where s': "save_loop k f p1 d1 (word_of_nat (dsize d1)) s2 = (Inr (p', d'), s')" "jl_ok p'" "data_ok d'"
      "contents d' = contents d1 @ concat cs" "after s2 (fetch_bodies cs) rs s'"
    using Cons.IH[OF e(2) d1(2) c(3) _ f(2) after_answers[OF e(5)]] by auto
  have "after s (fetch_bodies (c # cs)) rs s'" using after_trans[OF e(5) s'(5)] by (simp add: fetch_bodies_def)
  then show ?case using s' d1(3) step by auto
qed

lemma screenshot_loop_collects:
  assumes "jl_ok p" "data_ok d" "pieces_ok cs" "length cs < fuel"
    and "answers s (concat (map piece_script cs) @ [(1, dev_reply SB_COMMAND_JL_ACK 0)] @ rs)"
  shows "\<exists>d' s'. screenshot_loop k fuel p d s = (Inr d', s') \<and> contents d' = contents d @ concat cs \<and> after s (fetch_bodies cs) rs s'"
  using assms
proof (induction cs arbitrary: p d s fuel)
  case Nil
  obtain f where f: "fuel = Suc f" using Nil by (cases fuel) auto
  obtain p1 s1 where "SimpleCmd SB_COMMAND_JL_SEND_DATA 0 0 p = Inr p1" "jl_ok p1"
      "jl_exchange k p1 s = (Inr (SB_COMMAND_JL_ACK, dev_reply SB_COMMAND_JL_ACK 0), s1)" "after s (fetch_bodies []) rs s1"
    using fetch_end[OF Nil(1), of s rs] Nil(5) by auto
  then show ?case using f by (auto simp: bnd_def)
next
  case (Cons c cs)
  obtain f where f: "fuel = Suc f" "length cs < f" using Cons.prems(4) by (cases fuel) auto
  have c: "c \<noteq> []" "length c < 65532" "pieces_ok cs" using Cons.prems(3) by (auto simp: pieces_ok_def)
  let ?rest = "concat (map piece_script cs) @ [(1, dev_reply SB_COMMAND_JL_ACK 0)] @ rs"
  have "answers s (piece_script c @ ?rest)" using Cons.prems(5) by simp
  then obtain p1 s1 s2 where e: "SimpleCmd SB_COMMAND_JL_SEND_DATA 0 0 p = Inr p1" "jl_ok p1"
      "jl_exchange k p1 s = (Inr (SB_COMMAND_JL_GET_DATA_ENTRY, dev_reply SB_COMMAND_JL_GET_DATA_ENTRY (length c)), s1)"
      "ls_Receive k s1 = (Inr (dev_msg c), s2)" "after s (fetch_bodies []) ?rest s2"
    using fetch_piece[OF Cons.prems(1)] by blast
  obtain d1 where d1: "fill d (dsize d + length c) [(dsize d, c)] = Inr d1" "data_ok d1" "contents d1 = contents d @ c"
    using append_piece[OF Cons.prems(2) c(1)] by blast
  have step: "screenshot_loop k fuel p d s = screenshot_loop k f p1 d1 s2"
    using f(1) e(1,3,4) d1(1) c(2) dev_reply_facts(3)[of "length c"] dev_msg_size[of c 4]
    by (simp add: layout_simps drop_dev_msg length_dev_msg bnd_def Let_def)
  obtain d' s' where s': "screenshot_loop k f p1 d1 s2 = (Inr d', s')" "contents d' = contents d1 @ concat cs" "after s2 (fetch_bodies cs) rs s'"
    using Cons.IH[OF e(2) d1(2) c(3) f(2) after_answers[OF e(5)]] by blast
  have "after s (fetch_bodies (c # cs)) rs s'" using after_trans[OF e(5) s'(3)] by (simp add: fetch_bodies_def)
  then show ?case using s' d1(3) step by auto
qed

lemma SaveData_saves:
  assumes "jl_ok p" "pieces_ok cs" "length cs < fuel" "answers s (module_script cs @ rs)"
  shows "\<exists>p' s'. SaveData k fuel zlib p i b (s, out)
      = (Inr (p', snd (write_module zlib (out, b) (concat cs))), (s', fst (write_module zlib (out, b) (concat cs))))
    \<and> jl_ok p' \<and> after s (save_module_bodies i cs) rs s'"
proof -
  obtain p1 where p1: "SaveModule i p = Inr p1" "requests p1 [cmd_body 0x7e 0 2, data_body (rev (le16 i))]"
    using id_requests(2)[OF assms(1)] by blast
  let ?rest = "concat (map piece_script cs) @ [(1, dev_reply SB_COMMAND_JL_ACK 0)] @ rs"
  let ?size = "dev_msg (be32_bytes (length (concat cs)))"
  have "answers s ((length [cmd_body 0x7e 0 2, data_body (rev (le16 i))], dev_reply SB_COMMAND_JL_ACK 0) # (0, ?size) # ?rest)"
    using assms(4) by (simp add: module_script_def numeral_2_eq_2)
  then obtain s1 where s1: "acked k ''JavaLoader::SaveData'' p1 s = (Inr (dev_reply SB_COMMAND_JL_ACK 0), s1)"
      "after s [cmd_body 0x7e 0 2, data_body (rev (le16 i))] ((0, ?size) # ?rest) s1"
    using acked_ok[OF p1(2) _ dev_reply_answer(1)] by blast
  obtain s2 where s2: "ls_Receive k s1 = (Inr ?size, s2)" "after s1 [] ?rest s2" using receive_ok[OF after_answers[OF s1(2)]] by blast
  have size: "CheckSize ?size 8 = Inr ()" using dev_msg_size[of "be32_bytes (length (concat cs))" 8] by (simp add: be32_bytes_def)
  let ?d = "Data_new (-1) (unat (be32_at ?size 4)) BARRY_DATA_DEFAULT_PREPEND_SIZE"
  have d: "data_ok ?d" "contents ?d = []" "dsize ?d = 0" by (simp_all add: Data_new_def data_ok_def contents_def)
  obtain p' d' s' where l: "save_loop k fuel p1 ?d 0 s2 = (Inr (p', d'), s')" "jl_ok p'" "data_ok d'" "contents d' = concat cs"
      "after s2 (fetch_bodies cs) rs s'"
    using save_loop_saves[OF requests_ok(1)[OF p1(2)] d(1) assms(2) _ assms(3) after_answers[OF s2(2)]] assms(2) d
    by (auto simp: pieces_ok_def)
  have n: "dsize d' = length (concat cs)" using length_contents[OF l(3)] l(4) by simp
  have "SaveData k fuel zlib p i b (s, out)
      = (Inr (p', snd (write_module zlib (out, b) (concat cs))), (s', fst (write_module zlib (out, b) (concat cs))))"
    using p1(1) s1(1) s2(1) size l(1,4) n
    by (simp add: SaveData_def bnd_def Let_def layout_simps write_module_def split: prod.splits)
  then show ?thesis
    using l(2) after_trans[OF after_trans[OF s1(2) s2(2)] l(5)] by (auto simp: save_module_bodies_def)
qed

lemma save_all_saves:
  assumes "jl_ok p" "list_all pieces_ok css" "list_all (\<lambda>cs. length cs < fuel) css" "length ids = length css"
    and "answers s (concat (map module_script css) @ rs)"
  shows "\<exists>s'. save_all k fuel zlib ids p b (s, out)
      = (Inr (snd (foldl (write_module zlib) (out, b) (map concat css))), (s', fst (foldl (write_module zlib) (out, b) (map concat css))))
    \<and> after s (concat (map2 save_module_bodies ids css)) rs s'"
  using assms
proof (induction css arbitrary: ids p b s out)
  case Nil
  then show ?case by (simp add: after_def)
next
  case (Cons cs css)
  then obtain i ids' where ids: "ids = i # ids'" by (cases ids) auto
  obtain p' s1 where s1: "SaveData k fuel zlib p i b (s, out)
      = (Inr (p', snd (write_module zlib (out, b) (concat cs))), (s1, fst (write_module zlib (out, b) (concat cs))))"
      "jl_ok p'" "after s (save_module_bodies i cs) (concat (map module_script css) @ rs) s1"
    using SaveData_saves[OF Cons.prems(1), of cs fuel s "concat (map module_script css) @ rs" zlib i b out] Cons.prems(2,3,5) by auto
  let ?w = "write_module zlib (out, b) (concat cs)"
  obtain s' where s': "save_all k fuel zlib ids' p' (snd ?w) (s1, fst ?w)
      = (Inr (snd (foldl (write_module zlib) (fst ?w, snd ?w) (map concat css))), (s', fst (foldl (write_module zlib) (fst ?w, snd ?w) (map concat css))))"
      "after s1 (concat (map2 save_module_bodies ids' css)) rs s'"
    using Cons.IH[OF s1(2) _ _ _ after_answers[OF s1(3)], of ids' "snd ?w" "fst ?w"] Cons.prems(2-4) ids by auto
  then show ?case
    using ids s1(1) after_trans[OF s1(3) s'(2)] by (auto simp: bnd_def)
qed

lemma module_id_ok:
  assumes "name \<noteq> []" "length name \<le> max_data_size"
    and "answers s ((2, dev_reply SB_COMMAND_JL_ACK 2) # (0, dev_msg (rev (le16 i))) # rs)"
  shows "\<exists>p s'. module_id k msg missing name s = (Inr (p, i), s') \<and> jl_ok p
    \<and> after s [cmd_body 0x80 0 (length name), data_body name] rs s'"
proof -
  obtain p where p: "SetCodFilename name JLPacket_new = Inr p" "requests p [cmd_body 0x80 0 (length name), data_body name]"
    using builder_requests(3)[OF jl_ok_new assms(1,2)] by blast
  let ?r = "dev_reply SB_COMMAND_JL_ACK 2"
  have "answers s ((length [cmd_body 0x80 0 (length name), data_body name], ?r) # (0, dev_msg (rev (le16 i))) # rs)"
    using assms(3) by (simp add: numeral_2_eq_2)
  then obtain s1 where s1: "jl_exchange k p s = (Inr (SB_COMMAND_JL_ACK, ?r), s1)"
      "after s [cmd_body 0x80 0 (length name), data_body name] ((0, dev_msg (rev (le16 i))) # rs) s1"
    using jl_exchange_ok[OF p(2) _ dev_reply_answer(2), unfolded dev_reply_facts(2)] by blast
  obtain s2 where s2: "ls_Receive k s1 = (Inr (dev_msg (rev (le16 i))), s2)" "after s1 [] rs s2"
    using receive_ok[OF after_answers[OF s1(2)]] by blast
  have "CheckSize (dev_msg (rev (le16 i))) 6 = Inr ()" using dev_msg_size[of "rev (le16 i)" 6] by simp
  moreover have "SB_COMMAND_JL_ACK \<noteq> SB_COMMAND_JL_COD_NOT_FOUND" by (simp add: layout_simps)
  ultimately have "module_id k msg missing name s = (Inr (p, i), s2)"
    using p(1) s1(1) s2(1) dev_reply_facts(3)[of 2 SB_COMMAND_JL_ACK] be_at_body(1)[of i]
    by (simp add: module_id_def bnd_def) (simp add: layout_simps)
  then show ?thesis using requests_ok(1)[OF p(2)] after_trans[OF s1(2) s2(2)] by auto
qed

lemma Save_saves:
  assumes "name \<noteq> []" "length name \<le> max_data_size" "list_all pieces_ok css" "list_all (\<lambda>cs. length cs < fuel) css"
    and "length ids = length css" "2 * length ids < 65532" "answers s (save_script i ids css @ rs)"
  shows "\<exists>s'. Loader_Save k fuel zlib name (s, []) = (Inr (), (s', cod_file zlib name (map concat css)))
    \<and> after s (save_bodies name i ids css) rs s'"
proof -
  let ?r = "dev_reply SB_COMMAND_JL_ACK (2 * length ids)"
  let ?ids = "dev_msg (id_bytes ids)"
  have "answers s ((2, dev_reply SB_COMMAND_JL_ACK 2) # (0, dev_msg (rev (le16 i))) # (2, ?r) # (0, ?ids) # concat (map module_script css) @ rs)"
    using assms(7) by (simp add: save_script_def)
  then obtain p s1 where s1: "module_id k ''JavaLoader::Save'' '': expected module ID, but not available'' name s = (Inr (p, i), s1)" "jl_ok p"
      "after s [cmd_body 0x80 0 (length name), data_body name] ((2, ?r) # (0, ?ids) # concat (map module_script css) @ rs) s1"
    using module_id_ok[OF assms(1,2)] by blast
  obtain p1 where p1: "GetSubDir i p = Inr p1" "requests p1 [cmd_body 0x7f 0 2, data_body (rev (le16 i))]"
    using id_requests(1)[OF s1(2)] by blast
  have "answers s1 ((length [cmd_body 0x7f 0 2, data_body (rev (le16 i))], ?r) # (0, ?ids) # concat (map module_script css) @ rs)"
    using after_answers[OF s1(3)] by (simp add: numeral_2_eq_2)
  then obtain s2 where s2: "acked k ''JavaLoader::Save'' p1 s1 = (Inr ?r, s2)"
      "after s1 [cmd_body 0x7f 0 2, data_body (rev (le16 i))] ((0, ?ids) # concat (map module_script css) @ rs) s2"
    using acked_ok[OF p1(2) _ dev_reply_answer(1)] by blast
  obtain s3 where s3: "ls_Receive k s2 = (Inr ?ids, s3)" "after s2 [] (concat (map module_script css) @ rs) s3"
    using receive_ok[OF after_answers[OF s2(2)]] by blast
  have n: "unat (word_of_nat (2 * length ids) :: u16) = 2 * length ids" using assms(6) by (intro unat_ucast_u16) simp
  have sz: "JLPacket_Size ?r = Inr (word_of_nat (2 * length ids))" using assms(6) by (intro dev_reply_facts(3)) simp
  have chk: "CheckSize ?ids (4 + 2 * length ids) = Inr ()" using dev_msg_size[of "id_bytes ids"] assms(6) by (simp add: length_id_bytes)
  have tab: "id_table (take (2 * length ids) (id_bytes ids)) = ids" using length_id_bytes[of ids] id_table_bytes[of ids] by simp
  let ?b = "CodFileBuilder_new name (length ids)"
  obtain s4 where s4: "save_all k fuel zlib ids p1 ?b (s3, [])
      = (Inr (snd (foldl (write_module zlib) ([], ?b) (map concat css))), (s4, fst (foldl (write_module zlib) ([], ?b) (map concat css))))"
      "after s3 (concat (map2 save_module_bodies ids css)) rs s4"
    using save_all_saves[OF requests_ok(1)[OF p1(2)] assms(3-5) after_answers[OF s3(2)]] by blast
  have "Loader_Save k fuel zlib name (s, [])
      = (Inr (), (s4, WriteFooter (fst (foldl (write_module zlib) ([], ?b) (map concat css))) (snd (foldl (write_module zlib) ([], ?b) (map concat css)))))"
    unfolding Loader_Save_def using s1(1) p1(1) s2(1) s3(1) s4(1) sz chk tab
    by (simp add: bnd_def Let_def layout_simps drop_dev_msg n del: of_nat_mult of_nat_add)
  then show ?thesis
    using after_trans[OF after_trans[OF after_trans[OF s1(3) s2(2)] s3(2)] s4(2)] assms(5)
    by (auto simp: cod_file_def save_bodies_def case_prod_beta)
qed

end

section \<open>Whole transfers over a routed socket\<close>

lemma file_number_length: "n < 10 ^ Suc w \<Longrightarrow> length (dec_digits n) \<le> Suc w"
proof (induction w arbitrary: n)
  case 0
  then show ?case by (subst dec_digits.simps) simp
next
  case (Suc w)
  show ?case
  proof (cases "n < 10")
    case True
    then show ?thesis by (subst dec_digits.simps) simp
  next
    case False
    have "n div 10 < 10 ^ Suc w" using Suc.prems by (simp add: less_mult_imp_div_less mult.commute)
    then have "length (dec_digits (n div 10)) \<le> Suc w" by (rule Suc.IH)
    then show ?thesis using False by (subst dec_digits.simps) simp
  qed
qed

lemma cod_file_name_length: "length (cod_file_name name i) \<le> length name + 15"
proof -
  have "unat i < 2 ^ LENGTH(32)" by (rule unsigned_less)
  then have "unat i < 10 ^ Suc 9" by simp
  then have "length (dec_digits (unat i)) \<le> 10" using file_number_length[of "unat i" 9] by simp
  then show ?thesis by (simp add: cod_file_name_def lit_def)
qed

lemma concat_pieces: "concat (pieces m) = m"
  by (induction m rule: pieces.induct) (subst pieces.simps, simp)

lemma pieces_short: "m \<noteq> [] \<Longrightarrow> length m \<le> max_data_size \<Longrightarrow> pieces m = [m]"
  by (simp add: pieces.simps[of m] pieces.simps[of "[]"])

definition sample_css :: "bytes list list" where "sample_css = [[[0xDE, 0xC0, 1, 2], [3]], [[9]]]"

text \<open>A device that answers at once.\<close>

definition prompt :: "(nat \<times> bytes) list \<Rightarrow> bytes list" where
  "prompt rs = concat (map (\<lambda>(n, r). replicate n ack @ [r]) rs)"

lemma prompt_answers: "jl_answers 1 (sample_conn (prompt rs)) rs"
proof -
  have "IsSequencePacket ack" by (simp add: ack_def IsSequencePacket_def layout_simps get16_def)
  then have "jl_script 1 rs (prompt rs)"
    by (induction rs) (force simp: prompt_def gap_ok_def list_all_iff intro: exI[of _ "replicate _ ack"])+
  then show ?thesis using sample_conn_offers by (auto simp: jl_answers_def)
qed

text \<open>
  C5: Saving an application from one device and loading the file onto another sends the
  modules unchanged: Save, fed by a device that answers as scripted, writes the COD file of
  the modules; LoadApp, reading this file, writes to the wire the size of each module and
  the module in pieces, in order, and nothing else.
\<close>

theorem Save_then_LoadApp:
  assumes "name \<noteq> []" "length name \<le> max_data_size" "length ids = length css" "2 * length ids < 65532"
    and "list_all (\<lambda>cs. cs \<noteq> [] \<and> pieces_ok cs \<and> length cs < sfuel) css"
    and "length css = 1 \<longrightarrow> take 2 (concat (hd css)) = CODFILE_TYPE_SIMPLE \<and> 4 \<le> length (concat (hd css))"
    and "jl_answers fuel c (save_script i ids css)"
    and "jl_answers fuel' d (map (Pair 2) acks)" "list_all is_ack acks"
    and "length acks = sum_list (map (\<lambda>cs. module_answers (concat cs)) css)"
  shows "\<exists>c' d' t. Loader_Save (routed_socket h fuel) sfuel zlib name (c, [])
        = (Inr (), (c', cod_file zlib name (map concat css)))
    \<and> LoadApp (routed_socket h' fuel') (Suc (length css))
        (d, \<lparr>is_bytes = cod_file zlib name (map concat css), is_pos = 0, is_seekable = True\<rparr>) = (Inr (), (d', t))
    \<and> sent (zr d') = sent (zr d) @ concat (map (jl_wire d) (concat (map (\<lambda>cs. module_bodies (concat cs)) css)))"
proof -
  have p: "list_all pieces_ok css" "list_all (\<lambda>cs. length cs < sfuel) css" using assms(5) by (auto simp: list_all_iff)
  have s: "\<exists>c'. Loader_Save (routed_socket h fuel) sfuel zlib name (c, []) = (Inr (), (c', cod_file zlib name (map concat css)))"
    using routed.Save_saves[OF assms(1,2) p assms(3,4), of fuel c i "[]" h zlib] assms(7) by auto
  have m: "list_all (\<lambda>m. m \<noteq> [] \<and> length m < 2 ^ 32) (map concat css)"
    using assms(5) by (fastforce simp: list_all_iff pieces_ok_def neq_Nil_conv)
  define t where "t = \<lparr>is_bytes = cod_file zlib name (map concat css), is_pos = 0, is_seekable = True\<rparr>"
  have rest: "at_rest t (cod_file zlib name (map concat css))" by (simp add: t_def at_rest_def)
  have a: "jl_answers fuel' d (map (Pair 2) acks @ [])" "length acks = sum_list (map module_answers (map concat css))"
    using assms(8,10) by (simp_all add: comp_def)
  have "\<exists>d' t'. LoadApp (routed_socket h' fuel') (Suc (length (map concat css))) (d, t) = (Inr (), (d', t'))
      \<and> routed.after fuel' d (concat (map module_bodies (map concat css))) [] d'"
  proof (cases "length css = 1")
    case True
    then obtain cs where cs: "css = [cs]" by (cases css) auto
    then show ?thesis
      using routed.LoadApp_simple[of t "concat cs" fuel' d acks "[]" h'] rest assms(6,9) a m
      by (auto simp: t_def cod_file_eq numeral_2_eq_2)
  next
    case False
    have n: "\<forall>j < length (map concat css). length (cod_file_name name (word_of_nat (0 + j))) < 65536"
    proof (intro allI impI)
      fix j
      show "length (cod_file_name name (word_of_nat (0 + j))) < 65536"
        using cod_file_name_length[of name "word_of_nat (0 + j)"] assms(2) by (simp add: layout_simps)
    qed
    have "at_rest t (packed zlib name 0 (map concat css) @ cod_tail zlib name (map concat css))"
      using rest False by (simp add: cod_file_eq)
    from routed.LoadApp_packed[OF this a(1) assms(9) a(2) m n, of h'] SeekNextCod_tail show ?thesis by blast
  qed
  then show ?thesis using s by (auto simp: t_def routed.after_def comp_def)
qed

lemma Save_then_LoadApp_witness:
  "\<exists>c' d' t. Loader_Save (routed_socket (\<lambda>_ bs. Inr bs) 1) 3 None (lit ''app'') (sample_conn (prompt (save_script 5 [5, 6] sample_css)), [])
        = (Inr (), (c', cod_file None (lit ''app'') [[0xDE, 0xC0, 1, 2, 3], [9]]))
    \<and> LoadApp (routed_socket (\<lambda>_ bs. Inr bs) 1) 3
        (sample_conn (prompt (map (Pair 2) (replicate 4 (dev_reply SB_COMMAND_JL_ACK 0)))),
         \<lparr>is_bytes = cod_file None (lit ''app'') [[0xDE, 0xC0, 1, 2, 3], [9]], is_pos = 0, is_seekable = True\<rparr>) = (Inr (), (d', t))"
proof -
  let ?acks = "replicate 4 (dev_reply SB_COMMAND_JL_ACK 0)"
  have n: "length ?acks = sum_list (map (\<lambda>cs. module_answers (concat cs)) sample_css)"
    by (simp add: sample_css_def module_answers_def pieces_short layout_simps)
  have a: "list_all is_ack ?acks" by (simp add: dev_reply_answer(1) list_all_iff)
  have w: "lit ''app'' \<noteq> []" "length (lit ''app'') \<le> max_data_size" "length [5, 6 :: u16] = length sample_css" "2 * length [5, 6 :: u16] < 65532"
    "list_all (\<lambda>cs. cs \<noteq> [] \<and> pieces_ok cs \<and> length cs < 3) sample_css"
    "length sample_css = 1 \<longrightarrow> take 2 (concat (hd sample_css)) = CODFILE_TYPE_SIMPLE \<and> 4 \<le> length (concat (hd sample_css))"
    by (simp_all add: sample_css_def pieces_ok_def lit_def layout_simps)
  have c: "map concat sample_css = [[0xDE, 0xC0, 1, 2, 3], [9]]" "Suc (length sample_css) = 3" by (simp_all add: sample_css_def)
  show ?thesis
    using Save_then_LoadApp[where h = "\<lambda>_ bs. Inr bs" and h' = "\<lambda>_ bs. Inr bs" and zlib = None and i = 5,
        OF w prompt_answers prompt_answers a n]
    unfolding c by blast
qed

section \<open>The end of loading\<close>

definition not_stuck :: "('s, 'a) st \<Rightarrow> bool" where
  "not_stuck m \<longleftrightarrow> (\<forall>s. fst (m s) \<noteq> Inl (UB ''out of fuel''))"

lemma read_or_moves: "read_or msg n t = (Inr x, t') \<Longrightarrow> n \<le> remaining t \<and> t' = t\<lparr>is_pos := is_pos t + n\<rparr>"
  by (auto simp: read_or_def split: if_splits)

lemma send_data_moves:
  "send_data k n p (s, t) = (Inr u, (s', t')) \<Longrightarrow> is_bytes t' = is_bytes t \<and> is_pos t' = is_pos t + n"
proof (induction k n p arbitrary: s t rule: send_data.induct)
  case (1 k n p)
  show ?case
  proof (cases "n = 0")
    case True
    then show ?thesis using "1.prems" by (simp add: send_data.simps)
  next
    case False
    let ?n = "min n max_data_size"
    let ?read = "read_or ''JavaLoader::SendStream: input stream read failed'' ?n"
    note run = "1.prems"[unfolded send_data.simps[of k n p]]
    obtain x t1 where t1: "?read t = (Inr x, t1)"
      using run False by (cases "?read t"; cases "fst (?read t)") (auto simp: bnd_def Let_def)
    obtain p1 where p1: "PutData x p = Inr p1"
      using run False t1 by (cases "PutData x p") (auto simp: bnd_def Let_def)
    obtain c r s1 where e: "jl_exchange k p1 s = (Inr (c, r), s1)"
      using run False t1 p1 by (cases "jl_exchange k p1 s"; cases "fst (jl_exchange k p1 s)") (auto simp: bnd_def Let_def)
    have c: "c \<noteq> SB_COMMAND_JL_NOT_ENOUGH_MEMORY" "\<not> c \<noteq> SB_COMMAND_JL_ACK"
      using run False t1 p1 e by (auto simp: bnd_def Let_def split: if_splits)
    then have l: "send_data k (n - ?n) p1 (s1, t1) = (Inr u, (s', t'))"
      using run False t1 p1 e by (simp add: bnd_def Let_def)
    have "is_bytes t' = is_bytes t1 \<and> is_pos t' = is_pos t1 + (n - ?n)"
      using "1.IH"[OF False refl c l] by simp
    then show ?thesis using read_or_moves[OF t1] by simp
  qed
qed

lemma SeekNextCod_moves:
  assumes "SeekNextCod t = (Inr n, t1)" "n \<noteq> 0"
  shows "is_bytes t1 = is_bytes t \<and> 0 < remaining t
    \<and> (is_pos t < is_pos t1 \<or> is_pos t1 = 0 \<and> n = word_of_nat (length (is_bytes t)))"
  using assms
  by (auto simp: SeekNextCod_def bnd_eq_Inr gets_def split: if_splits dest!: read_or_moves)

lemma SeekNextCod_not_stuck: "not_stuck SeekNextCod"
  unfolding not_stuck_def
proof (intro allI notI)
  fix t assume "fst (SeekNextCod t) = Inl (UB ''out of fuel'')"
  then obtain t' where "SeekNextCod t = (Inl (UB ''out of fuel''), t')" by (cases "SeekNextCod t") auto
  then show False
    by (auto simp: SeekNextCod_def bnd_eq_Inl gets_def read_or_def throw_def split: if_splits)
qed

lemma jl_exchange_not_stuck: "not_stuck (ls_Packet k p) \<Longrightarrow> not_stuck (jl_exchange k p)"
  unfolding not_stuck_def jl_exchange_def
proof (intro allI notI)
  fix s assume a: "\<forall>s. fst (ls_Packet k p s) \<noteq> Inl (UB ''out of fuel'')"
    and "fst (bnd (ls_Packet k p) (\<lambda>r. bnd (lift (Packet_Command r)) (\<lambda>c. ret (c, r))) s) = Inl (UB ''out of fuel'')"
  moreover obtain res s1 where "ls_Packet k p s = (res, s1)" by (cases "ls_Packet k p s")
  ultimately obtain r where "Packet_Command r = Inl (UB ''out of fuel'')"
    using a[rule_format, of s] by (cases res) (auto simp: bnd_def split: sum.splits)
  then show False by (auto simp: Packet_Command_def rbind_eq_Inl CheckSize_def rd8_def split: if_splits)
qed

lemma not_stuck_bnd:
  assumes "fst (m s) \<noteq> Inl (UB ''out of fuel'')" "\<And>x s'. m s = (Inr x, s') \<Longrightarrow> fst (f x s') \<noteq> Inl (UB ''out of fuel'')"
  shows "fst (bnd m f s) \<noteq> Inl (UB ''out of fuel'')"
  using assms by (cases "m s"; cases "fst (m s)") (auto simp: bnd_def)

lemma not_stuck_exchange:
  assumes "\<And>p. not_stuck (ls_Packet k p)"
  shows "fst (on_sock (jl_exchange k p) (s, t)) \<noteq> Inl (UB ''out of fuel'')"
    "fst (on_sock (acked k msg p) (s, t)) \<noteq> Inl (UB ''out of fuel'')"
proof -
  have e: "fst (jl_exchange k p s) \<noteq> Inl (UB ''out of fuel'')" using jl_exchange_not_stuck[OF assms] by (simp add: not_stuck_def)
  then show "fst (on_sock (jl_exchange k p) (s, t)) \<noteq> Inl (UB ''out of fuel'')" by simp
  have "fst (acked k msg p s) \<noteq> Inl (UB ''out of fuel'')"
    unfolding acked_def by (rule not_stuck_bnd, rule e) (auto simp: ThrowJLError_def split: if_splits)
  then show "fst (on_sock (acked k msg p) (s, t)) \<noteq> Inl (UB ''out of fuel'')" by simp
qed

lemma send_data_not_stuck:
  assumes "\<And>p. not_stuck (ls_Packet k p)" "jl_ok p"
  shows "fst (send_data k n p (s, t)) \<noteq> Inl (UB ''out of fuel'')"
  using assms(2)
proof (induction n arbitrary: p s t rule: less_induct)
  case (less n)
  show ?case
  proof (cases "n = 0")
    case True
    then show ?thesis by (simp add: send_data.simps)
  next
    case False
    let ?n = "min n max_data_size"
    let ?read = "read_or ''JavaLoader::SendStream: input stream read failed'' ?n"
    have r: "fst (on_stream ?read (s, t)) \<noteq> Inl (UB ''out of fuel'')" by (simp add: read_or_def)
    have "fst (bnd (lift (PutData x p)) (\<lambda>p'. bnd (on_sock (jl_exchange k p')) (\<lambda>(c, r).
        if c = SB_COMMAND_JL_NOT_ENOUGH_MEMORY
        then throw (BarryError ''JavaLoader::SendStream: not enough memory to install the application'')
        else if c \<noteq> SB_COMMAND_JL_ACK then throw (ThrowJLError ''JavaLoader::SendStream: send data'' c)
        else send_data k (n - ?n) p')) (s, t1)) \<noteq> Inl (UB ''out of fuel'')"
      if x: "read_or ''JavaLoader::SendStream: input stream read failed'' ?n t = (Inr x, t1)" for x t1
    proof -
      have "x \<noteq> []" "length x \<le> max_data_size"
        using x False by (auto simp: read_or_def remaining_def layout_simps split: if_splits)
      then obtain p1 where p1: "PutData x p = Inr p1" "jl_ok p1" using builder_requests(2)[OF less.prems] requests_ok(1) by blast
      have "n - ?n < n" using False by (simp add: layout_simps)
      then have "fst (send_data k (n - ?n) p1 (s', t')) \<noteq> Inl (UB ''out of fuel'')" for s' t' using less.IH p1(2) by blast
      note IH = this
      show ?thesis unfolding p1(1)
        by (subst bnd_lift, rule not_stuck_bnd, rule not_stuck_exchange(1)[OF assms(1)])
           (use IH in \<open>auto simp: ThrowJLError_def split: if_splits\<close>)
    qed
    note piece = this
    show ?thesis
      unfolding send_data.simps[of k n p] if_not_P[OF False] Let_def
    proof (rule not_stuck_bnd, rule r)
      fix x s2 assume "on_stream ?read (s, t) = (Inr x, s2)"
      then have "?read t = (Inr x, snd s2)" "s2 = (s, snd s2)" by (cases "?read t"; auto)+
      then show "fst (bnd (lift (PutData x p)) (\<lambda>p'. bnd (on_sock (jl_exchange k p')) (\<lambda>(c, r).
        if c = SB_COMMAND_JL_NOT_ENOUGH_MEMORY
        then throw (BarryError ''JavaLoader::SendStream: not enough memory to install the application'')
        else if c \<noteq> SB_COMMAND_JL_ACK then throw (ThrowJLError ''JavaLoader::SendStream: send data'' c)
        else send_data k (n - ?n) p')) s2) \<noteq> Inl (UB ''out of fuel'')"
        using piece[of x "snd s2"] by metis
    qed
  qed
qed

lemma SendStream_not_stuck:
  assumes "\<And>p. not_stuck (ls_Packet k p)"
  shows "fst (SendStream k n (s, t)) \<noteq> Inl (UB ''out of fuel'')"
proof -
  have c: "ucast n = (word_of_nat (unat n) :: u64)" by (simp add: unsigned_ucast_eq)
  obtain p where p: "SetCodSize (ucast n) JLPacket_new = Inr p" "jl_ok p"
    using builder_requests(1)[OF jl_ok_new, of "unat n"] requests_ok(1) unfolding c by blast
  show ?thesis unfolding SendStream_def p(1)
    by (subst bnd_lift, rule not_stuck_bnd, rule not_stuck_exchange(2)[OF assms])
       (use send_data_not_stuck[OF assms p(2)] in \<open>metis surj_pair\<close>)
qed

text \<open>
  C6: Loading ends: on any file shorter than 4 GiB, whatever its bytes, and on any socket whose
  exchanges end, the loop of LoadApp returns or throws after fewer rounds than the file has
  bytes. Each round gets further into the file, or, at a simple signature, starts again
  and then reads the whole file.
\<close>

theorem LoadApp_ends:
  assumes "\<And>p. not_stuck (ls_Packet k p)" "length (is_bytes t) < 2 ^ 32" "length (is_bytes t) < fuel"
  shows "fst (LoadApp k fuel (s, t)) \<noteq> Inl (UB ''out of fuel'')"
proof -
  have "fst (LoadApp k fuel (s, t)) \<noteq> Inl (UB ''out of fuel'')"
    if "remaining t < fuel" "length (is_bytes t) < 2 ^ 32" for s t fuel
    using that
  proof (induction "remaining t" arbitrary: s t fuel rule: less_induct)
    case less
    obtain f where f: "fuel = Suc f" using less.prems(1) by (cases fuel) auto
    have "fst (bnd (SendStream k n) (\<lambda>_. LoadApp k f) (s, t1)) \<noteq> Inl (UB ''out of fuel'')"
      if n: "SeekNextCod t = (Inr n, t1)" "n \<noteq> 0" for n t1
    proof (rule not_stuck_bnd, rule SendStream_not_stuck[OF assms(1)])
      fix u s2 assume u: "SendStream k n (s, t1) = (Inr u, s2)"
      obtain s' t' where s2: "s2 = (s', t')" by (cases s2)
      obtain p s3 where "send_data k (unat n) p (s3, t1) = (Inr u, (s', t'))"
        using u s2 by (auto simp: SendStream_def bnd_eq_Inr lift_def)
      then have t': "is_bytes t' = is_bytes t1" "is_pos t' = is_pos t1 + unat n" using send_data_moves by fast+
      have m: "is_bytes t1 = is_bytes t" "0 < remaining t" "is_pos t < is_pos t1 \<or> is_pos t1 = 0 \<and> n = word_of_nat (length (is_bytes t))"
        using SeekNextCod_moves[OF n] by auto
      have "unat (word_of_nat (length (is_bytes t)) :: u32) = length (is_bytes t)"
        using less.prems(2) by (simp add: unsigned_of_nat take_bit_nat_eq_self)
      then have "remaining t' < remaining t" using m t' by (auto simp: remaining_def)
      then show "fst (LoadApp k f s2) \<noteq> Inl (UB ''out of fuel'')"
        unfolding s2 using less.hyps[of t' f s'] less.prems f m(1) t'(1) by simp
    qed
    note round = this
    show ?case unfolding f LoadApp.simps(2)
    proof (rule not_stuck_bnd)
      show "fst (on_stream SeekNextCod (s, t)) \<noteq> Inl (UB ''out of fuel'')" using SeekNextCod_not_stuck by (simp add: not_stuck_def)
      fix n s2 assume "on_stream SeekNextCod (s, t) = (Inr n, s2)"
      then have "SeekNextCod t = (Inr n, snd s2)" "s2 = (s, snd s2)" by (cases "SeekNextCod t"; auto)+
      then show "fst ((if n = 0 then ret () else bnd (SendStream k n) (\<lambda>_. LoadApp k f)) s2) \<noteq> Inl (UB ''out of fuel'')"
        using round[of n "snd s2"] by (cases "n = 0") auto
    qed
  qed
  moreover have "remaining t < fuel" using assms(3) by (simp add: remaining_def)
  ultimately show ?thesis using assms(2) by blast
qed

definition yes_socket :: "unit jl_socket" where
  "yes_socket = \<lparr>ls_Packet = (\<lambda>p. ret (dev_reply SB_COMMAND_JL_ACK 0)), ls_Receive = ret [], ls_ResetOnClose = (\<lambda>b. ret ())\<rparr>"

lemma LoadApp_ends_witness:
  "fst (LoadApp yes_socket 6 ((), \<lparr>is_bytes = [0xDE, 0xC0, 0, 0, 0], is_pos = 0, is_seekable = True\<rparr>)) \<noteq> Inl (UB ''out of fuel'')"
  using LoadApp_ends[of yes_socket "\<lparr>is_bytes = [0xDE, 0xC0, 0, 0, 0], is_pos = 0, is_seekable = True\<rparr>" 6 "()"]
  by (simp add: yes_socket_def not_stuck_def)

text \<open>
  A module of size zero ends the loading of the whole file: the sizes are the loop's
  condition. Nothing is sent for it or for any module behind it.
\<close>

lemma LoadApp_empty_module:
  assumes "at_rest t (packed zlib name i ([] # ms) @ tail)" "length name \<le> 65000"
  shows "\<exists>t'. LoadApp k (Suc fuel) (s, t) = (Inr (), (s, t'))"
proof -
  have "length (cod_file_name name (word_of_nat i)) < 65536"
    using cod_file_name_length[of name "word_of_nat i"] assms(2) by simp
  then obtain t' where "SeekNextCod t = (Inr 0, t')"
    using SeekNextCod_local[of t _ 0 "cod_file_name name (word_of_nat i)"] assms(1)
    by (fastforce simp: local_entry_def Let_def)
  then show ?thesis by (auto simp: bnd_def)
qed

section \<open>The end of a stream\<close>

text \<open>
  What StopStream makes of the answer to Goodbye. NOT_SUPPORTED, which the socket throws, is
  no error; only RESET_REQUIRED asks for a reset when the socket is closed. The stream counts
  as stopped in all cases but an exception of another kind.
\<close>

theorem StopStream_answers:
  assumes "SimpleCmd SB_COMMAND_JL_GOODBYE 0 0 JLPacket_new = Inr p"
  shows "ls_Packet k p s = (Inl (BadPacket SB_COMMAND_JL_NOT_SUPPORTED msg), s') \<Longrightarrow>
      StopStream k \<lparr>jl_link = s, m_StreamStarted = b\<rparr> = (Inr False, \<lparr>jl_link = s', m_StreamStarted = False\<rparr>)"
    and "ls_Packet k p s = (Inr r, s') \<Longrightarrow> Packet_Command r = Inr SB_COMMAND_JL_ACK \<Longrightarrow>
      StopStream k \<lparr>jl_link = s, m_StreamStarted = b\<rparr> = (Inr False, \<lparr>jl_link = s', m_StreamStarted = False\<rparr>)"
    and "ls_Packet k p s = (Inr r, s') \<Longrightarrow> Packet_Command r = Inr SB_COMMAND_JL_RESET_REQUIRED \<Longrightarrow>
      ls_ResetOnClose k True s' = (Inr (), s'') \<Longrightarrow>
      StopStream k \<lparr>jl_link = s, m_StreamStarted = b\<rparr> = (Inr True, \<lparr>jl_link = s'', m_StreamStarted = False\<rparr>)"
    and "ls_Packet k p s = (Inl e, s') \<Longrightarrow> (\<And>m. e \<noteq> BadPacket SB_COMMAND_JL_NOT_SUPPORTED m) \<Longrightarrow>
      StopStream k \<lparr>jl_link = s, m_StreamStarted = b\<rparr> = (Inl e, \<lparr>jl_link = s', m_StreamStarted = b\<rparr>)"
  using assms
  by (auto simp: StopStream_def goodbye_answer_def catch_def bnd_def zoom_def layout_simps split: exn.splits)

end
