(* ===== verification/Jvm_Debug.thy ===== *)
theory Jvm_Debug imports Java_Loader Controller begin

text \<open>
  The JVM debug mode (src/src/m_jvmdebug.cc, src/src/m_jvmdebug.h): asking the device for its
  Java modules, threads, console output and state, letting it run and stopping it. Every
  operation is an exchange whose answer announces the number of bytes that follow, and, if
  that is not zero, a plain read of those bytes. The socket is a record of the two calls the
  mode makes; the command buffer of an operation is passed along, the answers are bytes.
  OnOpen, Attach and Detach have empty bodies, m_Attached is never set, and so the destructor
  does nothing; the Dump functions are left out.
\<close>

section \<open>Constants\<close>

definition SB_JVMMODULES_LIST_HEADER_SIZE :: nat where [layout_simps]: "SB_JVMMODULES_LIST_HEADER_SIZE = 4"
definition SB_JVMMODULES_ENTRY_HEADER_SIZE :: nat where [layout_simps]: "SB_JVMMODULES_ENTRY_HEADER_SIZE = 4 + 4 + 2"
definition SB_JVMTHREADS_LIST_HEADER_SIZE :: nat where [layout_simps]: "SB_JVMTHREADS_LIST_HEADER_SIZE = 4"
definition SB_JVMUNKNOWN01_HEADER_SIZE :: nat where [layout_simps]: "SB_JVMUNKNOWN01_HEADER_SIZE = 1 + 4"
definition SB_JVMUNKNOWN02_HEADER_SIZE :: nat where [layout_simps]: "SB_JVMUNKNOWN02_HEADER_SIZE = 4 + 4"

section \<open>The lists\<close>

record jvm_module =
  jm_Id :: u32
  jm_UniqueID :: u32
  jm_Name :: bytes

text \<open>
  JVMModulesList::Parse is given a pointer and a size. The length of an entry is kept in 16
  bits, the name is taken with its full length, and neither the header nor the name is
  checked against what there is: \<open>memory\<close> is all that can be read from the pointer on.
\<close>

definition module_entry :: "bytes \<Rightarrow> nat \<Rightarrow> nat \<Rightarrow> jvm_module" where
  "module_entry memory i n =
     \<lparr>jm_Id = be32_at memory i, jm_UniqueID = be32_at memory (i + 4),
      jm_Name = take n (drop (i + SB_JVMMODULES_ENTRY_HEADER_SIZE) memory)\<rparr>"

fun modules_loop :: "nat \<Rightarrow> bytes \<Rightarrow> nat \<Rightarrow> nat \<Rightarrow> jvm_module list \<Rightarrow> jvm_module list res" where
  "modules_loop 0 memory n i ms = Inl (UB ''out of fuel'')"
| "modules_loop (Suc fuel) memory n i ms =
     (if i < n
      then rbind (rd16 memory (i + 8)) (\<lambda>w.
        let sizename = bbswap_16 w;
            len = unat (word_of_nat SB_JVMMODULES_ENTRY_HEADER_SIZE + sizename)
        in if n < i + len then Inr ms
           else if length memory < i + SB_JVMMODULES_ENTRY_HEADER_SIZE + unat sizename
           then Inl (UB ''module name outside the packet'')
           else modules_loop fuel memory n (i + len) (ms @ [module_entry memory i (unat sizename)]))
      else Inr ms)"

definition JVMModulesList_Parse :: "bytes \<Rightarrow> nat \<Rightarrow> jvm_module list \<Rightarrow> jvm_module list res" where
  "JVMModulesList_Parse memory n ms = modules_loop (Suc n) memory n 0 ms"

record jvm_thread =
  jt_Id :: u32
  jt_Byte :: byte
  jt_Address :: u32
  jt_Unknown01 :: u32
  jt_Unknown02 :: u32
  jt_Unknown03 :: u32
  jt_Unknown04 :: u32
  jt_Unknown05 :: u32
  jt_Unknown06 :: u32

text \<open>A new entry has only its id set; \<open>junk\<close> is an entry that nothing was stored in.\<close>

fun thread_list :: "jvm_thread \<Rightarrow> bytes \<Rightarrow> jvm_thread list" where
  "thread_list junk (a # b # c # d # bs) = junk\<lparr>jt_Id := be32_at [a, b, c, d] 0\<rparr> # thread_list junk bs"
| "thread_list junk bs = []"

definition JVMThreadsList_Parse :: "jvm_thread \<Rightarrow> bytes \<Rightarrow> jvm_thread list \<Rightarrow> jvm_thread list" where
  "JVMThreadsList_Parse junk entry_packet ts = ts @ thread_list junk entry_packet"

section \<open>The exchange\<close>

record 's jvm_socket =
  vs_Packet :: "data \<Rightarrow> ('s, bytes) st"
  vs_Receive :: "('s, bytes) st"

definition JVMPacket_new :: data where "JVMPacket_new = Data_new (-1) 8 BARRY_DATA_DEFAULT_PREPEND_SIZE"

definition hex16_text :: "u16 \<Rightarrow> string" where
  "hex16_text w = map (char_of \<circ> unat) (num_digits 16 (unat w))"

definition ThrowJVMError :: "string \<Rightarrow> u16 \<Rightarrow> exn" where
  "ThrowJVMError msg cmd = BarryError (msg @ '': unexpected packet command code: 0x'' @ hex16_text cmd)"

text \<open>The size of an answer minus the header is a difference of unsigned numbers.\<close>

definition byte_count :: "string \<Rightarrow> u16 \<Rightarrow> bytes \<Rightarrow> unit res" where
  "byte_count msg expect response =
     (if length response < SB_JVMPACKET_HEADER_SIZE \<or> unat expect \<noteq> length response - SB_JVMPACKET_HEADER_SIZE
      then Inl (ThrowJVMError (msg @ ''byte count mismatch'') expect) else Inr ())"

definition jvm_ask :: "'s jvm_socket \<Rightarrow> (data \<Rightarrow> data res) \<Rightarrow> data \<Rightarrow> ('s, u16 \<times> data) st" where
  "jvm_ask k build d =
     bnd (lift (build d)) (\<lambda>d.
     bnd (vs_Packet k d) (\<lambda>r.
     bnd (lift (JVMPacket_Size r)) (\<lambda>expect. ret (expect, d))))"

definition jvm_data :: "'s jvm_socket \<Rightarrow> string \<Rightarrow> u16 \<Rightarrow> ('s, bytes) st" where
  "jvm_data k msg expect =
     bnd (vs_Receive k) (\<lambda>response.
     bnd (lift (byte_count msg expect response)) (\<lambda>_. ret response))"

text \<open>With nothing to follow, the operations return early: None.\<close>

definition jvm_query :: "'s jvm_socket \<Rightarrow> string \<Rightarrow> (data \<Rightarrow> data res) \<Rightarrow> data \<Rightarrow> ('s, bytes option \<times> data) st" where
  "jvm_query k msg build d =
     bnd (jvm_ask k build d) (\<lambda>(expect, d).
       if expect = 0 then ret (None, d)
       else bnd (jvm_data k msg expect) (\<lambda>response. ret (Some response, d)))"

definition jvm_command :: "'s jvm_socket \<Rightarrow> string \<Rightarrow> (data \<Rightarrow> data res) \<Rightarrow> ('s, unit) st" where
  "jvm_command k msg build = bnd (jvm_query k msg build JVMPacket_new) (\<lambda>_. ret ())"

definition JVMDebug_Unknown01 :: "'s jvm_socket \<Rightarrow> ('s, unit) st" where
  "JVMDebug_Unknown01 k = jvm_command k ''JVMDebug::Unknown01(): '' Unknown01"
definition JVMDebug_Unknown02 :: "'s jvm_socket \<Rightarrow> ('s, unit) st" where
  "JVMDebug_Unknown02 k = jvm_command k ''JVMDebug::Unknown02(): '' Unknown02"
definition JVMDebug_Unknown03 :: "'s jvm_socket \<Rightarrow> ('s, unit) st" where
  "JVMDebug_Unknown03 k = jvm_command k ''JVMDebug::Unknown03(): '' Unknown03"
definition JVMDebug_Unknown04 :: "'s jvm_socket \<Rightarrow> ('s, unit) st" where
  "JVMDebug_Unknown04 k = jvm_command k ''JVMDebug::Unknown04(): '' Unknown04"
definition JVMDebug_Unknown05 :: "'s jvm_socket \<Rightarrow> ('s, unit) st" where
  "JVMDebug_Unknown05 k = jvm_command k ''JVMDebug::Unknown05(): '' Unknown05"
definition JVMDebug_Unknown06 :: "'s jvm_socket \<Rightarrow> ('s, unit) st" where
  "JVMDebug_Unknown06 k = jvm_command k ''JVMDebug::Unknown06(): '' Unknown06"
definition JVMDebug_Unknown07 :: "'s jvm_socket \<Rightarrow> ('s, unit) st" where
  "JVMDebug_Unknown07 k = jvm_command k ''JVMDebug::Unknown07(): '' Unknown07"
definition JVMDebug_Unknown08 :: "'s jvm_socket \<Rightarrow> ('s, unit) st" where
  "JVMDebug_Unknown08 k = jvm_command k ''JVMDebug::Unknown08(): '' Unknown08"
definition JVMDebug_Unknown09 :: "'s jvm_socket \<Rightarrow> ('s, unit) st" where
  "JVMDebug_Unknown09 k = jvm_command k ''JVMDebug::Unknown09(): '' Unknown09"
definition JVMDebug_Unknown10 :: "'s jvm_socket \<Rightarrow> ('s, unit) st" where
  "JVMDebug_Unknown10 k = jvm_command k ''JVMDebug::Unknown10(): '' Unknown10"

section \<open>State and console\<close>

text \<open>The result is None for false, otherwise the status.\<close>

definition status_of :: "bytes \<Rightarrow> ('s, int option) st" where
  "status_of response =
     bnd (lift (CheckSize response (SB_JVMPACKET_HEADER_SIZE + 1))) (\<lambda>_.
       ret (Some (uint (byte_at response SB_JVMPACKET_HEADER_SIZE))))"

definition JVMDebug_GetStatus :: "'s jvm_socket \<Rightarrow> ('s, int option) st" where
  "JVMDebug_GetStatus k =
     bnd (jvm_query k ''JVMDebug::GetStatus():'' GetStatus JVMPacket_new) (\<lambda>(r, d).
       case r of None \<Rightarrow> ret None | Some response \<Rightarrow> status_of response)"

text \<open>The command is built but not sent: the mode waits for the device to speak.\<close>

definition WaitStatus :: "'s jvm_socket \<Rightarrow> ('s, int option) st" where
  "WaitStatus k =
     bnd (lift (GetStatus JVMPacket_new)) (\<lambda>d.
     bnd (catch (bnd (vs_Receive k) (\<lambda>r. ret (Some r))) (\<lambda>e. if e = UsbTimeout then ret None else throw e)) (\<lambda>r.
       case r of None \<Rightarrow> ret None
       | Some r \<Rightarrow>
           bnd (lift (JVMPacket_Size r)) (\<lambda>expect.
             if expect = 0 then ret None
             else bnd (jvm_data k ''JVMDebug::WaitStatus():'' expect) status_of)))"

text \<open>The result is None for -1, otherwise the message; the return value is its length.\<close>

definition JVMDebug_GetConsoleMessage :: "'s jvm_socket \<Rightarrow> ('s, bytes option) st" where
  "JVMDebug_GetConsoleMessage k =
     bnd (jvm_query k ''JVMDebug::GetConsoleMessage():'' GetConsoleMessage JVMPacket_new) (\<lambda>(r, d).
       case r of None \<Rightarrow> ret None
       | Some response \<Rightarrow>
           bnd (lift (CheckSize response (SB_JVMPACKET_HEADER_SIZE + 2))) (\<lambda>_.
             let n = unat (be16_at response SB_JVMPACKET_HEADER_SIZE)
             in if n = 0 then ret None
                else bnd (lift (CheckSize response (SB_JVMPACKET_HEADER_SIZE + 2 + n))) (\<lambda>_.
                       ret (Some (take n (drop (SB_JVMPACKET_HEADER_SIZE + 2) response))))))"

section \<open>Modules\<close>

text \<open>The list comes in pages, each with the id of the next one behind it; the fuel bounds them.\<close>

fun modules_pages :: "'s jvm_socket \<Rightarrow> nat \<Rightarrow> u32 \<Rightarrow> data \<Rightarrow> jvm_module list \<Rightarrow> ('s, jvm_module list) st" where
  "modules_pages k 0 offset d mylist = throw (UB ''out of fuel'')"
| "modules_pages k (Suc fuel) offset d mylist =
     bnd (jvm_query k ''JVMDebug::GetModulesList():'' (GetModulesList offset) d) (\<lambda>(r, d).
       case r of None \<Rightarrow> ret mylist
       | Some response \<Rightarrow>
           bnd (lift (CheckSize response (SB_JVMPACKET_HEADER_SIZE + SB_JVMMODULES_LIST_HEADER_SIZE + 4))) (\<lambda>_.
             let n = length response - SB_JVMPACKET_HEADER_SIZE - SB_JVMMODULES_LIST_HEADER_SIZE - 4;
                 id_offset = SB_JVMPACKET_HEADER_SIZE + SB_JVMMODULES_LIST_HEADER_SIZE + n
             in bnd (lift (JVMModulesList_Parse
                       (drop (SB_JVMPACKET_HEADER_SIZE + SB_JVMMODULES_LIST_HEADER_SIZE) response) n mylist)) (\<lambda>mylist.
                bnd (lift (CheckSize response (id_offset + 4))) (\<lambda>_.
                  let offset = be32_at response id_offset
                  in if offset = 0 then ret mylist else modules_pages k fuel offset d mylist))))"

definition JVMDebug_GetModulesList :: "'s jvm_socket \<Rightarrow> nat \<Rightarrow> jvm_module list \<Rightarrow> ('s, jvm_module list) st" where
  "JVMDebug_GetModulesList k fuel mylist = modules_pages k fuel 0 JVMPacket_new mylist"

section \<open>Threads\<close>

text \<open>One question about a thread; None when GetThreadsList returns early.\<close>

definition jvm_member ::
  "'s jvm_socket \<Rightarrow> string \<Rightarrow> (data \<Rightarrow> data res) \<Rightarrow> nat \<Rightarrow> data \<Rightarrow> (bytes \<Rightarrow> jvm_thread) \<Rightarrow> ('s, (jvm_thread \<times> data) option) st" where
  "jvm_member k msg build n d store =
     bnd (jvm_query k msg build d) (\<lambda>(r, d).
       case r of None \<Rightarrow> ret None
       | Some response \<Rightarrow>
           bnd (lift (CheckSize response (SB_JVMPACKET_HEADER_SIZE + n))) (\<lambda>_. ret (Some (store response, d))))"

definition unless_done :: "('s, 'a option) st \<Rightarrow> ('a \<Rightarrow> ('s, 'b option) st) \<Rightarrow> ('s, 'b option) st" where
  "unless_done m f = bnd m (\<lambda>x. case x of None \<Rightarrow> ret None | Some y \<Rightarrow> f y)"

definition thread_details :: "'s jvm_socket \<Rightarrow> jvm_thread \<Rightarrow> data \<Rightarrow> ('s, (jvm_thread \<times> data) option) st" where
  "thread_details k entry d =
     unless_done (jvm_member k ''JVMDebug::GetThreadsList() (1):'' (Unknown11 (jt_Id entry)) SB_JVMUNKNOWN01_HEADER_SIZE d
       (\<lambda>r. entry\<lparr>jt_Byte := byte_at r 4, jt_Address := be32_at r 5\<rparr>)) (\<lambda>(entry, d).
     unless_done
       (if jt_Address entry \<noteq> 0
        then jvm_member k ''JVMDebug::GetThreadsList() (2):'' (Unknown12 (jt_Address entry)) 4 d
               (\<lambda>r. entry\<lparr>jt_Unknown01 := be32_at r 4\<rparr>)
        else ret (Some (entry\<lparr>jt_Unknown01 := 0\<rparr>, d))) (\<lambda>(entry, d).
     unless_done (jvm_member k ''JVMDebug::GetThreadsList() (3):'' (Unknown13 (jt_Id entry)) 4 d
       (\<lambda>r. entry\<lparr>jt_Unknown02 := be32_at r 4\<rparr>)) (\<lambda>(entry, d).
     unless_done (jvm_member k ''JVMDebug::GetThreadsList() (4):'' (Unknown14 (jt_Id entry)) SB_JVMUNKNOWN02_HEADER_SIZE d
       (\<lambda>r. entry\<lparr>jt_Unknown03 := be32_at r 4, jt_Unknown04 := be32_at r 8\<rparr>)) (\<lambda>(entry, d).
     jvm_member k ''JVMDebug::GetThreadsList() (5):'' (Unknown15 (jt_Id entry)) SB_JVMUNKNOWN02_HEADER_SIZE d
       (\<lambda>r. entry\<lparr>jt_Unknown05 := be32_at r 4, jt_Unknown06 := be32_at r 8\<rparr>)))))"

fun threads_loop :: "'s jvm_socket \<Rightarrow> jvm_thread list \<Rightarrow> jvm_thread list \<Rightarrow> data \<Rightarrow> ('s, jvm_thread list) st" where
  "threads_loop k complete [] d = ret complete"
| "threads_loop k complete (entry # rest) d =
     bnd (thread_details k entry d) (\<lambda>x.
       case x of None \<Rightarrow> ret (complete @ entry # rest)
       | Some (entry, d) \<Rightarrow> threads_loop k (complete @ [entry]) rest d)"

definition JVMDebug_GetThreadsList ::
  "'s jvm_socket \<Rightarrow> jvm_thread \<Rightarrow> jvm_thread list \<Rightarrow> ('s, jvm_thread list) st" where
  "JVMDebug_GetThreadsList k junk mylist =
     bnd (jvm_query k ''JVMDebug::GetThreadsList():'' GetThreadsList JVMPacket_new) (\<lambda>(r, d).
       case r of None \<Rightarrow> ret mylist
       | Some response \<Rightarrow>
           bnd (lift (CheckSize response (SB_JVMPACKET_HEADER_SIZE + SB_JVMTHREADS_LIST_HEADER_SIZE))) (\<lambda>_.
             threads_loop k []
               (JVMThreadsList_Parse junk (drop (SB_JVMPACKET_HEADER_SIZE + SB_JVMTHREADS_LIST_HEADER_SIZE) response) mylist) d))"

section \<open>Running and stopping\<close>

text \<open>The device may answer with empty announcements for as long as it likes.\<close>

fun wait_announced :: "'s jvm_socket \<Rightarrow> nat \<Rightarrow> u16 \<Rightarrow> ('s, u16) st" where
  "wait_announced k 0 expect = throw (UB ''out of fuel'')"
| "wait_announced k (Suc fuel) expect =
     (if expect = 0
      then bnd (vs_Receive k) (\<lambda>r. bnd (lift (JVMPacket_Size r)) (wait_announced k fuel))
      else ret expect)"

definition JVMDebug_Go :: "'s jvm_socket \<Rightarrow> nat \<Rightarrow> ('s, unit) st" where
  "JVMDebug_Go k fuel =
     bnd (jvm_ask k Go JVMPacket_new) (\<lambda>(expect, d).
     bnd (wait_announced k fuel expect) (\<lambda>expect.
     bnd (jvm_data k ''JVMDebug::Go():'' expect) (\<lambda>_. ret ())))"

definition JVMDebug_Stop :: "'s jvm_socket \<Rightarrow> nat \<Rightarrow> ('s, unit) st" where
  "JVMDebug_Stop k fuel =
     bnd (jvm_ask k JVM_Stop JVMPacket_new) (\<lambda>(expect, d).
     bnd (wait_announced k fuel expect) (\<lambda>expect.
     bnd (jvm_data k ''JVMDebug::Stop():'' expect) (\<lambda>_. ret ())))"

section \<open>Closing\<close>

definition JVMDebug_Close :: "handlers \<Rightarrow> (mode_state, unit) st" where
  "JVMDebug_Close h =
     bnd (gets m_ModeSocket) (\<lambda>s.
       exec_if (s \<noteq> 0)
         (bnd (on_socket (LocalClose h)) (\<lambda>_.
          bnd (on_socket (Socket_destroy h)) (\<lambda>_.
            modify (\<lambda>md. md\<lparr>md_socket := None, m_ModeSocket := 0\<rparr>)))))"

end
