(* ===== verification/Debug_Link.thy ===== *)
theory Debug_Link imports Jvm_Debug Loader_Transfer begin

text \<open>
  What the JVM debug mode relies on, as a locale: a script says what the device sends, an
  answer to a packet (True) or a message on its own (False). The interpretation proves the
  laws for a routed socket, where sequence packets and blanks may come before an answer.
  Inside the locale: the list of modules is collected over all its pages, the list of
  threads is completed question by question, and Go and Stop wait for the announcement.
\<close>

section \<open>The interface\<close>

definition jvm_sendable :: "bytes \<Rightarrow> bool" where
  "jvm_sendable b \<longleftrightarrow> 5 \<le> length b \<and> length b \<le> MAX_PACKET_DATA_SIZE"

locale debug_link =
  fixes k :: "'s jvm_socket" and answers :: "'s \<Rightarrow> (bool \<times> bytes) list \<Rightarrow> bool"
    and wire :: "'s \<Rightarrow> bytes \<Rightarrow> 'w list" and written :: "'s \<Rightarrow> 'w list"
  assumes Packet_answered: "answers s ((True, r) # rs) \<Longrightarrow> data_ok d \<Longrightarrow> jvm_sendable (contents d) \<Longrightarrow> length r = 6 \<Longrightarrow>
      \<exists>s'. vs_Packet k d s = (Inr r, s') \<and> answers s' rs \<and> written s' = written s @ wire s (drop 2 (contents d)) \<and> wire s' = wire s"
    and Receive_answered: "answers s ((False, r) # rs) \<Longrightarrow>
      \<exists>s'. vs_Receive k s = (Inr r, s') \<and> answers s' rs \<and> written s' = written s \<and> wire s' = wire s"

text \<open>A builder that makes, from any command buffer, the given request.\<close>

definition makes :: "(data \<Rightarrow> data res) \<Rightarrow> bytes \<Rightarrow> bool" where
  "makes build body \<longleftrightarrow> (\<forall>d. data_ok d \<longrightarrow>
     (\<exists>d'. build d = Inr d' \<and> data_ok d' \<and> drop 2 (contents d') = body \<and> jvm_sendable (contents d')))"

definition plain_body :: "byte \<Rightarrow> bytes" where "plain_body cmd = le16 7 @ le16 (bbswap_16 1) @ [cmd]"
definition ident_body :: "byte \<Rightarrow> u32 \<Rightarrow> bytes" where
  "ident_body cmd i = le16 11 @ le16 (bbswap_16 5) @ [cmd] @ rev (le32 i)"

lemma makes_pieces:
  assumes "\<And>d. build d = fill d n (place 2 cs)" "n = 2 + length (concat cs)" "3 \<le> length (concat cs)" "n \<le> MAX_PACKET_DATA_SIZE"
  shows "makes build (concat cs)"
  unfolding makes_def
proof (intro allI impI)
  fix d assume "data_ok d"
  then obtain d' s0 s1 where "fill d n (place 2 cs) = Inr d'" "data_ok d'" "contents d' = [s0, s1] @ concat cs"
    using fill_packet[OF _ refl assms(2)] by blast
  then show "\<exists>d'. build d = Inr d' \<and> data_ok d' \<and> drop 2 (contents d') = concat cs \<and> jvm_sendable (contents d')"
    using assms by (auto simp: jvm_sendable_def)
qed

lemma makes_plain: "makes (JVM_SimpleCmd cmd) (plain_body cmd)"
proof -
  have "makes (JVM_SimpleCmd cmd) (concat [le16 7, le16 (bbswap_16 1), [cmd]])"
    by (rule makes_pieces[of _ 7]) (simp_all add: JVM_SimpleCmd_def layout_simps)
  then show ?thesis by (simp only: plain_body_def concat.simps append_Nil2)
qed

lemma makes_ident: "makes (ComplexCmd cmd (le32 (bbswap_32 i))) (ident_body cmd i)"
proof -
  have "makes (ComplexCmd cmd (le32 (bbswap_32 i))) (concat [le16 11, le16 (bbswap_16 5), [cmd], le32 (bbswap_32 i)])"
    by (rule makes_pieces[of _ 11]) (simp_all add: ComplexCmd_def Let_def layout_simps)
  then show ?thesis by (simp only: ident_body_def concat.simps append_Nil2 le32_bbswap)
qed

lemma makes_Stop: "makes JVM_Stop (le16 6 @ le16 (bbswap_16 SB_COMMAND_JVM_STOP))"
proof -
  have "makes JVM_Stop (concat [le16 6, le16 (bbswap_16 SB_COMMAND_JVM_STOP)])"
    by (rule makes_pieces[of _ 6]) (simp_all add: JVM_Stop_def layout_simps)
  then show ?thesis by (simp only: concat.simps append_Nil2)
qed

lemmas jvm_makes = makes_plain makes_ident makes_Stop

text \<open>A message of the device and its announcement.\<close>

definition announce :: "nat \<Rightarrow> bytes" where "announce n = dev_msg (rev (le16 (word_of_nat n)))"

definition reply_script :: "bytes \<Rightarrow> (bool \<times> bytes) list" where
  "reply_script body = [(True, announce (length body)), (False, dev_msg body)]"

definition body_ok :: "bytes \<Rightarrow> bool" where "body_ok body \<longleftrightarrow> body \<noteq> [] \<and> length body < 65532"

lemma announce_size: "JVMPacket_Size (announce n) = Inr (word_of_nat n)" "length (announce n) = 6"
proof -
  have "be16_at (announce n) 4 = word_of_nat n" using be_at_body(1) by (simp add: announce_def)
  then have "bbswap_16 (get16 (announce n) 4) = word_of_nat n" by (simp add: be16_at_def)
  then show "JVMPacket_Size (announce n) = Inr (word_of_nat n)"
    using dev_msg_size[of "rev (le16 (word_of_nat n))" 6]
    by (simp add: JVMPacket_Size_def rd16_def layout_simps announce_def length_dev_msg)
  show "length (announce n) = 6" by (simp add: announce_def length_dev_msg)
qed

lemma body_count:
  assumes "body_ok body"
  shows "(word_of_nat (length body) :: u16) \<noteq> 0" "byte_count msg (word_of_nat (length body)) (dev_msg body) = Inr ()"
proof -
  have n: "unat (word_of_nat (length body) :: u16) = length body" using assms unat_ucast_u16 by (simp add: body_ok_def)
  have "length body \<noteq> 0" using assms by (simp add: body_ok_def)
  then show "(word_of_nat (length body) :: u16) \<noteq> 0" using n by (metis unat_0)
  show "byte_count msg (word_of_nat (length body)) (dev_msg body) = Inr ()"
    using n by (simp add: byte_count_def length_dev_msg layout_simps)
qed

context debug_link begin

definition after :: "'s \<Rightarrow> bytes list \<Rightarrow> (bool \<times> bytes) list \<Rightarrow> 's \<Rightarrow> bool" where
  "after s bodies rs s' \<longleftrightarrow> answers s' rs \<and> written s' = written s @ concat (map (wire s) bodies) \<and> wire s' = wire s"

lemma after_trans: "after s bs rs s' \<Longrightarrow> after s' bs' rs' s'' \<Longrightarrow> after s (bs @ bs') rs' s''"
  by (simp add: after_def)

lemma after_answers: "after s bs rs s' \<Longrightarrow> answers s' rs"
  by (simp add: after_def)

lemma ask_answered:
  assumes "makes build body" "data_ok d" "answers s ((True, announce n) # rs)"
  shows "\<exists>d' s'. jvm_ask k build d s = (Inr (word_of_nat n, d'), s') \<and> data_ok d' \<and> after s [body] rs s'"
proof -
  obtain d' where d': "build d = Inr d'" "data_ok d'" "drop 2 (contents d') = body" "jvm_sendable (contents d')"
    using assms(1,2) unfolding makes_def by blast
  show ?thesis using Packet_answered[OF assms(3) d'(2,4)] d' by (auto simp: jvm_ask_def announce_size after_def)
qed

lemma data_answered:
  assumes "body_ok body" "answers s ((False, dev_msg body) # rs)"
  shows "\<exists>s'. jvm_data k msg (word_of_nat (length body)) s = (Inr (dev_msg body), s') \<and> after s [] rs s'"
  using Receive_answered[OF assms(2)] body_count(2)[OF assms(1)] by (auto simp: jvm_data_def after_def)

lemma query_answered:
  assumes "makes build request" "data_ok d" "body_ok body" "answers s (reply_script body @ rs)"
  shows "\<exists>d' s'. jvm_query k msg build d s = (Inr (Some (dev_msg body), d'), s') \<and> data_ok d' \<and> after s [request] rs s'"
proof -
  have a: "answers s ((True, announce (length body)) # (False, dev_msg body) # rs)" using assms(4) by (simp add: reply_script_def)
  obtain d' s1 where s1: "jvm_ask k build d s = (Inr (word_of_nat (length body), d'), s1)" "data_ok d'"
      "after s [request] ((False, dev_msg body) # rs) s1"
    using ask_answered[OF assms(1,2) a] by blast
  obtain s2 where "jvm_data k msg (word_of_nat (length body)) s1 = (Inr (dev_msg body), s2)" "after s1 [] rs s2"
    using data_answered[OF assms(3) after_answers[OF s1(3)]] by blast
  moreover have "after s [request] rs s2" using after_trans[OF s1(3) calculation(2)] by simp
  ultimately show ?thesis using s1(1,2) body_count(1)[OF assms(3)] by (simp add: jvm_query_def)
qed

text \<open>A device with nothing to say.\<close>

lemma query_silent:
  assumes "makes build request" "data_ok d" "answers s ((True, announce 0) # rs)"
  shows "\<exists>d' s'. jvm_query k msg build d s = (Inr (None, d'), s') \<and> data_ok d' \<and> after s [request] rs s'"
  using ask_answered[OF assms] by (auto simp: jvm_query_def)

text \<open>Go and Stop: empty announcements are passed over.\<close>

lemma wait_announced_ok:
  assumes "answers s (replicate n (False, announce 0) @ (False, announce m) # rs)" "word_of_nat m \<noteq> (0 :: u16)" "Suc n < fuel"
  shows "\<exists>s'. wait_announced k fuel 0 s = (Inr (word_of_nat m), s') \<and> after s [] rs s'"
  using assms(1,3)
proof (induction n arbitrary: s fuel)
  case 0
  then obtain f where f: "fuel = Suc (Suc f)" by (cases fuel; cases "fuel - 1") auto
  obtain s' where "vs_Receive k s = (Inr (announce m), s')" "after s [] rs s'"
    using Receive_answered[of s "announce m" rs] "0.prems"(1) by (auto simp: after_def)
  then show ?case using f assms(2) by (simp add: announce_size bnd_lift)
next
  case (Suc n)
  then obtain f where f: "fuel = Suc f" "Suc n < f" by (cases fuel) auto
  obtain s1 where s1: "vs_Receive k s = (Inr (announce 0), s1)" "after s [] (replicate n (False, announce 0) @ (False, announce m) # rs) s1"
    using Receive_answered[of s "announce 0"] Suc.prems(1) by (auto simp: after_def)
  have "wait_announced k fuel 0 s = wait_announced k f 0 s1" using f s1(1) by (simp add: announce_size bnd_lift)
  then show ?case using Suc.IH[OF after_answers[OF s1(2)] f(2)] after_trans[OF s1(2)] by fastforce
qed

lemma run_waits:
  assumes "makes build request" "body_ok body" "Suc n < fuel"
    and "answers s ((True, announce 0) # replicate n (False, announce 0) @ (False, announce (length body)) # (False, dev_msg body) # rs)"
  shows "\<exists>s'. bnd (jvm_ask k build JVMPacket_new) (\<lambda>(expect, d). bnd (wait_announced k fuel expect) (\<lambda>expect.
      bnd (jvm_data k msg expect) (\<lambda>_. ret ()))) s = (Inr (), s') \<and> after s [request] rs s'"
proof -
  have d: "data_ok JVMPacket_new" by (simp add: JVMPacket_new_def Data_new_def data_ok_def)
  obtain d' s1 where s1: "jvm_ask k build JVMPacket_new s = (Inr (0, d'), s1)"
      "after s [request] (replicate n (False, announce 0) @ (False, announce (length body)) # (False, dev_msg body) # rs) s1"
    using ask_answered[OF assms(1) d assms(4)] by auto
  obtain s2 where s2: "wait_announced k fuel 0 s1 = (Inr (word_of_nat (length body)), s2)" "after s1 [] ((False, dev_msg body) # rs) s2"
    using wait_announced_ok[OF after_answers[OF s1(2)] body_count(1)[OF assms(2)] assms(3)] by blast
  obtain s3 where "jvm_data k msg (word_of_nat (length body)) s2 = (Inr (dev_msg body), s3)" "after s2 [] rs s3"
    using data_answered[OF assms(2) after_answers[OF s2(2)]] by blast
  then show ?thesis using s1 s2 after_trans[OF s1(2) after_trans[OF s2(2)]] by auto
qed

end

section \<open>A routed socket provides the interface\<close>

definition routed_jvm :: "handlers \<Rightarrow> nat \<Rightarrow> conn jvm_socket" where
  "routed_jvm h fuel = \<lparr>vs_Packet = Packet_JVM Socket_RawSend (Socket_Receive h) fuel, vs_Receive = Socket_Receive h\<rparr>"

text \<open>Before an answer of six bytes there may be longer sequence packets, and a few shorter packets.\<close>

definition jvm_gap :: "bytes list \<Rightarrow> bool" where
  "jvm_gap ns \<longleftrightarrow> list_all (\<lambda>n. length n < 6 \<or> 6 < length n \<and> IsSequencePacket n \<and> CheckSize n SB_PACKET_HEADER_SIZE = Inr ()) ns
     \<and> length (filter (\<lambda>n. length n < 6) ns) < 10"

fun jvm_script :: "nat \<Rightarrow> (bool \<times> bytes) list \<Rightarrow> bytes list \<Rightarrow> bool" where
  "jvm_script fuel [] xs \<longleftrightarrow> True"
| "jvm_script fuel ((asked, r) # rs) xs \<longleftrightarrow>
     (\<exists>ns zs. xs = ns @ r # zs \<and> (if asked then jvm_gap ns \<and> length ns < fuel else ns = []) \<and> jvm_script fuel rs zs)"

definition jvm_answers :: "nat \<Rightarrow> conn \<Rightarrow> (bool \<times> bytes) list \<Rightarrow> bool" where
  "jvm_answers fuel c rs \<longleftrightarrow> can_write c \<and> (\<exists>xs. sock_offers c xs \<and> jvm_script fuel rs xs)"

context packet_source begin

definition jvm_read :: "nat \<Rightarrow> nat \<Rightarrow> ('s, bytes) st" where
  "jvm_read fuel bc = bnd Receive (\<lambda>inFrag. round_loop jvm_round Receive fuel bc inFrag)"

lemma jvm_read_answer:
  assumes "list_all (\<lambda>n. length n < 6 \<or> 6 < length n \<and> IsSequencePacket n \<and> CheckSize n SB_PACKET_HEADER_SIZE = Inr ()) ns"
    and "bc + length (filter (\<lambda>n. length n < 6) ns) < 10" and "length r = 6" and "length ns < fuel" and "offers s (ns @ r # rest)"
  shows "\<exists>s'. jvm_read fuel bc s = (Inr r, s') \<and> offers s' rest"
  using assms
proof (induction ns arbitrary: bc s fuel)
  case Nil
  then obtain f where "fuel = Suc f" by (cases fuel) auto
  then show ?case using receive_offered[of s r rest] Nil.prems by (auto simp: jvm_read_def jvm_round_def)
next
  case (Cons n ns)
  obtain f where f: "fuel = Suc f" "length ns < f" using Cons.prems(4) by (cases fuel) auto
  obtain s1 where s1: "Receive s = (Inr n, s1)" "offers s1 (ns @ r # rest)" using receive_offered Cons.prems(5) by fastforce
  obtain bc' where b: "jvm_round bc n = Inr (False, bc')" "bc' + length (filter (\<lambda>n. length n < 6) ns) < 10"
  proof (cases "length n < 6")
    case True
    then show ?thesis using that[of "Suc bc"] Cons.prems(2) by (simp add: jvm_round_def)
  next
    case False
    then show ?thesis using that[of 0] Cons.prems(1,2) by (auto simp: jvm_round_def IsSequencePacket_def layout_simps split: if_splits)
  qed
  have "jvm_read fuel bc s = jvm_read f bc' s1" using f(1) s1(1) b(1) by (simp add: jvm_read_def)
  then show ?case using Cons.IH[OF _ b(2) Cons.prems(3) f(2) s1(2)] Cons.prems(1) by auto
qed

end

lemma routed_jvm_Packet:
  assumes "jvm_answers fuel c ((True, r) # rs)" "jvm_sendable (contents d)" "length r = 6"
  shows "\<exists>c'. Packet_JVM Socket_RawSend (Socket_Receive h) fuel d c = (Inr r, c') \<and> jvm_answers fuel c' rs
    \<and> sent (zr c') = sent (zr c) @ jl_wire c (drop 2 (contents d)) \<and> jl_wire c' = jl_wire c"
proof -
  obtain ns zs where x: "can_write c" "sock_offers c (ns @ r # zs)" "jvm_gap ns" "length ns < fuel" "jvm_script fuel rs zs"
    using assms(1) by (auto simp: jvm_answers_def)
  define c1 where "c1 = c\<lparr>zr := (zr c)\<lparr>sent := sent (zr c) @ on_wire (m_socket (sk c)) (contents d)\<rparr>\<rparr>"
  have c1: "Socket_RawSend (contents d) c = (Inr (), c1)" "sock_offers c1 (ns @ r # zs)" "can_write c1" "m_socket (sk c1) = m_socket (sk c)"
    using Socket_RawSend_ok[OF x(1)] x(1,2) by (simp_all add: c1_def offers_sent can_write_def zero_has_device_def cong: option.case_cong)
  then have "offers_still c1 c1 (ns @ r # zs)" by (simp add: offers_still_def)
  then obtain c2 where c2: "still_source.jvm_read h fuel 0 c1 = (Inr r, c2)" "offers_still c1 c2 zs"
    using still_source.jvm_read_answer[of ns 0 r fuel c1 c1 zs h] x(3,4) assms(3) by (auto simp: jvm_gap_def)
  have "Packet_JVM Socket_RawSend (Socket_Receive h) fuel d c = (Inr r, c2)"
    using assms(2) c1(1) c2(1) by (simp add: Packet_JVM_def PacketJVM_def jvm_sendable_def layout_simps still_source.jvm_read_def)
  moreover have "jl_wire c (drop 2 (contents d)) = on_wire (m_socket (sk c)) (contents d)"
    using assms(2) on_wire_body[of "contents d"] by (simp add: jl_wire_def jvm_sendable_def)
  ultimately show ?thesis
    using c1 c2(2) x(5) by (auto simp: offers_still_def can_write_def jvm_answers_def jl_wire_def fun_eq_iff c1_def)
qed

lemma routed_jvm_Receive:
  assumes "jvm_answers fuel c ((False, r) # rs)"
  shows "\<exists>c'. Socket_Receive h c = (Inr r, c') \<and> jvm_answers fuel c' rs \<and> sent (zr c') = sent (zr c) \<and> jl_wire c' = jl_wire c"
proof -
  obtain zs where x: "can_write c" "sock_offers c (r # zs)" "jvm_script fuel rs zs"
    using assms by (auto simp: jvm_answers_def)
  then show ?thesis
    using Socket_Receive_offered[of c r zs h] by (auto simp: jvm_answers_def can_write_def jl_wire_def fun_eq_iff)
qed

interpretation routed_vm: debug_link "routed_jvm h fuel" "jvm_answers fuel" jl_wire "\<lambda>c. sent (zr c)"
  by unfold_locales (use routed_jvm_Packet routed_jvm_Receive in \<open>simp_all add: routed_jvm_def\<close>)

end
