(* ===== verification/Debug_Transfer.thy ===== *)
theory Debug_Transfer imports Debug_Link begin

text \<open>
  What the JVM debug mode makes of a device's lists: the modules of all pages, in order; the
  threads with the answers to the five questions about each, and what is left of the list
  when the device stops answering; that parsing a page never loops.
\<close>

section \<open>Parsing modules\<close>

definition module_bytes :: "jvm_module \<Rightarrow> bytes" where
  "module_bytes m = rev (le32 (jm_Id m)) @ rev (le32 (jm_UniqueID m)) @ rev (le16 (word_of_nat (length (jm_Name m)))) @ jm_Name m"

definition module_ok :: "jvm_module \<Rightarrow> bool" where "module_ok m \<longleftrightarrow> length (jm_Name m) < 65526"

lemma length_module_bytes: "length (module_bytes m) = 10 + length (jm_Name m)"
  by (simp add: module_bytes_def)

lemma module_members:
  "be32_at (pre @ module_bytes m @ rest) (length pre) = jm_Id m"
  "be32_at (pre @ module_bytes m @ rest) (length pre + 4) = jm_UniqueID m"
  "rd16 (pre @ module_bytes m @ rest) (length pre + 8) = Inr (bbswap_16 (word_of_nat (length (jm_Name m))))"
  by (simp_all add: be32_at_def rd16_def module_bytes_def flip: le32_bbswap le16_bbswap)

lemma module_entry_at: "module_entry (pre @ module_bytes m @ rest) (length pre) (length (jm_Name m)) = m"
proof -
  have "drop 10 (module_bytes m) = jm_Name m" by (simp add: module_bytes_def)
  then show ?thesis by (simp add: module_entry_def module_members layout_simps)
qed

lemma modules_loop_reads:
  assumes "list_all module_ok ms" "length ms < fuel"
  shows "modules_loop fuel (pre @ concat (map module_bytes ms) @ tail) (length pre + length (concat (map module_bytes ms))) (length pre) list
    = Inr (list @ ms)"
  using assms
proof (induction ms arbitrary: pre list fuel)
  case Nil
  then show ?case by (cases fuel) auto
next
  case (Cons m ms)
  obtain f where f: "fuel = Suc f" "length ms < f" using Cons.prems(2) by (cases fuel) auto
  let ?rest = "concat (map module_bytes ms) @ tail"
  have m: "length (jm_Name m) < 65526" "list_all module_ok ms" using Cons.prems(1) module_ok_def[of m] by simp_all
  have n: "unat (word_of_nat (length (jm_Name m)) :: u16) = length (jm_Name m)"
    "unat (10 + word_of_nat (length (jm_Name m)) :: u16) = 10 + length (jm_Name m)"
    using m(1) unat_ucast_u16[of "length (jm_Name m)"] unat_ucast_u16[of "10 + length (jm_Name m)"] by simp_all
  have "modules_loop f ((pre @ module_bytes m) @ ?rest) (length (pre @ module_bytes m) + length (concat (map module_bytes ms)))
      (length (pre @ module_bytes m)) (list @ [m]) = Inr ((list @ [m]) @ ms)"
    by (rule Cons.IH[OF m(2) f(2)])
  then show ?case
    using module_members(3)[of pre m ?rest] module_entry_at[of pre m ?rest] n f(1)
    by (simp add: Let_def layout_simps length_module_bytes add.assoc)
qed

lemma concat_modules_length: "length ms \<le> length (concat (map module_bytes ms))"
  by (induction ms) (auto simp: length_module_bytes)

lemma Parse_reads:
  assumes "list_all module_ok ms"
  shows "JVMModulesList_Parse (concat (map module_bytes ms) @ tail) (length (concat (map module_bytes ms))) list = Inr (list @ ms)"
  using modules_loop_reads[OF assms, of "Suc (length (concat (map module_bytes ms)))" "[]"] concat_modules_length[of ms]
  by (simp add: JVMModulesList_Parse_def del: modules_loop.simps)

text \<open>
  Parsing a page ends: an entry whose length wraps to less than its header claims a name
  that does not fit into a packet.
\<close>

lemma entry_advances:
  assumes "i + 10 + unat (w :: u16) \<le> m" "m < 65536"
  shows "0 < unat (10 + w)"
proof -
  have "unat (10 + w) = 10 + unat w" using assms unat_ucast_u16[of "10 + unat w"] by simp
  then show ?thesis by simp
qed

lemma modules_loop_ends:
  assumes "length memory < 65536" "n - i < fuel"
  shows "modules_loop fuel memory n i ms \<noteq> Inl (UB ''out of fuel'')"
  using assms(2)
proof (induction fuel arbitrary: i ms)
  case (Suc fuel)
  show ?case
  proof (cases "i < n \<and> i + 8 + 2 \<le> length memory")
    case True
    define w where "w = bbswap_16 (get16 memory (i + 8))"
    define len where "len = unat (10 + w)"
    show ?thesis
    proof (cases "n < i + len \<or> length memory < i + 10 + unat w")
      case True
      then show ?thesis by (auto simp: Let_def layout_simps w_def len_def rd16_def)
    next
      case False
      then have "n - (i + len) < fuel" using entry_advances[of i w "length memory"] assms(1) Suc.prems True by (auto simp: len_def)
      then show ?thesis
        using Suc.IH[of "i + len"] False True by (simp add: Let_def layout_simps rd16_def flip: w_def len_def)
    qed
  qed (auto simp: rd16_def)
qed simp

theorem JVMModulesList_Parse_ends:
  assumes "length memory < 65536"
  shows "JVMModulesList_Parse memory n ms \<noteq> Inl (UB ''out of fuel'')"
  using modules_loop_ends[OF assms, of n 0 "Suc n"] by (simp add: JVMModulesList_Parse_def)

section \<open>All pages\<close>

type_synonym module_page = "u32 \<times> jvm_module list \<times> u32"

definition page_body :: "module_page \<Rightarrow> bytes" where
  "page_body p = (case p of (nbr, ms, next_id) \<Rightarrow> rev (le32 nbr) @ concat (map module_bytes ms) @ rev (le32 next_id))"

definition page_ok :: "module_page \<Rightarrow> bool" where
  "page_ok p \<longleftrightarrow> list_all module_ok (fst (snd p)) \<and> length (page_body p) < 65532"

definition page_ids :: "module_page list \<Rightarrow> u32 list" where "page_ids pages = map (snd \<circ> snd) pages"

definition modules_script :: "module_page list \<Rightarrow> (bool \<times> bytes) list" where
  "modules_script pages = concat (map (reply_script \<circ> page_body) pages)"

context debug_link begin

lemma modules_pages_collects:
  assumes "list_all page_ok pages" "pages \<noteq> []" "list_all (\<lambda>i. i \<noteq> 0) (butlast (page_ids pages))" "last (page_ids pages) = 0"
    and "length pages \<le> fuel" "data_ok d" "answers s (modules_script pages @ rs)"
  shows "\<exists>s'. modules_pages k fuel off d mylist s = (Inr (mylist @ concat (map (fst \<circ> snd) pages)), s')
    \<and> after s (map (ident_body SB_COMMAND_JVM_GET_MODULES_LIST) (off # butlast (page_ids pages))) rs s'"
  using assms
proof (induction pages arbitrary: fuel off d mylist s)
  case (Cons p pages)
  obtain nbr ms i where p: "p = (nbr, ms, i)" by (cases p)
  obtain f where f: "fuel = Suc f" "length pages \<le> f" using Cons.prems(5) by (cases fuel) auto
  let ?list = "concat (map module_bytes ms)"
  have body: "page_body p = rev (le32 nbr) @ ?list @ rev (le32 i)" by (simp add: p page_body_def)
  have ok: "list_all module_ok ms" "length (page_body p) = 8 + length ?list" "length ?list < 65524"
    using Cons.prems(1) body by (auto simp: page_ok_def p)
  then have bo: "body_ok (page_body p)" by (cases "page_body p") (simp_all add: body_ok_def)
  have a: "answers s (reply_script (page_body p) @ modules_script pages @ rs)" using Cons.prems(7) by (simp add: modules_script_def)
  have mk: "makes (GetModulesList off) (ident_body SB_COMMAND_JVM_GET_MODULES_LIST off)"
    using makes_ident[of SB_COMMAND_JVM_GET_MODULES_LIST off] by (simp add: GetModulesList_def[abs_def])
  obtain d' s1 where s1: "jvm_query k ''JVMDebug::GetModulesList():'' (GetModulesList off) d s = (Inr (Some (dev_msg (page_body p)), d'), s1)"
      "data_ok d'" "after s [ident_body SB_COMMAND_JVM_GET_MODULES_LIST off] (modules_script pages @ rs) s1"
    using query_answered[OF mk Cons.prems(6) bo a] by blast
  have sz: "CheckSize (dev_msg (page_body p)) j = Inr () \<longleftrightarrow> j \<le> 12 + length ?list" for j
    using dev_msg_size[of "page_body p" j] ok(2,3) by simp
  have l: "length (dev_msg (page_body p)) = 12 + length ?list" using ok(2) by (simp add: length_dev_msg)
  have dr: "drop 8 (dev_msg (page_body p)) = ?list @ rev (le32 i)"
    by (simp add: dev_msg_def body)
  have "get32 (drop 8 (dev_msg (page_body p))) (length ?list) = bbswap_32 i" unfolding dr by (simp flip: le32_bbswap)
  then have id_at: "be32_at (dev_msg (page_body p)) (8 + length ?list) = i" by (simp add: be32_at_def)
  have step: "modules_pages k fuel off d mylist s
      = (if i = 0 then ret (mylist @ ms) else modules_pages k f i d' (mylist @ ms)) s1"
    using s1(1) sz l dr id_at Parse_reads[OF ok(1), of "rev (le32 i)" mylist] f(1)
    by (simp add: bnd_lift Let_def layout_simps)
  show ?case
  proof (cases "pages = []")
    case True
    then have "i = 0" using Cons.prems(4) by (simp add: page_ids_def p)
    then show ?thesis using step s1(3) True by (simp add: p page_ids_def modules_script_def)
  next
    case False
    then have i: "i \<noteq> 0" "list_all (\<lambda>i. i \<noteq> 0) (butlast (page_ids pages))" "last (page_ids pages) = 0" "list_all page_ok pages"
      using Cons.prems(1,3,4) by (simp_all add: page_ids_def p)
    obtain s' where s': "modules_pages k f i d' (mylist @ ms) s1 = (Inr ((mylist @ ms) @ concat (map (fst \<circ> snd) pages)), s')"
        "after s1 (map (ident_body SB_COMMAND_JVM_GET_MODULES_LIST) (i # butlast (page_ids pages))) rs s'"
      using Cons.IH[OF i(4) False i(2,3) f(2) s1(2) after_answers[OF s1(3)]] by blast
    have "butlast (page_ids (p # pages)) = i # butlast (page_ids pages)" using False by (simp add: page_ids_def p)
    then show ?thesis using step i(1) s' after_trans[OF s1(3) s'(2)] by (auto simp: p comp_def)
  qed
qed simp

end

text \<open>
  C7: GetModulesList returns the modules of the device: it asks for page 0 and then for the
  page each answer names, until one names none, and the list it fills gets exactly the
  modules of these pages, with ids and names, in order, whatever sequence packets and
  blanks come in between; nothing else is written to the device.
\<close>

theorem GetModulesList_collects:
  assumes "list_all page_ok pages" "pages \<noteq> []" "list_all (\<lambda>i. i \<noteq> 0) (butlast (page_ids pages))" "last (page_ids pages) = 0"
    and "length pages \<le> pages_fuel" "jvm_answers fuel c (modules_script pages)"
  shows "\<exists>c'. JVMDebug_GetModulesList (routed_jvm h fuel) pages_fuel mylist c
        = (Inr (mylist @ concat (map (fst \<circ> snd) pages)), c')
    \<and> sent (zr c') = sent (zr c) @ concat (map (jl_wire c \<circ> ident_body SB_COMMAND_JVM_GET_MODULES_LIST) (0 # butlast (page_ids pages)))"
  using routed_vm.modules_pages_collects[OF assms(1-5), of JVMPacket_new fuel c "[]" h 0 mylist] assms(6)
  by (auto simp: JVMDebug_GetModulesList_def JVMPacket_new_def Data_new_def data_ok_def routed_vm.after_def)

text \<open>A device that answers at once.\<close>

lemma jvm_prompt: "jvm_answers 1 (sample_conn (map snd rs)) rs"
proof -
  have "jvm_script 1 rs (map snd rs)"
    by (induction rs) (force simp: jvm_gap_def intro: exI[of _ "[]"])+
  then show ?thesis using sample_conn_offers by (auto simp: jvm_answers_def)
qed

definition sample_pages :: "module_page list" where
  "sample_pages = [(2, [\<lparr>jm_Id = 1, jm_UniqueID = 10, jm_Name = lit ''net''\<rparr>, \<lparr>jm_Id = 2, jm_UniqueID = 11, jm_Name = []\<rparr>], 7),
     (1, [\<lparr>jm_Id = 7, jm_UniqueID = 12, jm_Name = lit ''ui''\<rparr>], 0)]"

lemma GetModulesList_collects_witness:
  "\<exists>c'. JVMDebug_GetModulesList (routed_jvm (\<lambda>_ bs. Inr bs) 1) 2 [] (sample_conn (map snd (modules_script sample_pages)))
      = (Inr [\<lparr>jm_Id = 1, jm_UniqueID = 10, jm_Name = lit ''net''\<rparr>, \<lparr>jm_Id = 2, jm_UniqueID = 11, jm_Name = []\<rparr>,
          \<lparr>jm_Id = 7, jm_UniqueID = 12, jm_Name = lit ''ui''\<rparr>], c')"
proof -
  have "list_all page_ok sample_pages" "sample_pages \<noteq> []" "list_all (\<lambda>i. i \<noteq> 0) (butlast (page_ids sample_pages))"
    "last (page_ids sample_pages) = 0" "length sample_pages \<le> 2"
    by (simp_all add: sample_pages_def page_ok_def module_ok_def page_body_def length_module_bytes page_ids_def lit_def)
  from GetModulesList_collects[OF this jvm_prompt, of "\<lambda>_ bs. Inr bs" "[]"] show ?thesis
    by (auto simp: sample_pages_def)
qed

section \<open>Threads\<close>

text \<open>What the device says of a thread; an address of zero is not asked about.\<close>

definition thread_bodies :: "jvm_thread \<Rightarrow> bytes list" where
  "thread_bodies t = [jt_Byte t # rev (le32 (jt_Address t))] @ (if jt_Address t \<noteq> 0 then [rev (le32 (jt_Unknown01 t))] else [])
     @ [rev (le32 (jt_Unknown02 t)), rev (le32 (jt_Unknown03 t)) @ rev (le32 (jt_Unknown04 t)),
        rev (le32 (jt_Unknown05 t)) @ rev (le32 (jt_Unknown06 t))]"

definition thread_requests :: "jvm_thread \<Rightarrow> bytes list" where
  "thread_requests t = [ident_body SB_COMMAND_JVM_UNKNOWN11 (jt_Id t)]
     @ (if jt_Address t \<noteq> 0 then [ident_body SB_COMMAND_JVM_UNKNOWN12 (jt_Address t)] else [])
     @ [ident_body SB_COMMAND_JVM_UNKNOWN13 (jt_Id t), ident_body SB_COMMAND_JVM_UNKNOWN14 (jt_Id t),
        ident_body SB_COMMAND_JVM_UNKNOWN15 (jt_Id t)]"

definition thread_script :: "jvm_thread \<Rightarrow> (bool \<times> bytes) list" where
  "thread_script t = concat (map reply_script (thread_bodies t))"

definition thread_ok :: "jvm_thread \<Rightarrow> bool" where
  "thread_ok t \<longleftrightarrow> (jt_Address t = 0 \<longrightarrow> jt_Unknown01 t = 0)"

definition unfilled :: "jvm_thread \<Rightarrow> jvm_thread \<Rightarrow> jvm_thread" where
  "unfilled junk t = junk\<lparr>jt_Id := jt_Id t\<rparr>"

definition threads_body :: "u32 \<Rightarrow> jvm_thread list \<Rightarrow> bytes" where
  "threads_body nbr ts = rev (le32 nbr) @ concat (map (\<lambda>t. rev (le32 (jt_Id t))) ts)"

lemma thread_list_ids: "thread_list junk (concat (map (\<lambda>t. rev (le32 (jt_Id t))) ts)) = map (unfilled junk) ts"
proof (induction ts)
  case (Cons t ts)
  have "be32_at (rev (le32 (jt_Id t))) 0 = jt_Id t" by (simp add: be32_at_def flip: le32_bbswap)
  then show ?case using Cons by (simp add: le32_def le16_def unfilled_def)
qed simp

lemma member_makes:
  "makes (Unknown11 i) (ident_body SB_COMMAND_JVM_UNKNOWN11 i)" "makes (Unknown12 i) (ident_body SB_COMMAND_JVM_UNKNOWN12 i)"
  "makes (Unknown13 i) (ident_body SB_COMMAND_JVM_UNKNOWN13 i)" "makes (Unknown14 i) (ident_body SB_COMMAND_JVM_UNKNOWN14 i)"
  "makes (Unknown15 i) (ident_body SB_COMMAND_JVM_UNKNOWN15 i)" "makes GetThreadsList (plain_body SB_COMMAND_JVM_GET_THREADS_LIST)"
  by (simp_all add: Unknown11_def Unknown12_def Unknown13_def Unknown14_def Unknown15_def GetThreadsList_def makes_ident makes_plain)

lemma body_reads:
  "be32_at (dev_msg (rev (le32 a) @ rest)) 4 = a" "be32_at (dev_msg (rev (le32 a) @ rev (le32 b))) 8 = b"
  "be32_at (dev_msg (x # rev (le32 a))) 5 = a" "byte_at (dev_msg (x # bs)) 4 = x"
proof -
  have g: "be32_at (dev_msg body) (4 + i) = be32_at body i" for body i
    using get32_drop[of 4 "dev_msg body" i] by (simp add: be32_at_def drop_dev_msg del: get32_drop)
  show "be32_at (dev_msg (rev (le32 a) @ rest)) 4 = a" "be32_at (dev_msg (rev (le32 a) @ rev (le32 b))) 8 = b"
    "be32_at (dev_msg (x # rev (le32 a))) 5 = a"
    using g[of _ 0] g[of _ 4] g[of _ 1] by (simp_all add: be32_at_def flip: le32_bbswap)
  show "byte_at (dev_msg (x # bs)) 4 = x" by (simp add: dev_msg_def le16_def)
qed

text \<open>The questions about one thread as a list; one of them depends on an earlier answer.\<close>

record jvm_question =
  jq_msg :: string
  jq_asked :: "jvm_thread \<Rightarrow> bool"
  jq_build :: "jvm_thread \<Rightarrow> data \<Rightarrow> data res"
  jq_need :: nat
  jq_store :: "jvm_thread \<Rightarrow> bytes \<Rightarrow> jvm_thread"
  jq_skip :: "jvm_thread \<Rightarrow> jvm_thread"

fun thread_asks :: "'s jvm_socket \<Rightarrow> jvm_question list \<Rightarrow> jvm_thread \<times> data \<Rightarrow> ('s, (jvm_thread \<times> data) option) st" where
  "thread_asks k [] (e, d) = ret (Some (e, d))"
| "thread_asks k (q # qs) (e, d) =
     unless_done (if jq_asked q e then jvm_member k (jq_msg q) (jq_build q e) (jq_need q) d (jq_store q e)
                  else ret (Some (jq_skip q e, d))) (thread_asks k qs)"

definition thread_questions :: "jvm_question list" where
  "thread_questions =
     [\<lparr>jq_msg = ''JVMDebug::GetThreadsList() (1):'', jq_asked = \<lambda>_. True, jq_build = Unknown11 \<circ> jt_Id, jq_need = 5,
       jq_store = \<lambda>e r. e\<lparr>jt_Byte := byte_at r 4, jt_Address := be32_at r 5\<rparr>, jq_skip = \<lambda>e. e\<rparr>,
      \<lparr>jq_msg = ''JVMDebug::GetThreadsList() (2):'', jq_asked = \<lambda>e. jt_Address e \<noteq> 0, jq_build = Unknown12 \<circ> jt_Address,
       jq_need = 4, jq_store = \<lambda>e r. e\<lparr>jt_Unknown01 := be32_at r 4\<rparr>, jq_skip = \<lambda>e. e\<lparr>jt_Unknown01 := 0\<rparr>\<rparr>,
      \<lparr>jq_msg = ''JVMDebug::GetThreadsList() (3):'', jq_asked = \<lambda>_. True, jq_build = Unknown13 \<circ> jt_Id, jq_need = 4,
       jq_store = \<lambda>e r. e\<lparr>jt_Unknown02 := be32_at r 4\<rparr>, jq_skip = \<lambda>e. e\<rparr>,
      \<lparr>jq_msg = ''JVMDebug::GetThreadsList() (4):'', jq_asked = \<lambda>_. True, jq_build = Unknown14 \<circ> jt_Id, jq_need = 8,
       jq_store = \<lambda>e r. e\<lparr>jt_Unknown03 := be32_at r 4, jt_Unknown04 := be32_at r 8\<rparr>, jq_skip = \<lambda>e. e\<rparr>,
      \<lparr>jq_msg = ''JVMDebug::GetThreadsList() (5):'', jq_asked = \<lambda>_. True, jq_build = Unknown15 \<circ> jt_Id, jq_need = 8,
       jq_store = \<lambda>e r. e\<lparr>jt_Unknown05 := be32_at r 4, jt_Unknown06 := be32_at r 8\<rparr>, jq_skip = \<lambda>e. e\<rparr>]"

lemma asks_Cons: "thread_asks k (q # qs) = (\<lambda>(e, d).
     unless_done (if jq_asked q e then jvm_member k (jq_msg q) (jq_build q e) (jq_need q) d (jq_store q e)
                  else ret (Some (jq_skip q e, d))) (thread_asks k qs))"
  by auto

lemma unless_done_ret: "unless_done m (thread_asks k []) = m"
  by (rule ext) (auto simp: unless_done_def bnd_def ret_def split: prod.split sum.split option.split)

lemma thread_details_questions: "thread_details k e d = thread_asks k thread_questions (e, d)"
  by (simp add: thread_details_def thread_questions_def asks_Cons unless_done_ret layout_simps cong: if_cong del: thread_asks.simps)

text \<open>The answers \<open>bodies\<close> to the requests turn the entry into \<open>t\<close>.\<close>

inductive fills :: "jvm_question list \<Rightarrow> bytes list \<Rightarrow> bytes list \<Rightarrow> jvm_thread \<Rightarrow> jvm_thread \<Rightarrow> bool" where
  fills_all: "fills [] [] [] e e"
| fills_asked: "jq_asked q e \<Longrightarrow> makes (jq_build q e) request \<Longrightarrow> body_ok body \<Longrightarrow> jq_need q \<le> length body
    \<Longrightarrow> fills qs bodies reqs (jq_store q e (dev_msg body)) t \<Longrightarrow> fills (q # qs) (body # bodies) (request # reqs) e t"
| fills_skipped: "\<not> jq_asked q e \<Longrightarrow> fills qs bodies reqs (jq_skip q e) t \<Longrightarrow> fills (q # qs) bodies reqs e t"

lemma fills_thread:
  assumes "thread_ok t" "jt_Id e = jt_Id t"
  shows "fills thread_questions (thread_bodies t) (thread_requests t) e t"
proof -
  have bo: "body_ok (x # rev (le32 a))" "body_ok (rev (le32 a))" "body_ok (rev (le32 a) @ rev (le32 b))" for x a b
    by (simp_all add: body_ok_def le32_def le16_def)
  note r = body_reads body_reads(1)[where rest = "[]", simplified]
  show ?thesis
  proof (cases "jt_Address t = 0")
    case True
    then show ?thesis using assms unfolding thread_questions_def thread_bodies_def thread_requests_def thread_ok_def
      by (simp) (rule fills_asked, simp, simp add: member_makes, rule bo, simp, rule fills_skipped, simp add: r,
          (rule fills_asked, simp, simp add: member_makes r, rule bo, simp)+, simp add: r, cases e, cases t, simp add: fills_all)
  next
    case False
    then show ?thesis using assms unfolding thread_questions_def thread_bodies_def thread_requests_def
      by (simp) ((rule fills_asked, simp add: r, simp add: member_makes r, rule bo, simp)+, simp add: r, cases e, cases t, simp add: fills_all)
  qed
qed

context debug_link begin

lemma member_answered:
  assumes "makes build request" "data_ok d" "body_ok body" "n \<le> length body" "answers s (reply_script body @ rs)"
  shows "\<exists>d' s'. jvm_member k msg build n d store s = (Inr (Some (store (dev_msg body), d')), s') \<and> data_ok d' \<and> after s [request] rs s'"
proof -
  obtain d' s' where "jvm_query k msg build d s = (Inr (Some (dev_msg body), d'), s')" "data_ok d'" "after s [request] rs s'"
    using query_answered[OF assms(1-3,5)] by blast
  then show ?thesis
    using assms(3,4) dev_msg_size[of body "4 + n"] by (simp add: jvm_member_def bnd_lift body_ok_def layout_simps)
qed

lemma member_silent:
  assumes "makes build request" "data_ok d" "answers s ((True, announce 0) # rs)"
  shows "\<exists>s'. jvm_member k msg build n d store s = (Inr None, s') \<and> after s [request] rs s'"
  using query_silent[OF assms, of msg] by (auto simp: jvm_member_def)

lemma thread_asks_answered:
  assumes "fills qs bodies reqs e t" "data_ok d" "answers s (concat (map reply_script bodies) @ rs)"
  shows "\<exists>d' s'. thread_asks k qs (e, d) s = (Inr (Some (t, d')), s') \<and> data_ok d' \<and> after s reqs rs s'"
  using assms
proof (induction arbitrary: d s rule: fills.induct)
  case (fills_all e)
  then show ?case by (auto simp: after_def)
next
  case (fills_asked q e request body qs bodies reqs t)
  have a: "answers s (reply_script body @ concat (map reply_script bodies) @ rs)" using fills_asked.prems(2) by simp
  obtain d1 s1 where s1: "jvm_member k (jq_msg q) (jq_build q e) (jq_need q) d (jq_store q e) s = (Inr (Some (jq_store q e (dev_msg body), d1)), s1)"
      "data_ok d1" "after s [request] (concat (map reply_script bodies) @ rs) s1"
    using member_answered[OF fills_asked.hyps(2) fills_asked.prems(1) fills_asked.hyps(3,4) a] by blast
  then show ?case
    using fills_asked.IH[OF s1(2) after_answers[OF s1(3)]] fills_asked.hyps(1) after_trans[OF s1(3)]
    by (fastforce simp: unless_done_def)
next
  case (fills_skipped q e qs bodies reqs t)
  then show ?case by (simp add: unless_done_def)
qed

text \<open>When the device is silent after \<open>n\<close> answers, the questions end there without a result.\<close>

lemma thread_asks_silent:
  assumes "fills qs bodies reqs e t" "data_ok d" "n < length bodies"
    and "answers s (concat (map reply_script (take n bodies)) @ (True, announce 0) # rs)"
  shows "\<exists>s'. thread_asks k qs (e, d) s = (Inr None, s') \<and> after s (take (Suc n) reqs) rs s'"
  using assms
proof (induction arbitrary: n d s rule: fills.induct)
  case (fills_asked q e request body qs bodies reqs t)
  show ?case
  proof (cases n)
    case 0
    then have "answers s ((True, announce 0) # rs)" using fills_asked.prems(3) by simp
    then obtain s' where "jvm_member k (jq_msg q) (jq_build q e) (jq_need q) d (jq_store q e) s = (Inr None, s')" "after s [request] rs s'"
      using member_silent[OF fills_asked.hyps(2) fills_asked.prems(1)] by blast
    then show ?thesis using 0 fills_asked.hyps(1) by (simp add: unless_done_def)
  next
    case (Suc m)
    have a: "answers s (reply_script body @ concat (map reply_script (take m bodies)) @ (True, announce 0) # rs)"
      using fills_asked.prems(3) Suc by simp
    obtain d1 s1 where s1: "jvm_member k (jq_msg q) (jq_build q e) (jq_need q) d (jq_store q e) s = (Inr (Some (jq_store q e (dev_msg body), d1)), s1)"
        "data_ok d1" "after s [request] (concat (map reply_script (take m bodies)) @ (True, announce 0) # rs) s1"
      using member_answered[OF fills_asked.hyps(2) fills_asked.prems(1) fills_asked.hyps(3,4) a] by blast
    have m: "m < length bodies" using fills_asked.prems(2) Suc by simp
    show ?thesis
      using fills_asked.IH[OF s1(2) m after_answers[OF s1(3)]] fills_asked.hyps(1) after_trans[OF s1(3)] s1(1) Suc
      by (fastforce simp: unless_done_def)
  qed
next
  case (fills_skipped q e qs bodies reqs t)
  then show ?case by (simp add: unless_done_def)
qed simp

lemma thread_answered:
  assumes "thread_ok t" "jt_Id e = jt_Id t" "data_ok d" "answers s (thread_script t @ rs)"
  shows "\<exists>d' s'. thread_details k e d s = (Inr (Some (t, d')), s') \<and> data_ok d' \<and> after s (thread_requests t) rs s'"
  using thread_asks_answered[OF fills_thread[OF assms(1,2)] assms(3) assms(4)[unfolded thread_script_def]]
  by (simp add: thread_details_questions)

lemma threads_loop_completes:
  assumes "list_all thread_ok ts" "data_ok d" "answers s (concat (map thread_script ts) @ rs)"
  shows "\<exists>d' s'. threads_loop k complete (map (unfilled junk) ts @ todo) d s = threads_loop k (complete @ ts) todo d' s' \<and> data_ok d'
    \<and> after s (concat (map thread_requests ts)) rs s'"
  using assms
proof (induction ts arbitrary: complete d s)
  case Nil
  then show ?case by (auto simp: after_def)
next
  case (Cons t ts)
  have a: "answers s (thread_script t @ concat (map thread_script ts) @ rs)" and ok: "thread_ok t" "list_all thread_ok ts"
    using Cons.prems(1,3) by simp_all
  obtain d1 s1 where s1: "thread_details k (unfilled junk t) d s = (Inr (Some (t, d1)), s1)" "data_ok d1"
      "after s (thread_requests t) (concat (map thread_script ts) @ rs) s1"
    using thread_answered[OF ok(1) _ Cons.prems(2) a, of "unfilled junk t"] by (auto simp: unfilled_def)
  obtain d' s' where s': "threads_loop k (complete @ [t]) (map (unfilled junk) ts @ todo) d1 s1 = threads_loop k ((complete @ [t]) @ ts) todo d' s'"
      "data_ok d'" "after s1 (concat (map thread_requests ts)) rs s'"
    using Cons.IH[OF ok(2) s1(2) after_answers[OF s1(3)]] by blast
  then show ?case using s1(1) after_trans[OF s1(3) s'(3)] by auto
qed

end

text \<open>
  What the device sends for the threads it answers completely, and for the first of the
  others, of which it answers \<open>n\<close> questions before it has nothing to say.
\<close>

definition cut_script :: "nat \<Rightarrow> jvm_thread list \<Rightarrow> (bool \<times> bytes) list" where
  "cut_script n rest = (if rest = [] then []
     else concat (map reply_script (take n (thread_bodies (hd rest)))) @ [(True, announce 0)])"

definition cut_requests :: "nat \<Rightarrow> jvm_thread list \<Rightarrow> bytes list" where
  "cut_requests n rest = (if rest = [] then [] else take (Suc n) (thread_requests (hd rest)))"

definition cut_ok :: "nat \<Rightarrow> jvm_thread list \<Rightarrow> bool" where
  "cut_ok n rest \<longleftrightarrow> rest = [] \<or> thread_ok (hd rest) \<and> n < length (thread_bodies (hd rest))"

context debug_link begin

lemma threads_list_details:
  assumes "list_all thread_ok ts" "cut_ok n rest" "length (threads_body nbr (ts @ rest)) < 65532"
    and "answers s (reply_script (threads_body nbr (ts @ rest)) @ concat (map thread_script ts) @ cut_script n rest)"
  shows "\<exists>s'. JVMDebug_GetThreadsList k junk [] s = (Inr (ts @ map (unfilled junk) rest), s')
    \<and> after s (plain_body SB_COMMAND_JVM_GET_THREADS_LIST # concat (map thread_requests ts) @ cut_requests n rest) [] s'"
proof -
  let ?body = "threads_body nbr (ts @ rest)"
  have d: "data_ok JVMPacket_new" by (simp add: JVMPacket_new_def Data_new_def data_ok_def)
  have bo: "body_ok ?body" using assms(3) by (simp add: body_ok_def threads_body_def le32_def le16_def)
  obtain d1 s1 where s1: "jvm_query k ''JVMDebug::GetThreadsList():'' GetThreadsList JVMPacket_new s = (Inr (Some (dev_msg ?body), d1), s1)"
      "data_ok d1" "after s [plain_body SB_COMMAND_JVM_GET_THREADS_LIST] (concat (map thread_script ts) @ cut_script n rest) s1"
    using query_answered[OF member_makes(6) d bo assms(4)] by blast
  have sz: "CheckSize (dev_msg ?body) 8 = Inr ()" using dev_msg_size[OF assms(3), of 8] by (simp add: threads_body_def)
  have "drop 8 (dev_msg ?body) = concat (map (\<lambda>t. rev (le32 (jt_Id t))) (ts @ rest))"
    using drop_drop[of 4 4 "dev_msg ?body"] by (simp add: drop_dev_msg threads_body_def)
  then have "JVMThreadsList_Parse junk (drop 8 (dev_msg ?body)) [] = map (unfilled junk) ts @ map (unfilled junk) rest"
    using thread_list_ids[of junk "ts @ rest"] by (simp add: JVMThreadsList_Parse_def)
  then have l: "JVMDebug_GetThreadsList k junk [] s = threads_loop k [] (map (unfilled junk) ts @ map (unfilled junk) rest) d1 s1"
    using s1(1) sz by (simp add: JVMDebug_GetThreadsList_def bnd_lift layout_simps)
  obtain d2 s2 where s2: "threads_loop k [] (map (unfilled junk) ts @ map (unfilled junk) rest) d1 s1 = threads_loop k ts (map (unfilled junk) rest) d2 s2"
      "data_ok d2" "after s1 (concat (map thread_requests ts)) (cut_script n rest) s2"
    using threads_loop_completes[OF assms(1) s1(2) after_answers[OF s1(3)], of "[]" junk "map (unfilled junk) rest"] by auto
  note done_so_far = after_trans[OF s1(3) s2(3)]
  show ?thesis
  proof (cases rest)
    case Nil
    then show ?thesis using l s2(1) done_so_far by (simp add: cut_script_def cut_requests_def)
  next
    case (Cons t rest')
    then have e: "answers s2 (concat (map reply_script (take n (thread_bodies t))) @ (True, announce 0) # [])"
      and t: "thread_ok t" "n < length (thread_bodies t)"
      using after_answers[OF s2(3)] assms(2) by (simp_all add: cut_script_def cut_ok_def)
    have "jt_Id (unfilled junk t) = jt_Id t" by (simp add: unfilled_def)
    from thread_asks_silent[OF fills_thread[OF t(1) this] s2(2) t(2) e]
    obtain s3 where s3: "thread_details k (unfilled junk t) d2 s2 = (Inr None, s3)"
        "after s2 (take (Suc n) (thread_requests t)) [] s3"
      by (auto simp: thread_details_questions)
    have "after s (plain_body SB_COMMAND_JVM_GET_THREADS_LIST # concat (map thread_requests ts) @ cut_requests n rest) [] s3"
      using after_trans[OF done_so_far s3(2)] Cons by (simp add: cut_requests_def)
    then show ?thesis using l s2(1) s3(1) Cons by simp
  qed
qed

end

text \<open>
  C8: GetThreadsList asks five questions about each thread, four if its address is zero, and
  fills the entry with the answers. If the device has nothing to say to a question, whichever
  of them it is, the call asks nothing more and returns without an error: the entries
  completed so far are right, but the list holds this thread and all that follow it with an
  id and otherwise whatever was in memory, and the answers it already had are dropped.
\<close>

theorem GetThreadsList_details:
  assumes "list_all thread_ok ts" "cut_ok n rest" "length (threads_body nbr (ts @ rest)) < 65532"
    and "jvm_answers fuel c (reply_script (threads_body nbr (ts @ rest)) @ concat (map thread_script ts) @ cut_script n rest)"
  shows "\<exists>c'. JVMDebug_GetThreadsList (routed_jvm h fuel) junk [] c = (Inr (ts @ map (unfilled junk) rest), c')
    \<and> sent (zr c') = sent (zr c) @ concat (map (jl_wire c)
        (plain_body SB_COMMAND_JVM_GET_THREADS_LIST # concat (map thread_requests ts) @ cut_requests n rest))"
  using routed_vm.threads_list_details[OF assms, of h junk] by (auto simp: routed_vm.after_def)

definition sample_thread :: jvm_thread where
  "sample_thread = \<lparr>jt_Id = 3, jt_Byte = 1, jt_Address = 0x1000, jt_Unknown01 = 4, jt_Unknown02 = 5, jt_Unknown03 = 6,
     jt_Unknown04 = 7, jt_Unknown05 = 8, jt_Unknown06 = 9\<rparr>"

text \<open>The second thread answers two of its questions.\<close>

lemma GetThreadsList_details_witness:
  "\<exists>c'. JVMDebug_GetThreadsList (routed_jvm (\<lambda>_ bs. Inr bs) 1) (sample_thread\<lparr>jt_Unknown01 := 77\<rparr>) []
        (sample_conn (map snd (reply_script (threads_body 2 [sample_thread, sample_thread\<lparr>jt_Id := 4\<rparr>])
           @ thread_script sample_thread @ cut_script 2 [sample_thread\<lparr>jt_Id := 4\<rparr>])))
      = (Inr [sample_thread, sample_thread\<lparr>jt_Id := 4, jt_Unknown01 := 77\<rparr>], c')"
proof -
  have "list_all thread_ok [sample_thread]" "length (threads_body 2 ([sample_thread] @ [sample_thread\<lparr>jt_Id := 4\<rparr>])) < 65532"
    "cut_ok 2 [sample_thread\<lparr>jt_Id := 4\<rparr>]"
    by (simp_all add: thread_ok_def sample_thread_def threads_body_def cut_ok_def thread_bodies_def)
  then show ?thesis
    using GetThreadsList_details[of "[sample_thread]" 2 "[sample_thread\<lparr>jt_Id := 4\<rparr>]" 2,
        OF _ _ _ jvm_prompt[of "reply_script _ @ _ @ _", simplified], of "\<lambda>_ bs. Inr bs" "sample_thread\<lparr>jt_Unknown01 := 77\<rparr>"]
    by (auto simp: unfilled_def)
qed

text \<open>Go and Stop wait for as long as the device announces nothing, and then read what it announced.\<close>

theorem Go_waits:
  assumes "body_ok body" "Suc n < loop_fuel"
    and "jvm_answers fuel c ((True, announce 0) # replicate n (False, announce 0) @ (False, announce (length body)) # (False, dev_msg body) # [])"
  shows "\<exists>c'. JVMDebug_Go (routed_jvm h fuel) loop_fuel c = (Inr (), c')"
    "\<exists>c'. JVMDebug_Stop (routed_jvm h fuel) loop_fuel c = (Inr (), c')"
proof -
  have go: "makes Go (plain_body SB_COMMAND_JVM_GO)" by (simp add: Go_def makes_plain)
  show "\<exists>c'. JVMDebug_Go (routed_jvm h fuel) loop_fuel c = (Inr (), c')"
    using routed_vm.run_waits[OF go assms, of h "''JVMDebug::Go():''"] unfolding JVMDebug_Go_def by blast
  show "\<exists>c'. JVMDebug_Stop (routed_jvm h fuel) loop_fuel c = (Inr (), c')"
    using routed_vm.run_waits[OF makes_Stop assms, of h "''JVMDebug::Stop():''"] unfolding JVMDebug_Stop_def by blast
qed

end
