(* ===== verification/Raw_Channel.thy ===== *)
theory Raw_Channel imports Controller begin

text \<open>
  The raw channel mode (src/src/m_raw_channel.cc, src/src/m_raw_channel.h): packets with a
  header of four bytes, sent and received as they are. The channel listens on socket 0 to
  learn that it is closed; with a callback object, its socket's packets come from the read
  thread too. A callback is foreign code: the calls made to it are logged. The connection
  holds the router of the controller, whose presence the constructor checks.
\<close>

definition SB_CHANNELPACKET_HEADER_SIZE :: nat where [layout_simps]: "SB_CHANNELPACKET_HEADER_SIZE = 2 + 2"
definition SB_CHANNELPACKET_MAX_DATA_SIZE :: nat where [layout_simps]: "SB_CHANNELPACKET_MAX_DATA_SIZE = 0x3FFC"
definition off_channel_size :: nat where [layout_simps]: "off_channel_size = 2"
definition off_channel_data :: nat where [layout_simps]: "off_channel_data = 4"

datatype channel_call = ChannelData bytes | ChannelError string | ChannelClose

text \<open>\<open>rc_callback\<close>: whether there is a callback object; \<open>rc_send_buffer\<close>: a block that new does not clear.\<close>

record raw_channel =
  rc_conn :: conn
  rc_callback :: bool
  rc_send_buffer :: bytes
  rc_zero_registered :: bool
  rc_pending_error :: "string option"
  rc_calls :: "channel_call list"

abbreviation on_rc :: "(conn, 'a) st \<Rightarrow> (raw_channel, 'a) st" where "on_rc m \<equiv> zoom rc_conn rc_conn_update m"

definition HasQueue :: "conn \<Rightarrow> bool" where "HasQueue c \<longleftrightarrow> z_queue (zr c) \<noteq> None"

definition RawChannel_new :: "bytes \<Rightarrow> bool \<Rightarrow> conn \<Rightarrow> raw_channel res" where
  "RawChannel_new junk callback con =
     (if \<not> HasQueue con then Inl (BarryError ''RawChannel: No routing queue set in controller'')
      else Inr \<lparr>rc_conn = con, rc_callback = callback,
        rc_send_buffer = take (SB_CHANNELPACKET_HEADER_SIZE + SB_CHANNELPACKET_MAX_DATA_SIZE) junk,
        rc_zero_registered = False, rc_pending_error = None, rc_calls = []\<rparr>)"

section \<open>Registration\<close>

definition on_router :: "(router \<Rightarrow> router res) \<Rightarrow> (raw_channel, unit) st" where
  "on_router f =
     bnd (gets (z_queue \<circ> zr \<circ> rc_conn)) (\<lambda>q. case q of
       None \<Rightarrow> throw (UB ''null queue pointer'')
     | Some r \<Rightarrow> bnd (lift (f r)) (\<lambda>r'.
         modify (\<lambda>c. c\<lparr>rc_conn := (rc_conn c)\<lparr>zr := (zr (rc_conn c))\<lparr>z_queue := Some r'\<rparr>\<rparr>\<rparr>)))"

text \<open>\<open>zero_handler\<close> is the handler object OnOpen makes, \<open>data_handler\<close> the one of GetHandler.\<close>

definition RawChannel_OnOpen :: "handler \<Rightarrow> (raw_channel, unit) st" where
  "RawChannel_OnOpen zero_handler =
     bnd (modify (\<lambda>c. c\<lparr>rc_zero_registered := True\<rparr>)) (\<lambda>_. on_router (RegisterInterest 0 (Some zero_handler)))"

definition RawChannel_GetHandler :: "handler \<Rightarrow> raw_channel \<Rightarrow> handler option" where
  "RawChannel_GetHandler data_handler c = (if rc_callback c then Some data_handler else None)"

definition UnregisterZeroSocketInterest :: "(raw_channel, unit) st" where
  "UnregisterZeroSocketInterest =
     bnd (gets rc_zero_registered) (\<lambda>reg. exec_if reg
       (bnd (on_router (\<lambda>r. Inr (UnregisterInterest 0 r))) (\<lambda>_.
          modify (\<lambda>c. c\<lparr>rc_zero_registered := False\<rparr>))))"

definition RawChannel_destroy :: "(raw_channel, unit) st" where "RawChannel_destroy = UnregisterZeroSocketInterest"

definition SetPendingError :: "string \<Rightarrow> (raw_channel, unit) st" where
  "SetPendingError msg =
     modify (\<lambda>c. if rc_pending_error c = None then c\<lparr>rc_pending_error := Some msg\<rparr> else c)"

definition callback_call :: "channel_call \<Rightarrow> (raw_channel, unit) st" where
  "callback_call call = modify (\<lambda>c. c\<lparr>rc_calls := rc_calls c @ [call]\<rparr>)"

section \<open>Packets from the read thread\<close>

definition HandleReceivedZeroPacket :: "bytes \<Rightarrow> (raw_channel, unit) st" where
  "HandleReceivedZeroPacket bs =
     bnd (lift (CheckSize bs SB_PACKET_HEADER_SIZE)) (\<lambda>_.
     bnd (exec_if (get16 bs 0 \<noteq> 0)
           (bnd UnregisterZeroSocketInterest (\<lambda>_. SetPendingError ''RawChannel: Got packet not for socket-zero''))) (\<lambda>_.
     bnd UnregisterZeroSocketInterest (\<lambda>_.
     bnd (gets rc_callback) (\<lambda>callback.
       if byte_at bs off_command \<in> {SB_COMMAND_CLOSE_SOCKET, SB_COMMAND_REMOTE_CLOSE_SOCKET}
       then exec_if callback (callback_call ChannelClose)
       else if callback then callback_call (ChannelError ''RawChannel: Got unexpected socket zero packet'')
       else SetPendingError ''RawChannel: Got unexpected socket zero packet''))))"

text \<open>The sizes are compared as they are in the packet, without a byte swap.\<close>

definition ValidateDataPacket :: "bytes \<Rightarrow> unit res" where
  "ValidateDataPacket bs =
     rbind (CheckSize bs SB_CHANNELPACKET_HEADER_SIZE) (\<lambda>_.
       if unat (get16 bs off_channel_size) \<noteq> length bs
       then Inl (LogicError (''RawChannel: Data size doesn'' @ [CHR 0x27] @ ''t match packet size'')) else Inr ())"

definition HandleReceivedData :: "bytes \<Rightarrow> (raw_channel, unit) st" where
  "HandleReceivedData bs =
     bnd (lift (ValidateDataPacket bs)) (\<lambda>_.
     bnd (gets rc_callback) (\<lambda>callback.
       if callback then callback_call (ChannelData (drop off_channel_data bs))
       else SetPendingError ''RawChannel: Received data to handle when in non-callback mode''))"

definition HandleError :: "string \<Rightarrow> (raw_channel, unit) st" where
  "HandleError what =
     bnd (gets rc_callback) (\<lambda>callback.
       if callback then callback_call (ChannelError (''RawChannel: Socket error received, what: '' @ what))
       else SetPendingError (''RawChannel: Socket error received, what: '' @ what))"

section \<open>Sending and receiving\<close>

definition throw_pending :: "(raw_channel, unit) st" where
  "throw_pending = bnd (gets rc_pending_error) (\<lambda>e. case e of None \<Rightarrow> ret () | Some msg \<Rightarrow> throw (BarryError msg))"

definition Channel_Send :: "handlers \<Rightarrow> bytes \<Rightarrow> (raw_channel, unit) st" where
  "Channel_Send h bs =
     (let packetSize = SB_CHANNELPACKET_HEADER_SIZE + length bs
      in if packetSize > SB_CHANNELPACKET_HEADER_SIZE + SB_CHANNELPACKET_MAX_DATA_SIZE
         then throw (BarryError ''RawChannel: send data size larger than MaximumPacketSize'')
         else
           bnd throw_pending (\<lambda>_.
           bnd (modify (\<lambda>c. c\<lparr>rc_send_buffer :=
                  poke off_channel_data bs (poke off_channel_size (le16 (word_of_nat packetSize)) (rc_send_buffer c))\<rparr>)) (\<lambda>_.
           bnd (gets rc_send_buffer) (\<lambda>buffer.
           bnd (on_rc (Socket_SyncSend h (take packetSize buffer))) (\<lambda>_. throw_pending)))))"

text \<open>The payload is copied into the caller's buffer as large as that happens to be.\<close>

definition store_payload :: "bytes \<Rightarrow> data \<Rightarrow> data res" where
  "store_payload bs d =
     (let len = unat (get16 bs off_channel_size) - SB_CHANNELPACKET_HEADER_SIZE
      in rbind (GetBuffer d 0) (\<lambda>d1.
         rbind (write_at d1 (0, take len (drop off_channel_data bs))) (\<lambda>d2. ReleaseBuffer d2 (int len))))"

definition Channel_Receive :: "handlers \<Rightarrow> data \<Rightarrow> (raw_channel, data) st" where
  "Channel_Receive h d =
     bnd (gets rc_callback) (\<lambda>callback.
       if callback then throw (LogicError ''RawChannel: Receive called when channel was created with a callback'')
       else
         bnd throw_pending (\<lambda>_.
         bnd (on_rc (Socket_Receive h)) (\<lambda>bs.
         bnd (lift (ValidateDataPacket bs)) (\<lambda>_. lift (store_payload bs d)))))"

definition MaximumSendSize :: nat where "MaximumSendSize = SB_CHANNELPACKET_MAX_DATA_SIZE"

section \<open>Properties\<close>

definition channel_packet :: "bytes \<Rightarrow> bytes \<Rightarrow> bytes" where
  "channel_packet s bs = s @ le16 (word_of_nat (4 + length bs)) @ bs"

definition channel_ok :: "raw_channel \<Rightarrow> bool" where
  "channel_ok c \<longleftrightarrow> length (rc_send_buffer c) = 0x4000 \<and> rc_pending_error c = None"

lemma packet_valid:
  assumes "length s = 2" "length bs \<le> MaximumSendSize"
  shows "ValidateDataPacket (channel_packet s bs) = Inr ()" "drop 4 (channel_packet s bs) = bs"
    "unat (get16 (channel_packet s bs) 2) = 4 + length bs"
proof -
  show n: "unat (get16 (channel_packet s bs) 2) = 4 + length bs"
    using assms unat_ucast_u16[of "4 + length bs"] by (simp add: channel_packet_def MaximumSendSize_def layout_simps)
  have l: "length (channel_packet s bs) = 4 + length bs" using assms(1) by (simp add: channel_packet_def)
  have "CheckSize (channel_packet s bs) 4 = Inr ()" using n l by (simp add: CheckSize_ok_iff packet_size_field_def layout_simps)
  then show "ValidateDataPacket (channel_packet s bs) = Inr ()" using n l by (simp add: ValidateDataPacket_def layout_simps)
  show "drop 4 (channel_packet s bs) = bs" using assms(1) by (simp add: channel_packet_def le16_def)
qed

lemma send_packet:
  assumes "length (rc_send_buffer c) = 0x4000" "length bs \<le> MaximumSendSize"
  shows "take (4 + length bs) (poke 4 bs (poke 2 (le16 (word_of_nat (4 + length bs))) (rc_send_buffer c)))
      = channel_packet (take 2 (rc_send_buffer c)) bs"
  using assms by (simp add: poke_def channel_packet_def MaximumSendSize_def layout_simps min_def)

text \<open>The socket fills in its number, but only in packets of at least five bytes.\<close>

lemma channel_wire:
  assumes "length s = 2" "bs \<noteq> []"
  shows "on_wire k (channel_packet s bs) = on_wire k (channel_packet [0, 0] bs)"
proof -
  obtain a b where "s = [a, b]" using assms(1) by (cases s; cases "tl s") auto
  then show ?thesis using assms(2) by (cases bs) (simp_all add: on_wire_def channel_packet_def le16_def overwrite.simps)
qed

lemma channel_wire_empty: "on_wire k (channel_packet s []) = [channel_packet s []]" if "length s = 2"
  using that by (simp add: on_wire_def channel_packet_def)

lemma store_payload_eq:
  assumes "length s = 2" "length bs \<le> MaximumSendSize" "data_ok d" "GetBuffer d 0 = Inr d1"
  shows "length bs \<le> GetBufSize d1 \<Longrightarrow> \<exists>d'. store_payload (channel_packet s bs) d = Inr d' \<and> contents d' = bs"
    "GetBufSize d1 < length bs \<Longrightarrow> store_payload (channel_packet s bs) d = Inl (UB ''write past the end of the buffer'')"
proof -
  note e = GetBuffer_eqs[OF assms(4,3)]
  have b: "GetBufSize d1 = length (mem d1) - dstart d1" "dstart d1 \<le> length (mem d1)"
    using e(1,3) by (simp_all add: GetBufSize_def data_ok_def)
  have p: "store_payload (channel_packet s bs) d = rbind (write_at d1 (0, bs)) (\<lambda>d2. ReleaseBuffer d2 (int (length bs)))"
    using packet_valid[OF assms(1,2)] assms(4) by (simp add: store_payload_def layout_simps Let_def)
  show "store_payload (channel_packet s bs) d = Inl (UB ''write past the end of the buffer'')" if "GetBufSize d1 < length bs"
    using that b p by (auto simp: write_at_def)
  show "\<exists>d'. store_payload (channel_packet s bs) d = Inr d' \<and> contents d' = bs" if "length bs \<le> GetBufSize d1"
  proof -
    let ?d2 = "d1\<lparr>mem := poke (dstart d1) bs (mem d1)\<rparr>"
    have "write_at d1 (0, bs) = Inr ?d2" using that b by (simp add: write_at_def)
    moreover have "ReleaseBuffer ?d2 (int (length bs)) = Inr (?d2\<lparr>dsize := length bs\<rparr>)"
      using that b e(3) by (simp add: ReleaseBuffer_def GetBufSize_def length_poke)
    moreover have "take (length bs) (drop (dstart d1) (poke (dstart d1) bs (mem d1))) = bs"
      using that b by (simp add: poke_def)
    ultimately show ?thesis using p e(3) by (simp add: contents_def)
  qed
qed

text \<open>
  C10: A raw channel carries any bytes up to its maximum unchanged. Send writes them behind a
  header with the exact size; a channel of the other side that gets this packet delivers
  the same bytes, to its callback or, without one, into the buffer given to Receive, if
  they fit into what this buffer happens to have allocated, and beyond its end otherwise.
\<close>

theorem Channel_transfer:
  assumes "length (rc_send_buffer c) = 0x4000" "rc_pending_error c = None" "length bs \<le> MaximumSendSize"
    and "can_write (rc_conn c)" "sock_offers (rc_conn c) (q # rest)" "IsSequencePacket q"
    and "length s = 2" "rc_pending_error e = None" "sock_offers (rc_conn e) (channel_packet s bs # rest')"
    and "data_ok d" "GetBuffer d 0 = Inr d1"
  shows "\<exists>c' e' d'. Channel_Send h bs c = (Inr (), c')
    \<and> sent (zr (rc_conn c')) = sent (zr (rc_conn c)) @ on_wire (m_socket (sk (rc_conn c))) (channel_packet (take 2 (rc_send_buffer c)) bs)
    \<and> (if rc_callback e
       then HandleReceivedData (channel_packet s bs) e = (Inr (), e\<lparr>rc_calls := rc_calls e @ [ChannelData bs]\<rparr>)
       else if length bs \<le> GetBufSize d1 then Channel_Receive h' d e = (Inr d', e') \<and> contents d' = bs
       else fst (Channel_Receive h' d e) = Inl (UB ''write past the end of the buffer''))"
proof -
  let ?buffer = "poke 4 bs (poke 2 (le16 (word_of_nat (4 + length bs))) (rc_send_buffer c))"
  note v = packet_valid[OF assms(7,3)]
  obtain k where k: "Socket_SyncSend h (channel_packet (take 2 (rc_send_buffer c)) bs) (rc_conn c) = (Inr (), k)"
      "sent (zr k) = sent (zr (rc_conn c)) @ on_wire (m_socket (sk (rc_conn c))) (channel_packet (take 2 (rc_send_buffer c)) bs)"
    using Socket_SyncSend_ok[OF assms(4-6)] by blast
  have "Channel_Send h bs c = (Inr (), c\<lparr>rc_send_buffer := ?buffer, rc_conn := k\<rparr>)"
    using assms(2,3) k(1) send_packet[OF assms(1,3)]
    by (simp add: Channel_Send_def Let_def MaximumSendSize_def layout_simps throw_pending_def zoom_def)
  moreover have "HandleReceivedData (channel_packet s bs) e = (Inr (), e\<lparr>rc_calls := rc_calls e @ [ChannelData bs]\<rparr>)" if "rc_callback e"
    using that v by (simp add: HandleReceivedData_def callback_call_def layout_simps bnd_lift)
  moreover obtain k' where "Socket_Receive h' (rc_conn e) = (Inr (channel_packet s bs), k')"
    using Socket_Receive_offered[OF assms(9)] by blast
  then have "Channel_Receive h' d e = (store_payload (channel_packet s bs) d, e\<lparr>rc_conn := k'\<rparr>)" if "\<not> rc_callback e"
    using that v(1) assms(8) by (simp add: Channel_Receive_def throw_pending_def zoom_def bnd_lift lift_def)
  ultimately show ?thesis
    using store_payload_eq[OF assms(7,3,10,11)] k(2) by (cases "rc_callback e"; cases "length bs \<le> GetBufSize d1") fastforce+
qed

definition sample_channel :: "bool \<Rightarrow> bytes list \<Rightarrow> raw_channel" where
  "sample_channel callback xs = \<lparr>rc_conn = sample_conn xs, rc_callback = callback, rc_send_buffer = replicate 0x4000 0,
     rc_zero_registered = False, rc_pending_error = None, rc_calls = []\<rparr>"

lemma Channel_transfer_witness:
  "\<exists>c' e' d'. Channel_Send (\<lambda>_ bs. Inr bs) [1, 2, 3] (sample_channel False [ack]) = (Inr (), c')
    \<and> Channel_Receive (\<lambda>_ bs. Inr bs) Data_default (sample_channel False [channel_packet [6, 0] [1, 2, 3]]) = (Inr d', e')
    \<and> contents d' = [1, 2, 3]"
proof -
  have a: "IsSequencePacket ack" by (simp add: ack_def IsSequencePacket_def layout_simps get16_def)
  have o: "can_write (rc_conn (sample_channel False xs))" "sock_offers (rc_conn (sample_channel False xs)) xs" for xs
    using sample_conn_offers by (simp_all add: sample_channel_def)
  have d: "data_ok Data_default" "GetBuffer Data_default 0 = Inr Data_default" "[1, 2, 3] \<noteq> ([] :: bytes)"
    by (simp_all add: Data_default_def Data_new_def data_ok_def GetBuffer_def MakeSpace_def AvailablePrependSpace_def GetBufSize_def
        BARRY_DATA_DEFAULT_SIZE_def BARRY_DATA_DEFAULT_PREPEND_SIZE_def)
  have l: "length [1, 2, 3 :: byte] \<le> MaximumSendSize" "length [1, 2, 3 :: byte] \<le> GetBufSize Data_default"
    by (simp_all add: MaximumSendSize_def layout_simps Data_default_def Data_new_def GetBufSize_def BARRY_DATA_DEFAULT_SIZE_def
        BARRY_DATA_DEFAULT_PREPEND_SIZE_def)
  have r: "length (rc_send_buffer (sample_channel False xs)) = 0x4000" "rc_pending_error (sample_channel False xs) = None"
    "\<not> rc_callback (sample_channel False xs)" for xs by (simp_all add: sample_channel_def)
  show ?thesis
    using Channel_transfer[OF r(1,2) l(1) o(1) o(2) a _ r(2) o(2) d(1,2), where s = "[6, 0]" and h = "\<lambda>_ bs. Inr bs"
        and h' = "\<lambda>_ bs. Inr bs" and rest = "[]" and rest' = "[]"] l(2) r(3)
    by fastforce
qed

text \<open>
  A pending error is final: no packet, no error and no call replaces it, and Send and Receive
  throw it without touching the connection.
\<close>

inductive channel_step :: "handlers \<Rightarrow> raw_channel \<Rightarrow> raw_channel \<Rightarrow> bool" for h where
  zero_packet: "channel_step h c (snd (HandleReceivedZeroPacket bs c))"
| data_packet: "channel_step h c (snd (HandleReceivedData bs c))"
| error_report: "channel_step h c (snd (HandleError what c))"
| send: "channel_step h c (snd (Channel_Send h bs c))"
| receive: "channel_step h c (snd (Channel_Receive h d c))"
| destroy: "channel_step h c (snd (RawChannel_destroy c))"

abbreviation pending :: "string \<Rightarrow> raw_channel \<Rightarrow> bool" where "pending msg c \<equiv> rc_pending_error c = Some msg"

lemma keeps_pending:
  "keeps (pending msg) (SetPendingError msg')" "keeps (pending msg) (callback_call call)" "keeps (pending msg) (on_rc m)"
  "keeps (pending msg) (on_router f)" "keeps (pending msg) UnregisterZeroSocketInterest" "keeps (pending msg) throw_pending"
proof -
  show r: "keeps (pending msg) (on_router f)" for f
    by (auto simp: on_router_def intro!: keeps_bnd keeps_modify split: option.splits)
  show "keeps (pending msg) UnregisterZeroSocketInterest"
    unfolding UnregisterZeroSocketInterest_def by (intro keeps_bnd keeps_basic keeps_exec_if r keeps_modify) simp
qed (auto simp: keeps_def SetPendingError_def callback_call_def zoom_def throw_pending_def split: prod.splits option.splits)

lemma keeps_pending_handlers:
  "keeps (pending msg) (HandleReceivedZeroPacket bs)" "keeps (pending msg) (HandleReceivedData bs)" "keeps (pending msg) (HandleError what)"
  "keeps (pending msg) (Channel_Send h bs)" "keeps (pending msg) (Channel_Receive h d)" "keeps (pending msg) RawChannel_destroy"
  unfolding HandleReceivedZeroPacket_def HandleReceivedData_def HandleError_def Channel_Send_def Channel_Receive_def Let_def RawChannel_destroy_def
  by (auto intro!: keeps_bnd keeps_pending)

theorem pending_error_final:
  assumes "(channel_step h)\<^sup>*\<^sup>* c c'" "rc_pending_error c = Some msg"
  shows "rc_pending_error c' = Some msg"
    and "length bs \<le> MaximumSendSize \<Longrightarrow> Channel_Send h bs c' = (Inl (BarryError msg), c')"
    and "\<not> rc_callback c' \<Longrightarrow> Channel_Receive h d c' = (Inl (BarryError msg), c')"
proof -
  show "rc_pending_error c' = Some msg"
    using assms
  proof (induction rule: rtranclp_induct)
    case (step y z)
    from step(2) show ?case
      using step(3)[OF step(4)] keeps_pending_handlers by cases (auto simp: keeps_def)
  qed
  then show "length bs \<le> MaximumSendSize \<Longrightarrow> Channel_Send h bs c' = (Inl (BarryError msg), c')"
    "\<not> rc_callback c' \<Longrightarrow> Channel_Receive h d c' = (Inl (BarryError msg), c')"
    by (auto simp: Channel_Send_def Channel_Receive_def throw_pending_def Let_def MaximumSendSize_def layout_simps)
qed

text \<open>Any packet on socket 0 ends the interest in socket 0.\<close>

theorem zero_packet_unregisters:
  assumes "CheckSize bs SB_PACKET_HEADER_SIZE = Inr ()" "rc_zero_registered c" "z_queue (zr (rc_conn c)) = Some r"
  shows "\<exists>c'. HandleReceivedZeroPacket bs c = (Inr (), c') \<and> \<not> rc_zero_registered c'
    \<and> z_queue (zr (rc_conn c')) = Some (UnregisterInterest 0 r)"
  using assms
  by (auto simp: HandleReceivedZeroPacket_def UnregisterZeroSocketInterest_def on_router_def exec_if_def bnd_lift
      SetPendingError_def callback_call_def lift_def)

end
