(* ===== verification/Serial_Mode.thy ===== *)
theory Serial_Mode imports Controller Ppp_Filter begin

text \<open>
  The serial mode (src/src/m_serial.cc, src/src/m_serial.h): a data and a control socket on
  one connection. Open selects both modes, opens both sockets, registers its handlers and
  starts the data flow; Write filters PPP frames and sends them behind a packet header;
  packets of the data socket go to the program's callback. The control socket's handler
  only prints. What a callback does is foreign code: its calls are logged.
\<close>

record serial_mode =
  sr_zero :: zero
  sr_data :: "sock option"
  sr_ctrl :: "sock option"
  sr_ModeSocket :: u16
  sr_CtrlSocket :: u16
  sr_filter :: ppp_filter
  sr_callback :: bool
  sr_calls :: "bytes list"

definition Serial_new :: "bool \<Rightarrow> zero \<Rightarrow> serial_mode res" where
  "Serial_new callback con =
     (if z_queue con = None
      then Inl (LogicError ''A SocketRoutingQueue is required in the Controller class when using Mode::Serial.'')
      else Inr \<lparr>sr_zero = con, sr_data = None, sr_ctrl = None, sr_ModeSocket = 0, sr_CtrlSocket = 0,
        sr_filter = PppFilter_new, sr_callback = callback, sr_calls = []\<rparr>)"

text \<open>Calls on the two socket objects; both use the connection.\<close>

definition on_data :: "(conn, 'a) st \<Rightarrow> (serial_mode, 'a) st" where
  "on_data m c =
     (case sr_data c of
        None \<Rightarrow> (Inl (UB ''null socket pointer''), c)
      | Some s \<Rightarrow> (case m \<lparr>sk = s, zr = sr_zero c\<rparr> of (r, k) \<Rightarrow> (r, c\<lparr>sr_data := Some (sk k), sr_zero := zr k\<rparr>)))"

definition on_ctrl :: "(conn, 'a) st \<Rightarrow> (serial_mode, 'a) st" where
  "on_ctrl m c =
     (case sr_ctrl c of
        None \<Rightarrow> (Inl (UB ''null socket pointer''), c)
      | Some s \<Rightarrow> (case m \<lparr>sk = s, zr = sr_zero c\<rparr> of (r, k) \<Rightarrow> (r, c\<lparr>sr_ctrl := Some (sk k), sr_zero := zr k\<rparr>)))"

definition start_block :: bytes where "start_block = [0, 0, 0x0a, 0, 0x01, 0x01, 0xc2, 0x00, 0x40, 0x00]"

definition Serial_Open :: "handlers \<Rightarrow> (bytes \<Rightarrow> bytes) \<Rightarrow> handler \<Rightarrow> handler \<Rightarrow> bytes option \<Rightarrow> (serial_mode, unit) st" where
  "Serial_Open h sha1 data_callback ctrl_callback password =
     bnd (gets sr_ModeSocket) (\<lambda>old.
     bnd (exec_if (old \<noteq> 0)
           (bnd (on_data (LocalClose h)) (\<lambda>_.
            bnd (on_data (Socket_destroy h)) (\<lambda>_. modify (\<lambda>c. c\<lparr>sr_data := None, sr_ModeSocket := 0\<rparr>))))) (\<lambda>_.
     bnd (gets sr_CtrlSocket) (\<lambda>old_ctrl.
     bnd (exec_if (old_ctrl \<noteq> 0)
           (bnd (on_ctrl (LocalClose h)) (\<lambda>_.
            bnd (on_ctrl (Socket_destroy h)) (\<lambda>_. modify (\<lambda>c. c\<lparr>sr_ctrl := None, sr_CtrlSocket := 0\<rparr>))))) (\<lambda>_.
     bnd (zoom sr_zero sr_zero_update (SelectMode h UsbSerData None)) (\<lambda>s.
     bnd (modify (\<lambda>c. c\<lparr>sr_ModeSocket := s\<rparr>)) (\<lambda>_.
     bnd (zoom sr_zero sr_zero_update (OpenSocket h sha1 None s password)) (\<lambda>k.
     bnd (modify (\<lambda>c. c\<lparr>sr_data := Some k\<rparr>)) (\<lambda>_.
     bnd (zoom sr_zero sr_zero_update (SelectMode h UsbSerCtrl None)) (\<lambda>s.
     bnd (modify (\<lambda>c. c\<lparr>sr_CtrlSocket := s\<rparr>)) (\<lambda>_.
     bnd (zoom sr_zero sr_zero_update (OpenSocket h sha1 None s password)) (\<lambda>k.
     bnd (modify (\<lambda>c. c\<lparr>sr_ctrl := Some k\<rparr>)) (\<lambda>_.
     bnd (on_data LocalUnregisterInterest) (\<lambda>_.
     bnd (on_data (Socket_RegisterInterest (Some data_callback))) (\<lambda>_.
     bnd (on_ctrl LocalUnregisterInterest) (\<lambda>_.
     bnd (on_ctrl (Socket_RegisterInterest (Some ctrl_callback))) (\<lambda>_.
       on_ctrl (Socket_RawSend start_block)))))))))))))))))"

definition DataCallback :: "bytes \<Rightarrow> (serial_mode, unit) st" where
  "DataCallback bs =
     (if length bs \<le> 4 then ret ()
      else bnd (gets sr_callback) (\<lambda>callback. exec_if callback (modify (\<lambda>c. c\<lparr>sr_calls := sr_calls c @ [drop 4 bs]\<rparr>))))"

text \<open>The filtered data lies behind four bytes, of which the size is filled in here.\<close>

definition store_size :: "data \<Rightarrow> data res" where
  "store_size d = rbind (GetBuffer d 0) (\<lambda>d1. write_at d1 (off_size, le16 (word_of_nat (dsize d1))))"

definition Serial_Write :: "bytes \<Rightarrow> (serial_mode, unit) st" where
  "Serial_Write bs =
     (if bs = [] then ret ()
      else
        bnd (gets sr_data) (\<lambda>sock.
          if sock = None then throw (LogicError ''Must call Open() before Write() in Mode::Serial'')
          else
            bnd (gets sr_filter) (\<lambda>f.
            bnd (lift (Write_prepend f bs 4)) (\<lambda>f1.
            bnd (lift (store_size (m_writeBuf f1))) (\<lambda>buf.
            bnd (modify (\<lambda>c. c\<lparr>sr_filter := f1\<lparr>m_writeBuf := buf\<rparr>\<rparr>)) (\<lambda>_.
              on_data (Socket_RawSend (contents buf))))))))"

section \<open>The stream the device sees\<close>

definition serial_packet :: "bytes \<Rightarrow> bytes \<Rightarrow> bytes" where
  "serial_packet s out = s @ le16 (word_of_nat (4 + length out)) @ out"

lemma store_size_ok:
  assumes "data_ok d" "4 \<le> length (contents d)"
  shows "\<exists>d'. store_size d = Inr d' \<and> data_ok d' \<and> contents d' = serial_packet (take 2 (contents d)) (drop 4 (contents d))"
proof -
  obtain d1 where g: "GetBuffer d 0 = Inr d1" using GetBuffer_total by blast
  note e = GetBuffer_eqs[OF g assms(1)]
  have n: "length (contents d) = dsize d" by (rule length_contents[OF assms(1)])
  let ?w = "le16 (word_of_nat (dsize d))"
  have w: "write_at d1 (2, ?w) = Inr (d1\<lparr>mem := poke (dstart d1 + 2) ?w (mem d1)\<rparr>)"
    using e(4) assms(2) n by (simp add: write_at_def)
  have c: "contents d = take (dsize d) (drop (dstart d1) (mem d1))" using e(2,3,5) by (simp add: contents_def)
  have "drop (dstart d1) (poke (dstart d1 + 2) ?w (mem d1)) = poke 2 ?w (drop (dstart d1) (mem d1))"
    using e(4) by (intro drop_poke_shift) simp
  moreover have "take (dsize d) (poke 2 ?w (drop (dstart d1) (mem d1))) = poke 2 ?w (take (dsize d) (drop (dstart d1) (mem d1)))"
    using e(4) assms(2) n by (intro take_poke) simp_all
  ultimately have "contents (d1\<lparr>mem := poke (dstart d1 + 2) ?w (mem d1)\<rparr>) = poke 2 ?w (contents d)"
    using e(3,5) c by (simp add: contents_def)
  moreover have "poke 2 ?w (contents d) = serial_packet (take 2 (contents d)) (drop 4 (contents d))"
    using assms(2) n by (simp add: poke_def serial_packet_def)
  moreover have "data_ok (d1\<lparr>mem := poke (dstart d1 + 2) ?w (mem d1)\<rparr>)"
    using e(1,3,4) assms(2) n by (simp add: data_ok_def length_poke)
  ultimately show ?thesis using g w e(5) by (simp add: store_size_def layout_simps)
qed

definition serial_ok :: "sock \<Rightarrow> serial_mode \<Rightarrow> bool" where
  "serial_ok s c \<longleftrightarrow> sr_data c = Some s \<and> ppp_ok (sr_filter c) \<and> zero_has_device (sr_zero c) \<and> write_faults (sr_zero c) = []"

abbreviation serial_filter :: "serial_mode \<Rightarrow> bytes \<Rightarrow> bytes \<times> bool" where
  "serial_filter c \<equiv> frame_filter (inside_frame (sr_filter c))"

definition serial_wire :: "sock \<Rightarrow> bytes \<Rightarrow> bytes list" where
  "serial_wire s out = on_wire (m_socket s) (serial_packet [0, 0] out)"

lemma frame_filter_nonempty: "src \<noteq> [] \<Longrightarrow> fst (frame_filter i src) \<noteq> []"
  by (cases src) (auto split: prod.splits)

lemma serial_wire_eq:
  assumes "length a = 2" "out \<noteq> []"
  shows "on_wire (m_socket s) (serial_packet a out) = serial_wire s out"
proof -
  obtain x y where "a = [x, y]" using assms(1) by (cases a; cases "tl a") auto
  then show ?thesis using assms(2) by (cases out) (simp_all add: serial_wire_def on_wire_def serial_packet_def le16_def overwrite.simps)
qed

lemma Serial_Write_sends:
  assumes "serial_ok s c" "bs \<noteq> []" "m_ppp_mode (sr_filter c) \<or> hd bs = 0x7e"
  shows "\<exists>c'. Serial_Write bs c = (Inr (), c') \<and> serial_ok s c' \<and> m_ppp_mode (sr_filter c')
    \<and> inside_frame (sr_filter c') = snd (serial_filter c bs)
    \<and> sent (sr_zero c') = sent (sr_zero c) @ serial_wire s (fst (serial_filter c bs))"
proof -
  define f where "f = sr_filter c"
  define out where "out = fst (frame_filter (inside_frame f) bs)"
  have ok: "ppp_ok f" "sr_data c = Some s" using assms(1) by (simp_all add: f_def serial_ok_def)
  have W: "\<exists>g. Write f bs = Inr (out, g) \<and> m_ppp_mode g \<and> inside_frame g = snd (frame_filter (inside_frame f) bs)"
  proof (cases "m_ppp_mode f")
    case True
    then show ?thesis using Write_ppp[OF ok(1), of bs] by (auto simp: out_def)
  next
    case False
    then have "hd bs = 0x7e" using assms(3) by (simp add: f_def)
    then have "Write f bs = Write (f\<lparr>m_ppp_mode := True\<rparr>) bs" using assms(2) False by (cases bs) (simp_all add: Write_def Let_def)
    then show ?thesis using Write_ppp[of "f\<lparr>m_ppp_mode := True\<rparr>" bs] ok(1) by (auto simp: out_def ppp_ok_def inside_frame_def)
  qed
  obtain f1 where f1: "Write_prepend f bs 4 = Inr f1" "length (contents (m_writeBuf f1)) = 4 + length out"
      "drop 4 (contents (m_writeBuf f1)) = out" "m_ppp_mode f1" "inside_frame f1 = snd (frame_filter (inside_frame f) bs)" "ppp_ok f1"
    using Write_prepend_Write[OF ok(1), of bs 4] W by auto
  let ?p = "serial_packet (take 2 (contents (m_writeBuf f1))) out"
  obtain buf where buf: "store_size (m_writeBuf f1) = Inr buf" "data_ok buf" "contents buf = ?p"
    using store_size_ok[of "m_writeBuf f1"] f1(2,3,6) by (auto simp: ppp_ok_def)
  have "out \<noteq> []" using frame_filter_nonempty[OF assms(2)] by (simp add: out_def)
  then have w: "on_wire (m_socket s) ?p = serial_wire s out" using f1(2) by (intro serial_wire_eq) simp_all
  let ?c = "c\<lparr>sr_filter := f1\<lparr>m_writeBuf := buf\<rparr>\<rparr>"
  let ?z = "(sr_zero c)\<lparr>sent := sent (sr_zero c) @ serial_wire s out\<rparr>"
  have "on_data (Socket_RawSend ?p) ?c = (Inr (), ?c\<lparr>sr_data := Some s, sr_zero := ?z\<rparr>)"
    using Socket_RawSend_ok[of "\<lparr>sk = s, zr = sr_zero c\<rparr>" ?p] assms(1) w
    by (simp add: on_data_def serial_ok_def can_write_def)
  then have "Serial_Write bs c = (Inr (), ?c\<lparr>sr_data := Some s, sr_zero := ?z\<rparr>)"
    using assms(2) ok(2) f1(1) buf(1,3) by (simp add: Serial_Write_def flip: f_def)
  moreover have "zero_has_device ?z" "ppp_ok (f1\<lparr>m_writeBuf := buf\<rparr>)"
    using assms(1) buf(2) by (simp_all add: serial_ok_def zero_has_device_def ppp_ok_def cong: option.case_cong)
  ultimately show ?thesis
    using assms(1) f1(4,5) by (simp add: serial_ok_def inside_frame_def f_def out_def)
qed

text \<open>A sequence of writes, and a sequence of packets given to the data callback.\<close>

primrec serial_writes :: "bytes list \<Rightarrow> (serial_mode, unit) st" where
  "serial_writes [] = ret ()"
| "serial_writes (bs # bss) = bnd (Serial_Write bs) (\<lambda>_. serial_writes bss)"

primrec serial_receives :: "bytes list \<Rightarrow> (serial_mode, unit) st" where
  "serial_receives [] = ret ()"
| "serial_receives (bs # bss) = bnd (DataCallback bs) (\<lambda>_. serial_receives bss)"

lemma serial_writes_send:
  assumes "serial_ok s c" "list_all (\<lambda>bs. bs \<noteq> []) cs" "cs \<noteq> [] \<longrightarrow> m_ppp_mode (sr_filter c) \<or> hd (hd cs) = 0x7e"
  shows "\<exists>c' outs. serial_writes cs c = (Inr (), c') \<and> length outs = length cs \<and> list_all (\<lambda>bs. bs \<noteq> []) outs
    \<and> concat outs = fst (serial_filter c (concat cs)) \<and> sent (sr_zero c') = sent (sr_zero c) @ concat (map (serial_wire s) outs)"
  using assms
proof (induction cs arbitrary: c)
  case (Cons bs cs)
  obtain c1 where c1: "Serial_Write bs c = (Inr (), c1)" "serial_ok s c1" "m_ppp_mode (sr_filter c1)"
      "inside_frame (sr_filter c1) = snd (serial_filter c bs)" "sent (sr_zero c1) = sent (sr_zero c) @ serial_wire s (fst (serial_filter c bs))"
    using Serial_Write_sends[OF Cons.prems(1), of bs] Cons.prems(2,3) by auto
  obtain c' outs where o: "serial_writes cs c1 = (Inr (), c')" "length outs = length cs" "list_all (\<lambda>bs. bs \<noteq> []) outs"
      "concat outs = fst (serial_filter c1 (concat cs))" "sent (sr_zero c') = sent (sr_zero c1) @ concat (map (serial_wire s) outs)"
    using Cons.IH[OF c1(2)] Cons.prems(2) c1(3) by auto
  show ?case
    using c1 o Cons.prems(2) frame_filter_nonempty[of bs]
    by (intro exI[of _ c'] exI[of _ "fst (serial_filter c bs) # outs"])
      (simp add: framing.step_append[of "inside_frame (sr_filter c)" bs "concat cs"])
qed (simp)

lemma serial_receives_deliver:
  assumes "sr_callback d" "list_all (\<lambda>bs. bs \<noteq> []) outs"
  shows "serial_receives (map (serial_packet [0, 0]) outs) d = (Inr (), d\<lparr>sr_calls := sr_calls d @ outs\<rparr>)"
  using assms
proof (induction outs arbitrary: d)
  case (Cons out outs)
  have "DataCallback (serial_packet [0, 0] out) d = (Inr (), d\<lparr>sr_calls := sr_calls d @ [out]\<rparr>)"
    using Cons.prems by (cases out) (simp_all add: DataCallback_def serial_packet_def le16_def)
  then show ?case using Cons by simp
qed simp

text \<open>
  C9: A PPP stream goes through the serial mode unharmed: however it is cut into writes, each
  write becomes one packet for the data socket, and the payloads of these packets together
  are the stream, with a flag added wherever a frame lacks one of its own; no other byte is
  added, lost or reordered, and packets like these, coming in, give the program these payloads.
\<close>

theorem Serial_stream:
  assumes "serial_ok s c" "sr_filter c = PppFilter_new" "cs = (0x7e # b) # cs'" "list_all (\<lambda>bs. bs \<noteq> []) cs" "sr_callback d"
  shows "\<exists>c' outs. serial_writes cs c = (Inr (), c') \<and> length outs = length cs
    \<and> sent (sr_zero c') = sent (sr_zero c) @ concat (map (serial_wire s) outs)
    \<and> well_framed False (concat outs) \<and> filter (\<lambda>x. x \<noteq> 0x7e) (concat outs) = filter (\<lambda>x. x \<noteq> 0x7e) (concat cs)
    \<and> (well_framed False (concat cs) \<longrightarrow> concat outs = concat cs)
    \<and> serial_receives (map (serial_packet [0, 0]) outs) d = (Inr (), d\<lparr>sr_calls := sr_calls d @ outs\<rparr>)"
proof -
  have f: "\<not> inside_frame (sr_filter c)" using assms(2) by (simp add: PppFilter_new_def inside_frame_def)
  have "cs \<noteq> [] \<longrightarrow> m_ppp_mode (sr_filter c) \<or> hd (hd cs) = 0x7e" using assms(3) by simp
  from serial_writes_send[OF assms(1,4) this] f
  obtain c' outs where o: "serial_writes cs c = (Inr (), c')" "length outs = length cs" "list_all (\<lambda>bs. bs \<noteq> []) outs"
      "concat outs = fst (frame_filter False (concat cs))" "sent (sr_zero c') = sent (sr_zero c) @ concat (map (serial_wire s) outs)"
    by auto
  have "well_framed False (concat outs)" "filter (\<lambda>x. x \<noteq> 0x7e) (concat outs) = filter (\<lambda>x. x \<noteq> 0x7e) (concat cs)"
    "well_framed False (concat cs) \<longrightarrow> concat outs = concat cs"
    unfolding o(4) by (rule frame_filter_framed, rule frame_filter_payload, rule impI, erule frame_filter_id)
  then show ?thesis using o(1,2,5) serial_receives_deliver[OF assms(5) o(3)] by blast
qed

definition sample_serial :: serial_mode where
  "sample_serial = \<lparr>sr_zero = zr (sample_conn []), sr_data = Some (sk (sample_conn [])), sr_ctrl = None, sr_ModeSocket = 6, sr_CtrlSocket = 0,
     sr_filter = PppFilter_new, sr_callback = True, sr_calls = []\<rparr>"

lemma Serial_stream_witness:
  "\<exists>c' outs. serial_writes [[0x7e, 1], [2, 0x7e], [3, 0x7e]] sample_serial = (Inr (), c') \<and> length outs = 3
    \<and> filter (\<lambda>x. x \<noteq> 0x7e) (concat outs) = [1, 2, 3 :: byte]"
proof -
  have "serial_ok (sk (sample_conn [])) sample_serial"
    using sample_conn_offers(2)[of "[]"] by (simp add: sample_serial_def serial_ok_def can_write_def ppp_ok_def PppFilter_new_def)
  moreover have "sr_filter sample_serial = PppFilter_new" "sr_callback sample_serial" by (simp_all add: sample_serial_def)
  ultimately show ?thesis
    using Serial_stream[of "sk (sample_conn [])" sample_serial "[[0x7e, 1], [2, 0x7e], [3, 0x7e]]" "[1]" "[[2, 0x7e], [3, 0x7e]]" sample_serial]
    by (force simp del: serial_writes.simps)
qed

text \<open>
  After a refused password of the data socket, a second Open calls Close through a null
  pointer: the number of the socket is set before the socket is open.
\<close>

theorem Serial_Open_twice:
  assumes "sr_ModeSocket c \<noteq> 0" "sr_data c = None"
  shows "Serial_Open h sha1 dcb ccb password c = (Inl (UB ''null socket pointer''), c)"
  using assms by (simp add: Serial_Open_def on_data_def bnd_def)

end
