(* ===== verification/Usb_Wrap.thy ===== *)
theory Usb_Wrap imports Router Digits begin

text \<open>
  The USB wrapper over libusb 1.0 (src/src/usbwrap.cc, src/src/usbwrap_libusb_1_0.cc): error
  codes and their texts, the transfer loops, the descriptor tree and the endpoint pairs found
  in it, and the search for devices. What libusb returns is the input: a transfer is its
  return code with the bytes that moved.
\<close>

section \<open>Error codes\<close>

definition LIBUSB_ERROR_BUSY :: int where "LIBUSB_ERROR_BUSY = -6"
definition LIBUSB_ERROR_TIMEOUT :: int where "LIBUSB_ERROR_TIMEOUT = -7"
definition LIBUSB_ERROR_INTERRUPTED :: int where "LIBUSB_ERROR_INTERRUPTED = -10"

definition EPERM :: int where "EPERM = 1"
definition EACCES :: int where "EACCES = 13"
definition EBUSY :: int where "EBUSY = 16"

text \<open>The codes of libusb with the errno values of Linux.\<close>

definition errorCodes :: "(int \<times> int) list" where
  "errorCodes =
     [(0, 0), (-1, -5), (-2, -22), (-3, - EACCES), (-4, -19), (-5, -2), (LIBUSB_ERROR_BUSY, - EBUSY),
      (LIBUSB_ERROR_TIMEOUT, -110), (-8, -75), (-9, -32), (LIBUSB_ERROR_INTERRUPTED, -4), (-11, -12), (-12, -38), (-99, 0)]"

definition TranslateErrcode :: "int \<Rightarrow> int" where
  "TranslateErrcode code = (case map_of errorCodes code of Some system \<Rightarrow> system | None \<Rightarrow> 0)"

definition GetLastErrorString :: "int \<Rightarrow> string" where
  "GetLastErrorString code =
     (case map_of [(0, ''Success''), (-1, ''IO Error''), (-2, ''Invalid parameter''), (-3, ''Access''), (-4, ''No device''),
        (-5, ''Not found''), (LIBUSB_ERROR_BUSY, ''Busy''), (LIBUSB_ERROR_TIMEOUT, ''Timeout''), (-8, ''Overflow''),
        (-9, ''Pipe''), (LIBUSB_ERROR_INTERRUPTED, ''Interrupted''), (-11, ''No memory''), (-12, ''Not supported''), (-99, ''Other'')] code of
        Some t \<Rightarrow> t | None \<Rightarrow> ''Unknown LIBUSB error code'')"

text \<open>An integer as an ostream writes it in decimal.\<close>

definition int_text :: "int \<Rightarrow> bytes" where
  "int_text n = (if n < 0 then 0x2d # num_digits 10 (nat (- n)) else num_digits 10 (nat n))"

definition GetErrorString :: "int \<Rightarrow> bytes \<Rightarrow> bytes" where
  "GetErrorString code msg =
     lit ''('' @ (if code \<noteq> 0 then int_text code @ lit '' ('' @ int_text (TranslateErrcode code) @ lit ''), '' else [])
       @ lit (GetLastErrorString code) @ lit ''): '' @ msg"

text \<open>What \<open>what()\<close> of a Usb::Error shows.\<close>

definition usb_error_what :: "int \<Rightarrow> bytes \<Rightarrow> bytes" where
  "usb_error_what code msg = (if code = 0 then msg else GetErrorString code msg)"

section \<open>Transfers\<close>

datatype usb_fault = Usb_Timeout int | Usb_Error int

text \<open>
  BulkRead: the buffer is emptied before every attempt, so what an interrupted transfer had
  read is gone when it is tried again. The value of a return is its result with the data.
\<close>

fun Device_BulkRead :: "(int \<times> bytes) list \<Rightarrow> (usb_fault + bool \<times> bytes) \<times> (int \<times> bytes) list" where
  "Device_BulkRead [] = (Inl (Usb_Timeout LIBUSB_ERROR_TIMEOUT), [])"
| "Device_BulkRead ((code, bs) # ts) =
     (if code = LIBUSB_ERROR_INTERRUPTED then Device_BulkRead ts
      else if code < 0
      then
        (if code = LIBUSB_ERROR_TIMEOUT
         then if bs = [] then (Inl (Usb_Timeout code), ts) else (Inr (False, bs), ts)
         else (Inl (Usb_Error code), ts))
      else (Inr (True, bs), ts))"

definition Device_InterruptRead :: "(int \<times> bytes) list \<Rightarrow> (usb_fault + bool \<times> bytes) \<times> (int \<times> bytes) list" where
  "Device_InterruptRead = Device_BulkRead"

text \<open>
  BulkWrite: every attempt offers the whole data. The last result is what reached the
  device; a transfer that is not there any more goes through.
\<close>

fun Device_BulkWrite :: "bytes \<Rightarrow> (int \<times> nat) list \<Rightarrow> (usb_fault + bool) \<times> (int \<times> nat) list \<times> bytes" where
  "Device_BulkWrite bs [] = (Inr True, [], bs)"
| "Device_BulkWrite bs ((code, n) # ts) =
     (if code = LIBUSB_ERROR_INTERRUPTED then
        (case Device_BulkWrite bs ts of (r, ts', wire) \<Rightarrow> (r, ts', take n bs @ wire))
      else if code < 0
      then
        (if code = LIBUSB_ERROR_TIMEOUT
         then if n = 0 then (Inl (Usb_Timeout code), ts, []) else (Inr False, ts, take n bs)
         else (Inl (Usb_Error code), ts, take n bs))
      else if n \<noteq> length bs then (Inl (Usb_Error 0), ts, take n bs)
      else (Inr True, ts, bs))"

definition Device_InterruptWrite :: "bytes \<Rightarrow> (int \<times> nat) list \<Rightarrow> (usb_fault + bool) \<times> (int \<times> nat) list \<times> bytes" where
  "Device_InterruptWrite = Device_BulkWrite"

text \<open>What the router and socket models take as the outcome of a read.\<close>

definition read_outcome :: "usb_fault + bool \<times> bytes \<Rightarrow> usb_result" where
  "read_outcome r =
     (case r of
        Inr (True, bs) \<Rightarrow> UsbData bs
      | Inr (False, bs) \<Rightarrow> UsbFalse bs
      | Inl (Usb_Timeout _) \<Rightarrow> UsbTimeoutThrown
      | Inl (Usb_Error _) \<Rightarrow> UsbErrorThrown)"

text \<open>BulkDrain reads until a read does not return true; it swallows every USB error.\<close>

fun Device_BulkDrain :: "nat \<Rightarrow> (int \<times> bytes) list \<Rightarrow> (int \<times> bytes) list option" where
  "Device_BulkDrain 0 ts = None"
| "Device_BulkDrain (Suc k) ts =
     (case Device_BulkRead ts of (Inr (True, _), ts') \<Rightarrow> Device_BulkDrain k ts' | (_, ts') \<Rightarrow> Some ts')"

section \<open>Descriptors\<close>

text \<open>The descriptors of libusb; an interface is the list of its alternate settings.\<close>

record endpoint_desc =
  ed_address :: byte
  ed_attributes :: byte

record iface_desc =
  if_class :: byte
  if_number :: byte
  if_alt :: byte
  if_endpoints :: "endpoint_desc list"

record config_desc =
  cf_value :: byte
  cf_interfaces :: "iface_desc list list"

definition IsRead :: "endpoint_desc \<Rightarrow> bool" where "IsRead d \<longleftrightarrow> ed_address d AND 0x80 = 0x80"
definition ep_address :: "endpoint_desc \<Rightarrow> byte" where "ep_address d = ed_address d AND 0x0f"
definition ep_kind :: "endpoint_desc \<Rightarrow> byte" where "ep_kind d = ed_attributes d AND 0x03"

text \<open>A std::map as a list of pairs with rising keys.\<close>

fun smap_put :: "byte \<Rightarrow> 'a \<Rightarrow> (byte \<times> 'a) list \<Rightarrow> (byte \<times> 'a) list" where
  "smap_put k v [] = [(k, v)]"
| "smap_put k v ((k', v') # m) =
     (if k = k' then (k, v) # m else if k < k' then (k, v) # (k', v') # m else (k', v') # smap_put k v m)"

text \<open>Alternate settings share the number of their interface: the last one stays in the map.\<close>

definition ConfigDescriptor :: "config_desc option \<Rightarrow> (byte \<times> iface_desc) list" where
  "ConfigDescriptor c =
     (case c of None \<Rightarrow> [] | Some c \<Rightarrow> foldl (\<lambda>m i. smap_put (if_number i) i m) [] (concat (cf_interfaces c)))"

definition config_number :: "config_desc option \<Rightarrow> byte" where
  "config_number c = (case c of None \<Rightarrow> 0 | Some c \<Rightarrow> cf_value c)"

text \<open>A configuration that cannot be read is \<open>None\<close>.\<close>

definition DeviceDescriptor :: "config_desc option list \<Rightarrow> (byte \<times> (byte \<times> iface_desc) list) list" where
  "DeviceDescriptor cs = foldl (\<lambda>m c. smap_put (config_number c) (ConfigDescriptor c) m) [] cs"

section \<open>Endpoint pairs\<close>

record endpoint_pair =
  ep_read :: byte
  ep_write :: byte
  ep_type :: byte

definition BulkType :: byte where "BulkType = 2"
definition InvalidType :: byte where "InvalidType = 0xff"

definition EndpointPair_new :: endpoint_pair where
  "EndpointPair_new = \<lparr>ep_read = 0, ep_write = 0, ep_type = InvalidType\<rparr>"

definition IsTypeSet :: "endpoint_pair \<Rightarrow> bool" where "IsTypeSet p \<longleftrightarrow> ep_type p \<noteq> InvalidType"
definition IsComplete :: "endpoint_pair \<Rightarrow> bool" where
  "IsComplete p \<longleftrightarrow> ep_read p \<noteq> 0 \<and> ep_write p \<noteq> 0 \<and> IsTypeSet p"
definition IsBulk :: "endpoint_pair \<Rightarrow> bool" where "IsBulk p \<longleftrightarrow> ep_type p = BulkType"

definition pair_take :: "endpoint_pair \<Rightarrow> endpoint_desc \<Rightarrow> endpoint_pair" where
  "pair_take p d =
     (let fresh = IsTypeSet p \<and> ep_type p \<noteq> ep_kind d;
          p1 = (if IsRead d
                then p\<lparr>ep_read := ep_address d, ep_write := (if fresh then 0 else ep_write p)\<rparr>
                else p\<lparr>ep_write := ep_address d, ep_read := (if fresh then 0 else ep_read p)\<rparr>)
      in p1\<lparr>ep_type := ep_kind d\<rparr>)"

definition pair_step :: "endpoint_pair \<times> endpoint_pair list \<Rightarrow> endpoint_desc \<Rightarrow> endpoint_pair \<times> endpoint_pair list" where
  "pair_step s d =
     (let p = pair_take (fst s) d
      in if IsComplete p then (EndpointPair_new, snd s @ [p]) else (p, snd s))"

text \<open>IsValid with the pairs.\<close>

definition EndpointPairings :: "endpoint_desc list \<Rightarrow> bool \<times> endpoint_pair list" where
  "EndpointPairings eps =
     (if eps = [] then (False, []) else (True, snd (foldl pair_step (EndpointPair_new, []) eps)))"

section \<open>Properties of the transfers\<close>

text \<open>A read skips what interrupted transfers brought and answers with the first other one.\<close>

theorem BulkRead_after_interrupts:
  assumes "\<forall>t\<in>set is. fst t = LIBUSB_ERROR_INTERRUPTED" "0 \<le> code"
  shows "Device_BulkRead (is @ (code, bs) # ts) = (Inr (True, bs), ts)"
  using assms by (induction "is") (auto simp: LIBUSB_ERROR_INTERRUPTED_def)

lemma Device_BulkRead_shorter: "ts \<noteq> [] \<Longrightarrow> length (snd (Device_BulkRead ts)) < length ts"
proof (induction ts rule: Device_BulkRead.induct)
  case (2 code bs ts)
  then show ?case by (cases "ts = []") (auto simp: LIBUSB_ERROR_TIMEOUT_def)
qed simp

text \<open>A drain ends, with a timeout at the latest when nothing more arrives.\<close>

theorem BulkDrain_ends:
  assumes "length ts < k" shows "\<exists>ts'. Device_BulkDrain k ts = Some ts' \<and> length ts' \<le> length ts"
  using assms
proof (induction k arbitrary: ts)
  case (Suc k)
  obtain r ts' where r: "Device_BulkRead ts = (r, ts')" by fastforce
  have le: "length ts' \<le> length ts" and less: "ts \<noteq> [] \<longrightarrow> length ts' < length ts"
    using Device_BulkRead_shorter[of ts] r by (cases "ts = []"; auto)+
  show ?case
  proof (cases "ts = []")
    case True
    then show ?thesis using r by auto
  next
    case False
    then obtain ts'' where "Device_BulkDrain k ts' = Some ts''" "length ts'' \<le> length ts'" using Suc less by force
    then show ?thesis using r le by (auto split: sum.splits bool.splits)
  qed
qed simp

text \<open>
  Without an interruption a write that returns true put exactly the data on the wire; an
  interrupted attempt leaves the part it had moved in front of it.
\<close>

theorem BulkWrite_wire:
  assumes "Device_BulkWrite bs ts = (Inr True, ts', wire)"
  shows "\<exists>parts. wire = concat parts @ bs \<and> (\<forall>p\<in>set parts. \<exists>n. p = take n bs)
    \<and> ((\<forall>t\<in>set ts. fst t \<noteq> LIBUSB_ERROR_INTERRUPTED) \<longrightarrow> parts = [])"
  using assms
proof (induction bs ts arbitrary: wire rule: Device_BulkWrite.induct)
  case (2 bs code n ts)
  show ?case
  proof (cases "code = LIBUSB_ERROR_INTERRUPTED")
    case True
    then obtain w where w: "Device_BulkWrite bs ts = (Inr True, ts', w)" "wire = take n bs @ w"
      using "2.prems" by (auto split: prod.splits)
    then obtain parts where "w = concat parts @ bs" "\<forall>p\<in>set parts. \<exists>n. p = take n bs" using "2.IH"[OF True] by blast
    then show ?thesis using True w(2) by (intro exI[of _ "take n bs # parts"]) auto
  next
    case False
    then show ?thesis using "2.prems" by (auto split: if_splits intro!: exI[of _ "[]"])
  qed
qed (auto intro: exI[of _ "[]"])

text \<open>No code of libusb is translated to EPERM.\<close>

theorem TranslateErrcode_no_EPERM: "TranslateErrcode code \<noteq> - EPERM"
  by (simp add: TranslateErrcode_def errorCodes_def EPERM_def EACCES_def EBUSY_def LIBUSB_ERROR_BUSY_def
      LIBUSB_ERROR_TIMEOUT_def LIBUSB_ERROR_INTERRUPTED_def)

section \<open>Properties of the descriptors\<close>

lemma smap_put_keys: "set (map fst (smap_put k v m)) = insert k (set (map fst m))"
  by (induction k v m rule: smap_put.induct) auto

lemma smap_put_sorted: "sorted_wrt (<) (map fst m) \<Longrightarrow> sorted_wrt (<) (map fst (smap_put k v m))"
  by (induction k v m rule: smap_put.induct) (auto simp: smap_put_keys simp del: set_map dest: order_less_trans)

lemma smap_put_lookup: "map_of (smap_put k v m) = (map_of m)(k \<mapsto> v)"
  by (induction k v m rule: smap_put.induct) (auto simp: fun_eq_iff)

lemma smap_fold:
  "sorted_wrt (<) (map fst m) \<Longrightarrow> sorted_wrt (<) (map fst (foldl (\<lambda>m x. smap_put (f x) (g x) m) m xs))"
  "map_of (foldl (\<lambda>m x. smap_put (f x) (g x) m) m xs) = foldl (\<lambda>m x. m(f x \<mapsto> g x)) (map_of m) xs"
  by (induction xs arbitrary: m) (simp_all add: smap_put_sorted smap_put_lookup)

lemma foldl_upd_last: "foldl (\<lambda>m x. m(f x \<mapsto> g x)) m xs k = (case find (\<lambda>x. f x = k) (rev xs) of Some x \<Rightarrow> Some (g x) | None \<Rightarrow> m k)"
  by (induction xs rule: rev_induct) auto

text \<open>Of the alternate settings with one number only the last can be found.\<close>

theorem ConfigDescriptor_last:
  "map_of (ConfigDescriptor (Some c)) n = find (\<lambda>i. if_number i = n) (rev (concat (cf_interfaces c)))"
  by (simp add: ConfigDescriptor_def smap_fold foldl_upd_last split: option.splits)

section \<open>Properties of the endpoint pairs\<close>

text \<open>Both endpoints of a pair that is being collected are descriptors of its type.\<close>

definition pair_of :: "endpoint_desc set \<Rightarrow> endpoint_pair \<Rightarrow> bool" where
  "pair_of D p \<longleftrightarrow>
     (ep_read p \<noteq> 0 \<longrightarrow> (\<exists>d\<in>D. IsRead d \<and> ep_address d = ep_read p \<and> ep_kind d = ep_type p))
   \<and> (ep_write p \<noteq> 0 \<longrightarrow> (\<exists>d\<in>D. \<not> IsRead d \<and> ep_address d = ep_write p \<and> ep_kind d = ep_type p))"

lemma pair_of_new: "pair_of D EndpointPair_new"
  by (simp add: pair_of_def EndpointPair_new_def)

lemma pair_of_mono: "pair_of D p \<Longrightarrow> D \<subseteq> D' \<Longrightarrow> pair_of D' p"
  unfolding pair_of_def by blast

text \<open>An unset type comes with no endpoint.\<close>

definition unset_empty :: "endpoint_pair \<Rightarrow> bool" where
  "unset_empty p \<longleftrightarrow> (\<not> IsTypeSet p \<longrightarrow> ep_read p = 0 \<and> ep_write p = 0)"

lemma pair_take_ok:
  assumes "pair_of D p" "unset_empty p" shows "pair_of (insert d D) (pair_take p d)"
  using assms by (auto simp: pair_of_def pair_take_def Let_def unset_empty_def)

lemma ep_kind_set: "ep_kind d \<noteq> InvalidType"
proof
  assume "ep_kind d = InvalidType"
  then have "bit (ed_attributes d AND 0x03) 7 = bit (0xff :: byte) 7" by (simp add: ep_kind_def InvalidType_def)
  then show False by (simp add: bit_and_iff bit_numeral_rec)
qed

lemma unset_empty_take: "unset_empty (pair_take p d)" "unset_empty EndpointPair_new"
  by (simp_all add: unset_empty_def pair_take_def IsTypeSet_def Let_def ep_kind_set EndpointPair_new_def)

lemma pair_steps_ok:
  assumes "pair_of D p" "unset_empty p" "\<forall>q\<in>set qs. IsComplete q \<and> pair_of D q"
  shows "\<forall>q\<in>set (snd (foldl pair_step (p, qs) eps)). IsComplete q \<and> pair_of (D \<union> set eps) q"
  using assms
proof (induction eps arbitrary: D p qs)
  case (Cons d eps)
  have t: "pair_of (insert d D) (pair_take p d)" using Cons.prems pair_take_ok by blast
  have qs: "\<forall>q\<in>set qs. IsComplete q \<and> pair_of (insert d D) q" using Cons.prems(3) pair_of_mono by blast
  have "\<forall>q\<in>set (snd (foldl pair_step (pair_step (p, qs) d) eps)). IsComplete q \<and> pair_of (insert d D \<union> set eps) q"
  proof (cases "IsComplete (pair_take p d)")
    case True
    then have "pair_step (p, qs) d = (EndpointPair_new, qs @ [pair_take p d])" by (simp add: pair_step_def)
    then show ?thesis using Cons.IH[of "insert d D" EndpointPair_new "qs @ [pair_take p d]"] True t qs
      by (simp add: pair_of_new unset_empty_take)
  next
    case False
    then have "pair_step (p, qs) d = (pair_take p d, qs)" by (simp add: pair_step_def)
    then show ?thesis using Cons.IH[of "insert d D" "pair_take p d" qs] t qs by (simp add: unset_empty_take)
  qed
  then show ?case by simp
qed simp

lemma EndpointPairings_sound:
  assumes "p \<in> set (snd (EndpointPairings eps))"
  shows "IsComplete p" "\<exists>r\<in>set eps. \<exists>w\<in>set eps. IsRead r \<and> \<not> IsRead w \<and> ep_kind r = ep_type p \<and> ep_kind w = ep_type p
     \<and> ep_address r = ep_read p \<and> ep_address w = ep_write p"
proof -
  have "eps \<noteq> []" using assms by (auto simp: EndpointPairings_def)
  then have ok: "IsComplete p \<and> pair_of (set eps) p"
    using pair_steps_ok[of "{}" EndpointPair_new "[]" eps] assms by (simp add: EndpointPairings_def pair_of_new unset_empty_take)
  then show "IsComplete p" by simp
  show "\<exists>r\<in>set eps. \<exists>w\<in>set eps. IsRead r \<and> \<not> IsRead w \<and> ep_kind r = ep_type p \<and> ep_kind w = ep_type p
     \<and> ep_address r = ep_read p \<and> ep_address w = ep_write p"
    using ok unfolding pair_of_def IsComplete_def by blast
qed

lemma ep_address_low: "ep_address d < 16"
proof -
  have "ep_address d \<le> 0x0f" unfolding ep_address_def by (rule word_and_le1)
  then show ?thesis by (rule order_le_less_trans) simp
qed

text \<open>Descriptors that come read and write in turn, two and two of one type, give these pairs.\<close>

definition two_and_two :: "(endpoint_desc \<times> endpoint_desc) list \<Rightarrow> bool" where
  "two_and_two ps \<longleftrightarrow> (\<forall>(a, b)\<in>set ps. IsRead a \<noteq> IsRead b \<and> ep_kind a = ep_kind b \<and> ep_address a \<noteq> 0 \<and> ep_address b \<noteq> 0)"

definition pair_from :: "endpoint_desc \<times> endpoint_desc \<Rightarrow> endpoint_pair" where
  "pair_from p = (let (a, b) = p in \<lparr>ep_read = ep_address (if IsRead a then a else b),
     ep_write = ep_address (if IsRead a then b else a), ep_type = ep_kind a\<rparr>)"

lemma pair_step_two:
  assumes "IsRead a \<noteq> IsRead b" "ep_kind a = ep_kind b" "ep_address a \<noteq> 0" "ep_address b \<noteq> 0"
  shows "pair_step (pair_step (EndpointPair_new, qs) a) b = (EndpointPair_new, qs @ [pair_from (a, b)])"
  using assms ep_kind_set[of b]
  by (auto simp: pair_step_def pair_take_def Let_def EndpointPair_new_def IsComplete_def IsTypeSet_def pair_from_def)

lemma EndpointPairings_grouped:
  assumes "two_and_two ps"
  shows "snd (EndpointPairings (concat (map (\<lambda>(a, b). [a, b]) ps))) = map pair_from ps"
proof -
  have "foldl pair_step (EndpointPair_new, qs) (concat (map (\<lambda>(a, b). [a, b]) ps)) = (EndpointPair_new, qs @ map pair_from ps)" for qs
    using assms by (induction ps arbitrary: qs) (auto simp: two_and_two_def pair_step_two)
  from this[of "[]"] show ?thesis by (cases "concat (map (\<lambda>(a, b). [a, b]) ps)") (simp_all add: EndpointPairings_def)
qed

end
