(* ===== verification/Ip_Modem.thy ===== *)
theory Ip_Modem imports Socket Sha1 Ppp_Filter Usb_Wrap begin

text \<open>
  The IP modem mode (src/src/m_ipmodem.cc, src/src/m_ipmodem.h): it talks to a pair of USB
  endpoints of its own, without sockets. Open stops and starts the modem, answers password
  requests with a hash and ends with an AT command; a thread then hands everything the
  device sends to a callback. What the endpoint delivers is part of the state, as the list
  of what the coming reads return; a read past its end times out. Halts are cleared by
  libusb and change nothing here. A read that times out leaves the data buffer empty.
\<close>

section \<open>Constants and state\<close>

definition special_flag :: bytes where "special_flag = [0x78, 0x56, 0x34, 0x12]"
definition pw_start :: bytes where "pw_start = [0x01, 0, 0, 0, 1, 0, 0, 0, 0x78, 0x56, 0x34, 0x12]"
definition ip_stop :: bytes where "ip_stop = [0x01, 0, 0, 0, 0, 0, 0, 0, 0x78, 0x56, 0x34, 0x12]"
definition SB_IPMODEM_SESSION_KEY_LENGTH :: nat where "SB_IPMODEM_SESSION_KEY_LENGTH = 8"

record ip_modem =
  ip_reads :: "bytes res list"
  ip_writes :: "bytes list"
  ip_write_faults :: "exn option list"
  ip_filter :: ppp_filter
  m_session_key :: bytes
  m_continue_reading :: bool
  ip_callback :: bool
  ip_calls :: "bytes list"

definition ip_write :: "bytes \<Rightarrow> (ip_modem, unit) st" where
  "ip_write bs m =
     (case ip_write_faults m of
        Some e # fs \<Rightarrow> (Inl e, m\<lparr>ip_write_faults := fs\<rparr>)
      | fs \<Rightarrow> (Inr (), m\<lparr>ip_write_faults := tl fs, ip_writes := ip_writes m @ [bs]\<rparr>))"

definition ip_read :: "(ip_modem, bytes) st" where
  "ip_read m = (case ip_reads m of [] \<Rightarrow> (Inl UsbTimeout, m) | r # rs \<Rightarrow> (r, m\<lparr>ip_reads := rs\<rparr>))"

definition ip_read_patient :: "(ip_modem, bytes) st" where
  "ip_read_patient = catch ip_read (\<lambda>e. if e = UsbTimeout then ret [] else throw e)"

definition IpModem_new :: "bool \<Rightarrow> bytes res list \<Rightarrow> ip_modem" where
  "IpModem_new callback reads =
     \<lparr>ip_reads = reads, ip_writes = [], ip_write_faults = [], ip_filter = PppFilter_new,
      m_session_key = replicate SB_IPMODEM_SESSION_KEY_LENGTH 0, m_continue_reading = False, ip_callback = callback, ip_calls = []\<rparr>"

section \<open>The password\<close>

definition no_password_given :: "bytes option \<Rightarrow> bool" where
  "no_password_given password \<longleftrightarrow> (case password of None \<Rightarrow> True | Some p \<Rightarrow> c_str p = [])"

text \<open>The hash of the seed and the hash of the password, between a header and the flag.\<close>

definition password_digest :: "bytes option \<Rightarrow> u32 \<Rightarrow> bytes" where
  "password_digest password seed = SHA1 (le32 seed @ SHA1 (c_str (the password)))"

definition password_response :: "bytes \<Rightarrow> bytes" where
  "password_response pwdigest = [0x03, 0, 0, 0] @ pwdigest @ special_flag"

definition IpModem_SendPassword :: "bytes option \<Rightarrow> u32 \<Rightarrow> (ip_modem, bool) st" where
  "IpModem_SendPassword password seed =
     (if no_password_given password
      then throw (BadPassword ''Logic error: No password provided in SendPassword.'' 0 False)
      else
        let pwdigest = password_digest password seed
        in bnd (ip_write (password_response pwdigest)) (\<lambda>_.
           bnd ip_read (\<lambda>data.
           bnd (if 16 \<le> length data \<and> byte_at data 0 = 0 then ip_read_patient else ret data) (\<lambda>data.
             if 9 \<le> length data \<and> byte_at data 0 = 4
             then
               if seed + 1 = get32 data 4 \<or> get32 data 4 = 0
               then bnd (modify (\<lambda>m. m\<lparr>m_session_key := drop (20 - SB_IPMODEM_SESSION_KEY_LENGTH) pwdigest\<rparr>)) (\<lambda>_. ret True)
               else throw (BadPassword ''Password rejected by device.'' (unat (byte_at data 8)) False)
             else ret False))))"

definition send_password_or_throw :: "bytes option \<Rightarrow> u32 \<Rightarrow> (ip_modem, unit) st" where
  "send_password_or_throw password seed =
     bnd (IpModem_SendPassword password seed) (\<lambda>ok.
       if \<not> ok then throw (BarryError ''IpModem: Error sending password.'') else ret ())"

section \<open>Open\<close>

definition ends_with_flag :: "bytes \<Rightarrow> bool" where
  "ends_with_flag data \<longleftrightarrow> drop (length data - 4) data = special_flag"

text \<open>The first answer; the result is what the data buffer holds afterwards.\<close>

definition answer_request :: "bytes option \<Rightarrow> bytes \<Rightarrow> (ip_modem, bytes) st" where
  "answer_request password data =
     (if 9 \<le> length data \<and> byte_at data 0 = 0x02 \<and> ends_with_flag data
      then
        if unat (byte_at data 8) < BARRY_MIN_PASSWORD_TRIES
        then throw (BadPassword few_tries_text (unat (byte_at data 8)) True)
        else
          bnd (send_password_or_throw password (get32 data 4)) (\<lambda>_.
          bnd (ip_write pw_start) (\<lambda>_. ip_read_patient))
      else ret data)"

definition session_packet :: "byte \<Rightarrow> byte \<Rightarrow> bytes \<Rightarrow> bytes" where
  "session_packet code kind key = [0, 0, 0, 0, code, 0, 0, 0, kind, 0, 0, 0, 0, 0xc2, 1, 0] @ key @ special_flag"

text \<open>The packet looked at here is the one read before the session key was sent.\<close>

definition send_session_key :: "bytes option \<Rightarrow> bytes \<Rightarrow> (ip_modem, unit) st" where
  "send_session_key password data =
     bnd (gets m_session_key) (\<lambda>key.
     bnd (ip_write (session_packet 0 3 key)) (\<lambda>_.
       exec_if (16 \<le> length data \<and> byte_at data 0 = 0x02) (send_password_or_throw password (get32 data 4))))"

definition modem_command :: bytes where "modem_command = [0x41, 0x54, 0x0d]"

definition callback_data :: "bytes \<Rightarrow> (ip_modem, unit) st" where
  "callback_data data =
     bnd (gets ip_callback) (\<lambda>callback. exec_if callback (modify (\<lambda>m. m\<lparr>ip_calls := ip_calls m @ [data]\<rparr>)))"

definition try_command :: "bytes option \<Rightarrow> (ip_modem, unit) st" where
  "try_command password =
     bnd (ip_write modem_command) (\<lambda>_.
     bnd ip_read (\<lambda>data.
       if data = [] then ret ()
       else if byte_at data 0 = 0x00 then bnd ip_read_patient (\<lambda>_. ret ())
       else if byte_at data 0 = 0x02
       then
         if no_password_given password
         then throw (BadPassword ''This device requested a password.'' (if 9 \<le> length data then unat (byte_at data 8) else 0) False)
         else bnd (lift (rd32 data 4)) (\<lambda>seed. send_password_or_throw password seed)
       else if byte_at data 0 = 0x04 then ret ()
       else if byte_at data 0 = 0x07 then throw (BadPassword ''This device requires a password.'' 0 False)
       else callback_data data))"

definition hex_byte :: "byte \<Rightarrow> string" where "hex_byte b = map (char_of \<circ> unat) (num_digits 16 (unat b))"

definition modem_unsupported :: "endpoint_pair \<Rightarrow> exn" where
  "modem_unsupported p = BarryError (''IP Modem not supported by this device: '' @ ''read: '' @ hex_byte (ep_read p)
     @ '' write: '' @ hex_byte (ep_write p) @ '' type: '' @ hex_byte (ep_type p))"

text \<open>\<open>spawn\<close> is the exception of a failed pthread_create, if it fails.\<close>

definition IpModem_Open :: "endpoint_pair \<Rightarrow> exn option \<Rightarrow> bytes option \<Rightarrow> (ip_modem, unit) st" where
  "IpModem_Open pair spawn password =
     (if \<not> IsComplete pair then throw (modem_unsupported pair)
      else
        bnd (ip_write ip_stop) (\<lambda>_.
        bnd ip_read_patient (\<lambda>_.
        bnd (ip_write pw_start) (\<lambda>_.
        bnd ip_read (\<lambda>data.
        bnd (answer_request password data) (\<lambda>data.
        bnd (send_session_key password data) (\<lambda>_.
        bnd (try_command password) (\<lambda>_.
          case spawn of
            None \<Rightarrow> modify (\<lambda>m. m\<lparr>m_continue_reading := True\<rparr>)
          | Some e \<Rightarrow> bnd (modify (\<lambda>m. m\<lparr>m_continue_reading := False\<rparr>)) (\<lambda>_. throw e)))))))))"

section \<open>Reading, writing, closing\<close>

text \<open>One turn of the thread: exceptions are caught, packets with the flag are dropped.\<close>

definition DataReadThread_turn :: "(ip_modem, unit) st" where
  "DataReadThread_turn =
     catch (bnd ip_read (\<lambda>data. if 4 < length data \<and> ends_with_flag data then ret () else callback_data data)) (\<lambda>_. ret ())"

primrec DataReadThread :: "nat \<Rightarrow> (ip_modem, unit) st" where
  "DataReadThread 0 = ret ()"
| "DataReadThread (Suc turns) =
     bnd (gets m_continue_reading) (\<lambda>go. exec_if go (bnd DataReadThread_turn (\<lambda>_. DataReadThread turns)))"

definition IpModem_Write :: "bytes \<Rightarrow> (ip_modem, unit) st" where
  "IpModem_Write bs =
     (if bs = [] then ret ()
      else
        bnd (gets ip_filter) (\<lambda>f.
        bnd (lift (Write f bs)) (\<lambda>(out, f').
        bnd (modify (\<lambda>m. m\<lparr>ip_filter := f'\<rparr>)) (\<lambda>_. ip_write out))))"

definition IpModem_Close :: "(ip_modem, unit) st" where
  "IpModem_Close =
     bnd (gets m_session_key) (\<lambda>key.
     bnd (ip_write (session_packet 0xb0 0 key)) (\<lambda>_.
     bnd (ip_write (session_packet 0x20 3 key)) (\<lambda>_.
     bnd (ip_write (session_packet 0x30 0 key)) (\<lambda>_.
     bnd (ip_write ip_stop) (\<lambda>_.
     bnd (gets m_continue_reading) (\<lambda>reading.
       if reading then modify (\<lambda>m. m\<lparr>m_continue_reading := False\<rparr>)
       else bnd ip_read_patient (\<lambda>_. ret ())))))))"

definition IpModem_destroy :: "(ip_modem, unit) st" where "IpModem_destroy = catch IpModem_Close (\<lambda>_. ret ())"

section \<open>Properties\<close>

text \<open>What the modem mode may write, for a password: no packet depends on it but through the hash.\<close>

definition hashed :: "bytes option \<Rightarrow> u32 \<Rightarrow> bytes" where
  "hashed password seed = fips_sha1 (le32 seed @ fips_sha1 (c_str (the password)))"

definition modem_key :: "bytes option \<Rightarrow> bytes \<Rightarrow> bool" where
  "modem_key password key \<longleftrightarrow> key = replicate 8 0 \<or> (\<exists>seed. key = drop 12 (hashed password seed))"

definition modem_packet :: "bytes option \<Rightarrow> bytes \<Rightarrow> bool" where
  "modem_packet password p \<longleftrightarrow> p \<in> {ip_stop, pw_start, modem_command} \<or> (\<exists>seed. p = password_response (hashed password seed))
     \<or> (\<exists>code kind key. modem_key password key \<and> p = session_packet code kind key)"

definition modem_safe :: "bytes option \<Rightarrow> ip_modem \<Rightarrow> bool" where
  "modem_safe password m \<longleftrightarrow> list_all (modem_packet password) (ip_writes m) \<and> modem_key password (m_session_key m)"

lemma digest_hashed: "password_digest password seed = hashed password seed"
  by (simp add: password_digest_def hashed_def SHA1_fips)

text \<open>An invariant of the writes and the session key, and the operations it is kept by.\<close>

lemma keeps_ip_read:
  assumes "\<And>m rs. I m \<Longrightarrow> I (m\<lparr>ip_reads := rs\<rparr>)"
  shows "keeps I ip_read" "keeps I ip_read_patient"
proof -
  show r: "keeps I ip_read" using assms by (auto simp: keeps_def ip_read_def split: list.splits)
  show "keeps I ip_read_patient" unfolding ip_read_patient_def by (intro keeps_catch r keeps_if keeps_basic)
qed

lemma keeps_ip_write:
  assumes "\<And>m fs. I m \<Longrightarrow> I (m\<lparr>ip_write_faults := fs\<rparr>)" "\<And>m fs. I m \<Longrightarrow> I (m\<lparr>ip_write_faults := fs, ip_writes := ip_writes m @ [bs]\<rparr>)"
  shows "keeps I (ip_write bs)"
  using assms by (auto simp: keeps_def ip_write_def split: list.splits option.splits)

lemma safe_basic:
  "keeps (modem_safe password) ip_read" "keeps (modem_safe password) ip_read_patient"
  "modem_packet password bs \<Longrightarrow> keeps (modem_safe password) (ip_write bs)"
  by (auto intro!: keeps_ip_read keeps_ip_write simp: modem_safe_def)

lemma safe_packets:
  "modem_packet password ip_stop" "modem_packet password pw_start" "modem_packet password modem_command"
  "modem_packet password (password_response (password_digest password seed))"
  "modem_key password key \<Longrightarrow> modem_packet password (session_packet code kind key)"
  by (auto simp: modem_packet_def digest_hashed)

lemma safe_SendPassword: "keeps (modem_safe password) (IpModem_SendPassword password seed)"
proof -
  have "keeps (modem_safe password) (modify (\<lambda>m. m\<lparr>m_session_key := drop 12 (password_digest password seed)\<rparr>))"
    by (rule keeps_modify) (auto simp: modem_safe_def modem_key_def digest_hashed)
  then show ?thesis
    unfolding IpModem_SendPassword_def SB_IPMODEM_SESSION_KEY_LENGTH_def Let_def
    by (auto intro!: keeps_bnd safe_basic safe_packets)
qed

lemma safe_send_or_throw: "keeps (modem_safe password) (send_password_or_throw password seed)"
  unfolding send_password_or_throw_def by (auto intro!: keeps_bnd safe_SendPassword)

text \<open>A write that reads the session key first.\<close>

lemma safe_session:
  assumes "\<And>key. modem_key password key \<Longrightarrow> keeps (modem_safe password) (f key)"
  shows "keeps (modem_safe password) (bnd (gets m_session_key) f)"
  using assms by (auto simp: keeps_def modem_safe_def)

text \<open>
  C19: The password of an IP modem never leaves the library except as a hash: whatever the
  device sends, and however Open ends, each packet that Open and Close write is one of the
  fixed commands, the answer to a password request, which carries FIPS 180 of the device's
  seed and FIPS 180 of the password, or a session packet, whose key is zero or the end of
  such a hash.
\<close>

theorem modem_writes_safe:
  assumes "modem_safe password m"
  shows "modem_safe password (snd (IpModem_Open pair spawn password m)) \<and> modem_safe password (snd (IpModem_Close m))"
proof -
  have reading: "keeps (modem_safe password) (modify (\<lambda>m. m\<lparr>m_continue_reading := b\<rparr>))" for b
    by (rule keeps_modify) (simp add: modem_safe_def)
  have "keeps (modem_safe password) (callback_data bs)" for bs
    unfolding callback_data_def by (intro keeps_bnd keeps_basic keeps_exec_if keeps_modify) (simp add: modem_safe_def)
  then have c: "keeps (modem_safe password) (try_command password)"
    unfolding try_command_def by (intro keeps_bnd keeps_if keeps_basic safe_basic safe_packets safe_send_or_throw) auto
  have k: "keeps (modem_safe password) (send_session_key password data)" for data
    unfolding send_session_key_def by (intro safe_session keeps_bnd keeps_exec_if safe_basic safe_packets safe_send_or_throw)
  have a: "keeps (modem_safe password) (answer_request password data)" for data
    unfolding answer_request_def by (auto intro!: keeps_bnd safe_basic safe_packets safe_send_or_throw)
  have "keeps (modem_safe password) (IpModem_Open pair spawn password)"
    unfolding IpModem_Open_def by (cases spawn) (auto intro!: keeps_bnd safe_basic safe_packets c k a reading)
  moreover have "keeps (modem_safe password) IpModem_Close"
    unfolding IpModem_Close_def by (intro safe_session keeps_bnd keeps_if keeps_basic safe_basic safe_packets reading)
  ultimately show ?thesis using assms by (simp add: keeps_def)
qed

lemma modem_writes_safe_witness:
  "modem_safe (Some (lit ''pw'')) (snd (IpModem_Open \<lparr>ep_read = 0x85, ep_write = 6, ep_type = 2\<rparr> None (Some (lit ''pw'')) (IpModem_new True [])))"
  using modem_writes_safe[of "Some (lit ''pw'')" "IpModem_new True []"]
  by (simp add: modem_safe_def modem_key_def IpModem_new_def SB_IPMODEM_SESSION_KEY_LENGTH_def)

text \<open>Open up to the first answer, when nothing goes wrong on the wire.\<close>

lemma ip_write_ok:
  "ip_write_faults m = [] \<Longrightarrow> ip_write bs m = (Inr (), m\<lparr>ip_writes := ip_writes m @ [bs]\<rparr>)"
  by (cases m) (simp add: ip_write_def)

lemma ip_read_ok: "ip_reads m = Inr data # rs \<Longrightarrow> ip_read m = (Inr data, m\<lparr>ip_reads := rs\<rparr>)"
  by (simp add: ip_read_def)

lemma patient_ok:
  "ip_reads m = r # rs \<Longrightarrow> r \<in> range Inr \<union> {Inl UsbTimeout} \<Longrightarrow> \<exists>x. ip_read_patient m = (Inr x, m\<lparr>ip_reads := rs\<rparr>)"
  by (auto simp: ip_read_patient_def ip_read_def catch_def)

definition opened :: "ip_modem \<Rightarrow> bytes res list \<Rightarrow> ip_modem" where
  "opened m rs = m\<lparr>ip_reads := rs, ip_writes := ip_writes m @ [ip_stop, pw_start]\<rparr>"

lemma Open_first_answer:
  assumes "IsComplete pair" "ip_write_faults m = []" "ip_reads m = r # Inr data # rs" "r \<in> range Inr \<union> {Inl UsbTimeout}"
  shows "IpModem_Open pair spawn password m
    = bnd (answer_request password data) (\<lambda>data. bnd (send_session_key password data) (\<lambda>_. bnd (try_command password) (\<lambda>_.
        case spawn of None \<Rightarrow> modify (\<lambda>m. m\<lparr>m_continue_reading := True\<rparr>)
        | Some e \<Rightarrow> bnd (modify (\<lambda>m. m\<lparr>m_continue_reading := False\<rparr>)) (\<lambda>_. throw e)))) (opened m rs)"
proof -
  let ?m1 = "m\<lparr>ip_writes := ip_writes m @ [ip_stop]\<rparr>"
  obtain x where x: "ip_read_patient ?m1 = (Inr x, ?m1\<lparr>ip_reads := Inr data # rs\<rparr>)"
    using patient_ok[of ?m1 r "Inr data # rs"] assms(3,4) by auto
  have "ip_read (?m1\<lparr>ip_reads := Inr data # rs, ip_writes := ip_writes m @ [ip_stop, pw_start]\<rparr>) = (Inr data, opened m rs)"
    by (simp add: ip_read_def opened_def)
  then show ?thesis
    using assms(1,2) x by (simp add: IpModem_Open_def ip_write_ok)
qed

text \<open>
  C20: Open respects the limit on password tries where it is looked for: if the device answers
  the start command with a password request that ends in the flag and says that fewer than
  three tries are left, Open throws BadPassword, with the number of tries and marked as out of
  tries, and has written nothing but the stop and the start command.
\<close>

theorem modem_few_tries:
  assumes "IsComplete pair" "ip_write_faults m = []" "ip_reads m = r # Inr data # rs" "r \<in> range Inr \<union> {Inl UsbTimeout}"
    and "9 \<le> length data" "byte_at data 0 = 0x02" "ends_with_flag data" "byte_at data 8 < 3"
  shows "\<exists>m'. IpModem_Open pair spawn password m = (Inl (BadPassword few_tries_text (unat (byte_at data 8)) True), m')
    \<and> ip_writes m' = ip_writes m @ [ip_stop, pw_start]"
proof -
  have "unat (byte_at data 8) < 3" using assms(8) by (simp add: word_less_nat_alt)
  then have "answer_request password data (opened m rs) = (Inl (BadPassword few_tries_text (unat (byte_at data 8)) True), opened m rs)"
    using assms(5-7) by (simp add: answer_request_def BARRY_MIN_PASSWORD_TRIES_def)
  then show ?thesis using Open_first_answer[OF assms(1-4)] by (simp add: opened_def)
qed

definition sample_request :: "byte \<Rightarrow> bytes \<Rightarrow> bytes" where
  "sample_request tries tail = [2, 0, 0, 0, 7, 0, 0, 0, tries, 0, 0, 0, 10, 0, 0, 0] @ tail"

definition modem_pair :: endpoint_pair where "modem_pair = \<lparr>ep_read = 0x85, ep_write = 6, ep_type = 2\<rparr>"

lemma sample_request_facts:
  "16 \<le> length (sample_request t tail)" "byte_at (sample_request t tail) 0 = 0x02" "byte_at (sample_request t tail) 8 = t"
  "ends_with_flag (sample_request t special_flag)" "\<not> ends_with_flag (sample_request t [])" "get32 (sample_request t tail) 4 = 7"
  "9 \<le> length (sample_request t tail)"
  by (simp_all add: sample_request_def ends_with_flag_def special_flag_def get32_def)

lemma modem_pair_complete: "IsComplete modem_pair"
  by (simp add: IsComplete_def IsTypeSet_def InvalidType_def modem_pair_def)

lemma modem_few_tries_witness:
  "\<exists>m'. IpModem_Open modem_pair None (Some (lit ''pw'')) (IpModem_new True [Inl UsbTimeout, Inr (sample_request 2 special_flag)])
    = (Inl (BadPassword few_tries_text 2 True), m') \<and> ip_writes m' = [ip_stop, pw_start]"
  using modem_few_tries[where data = "sample_request 2 special_flag" and m = "IpModem_new True [Inl UsbTimeout, Inr (sample_request 2 special_flag)]"
      and r = "Inl UsbTimeout" and rs = "[]", OF modem_pair_complete]
  by (auto simp: IpModem_new_def sample_request_facts)

text \<open>A packet that was written stays written.\<close>

lemma written_basic:
  "keeps (\<lambda>m. p \<in> set (ip_writes m)) ip_read" "keeps (\<lambda>m. p \<in> set (ip_writes m)) ip_read_patient"
  "keeps (\<lambda>m. p \<in> set (ip_writes m)) (ip_write bs)"
  "(\<And>m. ip_writes (g m) = ip_writes m) \<Longrightarrow> keeps (\<lambda>m. p \<in> set (ip_writes m)) (modify g)"
  by (auto intro!: keeps_ip_read keeps_ip_write keeps_modify)

lemma written_operations:
  "keeps (\<lambda>m. p \<in> set (ip_writes m)) (send_password_or_throw password seed)"
  "keeps (\<lambda>m. p \<in> set (ip_writes m)) (try_command password)"
proof -
  show s: "keeps (\<lambda>m. p \<in> set (ip_writes m)) (send_password_or_throw password seed)" for seed
    unfolding send_password_or_throw_def IpModem_SendPassword_def Let_def
    by (auto intro!: keeps_bnd written_basic)
  show "keeps (\<lambda>m. p \<in> set (ip_writes m)) (try_command password)"
    unfolding try_command_def callback_data_def by (intro keeps_bnd keeps_if keeps_basic keeps_exec_if written_basic s) auto
qed

lemma keeps_after: "keeps I m \<Longrightarrow> I s \<Longrightarrow> (\<And>x. keeps I (f x)) \<Longrightarrow> I (snd (bnd m f s))"
  using keeps_bnd[of I m f] by (simp add: keeps_def)

lemma send_password_writes:
  assumes "ip_write_faults m = []" "\<not> no_password_given password"
  shows "password_response (password_digest password seed) \<in> set (ip_writes (snd (send_password_or_throw password seed m)))"
proof -
  let ?I = "\<lambda>m. password_response (password_digest password seed) \<in> set (ip_writes m)"
  let ?m1 = "m\<lparr>ip_writes := ip_writes m @ [password_response (password_digest password seed)]\<rparr>"
  have "?I (snd (IpModem_SendPassword password seed m))"
  proof -
    have k: "keeps ?I (bnd (if 16 \<le> length data \<and> byte_at data 0 = 0 then ip_read_patient else ret data) f)" if "\<And>x. keeps ?I (f x)" for data f
      by (intro keeps_bnd keeps_if keeps_basic written_basic that)
    show ?thesis
      using assms by (simp add: IpModem_SendPassword_def Let_def ip_write_ok del: bnd_if)
        (rule keeps_after[OF written_basic(1)], simp, auto intro!: k keeps_bnd written_basic)
  qed
  then show ?thesis
    unfolding send_password_or_throw_def bnd_def by (auto split: prod.splits sum.splits)
qed

text \<open>
  C21: The limit on the tries is not looked for in the other two places where the device may
  ask: a request without the flag at its end, or one that answers the AT command, makes
  Open send the hash of the password whatever number of tries the request shows, even
  zero, so that a wrong password can use up the last try of the device.
\<close>

theorem modem_risks_password:
  assumes "IsComplete pair" "ip_write_faults m = []" "ip_reads m = r # Inr data # rs" "r \<in> range Inr \<union> {Inl UsbTimeout}"
    and "\<not> no_password_given password"
  shows "(16 \<le> length data \<and> byte_at data 0 = 0x02 \<and> \<not> ends_with_flag data
      \<longrightarrow> password_response (password_digest password (get32 data 4)) \<in> set (ip_writes (snd (IpModem_Open pair spawn password m))))
    \<and> (\<forall>reply rs'. byte_at data 0 \<noteq> 0x02 \<and> rs = Inr reply # rs' \<and> 8 \<le> length reply \<and> byte_at reply 0 = 0x02
      \<longrightarrow> password_response (password_digest password (get32 reply 4)) \<in> set (ip_writes (snd (IpModem_Open pair spawn password m))))"
proof -
  let ?spawn = "\<lambda>_. case spawn of None \<Rightarrow> modify (\<lambda>m. m\<lparr>m_continue_reading := True\<rparr>)
        | Some e \<Rightarrow> bnd (modify (\<lambda>m. m\<lparr>m_continue_reading := False\<rparr>)) (\<lambda>_. throw e)"
  let ?sent = "\<lambda>seed m. password_response (password_digest password seed) \<in> set (ip_writes m)"
  let ?key = "m_session_key m"
  let ?m1 = "opened m rs\<lparr>ip_writes := ip_writes m @ [ip_stop, pw_start, session_packet 0 3 ?key]\<rparr>"
  have spawn: "keeps (?sent seed) (?spawn x)" for seed x
    by (cases spawn) (auto intro!: keeps_bnd written_basic)
  have f: "ip_write_faults ?m1 = []" "m_session_key (opened m rs) = ?key" "ip_write_faults (opened m rs) = []" "ip_reads (opened m rs) = rs"
    using assms(2) by (simp_all add: opened_def)
  have w: "ip_write (session_packet 0 3 ?key) (opened m rs) = (Inr (), ?m1)"
    using ip_write_ok[OF f(3)] by (simp add: opened_def)
  note first = Open_first_answer[OF assms(1-4), of spawn password]
  show ?thesis
  proof (intro conjI allI impI)
    assume a: "16 \<le> length data \<and> byte_at data 0 = 0x02 \<and> \<not> ends_with_flag data"
    define rest where "rest = (\<lambda>_ :: unit. bnd (try_command password) ?spawn)"
    have "IpModem_Open pair spawn password m = bnd (send_password_or_throw password (get32 data 4)) rest ?m1"
      using first a w f by (simp add: answer_request_def send_session_key_def rest_def)
    moreover have "keeps (?sent (get32 data 4)) (rest u)" for u
      unfolding rest_def by (intro keeps_bnd written_operations spawn)
    ultimately show "?sent (get32 data 4) (snd (IpModem_Open pair spawn password m))"
      using send_password_writes[OF f(1) assms(5), of "get32 data 4"]
      by (auto simp: bnd_def keeps_def split: prod.splits sum.splits)
  next
    fix reply rs' assume a: "byte_at data 0 \<noteq> 0x02 \<and> rs = Inr reply # rs' \<and> 8 \<le> length reply \<and> byte_at reply 0 = 0x02"
    let ?m2 = "?m1\<lparr>ip_writes := ip_writes m @ [ip_stop, pw_start, session_packet 0 3 ?key, modem_command], ip_reads := rs'\<rparr>"
    have t: "bnd (try_command password) ?spawn ?m1 = bnd (send_password_or_throw password (get32 reply 4)) ?spawn ?m2"
      using a assms(5) ip_write_ok[OF f(1), of modem_command]
      by (auto simp: try_command_def ip_read_def opened_def rd32_def)
    have "IpModem_Open pair spawn password m = bnd (try_command password) ?spawn ?m1"
      using first a w f by (simp add: answer_request_def send_session_key_def exec_if_def)
    then show "?sent (get32 reply 4) (snd (IpModem_Open pair spawn password m))"
      using send_password_writes[of ?m2 password "get32 reply 4"] assms(2,5) t spawn
      by (auto simp: bnd_def keeps_def opened_def split: prod.splits sum.splits)
  qed
qed

lemma modem_risks_password_witness:
  "password_response (password_digest (Some (lit ''pw'')) 7)
     \<in> set (ip_writes (snd (IpModem_Open modem_pair None (Some (lit ''pw'')) (IpModem_new True [Inl UsbTimeout, Inr (sample_request 0 [])]))))"
  using modem_risks_password[where data = "sample_request 0 []" and m = "IpModem_new True [Inl UsbTimeout, Inr (sample_request 0 [])]"
      and r = "Inl UsbTimeout" and rs = "[]" and password = "Some (lit ''pw'')" and spawn = None, OF modem_pair_complete]
  by (auto simp: IpModem_new_def sample_request_facts no_password_given_def lit_def c_str_def)

end
