(* ===== verification/Probe.thy ===== *)
theory Probe imports Usb_Wrap Socket Packets begin

text \<open>
  The probe (src/src/probe.cc, src/src/probe.h, src/src/pin.cc): it looks through the USB
  devices for ones that answer on a pair of endpoints, and asks each for its PIN and
  description. A USB device is its descriptors, what libusb returns for the calls on it and
  what its endpoints deliver; it logs what is done to it. Every element of an endpoint's
  list is one read, and a read past its end times out.
\<close>

section \<open>A USB device\<close>

datatype usb_event =
    Wrote byte bytes
  | HaltCleared byte
  | ConfigSet byte
  | Claimed byte
  | AltSet byte
  | Released byte

text \<open>
  \<open>ud_error\<close>: the code and text of the USB errors of the device's transfers, and later of
  the USB error that was thrown.
\<close>

record usb_device =
  ud_bus :: nat
  ud_address :: nat
  ud_ids :: "(nat \<times> nat) option"
  ud_configs :: "config_desc option list"
  ud_open :: int
  ud_config :: "int \<times> byte"
  ud_set_config :: int
  ud_claim :: int
  ud_error :: "int \<times> bytes"
  ud_reads :: "byte \<Rightarrow> usb_result list list"
  ud_faults :: "exn option list"
  ud_log :: "usb_event list"

definition ud_event :: "usb_event \<Rightarrow> (usb_device, unit) st" where
  "ud_event e = modify (\<lambda>d. d\<lparr>ud_log := ud_log d @ [e]\<rparr>)"

definition throw_usb :: "int \<Rightarrow> string \<Rightarrow> (usb_device, 'a) st" where
  "throw_usb code msg = bnd (modify (\<lambda>d. d\<lparr>ud_error := (code, lit msg)\<rparr>)) (\<lambda>_. throw UsbError)"

definition GetUsbName :: "usb_device \<Rightarrow> bytes" where
  "GetUsbName d = lit ''libusb1-'' @ num_digits 10 (ud_bus d) @ lit '':'' @ num_digits 10 (ud_address d)"

text \<open>The number in front of a text; no digits are 0.\<close>

definition atoi :: "bytes \<Rightarrow> int" where
  "atoi s =
     (let s1 = dropWhile isspace s;
          s2 = (if s1 \<noteq> [] \<and> (hd s1 = 0x2b \<or> hd s1 = 0x2d) then tl s1 else s1);
          v = int (num_value 10 (takeWhile isdigit s2))
      in if s1 \<noteq> [] \<and> hd s1 = 0x2d then - v else v)"

definition PRODUCT_ANY :: nat where "PRODUCT_ANY = 0x10000"

definition device_matches :: "nat \<Rightarrow> nat \<Rightarrow> bytes option \<Rightarrow> bytes option \<Rightarrow> usb_device \<Rightarrow> bool" where
  "device_matches vendor product busname devname d \<longleftrightarrow>
     (case busname of None \<Rightarrow> True | Some b \<Rightarrow> atoi b = int (ud_bus d))
   \<and> (case devname of None \<Rightarrow> True | Some n \<Rightarrow> atoi n = int (ud_address d))
   \<and> (case ud_ids d of None \<Rightarrow> False | Some (v, p) \<Rightarrow> v = vendor \<and> (p = product \<or> product = PRODUCT_ANY))"

definition MatchDevices :: "nat \<Rightarrow> nat \<Rightarrow> bytes option \<Rightarrow> bytes option \<Rightarrow> usb_device list \<Rightarrow> usb_device list" where
  "MatchDevices vendor product busname devname = filter (device_matches vendor product busname devname)"

text \<open>A socket 0 over a pair of endpoints of the device, without a queue.\<close>

definition SocketZero_new :: "usb_result list list \<Rightarrow> exn option list \<Rightarrow> zero" where
  "SocketZero_new reads faults =
     \<lparr>z_dev = True, z_queue = None, m_zeroSocketSequence = 0, m_sequenceId = 0, m_halfOpen = False, m_challengeSeed = 0,
      m_remainingTries = 0, m_modeSequencePacketSeen = False, m_pushback_buffer = [], m_pushback = False,
      arrivals = reads, write_faults = faults, sent = []\<rparr>"

definition with_pair :: "endpoint_pair \<Rightarrow> (zero, 'a) st \<Rightarrow> (usb_device, 'a) st" where
  "with_pair ep m d =
     (case m (SocketZero_new (ud_reads d (ep_read ep)) (ud_faults d)) of
        (r, z) \<Rightarrow> (r, d\<lparr>ud_reads := (ud_reads d)(ep_read ep := arrivals z), ud_faults := write_faults z,
                       ud_log := ud_log d @ map (Wrote (ep_write ep)) (sent z)\<rparr>))"

section \<open>One pair of endpoints\<close>

definition Intro_Send :: bytes where
  "Intro_Send = [0x00, 0x00, 0x10, 0x00, 0x01, 0xff, 0x00, 0x00, 0xa8, 0x18, 0xda, 0x8d, 0x6c, 0x02, 0x00, 0x00]"

text \<open>Reading goes on until a read throws or does not return true.\<close>

fun drained :: "usb_result list list \<Rightarrow> usb_result list list" where
  "drained [] = []"
| "drained (chunk # rest) = (case chunk of UsbData _ # _ \<Rightarrow> drained rest | _ \<Rightarrow> rest)"

definition BulkDrain :: "(zero, unit) st" where
  "BulkDrain = modify (\<lambda>z. z\<lparr>arrivals := drained (arrivals z)\<rparr>)"

text \<open>The answer to the introduction is not looked at.\<close>

definition Intro :: "(zero, bool) st" where
  "Intro =
     bnd (BulkWrite Intro_Send) (\<lambda>_.
       catch (bnd direct_read (\<lambda>_. ret True)) (\<lambda>e. if e = UsbTimeout then ret False else throw e))"

definition Probe_CheckSize :: "bytes \<Rightarrow> nat \<Rightarrow> bool res" where
  "Probe_CheckSize bs required =
     rbind (rd16 bs 2) (\<lambda>sz.
       Inr (\<not> (unat sz \<noteq> length bs \<or> length bs < required \<or> byte_at bs 4 \<noteq> SB_COMMAND_FETCHED_ATTRIBUTE)))"

definition ParsePIN :: "bytes \<Rightarrow> u32 option res" where
  "ParsePIN bs = rbind (Probe_CheckSize bs 0x14) (\<lambda>ok. Inr (if ok then Some (get32 bs 16) else None))"

definition ParseDesc :: "bytes \<Rightarrow> bytes option res" where
  "ParseDesc bs = rbind (Probe_CheckSize bs 29) (\<lambda>ok. Inr (if ok then Some (c_str (drop 28 bs)) else None))"

text \<open>Objects and attributes of the device.\<close>

definition SB_OBJECT_INITIAL_UNKNOWN :: u32 where "SB_OBJECT_INITIAL_UNKNOWN = 0x14"
definition SB_ATTR_INITIAL_UNKNOWN :: u32 where "SB_ATTR_INITIAL_UNKNOWN = 0x01"
definition SB_OBJECT_PROFILE :: u32 where "SB_OBJECT_PROFILE = 0x08"
definition SB_ATTR_PROFILE_DESC :: u32 where "SB_ATTR_PROFILE_DESC = 0x02"
definition SB_ATTR_PROFILE_PIN :: u32 where "SB_ATTR_PROFILE_PIN = 0x04"
definition SB_OBJECT_SOCKET_UNKNOWN :: u32 where "SB_OBJECT_SOCKET_UNKNOWN = 0x04"

text \<open>A probe never has a queue, so no handler is ever called.\<close>

definition no_handlers :: handlers where "no_handlers h bs = Inr bs"

text \<open>Ask for an attribute; the send buffer is used again for the next question.\<close>

definition ask_attribute :: "data \<Rightarrow> u32 \<Rightarrow> u32 \<Rightarrow> (zero, data \<times> bytes) st" where
  "ask_attribute send object attribute =
     bnd (lift (GetAttribute send object attribute)) (\<lambda>send'.
     bnd (Zero_Send_receive no_handlers (contents send')) (\<lambda>receive. ret (send', receive)))"

definition pin_answer :: "bytes \<Rightarrow> u32 option res" where
  "pin_answer receive =
     rbind (ObjectID receive) (\<lambda>ob. if ucast ob \<noteq> SB_OBJECT_PROFILE then Inr None
     else rbind (AttributeID receive) (\<lambda>at. if ucast at \<noteq> SB_ATTR_PROFILE_PIN then Inr None else ParsePIN receive))"

text \<open>The object of this answer is not checked; a wrong answer leaves the text empty.\<close>

definition desc_answer :: "bytes \<Rightarrow> bytes res" where
  "desc_answer receive =
     rbind (AttributeID receive) (\<lambda>at. if ucast at \<noteq> SB_ATTR_PROFILE_DESC then Inr []
     else rbind (ParseDesc receive) (\<lambda>desc. Inr (case desc of None \<Rightarrow> [] | Some t \<Rightarrow> t)))"

primrec ask_all :: "data \<Rightarrow> u32 list \<Rightarrow> (zero, unit) st" where
  "ask_all send [] = ret ()"
| "ask_all send (at # ats) = bnd (ask_attribute send SB_OBJECT_SOCKET_UNKNOWN at) (\<lambda>(send', _). ask_all send' ats)"

text \<open>The exchange with a device that has answered the introduction.\<close>

definition probe_exchange :: "(zero, (u32 \<times> bytes \<times> byte) option) st" where
  "probe_exchange =
     bnd (ask_attribute Data_default SB_OBJECT_INITIAL_UNKNOWN SB_ATTR_INITIAL_UNKNOWN) (\<lambda>(send, _).
     bnd (ask_attribute send SB_OBJECT_PROFILE SB_ATTR_PROFILE_PIN) (\<lambda>(send, receive).
     bnd (lift (pin_answer receive)) (\<lambda>pin. case pin of None \<Rightarrow> ret None | Some pin \<Rightarrow>
     bnd (ask_attribute send SB_OBJECT_PROFILE SB_ATTR_PROFILE_DESC) (\<lambda>(send, receive).
     bnd (lift (desc_answer receive)) (\<lambda>desc.
     bnd (ask_all send [5, 6, 7, 8]) (\<lambda>_.
     bnd (gets m_zeroSocketSequence) (\<lambda>q. ret (Some (pin, desc, q)))))))))"

definition ProbePair :: "endpoint_pair \<Rightarrow> (usb_device, (u32 \<times> bytes \<times> byte \<times> bool) option) st" where
  "ProbePair ep =
     bnd (with_pair ep (bnd BulkDrain (\<lambda>_. Intro))) (\<lambda>ok.
     bnd (if ok then ret (Some False)
          else
            bnd (ud_event (HaltCleared (ep_read ep))) (\<lambda>_. bnd (ud_event (HaltCleared (ep_write ep))) (\<lambda>_.
            bnd (with_pair ep (bnd BulkDrain (\<lambda>_. Intro))) (\<lambda>ok. ret (if ok then Some True else None))))) (\<lambda>halt.
       case halt of None \<Rightarrow> ret None
       | Some needClearHalt \<Rightarrow>
           bnd (with_pair ep probe_exchange) (\<lambda>found.
             ret (map_option (\<lambda>(pin, desc, q). (pin, desc, q, needClearHalt)) found))))"

section \<open>One device\<close>

record probe_result =
  pb_dev :: bytes
  pb_interface :: byte
  pb_altsetting :: byte
  pb_pin :: u32
  pb_ep :: endpoint_pair
  pb_epModem :: endpoint_pair
  pb_needClearHalt :: bool
  pb_needSetAltInterface :: bool
  pb_zeroSocketSequence :: byte
  pb_description :: bytes
  pb_cfgDeviceName :: bytes

text \<open>
  What the constructor is given, and the device name that the configuration file of a PIN
  holds (empty if there is none).
\<close>

record probe_options =
  po_log_exceptions :: u32
  po_epp :: "endpoint_pair option"
  po_device_name :: "u32 \<Rightarrow> bytes"

definition found_pair :: "endpoint_pair \<Rightarrow> u32 \<times> bytes \<times> byte \<times> bool \<Rightarrow> probe_result \<Rightarrow> probe_result" where
  "found_pair ep x r =
     (case x of (pin, desc, q, halt) \<Rightarrow>
        r\<lparr>pb_ep := ep, pb_pin := pin, pb_description := desc, pb_zeroSocketSequence := q, pb_needClearHalt := halt\<rparr>)"

text \<open>Pairs are tried until one answers; the second result is the pairs behind it.\<close>

fun probe_pairs :: "endpoint_pair list \<Rightarrow> probe_result \<Rightarrow> (usb_device, probe_result \<times> endpoint_pair list) st" where
  "probe_pairs [] r = ret (r, [])"
| "probe_pairs (ep # eps) r =
     (if ep_type ep = BulkType
      then bnd (ProbePair ep) (\<lambda>x. case x of
             Some x \<Rightarrow> ret (found_pair ep x r, eps)
           | None \<Rightarrow> probe_pairs eps r)
      else probe_pairs eps r)"

definition ProbeModem :: "endpoint_pair \<Rightarrow> bool" where "ProbeModem ep = True"

text \<open>If there are several pairs, the first is not tried.\<close>

definition pairs_tried :: "endpoint_pair list \<Rightarrow> endpoint_pair list" where
  "pairs_tried eps = (if 1 < length eps then drop 1 eps else eps)"

definition ProbeDeviceEndpoints :: "probe_options \<Rightarrow> endpoint_pair list \<Rightarrow> probe_result \<Rightarrow> (usb_device, probe_result) st" where
  "ProbeDeviceEndpoints opts eps r =
     (case po_epp opts of
        Some ep \<Rightarrow> bnd (ProbePair ep) (\<lambda>x. ret (case x of Some x \<Rightarrow> found_pair ep x r | None \<Rightarrow> r))
      | None \<Rightarrow>
          bnd (probe_pairs (pairs_tried eps) r) (\<lambda>(r, rest). ret (case rest of
              ep # _ \<Rightarrow> if ProbeModem ep then r\<lparr>pb_epModem := ep\<rparr> else r
            | [] \<Rightarrow> r)))"

text \<open>Code that runs when a scope is left, by an exception too.\<close>

definition scoped :: "(usb_device, 'a) st \<Rightarrow> usb_event \<Rightarrow> (usb_device, 'a) st" where
  "scoped m cleanup d = (case m d of (r, d') \<Rightarrow> (r, snd (ud_event cleanup d')))"

definition BLACKBERRY_CONFIGURATION :: byte where "BLACKBERRY_CONFIGURATION = 1"
definition BLACKBERRY_DB_CLASS :: byte where "BLACKBERRY_DB_CLASS = 0xff"
definition MUST_SET_CONFIGURATION :: bool where "MUST_SET_CONFIGURATION = False"

definition ProbeResult_new :: "bytes \<Rightarrow> iface_desc \<Rightarrow> probe_result" where
  "ProbeResult_new dev i =
     \<lparr>pb_dev = dev, pb_interface = if_number i, pb_altsetting = if_alt i, pb_pin = 0, pb_ep = EndpointPair_new,
      pb_epModem = EndpointPair_new, pb_needClearHalt = False, pb_needSetAltInterface = False,
      pb_zeroSocketSequence = 0, pb_description = [], pb_cfgDeviceName = []\<rparr>"

definition open_device :: "(usb_device, unit) st" where
  "open_device = bnd (gets ud_open) (\<lambda>err. if err \<noteq> 0
     then throw_usb err ''Failed to open USB device.  Please check your system's USB device permissions.'' else ret ())"

definition check_configuration :: "(usb_device, unit) st" where
  "check_configuration =
     bnd (gets ud_config) (\<lambda>(code, cfg).
       if code < 0 then throw_usb code ''Probe: GetConfiguration failed''
       else exec_if (cfg \<noteq> BLACKBERRY_CONFIGURATION \<or> MUST_SET_CONFIGURATION)
         (bnd (ud_event (ConfigSet BLACKBERRY_CONFIGURATION)) (\<lambda>_.
          bnd (gets ud_set_config) (\<lambda>code.
            if code < 0 then throw_usb code ''Probe: SetConfiguration failed'' else ret ()))))"

definition claim_interface :: "byte \<Rightarrow> (usb_device, unit) st" where
  "claim_interface n = bnd (gets ud_claim) (\<lambda>code. if code < 0 then throw_usb code ''claim interface failed'' else ud_event (Claimed n))"

text \<open>The two rounds of probing, the second after the alternate setting was set.\<close>

definition probe_rounds :: "probe_options \<Rightarrow> iface_desc \<Rightarrow> endpoint_pair list \<Rightarrow> probe_result \<Rightarrow> (usb_device, probe_result) st" where
  "probe_rounds opts i eps r =
     bnd (ProbeDeviceEndpoints opts eps r) (\<lambda>r.
       if \<not> IsComplete (pb_ep r)
       then bnd (ud_event (AltSet (if_alt i))) (\<lambda>_. ProbeDeviceEndpoints opts eps (r\<lparr>pb_needSetAltInterface := True\<rparr>))
       else ret r)"

text \<open>The database interface of the right configuration, with its endpoint pairs, if there are any.\<close>

definition database_interface :: "config_desc option list \<Rightarrow> (iface_desc \<times> endpoint_pair list) option res" where
  "database_interface cs =
     (case map_of (DeviceDescriptor cs) BLACKBERRY_CONFIGURATION of None \<Rightarrow> Inr None | Some config \<Rightarrow>
      case find (\<lambda>(n, i). if_class i = BLACKBERRY_DB_CLASS) config of None \<Rightarrow> Inr None | Some (_, i) \<Rightarrow>
      case map_of config (if_number i) of None \<Rightarrow> Inl (UB ''null interface pointer'') | Some i' \<Rightarrow>
      let (valid, eps) = EndpointPairings (if_endpoints i')
      in Inr (if \<not> valid \<or> eps = [] then None else Some (i, eps)))"

text \<open>The result is the one added to the list, if the device is added.\<close>

definition ProbeDevice :: "probe_options \<Rightarrow> (usb_device, probe_result option) st" where
  "ProbeDevice opts =
     bnd (gets (\<lambda>d. (database_interface (ud_configs d), GetUsbName d))) (\<lambda>(interface, dev).
     bnd (lift interface) (\<lambda>interface. case interface of None \<Rightarrow> ret None | Some (i, eps) \<Rightarrow>
       bnd open_device (\<lambda>_.
       bnd check_configuration (\<lambda>_.
       bnd (claim_interface (if_number i)) (\<lambda>_.
       bnd (scoped (probe_rounds opts i eps (ProbeResult_new dev i)) (Released (if_number i))) (\<lambda>r.
         ret (if IsComplete (pb_ep r) then Some (r\<lparr>pb_cfgDeviceName := po_device_name opts (pb_pin r)\<rparr>) else None)))))))"

section \<open>All devices\<close>

text \<open>\<open>pr_devices\<close>: the devices that were looked at, as the probe left them.\<close>

record probe =
  pr_results :: "probe_result list"
  pr_fail_msgs :: "bytes list"
  pr_fail_count :: nat
  pr_devices :: "usb_device list"

definition LOG_BUSY :: u32 where "LOG_BUSY = 0x0001"
definition LOG_ACCESS :: u32 where "LOG_ACCESS = 0x0002"
definition LOG_PERM :: u32 where "LOG_PERM = 0x0004"

text \<open>The code and text of the USB error in hand.\<close>

definition usb_error_of :: "exn \<Rightarrow> usb_device \<Rightarrow> (int \<times> bytes) option" where
  "usb_error_of e d =
     (if e = UsbError then Some (ud_error d)
      else if e = UsbTimeout then Some (LIBUSB_ERROR_TIMEOUT, lit ''Timeout'') else None)"

definition logs_code :: "u32 \<Rightarrow> int \<Rightarrow> bool" where
  "logs_code bits code \<longleftrightarrow>
     bits AND LOG_BUSY \<noteq> 0 \<and> TranslateErrcode code = - EBUSY
   \<or> bits AND LOG_ACCESS \<noteq> 0 \<and> TranslateErrcode code = - EACCES
   \<or> bits AND LOG_PERM \<noteq> 0 \<and> TranslateErrcode code = - EPERM"

definition fail_message :: "usb_device \<Rightarrow> int \<Rightarrow> bytes \<Rightarrow> bytes" where
  "fail_message d code msg =
     lit ''Device '' @ GetUsbName d @ lit '': ''
     @ (if TranslateErrcode code = - EBUSY then lit ''(EBUSY) ''
        else if TranslateErrcode code = - EACCES then lit ''(EACCES) ''
        else if TranslateErrcode code = - EPERM then lit ''(EPERM) '' else [])
     @ usb_error_what code msg"

definition probe_one :: "probe_options \<Rightarrow> usb_device \<Rightarrow> (probe, unit) st" where
  "probe_one opts d =
     (case ProbeDevice opts d of
        (Inr r, d') \<Rightarrow>
          modify (\<lambda>p. p\<lparr>pr_devices := pr_devices p @ [d'], pr_results := pr_results p @ (case r of None \<Rightarrow> [] | Some r \<Rightarrow> [r])\<rparr>)
      | (Inl e, d') \<Rightarrow>
          bnd (modify (\<lambda>p. p\<lparr>pr_devices := pr_devices p @ [d']\<rparr>)) (\<lambda>_.
          case usb_error_of e d' of
            None \<Rightarrow> throw e
          | Some (code, msg) \<Rightarrow>
              if logs_code (po_log_exceptions opts) code
              then modify (\<lambda>p. p\<lparr>pr_fail_count := pr_fail_count p + 1, pr_fail_msgs := pr_fail_msgs p @ [fail_message d' code msg]\<rparr>)
              else throw e))"

primrec ProbeMatching :: "probe_options \<Rightarrow> usb_device list \<Rightarrow> (probe, unit) st" where
  "ProbeMatching opts [] = ret ()"
| "ProbeMatching opts (d # ds) = bnd (probe_one opts d) (\<lambda>_. ProbeMatching opts ds)"

definition VENDOR_RIM :: nat where "VENDOR_RIM = 0x0fca"
definition PRODUCT_RIM_BLACKBERRY :: nat where "PRODUCT_RIM_BLACKBERRY = 0x0001"
definition PRODUCT_RIM_PEARL_DUAL :: nat where "PRODUCT_RIM_PEARL_DUAL = 0x0004"
definition PRODUCT_RIM_PEARL_FLIP :: nat where "PRODUCT_RIM_PEARL_FLIP = 0x8001"
definition PRODUCT_RIM_PEARL_8120 :: nat where "PRODUCT_RIM_PEARL_8120 = 0x8004"
definition PRODUCT_RIM_STORM :: nat where "PRODUCT_RIM_STORM = 0x8007"

primrec probe_products :: "probe_options \<Rightarrow> bytes option \<Rightarrow> bytes option \<Rightarrow> usb_device list \<Rightarrow> nat list \<Rightarrow> (probe, unit) st" where
  "probe_products opts busname devname ds [] = ret ()"
| "probe_products opts busname devname ds (p # ps) =
     bnd (ProbeMatching opts (MatchDevices VENDOR_RIM p busname devname ds)) (\<lambda>_. probe_products opts busname devname ds ps)"

text \<open>An empty name is no name.\<close>

definition given_name :: "bytes option \<Rightarrow> bytes option" where
  "given_name n = (case n of Some s \<Rightarrow> (if c_str s = [] then None else Some s) | None \<Rightarrow> None)"

definition probe_start :: probe where
  "probe_start = \<lparr>pr_results = [], pr_fail_msgs = [], pr_fail_count = 0, pr_devices = []\<rparr>"

definition Probe_new :: "probe_options \<Rightarrow> bytes option \<Rightarrow> bytes option \<Rightarrow> usb_device list \<Rightarrow> unit res \<times> probe" where
  "Probe_new opts busname devname ds =
     probe_products opts (given_name busname) (given_name devname) ds
       [PRODUCT_RIM_BLACKBERRY, PRODUCT_RIM_PEARL_DUAL, PRODUCT_RIM_PEARL_8120, PRODUCT_RIM_PEARL_FLIP, PRODUCT_RIM_STORM]
       probe_start"

section \<open>Results\<close>

fun Probe_Find_from :: "nat \<Rightarrow> probe_result list \<Rightarrow> u32 \<Rightarrow> int" where
  "Probe_Find_from i [] pin = -1"
| "Probe_Find_from i (r # rs) pin = (if pb_pin r = pin then int i else Probe_Find_from (Suc i) rs pin)"

definition Probe_Find :: "probe_result list \<Rightarrow> u32 \<Rightarrow> int" where "Probe_Find = Probe_Find_from 0"

definition FindActive :: "probe_result list \<Rightarrow> u32 \<Rightarrow> int" where
  "FindActive results pin =
     (let i = Probe_Find results pin
      in if i = -1 \<and> pin = 0 \<and> length results = 1 then 0 else i)"

definition HasIpModem :: "probe_result \<Rightarrow> bool" where "HasIpModem r = IsComplete (pb_epModem r)"

definition Pin_Str :: "u32 \<Rightarrow> bytes" where "Pin_Str pin = num_digits 16 (unat pin)"

text \<open>A text that is no number leaves the PIN as it was and the stream failed.\<close>

definition Pin_extract :: "bytes \<Rightarrow> u32 \<Rightarrow> bool \<times> u32" where
  "Pin_extract s pin = (case scan_hex 32 s of Some (v, _) \<Rightarrow> (True, word_of_nat v) | None \<Rightarrow> (False, pin))"

definition GetDisplayName :: "probe_result \<Rightarrow> bytes" where
  "GetDisplayName r =
     Pin_Str (pb_pin r) @ (if pb_cfgDeviceName r \<noteq> [] then lit '' ('' @ pb_cfgDeviceName r @ lit '')'' else [])"

end
