(* ===== verification/Probe_Search.thy ===== *)
theory Probe_Search imports Probe begin

text \<open>
  What the probe finds and does (theory Probe): the questions a device is asked and what
  becomes of its answers, the endpoints it writes to, the interface it claims and releases,
  and what holds of the results and logged errors of a whole search.
\<close>

section \<open>Questions to a device\<close>

definition attribute_request :: "byte \<Rightarrow> u32 \<Rightarrow> u32 \<Rightarrow> bytes" where
  "attribute_request q ob at = [0, 0] @ le16 12 @ [5] @ le16 0xff @ [q] @ le16 (ucast ob) @ le16 (ucast at)"

text \<open>A socket 0 over a device that accepts every write.\<close>

definition direct_zero :: "zero \<Rightarrow> bool" where
  "direct_zero z \<longleftrightarrow> z_dev z \<and> z_queue z = None \<and> \<not> m_pushback z \<and> write_faults z = []"

lemma request_on_wire:
  "overwrite 7 [q] (overwrite 0 (le16 0) ([s0, s1] @ le16 12 @ [5] @ le16 0xff @ [0] @ le16 (ucast ob) @ le16 (ucast at)))
    = attribute_request q ob at"
  by (simp add: attribute_request_def le16_def overwrite.simps numeral_eq_Suc)

lemma ask_attribute_starts:
  assumes "data_ok send"
  shows "\<exists>send'. data_ok send' \<and> ask_attribute send ob at =
    bnd (gets m_zeroSocketSequence) (\<lambda>q. bnd (modify (\<lambda>z. z\<lparr>m_zeroSocketSequence := q + 1\<rparr>)) (\<lambda>_.
    bnd (Zero_RawSend (attribute_request q ob at)) (\<lambda>_. bnd (RawReceive no_handlers) (\<lambda>receive. ret (send', receive)))))"
proof -
  obtain send' s0 s1 where s: "GetAttribute send ob at = Inr send'" "data_ok send'"
    "contents send' = [s0, s1] @ le16 12 @ [5] @ le16 0xff @ [0] @ le16 (ucast ob) @ le16 (ucast at)"
    using ZeroPacket_builders[OF assms, of ob at] by blast
  have w: "overwrite 7 [q] (overwrite 0 (le16 0) (contents send')) = attribute_request q ob at" for q
    unfolding s(3) by (rule request_on_wire)
  have l: "SB_SOCKET_PACKET_HEADER_SIZE \<le> length (contents send')" by (simp add: s(3) layout_simps)
  have "ask_attribute send ob at = bnd (gets m_zeroSocketSequence) (\<lambda>q. bnd (modify (\<lambda>z. z\<lparr>m_zeroSocketSequence := q + 1\<rparr>)) (\<lambda>_.
    bnd (Zero_RawSend (attribute_request q ob at)) (\<lambda>_. bnd (RawReceive no_handlers) (\<lambda>receive. ret (send', receive)))))"
    unfolding ask_attribute_def Zero_Send_receive_def Zero_Send_def s(1) using l w
    by (intro ext) (simp add: layout_simps)
  then show ?thesis using s(2) by blast
qed

lemma request_length: "length (attribute_request q ob at) = 12"
  by (simp add: attribute_request_def)

lemma ask_attribute_ok:
  assumes "data_ok send" "direct_zero z" "arrivals z = [UsbData x] # rest"
  shows "\<exists>send'. data_ok send' \<and> ask_attribute send ob at z = (Inr (send', x),
     z\<lparr>m_zeroSocketSequence := m_zeroSocketSequence z + 1, sent := sent z @ [attribute_request (m_zeroSocketSequence z) ob at],
       arrivals := rest\<rparr>)"
proof -
  obtain send' where s: "data_ok send'" "ask_attribute send ob at =
    bnd (gets m_zeroSocketSequence) (\<lambda>q. bnd (modify (\<lambda>z. z\<lparr>m_zeroSocketSequence := q + 1\<rparr>)) (\<lambda>_.
    bnd (Zero_RawSend (attribute_request q ob at)) (\<lambda>_. bnd (RawReceive no_handlers) (\<lambda>receive. ret (send', receive)))))"
    using ask_attribute_starts[OF assms(1)] by blast
  show ?thesis
    using assms(2,3) s(1) unfolding s(2) direct_zero_def
    by (intro exI[of _ send'])
      (simp add: Zero_RawSend_ok zero_has_device_def request_length RawReceive_def direct_read_def)
qed


section \<open>The exchange\<close>

definition probe_requests :: "bytes list" where
  "probe_requests = [attribute_request 0 0x14 1, attribute_request 1 8 4, attribute_request 2 8 2,
     attribute_request 3 4 5, attribute_request 4 4 6, attribute_request 5 4 7, attribute_request 6 4 8]"

definition answers :: "bytes list \<Rightarrow> usb_result list list" where
  "answers xs = map (\<lambda>x. [UsbData x]) xs"

lemma answers_simps [simp]: "answers [] = []" "answers (x # xs) = [UsbData x] # answers xs"
  by (simp_all add: answers_def)

text \<open>One question, in the form that the simplifier runs.\<close>

lemma ask_step:
  assumes "data_ok send" "direct_zero z" "arrivals z = answers (x # xs) @ rest"
  obtains send' z' where "data_ok send'" "direct_zero z'" "arrivals z' = answers xs @ rest"
    "ask_attribute send ob at z = (Inr (send', x), z')"
    "m_zeroSocketSequence z' = m_zeroSocketSequence z + 1"
    "sent z' = sent z @ [attribute_request (m_zeroSocketSequence z) ob at]"
proof -
  obtain send' where "data_ok send'" "ask_attribute send ob at z = (Inr (send', x),
     z\<lparr>m_zeroSocketSequence := m_zeroSocketSequence z + 1, sent := sent z @ [attribute_request (m_zeroSocketSequence z) ob at],
       arrivals := answers xs @ rest\<rparr>)"
    using ask_attribute_ok[OF assms(1,2), of x "answers xs @ rest"] assms(3) by auto
  then show thesis using assms(2) by (intro that) (auto simp: direct_zero_def)
qed

lemma ask_all_ok:
  assumes "data_ok send" "direct_zero z" "arrivals z = answers xs @ rest" "length xs = length ats"
  shows "\<exists>z'. ask_all send ats z = (Inr (), z') \<and> direct_zero z' \<and> arrivals z' = rest
    \<and> m_zeroSocketSequence z' = m_zeroSocketSequence z + of_nat (length ats)
    \<and> sent z' = sent z @ map (\<lambda>(i, at). attribute_request (m_zeroSocketSequence z + of_nat i) SB_OBJECT_SOCKET_UNKNOWN at) (enumerate 0 ats)"
  using assms
proof (induction ats arbitrary: send z xs)
  case (Cons at ats)
  obtain x xs' where xs: "xs = x # xs'" using Cons.prems(4) by (cases xs) auto
  obtain send' z1 where z1: "data_ok send'" "direct_zero z1" "arrivals z1 = answers xs' @ rest"
    "ask_attribute send SB_OBJECT_SOCKET_UNKNOWN at z = (Inr (send', x), z1)"
    "m_zeroSocketSequence z1 = m_zeroSocketSequence z + 1"
    "sent z1 = sent z @ [attribute_request (m_zeroSocketSequence z) SB_OBJECT_SOCKET_UNKNOWN at]"
    using ask_step[OF Cons.prems(1,2)] Cons.prems(3) unfolding xs by blast
  have "length xs' = length ats" using Cons.prems(4) xs by simp
  from Cons.IH[OF z1(1,2,3) this] obtain z2 where z2: "ask_all send' ats z1 = (Inr (), z2)" "direct_zero z2" "arrivals z2 = rest"
    "m_zeroSocketSequence z2 = m_zeroSocketSequence z1 + of_nat (length ats)"
    "sent z2 = sent z1 @ map (\<lambda>(i, at). attribute_request (m_zeroSocketSequence z1 + of_nat i) SB_OBJECT_SOCKET_UNKNOWN at) (enumerate 0 ats)"
    by blast
  have "enumerate (Suc 0) ats = map (\<lambda>(i, a). (Suc i, a)) (enumerate 0 ats)"
    by (auto simp: enumerate_Suc_eq)
  then have "map (\<lambda>(i, at). attribute_request (m_zeroSocketSequence z + of_nat i) SB_OBJECT_SOCKET_UNKNOWN at) (enumerate 0 (at # ats))
    = attribute_request (m_zeroSocketSequence z) SB_OBJECT_SOCKET_UNKNOWN at
      # map (\<lambda>(i, at). attribute_request (m_zeroSocketSequence z1 + of_nat i) SB_OBJECT_SOCKET_UNKNOWN at) (enumerate 0 ats)"
    using z1(5) by (simp add: case_prod_unfold comp_def add.assoc)
  then show ?case using z1 z2 by (intro exI[of _ z2]) (simp add: add.assoc)
qed simp

lemma probe_exchange_ok:
  assumes "direct_zero z" "m_zeroSocketSequence z = 0" "arrivals z = answers [u, p, t, a, b, c, d] @ rest"
    "pin_answer p = Inr (Some pin)" "desc_answer t = Inr desc"
  shows "\<exists>z'. probe_exchange z = (Inr (Some (pin, desc, 7)), z') \<and> direct_zero z' \<and> arrivals z' = rest
    \<and> sent z' = sent z @ probe_requests"
proof -
  obtain s1 z1 where 1: "data_ok s1" "direct_zero z1" "arrivals z1 = answers [p, t, a, b, c, d] @ rest"
    "ask_attribute Data_default SB_OBJECT_INITIAL_UNKNOWN SB_ATTR_INITIAL_UNKNOWN z = (Inr (s1, u), z1)"
    "m_zeroSocketSequence z1 = m_zeroSocketSequence z + 1" "sent z1 = sent z @ [attribute_request (m_zeroSocketSequence z) SB_OBJECT_INITIAL_UNKNOWN SB_ATTR_INITIAL_UNKNOWN]"
    using ask_step[OF data_default_ok assms(1,3)] by blast
  obtain s2 z2 where 2: "data_ok s2" "direct_zero z2" "arrivals z2 = answers [t, a, b, c, d] @ rest"
    "ask_attribute s1 SB_OBJECT_PROFILE SB_ATTR_PROFILE_PIN z1 = (Inr (s2, p), z2)"
    "m_zeroSocketSequence z2 = m_zeroSocketSequence z1 + 1" "sent z2 = sent z1 @ [attribute_request (m_zeroSocketSequence z1) SB_OBJECT_PROFILE SB_ATTR_PROFILE_PIN]"
    using ask_step[OF 1(1,2,3)] by blast
  obtain s3 z3 where 3: "data_ok s3" "direct_zero z3" "arrivals z3 = answers [a, b, c, d] @ rest"
    "ask_attribute s2 SB_OBJECT_PROFILE SB_ATTR_PROFILE_DESC z2 = (Inr (s3, t), z3)"
    "m_zeroSocketSequence z3 = m_zeroSocketSequence z2 + 1" "sent z3 = sent z2 @ [attribute_request (m_zeroSocketSequence z2) SB_OBJECT_PROFILE SB_ATTR_PROFILE_DESC]"
    using ask_step[OF 2(1,2,3)] by blast
  obtain z4 where 4: "ask_all s3 [5, 6, 7, 8] z3 = (Inr (), z4)" "direct_zero z4" "arrivals z4 = rest"
    "m_zeroSocketSequence z4 = m_zeroSocketSequence z3 + 4"
    "sent z4 = sent z3 @ [attribute_request (m_zeroSocketSequence z3) 4 5, attribute_request (m_zeroSocketSequence z3 + 1) 4 6,
       attribute_request (m_zeroSocketSequence z3 + 2) 4 7, attribute_request (m_zeroSocketSequence z3 + 3) 4 8]"
    using ask_all_ok[OF 3(1,2,3), of "[5, 6, 7, 8]"] by (auto simp: SB_OBJECT_SOCKET_UNKNOWN_def)
  have q: "m_zeroSocketSequence z1 = 1" "m_zeroSocketSequence z2 = 2" "m_zeroSocketSequence z3 = 3" "m_zeroSocketSequence z4 = 7"
    using 1(5) 2(5) 3(5) 4(4) assms(2) by simp_all
  have "probe_exchange z = (Inr (Some (pin, desc, 7)), z4)"
    unfolding probe_exchange_def using 1(4) 2(4) 3(4) 4(1) assms(4,5) q(4) by (simp del: ask_all.simps)
  moreover have "sent z4 = sent z @ probe_requests"
    using 1(6) 2(6) 3(6) 4(5) q assms(2)
    by (simp add: probe_requests_def SB_OBJECT_INITIAL_UNKNOWN_def SB_ATTR_INITIAL_UNKNOWN_def SB_OBJECT_PROFILE_def
        SB_ATTR_PROFILE_PIN_def SB_ATTR_PROFILE_DESC_def)
  ultimately show ?thesis using 4 by blast
qed

text \<open>Answers with a PIN and a description.\<close>

definition pin_packet :: "bytes \<Rightarrow> bytes \<Rightarrow> u32 \<Rightarrow> bytes" where
  "pin_packet three four pin = [0, 0] @ le16 20 @ [6] @ three @ le16 8 @ le16 4 @ four @ le32 pin"

definition desc_packet :: "bytes \<Rightarrow> bytes \<Rightarrow> bytes \<Rightarrow> bytes" where
  "desc_packet three twenty t = [0, 0] @ le16 (word_of_nat (28 + length t)) @ [6] @ three @ twenty @ t"

lemma pin_answer_ok:
  assumes "length three = 3" "length four = 4"
  shows "pin_answer (pin_packet three four pin) = Inr (Some pin)"
  using assms by (simp add: pin_answer_def pin_packet_def ObjectID_def AttributeID_def CheckSize_def packet_size_field_def layout_simps
      rd16_def ParsePIN_def Probe_CheckSize_def SB_OBJECT_PROFILE_def SB_ATTR_PROFILE_PIN_def)

lemma desc_answer_ok:
  assumes "length three = 3" "length twenty = 20" "get16 twenty 2 = 2" "t \<noteq> []" "length t < 0xFFE0"
  shows "desc_answer (desc_packet three twenty t) = Inr (c_str t)"
proof -
  have n: "unat (word_of_nat (28 + length t) :: u16) = 28 + length t" using assms(5) by (simp add: unat_of_nat del: of_nat_add)
  have l: "length (desc_packet three twenty t) = 28 + length t" using assms by (simp add: desc_packet_def)
  have r: "rd16 (desc_packet three twenty t) 2 = Inr (word_of_nat (28 + length t))" "rd16 (desc_packet three twenty t) 10 = Inr 2"
    "byte_at (desc_packet three twenty t) 4 = 6" "drop 28 (desc_packet three twenty t) = t"
    using assms by (simp_all add: desc_packet_def rd16_def get16_append_left)
  have "packet_size_field (desc_packet three twenty t) = length (desc_packet three twenty t)"
    using r(1) n l by (simp add: packet_size_field_def rd16_def layout_simps split: if_splits)
  then have "AttributeID (desc_packet three twenty t) = Inr 2"
    using l r(2) by (simp add: AttributeID_def CheckSize_def layout_simps)
  moreover have "Probe_CheckSize (desc_packet three twenty t) 29 = Inr True"
    using assms(4) l n r by (cases t) (simp_all add: Probe_CheckSize_def layout_simps)
  ultimately show ?thesis using r(4) by (simp add: desc_answer_def ParseDesc_def SB_ATTR_PROFILE_DESC_def)
qed

section \<open>Probing a pair\<close>

definition ends_drain :: "usb_result list \<Rightarrow> bool" where
  "ends_drain chunk \<longleftrightarrow> (case chunk of UsbData _ # _ \<Rightarrow> False | _ \<Rightarrow> True)"

lemma drained_rest: "ends_drain stop \<Longrightarrow> drained (answers old @ stop # rest) = rest"
  by (induction old) (auto simp: ends_drain_def split: list.splits usb_result.splits)

lemma intro_answered:
  assumes "ud_faults d = []" "ends_drain stop"
    "ud_reads d (ep_read ep) = answers old @ stop # reply # rest" "reply = [UsbData x] \<or> reply = [UsbTimeoutThrown]"
  shows "with_pair ep (bnd BulkDrain (\<lambda>_. Intro)) d = (Inr (reply = [UsbData x]), d\<lparr>ud_reads := (ud_reads d)(ep_read ep := rest),
    ud_log := ud_log d @ [Wrote (ep_write ep) Intro_Send]\<rparr>)"
  using assms(4) drained_rest[OF assms(2)]
  by (auto simp: with_pair_def BulkDrain_def Intro_def SocketZero_new_def assms(1,3) BulkWrite_def catch_def direct_read_def)

lemma exchange_answered:
  assumes "ud_faults d = []" "ud_reads d (ep_read ep) = answers [u, p, t, a, b, c, e] @ rest"
    "pin_answer p = Inr (Some pin)" "desc_answer t = Inr desc"
  shows "with_pair ep probe_exchange d = (Inr (Some (pin, desc, 7)), d\<lparr>ud_reads := (ud_reads d)(ep_read ep := rest),
    ud_log := ud_log d @ map (Wrote (ep_write ep)) probe_requests\<rparr>)"
proof -
  let ?z = "SocketZero_new (ud_reads d (ep_read ep)) (ud_faults d)"
  have "direct_zero ?z" "m_zeroSocketSequence ?z = 0" "arrivals ?z = answers [u, p, t, a, b, c, e] @ rest" "sent ?z = []"
    using assms(1,2) by (simp_all add: SocketZero_new_def direct_zero_def)
  from probe_exchange_ok[OF this(1-3) assms(3,4)] this(4) obtain z' where
    "probe_exchange ?z = (Inr (Some (pin, desc, 7)), z')" "direct_zero z'" "arrivals z' = rest" "sent z' = probe_requests"
    by auto
  then show ?thesis using assms(1) by (simp add: with_pair_def direct_zero_def)
qed

text \<open>
  C11: A pair whose device answers the introduction, at once or after its halts were cleared,
  and then every question, is found with the PIN and the description (up to its first NUL)
  that the device sent and with 7 as the next sequence number; the probe has written the
  introduction and the seven questions, numbered from 0, and nothing else.
\<close>

theorem ProbePair_finds:
  assumes "ud_faults d = []" "ends_drain stop" "ends_drain stop0"
    and "ud_reads d (ep_read ep) = (if halt then answers old0 @ [stop0, [UsbTimeoutThrown]] else [])
      @ answers old @ [stop, [UsbData r]] @ answers [u, pin_packet three four pin, desc_packet tri twenty t, a, b, c, e] @ rest"
    and "length three = 3" "length four = 4" "length tri = 3" "length twenty = 20" "get16 twenty 2 = 2" "t \<noteq> []" "length t < 0xFFE0"
  shows "ProbePair ep d = (Inr (Some (pin, c_str t, 7, halt)), d\<lparr>ud_reads := (ud_reads d)(ep_read ep := rest),
    ud_log := ud_log d
      @ (if halt then [Wrote (ep_write ep) Intro_Send, HaltCleared (ep_read ep), HaltCleared (ep_write ep)] else [])
      @ map (Wrote (ep_write ep)) (Intro_Send # probe_requests)\<rparr>)"
proof -
  note p = pin_answer_ok[OF assms(5,6)] and t = desc_answer_ok[OF assms(7-11)]
  define asked where "asked = answers [u, pin_packet three four pin, desc_packet tri twenty t, a, b, c, e] @ rest"
  have second: "bnd (with_pair ep (bnd BulkDrain (\<lambda>_. Intro))) f d' =
      f True (d'\<lparr>ud_reads := (ud_reads d')(ep_read ep := asked), ud_log := ud_log d' @ [Wrote (ep_write ep) Intro_Send]\<rparr>)"
    if "ud_faults d' = []" "ud_reads d' (ep_read ep) = answers old @ stop # [UsbData r] # asked" for d' and f :: "bool \<Rightarrow> (usb_device, 'a) st"
    using intro_answered[OF that(1) assms(2) that(2), of r] by simp
  have third: "with_pair ep probe_exchange d' = (Inr (Some (pin, c_str t, 7)), d'\<lparr>ud_reads := (ud_reads d')(ep_read ep := rest),
    ud_log := ud_log d' @ map (Wrote (ep_write ep)) probe_requests\<rparr>)" if "ud_faults d' = []" "ud_reads d' (ep_read ep) = asked" for d'
    using exchange_answered[OF that(1) _ p t, where ep = ep and rest = rest] that(2) unfolding asked_def by blast
  show ?thesis
  proof (cases halt)
    case True
    have "ud_reads d (ep_read ep) = answers old0 @ stop0 # [UsbTimeoutThrown] # answers old @ stop # [UsbData r] # asked"
      using assms(4) True unfolding asked_def by simp
    from intro_answered[OF assms(1,3) this]
    have first: "bnd (with_pair ep (bnd BulkDrain (\<lambda>_. Intro))) f d = f False (d\<lparr>ud_reads := (ud_reads d)(ep_read ep := answers old @ stop # [UsbData r] # asked),
        ud_log := ud_log d @ [Wrote (ep_write ep) Intro_Send]\<rparr>)" for f :: "bool \<Rightarrow> (usb_device, 'a) st" by simp
    show ?thesis using True assms(1) unfolding ProbePair_def by (simp add: first second third ud_event_def)
  next
    case False
    then have "ud_reads d (ep_read ep) = answers old @ stop # [UsbData r] # asked" using assms(4) unfolding asked_def by simp
    then show ?thesis using False assms(1) unfolding ProbePair_def by (simp add: second third)
  qed
qed

text \<open>A device that wants its halts cleared.\<close>

definition probed_pair :: endpoint_pair where "probed_pair = \<lparr>ep_read = 5, ep_write = 6, ep_type = BulkType\<rparr>"

definition probed_desc :: bytes where "probed_desc = lit ''RIM BlackBerry Device'' @ [0, 7]"

definition probed_reads :: "usb_result list list" where
  "probed_reads = [[UsbTimeoutThrown], [UsbTimeoutThrown], [UsbData [1]], [UsbTimeoutThrown], [UsbData []]]
     @ answers [[1, 2], pin_packet [0xff, 0, 1] [1, 0, 4, 0] 0x2100000A, desc_packet [0xff, 0, 2] (replicate 2 0 @ [2, 0] @ replicate 16 0) probed_desc, [], [], [], []]"

definition probed_device :: usb_device where
  "probed_device = \<lparr>ud_bus = 1, ud_address = 4, ud_ids = Some (VENDOR_RIM, PRODUCT_RIM_BLACKBERRY), ud_configs = [], ud_open = 0,
     ud_config = (0, 1), ud_set_config = 0, ud_claim = 0, ud_error = (-9, []), ud_reads = (\<lambda>_. [])(5 := probed_reads), ud_faults = [], ud_log = []\<rparr>"

lemma probed_facts:
  "ud_faults probed_device = []" "ends_drain [UsbTimeoutThrown]"
  "ud_reads probed_device (ep_read probed_pair) = (if True then answers [] @ [[UsbTimeoutThrown], [UsbTimeoutThrown]] else [])
    @ answers [[1]] @ [[UsbTimeoutThrown], [UsbData []]] @ answers [[1, 2], pin_packet [0xff, 0, 1] [1, 0, 4, 0] 0x2100000A,
        desc_packet [0xff, 0, 2] (replicate 2 0 @ [2, 0] @ replicate 16 0) probed_desc, [], [], [], []] @ []"
  "length ([0xff, 0, 1] :: bytes) = 3" "length ([1, 0, 4, 0] :: bytes) = 4" "length ([0xff, 0, 2] :: bytes) = 3"
  "length (replicate 2 0 @ [2, 0] @ replicate 16 0 :: bytes) = 20" "get16 (replicate 2 0 @ [2, 0] @ replicate 16 0) 2 = 2"
  "probed_desc \<noteq> []" "length probed_desc < 0xFFE0"
  by (simp_all add: probed_device_def probed_pair_def probed_reads_def ends_drain_def probed_desc_def lit_def get16_def)

lemma probed_text: "c_str probed_desc = lit ''RIM BlackBerry Device''"
  unfolding probed_desc_def by (simp add: lit_def c_str_def)

lemma ProbePair_finds_witness:
  "fst (ProbePair probed_pair probed_device) = Inr (Some (0x2100000A, lit ''RIM BlackBerry Device'', 7, True))"
  using ProbePair_finds[OF probed_facts(1,2,2,3,4,5,6,7,8,9,10)] by (simp only: probed_text fst_conv)

section \<open>What a probe does to a device\<close>

definition logged :: "usb_event list \<Rightarrow> (usb_event \<Rightarrow> bool) \<Rightarrow> usb_device \<Rightarrow> bool" where
  "logged L P d \<longleftrightarrow> (\<exists>es. ud_log d = L @ es \<and> list_all P es)"

lemma logged_more: "logged L P d \<Longrightarrow> list_all P es \<Longrightarrow> ud_log d' = ud_log d @ es \<Longrightarrow> logged L P d'"
  unfolding logged_def by (metis append_assoc list_all_append)

lemma keeps_logged_pair: "(\<And>x. P (Wrote (ep_write ep) x)) \<Longrightarrow> keeps (logged L P) (with_pair ep m)"
  unfolding keeps_def with_pair_def by (auto split: prod.splits intro: logged_more[where es = "map (Wrote (ep_write ep)) (sent z)" for z] simp: list_all_iff)

lemma keeps_logged_event: "P e \<Longrightarrow> keeps (logged L P) (ud_event e)"
  unfolding keeps_def ud_event_def by (auto intro: logged_more[where es = "[e]"])

lemma keeps_logged_throw: "keeps (logged L P) (throw_usb code msg)"
  unfolding keeps_def throw_usb_def by (auto intro: logged_more[where es = "[]"])

definition pair_events :: "(usb_event \<Rightarrow> bool) \<Rightarrow> endpoint_pair \<Rightarrow> bool" where
  "pair_events P ep \<longleftrightarrow> (\<forall>x. P (Wrote (ep_write ep) x)) \<and> P (HaltCleared (ep_read ep)) \<and> P (HaltCleared (ep_write ep))"

lemma keeps_logged_ProbePair:
  assumes "pair_events P ep" shows "keeps (logged L P) (ProbePair ep)"
  using assms unfolding ProbePair_def pair_events_def
  by (intro keeps_bnd keeps_logged_pair keeps_if keeps_basic keeps_logged_event) (auto split: option.splits intro!: keeps_bnd keeps_logged_pair)

lemma keeps_logged_pairs:
  "\<forall>ep\<in>set eps. IsBulk ep \<longrightarrow> pair_events P ep \<Longrightarrow> keeps (logged L P) (probe_pairs eps r)"
proof (induction eps r rule: probe_pairs.induct)
  case (2 ep eps r)
  show ?case
  proof (cases "ep_type ep = BulkType")
    case True
    then have "keeps (logged L P) (ProbePair ep)" using "2.prems" keeps_logged_ProbePair by (simp add: IsBulk_def)
    moreover have "keeps (logged L P) (probe_pairs eps r)" using "2.IH"(1)[OF True] "2.prems" by simp
    ultimately show ?thesis using True by (auto intro!: keeps_bnd split: option.splits)
  next
    case False
    then show ?thesis using 2 by simp
  qed
qed simp

lemma keeps_logged_endpoints:
  assumes "po_epp opts = None" "\<forall>ep\<in>set (pairs_tried eps). IsBulk ep \<longrightarrow> pair_events P ep"
  shows "keeps (logged L P) (ProbeDeviceEndpoints opts eps r)"
  using assms(1) keeps_logged_pairs[OF assms(2)] unfolding ProbeDeviceEndpoints_def
  by (auto intro!: keeps_bnd split: prod.splits)

lemma keeps_logged_rounds:
  assumes "po_epp opts = None" "\<forall>ep\<in>set (pairs_tried eps). IsBulk ep \<longrightarrow> pair_events P ep" "P (AltSet (if_alt i))"
  shows "keeps (logged L P) (probe_rounds opts i eps r)"
  unfolding probe_rounds_def using keeps_logged_endpoints[OF assms(1,2)] assms(3)
  by (intro keeps_bnd keeps_if keeps_basic keeps_logged_event)

lemma smap_put_pairs: "set (smap_put k v m) \<subseteq> insert (k, v) (set m)"
  by (induction k v m rule: smap_put.induct) (auto split: if_splits)

lemma ConfigDescriptor_keys:
  assumes "(n, i) \<in> set (ConfigDescriptor c)" shows "n = if_number i"
proof -
  have "\<forall>(n, i)\<in>set (foldl (\<lambda>m i. smap_put (if_number i) i m) m xs). n = if_number i" if "\<forall>(n, i)\<in>set m. n = if_number i" for m xs
    using that
  proof (induction xs arbitrary: m)
    case (Cons x xs)
    have "\<forall>(n, i)\<in>set (smap_put (if_number x) x m). n = if_number i" using Cons.prems smap_put_pairs[of "if_number x" x m] by blast
    then show ?case using Cons.IH by simp
  qed simp
  from this[of "[]"] assms show ?thesis by (auto simp: ConfigDescriptor_def split: option.splits)
qed

lemma DeviceDescriptor_configs:
  assumes "(n, config) \<in> set (DeviceDescriptor cs)" shows "\<exists>c. config = ConfigDescriptor c"
proof -
  have "\<forall>(n, config)\<in>set (foldl (\<lambda>m c. smap_put (config_number c) (ConfigDescriptor c) m) m cs). \<exists>c. config = ConfigDescriptor c"
    if "\<forall>(n, config)\<in>set m. \<exists>c. config = ConfigDescriptor c" for m
    using that
  proof (induction cs arbitrary: m)
    case (Cons c cs)
    have "\<forall>(n, config)\<in>set (smap_put (config_number c) (ConfigDescriptor c) m). \<exists>c. config = ConfigDescriptor c"
      using Cons.prems smap_put_pairs[of "config_number c" "ConfigDescriptor c" m] by blast
    then show ?case using Cons.IH by simp
  qed simp
  from this[of "[]"] assms show ?thesis by (auto simp: DeviceDescriptor_def)
qed

text \<open>The interface is always found again under its number.\<close>

lemma database_interface_defined:
  obtains "database_interface cs = Inr None"
  | i and i' :: iface_desc and eps where "database_interface cs = Inr (Some (i, eps))" "eps = snd (EndpointPairings (if_endpoints i'))" "eps \<noteq> []"
proof (cases "map_of (DeviceDescriptor cs) BLACKBERRY_CONFIGURATION")
  case None
  then show thesis using that(1) by (simp add: database_interface_def)
next
  case (Some config)
  show thesis
  proof (cases "find (\<lambda>(n, i). if_class i = BLACKBERRY_DB_CLASS) config")
    case None
    then show thesis using that(1) Some by (simp add: database_interface_def)
  next
    case f: (Some p)
    obtain n i where p: "p = (n, i)" by fastforce
    have "(n, i) \<in> set config" using f p by (auto simp: find_Some_iff in_set_conv_nth)
    moreover obtain c where "config = ConfigDescriptor c" using DeviceDescriptor_configs map_of_SomeD[OF Some] by blast
    ultimately have "(if_number i, i) \<in> set config" using ConfigDescriptor_keys by blast
    then obtain i' where i': "map_of config (if_number i) = Some i'" by (metis map_of_eq_None_iff option.exhaust fst_conv image_eqI)
    obtain valid eps where e: "EndpointPairings (if_endpoints i') = (valid, eps)" by fastforce
    have "database_interface cs = Inr (if \<not> valid \<or> eps = [] then None else Some (i, eps))"
      using Some f p i' e by (simp add: database_interface_def)
    note eq = this
    have eps: "eps = snd (EndpointPairings (if_endpoints i'))" using e by simp
    show thesis
    proof (cases "\<not> valid \<or> eps = []")
      case True
      then show thesis using that(1) eq by simp
    next
      case False
      then have "database_interface cs = Inr (Some (i, eps))" using eq by simp
      from that(2)[OF this eps] False show thesis by blast
    qed
  qed
qed

lemma open_part_logs:
  assumes "P (ConfigSet BLACKBERRY_CONFIGURATION)"
  shows "keeps (logged L P) open_device" "keeps (logged L P) check_configuration"
proof -
  show "keeps (logged L P) open_device" unfolding open_device_def by (intro keeps_bnd keeps_if keeps_basic keeps_logged_throw)
  show "keeps (logged L P) check_configuration" unfolding check_configuration_def
    by (auto intro!: keeps_bnd keeps_if keeps_basic keeps_logged_throw keeps_exec_if keeps_logged_event assms split: prod.splits)
qed

lemma logged_start: "logged (ud_log d) P d"
  by (simp add: logged_def)

lemma logged_run: "keeps (logged L P) m \<Longrightarrow> logged L P d \<Longrightarrow> m d = (r, d') \<Longrightarrow> logged L P d'"
  unfolding keeps_def by (metis snd_conv)

definition device_ready :: "(usb_device, unit) st" where
  "device_ready = bnd open_device (\<lambda>_. check_configuration)"

text \<open>The run of a device up to the end: the preparation, and what follows a claim.\<close>

lemma ProbeDevice_run:
  assumes "ProbeDevice opts d = (res, d')" "database_interface (ud_configs d) = Inr (Some (i, eps))"
  obtains (early) e where "device_ready d = (Inl e, d')" "res = Inl e"
  | (unclaimed) e d1 where "device_ready d = (Inr (), d1)" "res = Inl e" "ud_log d' = ud_log d1"
  | (claimed) d1 d2 d3 r where "device_ready d = (Inr (), d1)" "ud_log d2 = ud_log d1 @ [Claimed (if_number i)]"
      "probe_rounds opts i eps (ProbeResult_new (GetUsbName d) i) d2 = (r, d3)" "ud_log d' = ud_log d3 @ [Released (if_number i)]"
      "res = (case r of Inl e \<Rightarrow> Inl e | Inr r \<Rightarrow> Inr (if IsComplete (pb_ep r) then Some (r\<lparr>pb_cfgDeviceName := po_device_name opts (pb_pin r)\<rparr>) else None))"
proof -
  obtain x d1 where x: "device_ready d = (x, d1)" by fastforce
  have run: "ProbeDevice opts d = bnd device_ready (\<lambda>_.
       bnd (claim_interface (if_number i)) (\<lambda>_.
       bnd (scoped (probe_rounds opts i eps (ProbeResult_new (GetUsbName d) i)) (Released (if_number i))) (\<lambda>r.
         ret (if IsComplete (pb_ep r) then Some (r\<lparr>pb_cfgDeviceName := po_device_name opts (pb_pin r)\<rparr>) else None)))) d"
    by (simp add: ProbeDevice_def assms(2) device_ready_def)
  show thesis
  proof (cases x)
    case (Inl e)
    then show thesis using early assms(1) x unfolding run by (simp add: bnd_def[of device_ready])
  next
    case (Inr u)
    then have x: "device_ready d = (Inr (), d1)" using x by simp
    show thesis
    proof (cases "ud_claim d1 < 0")
      case True
      then show thesis using unclaimed[OF x] assms(1) x unfolding run
        by (auto simp: bnd_def[of device_ready] claim_interface_def throw_usb_def)
    next
      case False
      define d2 where "d2 = d1\<lparr>ud_log := ud_log d1 @ [Claimed (if_number i)]\<rparr>"
      obtain r d3 where r: "probe_rounds opts i eps (ProbeResult_new (GetUsbName d) i) d2 = (r, d3)" by fastforce
      have "res = (case r of Inl e \<Rightarrow> Inl e | Inr r \<Rightarrow> Inr (if IsComplete (pb_ep r) then Some (r\<lparr>pb_cfgDeviceName := po_device_name opts (pb_pin r)\<rparr>) else None))
         \<and> ud_log d' = ud_log d3 @ [Released (if_number i)]"
        using assms(1) x r False unfolding run d2_def
        by (cases r) (auto simp: bnd_def[of device_ready] claim_interface_def ud_event_def scoped_def bnd_def)
      then show thesis using claimed[OF x _ r] by (simp add: d2_def)
    qed
  qed
qed

lemma found_pairs_low:
  assumes "p \<in> set (snd (EndpointPairings eps))" shows "ep_read p < 16" "ep_write p < 16"
  using EndpointPairings_sound(2)[OF assms] ep_address_low by metis+

lemma pairs_tried_subset: "set (pairs_tried eps) \<subseteq> set eps"
  by (auto simp: pairs_tried_def dest: in_set_dropD)

lemma pairs_tried_index:
  assumes "p \<in> set (pairs_tried eps)" shows "\<exists>i<length eps. (1 < length eps \<longrightarrow> 0 < i) \<and> eps ! i = p"
proof (cases "1 < length eps")
  case True
  then obtain j where "j < length eps - 1" "p = eps ! Suc j"
    using assms by (auto simp: pairs_tried_def in_set_conv_nth nth_tl simp flip: drop_Suc)
  then show ?thesis by (intro exI[of _ "Suc j"]) auto
qed (use assms in \<open>auto simp: pairs_tried_def in_set_conv_nth\<close>)

text \<open>The events that a probe of these pairs may cause before and after it claims the interface.\<close>

definition probe_event :: "endpoint_pair list \<Rightarrow> usb_event \<Rightarrow> bool" where
  "probe_event eps e \<longleftrightarrow>
     (case e of
        Wrote a x \<Rightarrow> \<exists>i<length eps. (1 < length eps \<longrightarrow> 0 < i) \<and> IsBulk (eps ! i) \<and> ep_write (eps ! i) = a
      | HaltCleared a \<Rightarrow> a < 16
      | ConfigSet c \<Rightarrow> c = BLACKBERRY_CONFIGURATION
      | AltSet _ \<Rightarrow> True
      | _ \<Rightarrow> False)"

text \<open>
  C12: Without endpoints given by the user, the probe of a device writes only to bulk pairs of
  its database interface, and not to the first pair if there are several; a claimed
  interface is released again, whatever happens in between; without a usable interface
  nothing is done to the device. Every address in a ClearHalt call is below 16: the
  descriptor's direction bit is gone, so the halt of a read endpoint is never cleared.
\<close>

theorem ProbeDevice_safe:
  assumes "ProbeDevice opts d = (res, d')" "po_epp opts = None"
  shows "case database_interface (ud_configs d) of
      Inr (Some (i, eps)) \<Rightarrow> \<exists>es es'. list_all (probe_event eps) (es @ es')
        \<and> ud_log d' \<in> {ud_log d @ es, ud_log d @ es @ [Claimed (if_number i)] @ es' @ [Released (if_number i)]}
    | _ \<Rightarrow> d' = d"
proof (cases rule: database_interface_defined[of "ud_configs d"])
  case 1
  then show ?thesis using assms by (simp add: ProbeDevice_def)
next
  case (2 i i' eps)
  let ?P = "probe_event eps"
  have pairs: "\<forall>ep\<in>set (pairs_tried eps). IsBulk ep \<longrightarrow> pair_events ?P ep"
  proof (intro ballI impI)
    fix ep assume ep: "ep \<in> set (pairs_tried eps)" "IsBulk ep"
    obtain j where "j < length eps" "1 < length eps \<longrightarrow> 0 < j" "eps ! j = ep" using pairs_tried_index[OF ep(1)] by blast
    moreover have "ep_read ep < 16" "ep_write ep < 16" using found_pairs_low pairs_tried_subset ep(1) 2(2) by blast+
    ultimately show "pair_events ?P ep" using ep(2) by (auto simp: pair_events_def probe_event_def)
  qed
  have ready: "keeps (logged L ?P) device_ready" for L
    unfolding device_ready_def using open_part_logs[of ?P] by (auto simp: probe_event_def)
  from assms(1) 2(1) show ?thesis
  proof (cases rule: ProbeDevice_run)
    case (early e)
    from logged_run[OF ready logged_start early(1)] obtain es where "ud_log d' = ud_log d @ es" "list_all ?P es" by (auto simp: logged_def)
    then show ?thesis using 2(1) by simp (intro exI[of _ es] conjI exI[of _ "[]"], simp_all)
  next
    case (unclaimed e d1)
    from logged_run[OF ready logged_start unclaimed(1)] obtain es where "ud_log d1 = ud_log d @ es" "list_all ?P es" by (auto simp: logged_def)
    then show ?thesis using 2(1) unclaimed(3) by simp (intro exI[of _ es] conjI exI[of _ "[]"], simp_all)
  next
    case (claimed d1 d2 d3 r)
    from logged_run[OF ready logged_start claimed(1)] obtain es where es: "ud_log d1 = ud_log d @ es" "list_all ?P es" by (auto simp: logged_def)
    have "keeps (logged (ud_log d2) ?P) (probe_rounds opts i eps (ProbeResult_new (GetUsbName d) i))"
      using keeps_logged_rounds[OF assms(2) pairs] by (simp add: probe_event_def)
    from logged_run[OF this logged_start claimed(3)] obtain es' where es': "ud_log d3 = ud_log d2 @ es'" "list_all ?P es'" by (auto simp: logged_def)
    show ?thesis using 2(1) es es' claimed(2,4) by simp (intro exI[of _ es] conjI exI[of _ es'], simp_all)
  qed
qed

section \<open>What is found\<close>

lemma keeps_sequence:
  "keeps (\<lambda>z. m_zeroSocketSequence z = k) (Zero_RawSend bs)" "keeps (\<lambda>z. m_zeroSocketSequence z = k) (RawReceive h)"
proof -
  show "keeps (\<lambda>z. m_zeroSocketSequence z = k) (Zero_RawSend bs)"
    unfolding Zero_RawSend_def by (intro keeps_bnd keeps_basic keeps_if keeps_exec_if keeps_BulkWrite) simp_all
  show "keeps (\<lambda>z. m_zeroSocketSequence z = k) (RawReceive h)"
    unfolding keeps_def RawReceive_def direct_read_def wait_arrivals_def Let_def
    by (auto split: option.splits prod.splits list.splits usb_result.splits)
qed

lemma ask_attribute_sequence:
  assumes "data_ok send" "ask_attribute send ob at z = (Inr (send', x), z')"
  shows "data_ok send' \<and> m_zeroSocketSequence z' = m_zeroSocketSequence z + 1"
proof -
  obtain s where s: "data_ok s" "ask_attribute send ob at =
    bnd (gets m_zeroSocketSequence) (\<lambda>q. bnd (modify (\<lambda>z. z\<lparr>m_zeroSocketSequence := q + 1\<rparr>)) (\<lambda>_.
    bnd (Zero_RawSend (attribute_request q ob at)) (\<lambda>_. bnd (RawReceive no_handlers) (\<lambda>receive. ret (s, receive)))))"
    using ask_attribute_starts[OF assms(1)] by blast
  obtain z1 where z1: "Zero_RawSend (attribute_request (m_zeroSocketSequence z) ob at) (z\<lparr>m_zeroSocketSequence := m_zeroSocketSequence z + 1\<rparr>) = (Inr (), z1)"
    "RawReceive no_handlers z1 = (Inr x, z')" "send' = s"
    using assms(2) unfolding s(2) by (auto simp: bnd_eq_Inr)
  have "m_zeroSocketSequence z1 = m_zeroSocketSequence z + 1" using keeps_sequence(1) z1(1) unfolding keeps_def by (metis snd_conv zero.select_convs(3) zero.update_convs(3) zero.surjective)
  then have "m_zeroSocketSequence z' = m_zeroSocketSequence z + 1" using keeps_sequence(2) z1(2) unfolding keeps_def by (metis snd_conv)
  then show ?thesis using s(1) z1(3) by simp
qed

lemma ask_all_sequence:
  "data_ok send \<Longrightarrow> ask_all send ats z = (Inr u, z') \<Longrightarrow> m_zeroSocketSequence z' = m_zeroSocketSequence z + of_nat (length ats)"
proof (induction ats arbitrary: send z)
  case (Cons at ats)
  obtain s x z1 where a: "ask_attribute send SB_OBJECT_SOCKET_UNKNOWN at z = (Inr (s, x), z1)" "ask_all s ats z1 = (Inr u, z')"
    using Cons.prems(2) by (auto simp: bnd_eq_Inr)
  then show ?case using Cons.IH[of s z1] ask_attribute_sequence[OF Cons.prems(1) a(1)] by simp
qed simp

lemma probe_exchange_sequence:
  assumes "probe_exchange z = (Inr (Some (pin, t, q)), z')" "m_zeroSocketSequence z = 0" shows "q = 7"
proof -
  obtain s1 x1 z1 s2 x2 z2 s3 x3 z3 z4 where
    a: "ask_attribute Data_default SB_OBJECT_INITIAL_UNKNOWN SB_ATTR_INITIAL_UNKNOWN z = (Inr (s1, x1), z1)"
      "ask_attribute s1 SB_OBJECT_PROFILE SB_ATTR_PROFILE_PIN z1 = (Inr (s2, x2), z2)"
      "ask_attribute s2 SB_OBJECT_PROFILE SB_ATTR_PROFILE_DESC z2 = (Inr (s3, x3), z3)"
      "ask_all s3 [5, 6, 7, 8] z3 = (Inr (), z4)" "q = m_zeroSocketSequence z4"
    using assms(1) unfolding probe_exchange_def
    by (auto simp: bnd_eq_Inr simp del: ask_all.simps split: option.splits)
  have 1: "data_ok s1 \<and> m_zeroSocketSequence z1 = m_zeroSocketSequence z + 1" using ask_attribute_sequence[OF data_default_ok a(1)] .
  have 2: "data_ok s2 \<and> m_zeroSocketSequence z2 = m_zeroSocketSequence z1 + 1" using ask_attribute_sequence a(2) 1 by blast
  have 3: "data_ok s3 \<and> m_zeroSocketSequence z3 = m_zeroSocketSequence z2 + 1" using ask_attribute_sequence a(3) 2 by blast
  have "m_zeroSocketSequence z4 = m_zeroSocketSequence z3 + of_nat (length [5 :: u32, 6, 7, 8])" using ask_all_sequence a(4) 3 by blast
  then show ?thesis using 1 2 3 a(5) assms(2) by simp
qed

lemma ProbePair_sequence:
  assumes "ProbePair ep d = (Inr (Some (pin, t, q, halt)), d')" shows "q = 7"
proof -
  obtain x d1 d2 where "with_pair ep probe_exchange d1 = (Inr (Some (pin, t, q)), d2)"
    using assms unfolding ProbePair_def by (auto simp: bnd_eq_Inr split: option.splits if_splits)
  then obtain z' where "probe_exchange (SocketZero_new (ud_reads d1 (ep_read ep)) (ud_faults d1)) = (Inr (Some (pin, t, q)), z')"
    unfolding with_pair_def by (auto split: prod.splits)
  then show ?thesis by (rule probe_exchange_sequence) (simp add: SocketZero_new_def)
qed

text \<open>A result with a pair has an answer from it.\<close>

definition pair_allowed :: "probe_options \<Rightarrow> endpoint_pair list \<Rightarrow> endpoint_pair \<Rightarrow> bool" where
  "pair_allowed opts eps p \<longleftrightarrow> (case po_epp opts of Some ep \<Rightarrow> p = ep | None \<Rightarrow> p \<in> set (pairs_tried eps) \<and> IsBulk p)"

definition result_ok :: "probe_options \<Rightarrow> endpoint_pair list \<Rightarrow> probe_result \<Rightarrow> bool" where
  "result_ok opts eps r \<longleftrightarrow> (IsComplete (pb_ep r) \<longrightarrow> pb_zeroSocketSequence r = 7 \<and> pair_allowed opts eps (pb_ep r))"

lemma probe_pairs_result:
  assumes "po_epp opts = None"
  shows "probe_pairs ps r d = (Inr (r', rest), d') \<Longrightarrow> result_ok opts eps r \<Longrightarrow> set ps \<subseteq> set (pairs_tried eps) \<Longrightarrow> result_ok opts eps r'"
proof (induction ps r arbitrary: d rule: probe_pairs.induct)
  case (2 ep ps r)
  show ?case
  proof (cases "ep_type ep = BulkType")
    case True
    then obtain x d1 where x: "ProbePair ep d = (Inr x, d1)"
      "(case x of Some x \<Rightarrow> ret (found_pair ep x r, ps) | None \<Rightarrow> probe_pairs ps r) d1 = (Inr (r', rest), d')"
      using "2.prems"(1) by (auto simp: bnd_eq_Inr)
    show ?thesis
    proof (cases x)
      case None
      then show ?thesis using "2.IH"(1)[OF True] "2.prems" x(2) by simp
    next
      case (Some y)
      then obtain pin t q h where y: "x = Some (pin, t, q, h)" by (cases y) auto
      then have "q = 7" using ProbePair_sequence x(1) by blast
      then show ?thesis using x(2) y True assms "2.prems"(3) by (auto simp: result_ok_def pair_allowed_def found_pair_def IsBulk_def)
    qed
  next
    case False
    then show ?thesis using 2 by simp
  qed
qed simp

lemma endpoints_result:
  assumes "ProbeDeviceEndpoints opts eps r d = (Inr r', d')" "result_ok opts eps r" shows "result_ok opts eps r'"
proof (cases "po_epp opts")
  case None
  then obtain r1 rest where p: "probe_pairs (pairs_tried eps) r d = (Inr (r1, rest), d')"
    "r' = (case rest of ep # _ \<Rightarrow> if ProbeModem ep then r1\<lparr>pb_epModem := ep\<rparr> else r1 | [] \<Rightarrow> r1)"
    using assms(1) by (auto simp: ProbeDeviceEndpoints_def bnd_eq_Inr)
  from probe_pairs_result[OF None p(1) assms(2) order.refl] show ?thesis
    using p(2) by (auto simp: result_ok_def split: list.splits)
next
  case (Some ep)
  then obtain x where x: "ProbePair ep d = (Inr x, d')" "r' = (case x of Some x \<Rightarrow> found_pair ep x r | None \<Rightarrow> r)"
    using assms(1) by (auto simp: ProbeDeviceEndpoints_def bnd_eq_Inr)
  show ?thesis
  proof (cases x)
    case (Some y)
    then obtain pin t q h where y: "x = Some (pin, t, q, h)" by (cases y) auto
    then have "q = 7" using ProbePair_sequence x(1) by blast
    then show ?thesis using x(2) y \<open>po_epp opts = Some ep\<close> by (auto simp: result_ok_def pair_allowed_def found_pair_def)
  qed (use x assms(2) in simp)
qed

lemma rounds_result:
  assumes "probe_rounds opts i eps r d = (Inr r', d')" "result_ok opts eps r" shows "result_ok opts eps r'"
proof -
  obtain r1 d1 where r1: "ProbeDeviceEndpoints opts eps r d = (Inr r1, d1)"
    "(if \<not> IsComplete (pb_ep r1) then bnd (ud_event (AltSet (if_alt i))) (\<lambda>_. ProbeDeviceEndpoints opts eps (r1\<lparr>pb_needSetAltInterface := True\<rparr>))
      else ret r1) d1 = (Inr r', d')"
    using assms(1) by (auto simp: probe_rounds_def bnd_eq_Inr)
  have ok: "result_ok opts eps r1" using endpoints_result[OF r1(1) assms(2)] .
  then have "result_ok opts eps (r1\<lparr>pb_needSetAltInterface := True\<rparr>)" by (simp add: result_ok_def)
  then show ?thesis using r1(2) ok endpoints_result by (auto simp: bnd_eq_Inr split: if_splits)
qed

lemma ProbeDevice_result:
  assumes "ProbeDevice opts d = (Inr (Some r), d')"
  shows "IsComplete (pb_ep r) \<and> pb_zeroSocketSequence r = 7 \<and> pb_cfgDeviceName r = po_device_name opts (pb_pin r)"
proof (cases rule: database_interface_defined[of "ud_configs d"])
  case 1
  then show ?thesis using assms by (simp add: ProbeDevice_def)
next
  case (2 i i' eps)
  from assms 2(1) show ?thesis
  proof (cases rule: ProbeDevice_run)
    case (claimed d1 d2 d3 x)
    then obtain r1 where r1: "x = Inr r1" "IsComplete (pb_ep r1)" "r = r1\<lparr>pb_cfgDeviceName := po_device_name opts (pb_pin r1)\<rparr>"
      by (auto split: sum.splits if_splits)
    have "result_ok opts eps (ProbeResult_new (GetUsbName d) i)" by (simp add: result_ok_def ProbeResult_new_def IsComplete_def EndpointPair_new_def)
    then show ?thesis using rounds_result claimed(3) r1 by (auto simp: result_ok_def)
  qed simp_all
qed

text \<open>What holds of the probe object after any number of devices.\<close>

definition probe_ok :: "probe_options \<Rightarrow> probe \<Rightarrow> bool" where
  "probe_ok opts p \<longleftrightarrow>
     (\<forall>r\<in>set (pr_results p). IsComplete (pb_ep r) \<and> pb_zeroSocketSequence r = 7 \<and> pb_cfgDeviceName r = po_device_name opts (pb_pin r))
   \<and> pr_fail_count p = length (pr_fail_msgs p)
   \<and> length (pr_results p) + pr_fail_count p \<le> length (pr_devices p)"

text \<open>An error that ends the probe is not one of those that the caller wants logged.\<close>

definition stops_probe :: "probe_options \<Rightarrow> exn \<Rightarrow> probe \<Rightarrow> bool" where
  "stops_probe opts e p \<longleftrightarrow> pr_devices p \<noteq> []
     \<and> (case usb_error_of e (last (pr_devices p)) of None \<Rightarrow> True | Some (code, msg) \<Rightarrow> \<not> logs_code (po_log_exceptions opts) code)"

lemma probe_one_ok:
  assumes "probe_ok opts p" "probe_one opts d p = (res, p')"
  shows "probe_ok opts p' \<and> (\<forall>e. res = Inl e \<longrightarrow> stops_probe opts e p')"
proof -
  obtain r d' where r: "ProbeDevice opts d = (r, d')" by fastforce
  show ?thesis
  proof (cases r)
    case (Inr x)
    then show ?thesis using assms r ProbeDevice_result[of opts d] by (cases x) (auto simp: probe_one_def probe_ok_def)
  next
    case (Inl e)
    show ?thesis
    proof (cases "usb_error_of e d'")
      case None
      then show ?thesis using assms r Inl by (auto simp: probe_one_def probe_ok_def stops_probe_def)
    next
      case (Some c)
      obtain code msg where c: "usb_error_of e d' = Some (code, msg)" using Some by (cases c) auto
      show ?thesis using assms r Inl c
        by (cases "logs_code (po_log_exceptions opts) code") (auto simp: probe_one_def probe_ok_def stops_probe_def)
    qed
  qed
qed

lemma ProbeMatching_ok:
  "probe_ok opts p \<Longrightarrow> ProbeMatching opts ds p = (res, p') \<Longrightarrow> probe_ok opts p' \<and> (\<forall>e. res = Inl e \<longrightarrow> stops_probe opts e p')"
proof (induction ds arbitrary: p)
  case (Cons d ds)
  obtain r p1 where r: "probe_one opts d p = (r, p1)" by fastforce
  from probe_one_ok[OF Cons.prems(1) r] Cons.prems(2) r Cons.IH[of p1] show ?case by (cases r) auto
qed auto

lemma probe_products_ok:
  "probe_ok opts p \<Longrightarrow> probe_products opts b n ds ps p = (res, p') \<Longrightarrow> probe_ok opts p' \<and> (\<forall>e. res = Inl e \<longrightarrow> stops_probe opts e p')"
proof (induction ps arbitrary: p)
  case (Cons q ps)
  obtain r p1 where r: "ProbeMatching opts (MatchDevices VENDOR_RIM q b n ds) p = (r, p1)" by fastforce
  from ProbeMatching_ok[OF Cons.prems(1) r] Cons.prems(2) r Cons.IH[of p1] show ?case by (cases r) auto
qed auto

text \<open>
  C13: Whatever the devices do, the probe lists only results with a complete endpoint pair,
  the sequence number 7 and the device name that the configuration has for the PIN; it counts
  the messages it logged; and it ends with an exception only if the last device caused one that
  is not a USB error of a kind the caller wants logged.
\<close>

theorem Probe_new_sound:
  "probe_ok opts (snd (Probe_new opts busname devname ds))
   \<and> (case fst (Probe_new opts busname devname ds) of Inl e \<Rightarrow> stops_probe opts e (snd (Probe_new opts busname devname ds)) | Inr _ \<Rightarrow> True)"
proof -
  have start: "probe_ok opts probe_start" by (simp add: probe_ok_def probe_start_def)
  obtain res p' where r: "Probe_new opts busname devname ds = (res, p')" by fastforce
  from probe_products_ok[OF start r[unfolded Probe_new_def]] show ?thesis using r by (cases res) auto
qed

section \<open>PINs\<close>

theorem Pin_roundtrip: "Pin_extract (Pin_Str pin) old = (True, pin)"
proof -
  have good: "list_all (is_digit_of 16) (num_digits 16 (unat pin))" "num_value 16 (num_digits 16 (unat pin)) = unat pin"
    using num_digits_good[of 16 "unat pin"] by auto
  have "unat pin < 2 ^ 32" using unsigned_less[of pin] by simp
  from scan_hex_ok(1)[of "num_digits 16 (unat pin)" 32 "[]"] this show ?thesis
    using good num_digits_nonempty by (simp add: Pin_extract_def Pin_Str_def digits_of ends_word_def)
qed

lemma Probe_Find_from_spec:
  "(Probe_Find_from k rs pin = -1 \<and> (\<forall>r\<in>set rs. pb_pin r \<noteq> pin))
   \<or> (\<exists>i<length rs. Probe_Find_from k rs pin = int (k + i) \<and> pb_pin (rs ! i) = pin \<and> (\<forall>j<i. pb_pin (rs ! j) \<noteq> pin))"
proof (induction rs arbitrary: k)
  case (Cons r rs)
  show ?case
  proof (cases "pb_pin r = pin")
    case True
    then show ?thesis by (intro disjI2 exI[of _ 0]) simp
  next
    case False
    from Cons.IH[of "Suc k"] show ?thesis
    proof
      assume "\<exists>i<length rs. Probe_Find_from (Suc k) rs pin = int (Suc k + i) \<and> pb_pin (rs ! i) = pin \<and> (\<forall>j<i. pb_pin (rs ! j) \<noteq> pin)"
      then obtain i where "i < length rs" "Probe_Find_from (Suc k) rs pin = int (Suc k + i)" "pb_pin (rs ! i) = pin" "\<forall>j<i. pb_pin (rs ! j) \<noteq> pin"
        by blast
      then show ?thesis using False by (intro disjI2 exI[of _ "Suc i"]) (auto simp: nth_Cons' less_Suc_eq_0_disj)
    qed (use False in auto)
  qed
qed simp

text \<open>FindActive gives the first device with the PIN, or the only device if no PIN is asked for.\<close>

theorem FindActive_spec:
  "(FindActive rs pin = -1 \<and> (\<forall>r\<in>set rs. pb_pin r \<noteq> pin) \<and> (pin \<noteq> 0 \<or> length rs \<noteq> 1))
   \<or> (\<exists>i<length rs. FindActive rs pin = int i \<and> (\<forall>j<i. pb_pin (rs ! j) \<noteq> pin)
        \<and> (pb_pin (rs ! i) = pin \<or> pin = 0 \<and> length rs = 1))"
  using Probe_Find_from_spec[of 0 rs pin] by (auto simp: FindActive_def Probe_Find_def Let_def)

section \<open>A device that answers strangely\<close>

text \<open>
  An answer to the question for the PIN whose size field is wrong is not a failed probe of
  that pair but a BadSize exception, which no handler of the probe catches: the search ends
  with it, and the devices that follow are not looked at.
\<close>

theorem bad_answer_stops_exchange:
  assumes "direct_zero z" "arrivals z = answers [u, p] @ rest" "CheckSize p 8 = Inl e"
  shows "fst (probe_exchange z) = Inl e"
proof -
  obtain s1 z1 where 1: "data_ok s1" "direct_zero z1" "arrivals z1 = answers [p] @ rest"
    "ask_attribute Data_default SB_OBJECT_INITIAL_UNKNOWN SB_ATTR_INITIAL_UNKNOWN z = (Inr (s1, u), z1)"
    using ask_step[OF data_default_ok assms(1,2)] by blast
  obtain s2 z2 where 2: "ask_attribute s1 SB_OBJECT_PROFILE SB_ATTR_PROFILE_PIN z1 = (Inr (s2, p), z2)"
    using ask_step[OF 1(1,2,3)] by blast
  have "pin_answer p = Inl e" using assms(3) by (simp add: pin_answer_def ObjectID_def layout_simps)
  then show ?thesis unfolding probe_exchange_def using 1(4) 2 by simp
qed

theorem BadSize_ends_probe:
  assumes "ProbeDevice opts d = (Inl (BadSize x y w), d')"
  shows "ProbeMatching opts (d # ds) p = (Inl (BadSize x y w), p\<lparr>pr_devices := pr_devices p @ [d']\<rparr>)"
  using assms by (simp add: probe_one_def usb_error_of_def bnd_def)

section \<open>A device with two pairs\<close>

definition two_pairs :: "endpoint_desc list" where
  "two_pairs = [\<lparr>ed_address = 0x82, ed_attributes = 2\<rparr>, \<lparr>ed_address = 0x02, ed_attributes = 2\<rparr>,
     \<lparr>ed_address = 0x85, ed_attributes = 2\<rparr>, \<lparr>ed_address = 0x06, ed_attributes = 2\<rparr>]"

definition probed_interface :: iface_desc where
  "probed_interface = \<lparr>if_class = 0xff, if_number = 0, if_alt = 0, if_endpoints = two_pairs\<rparr>"

definition whole_device :: usb_device where
  "whole_device = probed_device\<lparr>ud_configs := [Some \<lparr>cf_value = 1, cf_interfaces = [[probed_interface]]\<rparr>]\<rparr>"

definition plain_options :: probe_options where
  "plain_options = \<lparr>po_log_exceptions = 7, po_epp = None, po_device_name = (\<lambda>_. [])\<rparr>"

lemma two_pairs_found:
  "EndpointPairings two_pairs = (True, [\<lparr>ep_read = 2, ep_write = 2, ep_type = 2\<rparr>, \<lparr>ep_read = 5, ep_write = 6, ep_type = 2\<rparr>])"
  by code_simp

lemma whole_device_interface:
  "database_interface (ud_configs whole_device) = Inr (Some (probed_interface,
     [\<lparr>ep_read = 2, ep_write = 2, ep_type = 2\<rparr>, \<lparr>ep_read = 5, ep_write = 6, ep_type = 2\<rparr>]))"
  by (simp add: whole_device_def database_interface_def DeviceDescriptor_def ConfigDescriptor_def config_number_def
      BLACKBERRY_CONFIGURATION_def BLACKBERRY_DB_CLASS_def probed_interface_def two_pairs_found)

lemma ProbeDevice_safe_witness:
  "\<exists>es es'. list_all (probe_event [\<lparr>ep_read = 2, ep_write = 2, ep_type = 2\<rparr>, \<lparr>ep_read = 5, ep_write = 6, ep_type = 2\<rparr>]) (es @ es')
     \<and> ud_log (snd (ProbeDevice plain_options whole_device)) \<in> {es, es @ [Claimed 0] @ es' @ [Released 0]}"
proof -
  obtain r d' where r: "ProbeDevice plain_options whole_device = (r, d')" by fastforce
  have "po_epp plain_options = None" "ud_log whole_device = []" "if_number probed_interface = 0"
    by (simp_all add: plain_options_def whole_device_def probed_device_def probed_interface_def)
  from ProbeDevice_safe[OF r this(1)] this(2,3) show ?thesis unfolding whole_device_interface by (simp add: r)
qed

end
