(* ===== verification/Spec2Isabelle.thy ===== *)
theory Spec2Isabelle
  imports Barry_Prelude Endian Protocol Data_Buffer Device_Tables Packets Data_Queue Router
    Exn_State Socket_Base Socket Sha1 Base64 Ppp_Filter Time_Conv Record_Fields Text_Lists Record_Build Memo Recur Calendar Task Dates Contact
    Unknown_Fields Content_Store Folder Call_Log Handheld_Agent Time_Zone Sms Service_Book Message_Base Bookmark Record_Classes Upload
    Parsers Controller Record_Link Desktop Db_Loader Desktop_Load Desktop_Save Device_Transfer
    Digits Cod_File Loader_Log Java_Loader Loader_Link Loader_Transfer
    Jvm_Debug Debug_Link Debug_Transfer
    Raw_Channel Serial_Mode Usb_Wrap Ip_Modem Probe Probe_Search
begin

text \<open>
  Barry: the library that talks to BlackBerry devices over USB (src/src/).

  A program opens a device through a Controller and a mode object. Below them, all traffic
  goes through sockets that are multiplexed over one pair of USB endpoints. A read thread
  receives every packet and a router hands it to the queue or the callback of the socket it
  belongs to; the socket layer numbers, fragments and reassembles packets and runs the
  open and close handshakes on socket 0; the packet classes build requests and take
  responses apart; the record classes translate the payload from and to C++ objects; the
  builder templates connect records to upload packets. The development models that path
  from the bottom to the top, and the small codecs beside it.

  \<^bold>\<open>Conventions.\<close> Bytes and the integers of the wire are words of their width (\<open>byte\<close>,
  \<open>u16\<close>, \<open>u32\<close>, \<open>u64\<close>), sizes and indexes are natural numbers, time values integers. The host
  is little endian with 64 bit longs. Objects are records, a C++ reference to a shared
  buffer is an argument and a result. Every exception class is a constructor of \<open>exn\<close>, and a
  step C++ leaves undefined (a read outside a buffer, a memcpy of a negative size) is the
  error \<open>UB\<close>; results are of type \<open>'a res = exn + 'a\<close>, and where the state after an
  exception matters (the socket layer) the code is written in the state and exception
  monad of Exn_State. Uninitialised memory is an argument named junk.

  \<^bold>\<open>Theories.\<close>
  \<^item> Barry_Prelude: types, errors, integers in buffers, list lemmas.
  \<^item> Endian (endian.h): the byte swaps. Protocol (protocol.h, protostructs.h, protocol.cc):
    command codes, struct sizes and offsets, the size checks.
  \<^item> Data_Buffer (data.cc, data.h): Data with its memory block, spare room in front and copy on
    write, and DBData. Locale \<open>byte_buffer\<close>, interpreted on Data.
  \<^item> Device_Tables (r_command.cc, r_dbdb.cc, r_recordstate.cc, m_desktop.cc): the command table, the
    database list and the record state table. Locale \<open>dictionary\<close> for std::map.
  \<^item> Packets (packet.cc, packet.h): all builders and accessors of ZeroPacket, DBPacket, JLPacket, JVMPacket.
  \<^item> Data_Queue (dataqueue.cc): the FIFO (locale \<open>fifo\<close>), and a labelled step relation in
    which any number of calls of wait_pop interleave with the other operations, spurious wake-ups
    included; a run is a list of events.
  \<^item> Router (router.cc, router.h): SocketRoutingQueue, one function per method, the read thread
    as rounds of DoRead over what USB delivers.
  \<^item> Exn_State: the monad. Socket_Base (socket.cc, class SocketBase): fragmenting, the response
    loops, over any socket that fulfils the locale \<open>packet_source\<close>. Socket (SocketZero, Socket): raw
    transfers, sequence numbers, open with its password exchange, close; both interpret
    \<open>packet_source\<close>.
  \<^item> Sha1 (sha1.cc): SHA-1 with its byte-wise update, and FIPS 180 as its specification, which uses
    none of the code's definitions.
  \<^item> Base64 (base64.cc), Ppp_Filter (pppfilter.cc, locale \<open>stream_filter\<close>), Time_Conv (time.cc).
  \<^item> Record_Fields (record.cc, record-internal.h): the field builders and the parse loop. Locale
    \<open>field_parser\<close>: a ParseField that moves on, so the loop ends; locale \<open>record_parser\<close>, which gives it:
    a ParseField that starts like those of the record classes. Text_Lists (record.cc, trim.h): categories
    and e-mail addresses. Dates (record.cc): class Date. Record_Build: what BuildFields and the field table
    have in common, locale \<open>record_codec\<close>: from the list of fields a class builds and what parsing them
    gives follows the round trip behind any header. Unknown_Fields: locale \<open>unknown_keeper\<close>.
  \<^item> One theory per record class. Built and parsed, so interpretations of \<open>record_codec\<close>: Memo (r_memo.cc),
    Calendar (r_calendar.cc) and Task (r_task.cc) with Recur (r_recur_base.cc), Contact (r_contact.cc),
    Content_Store (r_cstore.cc). Parsed only: Folder (r_folder.cc), Call_Log (r_calllog.cc), Handheld_Agent
    (r_hhagent.cc), Time_Zone (r_timezone.cc), Sms (r_sms.cc), Service_Book (r_servicebook.cc), Message_Base
    (r_message_base.cc and the classes derived from it), Bookmark (r_bookmark.cc). All but Bookmark interpret
    \<open>unknown_keeper\<close>, which holds of Bookmark only for records without its two structures; Bookmark and
    the packed fields of a service book interpret \<open>field_parser\<close>. Each class
    is a record, its field table, Clear, SetIds, the handling of one field, ParseHeader, ParseFields,
    BuildHeader and BuildFields. Record_Classes: what follows for all of them.
  \<^item> Upload (builder.h, builder.cc): builders. Parsers (parser.h, parser.cc): the way back, and the
    containers of parsers.
  \<^item> Controller (controller.cc, m_mode_base.cc): selecting a mode, opening it, retrying the password.
  \<^item> Desktop and Db_Loader (m_desktop.cc): the desktop mode with all its operations, the record loader,
    DeviceBuilder and DeviceParser. They are functions of the socket's Packet and NextRecord; what they
    rely on is the locale \<open>record_link\<close> of Record_Link, interpreted there on a routed socket. Desktop_Load,
    Desktop_Save and Device_Transfer hold what is proved of them.
  \<^item> Cod_File (cod.cc): reading the modules of an application file and writing one with its directory.
    Loader_Log and Java_Loader (m_javaloader.cc): the Java loader mode, all its operations, over the
    operations of its socket; what they rely on is the locale \<open>loader_link\<close> of Loader_Link, interpreted
    there on a routed socket. Loader_Transfer: what is proved of loading and saving. Digits: reading
    numbers in text, as the streams do that the event log and the serial numbers are read with.
  \<^item> Jvm_Debug (m_jvmdebug.cc): the JVM debug mode, all its operations, with locale \<open>debug_link\<close> of
    Debug_Link, interpreted on a routed socket; Debug_Transfer: what is proved of its lists.
  \<^item> Raw_Channel (m_raw_channel.cc), Serial_Mode (m_serial.cc), which sends what Ppp_Filter makes of its
    input, and Ip_Modem (m_ipmodem.cc), which uses USB endpoints of its own and no sockets.
  \<^item> Usb_Wrap (usbwrap.cc, usbwrap_libusb_1_0.cc): error codes, the transfer loops, descriptors and
    endpoint pairs. Probe (probe.cc, pin.cc): the search for devices; Probe_Search: what it finds and does.

  \<^bold>\<open>What the lemmas show.\<close> For buffers: the byte string each operation leaves, for owned and
  external memory. For tables: parsing what a device encodes. For packets: the exact bytes of
  each request. For queues and router: order, ownership of every buffer, delivery to the
  right place, a refinement of the maps and the interest flag by an abstract router, and what concurrent
  calls of wait_pop may and may not do. For sockets: a request
  goes out in fragments and the response comes back whole whatever sequence packets and
  fragments arrive; the password rules of Open. For records: round trips, what a
  record looks like after any list of fields, that reading ends and that unknown fields are kept, except
  by Bookmark. The round trips need a buffer with room for the whole record; what growing it does is shown for memos. For the desktop mode:
  loading a database stores every record in order, saving one writes every upload in order and
  stops at the first refusal, over the whole path from the record objects to the router. For the Java
  loader: what Save reads from a device and writes to a file is what LoadApp sends of that file. For the
  JVM debugger: the modules of all pages of the device's list, the threads with their details. For the raw
  channel and the serial mode: what is sent arrives. For the modem: what its packets reveal of the password, and
  when the limit on the tries is not respected. For the probe: what it finds, which endpoints it
  touches, and what becomes of errors. Where
  the code departs from its intent, a theorem states exactly when.

  \<^bold>\<open>Bounds and fuel.\<close> ParseCommonFields takes as many turns as the data has bytes, which is
  enough because every field advances (\<open>field_parser.returns\<close>). The response
  loops of the socket layer and of the desktop mode take fuel: the code waits for as long as packets arrive, and the
  lemmas show that the number of packets that arrive, or of records that are loaded or saved, is enough. LoadApp takes one
  turn per module, the loops of the Java loader that save modules or read pages one turn per answer
  (\<open>LoadApp_ends\<close>, \<open>Save_then_LoadApp\<close>); the debugger one per page or announcement
  (\<open>GetModulesList_collects\<close>, \<open>Go_waits\<close>). The search for a new record id
  is a partial function that may not end, as the loop of the code may not; the property shows
  that it ends when an id is free. All other loops are proved to terminate.

  \<^bold>\<open>Not modelled.\<close> The USB library itself (its results are the inputs of the read thread and
  of the sockets), time limits (a wait ends when nothing arrives), locking (each router operation is
  one step; only wait_pop and push are split), Dump and other printing, sorting, the operating
  system's clock and mktime, and the set-up of the connection (controller.cc, connector.cc) around
  the modelled objects. After an exception in a packet builder the objects
  are not looked at again.
\<close>

section \<open>Properties that span components\<close>

text \<open>
  C2: What AddRecord sends for a memo is that memo: the builder delivers it, the packet
  starts with the upload header that carries the record's type, unique id and exact size,
  and parsing the fields behind the header gives the memo back, up to the end of the
  packet, when the packet buffer has room for the record.
\<close>

theorem memo_upload:
  assumes "GetDBCommand con DatabaseAccess = Inr cmd" and "memo_ok ic m"
    and "n = 15 + length (encode_fields (memo_fields ic m))"
    and "has_room (m_send p) n" and "dsize (m_send p) \<le> n"
    and "rb = RecordBuilder_new (RecordFetch m) False Memo_Clear"
  shows "\<exists>p' s0 s1. AddRecord con p db (as_builder memo_class ic rb) = Inr (True, p', rb\<lparr>m_rec := m, rb_storage := True\<rparr>) \<and> m_last_dbop p' = 0x41
     \<and> take 15 (contents (m_send p')) = [s0, s1] @ le16 (word_of_nat n) @ [0x40, ucast cmd, 0x41] @ le16 (ucast db)
         @ [mm_RecType m] @ le32 (mm_RecordId m) @ [1]
     \<and> Memo_ParseFields ic (Memo_Clear\<lparr>mm_RecType := mm_RecType m, mm_RecordId := mm_RecordId m\<rparr>) (m_send p') 15 = Some (Inr (m, n))"
proof -
  have room: "has_room (m_data (DBData_data [] (m_send p) False)) n" "dsize (m_data (DBData_data [] (m_send p) False)) \<le> n"
    using assms(4,5) by (simp_all add: DBData_data_def)
  obtain s where s: "SetDBData memo_class ic m (DBData_data [] (m_send p) False) 15 = Inr (s, n)" "data_ok (m_data s)"
      "dsize (m_data s) = n" "contents (m_data s) = replicate 15 0 @ encode_fields (memo_fields ic m)"
      "m_recType s = mm_RecType m" "m_uniqueId s = mm_RecordId m"
    using SetDBData_memo[OF room assms(3,2)] by blast
  have "as_builder memo_class ic rb (DBData_data [] (m_send p) False) 15 = Inr (True, s, rb\<lparr>m_rec := m, rb_storage := True\<rparr>)"
    using s(1) by (simp add: as_builder_def BuildRecord_def assms(6) RecordBuilder_new_def RecordFetch_def)
  then obtain p' s0 s1 where p': "AddRecord con p db (as_builder memo_class ic rb) = Inr (True, p', rb\<lparr>m_rec := m, rb_storage := True\<rparr>)" "m_last_dbop p' = 0x41"
      "contents (m_send p') = [s0, s1] @ (le16 (word_of_nat n) @ [0x40, ucast cmd, 0x41]
         @ le16 (ucast db) @ [mm_RecType m] @ le32 (mm_RecordId m) @ [1]) @ encode_fields (memo_fields ic m)"
    using AddRecord_payload[where con = con and cmd = cmd and build = "as_builder memo_class ic rb" and p = p and s = s and db = db and b = "rb\<lparr>m_rec := m, rb_storage := True\<rparr>"]
      assms(1,3) s by auto
  define pre where "pre = [s0, s1] @ le16 (word_of_nat n) @ [0x40, ucast cmd, 0x41] @ le16 (ucast db) @ [mm_RecType m] @ le32 (mm_RecordId m) @ [1]"
  have pre: "length pre = 15" "contents (m_send p') = pre @ encode_fields (memo_fields ic m)"
    by (simp_all add: pre_def p'(3))
  have "Memo_ParseFields ic (Memo_Clear\<lparr>mm_RecType := mm_RecType m, mm_RecordId := mm_RecordId m\<rparr>) (m_send p') (length pre) = Some (Inr (m, n))"
    using memo_codec.parse_back[OF assms(2), of pre] by (simp add: Memo_ParseFields_def assms(3) pre)
  moreover have "take 15 (contents (m_send p')) = pre" by (simp add: pre)
  ultimately show ?thesis using p'(1,2) pre(1) by (auto simp: pre_def)
qed

lemma memo_upload_witness:
  "\<exists>p' rb' s0 s1. AddRecord sample_commands (DBPacket_new Data_default) 5
        (as_builder memo_class None (RecordBuilder_new (RecordFetch sample_memo) False Memo_Clear)) = Inr (True, p', rb')
     \<and> take 15 (contents (m_send p')) = [s0, s1] @ [46, 0, 0x40, 0x62, 0x41, 5, 0, 0, 7, 0, 0, 0, 1]"
proof -
  have "GetDBCommand sample_commands DatabaseAccess = Inr 0x62"
    by (simp add: GetDBCommand_def sample_commands_def lit_def)
  moreover have "memo_ok None sample_memo"
    by (simp add: memo_ok_def unknowns_ok_def sample_memo_def text_ok_def from_bb_def to_bb_def category_ok_def CategoryList2Str_def)
  moreover have n: "length (encode_fields (memo_fields None sample_memo)) = 31"
    by (simp add: encode_fields_def memo_fields_def sample_memo_def common_field_def to_bb_def CategoryList2Str_def)
  moreover have "has_room (m_send (DBPacket_new Data_default)) 46" "dsize (m_send (DBPacket_new Data_default)) \<le> 46"
    by (simp_all add: DBPacket_new_def has_room_def Data_default_def Data_new_def BARRY_DATA_DEFAULT_SIZE_def
        BARRY_DATA_DEFAULT_PREPEND_SIZE_def)
  ultimately show ?thesis
    using memo_upload[where con = sample_commands and cmd = "0x62" and m = sample_memo and ic = None and n = "46"
        and p = "DBPacket_new Data_default" and db = "5" and rb = "RecordBuilder_new (RecordFetch sample_memo) False Memo_Clear"]
    by (auto simp: sample_memo_def le16_def le32_def)
qed

text \<open>
  C18: The password leaves the library only as a hash: with the library's SHA-1, the one packet
  SendPasswordHash writes carries FIPS 180 of the device's challenge followed by FIPS 180 of
  the password up to its NUL, whatever the device answers. It is numbered with the current
  sequence number of socket 0, which SendOpen has used already and which is not advanced.
\<close>

theorem password_on_wire:
  assumes "zero_has_device z" and "write_faults z = []"
  shows "sent (snd (SendPasswordHash h SHA1 socket password z)) = sent z
     @ [[0, 0, 32, 0, 0x0f] @ le16 socket @ [m_zeroSocketSequence z, 0, 0, 20, 0]
          @ fips_sha1 (le32 (m_challengeSeed z) @ fips_sha1 (c_str password))]"
proof -
  define p where "p = password_command SHA1 socket (m_zeroSocketSequence z) (m_challengeSeed z) (c_str password)"
  have p: "p = [0, 0, 32, 0, 0x0f] @ le16 socket @ [m_zeroSocketSequence z, 0, 0, 20, 0]
      @ fips_sha1 (le32 (m_challengeSeed z) @ fips_sha1 (c_str password))"
    by (simp add: p_def password_command_def layout_simps le16_def flip: SHA1_fips)
  have "length p = 32" by (simp add: p flip: SHA1_fips)
  then have send: "Zero_RawSend p z = (Inr (), z\<lparr>sent := sent z @ [p]\<rparr>)" using Zero_RawSend_ok[OF assms, of p] by simp
  define I :: "zero \<Rightarrow> bool" where "I = (\<lambda>z'. sent z' = sent z @ [p] \<and> m_halfOpen z' = m_halfOpen z)"
  have st: "stable I" unfolding I_def by (rule stable_sent)
  have "keeps I (bnd (RawReceive h) (\<lambda>receive. if IsSequencePacket receive
       then bnd (modify (\<lambda>z. z\<lparr>m_modeSequencePacketSeen := True\<rparr>)) (\<lambda>_. bnd (Zero_CheckSequence 0 receive) (\<lambda>_. RawReceive h))
       else ret receive))"
    by (intro keeps_bnd keeps_if keeps_basic keeps_modify stable_RawReceive[OF st] stable_CheckSequence[OF st]) (simp add: I_def)
  moreover have "I (z\<lparr>sent := sent z @ [p]\<rparr>)" by (simp add: I_def)
  ultimately have "I (snd (SendPasswordHash h SHA1 socket password z))"
    using send unfolding SendPasswordHash_def p_def[symmetric] by (simp add: keeps_def p_def[symmetric])
  then show ?thesis by (simp add: I_def p)
qed

lemma password_on_wire_witness:
  "sent (snd (SendPasswordHash (\<lambda>_ bs. Inr bs) SHA1 7 (lit ''secret'') (zr (sample_conn []))))
     = [[0, 0, 32, 0, 0x0f, 7, 0, 0, 0, 0, 20, 0] @ fips_sha1 ([0, 0, 0, 0] @ fips_sha1 (c_str (lit ''secret'')))]"
  using password_on_wire[of "zr (sample_conn [])"] sample_conn_offers(2)[of "[]"]
  by (simp add: can_write_def le16_def le32_def) (simp add: sample_conn_def)

end
